(* ===== verification/Prelude.thy ===== *)
theory Prelude
  imports Complex_Main "HOL-Library.Word" "HOL-Library.Char_ord" "HOL-Library.List_Lexorder"
    "HOL-Library.Sublist" "HOL-Library.AList"
begin

text \<open>
  Shared vocabulary of the development: the machine types of the Rust sources, the string
  operations of the standard library the sources call, the loops that stop at the first
  \<open>Err\<close>, and the generic lemmas on lists, options and association lists that the component
  theories rely on. Nothing here models code of the repository itself.
\<close>

section \<open>Collections of facts\<close>

named_theorems engine_simps "characteristic equations of the engine's operations"
named_theorems pointer_inv "preservation of the pointer invariant"
named_theorems frame "fields of the state an operation leaves alone"

section \<open>Types\<close>

text \<open>
  \<open>u32\<close> and \<open>u64\<close> keep their width. \<open>usize\<close> values of the sources are indices and
  counters of in-memory vectors and are modelled by \<open>nat\<close>. A \<open>chrono::DateTime<Utc>\<close> is the
  number of nanoseconds since the epoch, a \<open>std::time::Duration\<close> a number of nanoseconds;
  the calendar range in which chrono's addition panics is not modelled. An effectful call is a
  function from the world to its result and the next world.
\<close>

type_synonym u16 = "16 word"
type_synonym u32 = "32 word"
type_synonym u64 = "64 word"
type_synonym date_time = int
type_synonym duration = nat
type_synonym ('w, 'a) eff = "'w \<Rightarrow> 'a \<times> 'w"

definition as_millis :: "duration \<Rightarrow> nat" where
  "as_millis d = d div 1000000"

definition from_millis :: "nat \<Rightarrow> duration" where
  "from_millis ms = ms * 1000000"

text \<open>\<open>duration.as_millis() as i64\<close>: the cast of a \<open>u128\<close> keeps the low 64 bits.\<close>

definition as_millis_i64 :: "duration \<Rightarrow> int" where
  "as_millis_i64 d = sint (word_of_nat (as_millis d) :: 64 word)"

definition add_millis :: "date_time \<Rightarrow> int \<Rightarrow> date_time" where
  "add_millis t ms = t + ms * 1000000"

definition timestamp_millis :: "date_time \<Rightarrow> int" where
  "timestamp_millis t = t div 1000000"

section \<open>Strings\<close>

text \<open>
  Rust strings are UTF-8; the sources only look for ASCII characters in them, and \<open>string\<close>
  models the bytes. \<open>is_space\<close> is \<open>char::is_whitespace\<close> on ASCII.
\<close>

definition is_space :: "char \<Rightarrow> bool" where
  "is_space c \<longleftrightarrow> (9 \<le> (of_char c :: nat) \<and> (of_char c :: nat) \<le> 13) \<or> (of_char c :: nat) = 32"

definition trim_start :: "string \<Rightarrow> string" where
  "trim_start s = dropWhile is_space s"

definition trim_end :: "string \<Rightarrow> string" where
  "trim_end s = rev (dropWhile is_space (rev s))"

definition trim :: "string \<Rightarrow> string" where
  "trim s = trim_end (trim_start s)"

definition strip_prefix_str :: "string \<Rightarrow> string \<Rightarrow> string option" where
  "strip_prefix_str p s = (if take (length p) s = p then Some (drop (length p) s) else None)"

definition strip_suffix_str :: "string \<Rightarrow> string \<Rightarrow> string option" where
  "strip_suffix_str p s =
     (if length p \<le> length s \<and> drop (length s - length p) s = p
      then Some (take (length s - length p) s) else None)"

definition ends_with :: "string \<Rightarrow> string \<Rightarrow> bool" where
  "ends_with s p \<longleftrightarrow> length p \<le> length s \<and> drop (length s - length p) s = p"

text \<open>\<open>str::contains\<close> for a string pattern.\<close>

fun contains_str :: "string \<Rightarrow> string \<Rightarrow> bool" where
  "contains_str [] p = (p = [])"
| "contains_str (c # s) p = (take (length p) (c # s) = p \<or> contains_str s p)"

text \<open>\<open>str::split(sep)\<close>: always at least one piece.\<close>

fun split_on :: "char \<Rightarrow> string \<Rightarrow> string list" where
  "split_on sep [] = [[]]"
| "split_on sep (c # s) =
     (if c = sep then [] # split_on sep s
      else case split_on sep s of [] \<Rightarrow> [[c]] | p # ps \<Rightarrow> (c # p) # ps)"

text \<open>
  \<open>str::parse::<u64>\<close> (and \<open>usize\<close>): an optional plus sign, then at least one ASCII digit,
  and a value below \<open>2 ^ 64\<close>.
\<close>

definition is_digit :: "char \<Rightarrow> bool" where
  "is_digit c \<longleftrightarrow> 48 \<le> (of_char c :: nat) \<and> (of_char c :: nat) \<le> 57"

definition is_lower :: "char \<Rightarrow> bool" where
  "is_lower c \<longleftrightarrow> (of_char c :: nat) \<in> {97..122}"

definition is_upper :: "char \<Rightarrow> bool" where
  "is_upper c \<longleftrightarrow> (of_char c :: nat) \<in> {65..90}"

definition is_alphanumeric :: "char \<Rightarrow> bool" where
  "is_alphanumeric c \<longleftrightarrow> is_lower c \<or> is_upper c \<or> is_digit c"

lemmas char_class_defs = is_alphanumeric_def is_lower_def is_upper_def is_digit_def

definition digit_value :: "char \<Rightarrow> nat" where
  "digit_value c = (of_char c :: nat) - 48"

definition decimal_value :: "string \<Rightarrow> nat" where
  "decimal_value s = foldl (\<lambda>n c. 10 * n + digit_value c) 0 s"

definition parse_digits :: "string \<Rightarrow> nat option" where
  "parse_digits s =
     (if s \<noteq> [] \<and> list_all is_digit s \<and> decimal_value s < 2 ^ 64 then Some (decimal_value s)
      else None)"

definition parse_u64 :: "string \<Rightarrow> nat option" where
  "parse_u64 s = (case s of c # r \<Rightarrow> if c = CHR ''+'' then parse_digits r else parse_digits s
                          | [] \<Rightarrow> None)"

text \<open>\<open>Display\<close> of an unsigned integer.\<close>

fun show_nat :: "nat \<Rightarrow> string" where
  "show_nat n = (if n < 10 then [char_of (48 + n)] else show_nat (n div 10) @ [char_of (48 + n mod 10)])"

declare show_nat.simps [simp del]

definition show_int :: "int \<Rightarrow> string" where
  "show_int i = (if i < 0 then CHR ''-'' # show_nat (nat (- i)) else show_nat (nat i))"

text \<open>A value between single quotes, as the format strings of the sources write it.\<close>

definition quoted :: "string \<Rightarrow> string" where
  "quoted s = CHR 0x27 # s @ [CHR 0x27]"

text \<open>
  \<open>Path::join\<close> on Unix: an absolute path replaces the base, otherwise a separator is added where the
  base does not end in one.
\<close>

definition is_absolute :: "string \<Rightarrow> bool" where
  "is_absolute p \<longleftrightarrow> take 1 p = ''/''"

definition path_join :: "string \<Rightarrow> string \<Rightarrow> string" where
  "path_join base p =
     (if is_absolute p then p
      else if base = [] \<or> last base = CHR ''/'' then base @ p else base @ ''/'' @ p)"

text \<open>\<open>Path::parent\<close>, for paths without \<open>.\<close> components: none for the root and the empty path.\<close>

definition trim_slashes :: "string \<Rightarrow> string" where
  "trim_slashes p = rev (dropWhile (\<lambda>c. c = CHR ''/'') (rev p))"

definition path_parent :: "string \<Rightarrow> string option" where
  "path_parent p =
     (let s = trim_slashes p; d = rev (dropWhile (\<lambda>c. c \<noteq> CHR ''/'') (rev s)); t = trim_slashes d
      in if s = [] then None else Some (if t = [] \<and> d \<noteq> [] then ''/'' else t))"

section \<open>Results\<close>

text \<open>The loop \<open>for x in xs { f(x)?; }\<close>: stop at the first error.\<close>

fun try_each :: "('a \<Rightarrow> 'e + unit) \<Rightarrow> 'a list \<Rightarrow> 'e + unit" where
  "try_each f [] = Inr ()"
| "try_each f (x # xs) = (case f x of Inl e \<Rightarrow> Inl e | Inr _ \<Rightarrow> try_each f xs)"

text \<open>\<open>iter().map(f).collect::<Result<Vec<_>, _>>()\<close>.\<close>

fun try_map :: "('a \<Rightarrow> 'e + 'b) \<Rightarrow> 'a list \<Rightarrow> 'e + 'b list" where
  "try_map f [] = Inr []"
| "try_map f (x # xs) =
     (case f x of Inl e \<Rightarrow> Inl e
                | Inr y \<Rightarrow> (case try_map f xs of Inl e \<Rightarrow> Inl e | Inr ys \<Rightarrow> Inr (y # ys)))"

definition ok_or :: "'e \<Rightarrow> 'a option \<Rightarrow> 'e + 'a" where
  "ok_or e x = (case x of None \<Rightarrow> Inl e | Some v \<Rightarrow> Inr v)"

definition is_ok :: "'e + 'a \<Rightarrow> bool" where
  "is_ok r = (case r of Inl _ \<Rightarrow> False | Inr _ \<Rightarrow> True)"

definition option_or :: "'a option \<Rightarrow> 'a option \<Rightarrow> 'a option" where
  "option_or a b = (case a of Some x \<Rightarrow> Some x | None \<Rightarrow> b)"

definition unwrap_or :: "'a option \<Rightarrow> 'a \<Rightarrow> 'a" where
  "unwrap_or x d = (case x of None \<Rightarrow> d | Some v \<Rightarrow> v)"

text \<open>\<open>Option::and_then\<close>, usable in nested definitions.\<close>

abbreviation and_then :: "'a option \<Rightarrow> ('a \<Rightarrow> 'b option) \<Rightarrow> 'b option" where
  "and_then \<equiv> Option.bind"

section \<open>Generic lemmas\<close>

lemma set_alist_update: "set (AList.update k v xs) \<subseteq> insert (k, v) (set xs)"
  by (induction xs) auto

lemma try_each_Inr_iff [simp]: "try_each f xs = Inr u \<longleftrightarrow> (\<forall>x \<in> set xs. f x = Inr ())"
  by (induction xs) (auto split: sum.splits)

lemma try_map_Inr_iff: "try_map f xs = Inr ys \<longleftrightarrow> list_all2 (\<lambda>x y. f x = Inr y) xs ys"
proof (induction xs arbitrary: ys)
  case (Cons x xs)
  then show ?case by (cases ys; cases "try_map f xs") (auto simp flip: Cons.IH split: sum.splits)
qed auto

lemma try_each_cong [fundef_cong]:
  "xs = ys \<Longrightarrow> (\<And>x. x \<in> set ys \<Longrightarrow> f x = g x) \<Longrightarrow> try_each f xs = try_each g ys"
  by (induction xs arbitrary: ys) (auto split: sum.splits)

lemma try_map_cong [fundef_cong]:
  "xs = ys \<Longrightarrow> (\<And>x. x \<in> set ys \<Longrightarrow> f x = g x) \<Longrightarrow> try_map f xs = try_map g ys"
  by (induction xs arbitrary: ys) (auto split: sum.splits)

lemma is_ok_simps [simp]: "is_ok (Inr x)" "\<not> is_ok (Inl e)"
  by (simp_all add: is_ok_def)

lemma ok_or_simps [simp]: "ok_or e (Some v) = Inr v" "ok_or e None = Inl e"
  by (simp_all add: ok_or_def)

lemma unwrap_or_simps [simp]: "unwrap_or (Some v) d = v" "unwrap_or None d = d"
  by (simp_all add: unwrap_or_def)

lemma option_or_simps [simp]: "option_or (Some v) b = Some v" "option_or None b = b"
  by (simp_all add: option_or_def)

lemma find_Some_memb: "List.find P xs = Some x \<Longrightarrow> x \<in> set xs \<and> P x"
  by (induction xs) (auto split: if_splits)

lemma find_None_memb: "List.find P xs = None \<Longrightarrow> x \<in> set xs \<Longrightarrow> \<not> P x"
  by (induction xs) (auto split: if_splits)

lemma length_trim_start [simp]: "length (trim_start s) \<le> length s"
  by (simp add: trim_start_def length_dropWhile_le)

lemma length_trim_end [simp]: "length (trim_end s) \<le> length s"
  by (simp add: trim_end_def) (metis length_dropWhile_le length_rev)

lemma length_trim [simp]: "length (trim s) \<le> length s"
  unfolding trim_def by (meson length_trim_end length_trim_start order_trans)

lemma strip_prefix_length: "strip_prefix_str p s = Some r \<Longrightarrow> length r = length s - length p"
  by (auto simp: strip_prefix_str_def split: if_splits)

lemma strip_prefix_Some: "strip_prefix_str p s = Some r \<longleftrightarrow> s = p @ r"
  by (auto simp: strip_prefix_str_def) (metis append_take_drop_id)

lemma strip_suffix_Some: "strip_suffix_str p s = Some r \<longleftrightarrow> s = r @ p"
proof
  assume "strip_suffix_str p s = Some r"
  then have "take (length s - length p) s = r" "drop (length s - length p) s = p"
    by (auto simp: strip_suffix_str_def split: if_splits)
  then show "s = r @ p" by (metis append_take_drop_id)
qed (simp add: strip_suffix_str_def)

lemma ends_with_iff: "ends_with s p \<longleftrightarrow> (\<exists>r. s = r @ p)"
  by (auto simp: ends_with_def) (metis append_take_drop_id)

lemma contains_str_iff: "contains_str s p \<longleftrightarrow> sublist p s"
proof (induction s)
  case (Cons c s)
  have "take (length p) (c # s) = p \<longleftrightarrow> prefix p (c # s)"
    by (metis append_eq_conv_conj prefix_def)
  with Cons show ?case by (simp add: sublist_Cons_right)
qed auto

lemma split_on_nonempty [simp]: "split_on sep s \<noteq> []"
  by (induction s) (auto split: list.splits)

lemma decimal_value_snoc: "decimal_value (s @ [c]) = 10 * decimal_value s + digit_value c"
  by (simp add: decimal_value_def)

lemma digit_value_char_of: "n < 10 \<Longrightarrow> digit_value (char_of (48 + n)) = n"
  by (simp add: digit_value_def)

lemma decimal_value_show_nat [simp]: "decimal_value (show_nat n) = n"
proof (induction n rule: show_nat.induct)
  case (1 n)
  show ?case
  proof (cases "n < 10")
    case True
    then show ?thesis
      by (simp add: show_nat.simps[of n] decimal_value_def digit_value_char_of)
  next
    case False
    with "1.IH" show ?thesis
      by (simp add: show_nat.simps[of n] decimal_value_snoc digit_value_char_of)
  qed
qed

lemma is_digit_char_of: "(n :: nat) < 10 \<Longrightarrow> is_digit (char_of (48 + n))"
  by (simp add: is_digit_def)

lemma show_nat_digits: "show_nat n \<noteq> [] \<and> list_all is_digit (show_nat n)"
proof (induction n rule: show_nat.induct)
  case (1 n)
  then show ?case by (simp add: show_nat.simps[of n] is_digit_char_of)
qed

lemma parse_digits_show_nat: "n < 2 ^ 64 \<Longrightarrow> parse_digits (show_nat n) = Some n"
  using show_nat_digits[of n] by (simp add: parse_digits_def)

lemma show_nat_inject [simp]: "show_nat m = show_nat n \<longleftrightarrow> m = n"
  by (metis decimal_value_show_nat)

lemma update_nth_same [simp]: "i < length xs \<Longrightarrow> xs[i := v] ! i = v"
  by simp

lemma as_millis_from_millis [simp]: "as_millis (from_millis ms) = ms"
  by (simp add: as_millis_def from_millis_def)

lemma as_millis_i64_small: "as_millis d < 2 ^ 63 \<Longrightarrow> as_millis_i64 d = int (as_millis d)"
  by (simp add: as_millis_i64_def signed_of_nat signed_take_bit_int_eq_self)

lemma add_millis_mono: "0 \<le> ms \<Longrightarrow> t \<le> add_millis t ms"
  by (simp add: add_millis_def)

section \<open>Effects\<close>

text \<open>
  \<open>timeout(limit, future)\<close>: how many of the world changes a future makes before its deadline passes is up to
  the runtime, so the deadline is a function from the finished run and the start to what is seen.
\<close>

type_synonym ('w, 'a) deadline = "nat \<Rightarrow> ('w, 'a) eff \<Rightarrow> ('w, 'a option) eff"

text \<open>An effect is quiet for an observation of the world that it does not change.\<close>

definition quiet :: "('w \<Rightarrow> 'o) \<Rightarrow> ('w, 'a) eff \<Rightarrow> bool" where
  "quiet obs f \<longleftrightarrow> (\<forall>w. obs (snd (f w)) = obs w)"

lemma quietD: "quiet obs f \<Longrightarrow> f w = (r, w') \<Longrightarrow> obs w' = obs w"
  by (metis quiet_def snd_conv)

lemma quiet_snd: "quiet obs f \<Longrightarrow> obs (snd (f w)) = obs w"
  by (simp add: quiet_def)

lemma quietI: "(\<And>w. obs (snd (f w)) = obs w) \<Longrightarrow> quiet obs f"
  by (simp add: quiet_def)

lemmas quiet_unfold = case_prod_unfold Let_def

end
