(* ===== verification/Json.thy ===== *)
theory Json
  imports Prelude
begin

text \<open>
  The value type of \<open>serde_json\<close> as far as the sources use it. An object is kept as the
  association list of its entries in key order, without duplicate keys (\<open>wf_json\<close>), so that
  equality of objects is equality of the lists, as \<open>Map\<close>'s equality ignores insertion order.
  A number is the crate's three-way \<open>N\<close>: a \<open>u64\<close>, a negative \<open>i64\<close>, or a finite \<open>f64\<close>,
  represented by the rational it denotes (JSON numbers are never infinite or NaN).
\<close>

section \<open>Values\<close>

datatype json_number = PosInt u64 | NegInt u64 | Float rat

datatype json =
    JNull
  | JBool bool
  | JNumber json_number
  | JString string
  | JArray "json list"
  | JObject "(string \<times> json) list"

type_synonym json_map = "(string \<times> json) list"

section \<open>Maps\<close>

text \<open>\<open>Map::insert\<close> replaces the value of a key that is present.\<close>

fun obj_insert :: "string \<Rightarrow> json \<Rightarrow> json_map \<Rightarrow> json_map" where
  "obj_insert k v [] = [(k, v)]"
| "obj_insert k v ((k', v') # m) =
     (if k < k' then (k, v) # (k', v') # m
      else if k = k' then (k, v) # m
      else (k', v') # obj_insert k v m)"

text \<open>\<open>Map::extend\<close> inserts the entries one after the other.\<close>

definition obj_extend :: "json_map \<Rightarrow> json_map \<Rightarrow> json_map" where
  "obj_extend m out = fold (\<lambda>(k, v) acc. obj_insert k v acc) out m"

text \<open>The object \<open>json!({ ... })\<close> builds from its entries.\<close>

definition json_object :: "(string \<times> json) list \<Rightarrow> json" where
  "json_object kvs = JObject (fold (\<lambda>(k, v). obj_insert k v) kvs [])"

abbreviation keys_sorted :: "('k :: linorder \<times> 'v) list \<Rightarrow> bool" where
  "keys_sorted m \<equiv> sorted_wrt (<) (map fst m)"

fun wf_json :: "json \<Rightarrow> bool" where
  "wf_json (JArray xs) = (\<forall>x \<in> set xs. wf_json x)"
| "wf_json (JObject m) = (keys_sorted m \<and> (\<forall>kv \<in> set m. wf_json (snd kv)))"
| "wf_json _ = True"

section \<open>Accessors\<close>

definition json_get :: "json \<Rightarrow> string \<Rightarrow> json option" where
  "json_get v k = (case v of JObject m \<Rightarrow> map_of m k | _ \<Rightarrow> None)"

definition as_object :: "json \<Rightarrow> json_map option" where
  "as_object v = (case v of JObject m \<Rightarrow> Some m | _ \<Rightarrow> None)"

definition as_array :: "json \<Rightarrow> json list option" where
  "as_array v = (case v of JArray xs \<Rightarrow> Some xs | _ \<Rightarrow> None)"

definition as_str :: "json \<Rightarrow> string option" where
  "as_str v = (case v of JString s \<Rightarrow> Some s | _ \<Rightarrow> None)"

definition as_bool :: "json \<Rightarrow> bool option" where
  "as_bool v = (case v of JBool b \<Rightarrow> Some b | _ \<Rightarrow> None)"

definition as_u64 :: "json \<Rightarrow> u64 option" where
  "as_u64 v = (case v of JNumber (PosInt n) \<Rightarrow> Some n | _ \<Rightarrow> None)"

definition is_null :: "json \<Rightarrow> bool" where
  "is_null v \<longleftrightarrow> v = JNull"

definition is_object :: "json \<Rightarrow> bool" where
  "is_object v \<longleftrightarrow> as_object v \<noteq> None"

definition is_string :: "json \<Rightarrow> bool" where
  "is_string v \<longleftrightarrow> as_str v \<noteq> None"

definition is_boolean :: "json \<Rightarrow> bool" where
  "is_boolean v \<longleftrightarrow> as_bool v \<noteq> None"

definition is_number :: "json \<Rightarrow> bool" where
  "is_number v = (case v of JNumber _ \<Rightarrow> True | _ \<Rightarrow> False)"

definition is_i64 :: "json \<Rightarrow> bool" where
  "is_i64 v = (case v of JNumber (PosInt n) \<Rightarrow> unat n < 2 ^ 63 | JNumber (NegInt _) \<Rightarrow> True
                       | _ \<Rightarrow> False)"

definition is_u64 :: "json \<Rightarrow> bool" where
  "is_u64 v = (case v of JNumber (PosInt _) \<Rightarrow> True | _ \<Rightarrow> False)"

section \<open>Integers as floating-point numbers\<close>

text \<open>
  The cast \<open>as f64\<close> rounds to the nearest multiple of a power of two that leaves 53
  significant bits, ties to even.
\<close>

fun bit_length :: "nat \<Rightarrow> nat" where
  "bit_length n = (if n = 0 then 0 else Suc (bit_length (n div 2)))"

declare bit_length.simps [simp del]

definition round_even :: "nat \<Rightarrow> nat \<Rightarrow> nat" where
  "round_even n e =
     (let q = n div 2 ^ e; r = n mod 2 ^ e in
      if 2 ^ e < 2 * r \<or> (2 ^ e = 2 * r \<and> odd q) then Suc q else q)"

definition f64_of_nat :: "nat \<Rightarrow> nat" where
  "f64_of_nat n = (let e = bit_length n - 53 in if e = 0 then n else round_even n e * 2 ^ e)"

definition f64_of_int :: "int \<Rightarrow> rat" where
  "f64_of_int i = (if i < 0 then - rat_of_nat (f64_of_nat (nat (- i))) else rat_of_nat (f64_of_nat (nat i)))"

definition as_f64 :: "json \<Rightarrow> rat option" where
  "as_f64 v = (case v of
       JNumber (PosInt n) \<Rightarrow> Some (f64_of_int (uint n))
     | JNumber (NegInt n) \<Rightarrow> Some (f64_of_int (sint n))
     | JNumber (Float f) \<Rightarrow> Some f
     | _ \<Rightarrow> None)"

section \<open>Lemmas\<close>

lemma map_of_obj_insert [simp]: "map_of (obj_insert k v m) = (map_of m)(k \<mapsto> v)"
  by (induction m) (auto simp: fun_eq_iff)

lemma set_obj_insert: "set (obj_insert k v m) \<subseteq> insert (k, v) (set m)"
proof (induction m)
  case (Cons kv m)
  then show ?case by (cases kv) (simp, blast)
qed simp

lemma keys_obj_insert: "set (map fst (obj_insert k v m)) = insert k (set (map fst m))"
proof (induction m)
  case (Cons kv m)
  then show ?case by (cases kv) (simp add: insert_commute)
qed simp

lemma keys_sorted_obj_insert: "keys_sorted m \<Longrightarrow> keys_sorted (obj_insert k v m)"
proof (induction m)
  case (Cons kv m)
  obtain k' v' where kv: "kv = (k', v')" by force
  from Cons have tl: "keys_sorted (obj_insert k v m)" and lt: "\<forall>x \<in> set (map fst m). k' < x"
    by (auto simp: kv)
  show ?case
  proof (cases "k < k'")
    case True
    with Cons.prems kv show ?thesis by (auto intro: less_trans)
  next
    case False
    with Cons.prems tl lt kv keys_obj_insert[of k v m] show ?thesis by auto
  qed
qed auto

lemma map_of_obj_extend: "map_of (obj_extend m out) k =
    (case map_of (rev out) k of Some v \<Rightarrow> Some v | None \<Rightarrow> map_of m k)"
  unfolding obj_extend_def
  by (induction out arbitrary: m) (auto split: option.splits simp: map_add_def)

lemma keys_sorted_obj_extend: "keys_sorted m \<Longrightarrow> keys_sorted (obj_extend m out)"
  unfolding obj_extend_def
  by (induction out arbitrary: m) (auto simp: keys_sorted_obj_insert)

lemma wf_obj_insert: "wf_json (JObject m) \<Longrightarrow> wf_json v \<Longrightarrow> wf_json (JObject (obj_insert k v m))"
  using set_obj_insert[of k v m] by (auto simp: keys_sorted_obj_insert)

lemma wf_obj_extend:
  "wf_json (JObject m) \<Longrightarrow> wf_json (JObject out) \<Longrightarrow> wf_json (JObject (obj_extend m out))"
  unfolding obj_extend_def
proof (induction out arbitrary: m)
  case (Cons kv out)
  obtain k v where kv: "kv = (k, v)" by force
  from Cons.prems kv have "wf_json (JObject (obj_insert k v m))" and "wf_json (JObject out)"
    by (auto intro!: wf_obj_insert simp del: wf_json.simps(2)) auto
  then show ?case using Cons.IH kv by simp
qed simp

lemma distinct_keys_sorted: "keys_sorted m \<Longrightarrow> distinct (map fst m)"
  by (simp add: strict_sorted_iff)

lemma bit_length_less: "n < 2 ^ bit_length n"
proof (induction n rule: bit_length.induct)
  case (1 n)
  then show ?case by (cases "n = 0") (auto simp: bit_length.simps[of n])
qed

lemma bit_length_le: "n < 2 ^ k \<Longrightarrow> bit_length n \<le> k"
proof (induction n arbitrary: k rule: bit_length.induct)
  case (1 n)
  show ?case
  proof (cases "n = 0")
    case False
    then obtain k' where k: "k = Suc k'" using "1.prems" by (cases k) auto
    with "1.prems" have "n div 2 < 2 ^ k'" by auto
    with False "1.IH" k show ?thesis by (simp add: bit_length.simps[of n])
  qed (simp add: bit_length.simps)
qed

lemma f64_of_nat_exact: "n < 2 ^ 53 \<Longrightarrow> f64_of_nat n = n"
  using bit_length_le[of n 53] by (simp add: f64_of_nat_def)

lemma f64_of_int_exact: "\<bar>i\<bar> < 2 ^ 53 \<Longrightarrow> f64_of_int i = rat_of_int i"
  by (auto simp: f64_of_int_def f64_of_nat_exact)

lemma json_get_simps [simp]:
  "json_get (JObject m) k = map_of m k" "json_get JNull k = None" "json_get (JBool b) k = None"
  "json_get (JNumber n) k = None" "json_get (JString s) k = None" "json_get (JArray xs) k = None"
  by (simp_all add: json_get_def)

lemma as_bool_simps [simp]:
  "as_bool (JBool b) = Some b" "as_bool JNull = None" "as_bool (JNumber n) = None"
  "as_bool (JString s) = None" "as_bool (JArray xs) = None" "as_bool (JObject m) = None"
  by (simp_all add: as_bool_def)

lemma as_str_simps [simp]:
  "as_str (JString s) = Some s" "as_str (JBool b) = None" "as_str JNull = None"
  "as_str (JNumber n) = None" "as_str (JArray xs) = None" "as_str (JObject m) = None"
  by (simp_all add: as_str_def)

lemma as_u64_simps [simp]:
  "as_u64 (JNumber (PosInt n)) = Some n" "as_u64 (JString s) = None" "as_u64 (JBool b) = None"
  "as_u64 JNull = None" "as_u64 (JArray xs) = None" "as_u64 (JObject m) = None"
  by (simp_all add: as_u64_def)

lemma as_object_simps [simp]:
  "as_object (JObject m) = Some m" "as_object (JString s) = None" "as_object (JBool b) = None"
  "as_object JNull = None" "as_object (JArray xs) = None" "as_object (JNumber n) = None"
  by (simp_all add: as_object_def)

lemma as_array_simps [simp]:
  "as_array (JArray xs) = Some xs" "as_array (JString s) = None" "as_array (JBool b) = None"
  "as_array JNull = None" "as_array (JObject m) = None" "as_array (JNumber n) = None"
  by (simp_all add: as_array_def)

end
