(* ===== verification/Models.thy ===== *)
theory Models
  imports Json
begin

text \<open>
  The data model of \<open>wfe-core/src/models\<close> and the error type of \<open>wfe-core/src/error.rs\<close>.
  A Rust struct is a record whose fields carry a prefix for the struct (\<open>ep_\<close> for
  \<open>ExecutionPointer\<close>, \<open>wi_\<close> for \<open>WorkflowInstance\<close>, and so on); a \<open>HashMap\<close> is an
  association list. The constructors that draw a UUID or read the clock take the value drawn as
  an argument; the theories that call them thread the source of it.
\<close>

section \<open>Errors\<close>

text \<open>
  A message built by \<open>format!\<close> is its text; where the text ends in the rendering of a JSON
  value or of another error, that is kept instead of its rendering.
\<close>

datatype wfe_error =
    WorkflowNotFound string
  | DefinitionNotFound string u32
  | EventNotFound string
  | SubscriptionNotFound string
  | StepNotFound nat
  | LockFailed string
  | Persistence string
  | Serialization string
  | StepExecution message
  | Cancelled_error
  | Other string
and message = Msg string | MsgJson string json | MsgErr string wfe_error

type_synonym 'a res = "wfe_error + 'a"

section \<open>Status\<close>

datatype workflow_status = Runnable | Suspended | Complete | Terminated

datatype pointer_status =
    Pending | Running | PComplete | Skipped | Sleeping | WaitingForEvent | Failed
  | Compensated | Cancelled | PendingPredecessor

section \<open>Error behaviour\<close>

datatype error_behavior =
    Retry duration u32
  | Suspend
  | Terminate
  | Compensate

definition default_max_retries :: u32 where
  "default_max_retries = 3"

definition default_error_behavior :: error_behavior where
  "default_error_behavior = Retry (from_millis 60000) default_max_retries"

text \<open>The serde helper \<open>duration_millis\<close>: whole milliseconds in a \<open>u64\<close>.\<close>

definition duration_millis_serialize :: "duration \<Rightarrow> u64" where
  "duration_millis_serialize d = word_of_nat (as_millis d)"

definition duration_millis_deserialize :: "u64 \<Rightarrow> duration" where
  "duration_millis_deserialize ms = from_millis (unat ms)"

section \<open>Conditions\<close>

datatype comparison_op =
    Equals | NotEquals | Gt | Gte | Lt | Lte | Contains | IsNull | IsNotNull

record field_comparison =
  fc_field :: string
  fc_operator :: comparison_op
  fc_value :: "json option"

datatype step_condition =
    All "step_condition list"
  | Any "step_condition list"
  | NoneOf "step_condition list"
  | OneOf "step_condition list"
  | Not step_condition
  | Comparison field_comparison

section \<open>Services\<close>

record service_port =
  sp_container_port :: u16
  sp_name :: "string option"
  sp_protocol :: string

definition service_port_tcp :: "u16 \<Rightarrow> service_port" where
  "service_port_tcp port =
     \<lparr>sp_container_port = port, sp_name = None, sp_protocol = ''TCP''\<rparr>"

datatype readiness_check =
    Exec "string list" | TcpSocket u16 | HttpGet u16 string

record readiness_probe =
  rp_check :: readiness_check
  rp_interval_ms :: u64
  rp_timeout_ms :: u64
  rp_retries :: u32

record service_definition =
  sd_name :: string
  sd_image :: string
  sd_ports :: "service_port list"
  sd_env :: "(string \<times> string) list"
  sd_readiness :: "readiness_probe option"
  sd_command :: "string list"
  sd_args :: "string list"
  sd_memory :: "string option"
  sd_cpu :: "string option"

record service_endpoint =
  se_name :: string
  se_host :: string
  se_ports :: "service_port list"

section \<open>Workflow definitions\<close>

record step_outcome =
  so_next_step :: nat
  so_label :: "string option"
  so_value :: "json option"

record workflow_step =
  ws_id :: nat
  ws_name :: "string option"
  ws_external_id :: "string option"
  ws_step_type :: string
  ws_children :: "nat list"
  ws_outcomes :: "step_outcome list"
  ws_error_behavior :: "error_behavior option"
  ws_compensation_step_id :: "nat option"
  ws_do_compensate :: bool
  ws_saga :: bool
  ws_step_config :: "json option"
  ws_when :: "step_condition option"

definition workflow_step_new :: "nat \<Rightarrow> string \<Rightarrow> workflow_step" where
  "workflow_step_new i step_type =
     \<lparr>ws_id = i, ws_name = None, ws_external_id = None, ws_step_type = step_type,
      ws_children = [], ws_outcomes = [], ws_error_behavior = None,
      ws_compensation_step_id = None, ws_do_compensate = False, ws_saga = False,
      ws_step_config = None, ws_when = None\<rparr>"

record shared_volume =
  sv_mount_path :: string
  sv_size :: "string option"

definition shared_volume_default :: shared_volume where
  "shared_volume_default = \<lparr>sv_mount_path = ''/workspace'', sv_size = None\<rparr>"

record workflow_definition =
  wd_id :: string
  wd_name :: "string option"
  wd_version :: u32
  wd_description :: "string option"
  wd_steps :: "workflow_step list"
  wd_default_error_behavior :: error_behavior
  wd_default_error_retry_interval :: "duration option"
  wd_services :: "service_definition list"
  wd_shared_volume :: "shared_volume option"

definition workflow_definition_new :: "string \<Rightarrow> u32 \<Rightarrow> workflow_definition" where
  "workflow_definition_new i v =
     \<lparr>wd_id = i, wd_name = None, wd_version = v, wd_description = None, wd_steps = [],
      wd_default_error_behavior = default_error_behavior,
      wd_default_error_retry_interval = None, wd_services = [], wd_shared_volume = None\<rparr>"

definition display_name :: "workflow_definition \<Rightarrow> string" where
  "display_name d = unwrap_or (wd_name d) (wd_id d)"

text \<open>The search \<open>definition.steps.iter().find(|s| s.id == id)\<close> that the engine repeats.\<close>

definition find_step :: "workflow_definition \<Rightarrow> nat \<Rightarrow> workflow_step option" where
  "find_step d i = List.find (\<lambda>s. ws_id s = i) (wd_steps d)"

definition step_name_of :: "workflow_definition \<Rightarrow> nat \<Rightarrow> string option" where
  "step_name_of d i = and_then (find_step d i) ws_name"

text \<open>\<open>WorkflowStep::artifact_inputs\<close>: the map form, then the single form.\<close>

definition artifact_inputs :: "workflow_step \<Rightarrow> (string \<times> string) list" where
  "artifact_inputs s =
     (case ws_step_config s of
        None \<Rightarrow> []
      | Some config \<Rightarrow>
          (let result =
             (case and_then (json_get config ''inputs'') as_object of
                None \<Rightarrow> []
              | Some inputs \<Rightarrow>
                  fold (\<lambda>(k, v) acc. case as_str v of None \<Rightarrow> acc | Some p \<Rightarrow> AList.update k p acc)
                    inputs [])
           in (case and_then (json_get config ''input'') as_str of
                 None \<Rightarrow> result
               | Some input \<Rightarrow> AList.update input [] result)))"

section \<open>Execution pointers\<close>

record execution_pointer =
  ep_id :: string
  ep_step_id :: nat
  ep_active :: bool
  ep_status :: pointer_status
  ep_sleep_until :: "date_time option"
  ep_persistence_data :: "json option"
  ep_start_time :: "date_time option"
  ep_end_time :: "date_time option"
  ep_event_name :: "string option"
  ep_event_key :: "string option"
  ep_event_published :: bool
  ep_event_data :: "json option"
  ep_step_name :: "string option"
  ep_retry_count :: u32
  ep_children :: "string list"
  ep_context_item :: "json option"
  ep_predecessor_id :: "string option"
  ep_outcome :: "json option"
  ep_scope :: "string list"
  ep_extension_attributes :: "(string \<times> json) list"

definition execution_pointer_new :: "string \<Rightarrow> nat \<Rightarrow> execution_pointer" where
  "execution_pointer_new uuid step_id =
     \<lparr>ep_id = uuid, ep_step_id = step_id, ep_active = True, ep_status = Pending,
      ep_sleep_until = None, ep_persistence_data = None, ep_start_time = None,
      ep_end_time = None, ep_event_name = None, ep_event_key = None,
      ep_event_published = False, ep_event_data = None, ep_step_name = None,
      ep_retry_count = 0, ep_children = [], ep_context_item = None,
      ep_predecessor_id = None, ep_outcome = None, ep_scope = [],
      ep_extension_attributes = []\<rparr>"

section \<open>Workflow instances\<close>

record workflow_instance =
  wi_id :: string
  wi_name :: string
  wi_root_workflow_id :: "string option"
  wi_workflow_definition_id :: string
  wi_version :: u32
  wi_description :: "string option"
  wi_reference :: "string option"
  wi_execution_pointers :: "execution_pointer list"
  wi_next_execution :: "int option"
  wi_status :: workflow_status
  wi_data :: json
  wi_create_time :: date_time
  wi_complete_time :: "date_time option"

definition workflow_instance_new ::
  "string \<Rightarrow> date_time \<Rightarrow> string \<Rightarrow> u32 \<Rightarrow> json \<Rightarrow> workflow_instance" where
  "workflow_instance_new uuid now def_id version data =
     \<lparr>wi_id = uuid, wi_name = [], wi_root_workflow_id = None,
      wi_workflow_definition_id = def_id, wi_version = version, wi_description = None,
      wi_reference = None, wi_execution_pointers = [], wi_next_execution = Some 0,
      wi_status = Runnable, wi_data = data, wi_create_time = now, wi_complete_time = None\<rparr>"

text \<open>
  The \<open>matches!\<close> on the five final statuses, written out twice in the sources
  (\<open>is_branch_complete\<close> and the completion check of the executor).
\<close>

fun is_final :: "pointer_status \<Rightarrow> bool" where
  "is_final PComplete = True"
| "is_final Skipped = True"
| "is_final Compensated = True"
| "is_final Cancelled = True"
| "is_final Failed = True"
| "is_final _ = False"

definition is_branch_complete :: "workflow_instance \<Rightarrow> string list \<Rightarrow> bool" where
  "is_branch_complete inst scope =
     list_all (\<lambda>p. is_final (ep_status p))
       (filter (\<lambda>p. ep_scope p = scope) (wi_execution_pointers inst))"

section \<open>Polling\<close>

datatype http_method = Get | Post | Put | Patch | Delete

datatype poll_condition =
    JsonPathEquals string json | StatusCode u16 | BodyContains string

record poll_endpoint_config =
  pc_url :: string
  pc_method :: http_method
  pc_headers :: "(string \<times> string) list"
  pc_body :: "json option"
  pc_interval :: duration
  pc_timeout :: duration
  pc_condition :: poll_condition

definition poll_endpoint_config_default :: poll_endpoint_config where
  "poll_endpoint_config_default =
     \<lparr>pc_url = [], pc_method = Get, pc_headers = [], pc_body = None, pc_interval = 0,
      pc_timeout = 0, pc_condition = StatusCode 200\<rparr>"

section \<open>Execution results\<close>

record execution_result =
  er_proceed :: bool
  er_outcome_value :: "json option"
  er_sleep_for :: "duration option"
  er_persistence_data :: "json option"
  er_event_name :: "string option"
  er_event_key :: "string option"
  er_event_as_of :: "date_time option"
  er_branch_values :: "json list option"
  er_poll_endpoint :: "poll_endpoint_config option"
  er_output_data :: "json option"

definition result_default :: execution_result where
  "result_default =
     \<lparr>er_proceed = False, er_outcome_value = None, er_sleep_for = None,
      er_persistence_data = None, er_event_name = None, er_event_key = None,
      er_event_as_of = None, er_branch_values = None, er_poll_endpoint = None,
      er_output_data = None\<rparr>"

definition result_next :: execution_result where
  "result_next = result_default\<lparr>er_proceed := True\<rparr>"

definition result_outcome :: "json \<Rightarrow> execution_result" where
  "result_outcome v = result_default\<lparr>er_proceed := True, er_outcome_value := Some v\<rparr>"

definition result_persist :: "json \<Rightarrow> execution_result" where
  "result_persist d = result_default\<lparr>er_persistence_data := Some d\<rparr>"

definition result_branch :: "json list \<Rightarrow> json option \<Rightarrow> execution_result" where
  "result_branch vs d = result_default\<lparr>er_persistence_data := d, er_branch_values := Some vs\<rparr>"

definition result_sleep :: "duration \<Rightarrow> json option \<Rightarrow> execution_result" where
  "result_sleep t d = result_default\<lparr>er_sleep_for := Some t, er_persistence_data := d\<rparr>"

definition result_wait_for_event :: "string \<Rightarrow> string \<Rightarrow> date_time \<Rightarrow> execution_result" where
  "result_wait_for_event n k as_of =
     result_default\<lparr>er_event_name := Some n, er_event_key := Some k, er_event_as_of := Some as_of\<rparr>"

definition result_poll_endpoint :: "poll_endpoint_config \<Rightarrow> execution_result" where
  "result_poll_endpoint c = result_default\<lparr>er_poll_endpoint := Some c\<rparr>"

section \<open>Events and subscriptions\<close>

record event =
  ev_id :: string
  ev_name :: string
  ev_key :: string
  ev_data :: json
  ev_time :: date_time
  ev_is_processed :: bool

definition event_new :: "string \<Rightarrow> date_time \<Rightarrow> string \<Rightarrow> string \<Rightarrow> json \<Rightarrow> event" where
  "event_new uuid now n k data =
     \<lparr>ev_id = uuid, ev_name = n, ev_key = k, ev_data = data, ev_time = now,
      ev_is_processed = False\<rparr>"

record event_subscription =
  es_id :: string
  es_workflow_id :: string
  es_step_id :: nat
  es_execution_pointer_id :: string
  es_event_name :: string
  es_event_key :: string
  es_subscribe_as_of :: date_time
  es_subscription_data :: "json option"
  es_external_token :: "string option"
  es_external_worker_id :: "string option"
  es_external_token_expiry :: "date_time option"

definition event_subscription_new ::
  "string \<Rightarrow> string \<Rightarrow> nat \<Rightarrow> string \<Rightarrow> string \<Rightarrow> string \<Rightarrow> date_time \<Rightarrow> event_subscription" where
  "event_subscription_new uuid wid step_id pid n k as_of =
     \<lparr>es_id = uuid, es_workflow_id = wid, es_step_id = step_id,
      es_execution_pointer_id = pid, es_event_name = n, es_event_key = k,
      es_subscribe_as_of = as_of, es_subscription_data = None, es_external_token = None,
      es_external_worker_id = None, es_external_token_expiry = None\<rparr>"

section \<open>Lifecycle events, execution errors, queues, scheduled commands\<close>

datatype lifecycle_event_type =
    LStarted
  | LResumed
  | LSuspended
  | LCompleted
  | LTerminated
  | LError wfe_error
  | LStepStarted nat "string option"
  | LStepCompleted nat "string option"

record lifecycle_event =
  le_event_time_utc :: date_time
  le_workflow_instance_id :: string
  le_workflow_definition_id :: string
  le_version :: u32
  le_reference :: "string option"
  le_event_type :: lifecycle_event_type

definition lifecycle_event_new ::
  "date_time \<Rightarrow> string \<Rightarrow> string \<Rightarrow> u32 \<Rightarrow> lifecycle_event_type \<Rightarrow> lifecycle_event" where
  "lifecycle_event_new now wid def_id v t =
     \<lparr>le_event_time_utc = now, le_workflow_instance_id = wid,
      le_workflow_definition_id = def_id, le_version = v, le_reference = None,
      le_event_type = t\<rparr>"

record execution_error =
  xe_error_time :: date_time
  xe_workflow_id :: string
  xe_execution_pointer_id :: string
  xe_message :: wfe_error

definition execution_error_new :: "date_time \<Rightarrow> string \<Rightarrow> string \<Rightarrow> wfe_error \<Rightarrow> execution_error" where
  "execution_error_new now wid pid msg =
     \<lparr>xe_error_time = now, xe_workflow_id = wid, xe_execution_pointer_id = pid,
      xe_message = msg\<rparr>"

datatype queue_type = QWorkflow | QEvent | QIndex

datatype command_name = ProcessWorkflow | ProcessEvent

record scheduled_command =
  sc_command_name :: command_name
  sc_data :: string
  sc_execute_time :: int

definition command_process_workflow :: "string \<Rightarrow> int \<Rightarrow> scheduled_command" where
  "command_process_workflow wid t =
     \<lparr>sc_command_name = ProcessWorkflow, sc_data = wid, sc_execute_time = t\<rparr>"

definition command_process_event :: "string \<Rightarrow> int \<Rightarrow> scheduled_command" where
  "command_process_event eid t =
     \<lparr>sc_command_name = ProcessEvent, sc_data = eid, sc_execute_time = t\<rparr>"

section \<open>Artifact references\<close>

definition artifact_ref_key :: string where
  "artifact_ref_key = ''__wfe_artifact''"

definition artifact_ref_value :: "string \<Rightarrow> json" where
  "artifact_ref_value digest = JObject [(artifact_ref_key, JString digest)]"

definition is_artifact_ref :: "json \<Rightarrow> bool" where
  "is_artifact_ref v = (case as_object v of None \<Rightarrow> False | Some m \<Rightarrow> map_of m artifact_ref_key \<noteq> None)"

definition parse_artifact_ref :: "json \<Rightarrow> string option" where
  "parse_artifact_ref v = and_then (and_then (as_object v) (\<lambda>m. map_of m artifact_ref_key)) as_str"

section \<open>Lemmas\<close>

lemmas result_defs = result_default_def result_next_def result_outcome_def result_persist_def
  result_branch_def result_sleep_def result_wait_for_event_def result_poll_endpoint_def

lemma find_step_Some: "find_step d i = Some s \<Longrightarrow> s \<in> set (wd_steps d) \<and> ws_id s = i"
  unfolding find_step_def by (drule find_Some_memb) auto

lemma find_step_None_iff: "find_step d i = None \<longleftrightarrow> i \<notin> ws_id ` set (wd_steps d)"
  by (auto simp: find_step_def find_None_iff)

lemma execution_pointer_new_simps [simp]:
  "ep_id (execution_pointer_new u i) = u" "ep_step_id (execution_pointer_new u i) = i"
  "ep_active (execution_pointer_new u i)" "ep_status (execution_pointer_new u i) = Pending"
  "ep_scope (execution_pointer_new u i) = []" "ep_sleep_until (execution_pointer_new u i) = None"
  "\<not> ep_event_published (execution_pointer_new u i)"
  by (simp_all add: execution_pointer_new_def)

text \<open>
  the serde representation of durations is a round trip for whole milliseconds that fit a
  \<open>u64\<close>, and in general loses exactly the part below a millisecond and the multiples of
  \<open>2 ^ 64\<close> milliseconds.
\<close>

theorem duration_millis_round_trip:
  "duration_millis_deserialize (duration_millis_serialize d) = from_millis (as_millis d mod 2 ^ 64)"
  by (simp add: duration_millis_deserialize_def duration_millis_serialize_def unat_of_nat)

end
