(* ===== verification/Providers.thy ===== *)
theory Providers
  imports Models
begin

text \<open>
  The provider traits of \<open>wfe-core/src/traits\<close>. A trait object is a record of its methods, each
  an effect on the world \<open>'w\<close>; the struct that implements the trait, with everything it keeps,
  lives in the world. \<open>sys\<close> is the outside the sources read directly: the clock
  (\<open>Utc::now\<close>) and the UUID source (\<open>Uuid::new_v4\<close>). A step body is likewise a record of its
  three methods; the fields of the boxed body, which the methods may change, are part of the world.
  The locales state what a client may rely on; the in-memory providers are shown to satisfy them in
  the theory that models those.
\<close>

section \<open>Clock and identifiers\<close>

record 'w sys =
  utc_now :: "('w, date_time) eff"
  uuid_v4 :: "('w, string) eff"

section \<open>Traits\<close>

record 'w lock_provider =
  acquire_lock :: "string \<Rightarrow> ('w, bool res) eff"
  release_lock :: "string \<Rightarrow> ('w, unit res) eff"

record 'w queue_provider =
  queue_work :: "string \<Rightarrow> queue_type \<Rightarrow> ('w, unit res) eff"
  dequeue_work :: "queue_type \<Rightarrow> ('w, string option res) eff"

record 'w persistence_provider =
  create_new_workflow :: "workflow_instance \<Rightarrow> ('w, string res) eff"
  persist_workflow :: "workflow_instance \<Rightarrow> ('w, unit res) eff"
  persist_workflow_with_subscriptions ::
    "workflow_instance \<Rightarrow> event_subscription list \<Rightarrow> ('w, unit res) eff"
  get_runnable_instances :: "date_time \<Rightarrow> ('w, string list res) eff"
  get_workflow_instance :: "string \<Rightarrow> ('w, workflow_instance res) eff"
  get_workflow_instance_by_name :: "string \<Rightarrow> ('w, workflow_instance res) eff"
  next_definition_sequence :: "string \<Rightarrow> ('w, u64 res) eff"
  get_workflow_instances :: "string list \<Rightarrow> ('w, workflow_instance list res) eff"
  create_event_subscription :: "event_subscription \<Rightarrow> ('w, string res) eff"
  get_subscriptions :: "string \<Rightarrow> string \<Rightarrow> date_time \<Rightarrow> ('w, event_subscription list res) eff"
  terminate_subscription :: "string \<Rightarrow> ('w, unit res) eff"
  get_subscription :: "string \<Rightarrow> ('w, event_subscription res) eff"
  get_first_open_subscription ::
    "string \<Rightarrow> string \<Rightarrow> date_time \<Rightarrow> ('w, event_subscription option res) eff"
  set_subscription_token :: "string \<Rightarrow> string \<Rightarrow> string \<Rightarrow> date_time \<Rightarrow> ('w, bool res) eff"
  clear_subscription_token :: "string \<Rightarrow> string \<Rightarrow> ('w, unit res) eff"
  create_event :: "event \<Rightarrow> ('w, string res) eff"
  get_event :: "string \<Rightarrow> ('w, event res) eff"
  get_runnable_events :: "date_time \<Rightarrow> ('w, string list res) eff"
  get_events :: "string \<Rightarrow> string \<Rightarrow> date_time \<Rightarrow> ('w, string list res) eff"
  mark_event_processed :: "string \<Rightarrow> ('w, unit res) eff"
  mark_event_unprocessed :: "string \<Rightarrow> ('w, unit res) eff"
  schedule_command :: "scheduled_command \<Rightarrow> ('w, unit res) eff"
  persist_errors :: "execution_error list \<Rightarrow> ('w, unit res) eff"

record 'w lifecycle_publisher =
  publish :: "lifecycle_event \<Rightarrow> ('w, unit res) eff"

record 'w search_index =
  index_workflow :: "workflow_instance \<Rightarrow> ('w, unit res) eff"

text \<open>
  \<open>ArtifactStore::get\<close> answers with a reader; reading it to its end gives the bytes or an I/O error.
  \<open>put\<close> consumes a stream, given by the results of the successive reads from it.
\<close>

type_synonym 'w reader = "('w, string + string) eff"

record 'w artifact_store =
  put_blob :: "(string + string) list \<Rightarrow> ('w, string res) eff"
  get_blob :: "string \<Rightarrow> ('w, 'w reader option res) eff"
  blob_exists :: "string \<Rightarrow> ('w, bool) eff"
  blob_default_expiry :: "duration option"

text \<open>A chunk of the output of a step, as \<open>LogSink::write_chunk\<close> takes it.\<close>

datatype log_stream_type = Stdout | Stderr

record log_chunk =
  lc_workflow_id :: string
  lc_definition_id :: string
  lc_step_id :: nat
  lc_step_name :: string
  lc_stream :: log_stream_type
  lc_data :: string
  lc_timestamp :: date_time

record 'w host_context =
  hc_start_workflow :: "string \<Rightarrow> u32 \<Rightarrow> json \<Rightarrow> string option \<Rightarrow> ('w, string res) eff"

type_synonym artifact_volume = "(string \<times> string) list"

record 'w step_context =
  sx_item :: "json option"
  sx_execution_pointer :: execution_pointer
  sx_persistence_data :: "json option"
  sx_step :: workflow_step
  sx_workflow :: workflow_instance
  sx_definition :: "workflow_definition option"
  sx_host_context :: "'w host_context option"
  sx_artifact_store :: "'w artifact_store option"
  sx_artifact_volume :: "artifact_volume option"
  sx_persistence :: "'w persistence_provider option"

record 'w step_body =
  run :: "'w step_context \<Rightarrow> ('w, execution_result res) eff"
  mount_artifacts :: "'w step_context \<Rightarrow> ('w, unit res) eff"
  unmount_artifacts :: "'w step_context \<Rightarrow> ('w, unit res) eff"

text \<open>A body that only implements \<open>run\<close> inherits the two no-ops of the trait.\<close>

definition default_step_body :: "('w step_context \<Rightarrow> ('w, execution_result res) eff) \<Rightarrow> 'w step_body" where
  "default_step_body f =
     \<lparr>run = f, mount_artifacts = (\<lambda>_ w. (Inr (), w)), unmount_artifacts = (\<lambda>_ w. (Inr (), w))\<rparr>"

section \<open>Step registry\<close>

type_synonym 'w step_registry = "string \<rightharpoonup> 'w step_body"

definition step_registry_new :: "'w step_registry" where
  "step_registry_new = Map.empty"

definition register_factory :: "'w step_registry \<Rightarrow> string \<Rightarrow> 'w step_body \<Rightarrow> 'w step_registry" where
  "register_factory r key body = r(key \<mapsto> body)"

definition resolve :: "'w step_registry \<Rightarrow> string \<Rightarrow> 'w step_body option" where
  "resolve r step_type = r step_type"

section \<open>Contracts\<close>

text \<open>
  A lock provider, seen through the set of held resources: an acquisition that answers reports
  whether the resource was free and leaves it held, a release that answers leaves it free, and a
  call that fails leaves the set as it was.
\<close>

locale lock_contract =
  fixes L :: "'w lock_provider" and held :: "'w \<Rightarrow> string set"
  assumes acquire_Ok:
      "acquire_lock L r w = (Inr b, w') \<Longrightarrow> b = (r \<notin> held w) \<and> held w' = insert r (held w)"
    and acquire_Err: "acquire_lock L r w = (Inl e, w') \<Longrightarrow> held w' = held w"
    and release_Ok: "release_lock L r w = (Inr u, w') \<Longrightarrow> held w' = held w - {r}"
begin

lemma acquire_exclusive:
  assumes "acquire_lock L r w = (Inr True, w')"
  shows "r \<notin> held w" and "acquire_lock L r w' = (Inr b, w'') \<Longrightarrow> \<not> b"
  using acquire_Ok[OF assms] acquire_Ok[of r w' b w''] by auto

lemma acquire_release:
  assumes "acquire_lock L r w = (Inr True, w')" and "held w'' = held w'"
    and "release_lock L r w'' = (Inr u, w3)"
  shows "held w3 = held w"
  using acquire_Ok[OF assms(1)] release_Ok[OF assms(3)] assms(2) by auto

end

text \<open>
  A queue provider, seen through the list each queue holds: first in, first out. A call that reports
  an error may nevertheless have queued the identifier, since the answer of a remote queue can be lost.
\<close>

locale queue_contract =
  fixes Q :: "'w queue_provider" and queued :: "'w \<Rightarrow> queue_type \<Rightarrow> string list"
  assumes queue_work_Ok:
      "queue_work Q i t w = (Inr u, w') \<Longrightarrow> queued w' = (queued w)(t := queued w t @ [i])"
    and queue_work_Err: "queue_work Q i t w = (Inl e, w') \<Longrightarrow>
      queued w' = queued w \<or> queued w' = (queued w)(t := queued w t @ [i])"
    and dequeue_work_Ok: "dequeue_work Q t w = (Inr r, w') \<Longrightarrow>
      (case queued w t of [] \<Rightarrow> r = None \<and> queued w' = queued w
        | i # is \<Rightarrow> r = Some i \<and> queued w' = (queued w)(t := is))"
begin

lemma queue_work_mem: "queue_work Q i t w = (Inr u, w') \<Longrightarrow> i \<in> set (queued w' t)"
  by (drule queue_work_Ok) simp

lemma queue_work_keeps: "queue_work Q i t w = (r, w') \<Longrightarrow> set (queued w t') \<subseteq> set (queued w' t')"
  by (cases r) (auto dest!: queue_work_Ok queue_work_Err)

lemma dequeue_empty_queue:
  "queued w t = [] \<Longrightarrow> queue_work Q i t w = (Inr u, w') \<Longrightarrow> dequeue_work Q t w' = (Inr r, w'') \<Longrightarrow>
     r = Some i \<and> queued w'' t = []"
  by (auto dest!: queue_work_Ok dequeue_work_Ok)

end

text \<open>
  The workflow repository, seen through the stored instances: reads do not change the store and
  answer with the stored instance or \<open>WorkflowNotFound\<close>; a successful write stores the instance
  under its id.
\<close>

locale workflow_repository =
  fixes P :: "'w persistence_provider" and stored :: "'w \<Rightarrow> string \<rightharpoonup> workflow_instance"
  assumes get_Ok: "get_workflow_instance P i w =
      ((case stored w i of None \<Rightarrow> Inl (WorkflowNotFound i) | Some x \<Rightarrow> Inr x), w)"
    and persist_Ok: "persist_workflow P x w = (Inr u, w') \<Longrightarrow> stored w' = (stored w)(wi_id x \<mapsto> x)"
    and persist_subs_Ok: "persist_workflow_with_subscriptions P x ss w = (Inr u, w') \<Longrightarrow>
      stored w' = (stored w)(wi_id x \<mapsto> x)"
    and create_Ok: "create_new_workflow P x w = (Inr i, w') \<Longrightarrow> wi_id x \<noteq> [] \<Longrightarrow> wi_name x \<noteq> [] \<Longrightarrow>
      i = wi_id x \<and> stored w' = (stored w)(i \<mapsto> x)"
begin

lemma get_after_persist:
  "persist_workflow P x w = (Inr u, w') \<Longrightarrow> get_workflow_instance P (wi_id x) w' = (Inr x, w')"
  by (simp add: get_Ok persist_Ok)

lemma get_after_persist_other:
  "persist_workflow P x w = (Inr u, w') \<Longrightarrow> i \<noteq> wi_id x \<Longrightarrow>
     fst (get_workflow_instance P i w') = fst (get_workflow_instance P i w)"
  by (simp add: get_Ok persist_Ok)

end

text \<open>
  The outside: the clock and the UUID source touch nothing but themselves, and no identifier is
  drawn twice (\<open>drawn\<close> is the set of identifiers handed out so far, \<open>good\<close> what holds of the
  world as long as they are unique).
\<close>

locale uuid_source =
  fixes S :: "'w sys" and drawn :: "'w \<Rightarrow> string set" and good :: "'w \<Rightarrow> bool"
  assumes uuid_fresh: "good w \<Longrightarrow> uuid_v4 S w = (u, w') \<Longrightarrow> u \<notin> drawn w \<and> drawn w' = insert u (drawn w) \<and> good w'"
    and now_frame: "utc_now S w = (t, w') \<Longrightarrow> drawn w' = drawn w \<and> (good w \<longrightarrow> good w')"

end
