(* ===== verification/Result_Processor.thy ===== *)
theory Result_Processor
  imports Providers
begin

text \<open>
  What the engine does with the outcome of a step: \<open>executor/result_processor.rs\<close> turns an
  \<open>ExecutionResult\<close> into a new state of the pointer, successor or child pointers, subscriptions
  and output data; \<open>executor/error_handler.rs\<close> applies the error behaviour of a failed step. The
  pointer invariant \<open>pointer_ok\<close> ties the \<open>active\<close> flag to the status; both operations keep it,
  and both leave a pointer in one of the states the code intends (\<open>process_status\<close>).
\<close>

section \<open>New pointers\<close>

text \<open>
  The block that creates a pointer for a following step: a new pointer with the step's name, the
  predecessor and the scope. It is written out four times in the sources.
\<close>

definition new_pointer ::
  "'w sys \<Rightarrow> workflow_definition \<Rightarrow> nat \<Rightarrow> string \<Rightarrow> string list \<Rightarrow> ('w, execution_pointer) eff" where
  "new_pointer S d step_id pred scope w =
     (let (u, w) = uuid_v4 S w
      in ((execution_pointer_new u step_id)
            \<lparr>ep_step_name := step_name_of d step_id, ep_predecessor_id := Some pred, ep_scope := scope\<rparr>, w))"

section \<open>Processing a result\<close>

record process_result =
  pr_new_pointers :: "execution_pointer list"
  pr_subscriptions :: "event_subscription list"
  pr_output_data :: "json option"

definition find_next_step :: "workflow_step \<Rightarrow> json option \<Rightarrow> nat option" where
  "find_next_step step outcome_value =
     (if ws_outcomes step = [] then None
      else
        case and_then outcome_value (\<lambda>v. List.find (\<lambda>oc. so_value oc = Some v) (ws_outcomes step)) of
          Some oc \<Rightarrow> Some (so_next_step oc)
        | None \<Rightarrow>
            (case List.find (\<lambda>oc. so_value oc = None) (ws_outcomes step) of
               Some oc \<Rightarrow> Some (so_next_step oc)
             | None \<Rightarrow> Some (so_next_step (hd (ws_outcomes step)))))"

text \<open>The nested loop over branch values and child steps, as a loop over the pairs.\<close>

fun spawn_children ::
  "'w sys \<Rightarrow> workflow_definition \<Rightarrow> string \<Rightarrow> string list \<Rightarrow> (json \<times> nat) list \<Rightarrow>
   ('w, execution_pointer list) eff" where
  "spawn_children S d pid child_scope [] w = ([], w)"
| "spawn_children S d pid child_scope ((value, child_step_id) # rest) w =
     (let (child, w) = new_pointer S d child_step_id pid child_scope w;
          child = child\<lparr>ep_context_item := Some value\<rparr>;
          (children, w) = spawn_children S d pid child_scope rest w
      in (child # children, w))"

definition process_proceed ::
  "'w sys \<Rightarrow> execution_result \<Rightarrow> execution_pointer \<Rightarrow> workflow_definition \<Rightarrow>
   ('w, execution_pointer \<times> execution_pointer list) eff" where
  "process_proceed S result pointer d w =
     (let (now, w) = utc_now S w;
          pointer = pointer\<lparr>ep_active := False, ep_status := PComplete, ep_end_time := Some now\<rparr>;
          (new, w) =
            (case and_then (find_step d (ep_step_id pointer))
                    (\<lambda>step. find_next_step step (er_outcome_value result)) of
               None \<Rightarrow> ([], w)
             | Some next_id \<Rightarrow>
                 (let (p, w) = new_pointer S d next_id (ep_id pointer) (ep_scope pointer) w in ([p], w)));
          pointer = (case er_outcome_value result of
                       None \<Rightarrow> pointer | Some v \<Rightarrow> pointer\<lparr>ep_outcome := Some v\<rparr>)
      in ((pointer, new), w))"

definition process_branch ::
  "'w sys \<Rightarrow> execution_result \<Rightarrow> json list \<Rightarrow> execution_pointer \<Rightarrow> workflow_definition \<Rightarrow>
   ('w, execution_pointer \<times> execution_pointer list) eff" where
  "process_branch S result branch_values pointer d w =
     (let pointer = pointer\<lparr>ep_status := Running, ep_persistence_data := er_persistence_data result\<rparr>;
          child_step_ids = (case find_step d (ep_step_id pointer) of None \<Rightarrow> [] | Some s \<Rightarrow> ws_children s);
          (children, w) =
            spawn_children S d (ep_id pointer) (ep_scope pointer @ [ep_id pointer])
              (List.product branch_values child_step_ids) w
      in ((pointer\<lparr>ep_children := ep_children pointer @ map ep_id children\<rparr>, children), w))"

definition process_wait ::
  "'w sys \<Rightarrow> execution_result \<Rightarrow> execution_pointer \<Rightarrow> string \<Rightarrow>
   ('w, execution_pointer \<times> event_subscription list) eff" where
  "process_wait S result pointer wid w =
     (let pointer = pointer\<lparr>ep_status := WaitingForEvent, ep_active := False,
                            ep_event_name := er_event_name result, ep_event_key := er_event_key result\<rparr>
      in case (er_event_name result, er_event_key result) of
           (Some n, Some k) \<Rightarrow>
             (let (as_of, w) = (case er_event_as_of result of Some t \<Rightarrow> (t, w) | None \<Rightarrow> utc_now S w);
                  (u, w) = uuid_v4 S w
              in ((pointer, [event_subscription_new u wid (ep_step_id pointer) (ep_id pointer) n k as_of]), w))
         | _ \<Rightarrow> ((pointer, []), w))"

definition process_sleep ::
  "'w sys \<Rightarrow> execution_result \<Rightarrow> duration \<Rightarrow> execution_pointer \<Rightarrow> ('w, execution_pointer) eff" where
  "process_sleep S result t pointer w =
     (let (now, w) = utc_now S w
      in (pointer\<lparr>ep_status := Sleeping, ep_active := True,
                  ep_sleep_until := Some (add_millis now (as_millis_i64 t)),
                  ep_persistence_data := er_persistence_data result\<rparr>, w))"

definition process_result ::
  "'w sys \<Rightarrow> execution_result \<Rightarrow> execution_pointer \<Rightarrow> workflow_definition \<Rightarrow> string \<Rightarrow>
   ('w, execution_pointer \<times> process_result) eff" where
  "process_result S result pointer d wid w =
     (let ((pointer, new, subs), w) =
        (if er_proceed result then
           (let ((p, new), w) = process_proceed S result pointer d w in ((p, new, []), w))
         else case er_branch_values result of
           Some vs \<Rightarrow>
             (let ((p, new), w) = process_branch S result vs pointer d w in ((p, new, []), w))
         | None \<Rightarrow>
           if er_event_name result \<noteq> None then
             (let ((p, subs), w) = process_wait S result pointer wid w in ((p, [], subs), w))
           else case er_sleep_for result of
             Some t \<Rightarrow> (let (p, w) = process_sleep S result t pointer w in ((p, [], []), w))
           | None \<Rightarrow>
             (case er_poll_endpoint result of
                Some config \<Rightarrow>
                  (let (p, w) = process_sleep S result (pc_interval config) pointer w in ((p, [], []), w))
              | None \<Rightarrow>
                  if er_persistence_data result \<noteq> None then
                    ((pointer\<lparr>ep_active := True, ep_status := Running,
                              ep_persistence_data := er_persistence_data result\<rparr>, [], []), w)
                  else ((pointer, [], []), w)))
      in ((pointer, \<lparr>pr_new_pointers = new, pr_subscriptions = subs,
                     pr_output_data = er_output_data result\<rparr>), w))"

section \<open>Handling an error\<close>

record error_handler_result =
  eh_new_pointers :: "execution_pointer list"
  eh_workflow_status :: "workflow_status option"

definition error_behavior_of :: "workflow_definition \<Rightarrow> nat \<Rightarrow> error_behavior" where
  "error_behavior_of d step_id =
     unwrap_or (and_then (find_step d step_id) ws_error_behavior) (wd_default_error_behavior d)"

definition handle_error ::
  "'w sys \<Rightarrow> execution_pointer \<Rightarrow> workflow_definition \<Rightarrow>
   ('w, execution_pointer \<times> error_handler_result) eff" where
  "handle_error S pointer d w =
     (case error_behavior_of d (ep_step_id pointer) of
        Retry interval max_retries \<Rightarrow>
          if max_retries > 0 \<and> ep_retry_count pointer \<ge> max_retries then
            ((pointer\<lparr>ep_status := Failed, ep_active := False\<rparr>,
              \<lparr>eh_new_pointers = [], eh_workflow_status = Some Suspended\<rparr>), w)
          else
            (let (now, w) = utc_now S w
             in ((pointer\<lparr>ep_retry_count := ep_retry_count pointer + 1, ep_status := Sleeping,
                          ep_active := True,
                          ep_sleep_until := Some (add_millis now (as_millis_i64 interval))\<rparr>,
                  \<lparr>eh_new_pointers = [], eh_workflow_status = None\<rparr>), w))
      | Suspend \<Rightarrow>
          ((pointer\<lparr>ep_active := False, ep_status := Failed\<rparr>,
            \<lparr>eh_new_pointers = [], eh_workflow_status = Some Suspended\<rparr>), w)
      | Terminate \<Rightarrow>
          ((pointer\<lparr>ep_active := False, ep_status := Failed\<rparr>,
            \<lparr>eh_new_pointers = [], eh_workflow_status = Some Terminated\<rparr>), w)
      | Compensate \<Rightarrow>
          (let pointer = pointer\<lparr>ep_active := False, ep_status := Failed\<rparr>
           in case and_then (find_step d (ep_step_id pointer)) ws_compensation_step_id of
                None \<Rightarrow> ((pointer, \<lparr>eh_new_pointers = [], eh_workflow_status = None\<rparr>), w)
              | Some comp_step_id \<Rightarrow>
                  (let (p, w) = new_pointer S d comp_step_id (ep_id pointer) (ep_scope pointer) w
                   in ((pointer, \<lparr>eh_new_pointers = [p], eh_workflow_status = None\<rparr>), w))))"

section \<open>The pointer invariant\<close>

text \<open>
  \<open>active\<close> is set on pointers that wait to run (also on sleeping ones) and on waiting pointers
  whose event has arrived; a sleeping pointer knows when to wake.
\<close>

definition pointer_ok :: "execution_pointer \<Rightarrow> bool" where
  "pointer_ok p \<longleftrightarrow>
     (is_final (ep_status p) \<longrightarrow> \<not> ep_active p) \<and>
     (ep_status p \<in> {Pending, Running, Sleeping} \<longrightarrow> ep_active p) \<and>
     (ep_status p = WaitingForEvent \<and> ep_active p \<longrightarrow> ep_event_published p) \<and>
     (ep_status p = Sleeping \<longrightarrow> ep_sleep_until p \<noteq> None) \<and>
     ep_status p \<noteq> PendingPredecessor"

text \<open>The status a result leads to, by the order of the code's tests.\<close>

definition process_status :: "execution_result \<Rightarrow> pointer_status \<Rightarrow> pointer_status" where
  "process_status r old =
     (if er_proceed r then PComplete
      else if er_branch_values r \<noteq> None then Running
      else if er_event_name r \<noteq> None then WaitingForEvent
      else if er_sleep_for r \<noteq> None \<or> er_poll_endpoint r \<noteq> None then Sleeping
      else if er_persistence_data r \<noteq> None then Running
      else old)"

section \<open>Lemmas\<close>

lemma pointer_ok_new [pointer_inv]: "pointer_ok (fst (new_pointer S d i pred scope w))"
  by (simp add: new_pointer_def pointer_ok_def split: prod.splits)

lemma new_pointer_fields:
  "new_pointer S d i pred scope w = (p, w') \<Longrightarrow>
     ep_step_id p = i \<and> ep_scope p = scope \<and> ep_predecessor_id p = Some pred \<and>
     ep_status p = Pending \<and> ep_active p \<and> pointer_ok p \<and> uuid_v4 S w = (ep_id p, w')"
  by (auto simp: new_pointer_def pointer_ok_def split: prod.splits)

lemma spawn_children_fields:
  "spawn_children S d pid scope pairs w = (children, w') \<Longrightarrow>
     map ep_step_id children = map snd pairs \<and>
     map ep_context_item children = map (Some \<circ> fst) pairs \<and>
     (\<forall>c \<in> set children. ep_scope c = scope \<and> ep_predecessor_id c = Some pid \<and>
        ep_status c = Pending \<and> pointer_ok c)"
proof (induction S d pid scope pairs w arbitrary: children w' rule: spawn_children.induct)
  case (2 S d pid scope v c rest w)
  obtain p w1 where p: "new_pointer S d c pid scope w = (p, w1)" by fastforce
  obtain cs w2 where cs: "spawn_children S d pid scope rest w1 = (cs, w2)" by fastforce
  from p cs "2.prems" have ch: "children = p\<lparr>ep_context_item := Some v\<rparr> # cs" by simp
  have "pointer_ok (p\<lparr>ep_context_item := Some v\<rparr>)"
    using new_pointer_fields[OF p] by (simp add: pointer_ok_def)
  with "2.IH"[OF p[symmetric] refl refl cs] new_pointer_fields[OF p] ch show ?case by simp
qed simp

lemma find_next_step_mem:
  "find_next_step s v = Some i \<Longrightarrow> \<exists>oc \<in> set (ws_outcomes s). so_next_step oc = i"
  by (auto simp: find_next_step_def bind_eq_Some_conv
      split: if_splits option.splits dest!: find_Some_memb)

lemma find_next_step_None: "find_next_step s v = None \<longleftrightarrow> ws_outcomes s = []"
  by (auto simp: find_next_step_def split: option.splits)

text \<open>What \<open>process_result\<close> keeps of the pointer, and the status it gives it.\<close>

lemma process_proceed_fields:
  "process_proceed S r p d w = ((p', new), w') \<Longrightarrow>
     ep_id p' = ep_id p \<and> ep_step_id p' = ep_step_id p \<and> ep_scope p' = ep_scope p \<and>
     ep_status p' = PComplete \<and> pointer_ok p' \<and>
     ep_outcome p' = option_or (er_outcome_value r) (ep_outcome p) \<and>
     (\<forall>q \<in> set new. pointer_ok q \<and> ep_status q = Pending \<and> ep_scope q = ep_scope p \<and>
        ep_predecessor_id q = Some (ep_id p)) \<and>
     map ep_step_id new = (case and_then (find_step d (ep_step_id p))
        (\<lambda>s. find_next_step s (er_outcome_value r)) of None \<Rightarrow> [] | Some i \<Rightarrow> [i])"
  by (auto simp: process_proceed_def pointer_ok_def Let_def
      split: prod.splits option.splits dest!: new_pointer_fields)

lemma process_branch_fields:
  assumes "process_branch S r vs p d w = ((p', new), w')"
  shows "ep_id p' = ep_id p \<and> ep_step_id p' = ep_step_id p \<and> ep_scope p' = ep_scope p \<and>
     ep_status p' = Running \<and> ep_active p' = ep_active p \<and>
     ep_persistence_data p' = er_persistence_data r \<and>
     ep_children p' = ep_children p @ map ep_id new \<and>
     (\<forall>q \<in> set new. pointer_ok q \<and> ep_status q = Pending \<and> ep_scope q = ep_scope p @ [ep_id p] \<and>
        ep_predecessor_id q = Some (ep_id p)) \<and>
     map ep_context_item new = map (Some \<circ> fst) (List.product vs
        (case find_step d (ep_step_id p) of None \<Rightarrow> [] | Some s \<Rightarrow> ws_children s)) \<and>
     map ep_step_id new = map snd (List.product vs
        (case find_step d (ep_step_id p) of None \<Rightarrow> [] | Some s \<Rightarrow> ws_children s))"
  using assms
  by (auto simp: process_branch_def Let_def split: prod.splits dest!: spawn_children_fields)

lemma process_wait_fields:
  "process_wait S r p wid w = ((p', subs), w') \<Longrightarrow>
     ep_id p' = ep_id p \<and> ep_step_id p' = ep_step_id p \<and> ep_scope p' = ep_scope p \<and>
     ep_status p' = WaitingForEvent \<and> \<not> ep_active p' \<and> pointer_ok p' \<and>
     (\<forall>s \<in> set subs. es_workflow_id s = wid \<and> es_execution_pointer_id s = ep_id p \<and>
        Some (es_event_name s) = er_event_name r \<and> Some (es_event_key s) = er_event_key r \<and>
        es_external_token s = None) \<and>
     (er_event_name r \<noteq> None \<and> er_event_key r \<noteq> None \<longrightarrow> length subs = 1)"
  by (auto simp: process_wait_def pointer_ok_def event_subscription_new_def Let_def
      split: prod.splits option.splits)

lemma process_sleep_fields:
  "process_sleep S r t p w = (p', w') \<Longrightarrow>
     ep_id p' = ep_id p \<and> ep_step_id p' = ep_step_id p \<and> ep_scope p' = ep_scope p \<and>
     ep_status p' = Sleeping \<and> ep_active p' \<and> pointer_ok p'"
  by (auto simp: process_sleep_def pointer_ok_def split: prod.splits)

lemmas process_fields = process_proceed_fields process_branch_fields process_wait_fields
  process_sleep_fields

lemma process_result_keeps:
  assumes "process_result S r p d wid w = ((p', pr), w')"
  shows "ep_id p' = ep_id p" "ep_step_id p' = ep_step_id p" "ep_scope p' = ep_scope p"
    "pr_output_data pr = er_output_data r"
  using assms
  by (auto simp: process_result_def Let_def split: if_splits prod.splits option.splits
      dest!: process_fields)

lemma process_result_status:
  assumes "process_result S r p d wid w = ((p', pr), w')"
  shows "ep_status p' = process_status r (ep_status p)"
  using assms
  by (auto simp: process_result_def process_status_def Let_def
      split: if_splits prod.splits option.splits dest!: process_fields)

lemma process_result_ok [pointer_inv]:
  assumes "process_result S r p d wid w = ((p', pr), w')"
    and "ep_status p = Running" "ep_active p"
  shows "pointer_ok p'"
  using assms
  by (auto simp: process_result_def Let_def split: if_splits prod.splits option.splits
      dest!: process_fields) (auto simp: pointer_ok_def)

lemma process_result_new_ok [pointer_inv]:
  assumes "process_result S r p d wid w = ((p', pr), w')" and "q \<in> set (pr_new_pointers pr)"
  shows "pointer_ok q \<and> ep_status q = Pending \<and> ep_predecessor_id q = Some (ep_id p) \<and>
    ep_scope q = (if er_proceed r then ep_scope p else ep_scope p @ [ep_id p])"
  using assms
  by (auto simp: process_result_def Let_def split: if_splits prod.splits option.splits
      dest!: process_fields)

lemma handle_error_keeps:
  assumes "handle_error S p d w = ((p', h), w')"
  shows "ep_id p' = ep_id p" "ep_step_id p' = ep_step_id p" "ep_scope p' = ep_scope p"
  using assms
  by (auto simp: handle_error_def Let_def split: if_splits prod.splits option.splits error_behavior.splits)

lemma handle_error_workflow_status:
  "handle_error S p d w = ((p', h), w') \<Longrightarrow> eh_workflow_status h = Some s \<Longrightarrow> s \<in> {Suspended, Terminated}"
  by (auto simp: handle_error_def Let_def split: if_splits prod.splits option.splits error_behavior.splits)

lemma handle_error_ok [pointer_inv]:
  assumes "handle_error S p d w = ((p', h), w')"
  shows "pointer_ok p'" and "q \<in> set (eh_new_pointers h) \<Longrightarrow>
      pointer_ok q \<and> ep_status q = Pending \<and> ep_predecessor_id q = Some (ep_id p) \<and> ep_scope q = ep_scope p"
  using assms
  by (auto simp: handle_error_def pointer_ok_def Let_def
      split: if_splits prod.splits option.splits error_behavior.splits dest!: new_pointer_fields)

section \<open>Properties\<close>

text \<open>
  routing. An outcome whose value equals the result's outcome value wins over everything
  else; without one the default outcome is taken, and only when there is none the first outcome.
  A step without outcomes ends its branch.
\<close>

theorem find_next_step_spec:
  "find_next_step s v =
     (case filter (\<lambda>oc. v \<noteq> None \<and> so_value oc = v) (ws_outcomes s)
           @ filter (\<lambda>oc. so_value oc = None) (ws_outcomes s) @ ws_outcomes s of
        [] \<Rightarrow> None | oc # _ \<Rightarrow> Some (so_next_step oc))"
proof -
  have find_filter: "List.find P xs = (case filter P xs of [] \<Rightarrow> None | x # _ \<Rightarrow> Some x)"
    for P and xs :: "step_outcome list"
    by (induction xs) auto
  show ?thesis
    by (cases v; cases "ws_outcomes s") (auto simp: find_next_step_def find_filter split: list.splits)
qed

lemma zip_children:
  "map ep_context_item cs = map (Some \<circ> fst) ps \<Longrightarrow> map ep_step_id cs = map snd ps \<Longrightarrow>
     map (\<lambda>c. (ep_context_item c, ep_step_id c)) cs = map (\<lambda>(v, i). (Some v, i)) ps"
  by (induction cs arbitrary: ps) auto

text \<open>
  A branching result starts one child pointer per pair of branch value and child step, in
  the order of the nested loops; every child carries its value, points back to the container and
  lies in the container's scope, and the container records their ids and keeps running.
\<close>

theorem process_result_branch:
  assumes "er_proceed r = False" and "er_branch_values r = Some vs"
    and "find_step d (ep_step_id p) = Some s"
    and "process_result S r p d wid w = ((p', pr), w')"
  shows "map (\<lambda>c. (ep_context_item c, ep_step_id c)) (pr_new_pointers pr) =
           map (\<lambda>(v, i). (Some v, i)) (List.product vs (ws_children s)) \<and>
         (\<forall>c \<in> set (pr_new_pointers pr). ep_predecessor_id c = Some (ep_id p) \<and>
            ep_scope c = ep_scope p @ [ep_id p] \<and> ep_status c = Pending \<and> ep_active c) \<and>
         ep_children p' = ep_children p @ map ep_id (pr_new_pointers pr) \<and>
         ep_status p' = Running"
proof -
  obtain new w1 where b: "process_branch S r vs p d w = ((p', new), w1)"
    and new: "pr_new_pointers pr = new"
    using assms by (auto simp: process_result_def Let_def split: prod.splits)
  from process_branch_fields[OF b] assms(3)
  show ?thesis unfolding new by (auto intro!: zip_children simp: pointer_ok_def)
qed

fun fail_times ::
  "'w sys \<Rightarrow> workflow_definition \<Rightarrow> nat \<Rightarrow> execution_pointer \<Rightarrow> 'w \<Rightarrow>
   (execution_pointer \<times> error_handler_result) \<times> 'w" where
  "fail_times S d 0 p w = handle_error S p d w"
| "fail_times S d (Suc k) p w =
     (case handle_error S p d w of ((p', _), w') \<Rightarrow> fail_times S d k p' w')"

lemma handle_error_retry:
  assumes "error_behavior_of d (ep_step_id p) = Retry interval m" and "0 < m"
    and "handle_error S p d w = ((p', h), w')"
  shows "ep_retry_count p < m \<Longrightarrow> ep_status p' = Sleeping \<and> ep_active p' \<and>
           ep_retry_count p' = ep_retry_count p + 1 \<and> eh_workflow_status h = None"
    and "ep_retry_count p \<ge> m \<Longrightarrow> ep_status p' = Failed \<and> \<not> ep_active p' \<and>
           eh_workflow_status h = Some Suspended"
  using assms by (auto simp: handle_error_def split: if_splits prod.splits)

lemma retry_count_step: "c < (m :: u32) \<Longrightarrow> unat (c + 1) = Suc (unat c)"
proof -
  assume "c < m"
  moreover have "unat m < 2 ^ LENGTH(32)" by (rule unsigned_less)
  ultimately have "Suc (unat c) < 2 ^ LENGTH(32)" by (simp add: word_less_nat_alt)
  then show ?thesis by (simp add: unat_word_ariths)
qed

lemma fail_times_count:
  assumes "error_behavior_of d (ep_step_id p) = Retry interval m" and "0 < m"
    and "fail_times S d k p w = ((p', h), w')" and "unat (ep_retry_count p) + k \<le> unat m"
  shows "if unat (ep_retry_count p) + k < unat m
         then ep_status p' = Sleeping \<and> ep_active p' \<and> eh_workflow_status h = None \<and>
              unat (ep_retry_count p') = Suc (unat (ep_retry_count p) + k)
         else ep_status p' = Failed \<and> \<not> ep_active p' \<and> eh_workflow_status h = Some Suspended"
  using assms
proof (induction k arbitrary: p w)
  case 0
  from "0.prems"(3) have q: "handle_error S p d w = ((p', h), w')" by simp
  show ?case
    using handle_error_retry[OF "0.prems"(1,2) q] retry_count_step[of "ep_retry_count p" m] "0.prems"(4)
    by (auto simp: word_less_nat_alt word_le_nat_alt)
next
  case (Suc k)
  obtain q hq w1 where q: "handle_error S p d w = ((q, hq), w1)" by (metis surj_pair)
  from Suc.prems(4) have lt: "ep_retry_count p < m" by (simp add: word_less_nat_alt)
  from handle_error_retry(1)[OF Suc.prems(1,2) q lt] retry_count_step[OF lt]
  have cnt: "unat (ep_retry_count q) = Suc (unat (ep_retry_count p))" by simp
  from Suc.prems(3) q have "fail_times S d k q w1 = ((p', h), w')" by simp
  from Suc.IH[OF _ Suc.prems(2) this] Suc.prems(1,4) cnt handle_error_keeps(2)[OF q]
  show ?case by simp
qed

text \<open>
  C12: the retry budget. Under \<open>Retry\<close> with a positive bound \<open>m\<close>, a pointer that has never
  failed is put to sleep again by each of its first \<open>m\<close> failures, the retry counter counting
  them without wrapping, and failure \<open>m + 1\<close> marks it failed and suspends the workflow.
\<close>

theorem retry_budget:
  assumes "error_behavior_of d (ep_step_id p) = Retry interval m" and "0 < m"
    and "ep_retry_count p = 0" and "fail_times S d k p w = ((p', h), w')" and "k \<le> unat m"
  shows "if k < unat m
         then ep_status p' = Sleeping \<and> ep_active p' \<and> eh_workflow_status h = None \<and>
              unat (ep_retry_count p') = Suc k
         else ep_status p' = Failed \<and> \<not> ep_active p' \<and> eh_workflow_status h = Some Suspended"
  using fail_times_count[OF assms(1,2,4)] assms(3,5) by simp

text \<open>A definition with one step and its default error behaviour (three retries).\<close>

definition one_step_def :: workflow_definition where
  "one_step_def = (workflow_definition_new ''wf'' 1)\<lparr>wd_steps := [workflow_step_new 0 ''step'']\<rparr>"

definition unit_sys :: "nat sys" where
  "unit_sys = \<lparr>utc_now = (\<lambda>n. (int n, Suc n)), uuid_v4 = (\<lambda>n. (show_nat n, Suc n))\<rparr>"

theorem retry_budget_witness:
  "\<exists>p' h w'. fail_times unit_sys one_step_def 3 (execution_pointer_new ''p'' 0) 0 = ((p', h), w') \<and>
     ep_status p' = Failed \<and> eh_workflow_status h = Some Suspended"
proof -
  obtain p' h w' where f: "fail_times unit_sys one_step_def 3 (execution_pointer_new ''p'' 0) 0 = ((p', h), w')"
    by (metis surj_pair)
  have b: "error_behavior_of one_step_def (ep_step_id (execution_pointer_new ''p'' 0)) =
      Retry (from_millis 60000) 3"
    by (simp add: error_behavior_of_def one_step_def_def find_step_def workflow_step_new_def
        workflow_definition_new_def default_error_behavior_def default_max_retries_def)
  have c: "ep_retry_count (execution_pointer_new ''p'' 0) = 0" by (simp add: execution_pointer_new_def)
  from retry_budget[OF b _ c f] f show ?thesis by auto
qed

text \<open>
  with \<open>max_retries = 0\<close> there is no budget: no number of failures ever fails the
  pointer or changes the status of the workflow.
\<close>

theorem retry_unbounded:
  assumes "error_behavior_of d (ep_step_id p) = Retry interval 0"
    and "fail_times S d k p w = ((p', h), w')"
  shows "ep_status p' = Sleeping \<and> ep_active p' \<and> eh_workflow_status h = None"
  using assms
proof (induction k arbitrary: p w)
  case 0
  then show ?case by (auto simp: handle_error_def split: prod.splits)
next
  case (Suc k)
  obtain q hq w1 where q: "handle_error S p d w = ((q, hq), w1)" by (metis surj_pair)
  with Suc.prems handle_error_keeps(2)[OF q] Suc.IH[of q w1] show ?case by simp
qed

theorem retry_unbounded_witness:
  "ep_status (fst (fst (fail_times unit_sys
      (one_step_def\<lparr>wd_default_error_behavior := Retry 0 0\<rparr>) 5 (execution_pointer_new ''p'' 0) 0))) = Sleeping"
proof -
  let ?d = "one_step_def\<lparr>wd_default_error_behavior := Retry 0 0\<rparr>"
  have "error_behavior_of ?d (ep_step_id (execution_pointer_new ''p'' 0)) = Retry 0 0"
    by (simp add: error_behavior_of_def one_step_def_def find_step_def workflow_step_new_def)
  then show ?thesis using retry_unbounded by (metis surjective_pairing)
qed

theorem process_result_branch_witness:
  "map ep_step_id (pr_new_pointers (snd (fst (process_result unit_sys
      (result_branch [JNull, JBool True] None) (execution_pointer_new ''p'' 0)
      (one_step_def\<lparr>wd_steps := [(workflow_step_new 0 ''step'')\<lparr>ws_children := [1, 2]\<rparr>]\<rparr>) ''w'' 0)))) =
    [1, 2, 1, 2]"
proof -
  let ?d = "one_step_def\<lparr>wd_steps := [(workflow_step_new 0 ''step'')\<lparr>ws_children := [1, 2]\<rparr>]\<rparr>"
  let ?s = "(workflow_step_new 0 ''step'')\<lparr>ws_children := [1, 2]\<rparr>"
  let ?r = "result_branch [JNull, JBool True] None"
  obtain p' pr w' where pr: "process_result unit_sys ?r (execution_pointer_new ''p'' 0) ?d ''w'' 0 = ((p', pr), w')"
    by (metis surj_pair)
  have "find_step ?d (ep_step_id (execution_pointer_new ''p'' 0)) = Some ?s"
    by (simp add: find_step_def workflow_step_new_def)
  from process_result_branch[OF _ _ this pr, of "[JNull, JBool True]"]
  have "map (snd \<circ> (\<lambda>c. (ep_context_item c, ep_step_id c))) (pr_new_pointers pr) = [1, 2, 1, 2]"
    by (simp add: result_defs workflow_step_new_def flip: map_map)
  then show ?thesis using pr by (simp add: comp_def)
qed

end
