(* ===== verification/Condition.thy ===== *)
theory Condition
  imports Models
begin

text \<open>
  Step conditions, \<open>wfe-core/src/executor/condition.rs\<close>: a condition tree over comparisons of
  workflow-data fields, evaluated before a step runs. A field path that does not resolve makes the
  whole evaluation \<open>Ok(false)\<close>, so that the step is skipped. The reference semantics \<open>holds\<close>
  below reads the tree as a formula; the evaluator is shown to compute it whenever the leaves can be
  evaluated, and to skip or fail exactly as the short-circuiting loops do otherwise.
\<close>

section \<open>The evaluator\<close>

datatype eval_error = FieldNotPresent | Wfe wfe_error

fun walk_segments :: "string list \<Rightarrow> json \<Rightarrow> eval_error + json" where
  "walk_segments [] current = Inr current"
| "walk_segments (segment # segments) current =
     (case parse_u64 segment of
        Some idx \<Rightarrow>
          (case as_array current of
             Some arr \<Rightarrow> if idx < length arr then walk_segments segments (arr ! idx)
                         else Inl FieldNotPresent
           | None \<Rightarrow> Inl FieldNotPresent)
      | None \<Rightarrow>
          (case as_object current of
             Some obj \<Rightarrow> (case map_of obj segment of
                             Some v \<Rightarrow> walk_segments segments v
                           | None \<Rightarrow> Inl FieldNotPresent)
           | None \<Rightarrow> Inl FieldNotPresent))"

definition resolve_field_path :: "string \<Rightarrow> json \<Rightarrow> eval_error + json" where
  "resolve_field_path path data =
     (let path = unwrap_or (strip_prefix_str ''.'' path) path in
      if path = [] then Inr data
      else let segments = split_on (CHR ''.'') path in
        if 2 \<le> length segments
           \<and> (segments ! 0 = ''outputs'' \<or> segments ! 0 = ''inputs'')
           \<and> json_get data (segments ! 0) = None
        then walk_segments (tl segments) data
        else walk_segments segments data)"

fun op_debug :: "comparison_op \<Rightarrow> string" where
  "op_debug Equals = ''Equals''"
| "op_debug NotEquals = ''NotEquals''"
| "op_debug Gt = ''Gt''"
| "op_debug Gte = ''Gte''"
| "op_debug Lt = ''Lt''"
| "op_debug Lte = ''Lte''"
| "op_debug Contains = ''Contains''"
| "op_debug IsNull = ''IsNull''"
| "op_debug IsNotNull = ''IsNotNull''"

fun value_type_name :: "json \<Rightarrow> string" where
  "value_type_name JNull = ''null''"
| "value_type_name (JBool _) = ''bool''"
| "value_type_name (JNumber _) = ''number''"
| "value_type_name (JString _) = ''string''"
| "value_type_name (JArray _) = ''array''"
| "value_type_name (JObject _) = ''object''"

definition eval_fail :: "message \<Rightarrow> eval_error + 'a" where
  "eval_fail m = Inl (Wfe (StepExecution m))"

definition compare_numeric ::
  "json \<Rightarrow> field_comparison \<Rightarrow> (rat \<Rightarrow> rat \<Rightarrow> bool) \<Rightarrow> eval_error + bool" where
  "compare_numeric resolved cmp cmp_fn =
     (case fc_value cmp of
        None \<Rightarrow> eval_fail (Msg (op_debug (fc_operator cmp) @ '' operator requires a value''))
      | Some expected \<Rightarrow>
          (case as_f64 resolved of
             None \<Rightarrow> eval_fail (MsgJson ''cannot compare non-numeric field value: '' resolved)
           | Some a \<Rightarrow>
               (case as_f64 expected of
                  None \<Rightarrow> eval_fail (MsgJson ''cannot compare with non-numeric value: '' expected)
                | Some b \<Rightarrow> Inr (cmp_fn a b))))"

definition evaluate_contains :: "json \<Rightarrow> field_comparison \<Rightarrow> eval_error + bool" where
  "evaluate_contains resolved cmp =
     (case fc_value cmp of
        None \<Rightarrow> eval_fail (Msg ''Contains operator requires a value'')
      | Some expected \<Rightarrow>
          (case (as_str resolved, as_str expected) of
             (Some s, Some substr) \<Rightarrow> Inr (contains_str s substr)
           | _ \<Rightarrow>
               (case as_array resolved of
                  Some arr \<Rightarrow> Inr (expected \<in> set arr)
                | None \<Rightarrow> eval_fail (Msg (''Contains requires a string or array field, got ''
                                           @ value_type_name resolved)))))"

definition evaluate_comparison :: "field_comparison \<Rightarrow> json \<Rightarrow> eval_error + bool" where
  "evaluate_comparison cmp data =
     (case resolve_field_path (fc_field cmp) data of
        Inl e \<Rightarrow> Inl e
      | Inr resolved \<Rightarrow>
          (case fc_operator cmp of
             IsNull \<Rightarrow> Inr (is_null resolved)
           | IsNotNull \<Rightarrow> Inr (\<not> is_null resolved)
           | Equals \<Rightarrow>
               (case fc_value cmp of
                  None \<Rightarrow> eval_fail (Msg ''Equals operator requires a value'')
                | Some expected \<Rightarrow> Inr (resolved = expected))
           | NotEquals \<Rightarrow>
               (case fc_value cmp of
                  None \<Rightarrow> eval_fail (Msg ''NotEquals operator requires a value'')
                | Some expected \<Rightarrow> Inr (resolved \<noteq> expected))
           | Gt \<Rightarrow> compare_numeric resolved cmp (\<lambda>a b. a > b)
           | Gte \<Rightarrow> compare_numeric resolved cmp (\<lambda>a b. a \<ge> b)
           | Lt \<Rightarrow> compare_numeric resolved cmp (\<lambda>a b. a < b)
           | Lte \<Rightarrow> compare_numeric resolved cmp (\<lambda>a b. a \<le> b)
           | Contains \<Rightarrow> evaluate_contains resolved cmp))"

text \<open>
  The five arms of \<open>evaluate_inner\<close>, each loop a function of its own. The loop of \<open>OneOf\<close>
  carries the counter and leaves as soon as it exceeds one.
\<close>

fun evaluate_inner :: "step_condition \<Rightarrow> json \<Rightarrow> eval_error + bool"
  and eval_all :: "step_condition list \<Rightarrow> json \<Rightarrow> eval_error + bool"
  and eval_any :: "step_condition list \<Rightarrow> json \<Rightarrow> eval_error + bool"
  and eval_one_of :: "step_condition list \<Rightarrow> json \<Rightarrow> nat \<Rightarrow> eval_error + bool" where
  "evaluate_inner (All cs) data = eval_all cs data"
| "evaluate_inner (Any cs) data = eval_any cs data"
| "evaluate_inner (NoneOf cs) data =
     (case eval_any cs data of Inl e \<Rightarrow> Inl e | Inr found \<Rightarrow> Inr (\<not> found))"
| "evaluate_inner (OneOf cs) data = eval_one_of cs data 0"
| "evaluate_inner (Not inner) data =
     (case evaluate_inner inner data of Inl e \<Rightarrow> Inl e | Inr result \<Rightarrow> Inr (\<not> result))"
| "evaluate_inner (Comparison cmp) data = evaluate_comparison cmp data"
| "eval_all [] data = Inr True"
| "eval_all (c # cs) data =
     (case evaluate_inner c data of
        Inl e \<Rightarrow> Inl e
      | Inr b \<Rightarrow> if \<not> b then Inr False else eval_all cs data)"
| "eval_any [] data = Inr False"
| "eval_any (c # cs) data =
     (case evaluate_inner c data of
        Inl e \<Rightarrow> Inl e
      | Inr b \<Rightarrow> if b then Inr True else eval_any cs data)"
| "eval_one_of [] data count = Inr (count = 1)"
| "eval_one_of (c # cs) data count =
     (case evaluate_inner c data of
        Inl e \<Rightarrow> Inl e
      | Inr b \<Rightarrow> if b then (if Suc count > 1 then Inr False else eval_one_of cs data (Suc count))
                 else eval_one_of cs data count)"

definition evaluate :: "step_condition \<Rightarrow> json \<Rightarrow> bool res" where
  "evaluate condition data =
     (case evaluate_inner condition data of
        Inr result \<Rightarrow> Inr result
      | Inl FieldNotPresent \<Rightarrow> Inr False
      | Inl (Wfe e) \<Rightarrow> Inl e)"

section \<open>Reference semantics\<close>

text \<open>The formula a condition stands for, given the truth of its comparisons.\<close>

fun holds :: "(field_comparison \<Rightarrow> bool) \<Rightarrow> step_condition \<Rightarrow> bool" where
  "holds v (All cs) = (\<forall>c \<in> set cs. holds v c)"
| "holds v (Any cs) = (\<exists>c \<in> set cs. holds v c)"
| "holds v (NoneOf cs) = (\<not> (\<exists>c \<in> set cs. holds v c))"
| "holds v (OneOf cs) = (length (filter (holds v) cs) = 1)"
| "holds v (Not c) = (\<not> holds v c)"
| "holds v (Comparison cmp) = v cmp"

fun comparisons :: "step_condition \<Rightarrow> field_comparison list" where
  "comparisons (All cs) = concat (map comparisons cs)"
| "comparisons (Any cs) = concat (map comparisons cs)"
| "comparisons (NoneOf cs) = concat (map comparisons cs)"
| "comparisons (OneOf cs) = concat (map comparisons cs)"
| "comparisons (Not c) = comparisons c"
| "comparisons (Comparison cmp) = [cmp]"

section \<open>Correctness\<close>

lemma evaluate_inner_holds:
  "(\<forall>cmp \<in> set (comparisons c). evaluate_comparison cmp data = Inr (v cmp)) \<Longrightarrow>
     evaluate_inner c data = Inr (holds v c)"
  "(\<forall>cmp \<in> set (concat (map comparisons cs)). evaluate_comparison cmp data = Inr (v cmp)) \<Longrightarrow>
     eval_all cs data = Inr (\<forall>c \<in> set cs. holds v c)"
  "(\<forall>cmp \<in> set (concat (map comparisons ds)). evaluate_comparison cmp data = Inr (v cmp)) \<Longrightarrow>
     eval_any ds data = Inr (\<exists>c \<in> set ds. holds v c)"
  "(\<forall>cmp \<in> set (concat (map comparisons es)). evaluate_comparison cmp data = Inr (v cmp)) \<Longrightarrow>
     n \<le> 1 \<Longrightarrow> eval_one_of es data n = Inr (n + length (filter (holds v) es) = 1)"
proof (induction c data and cs data and ds data and es data n
    rule: evaluate_inner_eval_all_eval_any_eval_one_of.induct)
qed (auto split: sum.splits)

text \<open>
  C37: on data where every comparison of a condition can be evaluated, the short-circuiting
  evaluator computes the formula the condition stands for: \<open>All\<close> is conjunction, \<open>Any\<close>
  disjunction, \<open>None\<close> its negation, \<open>OneOf\<close> exactly one, \<open>Not\<close> negation.
\<close>

theorem evaluate_computes_formula:
  assumes "\<forall>cmp \<in> set (comparisons c). evaluate_comparison cmp data = Inr (v cmp)"
  shows "evaluate c data = Inr (holds v c)"
  using evaluate_inner_holds(1)[OF assms] by (simp add: evaluate_def)

definition example_data :: json where
  "example_data = JObject [(''n'', JNumber (PosInt 3)), (''tags'', JArray [JString ''a''])]"

definition example_condition :: step_condition where
  "example_condition =
     OneOf [Comparison \<lparr>fc_field = ''.outputs.n'', fc_operator = Gt,
                        fc_value = Some (JNumber (PosInt 2))\<rparr>,
            Not (Comparison \<lparr>fc_field = ''.tags.0'', fc_operator = Equals,
                             fc_value = Some (JString ''a'')\<rparr>)]"

lemma example_leaves:
  "\<forall>cmp \<in> set (comparisons example_condition). evaluate_comparison cmp example_data = Inr True"
  by (simp add: example_condition_def example_data_def evaluate_comparison_def resolve_field_path_def
      strip_prefix_str_def compare_numeric_def parse_u64_def parse_digits_def is_digit_def
      decimal_value_def digit_value_def as_f64_def f64_of_int_exact)

theorem evaluate_computes_formula_witness:
  "list_all (\<lambda>cmp. evaluate_comparison cmp example_data = Inr True) (comparisons example_condition)
   \<and> evaluate example_condition example_data = Inr True"
  using evaluate_computes_formula[where v = "\<lambda>_. True", OF example_leaves] example_leaves
  by (simp add: example_condition_def list_all_iff)

text \<open>
  The loops never invent an error: an error of a condition is the error of one of its
  comparisons.
\<close>

lemma evaluate_inner_error_source:
  "evaluate_inner c data = Inl e \<Longrightarrow> \<exists>cmp \<in> set (comparisons c). evaluate_comparison cmp data = Inl e"
  "eval_all cs data = Inl e \<Longrightarrow>
     \<exists>cmp \<in> set (concat (map comparisons cs)). evaluate_comparison cmp data = Inl e"
  "eval_any ds data = Inl e \<Longrightarrow>
     \<exists>cmp \<in> set (concat (map comparisons ds)). evaluate_comparison cmp data = Inl e"
  "eval_one_of es data n = Inl e \<Longrightarrow>
     \<exists>cmp \<in> set (concat (map comparisons es)). evaluate_comparison cmp data = Inl e"
  by (induction c data and cs data and ds data and es data n
      rule: evaluate_inner_eval_all_eval_any_eval_one_of.induct)
    (fastforce split: sum.splits if_splits)+

lemma walk_segments_error: "walk_segments segs v = Inl e \<Longrightarrow> e = FieldNotPresent"
  by (induction segs v rule: walk_segments.induct) (auto split: option.splits if_splits)

lemma evaluate_comparison_error:
  "evaluate_comparison cmp data = Inl (Wfe e) \<Longrightarrow> \<exists>m. e = StepExecution m"
  by (auto simp: evaluate_comparison_def resolve_field_path_def compare_numeric_def evaluate_contains_def
      eval_fail_def Let_def dest!: walk_segments_error
      split: sum.splits comparison_op.splits option.splits if_splits)

text \<open>The only error the evaluator returns is a step execution error.\<close>

lemma evaluate_error: "evaluate c data = Inl e \<Longrightarrow> \<exists>m. e = StepExecution m"
  by (auto simp: evaluate_def split: sum.splits eval_error.splits
      dest!: evaluate_inner_error_source(1) evaluate_comparison_error)

lemma comparison_missing_field_iff:
  "evaluate_comparison cmp data = Inl FieldNotPresent \<longleftrightarrow>
     resolve_field_path (fc_field cmp) data = Inl FieldNotPresent"
  by (auto simp: evaluate_comparison_def compare_numeric_def evaluate_contains_def eval_fail_def
      split: sum.splits comparison_op.splits option.splits)

lemma walk_segments_errors: "walk_segments segs data = Inl e \<Longrightarrow> e = FieldNotPresent"
  by (induction segs data rule: walk_segments.induct) (auto split: option.splits if_splits)

lemma resolve_field_path_errors: "resolve_field_path p data = Inl e \<Longrightarrow> e = FieldNotPresent"
  by (auto simp: resolve_field_path_def Let_def dest: walk_segments_errors split: if_splits)

text \<open>The comparison the evaluator reaches first.\<close>

fun first_leaf :: "step_condition \<Rightarrow> field_comparison option" where
  "first_leaf (All cs) = (case cs of [] \<Rightarrow> None | c # _ \<Rightarrow> first_leaf c)"
| "first_leaf (Any cs) = (case cs of [] \<Rightarrow> None | c # _ \<Rightarrow> first_leaf c)"
| "first_leaf (NoneOf cs) = (case cs of [] \<Rightarrow> None | c # _ \<Rightarrow> first_leaf c)"
| "first_leaf (OneOf cs) = (case cs of [] \<Rightarrow> None | c # _ \<Rightarrow> first_leaf c)"
| "first_leaf (Not c) = first_leaf c"
| "first_leaf (Comparison cmp) = Some cmp"

lemma first_leaf_error:
  "first_leaf c = Some cmp \<Longrightarrow> evaluate_comparison cmp data = Inl e \<Longrightarrow> evaluate_inner c data = Inl e"
  by (induction c rule: first_leaf.induct) (auto split: list.splits)

text \<open>
  Cascade skip. When the field of the comparison reached first is not present in the
  workflow data, the step is skipped, whatever connectives surround the comparison: also a
  \<open>Not\<close> or a \<open>None\<close> around a missing field gives \<open>Ok(false)\<close>.
\<close>

theorem evaluate_missing_field_skips:
  assumes "first_leaf c = Some cmp"
    and "resolve_field_path (fc_field cmp) data = Inl FieldNotPresent"
  shows "evaluate c data = Inr False"
proof -
  from assms(2) have "evaluate_comparison cmp data = Inl FieldNotPresent"
    by (simp add: comparison_missing_field_iff)
  with assms(1) have "evaluate_inner c data = Inl FieldNotPresent" by (rule first_leaf_error)
  then show ?thesis by (simp add: evaluate_def)
qed

theorem evaluate_missing_field_skips_witness:
  "evaluate (Not (Comparison \<lparr>fc_field = ''.outputs.m'', fc_operator = IsNull, fc_value = None\<rparr>))
     example_data = Inr False"
  by (rule evaluate_missing_field_skips
        [where cmp = "\<lparr>fc_field = ''.outputs.m'', fc_operator = IsNull, fc_value = None\<rparr>"])
    (simp_all add: resolve_field_path_def example_data_def strip_prefix_str_def parse_u64_def
      parse_digits_def is_digit_def)

fun int_of_number :: "json_number \<Rightarrow> int option" where
  "int_of_number (PosInt n) = Some (uint n)"
| "int_of_number (NegInt n) = Some (sint n)"
| "int_of_number (Float _) = None"

lemma as_f64_int: "int_of_number n = Some i \<Longrightarrow> \<bar>i\<bar> < 2 ^ 53 \<Longrightarrow> as_f64 (JNumber n) = Some (rat_of_int i)"
  by (cases n) (auto simp: as_f64_def f64_of_int_exact)

fun int_compare :: "comparison_op \<Rightarrow> int \<Rightarrow> int \<Rightarrow> bool" where
  "int_compare Gt i j = (i > j)"
| "int_compare Gte i j = (i \<ge> j)"
| "int_compare Lt i j = (i < j)"
| "int_compare Lte i j = (i \<le> j)"
| "int_compare _ i j = False"

text \<open>
  numeric comparison of integers below \<open>2 ^ 53\<close> in absolute value is exact: the detour
  over \<open>f64\<close> does not change the order of the integers compared.
\<close>

theorem integer_comparison_exact:
  assumes "resolve_field_path (fc_field cmp) data = Inr (JNumber m)"
    and "fc_value cmp = Some (JNumber n)"
    and "int_of_number m = Some i" "int_of_number n = Some j"
    and "\<bar>i\<bar> < 2 ^ 53" "\<bar>j\<bar> < 2 ^ 53"
    and "fc_operator cmp \<in> {Gt, Gte, Lt, Lte}"
  shows "evaluate (Comparison cmp) data = Inr (int_compare (fc_operator cmp) i j)"
  using assms
  by (auto simp: evaluate_def evaluate_comparison_def compare_numeric_def as_f64_int)

theorem integer_comparison_exact_witness:
  "evaluate (Comparison \<lparr>fc_field = ''n'', fc_operator = Lte, fc_value = Some (JNumber (NegInt (-1)))\<rparr>)
     example_data = Inr False"
  using integer_comparison_exact
    [of "\<lparr>fc_field = ''n'', fc_operator = Lte, fc_value = Some (JNumber (NegInt (-1)))\<rparr>"
        example_data "PosInt 3" "NegInt (-1)" 3 "-1"]
  by (simp add: resolve_field_path_def example_data_def strip_prefix_str_def parse_u64_def
      parse_digits_def is_digit_def)

end
