(* ===== verification/Executor.thy ===== *)
theory Executor
  imports Result_Processor Condition
begin

text \<open>
  The workflow executor (\<open>executor/workflow_executor.rs\<close>) and the resolution of artifact volumes
  (\<open>artifact_volume.rs\<close>). One call of \<open>execute\<close> takes the lock of an instance, runs each of its
  runnable pointers once, decides whether the instance is complete, persists it and queues it again
  when it has an active pointer. The providers, the registry of step bodies, the clock and the
  UUID source are parameters, so the lemmas hold for every backend. Logging and tracing are left
  out, and so is the log sink, which the executor only hands to the step context.
\<close>

section \<open>Artifact volumes\<close>

fun resolve_inputs ::
  "'w artifact_store \<Rightarrow> (string \<times> json) list \<Rightarrow> string list \<Rightarrow> artifact_volume \<Rightarrow>
   ('w, artifact_volume res) eff" where
  "resolve_inputs store data_obj [] artifacts w = (Inr artifacts, w)"
| "resolve_inputs store data_obj (name # names) artifacts w =
     (case map_of data_obj name of
        None \<Rightarrow> (Inl (StepExecution (Msg (''input '' @ quoted name @ '' not found in workflow data''))), w)
      | Some value \<Rightarrow>
        case parse_artifact_ref value of
          None \<Rightarrow> (Inl (StepExecution (Msg (''input '' @ quoted name @ '' is not an artifact reference''))), w)
        | Some digest \<Rightarrow>
          case get_blob store digest w of
            (Inl e, w) \<Rightarrow> (Inl (StepExecution (MsgErr (''failed to get artifact '' @ quoted name @ '': '') e)), w)
          | (Inr None, w) \<Rightarrow> (Inl (StepExecution (Msg (''artifact not found: '' @ digest))), w)
          | (Inr (Some reader), w) \<Rightarrow>
              case reader w of
                (Inl io, w) \<Rightarrow>
                  (Inl (StepExecution (Msg (''failed to read artifact '' @ quoted name @ '': '' @ io))), w)
              | (Inr bytes, w) \<Rightarrow>
                  resolve_inputs store data_obj names (AList.update name bytes artifacts) w)"

definition volume_resolve ::
  "'w artifact_store \<Rightarrow> (string \<times> string) list \<Rightarrow> json \<Rightarrow> ('w, artifact_volume res) eff" where
  "volume_resolve store inputs workflow_data w =
     (case as_object workflow_data of
        None \<Rightarrow> (Inl (StepExecution (Msg ''workflow data is not an object'')), w)
      | Some data_obj \<Rightarrow> resolve_inputs store data_obj (map fst inputs) [] w)"

fun resolve_refs ::
  "'w artifact_store \<Rightarrow> (string \<times> json) list \<Rightarrow> artifact_volume \<Rightarrow> ('w, artifact_volume res) eff" where
  "resolve_refs store [] artifacts w = (Inr artifacts, w)"
| "resolve_refs store ((name, value) # rest) artifacts w =
     (case parse_artifact_ref value of
        None \<Rightarrow> resolve_refs store rest artifacts w
      | Some digest \<Rightarrow>
        case get_blob store digest w of
          (Inl e, w) \<Rightarrow> (Inl (StepExecution (MsgErr (''failed to get artifact '' @ quoted name @ '': '') e)), w)
        | (Inr None, w) \<Rightarrow> resolve_refs store rest artifacts w
        | (Inr (Some reader), w) \<Rightarrow>
            case reader w of
              (Inl io, w) \<Rightarrow>
                (Inl (StepExecution (Msg (''failed to read artifact '' @ quoted name @ '': '' @ io))), w)
            | (Inr bytes, w) \<Rightarrow> resolve_refs store rest (AList.update name bytes artifacts) w)"

definition volume_resolve_all :: "'w artifact_store \<Rightarrow> json \<Rightarrow> ('w, artifact_volume res) eff" where
  "volume_resolve_all store workflow_data w =
     (case as_object workflow_data of
        None \<Rightarrow> (Inr [], w)
      | Some data_obj \<Rightarrow> resolve_refs store data_obj [] w)"

section \<open>The executor\<close>

record 'w workflow_executor =
  we_persistence :: "'w persistence_provider"
  we_lock_provider :: "'w lock_provider"
  we_queue_provider :: "'w queue_provider"
  we_lifecycle :: "'w lifecycle_publisher option"
  we_search :: "'w search_index option"
  we_artifact_store :: "'w artifact_store option"

definition executor_new ::
  "'w persistence_provider \<Rightarrow> 'w lock_provider \<Rightarrow> 'w queue_provider \<Rightarrow> 'w workflow_executor" where
  "executor_new P L Q =
     \<lparr>we_persistence = P, we_lock_provider = L, we_queue_provider = Q, we_lifecycle = None,
      we_search = None, we_artifact_store = None\<rparr>"

definition with_lifecycle :: "'w workflow_executor \<Rightarrow> 'w lifecycle_publisher \<Rightarrow> 'w workflow_executor" where
  "with_lifecycle E p = E\<lparr>we_lifecycle := Some p\<rparr>"

definition with_search :: "'w workflow_executor \<Rightarrow> 'w search_index \<Rightarrow> 'w workflow_executor" where
  "with_search E s = E\<lparr>we_search := Some s\<rparr>"

definition with_artifact_store :: "'w workflow_executor \<Rightarrow> 'w artifact_store \<Rightarrow> 'w workflow_executor" where
  "with_artifact_store E s = E\<lparr>we_artifact_store := Some s\<rparr>"

text \<open>A lifecycle event carries the time it is made; a failing publisher is only logged.\<close>

definition publish_lifecycle ::
  "'w workflow_executor \<Rightarrow> 'w sys \<Rightarrow> workflow_instance \<Rightarrow> lifecycle_event_type \<Rightarrow> 'w \<Rightarrow> 'w" where
  "publish_lifecycle E S inst t w =
     (let (now, w) = utc_now S w;
          ev = lifecycle_event_new now (wi_id inst) (wi_workflow_definition_id inst) (wi_version inst) t
      in case we_lifecycle E of None \<Rightarrow> w | Some p \<Rightarrow> snd (publish p ev w))"

definition is_pointer_runnable :: "execution_pointer \<Rightarrow> date_time \<Rightarrow> bool" where
  "is_pointer_runnable p now \<longleftrightarrow>
     ep_active p \<and>
     (case ep_status p of
        Pending \<Rightarrow> (case ep_sleep_until p of None \<Rightarrow> True | Some t \<Rightarrow> t \<le> now)
      | Running \<Rightarrow> (case ep_sleep_until p of None \<Rightarrow> True | Some t \<Rightarrow> t \<le> now)
      | Sleeping \<Rightarrow> (case ep_sleep_until p of None \<Rightarrow> True | Some t \<Rightarrow> t \<le> now)
      | WaitingForEvent \<Rightarrow> ep_event_published p
      | _ \<Rightarrow> False)"

definition runnable_indices :: "execution_pointer list \<Rightarrow> date_time \<Rightarrow> nat list" where
  "runnable_indices ps now = filter (\<lambda>i. is_pointer_runnable (ps ! i) now) [0..<length ps]"

subsection \<open>Updating the instance\<close>

definition update_pointer ::
  "nat \<Rightarrow> (execution_pointer \<Rightarrow> execution_pointer) \<Rightarrow> workflow_instance \<Rightarrow> workflow_instance" where
  "update_pointer idx f inst =
     inst\<lparr>wi_execution_pointers :=
        (wi_execution_pointers inst)[idx := f (wi_execution_pointers inst ! idx)]\<rparr>"

definition push_pointers :: "execution_pointer list \<Rightarrow> workflow_instance \<Rightarrow> workflow_instance" where
  "push_pointers ps inst = inst\<lparr>wi_execution_pointers := wi_execution_pointers inst @ ps\<rparr>"

definition merge_output :: "json option \<Rightarrow> workflow_instance \<Rightarrow> workflow_instance" where
  "merge_output out inst =
     (case out of
        Some (JObject out_map) \<Rightarrow>
          (case wi_data inst of
             JObject wf_map \<Rightarrow> inst\<lparr>wi_data := JObject (obj_extend wf_map out_map)\<rparr>
           | _ \<Rightarrow> inst)
      | _ \<Rightarrow> inst)"

record loop_state =
  lp_workflow :: workflow_instance
  lp_subscriptions :: "event_subscription list"
  lp_errors :: "execution_error list"

subsection \<open>One runnable pointer\<close>

text \<open>The branch of a condition that does not hold.\<close>

definition skip_pointer ::
  "'w sys \<Rightarrow> workflow_definition \<Rightarrow> workflow_step \<Rightarrow> nat \<Rightarrow> workflow_instance \<Rightarrow>
   ('w, workflow_instance) eff" where
  "skip_pointer S d step idx inst w =
     (let (now, w) = utc_now S w;
          inst = update_pointer idx
                 (\<lambda>p. p\<lparr>ep_status := Skipped, ep_active := False, ep_end_time := Some now\<rparr>) inst
      in case ws_outcomes step of
           [] \<Rightarrow> (inst, w)
         | oc # _ \<Rightarrow>
             (let p = wi_execution_pointers inst ! idx;
                  (next_pointer, w) = new_pointer S d (so_next_step oc) (ep_id p) (ep_scope p) w
              in (push_pointers [next_pointer] inst, w)))"

definition start_pointer :: "'w sys \<Rightarrow> nat \<Rightarrow> workflow_instance \<Rightarrow> ('w, workflow_instance) eff" where
  "start_pointer S idx inst w =
     (let (inst, w) =
        (if ep_start_time (wi_execution_pointers inst ! idx) = None then
           (let (now, w) = utc_now S w
            in (update_pointer idx (\<lambda>p. p\<lparr>ep_start_time := Some now\<rparr>) inst, w))
         else (inst, w))
      in (update_pointer idx (\<lambda>p. p\<lparr>ep_status := Running\<rparr>) inst, w))"

definition step_volume ::
  "'w workflow_executor \<Rightarrow> workflow_step \<Rightarrow> workflow_instance \<Rightarrow> ('w, artifact_volume option) eff" where
  "step_volume E step inst w =
     (if artifact_inputs step = [] then (None, w)
      else case we_artifact_store E of
        None \<Rightarrow> (None, w)
      | Some store \<Rightarrow>
          (case volume_resolve store (artifact_inputs step) (wi_data inst) w of
             (Inl _, w) \<Rightarrow> (None, w)
           | (Inr v, w) \<Rightarrow> (Some v, w)))"

definition build_context ::
  "'w workflow_executor \<Rightarrow> workflow_definition \<Rightarrow> 'w host_context option \<Rightarrow> workflow_step \<Rightarrow> nat \<Rightarrow>
   workflow_instance \<Rightarrow> artifact_volume option \<Rightarrow> 'w step_context" where
  "build_context E d host step idx inst volume =
     (let p = wi_execution_pointers inst ! idx
      in \<lparr>sx_item = ep_context_item p, sx_execution_pointer = p,
          sx_persistence_data = ep_persistence_data p, sx_step = step, sx_workflow = inst,
          sx_definition = Some d, sx_host_context = host,
          sx_artifact_store = we_artifact_store E, sx_artifact_volume = volume,
          sx_persistence = Some (we_persistence E)\<rparr>)"

text \<open>Mount, run, unmount: only the result of \<open>run\<close> counts.\<close>

definition run_step ::
  "'w step_body \<Rightarrow> 'w step_context \<Rightarrow> ('w, execution_result res) eff" where
  "run_step body ctx w =
     (let (_, w) = mount_artifacts body ctx w;
          (r, w) = run body ctx w;
          (_, w) = unmount_artifacts body ctx w
      in (r, w))"

definition apply_result ::
  "'w workflow_executor \<Rightarrow> 'w sys \<Rightarrow> workflow_definition \<Rightarrow> workflow_step \<Rightarrow> nat \<Rightarrow> execution_result \<Rightarrow>
   loop_state \<Rightarrow> ('w, loop_state) eff" where
  "apply_result E S d step idx result st w =
     (let inst = lp_workflow st;
          w = publish_lifecycle E S inst (LStepCompleted (ws_id step) (ws_name step)) w;
          ((pointer, pr), w) = process_result S result (wi_execution_pointers inst ! idx) d (wi_id inst) w;
          inst = update_pointer idx (\<lambda>_. pointer) inst;
          inst = merge_output (pr_output_data pr) inst;
          inst = push_pointers (pr_new_pointers pr) inst
      in (st\<lparr>lp_workflow := inst, lp_subscriptions := lp_subscriptions st @ pr_subscriptions pr\<rparr>, w))"

definition apply_error ::
  "'w workflow_executor \<Rightarrow> 'w sys \<Rightarrow> string \<Rightarrow> workflow_definition \<Rightarrow> nat \<Rightarrow> wfe_error \<Rightarrow>
   loop_state \<Rightarrow> ('w, loop_state) eff" where
  "apply_error E S workflow_id d idx error_msg st w =
     (let inst = lp_workflow st;
          w = publish_lifecycle E S inst (LError error_msg) w;
          pointer_id = ep_id (wi_execution_pointers inst ! idx);
          (now, w) = utc_now S w;
          err = execution_error_new now workflow_id pointer_id error_msg;
          ((pointer, h), w) = handle_error S (wi_execution_pointers inst ! idx) d w;
          inst = update_pointer idx (\<lambda>_. pointer) inst;
          (inst, w) =
            (case eh_workflow_status h of
               None \<Rightarrow> (inst, w)
             | Some new_status \<Rightarrow>
                 (let inst = inst\<lparr>wi_status := new_status\<rparr>
                  in if new_status = Terminated then
                       (let (now, w) = utc_now S w;
                            inst = inst\<lparr>wi_complete_time := Some now\<rparr>
                        in (inst, publish_lifecycle E S inst LTerminated w))
                     else (inst, w)));
          inst = push_pointers (eh_new_pointers h) inst
      in (st\<lparr>lp_workflow := inst, lp_errors := lp_errors st @ [err]\<rparr>, w))"

text \<open>The body of the loop over the runnable indices; \<open>Inl\<close> is an early return of \<open>execute_inner\<close>.\<close>

definition perform_step ::
  "'w workflow_executor \<Rightarrow> 'w sys \<Rightarrow> string \<Rightarrow> workflow_definition \<Rightarrow> 'w host_context option \<Rightarrow>
   workflow_step \<Rightarrow> 'w step_body \<Rightarrow> nat \<Rightarrow> loop_state \<Rightarrow> ('w, loop_state) eff" where
  "perform_step E S workflow_id d host step body idx st w =
     (let (inst, w) = start_pointer S idx (lp_workflow st) w;
          st = st\<lparr>lp_workflow := inst\<rparr>;
          w = publish_lifecycle E S inst (LStepStarted (ws_id step) (ws_name step)) w;
          (volume, w) = step_volume E step inst w;
          (step_result, w) = run_step body (build_context E d host step idx inst volume) w
      in case step_result of
           Inr result \<Rightarrow> apply_result E S d step idx result st w
         | Inl e \<Rightarrow> apply_error E S workflow_id d idx e st w)"

definition execute_pointer ::
  "'w workflow_executor \<Rightarrow> 'w sys \<Rightarrow> string \<Rightarrow> workflow_definition \<Rightarrow> 'w step_registry \<Rightarrow>
   'w host_context option \<Rightarrow> nat \<Rightarrow> loop_state \<Rightarrow> ('w, loop_state res) eff" where
  "execute_pointer E S workflow_id d registry host idx st w =
     (let inst = lp_workflow st; step_id = ep_step_id (wi_execution_pointers inst ! idx)
      in case find_step d step_id of
           None \<Rightarrow> (Inl (StepNotFound step_id), w)
         | Some step \<Rightarrow>
           case (case ws_when step of None \<Rightarrow> Inr True | Some c \<Rightarrow> evaluate c (wi_data inst)) of
             Inl e \<Rightarrow> (Inl e, w)
           | Inr False \<Rightarrow>
               (let (inst, w) = skip_pointer S d step idx inst w in (Inr (st\<lparr>lp_workflow := inst\<rparr>), w))
           | Inr True \<Rightarrow>
               (case resolve registry (ws_step_type step) of
                  None \<Rightarrow>
                    (Inl (StepExecution (Msg (''Step type not found in registry: '' @ ws_step_type step))), w)
                | Some body \<Rightarrow>
                    (let (st, w) = perform_step E S workflow_id d host step body idx st w
                     in (Inr st, w))))"

fun execute_pointers ::
  "'w workflow_executor \<Rightarrow> 'w sys \<Rightarrow> string \<Rightarrow> workflow_definition \<Rightarrow> 'w step_registry \<Rightarrow>
   'w host_context option \<Rightarrow> nat list \<Rightarrow> loop_state \<Rightarrow> ('w, loop_state res) eff" where
  "execute_pointers E S workflow_id d registry host [] st w = (Inr st, w)"
| "execute_pointers E S workflow_id d registry host (idx # rest) st w =
     (case execute_pointer E S workflow_id d registry host idx st w of
        (Inl e, w) \<Rightarrow> (Inl e, w)
      | (Inr st, w) \<Rightarrow> execute_pointers E S workflow_id d registry host rest st w)"

subsection \<open>Completion, persistence, follow-up work\<close>

definition all_done :: "workflow_instance \<Rightarrow> bool" where
  "all_done inst \<longleftrightarrow>
     wi_execution_pointers inst \<noteq> [] \<and> list_all (\<lambda>p. is_final (ep_status p)) (wi_execution_pointers inst)"

definition has_active :: "workflow_instance \<Rightarrow> bool" where
  "has_active inst \<longleftrightarrow> list_ex ep_active (wi_execution_pointers inst)"

definition completion_data :: "workflow_instance \<Rightarrow> json" where
  "completion_data inst = JObject [(''data'', wi_data inst), (''status'', JString ''Complete'')]"

definition complete_workflow ::
  "'w workflow_executor \<Rightarrow> 'w sys \<Rightarrow> string \<Rightarrow> workflow_instance \<Rightarrow> ('w, workflow_instance) eff" where
  "complete_workflow E S workflow_id inst w =
     (if all_done inst \<and> wi_status inst = Runnable then
        (let (now, w) = utc_now S w;
             inst = inst\<lparr>wi_status := Complete, wi_complete_time := Some now\<rparr>;
             w = publish_lifecycle E S inst LCompleted w;
             (u, w) = uuid_v4 S w;
             (now, w) = utc_now S w;
             ev = event_new u now ''wfe.workflow.completed'' workflow_id (completion_data inst);
             (_, w) = create_event (we_persistence E) ev w;
             (_, w) = queue_work (we_queue_provider E) (ev_id ev) QEvent w
         in (inst, w))
      else (inst, w))"

definition next_execution_of :: "workflow_instance \<Rightarrow> int option" where
  "next_execution_of inst =
     (if has_active inst then Some 0
      else if wi_status inst = Runnable then
        (case List.map_filter ep_sleep_until
                (filter (\<lambda>p. ep_status p = Sleeping) (wi_execution_pointers inst)) of
           [] \<Rightarrow> None
         | t # ts \<Rightarrow> Some (timestamp_millis (fold min ts t)))
      else None)"

definition store_instance ::
  "'w workflow_executor \<Rightarrow> loop_state \<Rightarrow> ('w, unit res) eff" where
  "store_instance E st w =
     (case (if lp_subscriptions st = []
            then persist_workflow (we_persistence E) (lp_workflow st) w
            else persist_workflow_with_subscriptions (we_persistence E) (lp_workflow st)
                   (lp_subscriptions st) w) of
        (Inl e, w) \<Rightarrow> (Inl e, w)
      | (Inr _, w) \<Rightarrow>
          if lp_errors st = [] then (Inr (), w)
          else persist_errors (we_persistence E) (lp_errors st) w)"

definition finish_execution ::
  "'w workflow_executor \<Rightarrow> 'w sys \<Rightarrow> string \<Rightarrow> loop_state \<Rightarrow> ('w, unit res) eff" where
  "finish_execution E S workflow_id st w =
     (let (inst, w) = complete_workflow E S workflow_id (lp_workflow st) w;
          inst = inst\<lparr>wi_next_execution := next_execution_of inst\<rparr>
      in case store_instance E (st\<lparr>lp_workflow := inst\<rparr>) w of
           (Inl e, w) \<Rightarrow> (Inl e, w)
         | (Inr _, w) \<Rightarrow>
           case (if wi_status inst = Runnable \<and> has_active inst
                 then queue_work (we_queue_provider E) workflow_id QWorkflow w else (Inr (), w)) of
             (Inl e, w) \<Rightarrow> (Inl e, w)
           | (Inr _, w) \<Rightarrow>
               (case we_search E of
                  None \<Rightarrow> (Inr (), w)
                | Some s \<Rightarrow> (Inr (), snd (index_workflow s inst w))))"

definition execute_inner ::
  "'w workflow_executor \<Rightarrow> 'w sys \<Rightarrow> string \<Rightarrow> workflow_definition \<Rightarrow> 'w step_registry \<Rightarrow>
   'w host_context option \<Rightarrow> ('w, unit res) eff" where
  "execute_inner E S workflow_id d registry host w =
     (case get_workflow_instance (we_persistence E) workflow_id w of
        (Inl e, w) \<Rightarrow> (Inl e, w)
      | (Inr inst, w) \<Rightarrow>
          if wi_status inst \<noteq> Runnable then (Inr (), w)
          else
            (let (now, w) = utc_now S w
             in case execute_pointers E S workflow_id d registry host
                       (runnable_indices (wi_execution_pointers inst) now)
                       \<lparr>lp_workflow = inst, lp_subscriptions = [], lp_errors = []\<rparr> w of
                  (Inl e, w) \<Rightarrow> (Inl e, w)
                | (Inr st, w) \<Rightarrow> finish_execution E S workflow_id st w))"

definition execute ::
  "'w workflow_executor \<Rightarrow> 'w sys \<Rightarrow> string \<Rightarrow> workflow_definition \<Rightarrow> 'w step_registry \<Rightarrow>
   'w host_context option \<Rightarrow> ('w, unit res) eff" where
  "execute E S workflow_id d registry host w =
     (case acquire_lock (we_lock_provider E) workflow_id w of
        (Inl e, w) \<Rightarrow> (Inl e, w)
      | (Inr False, w) \<Rightarrow> (Inr (), w)
      | (Inr True, w) \<Rightarrow>
          (let (result, w) = execute_inner E S workflow_id d registry host w;
               (_, w) = release_lock (we_lock_provider E) workflow_id w
           in (result, w)))"

section \<open>Lemmas\<close>

lemma update_pointer_simps [simp]:
  "wi_execution_pointers (update_pointer i f inst) =
     (wi_execution_pointers inst)[i := f (wi_execution_pointers inst ! i)]"
  "wi_id (update_pointer i f inst) = wi_id inst" "wi_status (update_pointer i f inst) = wi_status inst"
  "wi_data (update_pointer i f inst) = wi_data inst"
  "wi_complete_time (update_pointer i f inst) = wi_complete_time inst"
  by (simp_all add: update_pointer_def)

lemma push_pointers_simps [simp]:
  "wi_execution_pointers (push_pointers ps inst) = wi_execution_pointers inst @ ps"
  "wi_id (push_pointers ps inst) = wi_id inst" "wi_status (push_pointers ps inst) = wi_status inst"
  "wi_data (push_pointers ps inst) = wi_data inst"
  "wi_complete_time (push_pointers ps inst) = wi_complete_time inst"
  by (simp_all add: push_pointers_def)

lemma merge_output_simps [simp]:
  "wi_execution_pointers (merge_output out inst) = wi_execution_pointers inst"
  "wi_id (merge_output out inst) = wi_id inst" "wi_status (merge_output out inst) = wi_status inst"
  "wi_complete_time (merge_output out inst) = wi_complete_time inst"
  by (simp_all add: merge_output_def split: option.splits json.splits)

lemma is_pointer_runnable_not_final:
  "is_pointer_runnable p now \<Longrightarrow> ep_active p \<and> \<not> is_final (ep_status p)"
  by (auto simp: is_pointer_runnable_def split: pointer_status.splits)

lemma runnable_indices_props:
  "distinct (runnable_indices ps now)"
  "i \<in> set (runnable_indices ps now) \<longleftrightarrow> i < length ps \<and> is_pointer_runnable (ps ! i) now"
  by (auto simp: runnable_indices_def)

subsection \<open>How one pass changes the pointers\<close>

text \<open>
  \<open>pointers_evolve I ps ps'\<close>: the pointers at the positions \<open>I\<close> have been worked on, keeping
  their identity and satisfying the pointer invariant; every other old pointer is unchanged; and
  the pointers added are fresh successors or children of worked-on ones.
\<close>

definition same_pointer :: "execution_pointer \<Rightarrow> execution_pointer \<Rightarrow> bool" where
  "same_pointer p q \<longleftrightarrow> ep_id q = ep_id p \<and> ep_step_id q = ep_step_id p \<and> ep_scope q = ep_scope p"

definition fresh_successor :: "execution_pointer \<Rightarrow> execution_pointer \<Rightarrow> bool" where
  "fresh_successor p q \<longleftrightarrow>
     pointer_ok q \<and> ep_status q = Pending \<and> ep_predecessor_id q = Some (ep_id p) \<and>
     (ep_scope q = ep_scope p \<or> ep_scope q = ep_scope p @ [ep_id p])"

definition pointers_evolve :: "nat set \<Rightarrow> execution_pointer list \<Rightarrow> execution_pointer list \<Rightarrow> bool" where
  "pointers_evolve I ps ps' \<longleftrightarrow>
     length ps \<le> length ps' \<and>
     (\<forall>i < length ps. if i \<in> I then same_pointer (ps ! i) (ps' ! i) \<and> pointer_ok (ps' ! i)
                     else ps' ! i = ps ! i) \<and>
     (\<forall>q \<in> set (drop (length ps) ps'). \<exists>i \<in> I. i < length ps \<and> fresh_successor (ps ! i) q)"

lemma pointers_evolve_refl: "pointers_evolve {} ps ps"
  by (simp add: pointers_evolve_def)

lemma fresh_successor_cong: "same_pointer p p' \<Longrightarrow> fresh_successor p' q \<longleftrightarrow> fresh_successor p q"
  by (simp add: same_pointer_def fresh_successor_def)

lemma same_pointer_refl [simp]: "same_pointer p p"
  by (simp add: same_pointer_def)

lemma pointers_evolve_same:
  "pointers_evolve I ps ps' \<Longrightarrow> i < length ps \<Longrightarrow> same_pointer (ps ! i) (ps' ! i)"
  by (auto simp: pointers_evolve_def split: if_splits)

lemma pointers_evolve_worked:
  "pointers_evolve I ps ps' \<Longrightarrow> i < length ps \<Longrightarrow> i \<in> I \<Longrightarrow>
     same_pointer (ps ! i) (ps' ! i) \<and> pointer_ok (ps' ! i)"
  by (simp add: pointers_evolve_def)

lemma pointers_evolve_other:
  "pointers_evolve I ps ps' \<Longrightarrow> i < length ps \<Longrightarrow> i \<notin> I \<Longrightarrow> ps' ! i = ps ! i"
  by (simp add: pointers_evolve_def)

lemma same_pointer_trans: "same_pointer p q \<Longrightarrow> same_pointer q r \<Longrightarrow> same_pointer p r"
  by (simp add: same_pointer_def)

lemma pointers_evolve_trans:
  assumes e1: "pointers_evolve I ps ps1" and e2: "pointers_evolve J ps1 ps2"
    and J: "J \<subseteq> {..<length ps}"
  shows "pointers_evolve (I \<union> J) ps ps2"
  unfolding pointers_evolve_def
proof (intro conjI allI impI ballI)
  from e1 e2 have len: "length ps \<le> length ps1" "length ps1 \<le> length ps2"
    by (simp_all add: pointers_evolve_def)
  then show "length ps \<le> length ps2" by simp
  fix i assume i: "i < length ps"
  with len have i1: "i < length ps1" by simp
  show "if i \<in> I \<union> J then same_pointer (ps ! i) (ps2 ! i) \<and> pointer_ok (ps2 ! i) else ps2 ! i = ps ! i"
  proof (cases "i \<in> J")
    case True
    with pointers_evolve_worked[OF e2 i1] pointers_evolve_same[OF e1 i] same_pointer_trans
    show ?thesis by auto
  next
    case False
    with pointers_evolve_other[OF e2 i1] pointers_evolve_worked[OF e1 i] pointers_evolve_other[OF e1 i]
    show ?thesis by auto
  qed
next
  from e1 e2 have len: "length ps \<le> length ps1" "length ps1 \<le> length ps2"
    by (simp_all add: pointers_evolve_def)
  fix q assume "q \<in> set (drop (length ps) ps2)"
  then obtain k where k: "length ps \<le> k" "k < length ps2" "q = ps2 ! k"
    by (auto simp: in_set_conv_nth) (metis add.commute le_add1 less_diff_conv)
  show "\<exists>i \<in> I \<union> J. i < length ps \<and> fresh_successor (ps ! i) q"
  proof (cases "k < length ps1")
    case True
    with k e2 J have "q = ps1 ! k" by (auto simp: pointers_evolve_def split: if_splits)
    with True k have "q \<in> set (drop (length ps) ps1)"
      by (auto simp: in_set_conv_nth intro!: exI[of _ "k - length ps"])
    with e1 show ?thesis by (auto simp: pointers_evolve_def)
  next
    case False
    with k have "q \<in> set (drop (length ps1) ps2)"
      by (auto simp: in_set_conv_nth intro!: exI[of _ "k - length ps1"])
    with e2 obtain i where i: "i \<in> J" "fresh_successor (ps1 ! i) q" by (auto simp: pointers_evolve_def)
    with J have "i < length ps" by auto
    with pointers_evolve_same[OF e1 this] i fresh_successor_cong show ?thesis by blast
  qed
qed

lemma pointers_evolve_step:
  assumes "i < length ps" and "same_pointer (ps ! i) p'" and "pointer_ok p'"
    and "\<And>q. q \<in> set new \<Longrightarrow> fresh_successor (ps ! i) q"
  shows "pointers_evolve {i} ps (ps[i := p'] @ new)"
  using assms by (auto simp: pointers_evolve_def nth_append)

lemma pointers_evolve_ok:
  assumes "pointers_evolve I ps ps'" and "\<And>p. p \<in> set ps \<Longrightarrow> pointer_ok p"
  shows "\<forall>p \<in> set ps'. pointer_ok p"
proof
  fix p assume "p \<in> set ps'"
  then have "p \<in> set (take (length ps) ps') \<or> p \<in> set (drop (length ps) ps')"
    by (metis Un_iff append_take_drop_id set_append)
  with assms show "pointer_ok p"
    by (fastforce simp: pointers_evolve_def in_set_conv_nth fresh_successor_def split: if_splits)
qed

lemma pointers_evolve_prefix:
  assumes "pointers_evolve I ps ps'"
  shows "prefix (map (\<lambda>p. (ep_id p, ep_step_id p, ep_scope p)) ps)
                (map (\<lambda>p. (ep_id p, ep_step_id p, ep_scope p)) ps')"
proof -
  let ?k = "\<lambda>p. (ep_id p, ep_step_id p, ep_scope p)"
  have "map ?k ps = map ?k (take (length ps) ps')"
    using assms pointers_evolve_same[OF assms]
    by (intro nth_equalityI) (auto simp: pointers_evolve_def same_pointer_def)
  then have "map ?k ps = take (length ps) (map ?k ps')" by (simp only: take_map)
  moreover have "prefix (take (length ps) (map ?k ps')) (map ?k ps')" by (rule take_is_prefix)
  ultimately show ?thesis by (simp only:)
qed

subsection \<open>The steps of the loop\<close>

text \<open>
  The instance around the pointers: its id is kept; its status changes only by an error, to
  suspended or terminated; a terminated instance has its completion time.
\<close>

definition header_evolves :: "workflow_instance \<Rightarrow> workflow_instance \<Rightarrow> bool" where
  "header_evolves inst inst' \<longleftrightarrow>
     wi_id inst' = wi_id inst \<and>
     (wi_status inst' = wi_status inst \<and> wi_complete_time inst' = wi_complete_time inst \<or>
      wi_status inst' = Suspended \<or> wi_status inst' = Terminated \<and> wi_complete_time inst' \<noteq> None)"

lemma header_evolves_refl [simp]: "header_evolves inst inst"
  by (simp add: header_evolves_def)

lemma header_evolves_trans:
  "header_evolves a b \<Longrightarrow> header_evolves b c \<Longrightarrow> header_evolves a c"
  by (auto simp: header_evolves_def)

lemma start_pointer_fields:
  assumes "start_pointer S i inst w = (inst', w')" and "i < length (wi_execution_pointers inst)"
  shows "\<exists>p'. wi_execution_pointers inst' = (wi_execution_pointers inst)[i := p'] \<and>
           same_pointer (wi_execution_pointers inst ! i) p' \<and> ep_status p' = Running \<and>
           ep_active p' = ep_active (wi_execution_pointers inst ! i) \<and>
           ep_retry_count p' = ep_retry_count (wi_execution_pointers inst ! i)"
    and "header_evolves inst inst'" and "wi_data inst' = wi_data inst"
  using assms
  by (auto simp: start_pointer_def header_evolves_def same_pointer_def split: if_splits prod.splits
      intro!: exI)

lemma apply_result_evolve:
  assumes "apply_result E S d step i r st w = (st', w')"
    and "i < length (wi_execution_pointers (lp_workflow st))"
    and "ep_status (wi_execution_pointers (lp_workflow st) ! i) = Running"
    and "ep_active (wi_execution_pointers (lp_workflow st) ! i)"
  shows "pointers_evolve {i} (wi_execution_pointers (lp_workflow st)) (wi_execution_pointers (lp_workflow st'))"
    and "header_evolves (lp_workflow st) (lp_workflow st')"
proof -
  let ?inst = "lp_workflow st" and ?w = "publish_lifecycle E S (lp_workflow st) (LStepCompleted (ws_id step) (ws_name step)) w"
  obtain p' pr w1 where pr: "process_result S r (wi_execution_pointers ?inst ! i) d (wi_id ?inst) ?w = ((p', pr), w1)"
    by (metis surj_pair)
  with assms(1) have ps: "wi_execution_pointers (lp_workflow st') =
      (wi_execution_pointers ?inst)[i := p'] @ pr_new_pointers pr"
    and h: "header_evolves ?inst (lp_workflow st')"
    by (auto simp: apply_result_def Let_def header_evolves_def)
  from h show "header_evolves ?inst (lp_workflow st')" .
  have "same_pointer (wi_execution_pointers ?inst ! i) p'"
    using process_result_keeps[OF pr] by (simp add: same_pointer_def)
  moreover have "fresh_successor (wi_execution_pointers ?inst ! i) q" if "q \<in> set (pr_new_pointers pr)" for q
    using process_result_new_ok[OF pr that] by (simp add: fresh_successor_def split: if_splits)
  ultimately show "pointers_evolve {i} (wi_execution_pointers ?inst) (wi_execution_pointers (lp_workflow st'))"
    using process_result_ok[OF pr assms(3,4)] assms(2) unfolding ps by (intro pointers_evolve_step)
qed

lemma apply_error_evolve:
  assumes "apply_error E S wid d i e st w = (st', w')"
    and "i < length (wi_execution_pointers (lp_workflow st))"
  shows "pointers_evolve {i} (wi_execution_pointers (lp_workflow st)) (wi_execution_pointers (lp_workflow st'))"
    and "header_evolves (lp_workflow st) (lp_workflow st')"
proof -
  let ?inst = "lp_workflow st"
  obtain now w1 where now: "utc_now S (publish_lifecycle E S ?inst (LError e) w) = (now, w1)"
    by (metis surj_pair)
  obtain p' h w2 where h: "handle_error S (wi_execution_pointers ?inst ! i) d w1 = ((p', h), w2)"
    by (metis surj_pair)
  from assms(1) now h have ps: "wi_execution_pointers (lp_workflow st') =
      (wi_execution_pointers ?inst)[i := p'] @ eh_new_pointers h"
    and hd: "header_evolves ?inst (lp_workflow st')"
    by (auto simp: apply_error_def Let_def header_evolves_def dest!: handle_error_workflow_status
        split: option.splits prod.splits if_splits)
  from hd show "header_evolves ?inst (lp_workflow st')" .
  have "same_pointer (wi_execution_pointers ?inst ! i) p'"
    using handle_error_keeps[OF h] by (simp add: same_pointer_def)
  moreover have "fresh_successor (wi_execution_pointers ?inst ! i) q" if "q \<in> set (eh_new_pointers h)" for q
    using handle_error_ok(2)[OF h that] by (simp add: fresh_successor_def)
  ultimately show "pointers_evolve {i} (wi_execution_pointers ?inst) (wi_execution_pointers (lp_workflow st'))"
    using handle_error_ok(1)[OF h] assms(2) unfolding ps by (intro pointers_evolve_step)
qed

lemma skip_pointer_evolve:
  assumes "skip_pointer S d step i inst w = (inst', w')"
    and "i < length (wi_execution_pointers inst)"
  shows "pointers_evolve {i} (wi_execution_pointers inst) (wi_execution_pointers inst')"
    and "header_evolves inst inst'"
proof -
  let ?p = "wi_execution_pointers inst ! i"
  obtain now w1 where now: "utc_now S w = (now, w1)" by (metis surj_pair)
  let ?p' = "?p\<lparr>ep_status := Skipped, ep_active := False, ep_end_time := Some now\<rparr>"
  obtain new where ps: "wi_execution_pointers inst' = (wi_execution_pointers inst)[i := ?p'] @ new"
    and new: "\<And>q. q \<in> set new \<Longrightarrow> fresh_successor ?p q"
  proof (cases "ws_outcomes step")
    case Nil
    with assms now that[of "[]"] show ?thesis by (auto simp: skip_pointer_def)
  next
    case (Cons oc ocs)
    obtain q w2 where q: "new_pointer S d (so_next_step oc) (ep_id ?p) (ep_scope ?p) w1 = (q, w2)"
      by (metis surj_pair)
    with assms now Cons that[of "[q]"] new_pointer_fields[OF q] show ?thesis
      by (auto simp: skip_pointer_def fresh_successor_def)
  qed
  show "pointers_evolve {i} (wi_execution_pointers inst) (wi_execution_pointers inst')"
    unfolding ps using assms(2) new
    by (intro pointers_evolve_step) (simp_all add: same_pointer_def pointer_ok_def)
  from assms(1) show "header_evolves inst inst'"
    by (auto simp: skip_pointer_def header_evolves_def Let_def split: list.splits prod.splits)
qed

lemma perform_step_evolve:
  assumes "perform_step E S wid d host step body i st w = (st', w')"
    and "i < length (wi_execution_pointers (lp_workflow st))"
    and "ep_active (wi_execution_pointers (lp_workflow st) ! i)"
  shows "pointers_evolve {i} (wi_execution_pointers (lp_workflow st)) (wi_execution_pointers (lp_workflow st'))"
    and "header_evolves (lp_workflow st) (lp_workflow st')"
proof -
  obtain inst1 w1 where st: "start_pointer S i (lp_workflow st) w = (inst1, w1)" by (metis surj_pair)
  from start_pointer_fields[OF st assms(2)] obtain p1 where
    ps1: "wi_execution_pointers inst1 = (wi_execution_pointers (lp_workflow st))[i := p1]"
    and p1: "same_pointer (wi_execution_pointers (lp_workflow st) ! i) p1" "ep_status p1 = Running"
      "ep_active p1 = ep_active (wi_execution_pointers (lp_workflow st) ! i)"
    and h1: "header_evolves (lp_workflow st) inst1" by blast
  let ?st1 = "st\<lparr>lp_workflow := inst1\<rparr>"
  from p1 assms have e1: "pointers_evolve {i} (wi_execution_pointers (lp_workflow st)) (wi_execution_pointers inst1)"
    using pointers_evolve_step[of i "wi_execution_pointers (lp_workflow st)" p1 "[]"]
    by (simp add: ps1 pointer_ok_def)
  from assms(1) st have "(\<exists>r w2. apply_result E S d step i r ?st1 w2 = (st', w')) \<or>
      (\<exists>e w2. apply_error E S wid d i e ?st1 w2 = (st', w'))"
    by (auto simp: perform_step_def Let_def split: prod.splits sum.splits)
  then have "pointers_evolve {i} (wi_execution_pointers inst1) (wi_execution_pointers (lp_workflow st')) \<and>
      header_evolves inst1 (lp_workflow st')"
    using apply_result_evolve[of E S d step i _ ?st1 _ st' w'] apply_error_evolve[of E S wid d i _ ?st1 _ st' w']
      p1 assms(2,3) by (auto simp: ps1)
  with pointers_evolve_trans[OF e1] header_evolves_trans[OF h1] assms(2)
  show "pointers_evolve {i} (wi_execution_pointers (lp_workflow st)) (wi_execution_pointers (lp_workflow st'))"
    and "header_evolves (lp_workflow st) (lp_workflow st')" by fastforce+
qed

lemma perform_step_length:
  assumes "perform_step E S wid d host step body i st w = (st', w')"
    and "i < length (wi_execution_pointers (lp_workflow st))"
  shows "length (wi_execution_pointers (lp_workflow st)) \<le> length (wi_execution_pointers (lp_workflow st'))"
proof -
  obtain inst1 w1 where st: "start_pointer S i (lp_workflow st) w = (inst1, w1)" by (metis surj_pair)
  from start_pointer_fields(1)[OF st assms(2)]
  have "length (wi_execution_pointers inst1) = length (wi_execution_pointers (lp_workflow st))" by auto
  with assms(1) st show ?thesis
    by (auto simp: perform_step_def apply_result_def apply_error_def Let_def
        split: prod.splits sum.splits option.splits if_splits)
qed

lemma execute_pointer_evolve:
  assumes "execute_pointer E S wid d reg host i st w = (Inr st', w')"
    and "i < length (wi_execution_pointers (lp_workflow st))"
    and "ep_active (wi_execution_pointers (lp_workflow st) ! i)"
  shows "pointers_evolve {i} (wi_execution_pointers (lp_workflow st)) (wi_execution_pointers (lp_workflow st'))"
    and "header_evolves (lp_workflow st) (lp_workflow st')"
  using assms
  by (auto simp: execute_pointer_def Let_def split: option.splits sum.splits bool.splits prod.splits
      dest: skip_pointer_evolve perform_step_evolve)

lemma execute_pointers_evolve:
  assumes "execute_pointers E S wid d reg host is st w = (Inr st', w')" and "distinct is"
    and "\<And>i. i \<in> set is \<Longrightarrow> i < length (wi_execution_pointers (lp_workflow st)) \<and>
           ep_active (wi_execution_pointers (lp_workflow st) ! i)"
  shows "pointers_evolve (set is) (wi_execution_pointers (lp_workflow st)) (wi_execution_pointers (lp_workflow st')) \<and>
         header_evolves (lp_workflow st) (lp_workflow st')"
  using assms
proof (induction "is" arbitrary: st w)
  case Nil
  then show ?case by (simp add: pointers_evolve_refl)
next
  case (Cons i "is")
  let ?ps = "\<lambda>st. wi_execution_pointers (lp_workflow st)"
  from Cons.prems(1) obtain st1 w1 where
    s1: "execute_pointer E S wid d reg host i st w = (Inr st1, w1)" and
    s2: "execute_pointers E S wid d reg host is st1 w1 = (Inr st', w')"
    by (auto split: prod.splits sum.splits)
  from Cons.prems(3)[of i] have i: "i < length (?ps st)" "ep_active (?ps st ! i)" by auto
  note e1 = execute_pointer_evolve[OF s1 i]
  have "j < length (?ps st1) \<and> ep_active (?ps st1 ! j)" if j: "j \<in> set is" for j
  proof -
    from Cons.prems(3)[of j] Cons.prems(2) j have "j < length (?ps st)" "ep_active (?ps st ! j)" "j \<notin> {i}"
      by auto
    with pointers_evolve_other[OF e1(1)] e1(1) show ?thesis by (simp add: pointers_evolve_def)
  qed
  with Cons.IH[OF s2] Cons.prems(2)
  have e2: "pointers_evolve (set is) (?ps st1) (?ps st')" "header_evolves (lp_workflow st1) (lp_workflow st')"
    by auto
  from Cons.prems(3) have "set is \<subseteq> {..<length (?ps st)}" by auto
  from pointers_evolve_trans[OF e1(1) e2(1) this] header_evolves_trans[OF e1(2) e2(2)]
  show ?case by simp
qed

end
