(* ===== verification/InMemory.thy ===== *)
theory InMemory
  imports Providers
begin

text \<open>
  The in-memory providers of \<open>wfe-core/src/test_support\<close>: persistence, queue, lock and lifecycle
  publisher. Their shared state is one record, the world. A \<open>HashMap\<close> is an association list
  without duplicate keys; its order stands for the unspecified iteration order of the map, and no
  theorem depends on it. The clock and the UUID source of the world are streams, read in order.
\<close>

section \<open>State\<close>

record mem_world =
  mw_workflows :: "(string \<times> workflow_instance) list"
  mw_events :: "(string \<times> event) list"
  mw_subscriptions :: "(string \<times> event_subscription) list"
  mw_errors :: "execution_error list"
  mw_scheduled_commands :: "scheduled_command list"
  mw_sequences :: "(string \<times> u64) list"
  mw_queues :: "(queue_type \<times> string list) list"
  mw_locks :: "string set"
  mw_published :: "lifecycle_event list"
  mw_clock :: "nat \<Rightarrow> date_time"
  mw_ticks :: nat
  mw_uuids :: "nat \<Rightarrow> string"
  mw_drawn :: nat

definition mem_new :: "(nat \<Rightarrow> date_time) \<Rightarrow> (nat \<Rightarrow> string) \<Rightarrow> mem_world" where
  "mem_new clock uuids =
     \<lparr>mw_workflows = [], mw_events = [], mw_subscriptions = [], mw_errors = [],
      mw_scheduled_commands = [], mw_sequences = [], mw_queues = [], mw_locks = {},
      mw_published = [], mw_clock = clock, mw_ticks = 0, mw_uuids = uuids, mw_drawn = 0\<rparr>"

definition mem_now :: "(mem_world, date_time) eff" where
  "mem_now w = (mw_clock w (mw_ticks w), w\<lparr>mw_ticks := Suc (mw_ticks w)\<rparr>)"

definition mem_uuid :: "(mem_world, string) eff" where
  "mem_uuid w = (mw_uuids w (mw_drawn w), w\<lparr>mw_drawn := Suc (mw_drawn w)\<rparr>)"

definition mem_sys :: "mem_world sys" where
  "mem_sys = \<lparr>utc_now = mem_now, uuid_v4 = mem_uuid\<rparr>"

section \<open>Workflow repository\<close>

definition mem_create_new_workflow :: "workflow_instance \<Rightarrow> (mem_world, string res) eff" where
  "mem_create_new_workflow inst w =
     (let (i, w) = (if wi_id inst = [] then mem_uuid w else (wi_id inst, w));
          stored = inst\<lparr>wi_id := i\<rparr>;
          stored = (if wi_name stored = [] then stored\<lparr>wi_name := i\<rparr> else stored)
      in (Inr i, w\<lparr>mw_workflows := AList.update i stored (mw_workflows w)\<rparr>))"

definition mem_persist_workflow :: "workflow_instance \<Rightarrow> (mem_world, unit res) eff" where
  "mem_persist_workflow inst w =
     (Inr (), w\<lparr>mw_workflows := AList.update (wi_id inst) inst (mw_workflows w)\<rparr>)"

definition mem_persist_workflow_with_subscriptions ::
  "workflow_instance \<Rightarrow> event_subscription list \<Rightarrow> (mem_world, unit res) eff" where
  "mem_persist_workflow_with_subscriptions inst subs w =
     (case mem_persist_workflow inst w of
        (Inl e, w) \<Rightarrow> (Inl e, w)
      | (Inr _, w) \<Rightarrow>
          (Inr (), w\<lparr>mw_subscriptions :=
             fold (\<lambda>s acc. AList.update (es_id s) s acc) subs (mw_subscriptions w)\<rparr>))"

definition mem_get_runnable_instances :: "date_time \<Rightarrow> (mem_world, string list res) eff" where
  "mem_get_runnable_instances as_at w =
     (Inr (map wi_id
        (filter (\<lambda>i. wi_status i = Runnable
                     \<and> unwrap_or (map_option (\<lambda>ne. ne \<le> timestamp_millis as_at) (wi_next_execution i))
                         False)
          (map snd (mw_workflows w)))), w)"

definition mem_get_workflow_instance :: "string \<Rightarrow> (mem_world, workflow_instance res) eff" where
  "mem_get_workflow_instance i w = (ok_or (WorkflowNotFound i) (map_of (mw_workflows w) i), w)"

definition mem_get_workflow_instance_by_name :: "string \<Rightarrow> (mem_world, workflow_instance res) eff" where
  "mem_get_workflow_instance_by_name n w =
     (ok_or (WorkflowNotFound n) (List.find (\<lambda>i. wi_name i = n) (map snd (mw_workflows w))), w)"

definition mem_next_definition_sequence :: "string \<Rightarrow> (mem_world, u64 res) eff" where
  "mem_next_definition_sequence def_id w =
     (let n = unwrap_or (map_of (mw_sequences w) def_id) 0 + 1
      in (Inr n, w\<lparr>mw_sequences := AList.update def_id n (mw_sequences w)\<rparr>))"

definition mem_get_workflow_instances :: "string list \<Rightarrow> (mem_world, workflow_instance list res) eff" where
  "mem_get_workflow_instances ids w = (Inr (List.map_filter (map_of (mw_workflows w)) ids), w)"

section \<open>Subscription repository\<close>

definition mem_create_event_subscription :: "event_subscription \<Rightarrow> (mem_world, string res) eff" where
  "mem_create_event_subscription sub w =
     (let (i, w) = (if es_id sub = [] then mem_uuid w else (es_id sub, w))
      in (Inr i, w\<lparr>mw_subscriptions := AList.update i (sub\<lparr>es_id := i\<rparr>) (mw_subscriptions w)\<rparr>))"

definition open_for :: "string \<Rightarrow> string \<Rightarrow> date_time \<Rightarrow> event_subscription \<Rightarrow> bool" where
  "open_for n k as_of s \<longleftrightarrow>
     es_event_name s = n \<and> es_event_key s = k \<and> es_subscribe_as_of s \<le> as_of \<and> es_external_token s = None"

definition mem_get_subscriptions ::
  "string \<Rightarrow> string \<Rightarrow> date_time \<Rightarrow> (mem_world, event_subscription list res) eff" where
  "mem_get_subscriptions n k as_of w =
     (Inr (filter (open_for n k as_of) (map snd (mw_subscriptions w))), w)"

definition mem_terminate_subscription :: "string \<Rightarrow> (mem_world, unit res) eff" where
  "mem_terminate_subscription i w =
     (case map_of (mw_subscriptions w) i of
        Some sub \<Rightarrow>
          (Inr (), w\<lparr>mw_subscriptions :=
             AList.update i (sub\<lparr>es_external_token := Some ''__terminated__''\<rparr>) (mw_subscriptions w)\<rparr>)
      | None \<Rightarrow> (Inl (SubscriptionNotFound i), w))"

definition mem_get_subscription :: "string \<Rightarrow> (mem_world, event_subscription res) eff" where
  "mem_get_subscription i w = (ok_or (SubscriptionNotFound i) (map_of (mw_subscriptions w) i), w)"

definition mem_get_first_open_subscription ::
  "string \<Rightarrow> string \<Rightarrow> date_time \<Rightarrow> (mem_world, event_subscription option res) eff" where
  "mem_get_first_open_subscription n k as_of w =
     (Inr (List.find (open_for n k as_of) (map snd (mw_subscriptions w))), w)"

definition mem_set_subscription_token ::
  "string \<Rightarrow> string \<Rightarrow> string \<Rightarrow> date_time \<Rightarrow> (mem_world, bool res) eff" where
  "mem_set_subscription_token i token worker_id expiry w =
     (case map_of (mw_subscriptions w) i of
        Some sub \<Rightarrow>
          if es_external_token sub \<noteq> None then (Inr False, w)
          else (Inr True, w\<lparr>mw_subscriptions :=
             AList.update i (sub\<lparr>es_external_token := Some token, es_external_worker_id := Some worker_id,
                                  es_external_token_expiry := Some expiry\<rparr>) (mw_subscriptions w)\<rparr>)
      | None \<Rightarrow> (Inl (SubscriptionNotFound i), w))"

definition mem_clear_subscription_token :: "string \<Rightarrow> string \<Rightarrow> (mem_world, unit res) eff" where
  "mem_clear_subscription_token i token w =
     (case map_of (mw_subscriptions w) i of
        Some sub \<Rightarrow>
          if es_external_token sub \<noteq> Some token
          then (Inl (Persistence (''Token mismatch for subscription '' @ i)), w)
          else (Inr (), w\<lparr>mw_subscriptions :=
             AList.update i (sub\<lparr>es_external_token := None, es_external_worker_id := None,
                                  es_external_token_expiry := None\<rparr>) (mw_subscriptions w)\<rparr>)
      | None \<Rightarrow> (Inl (SubscriptionNotFound i), w))"

section \<open>Event repository\<close>

definition mem_create_event :: "event \<Rightarrow> (mem_world, string res) eff" where
  "mem_create_event ev w =
     (let (i, w) = (if ev_id ev = [] then mem_uuid w else (ev_id ev, w))
      in (Inr i, w\<lparr>mw_events := AList.update i (ev\<lparr>ev_id := i\<rparr>) (mw_events w)\<rparr>))"

definition mem_get_event :: "string \<Rightarrow> (mem_world, event res) eff" where
  "mem_get_event i w = (ok_or (EventNotFound i) (map_of (mw_events w) i), w)"

definition mem_get_runnable_events :: "date_time \<Rightarrow> (mem_world, string list res) eff" where
  "mem_get_runnable_events as_at w =
     (Inr (map ev_id (filter (\<lambda>e. \<not> ev_is_processed e \<and> ev_time e \<le> as_at) (map snd (mw_events w)))), w)"

definition mem_get_events :: "string \<Rightarrow> string \<Rightarrow> date_time \<Rightarrow> (mem_world, string list res) eff" where
  "mem_get_events n k as_of w =
     (Inr (map ev_id (filter (\<lambda>e. ev_name e = n \<and> ev_key e = k \<and> ev_time e \<le> as_of)
        (map snd (mw_events w)))), w)"

definition set_processed :: "bool \<Rightarrow> string \<Rightarrow> (mem_world, unit res) eff" where
  "set_processed b i w =
     (case map_of (mw_events w) i of
        Some ev \<Rightarrow> (Inr (), w\<lparr>mw_events := AList.update i (ev\<lparr>ev_is_processed := b\<rparr>) (mw_events w)\<rparr>)
      | None \<Rightarrow> (Inl (EventNotFound i), w))"

definition mem_mark_event_processed :: "string \<Rightarrow> (mem_world, unit res) eff" where
  "mem_mark_event_processed i w = set_processed True i w"

definition mem_mark_event_unprocessed :: "string \<Rightarrow> (mem_world, unit res) eff" where
  "mem_mark_event_unprocessed i w = set_processed False i w"

section \<open>Scheduled commands and errors\<close>

definition mem_schedule_command :: "scheduled_command \<Rightarrow> (mem_world, unit res) eff" where
  "mem_schedule_command c w = (Inr (), w\<lparr>mw_scheduled_commands := mw_scheduled_commands w @ [c]\<rparr>)"

fun run_commands :: "(scheduled_command \<Rightarrow> (mem_world, unit res) eff) \<Rightarrow> scheduled_command list \<Rightarrow>
    (mem_world, unit res) eff" where
  "run_commands handler [] w = (Inr (), w)"
| "run_commands handler (c # cs) w =
     (case handler c w of (Inl e, w) \<Rightarrow> (Inl e, w) | (Inr _, w) \<Rightarrow> run_commands handler cs w)"

definition mem_process_commands ::
  "date_time \<Rightarrow> (scheduled_command \<Rightarrow> (mem_world, unit res) eff) \<Rightarrow> (mem_world, unit res) eff" where
  "mem_process_commands as_of handler w =
     (let (due, remaining) =
        partition (\<lambda>c. sc_execute_time c \<le> timestamp_millis as_of) (mw_scheduled_commands w)
      in run_commands handler due (w\<lparr>mw_scheduled_commands := remaining\<rparr>))"

definition mem_persist_errors :: "execution_error list \<Rightarrow> (mem_world, unit res) eff" where
  "mem_persist_errors errors w = (Inr (), w\<lparr>mw_errors := mw_errors w @ errors\<rparr>)"

definition mem_persistence :: "mem_world persistence_provider" where
  "mem_persistence =
     \<lparr>create_new_workflow = mem_create_new_workflow, persist_workflow = mem_persist_workflow,
      persist_workflow_with_subscriptions = mem_persist_workflow_with_subscriptions,
      get_runnable_instances = mem_get_runnable_instances,
      get_workflow_instance = mem_get_workflow_instance,
      get_workflow_instance_by_name = mem_get_workflow_instance_by_name,
      next_definition_sequence = mem_next_definition_sequence,
      get_workflow_instances = mem_get_workflow_instances,
      create_event_subscription = mem_create_event_subscription,
      get_subscriptions = mem_get_subscriptions,
      terminate_subscription = mem_terminate_subscription,
      get_subscription = mem_get_subscription,
      get_first_open_subscription = mem_get_first_open_subscription,
      set_subscription_token = mem_set_subscription_token,
      clear_subscription_token = mem_clear_subscription_token,
      create_event = mem_create_event, get_event = mem_get_event,
      get_runnable_events = mem_get_runnable_events, get_events = mem_get_events,
      mark_event_processed = mem_mark_event_processed,
      mark_event_unprocessed = mem_mark_event_unprocessed,
      schedule_command = mem_schedule_command, persist_errors = mem_persist_errors\<rparr>"

section \<open>Queue, lock and lifecycle providers\<close>

definition mem_queue_work :: "string \<Rightarrow> queue_type \<Rightarrow> (mem_world, unit res) eff" where
  "mem_queue_work i t w =
     (Inr (), w\<lparr>mw_queues := AList.update t (unwrap_or (map_of (mw_queues w) t) [] @ [i]) (mw_queues w)\<rparr>)"

definition mem_dequeue_work :: "queue_type \<Rightarrow> (mem_world, string option res) eff" where
  "mem_dequeue_work t w =
     (case map_of (mw_queues w) t of
        None \<Rightarrow> (Inr None, w)
      | Some [] \<Rightarrow> (Inr None, w)
      | Some (i # is) \<Rightarrow> (Inr (Some i), w\<lparr>mw_queues := AList.update t is (mw_queues w)\<rparr>))"

definition mem_queue :: "mem_world queue_provider" where
  "mem_queue = \<lparr>queue_work = mem_queue_work, dequeue_work = mem_dequeue_work\<rparr>"

definition mem_acquire_lock :: "string \<Rightarrow> (mem_world, bool res) eff" where
  "mem_acquire_lock r w = (Inr (r \<notin> mw_locks w), w\<lparr>mw_locks := insert r (mw_locks w)\<rparr>)"

definition mem_release_lock :: "string \<Rightarrow> (mem_world, unit res) eff" where
  "mem_release_lock r w = (Inr (), w\<lparr>mw_locks := mw_locks w - {r}\<rparr>)"

definition mem_lock :: "mem_world lock_provider" where
  "mem_lock = \<lparr>acquire_lock = mem_acquire_lock, release_lock = mem_release_lock\<rparr>"

definition mem_publish :: "lifecycle_event \<Rightarrow> (mem_world, unit res) eff" where
  "mem_publish e w = (Inr (), w\<lparr>mw_published := mw_published w @ [e]\<rparr>)"

definition mem_lifecycle :: "mem_world lifecycle_publisher" where
  "mem_lifecycle = \<lparr>publish = mem_publish\<rparr>"

section \<open>Views and well-formedness\<close>

definition mem_stored :: "mem_world \<Rightarrow> string \<rightharpoonup> workflow_instance" where
  "mem_stored w = map_of (mw_workflows w)"

definition mem_queued :: "mem_world \<Rightarrow> queue_type \<Rightarrow> string list" where
  "mem_queued w t = unwrap_or (map_of (mw_queues w) t) []"

definition mem_uuids_drawn :: "mem_world \<Rightarrow> string set" where
  "mem_uuids_drawn w = mw_uuids w ` {..<mw_drawn w}"

definition mem_uuids_unique :: "mem_world \<Rightarrow> bool" where
  "mem_uuids_unique w \<longleftrightarrow> inj (mw_uuids w)"

text \<open>No duplicate keys, and every entry is stored under its own id.\<close>

definition mem_invar :: "mem_world \<Rightarrow> bool" where
  "mem_invar w \<longleftrightarrow>
     distinct (map fst (mw_workflows w)) \<and> (\<forall>(i, x) \<in> set (mw_workflows w). wi_id x = i) \<and>
     distinct (map fst (mw_events w)) \<and> (\<forall>(i, x) \<in> set (mw_events w). ev_id x = i) \<and>
     distinct (map fst (mw_subscriptions w)) \<and> (\<forall>(i, x) \<in> set (mw_subscriptions w). es_id x = i) \<and>
     distinct (map fst (mw_sequences w)) \<and> distinct (map fst (mw_queues w))"

section \<open>Lemmas\<close>

lemmas mem_ops = mem_create_new_workflow_def mem_persist_workflow_def
  mem_persist_workflow_with_subscriptions_def mem_get_workflow_instance_def mem_queue_work_def
  mem_dequeue_work_def mem_acquire_lock_def mem_release_lock_def mem_publish_def
  mem_persist_errors_def mem_create_event_def mem_now_def mem_uuid_def

lemma mem_persistence_simps [simp]:
  "create_new_workflow mem_persistence = mem_create_new_workflow"
  "persist_workflow mem_persistence = mem_persist_workflow"
  "persist_workflow_with_subscriptions mem_persistence = mem_persist_workflow_with_subscriptions"
  "get_workflow_instance mem_persistence = mem_get_workflow_instance"
  "get_workflow_instance_by_name mem_persistence = mem_get_workflow_instance_by_name"
  "next_definition_sequence mem_persistence = mem_next_definition_sequence"
  "get_subscriptions mem_persistence = mem_get_subscriptions"
  "terminate_subscription mem_persistence = mem_terminate_subscription"
  "create_event mem_persistence = mem_create_event" "get_event mem_persistence = mem_get_event"
  "mark_event_processed mem_persistence = mem_mark_event_processed"
  "persist_errors mem_persistence = mem_persist_errors"
  by (simp_all add: mem_persistence_def)

lemma mem_provider_simps [simp]:
  "queue_work mem_queue = mem_queue_work" "dequeue_work mem_queue = mem_dequeue_work"
  "acquire_lock mem_lock = mem_acquire_lock" "release_lock mem_lock = mem_release_lock"
  "utc_now mem_sys = mem_now" "uuid_v4 mem_sys = mem_uuid" "publish mem_lifecycle = mem_publish"
  by (simp_all add: mem_queue_def mem_lock_def mem_sys_def mem_lifecycle_def)

lemma mem_views_locks [simp]:
  "mem_stored (w\<lparr>mw_locks := l\<rparr>) = mem_stored w" "mem_queued (w\<lparr>mw_locks := l\<rparr>) = mem_queued w"
  "mem_uuids_drawn (w\<lparr>mw_locks := l\<rparr>) = mem_uuids_drawn w"
  "mem_uuids_unique (w\<lparr>mw_locks := l\<rparr>) = mem_uuids_unique w"
  by (simp_all add: mem_stored_def mem_queued_def mem_uuids_drawn_def mem_uuids_unique_def fun_eq_iff)

lemma mem_views_new [simp]:
  "mem_stored (mem_new c u) = Map.empty" "mem_queued (mem_new c u) t = []" "mw_locks (mem_new c u) = {}"
  by (simp_all add: mem_new_def mem_stored_def mem_queued_def unwrap_or_def)

interpretation mem_locks: lock_contract mem_lock mw_locks
  by unfold_locales (auto simp: mem_acquire_lock_def mem_release_lock_def)

interpretation mem_queues: queue_contract mem_queue mem_queued
  by unfold_locales
    (auto simp: mem_queue_work_def mem_dequeue_work_def mem_queued_def fun_eq_iff update_conv'
      split: option.splits list.splits)

interpretation mem_repo: workflow_repository mem_persistence mem_stored
  by unfold_locales
    (auto simp: mem_ops mem_stored_def update_conv' split: option.splits)

interpretation mem_ids: uuid_source mem_sys mem_uuids_drawn mem_uuids_unique
  by unfold_locales
    (auto simp: mem_uuid_def mem_now_def mem_uuids_drawn_def mem_uuids_unique_def lessThan_Suc
      dest: injD)

end
