(* ===== verification/Executor_Correct.thy ===== *)
theory Executor_Correct
  imports Executor InMemory
begin

text \<open>
  What one call of the executor does to a stored instance. The locale \<open>executor_backend\<close> collects
  what the executor relies on of its persistence, queue and lock providers; its lemmas hold for
  every backend with these laws. The in-memory providers satisfy them (\<open>mem_exec\<close>), and the
  properties are stated for the executor over those, with any lifecycle publisher, artifact store,
  registry of step bodies and host context.
\<close>

section \<open>The end of a pass\<close>

lemma complete_workflow_fields:
  assumes "complete_workflow E S wid inst w = (inst', w')"
  shows "wi_execution_pointers inst' = wi_execution_pointers inst" and "wi_id inst' = wi_id inst"
    and "wi_data inst' = wi_data inst"
    and "if all_done inst \<and> wi_status inst = Runnable
         then wi_status inst' = Complete \<and> wi_complete_time inst' \<noteq> None else inst' = inst"
  using assms by (auto simp: complete_workflow_def Let_def split: if_splits prod.splits)

lemma next_execution_of_cong:
  "wi_execution_pointers a = wi_execution_pointers b \<Longrightarrow> wi_status a = wi_status b \<Longrightarrow>
     next_execution_of a = next_execution_of b"
  by (simp add: next_execution_of_def has_active_def)

text \<open>
  An instance at rest: complete, suspended or terminated; or still runnable, and then either some
  pointer is active, or every pointer that is not final waits for an event.
\<close>

definition waits_for_events :: "workflow_instance \<Rightarrow> bool" where
  "waits_for_events inst \<longleftrightarrow>
     (\<forall>p \<in> set (wi_execution_pointers inst). is_final (ep_status p) \<or> ep_status p = WaitingForEvent \<and> \<not> ep_active p)"

lemma not_active_waits:
  assumes "\<forall>p \<in> set (wi_execution_pointers inst). pointer_ok p" and "\<not> has_active inst"
  shows "waits_for_events inst"
  unfolding waits_for_events_def
proof
  fix p assume "p \<in> set (wi_execution_pointers inst)"
  with assms have "pointer_ok p" "\<not> ep_active p" by (auto simp: has_active_def list_ex_iff)
  then show "is_final (ep_status p) \<or> ep_status p = WaitingForEvent \<and> \<not> ep_active p"
    by (cases "ep_status p") (auto simp: pointer_ok_def)
qed

section \<open>Backends\<close>

locale executor_backend =
  workflow_repository "we_persistence E" stored +
  queue_contract "we_queue_provider E" queued +
  lock_contract "we_lock_provider E" held
  for E :: "'w workflow_executor" and stored queued held +
  assumes errors_frame: "persist_errors (we_persistence E) es w = (r, w') \<Longrightarrow>
      stored w' = stored w \<and> queued w' = queued w"
    and queue_frame: "queue_work (we_queue_provider E) i t w = (r2, w') \<Longrightarrow> stored w' = stored w"
    and index_frame: "we_search E = Some s \<Longrightarrow> index_workflow s x w = (r3, w') \<Longrightarrow>
      stored w' = stored w \<and> queued w' = queued w"
    and acquire_frame: "acquire_lock (we_lock_provider E) i w = (r4, w') \<Longrightarrow>
      stored w' = stored w \<and> queued w' = queued w"
    and release_frame: "release_lock (we_lock_provider E) i w = (r5, w') \<Longrightarrow>
      stored w' = stored w \<and> queued w' = queued w"
begin

lemma store_instance_stored:
  assumes "store_instance E st w = (Inr u, w')"
  shows "stored w' = (stored w)(wi_id (lp_workflow st) \<mapsto> lp_workflow st)"
  using assms
  by (auto simp: store_instance_def split: if_splits prod.splits sum.splits
      dest!: persist_Ok persist_subs_Ok errors_frame)

lemma finish_execution_stored:
  assumes "finish_execution E S wid st w = (Inr u, w')" and "wi_id (lp_workflow st) = wid"
  shows "\<exists>inst'. stored w' wid = Some inst' \<and> wi_id inst' = wid \<and>
     wi_execution_pointers inst' = wi_execution_pointers (lp_workflow st) \<and>
     wi_status inst' = (if all_done (lp_workflow st) \<and> wi_status (lp_workflow st) = Runnable
                        then Complete else wi_status (lp_workflow st)) \<and>
     (wi_status inst' = Complete \<longrightarrow> wi_status (lp_workflow st) = Runnable \<longrightarrow> wi_complete_time inst' \<noteq> None) \<and>
     (wi_status inst' \<noteq> Complete \<longrightarrow> wi_complete_time inst' = wi_complete_time (lp_workflow st)) \<and>
     wi_next_execution inst' = next_execution_of inst' \<and>
     (wi_status inst' = Runnable \<and> has_active inst' \<longrightarrow> wid \<in> set (queued w' QWorkflow))"
proof -
  obtain inst w1 where c: "complete_workflow E S wid (lp_workflow st) w = (inst, w1)" by (metis surj_pair)
  let ?inst = "inst\<lparr>wi_next_execution := next_execution_of inst\<rparr>"
  from assms(1) c obtain w2 where s: "store_instance E (st\<lparr>lp_workflow := ?inst\<rparr>) w1 = (Inr (), w2)"
    by (auto simp: finish_execution_def Let_def split: prod.splits sum.splits)
  have w2: "stored w2 wid = Some ?inst"
    using store_instance_stored[OF s] complete_workflow_fields(2)[OF c] assms(2) by simp
  from assms(1) c s have "stored w' = stored w2 \<and>
      (wi_status inst = Runnable \<and> has_active ?inst \<longrightarrow> wid \<in> set (queued w' QWorkflow))"
    by (auto simp: finish_execution_def Let_def has_active_def split: prod.splits sum.splits if_splits option.splits
        dest: queue_frame queue_work_mem index_frame)
      (metis index_frame queue_frame queue_work_mem prod.collapse)+
  with w2 complete_workflow_fields[OF c] assms(2) show ?thesis
    by (auto simp: next_execution_of_def has_active_def split: if_splits)
qed

text \<open>A successful call on a free, runnable instance goes through the whole of \<open>execute_inner\<close>.\<close>

lemma execute_run:
  assumes "execute E S wid d reg host w = (Inr u, w')" and "wid \<notin> held w"
    and "stored w wid = Some inst" and "wi_status inst = Runnable"
  obtains w1 now w3 st w4 w2 r where
    "acquire_lock (we_lock_provider E) wid w = (Inr True, w1)" and "utc_now S w1 = (now, w3)"
    and "execute_pointers E S wid d reg host (runnable_indices (wi_execution_pointers inst) now)
           \<lparr>lp_workflow = inst, lp_subscriptions = [], lp_errors = []\<rparr> w3 = (Inr st, w4)"
    and "finish_execution E S wid st w4 = (Inr u, w2)"
    and "release_lock (we_lock_provider E) wid w2 = (r, w')"
proof -
  from assms(1,2) obtain w1 where a: "acquire_lock (we_lock_provider E) wid w = (Inr True, w1)"
    by (auto simp: execute_def split: prod.splits sum.splits bool.splits dest!: acquire_Ok)
  from assms(1) a obtain w2 r where i: "execute_inner E S wid d reg host w1 = (Inr u, w2)"
    and r: "release_lock (we_lock_provider E) wid w2 = (r, w')"
    by (auto simp: execute_def split: prod.splits)
  from acquire_frame[OF a] assms(3) have g: "stored w1 wid = Some inst" by simp
  obtain now w3 where now: "utc_now S w1 = (now, w3)" by (metis surj_pair)
  from i now g assms(4) obtain st w4 where
    "execute_pointers E S wid d reg host (runnable_indices (wi_execution_pointers inst) now)
       \<lparr>lp_workflow = inst, lp_subscriptions = [], lp_errors = []\<rparr> w3 = (Inr st, w4)"
    and "finish_execution E S wid st w4 = (Inr u, w2)"
    by (auto simp: execute_inner_def get_Ok split: prod.splits sum.splits)
  from that[OF a now this r] show ?thesis .
qed

lemma execute_runnable:
  assumes "execute E S wid d reg host w = (Inr u, w')" and "wid \<notin> held w"
    and "stored w wid = Some inst" and "wi_id inst = wid" and "wi_status inst = Runnable"
  shows "\<exists>inst' now. now = fst (utc_now S (snd (acquire_lock (we_lock_provider E) wid w))) \<and>
     stored w' wid = Some inst' \<and> wi_id inst' = wid \<and>
     pointers_evolve (set (runnable_indices (wi_execution_pointers inst) now))
       (wi_execution_pointers inst) (wi_execution_pointers inst') \<and>
     (case wi_status inst' of
        Runnable \<Rightarrow> \<not> all_done inst' \<and> wi_complete_time inst' = wi_complete_time inst \<and>
          (has_active inst' \<longrightarrow> wid \<in> set (queued w' QWorkflow))
      | Complete \<Rightarrow> all_done inst' \<and> wi_complete_time inst' \<noteq> None
      | Terminated \<Rightarrow> wi_complete_time inst' \<noteq> None
      | Suspended \<Rightarrow> True) \<and>
     wi_next_execution inst' = next_execution_of inst'"
proof -
  obtain w1 now w3 st w4 w2 r where
    now: "acquire_lock (we_lock_provider E) wid w = (Inr True, w1)" "utc_now S w1 = (now, w3)"
    and ex: "execute_pointers E S wid d reg host (runnable_indices (wi_execution_pointers inst) now)
           \<lparr>lp_workflow = inst, lp_subscriptions = [], lp_errors = []\<rparr> w3 = (Inr st, w4)"
    and fin: "finish_execution E S wid st w4 = (Inr u, w2)"
    and r: "release_lock (we_lock_provider E) wid w2 = (r, w')" by (rule execute_run[OF assms(1-3,5)])
  let ?is = "runnable_indices (wi_execution_pointers inst) now"
  from release_frame[OF r] have fr: "stored w' = stored w2" "queued w' = queued w2" by simp_all
  from execute_pointers_evolve[OF ex] runnable_indices_props
  have ev: "pointers_evolve (set ?is) (wi_execution_pointers inst) (wi_execution_pointers (lp_workflow st))"
    and hd: "header_evolves inst (lp_workflow st)"
    by (auto dest: is_pointer_runnable_not_final)
  from hd assms(4) have "wi_id (lp_workflow st) = wid" by (simp add: header_evolves_def)
  from finish_execution_stored[OF fin this] obtain inst' where
    st': "stored w2 wid = Some inst'" "wi_id inst' = wid"
    and ps': "wi_execution_pointers inst' = wi_execution_pointers (lp_workflow st)"
    and stat: "wi_status inst' = (if all_done (lp_workflow st) \<and> wi_status (lp_workflow st) = Runnable
                        then Complete else wi_status (lp_workflow st))"
    and rest: "wi_status inst' = Complete \<longrightarrow> wi_status (lp_workflow st) = Runnable \<longrightarrow> wi_complete_time inst' \<noteq> None"
      "wi_status inst' \<noteq> Complete \<longrightarrow> wi_complete_time inst' = wi_complete_time (lp_workflow st)"
      "wi_next_execution inst' = next_execution_of inst'"
      "wi_status inst' = Runnable \<and> has_active inst' \<longrightarrow> wid \<in> set (queued w2 QWorkflow)" by blast
  have ad: "all_done inst' = all_done (lp_workflow st)" by (simp add: all_done_def ps')
  have "case wi_status inst' of
        Runnable \<Rightarrow> \<not> all_done inst' \<and> wi_complete_time inst' = wi_complete_time inst \<and>
          (has_active inst' \<longrightarrow> wid \<in> set (queued w' QWorkflow))
      | Complete \<Rightarrow> all_done inst' \<and> wi_complete_time inst' \<noteq> None
      | Terminated \<Rightarrow> wi_complete_time inst' \<noteq> None
      | Suspended \<Rightarrow> True"
    using hd stat rest(1,2,4) assms(5)
    by (auto simp: header_evolves_def ad fr split: workflow_status.splits if_splits)
  with st' ev rest(3) fr(1) ps' now show ?thesis by auto
qed

lemma execute_skips:
  assumes "acquire_lock (we_lock_provider E) wid w = (Inr b, w1)"
    and "b \<Longrightarrow> \<exists>inst. stored w wid = Some inst \<and> wi_status inst \<noteq> Runnable"
  shows "\<exists>w'. execute E S wid d reg host w = (Inr (), w') \<and> stored w' = stored w \<and> queued w' = queued w"
proof (cases b)
  case True
  with assms acquire_frame[OF assms(1)] obtain inst where
    "stored w1 wid = Some inst" "wi_status inst \<noteq> Runnable" "stored w1 = stored w" "queued w1 = queued w" by auto
  moreover obtain r w' where "release_lock (we_lock_provider E) wid w1 = (r, w')" by (metis surj_pair)
  ultimately show ?thesis using True assms(1) release_frame[of wid w1 r w']
    by (simp add: execute_def execute_inner_def get_Ok)
next
  case False
  with assms acquire_frame[OF assms(1)] show ?thesis by (simp add: execute_def)
qed

end

definition mem_executor ::
  "mem_world lifecycle_publisher option \<Rightarrow> mem_world artifact_store option \<Rightarrow> mem_world workflow_executor" where
  "mem_executor l a =
     (executor_new mem_persistence mem_lock mem_queue)\<lparr>we_lifecycle := l, we_artifact_store := a\<rparr>"

lemma mem_executor_simps [simp]:
  "we_persistence (mem_executor l a) = mem_persistence" "we_lock_provider (mem_executor l a) = mem_lock"
  "we_queue_provider (mem_executor l a) = mem_queue" "we_lifecycle (mem_executor l a) = l"
  "we_search (mem_executor l a) = None" "we_artifact_store (mem_executor l a) = a"
  by (simp_all add: mem_executor_def executor_new_def)

interpretation mem_exec: executor_backend "mem_executor l a" mem_stored mem_queued mw_locks for l a
  by (simp add: executor_backend_def mem_repo.workflow_repository_axioms mem_queues.queue_contract_axioms
      mem_locks.lock_contract_axioms)
    (unfold_locales; auto simp: mem_ops mem_stored_def mem_queued_def)

section \<open>Evaluation on a sample\<close>

text \<open>A definition of two steps in sequence whose bodies proceed at once, with a stored instance.\<close>

definition pass_step :: "'w step_body" where
  "pass_step = default_step_body (\<lambda>_ w. (Inr result_next, w))"

definition pass_registry :: "'w step_registry" where
  "pass_registry = register_factory step_registry_new ''pass'' pass_step"

definition two_steps :: workflow_definition where
  "two_steps = (workflow_definition_new ''two'' 1)\<lparr>wd_steps :=
     [(workflow_step_new 0 ''pass'')\<lparr>ws_outcomes := [\<lparr>so_next_step = 1, so_label = None, so_value = None\<rparr>]\<rparr>,
      workflow_step_new 1 ''pass'']\<rparr>"

definition sample_instance :: workflow_instance where
  "sample_instance = (workflow_instance_new ''i'' 0 ''two'' 1 (JObject []))
     \<lparr>wi_execution_pointers := [execution_pointer_new ''p'' 0]\<rparr>"

definition sample_world :: mem_world where
  "sample_world = (mem_new int show_nat)\<lparr>mw_workflows := [(''i'', sample_instance)]\<rparr>"

definition sample_run :: "unit res \<times> mem_world" where
  "sample_run = execute (mem_executor None None) mem_sys ''i'' two_steps pass_registry None sample_world"

lemmas executor_eval = execute_def execute_inner_def runnable_indices_def is_pointer_runnable_def
  execute_pointer_def perform_step_def start_pointer_def publish_lifecycle_def step_volume_def
  run_step_def build_context_def apply_result_def apply_error_def skip_pointer_def update_pointer_def
  push_pointers_def merge_output_def process_result_def process_proceed_def new_pointer_def
  find_next_step_def finish_execution_def complete_workflow_def store_instance_def
  next_execution_of_def has_active_def all_done_def find_step_def step_name_of_def artifact_inputs_def
  resolve_def workflow_step_new_def workflow_definition_new_def workflow_instance_new_def
  execution_pointer_new_def event_new_def default_step_body_def register_factory_def step_registry_new_def
  mem_new_def result_defs mem_ops

lemmas sample_defs = sample_run_def sample_world_def sample_instance_def two_steps_def
  pass_registry_def pass_step_def

lemma sample_run_ok: "fst sample_run = Inr ()"
  by (simp add: sample_defs executor_eval)

lemma sample_world_facts:
  "''i'' \<notin> mw_locks sample_world" "mem_stored sample_world ''i'' = Some sample_instance"
  "wi_id sample_instance = ''i''" "wi_status sample_instance = Runnable"
  "\<forall>p \<in> set (wi_execution_pointers sample_instance). pointer_ok p"
  by (simp_all add: sample_defs mem_stored_def mem_new_def workflow_instance_new_def pointer_ok_def)

section \<open>Properties\<close>

text \<open>
  C5: mutual exclusion. While the lock of an instance is held, \<open>execute\<close> does nothing at all;
  when it takes the lock, it has released it on return, also when the pass ends in an error, and
  whatever the steps did.
\<close>

theorem execute_lock_discipline:
  "if wid \<in> mw_locks w then execute (mem_executor l a) S wid d reg host w = (Inr (), w)
   else wid \<notin> mw_locks (snd (execute (mem_executor l a) S wid d reg host w))"
proof (cases "wid \<in> mw_locks w")
  case True
  then show ?thesis by (simp add: execute_def mem_acquire_lock_def insert_absorb)
next
  case False
  obtain r w1 where "execute_inner (mem_executor l a) S wid d reg host
      (snd (mem_acquire_lock wid w)) = (r, w1)" by (metis surj_pair)
  with False show ?thesis by (simp add: execute_def mem_acquire_lock_def mem_release_lock_def)
qed

text \<open>
  An instance that is not runnable (suspended, complete or terminated) is left as it is:
  the call succeeds and changes neither a stored instance nor a queue.
\<close>

theorem execute_not_runnable:
  assumes "mem_stored w wid = Some inst" and "wi_status inst \<noteq> Runnable"
  shows "\<exists>w'. execute (mem_executor l a) S wid d reg host w = (Inr (), w') \<and>
     mem_stored w' = mem_stored w \<and> mem_queued w' = mem_queued w"
proof (rule mem_exec.execute_skips)
  show "acquire_lock (we_lock_provider (mem_executor l a)) wid w =
      (Inr (wid \<notin> mw_locks w), snd (mem_acquire_lock wid w))" by (simp add: mem_acquire_lock_def)
qed (use assms in blast)

theorem execute_not_runnable_witness:
  "\<exists>w'. execute (mem_executor None None) mem_sys ''i'' two_steps pass_registry None
      (sample_world\<lparr>mw_workflows := [(''i'', sample_instance\<lparr>wi_status := Suspended\<rparr>)]\<rparr>) = (Inr (), w') \<and>
     mem_stored w' ''i'' = Some (sample_instance\<lparr>wi_status := Suspended\<rparr>)"
  using execute_not_runnable[of "sample_world\<lparr>mw_workflows := [(''i'', sample_instance\<lparr>wi_status := Suspended\<rparr>)]\<rparr>"
      "''i''" "sample_instance\<lparr>wi_status := Suspended\<rparr>" None None mem_sys two_steps pass_registry None]
  by (auto simp: mem_stored_def)

text \<open>
  The pointers that a pass may work on: active ones that are waiting for an event which was published, or that are
  pending, running or asleep and do not sleep beyond the instant of the pass.
\<close>

definition due :: "date_time \<Rightarrow> execution_pointer \<Rightarrow> bool" where
  "due now p \<longleftrightarrow> ep_active p \<and>
     (ep_status p = WaitingForEvent \<and> ep_event_published p \<or>
      ep_status p \<in> {Pending, Running, Sleeping} \<and> (\<forall>t. ep_sleep_until p = Some t \<longrightarrow> t \<le> now))"

lemma is_pointer_runnable_iff_due: "is_pointer_runnable p now \<longleftrightarrow> due now p"
  by (auto simp: is_pointer_runnable_def due_def split: pointer_status.splits option.splits)

text \<open>
  C2: a pass only moves the pointers that are due. Let \<open>now\<close> be the clock reading that the pass takes once it has the
  lock. Every pointer that is not due at \<open>now\<close> (it is inactive or final, it sleeps until later, or it waits for an
  event that was not published) is stored back unchanged and in its place; the due ones keep their id, their step
  and their scope; and each pointer added is a pending one whose predecessor is one of the due pointers. The
  pointer invariant is kept.
\<close>

theorem execute_pointer_evolution:
  assumes "execute (mem_executor l a) S wid d reg host w = (Inr u, w')" and "wid \<notin> mw_locks w"
    and "mem_stored w wid = Some inst" and "wi_id inst = wid" and "wi_status inst = Runnable"
    and "\<forall>p \<in> set (wi_execution_pointers inst). pointer_ok p"
    and "now = fst (utc_now S (snd (mem_acquire_lock wid w)))"
  shows "\<exists>inst'. mem_stored w' wid = Some inst' \<and>
     (\<forall>p \<in> set (wi_execution_pointers inst'). pointer_ok p) \<and>
     prefix (map (\<lambda>p. (ep_id p, ep_step_id p, ep_scope p)) (wi_execution_pointers inst))
            (map (\<lambda>p. (ep_id p, ep_step_id p, ep_scope p)) (wi_execution_pointers inst')) \<and>
     (\<forall>i < length (wi_execution_pointers inst).
        \<not> due now (wi_execution_pointers inst ! i) \<longrightarrow>
        wi_execution_pointers inst' ! i = wi_execution_pointers inst ! i) \<and>
     (\<forall>q \<in> set (drop (length (wi_execution_pointers inst)) (wi_execution_pointers inst')).
        ep_status q = Pending \<and>
        (\<exists>p \<in> set (wi_execution_pointers inst). due now p \<and> ep_predecessor_id q = Some (ep_id p)))"
proof -
  let ?ps = "wi_execution_pointers inst"
  from mem_exec.execute_runnable[OF assms(1-5)] assms(7) obtain inst' where
    st: "mem_stored w' wid = Some inst'"
    and ev: "pointers_evolve (set (runnable_indices ?ps now)) ?ps (wi_execution_pointers inst')"
    by auto
  let ?ps' = "wi_execution_pointers inst'"
  from pointers_evolve_ok[OF ev] assms(6) have ok: "\<forall>p \<in> set ?ps'. pointer_ok p" by blast
  have other: "?ps' ! i = ?ps ! i" if "i < length ?ps" "\<not> due now (?ps ! i)" for i
    using pointers_evolve_other[OF ev that(1)] that(2) runnable_indices_props(2)
      is_pointer_runnable_iff_due by blast
  have new: "ep_status q = Pending \<and> (\<exists>p \<in> set ?ps. due now p \<and> ep_predecessor_id q = Some (ep_id p))"
    if "q \<in> set (drop (length ?ps) ?ps')" for q
    using ev that runnable_indices_props(2)[of _ ?ps now] is_pointer_runnable_iff_due[of _ now]
    by (fastforce simp: pointers_evolve_def fresh_successor_def)
  show ?thesis
    using st ok other new pointers_evolve_prefix[OF ev] by blast
qed

text \<open>
  C1: no instance is lost. After a successful pass over a runnable instance, the stored
  instance is complete, with every pointer final and a completion time; or an error behaviour has
  suspended or terminated it; or it is still runnable and then it has an active pointer and its id
  is in the workflow queue, due at once; or every pointer that is not final waits for an event.
\<close>

theorem execute_no_lost_workflow:
  assumes "execute (mem_executor l a) S wid d reg host w = (Inr u, w')" and "wid \<notin> mw_locks w"
    and "mem_stored w wid = Some inst" and "wi_id inst = wid" and "wi_status inst = Runnable"
    and "\<forall>p \<in> set (wi_execution_pointers inst). pointer_ok p"
  shows "\<exists>inst'. mem_stored w' wid = Some inst' \<and>
     (case wi_status inst' of
        Complete \<Rightarrow> all_done inst' \<and> wi_complete_time inst' \<noteq> None
      | Terminated \<Rightarrow> wi_complete_time inst' \<noteq> None
      | Suspended \<Rightarrow> True
      | Runnable \<Rightarrow> \<not> all_done inst' \<and>
          (if has_active inst' then wid \<in> set (mem_queued w' QWorkflow) \<and> wi_next_execution inst' = Some 0
           else waits_for_events inst'))"
proof -
  from mem_exec.execute_runnable[OF assms(1-5)] obtain inst' now where
    st: "mem_stored w' wid = Some inst'"
    and ev: "pointers_evolve (set (runnable_indices (wi_execution_pointers inst) now))
      (wi_execution_pointers inst) (wi_execution_pointers inst')"
    and c: "case wi_status inst' of
        Runnable \<Rightarrow> \<not> all_done inst' \<and> wi_complete_time inst' = wi_complete_time inst \<and>
          (has_active inst' \<longrightarrow> wid \<in> set (mem_queued w' QWorkflow))
      | Complete \<Rightarrow> all_done inst' \<and> wi_complete_time inst' \<noteq> None
      | Terminated \<Rightarrow> wi_complete_time inst' \<noteq> None
      | Suspended \<Rightarrow> True"
    and n: "wi_next_execution inst' = next_execution_of inst'" by blast
  from pointers_evolve_ok[OF ev] assms(6) have "\<forall>p \<in> set (wi_execution_pointers inst'). pointer_ok p" by blast
  from not_active_waits[OF this] c n show ?thesis
    by (intro exI[of _ inst'] conjI st) (auto simp: next_execution_of_def split: workflow_status.splits)
qed

text \<open>Both on the sample: after one pass the first pointer is complete and the instance is queued.\<close>

lemma sample_run_eq:
  "execute (mem_executor None None) mem_sys ''i'' two_steps pass_registry None sample_world =
     (Inr (), snd sample_run)"
  using sample_run_ok by (metis sample_run_def prod.collapse)

theorem execute_pointer_evolution_witness:
  "\<exists>inst'. mem_stored (snd sample_run) ''i'' = Some inst' \<and>
     list_all pointer_ok (wi_execution_pointers inst')"
  using execute_pointer_evolution[OF sample_run_eq sample_world_facts(1-5) refl] unfolding list_all_iff by blast

theorem execute_no_lost_workflow_witness:
  "\<exists>inst'. mem_stored (snd sample_run) ''i'' = Some inst' \<and> wi_status inst' = Runnable \<and>
     ''i'' \<in> set (mem_queued (snd sample_run) QWorkflow)"
proof -
  have "mem_stored (snd sample_run) ''i'' = Some inst' \<Longrightarrow> wi_status inst' = Runnable \<and> has_active inst'" for inst'
    by (auto simp: sample_defs executor_eval mem_stored_def)
  with execute_no_lost_workflow[OF sample_run_eq sample_world_facts(1-5)] show ?thesis by fastforce
qed

end
