(* ===== verification/Pointer_Ids.thy ===== *)
theory Pointer_Ids
  imports Executor_Correct
begin

text \<open>
  Pointer ids stay unique. \<open>uuid_source\<close> says that the UUID source never hands out an id twice;
  the locale \<open>executor_ids\<close> adds that providers and step bodies leave the ids drawn so far drawn.
  Then every pass of the executor keeps the ids of the pointers of an instance distinct, which the
  engine relies on wherever it looks a pointer up by id (event subscriptions, children, scopes).
\<close>

definition ids_ok :: "string set \<Rightarrow> execution_pointer list \<Rightarrow> bool" where
  "ids_ok D ps \<longleftrightarrow> distinct (map ep_id ps) \<and> ep_id ` set ps \<subseteq> D"

lemma ids_ok_mono: "ids_ok D ps \<Longrightarrow> D \<subseteq> D' \<Longrightarrow> ids_ok D' ps"
  by (auto simp: ids_ok_def)

lemma ids_ok_step:
  assumes "ids_ok D ps" and "i < length ps" and "ep_id p' = ep_id (ps ! i)"
    and "distinct (map ep_id new)" and "ep_id ` set new \<subseteq> D' - D" and "D \<subseteq> D'"
  shows "ids_ok D' (ps[i := p'] @ new)"
proof -
  have eq: "map ep_id (ps[i := p']) = map ep_id ps"
    using assms(2,3) by (metis list_update_id map_update nth_map)
  then have img: "ep_id ` set (ps[i := p']) = ep_id ` set ps" by (metis list.set_map)
  from assms(1,5) have disj: "ep_id ` set ps \<inter> ep_id ` set new = {}" by (auto simp: ids_ok_def)
  have "distinct (map ep_id (ps[i := p'] @ new))"
    unfolding map_append eq distinct_append using assms(1,4) disj by (simp add: ids_ok_def)
  moreover have "ep_id ` set (ps[i := p'] @ new) \<subseteq> D'"
    unfolding set_append image_Un img using assms(1,5,6) by (auto simp: ids_ok_def)
  ultimately show ?thesis by (simp only: ids_ok_def)
qed

context uuid_source
begin

definition grows :: "'w \<Rightarrow> 'w \<Rightarrow> bool" where
  "grows w w' \<longleftrightarrow> (good w \<longrightarrow> good w' \<and> drawn w \<subseteq> drawn w')"

definition fresh_ids :: "'w \<Rightarrow> 'w \<Rightarrow> execution_pointer list \<Rightarrow> bool" where
  "fresh_ids w w' ps \<longleftrightarrow>
     (good w \<longrightarrow> good w' \<and> drawn w \<subseteq> drawn w' \<and> distinct (map ep_id ps) \<and>
        ep_id ` set ps \<subseteq> drawn w' - drawn w)"

lemma grows_refl [simp]: "grows w w"
  by (simp add: grows_def)

lemma grows_trans [trans]: "grows w w1 \<Longrightarrow> grows w1 w2 \<Longrightarrow> grows w w2"
  by (auto simp: grows_def)

lemma fresh_ids_Nil: "fresh_ids w w' [] \<longleftrightarrow> grows w w'"
  by (simp add: fresh_ids_def grows_def)

lemma fresh_ids_grows: "fresh_ids w w' ps \<Longrightarrow> grows w w'"
  by (simp add: fresh_ids_def grows_def)

lemma fresh_after_grows: "grows w w1 \<Longrightarrow> fresh_ids w1 w2 ps \<Longrightarrow> fresh_ids w w2 ps"
  by (auto simp: grows_def fresh_ids_def)

lemma now_grows: "utc_now S w = (t, w') \<Longrightarrow> grows w w'"
  using now_frame by (auto simp: grows_def)

lemma uuid_grows: "uuid_v4 S w = (u, w') \<Longrightarrow> grows w w'"
  using uuid_fresh by (auto simp: grows_def)

lemma new_pointer_fresh: "new_pointer S d i pid scope w = (p, w') \<Longrightarrow> fresh_ids w w' [p]"
  using uuid_fresh by (auto dest!: new_pointer_fields simp: fresh_ids_def)

lemma spawn_children_fresh:
  "spawn_children S d pid scope pairs w = (cs, w') \<Longrightarrow> fresh_ids w w' cs"
proof (induction pairs arbitrary: w cs w')
  case Nil
  then show ?case by (simp add: fresh_ids_Nil)
next
  case (Cons vc pairs)
  obtain v c where vc: "vc = (v, c)" by fastforce
  obtain p w1 where p: "new_pointer S d c pid scope w = (p, w1)" by fastforce
  obtain ps w2 where ps: "spawn_children S d pid scope pairs w1 = (ps, w2)" by fastforce
  from Cons.prems vc p ps have "cs = p\<lparr>ep_context_item := Some v\<rparr> # ps" "w' = w2" by auto
  with new_pointer_fresh[OF p] Cons.IH[OF ps] show ?case by (auto simp: fresh_ids_def)
qed

lemma process_result_fresh:
  assumes "process_result S r p d wid w = ((p', pr), w')"
  shows "fresh_ids w w' (pr_new_pointers pr)"
proof -
  have proceed: "fresh_ids w w1 new" if "process_proceed S r p d w = ((q, new), w1)" for q new w1
    using that
    by (auto simp: process_proceed_def Let_def fresh_ids_Nil split: prod.splits option.splits
        dest!: now_grows new_pointer_fresh intro: fresh_after_grows)
  have branch: "fresh_ids w w1 new" if "process_branch S r vs p d w = ((q, new), w1)" for vs q new w1
    using that by (auto simp: process_branch_def Let_def split: prod.splits dest!: spawn_children_fresh)
  have wait: "grows w w1" if "process_wait S r p wid w = ((q, subs), w1)" for q subs w1
    using that
    by (auto simp: process_wait_def Let_def split: prod.splits option.splits
        dest!: now_grows uuid_grows intro: grows_trans)
  have sleep: "grows w w1" if "process_sleep S r t p w = (q, w1)" for t q w1
    using that by (auto simp: process_sleep_def split: prod.splits dest!: now_grows)
  from assms show ?thesis
    by (auto simp: process_result_def fresh_ids_Nil split: if_splits prod.splits option.splits
        dest!: proceed branch wait sleep)
qed

lemma handle_error_fresh:
  assumes "handle_error S p d w = ((p', h), w')"
  shows "fresh_ids w w' (eh_new_pointers h)"
  using assms
  by (auto simp: handle_error_def Let_def fresh_ids_Nil
      split: if_splits prod.splits option.splits error_behavior.splits
      dest!: now_grows new_pointer_fresh)

end

section \<open>The executor\<close>

locale executor_ids = uuid_source S drawn good
  for S :: "'w sys" and drawn good +
  fixes E :: "'w workflow_executor" and reg :: "'w step_registry" and host :: "'w host_context option"
  assumes body_grows: "body \<in> ran reg \<Longrightarrow> sx_host_context c = host \<Longrightarrow>
      grows w (snd (run body c w)) \<and> grows w (snd (mount_artifacts body c w)) \<and>
      grows w (snd (unmount_artifacts body c w))"
    and publish_grows: "we_lifecycle E = Some p \<Longrightarrow> grows w (snd (publish p e w))"
    and index_grows: "we_search E = Some s \<Longrightarrow> grows w (snd (index_workflow s x w))"
    and blob_grows: "we_artifact_store E = Some a \<Longrightarrow> get_blob a k w = (r, w') \<Longrightarrow>
      grows w w' \<and> (\<forall>reader w. r = Inr (Some reader) \<longrightarrow> grows w (snd (reader w)))"
    and lock_grows: "grows w (snd (acquire_lock (we_lock_provider E) i w))"
      "grows w (snd (release_lock (we_lock_provider E) i w))"
    and queue_grows: "grows w (snd (queue_work (we_queue_provider E) i t w))"
    and persistence_grows: "grows w (snd (get_workflow_instance (we_persistence E) i w))"
      "grows w (snd (persist_workflow (we_persistence E) x w))"
      "grows w (snd (persist_workflow_with_subscriptions (we_persistence E) x ss w))"
      "grows w (snd (persist_errors (we_persistence E) es w))"
      "grows w (snd (create_event (we_persistence E) ev w))"
begin

lemma provider_grows:
  "acquire_lock (we_lock_provider E) i w = (r1, w') \<Longrightarrow> grows w w'"
  "release_lock (we_lock_provider E) i w = (r2, w') \<Longrightarrow> grows w w'"
  "queue_work (we_queue_provider E) i t w = (r2, w') \<Longrightarrow> grows w w'"
  "get_workflow_instance (we_persistence E) i w = (r3, w') \<Longrightarrow> grows w w'"
  "persist_workflow (we_persistence E) x w = (r2, w') \<Longrightarrow> grows w w'"
  "persist_workflow_with_subscriptions (we_persistence E) x ss w = (r2, w') \<Longrightarrow> grows w w'"
  "persist_errors (we_persistence E) es w = (r2, w') \<Longrightarrow> grows w w'"
  "create_event (we_persistence E) ev w = (r4, w') \<Longrightarrow> grows w w'"
  by (metis lock_grows queue_grows persistence_grows snd_conv)+

lemma publish_lifecycle_grows: "grows w (publish_lifecycle E S inst t w)"
  by (auto simp: publish_lifecycle_def Let_def split: prod.splits option.splits
      dest!: now_grows publish_grows intro: grows_trans)

lemma resolve_inputs_grows:
  "we_artifact_store E = Some a \<Longrightarrow> resolve_inputs a obj names acc w = (r, w') \<Longrightarrow> grows w w'"
proof (induction a obj names acc w arbitrary: r w' rule: resolve_inputs.induct)
  case (2 a obj name names acc w)
  show ?case
  proof (cases "map_of obj name")
    case None
    with "2.prems" show ?thesis by simp
  next
    case v: (Some v)
    show ?thesis
    proof (cases "parse_artifact_ref v")
      case None
      with v "2.prems" show ?thesis by simp
    next
      case (Some digest)
      obtain b w1 where b: "get_blob a digest w = (b, w1)" by (metis surj_pair)
      note g = blob_grows[OF "2.prems"(1) b]
      show ?thesis
      proof (cases "\<exists>reader bytes w2. b = Inr (Some reader) \<and> reader w1 = (Inr bytes, w2)")
        case True
        then obtain reader bytes w2 where r: "b = Inr (Some reader)" "reader w1 = (Inr bytes, w2)" by blast
        with "2.prems" v Some b have "resolve_inputs a obj names (AList.update name bytes acc) w2 = (r, w')" by simp
        from "2.IH"[OF v Some _ _ _ _ _ "2.prems"(1) this] b r have "grows w2 w'" by auto
        moreover from g r have "grows w1 w2" by (metis snd_conv)
        ultimately show ?thesis using g by (blast intro: grows_trans)
      next
        case False
        with "2.prems" v Some b g show ?thesis
          by (auto split: sum.splits option.splits prod.splits) (metis grows_trans snd_conv)+
      qed
    qed
  qed
qed simp

lemma step_volume_grows: "step_volume E step inst w = (v, w') \<Longrightarrow> grows w w'"
  by (auto simp: step_volume_def volume_resolve_def split: if_splits option.splits prod.splits sum.splits
      dest: resolve_inputs_grows)

lemma run_step_grows:
  "body \<in> ran reg \<Longrightarrow> sx_host_context c = host \<Longrightarrow> run_step body c w = (r, w') \<Longrightarrow> grows w w'"
  by (auto simp: run_step_def split: prod.splits) (metis body_grows grows_trans snd_conv)

definition ids_step :: "'w \<Rightarrow> execution_pointer list \<Rightarrow> 'w \<Rightarrow> execution_pointer list \<Rightarrow> bool" where
  "ids_step w ps w' ps' \<longleftrightarrow>
     grows w w' \<and> length ps \<le> length ps' \<and> (good w \<and> ids_ok (drawn w) ps \<longrightarrow> ids_ok (drawn w') ps')"

lemma ids_step_trans: "ids_step w ps w1 ps1 \<Longrightarrow> ids_step w1 ps1 w2 ps2 \<Longrightarrow> ids_step w ps w2 ps2"
  unfolding ids_step_def grows_def by (auto intro: order.trans)

lemma ids_step_grows: "grows w w' \<Longrightarrow> ids_step w ps w' ps"
  unfolding ids_step_def grows_def by (auto intro: ids_ok_mono)

lemma ids_step_fresh:
  assumes "fresh_ids w w' new" and "i < length ps" and "ep_id p' = ep_id (ps ! i)"
  shows "ids_step w ps w' (ps[i := p'] @ new)"
  using assms ids_ok_step[of "drawn w" ps i p' new "drawn w'"]
  unfolding ids_step_def grows_def fresh_ids_def by simp

lemma skip_pointer_ids:
  assumes "skip_pointer S d step i inst w = (inst', w')" and "i < length (wi_execution_pointers inst)"
  shows "ids_step w (wi_execution_pointers inst) w' (wi_execution_pointers inst')"
proof -
  let ?p = "wi_execution_pointers inst ! i"
  obtain now w1 where now: "utc_now S w = (now, w1)" by (metis surj_pair)
  let ?p' = "?p\<lparr>ep_status := Skipped, ep_active := False, ep_end_time := Some now\<rparr>"
  obtain new where ps: "wi_execution_pointers inst' = (wi_execution_pointers inst)[i := ?p'] @ new"
    and new: "fresh_ids w1 w' new"
  proof (cases "ws_outcomes step")
    case Nil
    with assms now that[of "[]"] show ?thesis by (auto simp: skip_pointer_def fresh_ids_Nil)
  next
    case (Cons oc ocs)
    obtain q w2 where q: "new_pointer S d (so_next_step oc) (ep_id ?p) (ep_scope ?p) w1 = (q, w2)"
      by (metis surj_pair)
    with assms now Cons that[of "[q]"] new_pointer_fresh[OF q] show ?thesis
      by (auto simp: skip_pointer_def)
  qed
  from fresh_after_grows[OF now_grows[OF now] new] assms(2) show ?thesis
    unfolding ps by (intro ids_step_fresh) simp_all
qed

lemma apply_result_ids:
  assumes "apply_result E S d step i r st w = (st', w')"
    and "i < length (wi_execution_pointers (lp_workflow st))"
  shows "ids_step w (wi_execution_pointers (lp_workflow st)) w' (wi_execution_pointers (lp_workflow st'))"
proof -
  let ?inst = "lp_workflow st"
  let ?w = "publish_lifecycle E S ?inst (LStepCompleted (ws_id step) (ws_name step)) w"
  obtain p' pr w1 where pr: "process_result S r (wi_execution_pointers ?inst ! i) d (wi_id ?inst) ?w = ((p', pr), w1)"
    by (metis surj_pair)
  with assms(1) have ps: "wi_execution_pointers (lp_workflow st') =
      (wi_execution_pointers ?inst)[i := p'] @ pr_new_pointers pr" and w': "w' = w1"
    by (auto simp: apply_result_def Let_def)
  from fresh_after_grows[OF publish_lifecycle_grows process_result_fresh[OF pr]]
    process_result_keeps(1)[OF pr] assms(2)
  show ?thesis unfolding ps w' by (intro ids_step_fresh)
qed

lemma apply_error_ids:
  assumes "apply_error E S wid d i e st w = (st', w')"
    and "i < length (wi_execution_pointers (lp_workflow st))"
  shows "ids_step w (wi_execution_pointers (lp_workflow st)) w' (wi_execution_pointers (lp_workflow st'))"
proof -
  let ?inst = "lp_workflow st"
  obtain now w1 where now: "utc_now S (publish_lifecycle E S ?inst (LError e) w) = (now, w1)"
    by (metis surj_pair)
  obtain p' h w2 where h: "handle_error S (wi_execution_pointers ?inst ! i) d w1 = ((p', h), w2)"
    by (metis surj_pair)
  from assms(1) now h have ps: "wi_execution_pointers (lp_workflow st') =
      (wi_execution_pointers ?inst)[i := p'] @ eh_new_pointers h" and g: "grows w2 w'"
    by (auto simp: apply_error_def Let_def split: option.splits prod.splits if_splits
        dest!: now_grows intro: grows_trans publish_lifecycle_grows)
  have "ids_step w1 (wi_execution_pointers ?inst) w2 (wi_execution_pointers (lp_workflow st'))"
    unfolding ps using handle_error_fresh[OF h] handle_error_keeps(1)[OF h] assms(2)
    by (intro ids_step_fresh)
  with ids_step_grows[OF grows_trans[OF publish_lifecycle_grows now_grows[OF now]]] ids_step_grows[OF g]
  show ?thesis by (blast intro: ids_step_trans)
qed

lemma start_pointer_ids:
  assumes "start_pointer S i inst w = (inst', w')" and "i < length (wi_execution_pointers inst)"
  shows "ids_step w (wi_execution_pointers inst) w' (wi_execution_pointers inst')"
proof -
  from start_pointer_fields(1)[OF assms] obtain p' where
    ps: "wi_execution_pointers inst' = (wi_execution_pointers inst)[i := p'] @ []"
    and p': "ep_id p' = ep_id (wi_execution_pointers inst ! i)" by (auto simp: same_pointer_def)
  from assms have "fresh_ids w w' []"
    by (auto simp: start_pointer_def fresh_ids_Nil split: if_splits prod.splits dest!: now_grows)
  from ids_step_fresh[OF this assms(2) p'] show ?thesis unfolding ps .
qed

lemma perform_step_ids:
  assumes "perform_step E S wid d host step body i st w = (st', w')" and "body \<in> ran reg"
    and "i < length (wi_execution_pointers (lp_workflow st))"
  shows "ids_step w (wi_execution_pointers (lp_workflow st)) w' (wi_execution_pointers (lp_workflow st'))"
proof -
  obtain inst1 w1 where st: "start_pointer S i (lp_workflow st) w = (inst1, w1)" by (metis surj_pair)
  from start_pointer_fields(1)[OF st assms(3)] assms(3) have len: "i < length (wi_execution_pointers inst1)" by auto
  let ?st1 = "st\<lparr>lp_workflow := inst1\<rparr>"
  let ?w1 = "publish_lifecycle E S inst1 (LStepStarted (ws_id step) (ws_name step)) w1"
  obtain v w2 where v: "step_volume E step inst1 ?w1 = (v, w2)" by (metis surj_pair)
  obtain r w3 where r: "run_step body (build_context E d host step i inst1 v) w2 = (r, w3)" by (metis surj_pair)
  have "grows w2 w3" using run_step_grows[OF assms(2) _ r] by (simp add: build_context_def Let_def)
  with publish_lifecycle_grows step_volume_grows[OF v] have "grows w1 w3" by (blast intro: grows_trans)
  moreover have "ids_step w3 (wi_execution_pointers inst1) w' (wi_execution_pointers (lp_workflow st'))"
    using assms(1) st v r len apply_result_ids[of d step i _ ?st1 w3 st' w']
      apply_error_ids[of wid d i _ ?st1 w3 st' w']
    by (auto simp: perform_step_def Let_def split: sum.splits)
  ultimately show ?thesis
    using start_pointer_ids[OF st assms(3)] by (blast intro: ids_step_trans ids_step_grows)
qed

lemma execute_pointer_ids:
  assumes "execute_pointer E S wid d reg host i st w = (r, w')"
    and "i < length (wi_execution_pointers (lp_workflow st))"
  shows "grows w w' \<and> (\<forall>st'. r = Inr st' \<longrightarrow>
     ids_step w (wi_execution_pointers (lp_workflow st)) w' (wi_execution_pointers (lp_workflow st')))"
  using assms
  by (auto simp: execute_pointer_def resolve_def Let_def ran_def
      split: option.splits sum.splits bool.splits prod.splits
      dest!: skip_pointer_ids perform_step_ids) (auto simp: ids_step_def ran_def)

lemma execute_pointers_ids:
  assumes "execute_pointers E S wid d reg host is st w = (r, w')"
    and "\<And>i. i \<in> set is \<Longrightarrow> i < length (wi_execution_pointers (lp_workflow st))"
  shows "grows w w' \<and> (\<forall>st'. r = Inr st' \<longrightarrow>
     ids_step w (wi_execution_pointers (lp_workflow st)) w' (wi_execution_pointers (lp_workflow st')))"
  using assms
proof (induction "is" arbitrary: st w)
  case Nil
  then show ?case by (auto simp: ids_step_def)
next
  case (Cons i "is")
  let ?ps = "\<lambda>st. wi_execution_pointers (lp_workflow st)"
  obtain r1 w1 where s1: "execute_pointer E S wid d reg host i st w = (r1, w1)" by (metis surj_pair)
  note e1 = execute_pointer_ids[OF s1 Cons.prems(2)[of i, simplified]]
  show ?case
  proof (cases r1)
    case (Inl e)
    with Cons.prems(1) s1 e1 show ?thesis by auto
  next
    case (Inr st1)
    with Cons.prems(1) s1 have s2: "execute_pointers E S wid d reg host is st1 w1 = (r, w')" by simp
    from e1 Inr have i1: "ids_step w (?ps st) w1 (?ps st1)" by simp
    with Cons.prems(2) have "\<And>j. j \<in> set is \<Longrightarrow> j < length (?ps st1)"
      by (fastforce simp: ids_step_def)
    from Cons.IH[OF s2 this] have i2: "grows w1 w'"
      "\<And>st'. r = Inr st' \<Longrightarrow> ids_step w1 (?ps st1) w' (?ps st')" by auto
    from i1 i2(1) have "grows w w'" by (auto simp: ids_step_def intro: grows_trans)
    with ids_step_trans[OF i1 i2(2)] show ?thesis by blast
  qed
qed

lemma complete_workflow_grows:
  assumes "complete_workflow E S wid inst w = (inst', w')"
  shows "grows w w'"
proof (cases "all_done inst \<and> wi_status inst = Runnable")
  case True
  obtain now w1 where w1: "utc_now S w = (now, w1)" by (metis surj_pair)
  let ?w2 = "publish_lifecycle E S (inst\<lparr>wi_status := Complete, wi_complete_time := Some now\<rparr>) LCompleted w1"
  obtain u w3 where w3: "uuid_v4 S ?w2 = (u, w3)" by (metis surj_pair)
  have "grows w w3" using now_grows[OF w1] publish_lifecycle_grows uuid_grows[OF w3] by (blast intro: grows_trans)
  moreover have "grows w3 w'" using True assms w1 w3
    by (auto simp: complete_workflow_def Let_def split: prod.splits dest!: now_grows provider_grows intro: grows_trans)
  ultimately show ?thesis by (rule grows_trans)
qed (use assms in \<open>auto simp: complete_workflow_def\<close>)

lemma store_instance_grows: "store_instance E st w = (r, w') \<Longrightarrow> grows w w'"
  by (auto simp: store_instance_def split: if_splits prod.splits sum.splits
      dest!: provider_grows intro: grows_trans)

lemma finish_execution_grows:
  assumes "finish_execution E S wid st w = (r, w')"
  shows "grows w w'"
proof -
  obtain inst w1 where c: "complete_workflow E S wid (lp_workflow st) w = (inst, w1)" by (metis surj_pair)
  let ?inst = "inst\<lparr>wi_next_execution := next_execution_of inst\<rparr>"
  obtain r2 w2 where s: "store_instance E (st\<lparr>lp_workflow := ?inst\<rparr>) w1 = (r2, w2)" by (metis surj_pair)
  obtain r3 w3 where q: "(if wi_status inst = Runnable \<and> has_active ?inst
      then queue_work (we_queue_provider E) wid QWorkflow w2 else (Inr (), w2)) = (r3, w3)" by (metis surj_pair)
  then have g3: "grows w2 w3" by (auto split: if_splits dest: provider_grows)
  from assms c s q have "w' = w2 \<or> w' = w3 \<or> (\<exists>x. we_search E = Some x \<and> w' = snd (index_workflow x ?inst w3))"
    by (auto simp: finish_execution_def Let_def simp del: if_split split: sum.splits option.splits)
  with g3 index_grows have "grows w2 w'" by (blast intro: grows_refl grows_trans)
  with complete_workflow_grows[OF c] store_instance_grows[OF s] show ?thesis by (blast intro: grows_trans)
qed

text \<open>One call, seen at the instance it stores.\<close>

lemma execute_ids:
  assumes "execute E S wid d reg host w = (r, w')"
  shows "grows w w'"
proof -
  have inner: "grows w1 w2" if "execute_inner E S wid d reg host w1 = (r, w2)" for w1 w2 r
  proof -
    obtain g w3 where g: "get_workflow_instance (we_persistence E) wid w1 = (g, w3)" by (metis surj_pair)
    obtain now w4 where n: "utc_now S w3 = (now, w4)" by (metis surj_pair)
    have g4: "grows w1 w3" "grows w1 w4"
      using provider_grows(4)[OF g] now_grows[OF n] by (auto intro: grows_trans)
    have "grows w4 w2" if gi: "g = Inr inst" "wi_status inst = Runnable" for inst
    proof -
      let ?st = "\<lparr>lp_workflow = inst, lp_subscriptions = [], lp_errors = []\<rparr>"
      obtain x w5 where x: "execute_pointers E S wid d reg host
          (runnable_indices (wi_execution_pointers inst) now) ?st w4 = (x, w5)" by (metis surj_pair)
      have "grows w4 w5" using execute_pointers_ids[OF x] by (simp add: runnable_indices_props)
      moreover have "w5 = w2 \<or> (\<exists>st. finish_execution E S wid st w5 = (r, w2))"
        using that gi g n x \<open>execute_inner E S wid d reg host w1 = (r, w2)\<close>
        by (auto simp: execute_inner_def split: sum.splits)
      ultimately show ?thesis by (auto intro: grows_trans dest: finish_execution_grows)
    qed
    with that g n g4 show ?thesis
      by (auto simp: execute_inner_def split: sum.splits if_splits intro: grows_trans)
  qed
  from assms show ?thesis
    by (auto simp: execute_def split: prod.splits sum.splits bool.splits dest!: provider_grows inner
        intro: grows_trans)
qed

end

text \<open>With a repository that stores what it is given, the stored instance keeps unique ids.\<close>

locale executor_store_ids =
  executor_backend E stored queued held + executor_ids S drawn good E reg host
  for E :: "'w workflow_executor" and stored queued held S drawn good reg host
begin

lemma execute_stored_ids:
  assumes "execute E S wid d reg host w = (Inr u, w')" and "wid \<notin> held w"
    and "stored w wid = Some inst" and "wi_id inst = wid" and "wi_status inst = Runnable"
    and "good w" and "ids_ok (drawn w) (wi_execution_pointers inst)"
  shows "\<exists>inst'. stored w' wid = Some inst' \<and> ids_ok (drawn w') (wi_execution_pointers inst') \<and> good w'"
proof -
  obtain w1 now w3 st w4 w2 r where
    a: "acquire_lock (we_lock_provider E) wid w = (Inr True, w1)" and n: "utc_now S w1 = (now, w3)"
    and ex: "execute_pointers E S wid d reg host (runnable_indices (wi_execution_pointers inst) now)
           \<lparr>lp_workflow = inst, lp_subscriptions = [], lp_errors = []\<rparr> w3 = (Inr st, w4)"
    and fin: "finish_execution E S wid st w4 = (Inr u, w2)"
    and r: "release_lock (we_lock_provider E) wid w2 = (r, w')" by (rule execute_run[OF assms(1-3,5)])
  from execute_pointers_evolve[OF ex] runnable_indices_props assms(4) have wid: "wi_id (lp_workflow st) = wid"
    by (auto simp: header_evolves_def dest: is_pointer_runnable_not_final)
  from execute_pointers_ids[OF ex] runnable_indices_props(2)
  have "ids_step w3 (wi_execution_pointers inst) w4 (wi_execution_pointers (lp_workflow st))" by simp
  then have "ids_step w (wi_execution_pointers inst) w' (wi_execution_pointers (lp_workflow st))"
    using ids_step_grows[OF grows_trans[OF provider_grows(1)[OF a] now_grows[OF n]]]
      ids_step_grows[OF grows_trans[OF finish_execution_grows[OF fin] provider_grows(2)[OF r]]]
    by (metis ids_step_trans)
  with assms(6,7) have "ids_ok (drawn w') (wi_execution_pointers (lp_workflow st))" "good w'"
    by (auto simp: ids_step_def grows_def)
  with finish_execution_stored[OF fin wid] release_frame[OF r] show ?thesis by auto
qed

end

section \<open>The in-memory providers\<close>

lemma mem_world_grows:
  "mw_uuids w' = mw_uuids w \<Longrightarrow> mw_drawn w \<le> mw_drawn w' \<Longrightarrow> mem_ids.grows w w'"
  by (auto simp: mem_ids.grows_def mem_uuids_unique_def mem_uuids_drawn_def)

definition body_grows :: "mem_world host_context option \<Rightarrow> mem_world step_body \<Rightarrow> bool" where
  "body_grows host body \<longleftrightarrow>
     (\<forall>c w. sx_host_context c = host \<longrightarrow>
        mem_ids.grows w (snd (run body c w)) \<and> mem_ids.grows w (snd (mount_artifacts body c w)) \<and>
        mem_ids.grows w (snd (unmount_artifacts body c w)))"

lemma mem_executor_ids:
  assumes "\<forall>body \<in> ran reg. body_grows host body" and "l \<in> {None, Some mem_lifecycle}"
  shows "executor_store_ids (mem_executor l None) mem_stored mem_queued mw_locks mem_sys
    mem_uuids_drawn mem_uuids_unique reg host"
proof -
  have "executor_ids_axioms mem_uuids_drawn mem_uuids_unique (mem_executor l None) reg host"
    unfolding executor_ids_axioms_def
    using assms
    by (auto simp: body_grows_def mem_ops case_prod_beta Let_def intro!: mem_world_grows)
  then show ?thesis
    by (simp add: executor_store_ids_def executor_ids_def mem_exec.executor_backend_axioms
        mem_ids.uuid_source_axioms)
qed

text \<open>
  C4: the pointer ids of an instance stay distinct. If ids are never drawn twice and no step
  body gives one back, a pass over an instance whose pointers carry distinct drawn ids stores an
  instance for which the same holds, whatever pointers the pass has added.
\<close>

theorem execute_keeps_ids_distinct:
  assumes "\<forall>body \<in> ran reg. body_grows host body" and "l \<in> {None, Some mem_lifecycle}"
    and "execute (mem_executor l None) mem_sys wid d reg host w = (Inr u, w')" and "wid \<notin> mw_locks w"
    and "mem_stored w wid = Some inst" and "wi_id inst = wid" and "wi_status inst = Runnable"
    and "mem_uuids_unique w" and "ids_ok (mem_uuids_drawn w) (wi_execution_pointers inst)"
  shows "\<exists>inst'. mem_stored w' wid = Some inst' \<and> distinct (map ep_id (wi_execution_pointers inst')) \<and>
     ids_ok (mem_uuids_drawn w') (wi_execution_pointers inst') \<and> mem_uuids_unique w'"
  using executor_store_ids.execute_stored_ids[OF mem_executor_ids[OF assms(1,2)] assms(3-9)]
  by (auto simp: ids_ok_def)

text \<open>The sample, with the id of its first pointer drawn from the stream.\<close>

definition sample_world_ids :: mem_world where
  "sample_world_ids = sample_world\<lparr>mw_drawn := 1, mw_workflows := [(''i'',
     sample_instance\<lparr>wi_execution_pointers := [execution_pointer_new (show_nat 0) 0]\<rparr>)]\<rparr>"

theorem execute_keeps_ids_distinct_witness:
  "\<exists>inst'. mem_stored (snd (execute (mem_executor None None) mem_sys ''i'' two_steps pass_registry None
      sample_world_ids)) ''i'' = Some inst' \<and> distinct (map ep_id (wi_execution_pointers inst'))"
proof -
  let ?run = "execute (mem_executor None None) mem_sys ''i'' two_steps pass_registry None sample_world_ids"
  let ?inst = "sample_instance\<lparr>wi_execution_pointers := [execution_pointer_new (show_nat 0) 0]\<rparr>"
  have "fst ?run = Inr ()" by (simp add: sample_world_ids_def sample_defs executor_eval)
  then have run: "?run = (Inr (), snd ?run)" by (metis prod.collapse)
  have b: "\<forall>body \<in> ran pass_registry. body_grows None body"
    by (auto simp: pass_registry_def register_factory_def step_registry_new_def pass_step_def
        default_step_body_def body_grows_def ran_def split: if_splits)
  have w: "''i'' \<notin> mw_locks sample_world_ids" "mem_stored sample_world_ids ''i'' = Some ?inst"
    "wi_id ?inst = ''i''" "wi_status ?inst = Runnable" "mem_uuids_unique sample_world_ids"
    "ids_ok (mem_uuids_drawn sample_world_ids) (wi_execution_pointers ?inst)"
    by (simp_all add: sample_world_ids_def sample_defs mem_stored_def mem_new_def workflow_instance_new_def
        mem_uuids_unique_def mem_uuids_drawn_def ids_ok_def inj_on_def)
  from execute_keeps_ids_distinct[OF b _ run w] show ?thesis by auto
qed

end
