(* ===== verification/Schema.thy ===== *)
theory Schema
  imports Models
begin

text \<open>
  The type system of workflow inputs and outputs: \<open>wfe-core/src/models/schema.rs\<close> (types, the
  parser of type strings, validation of JSON values) and \<open>wfe-yaml/src/types.rs\<close>, which has its
  own printer and a second parser for the same syntax. The two parsers are shown to accept the
  same strings with the same result, and both invert the printer.
\<close>

section \<open>Types and their syntax\<close>

datatype schema_type =
    TString | TNumber | TInteger | TBool
  | TOptional schema_type | TList schema_type | TMap schema_type
  | TAny

record workflow_schema =
  wsc_inputs :: "(string \<times> schema_type) list"
  wsc_outputs :: "(string \<times> schema_type) list"

definition primitive_type :: "string \<Rightarrow> schema_type option" where
  "primitive_type s =
     (if s = ''string'' then Some TString
      else if s = ''number'' then Some TNumber
      else if s = ''integer'' then Some TInteger
      else if s = ''bool'' then Some TBool
      else if s = ''any'' then Some TAny
      else None)"

text \<open>\<open>parse_type\<close> of the core crate.\<close>

function parse_type :: "string \<Rightarrow> schema_type res" where
  "parse_type s0 =
     (let s = trim s0 in
      case strip_suffix_str ''?'' s of
        Some inner \<Rightarrow> (case parse_type inner of Inl e \<Rightarrow> Inl e | Inr t \<Rightarrow> Inr (TOptional t))
      | None \<Rightarrow>
      case strip_prefix_str ''list<'' s of
        Some rest \<Rightarrow>
          (case strip_suffix_str ''>'' rest of
             None \<Rightarrow> Inl (StepExecution (Msg (''Invalid type syntax: '' @ s)))
           | Some inner \<Rightarrow> (case parse_type inner of Inl e \<Rightarrow> Inl e | Inr t \<Rightarrow> Inr (TList t)))
      | None \<Rightarrow>
      case strip_prefix_str ''map<'' s of
        Some rest \<Rightarrow>
          (case strip_suffix_str ''>'' rest of
             None \<Rightarrow> Inl (StepExecution (Msg (''Invalid type syntax: '' @ s)))
           | Some inner \<Rightarrow> (case parse_type inner of Inl e \<Rightarrow> Inl e | Inr t \<Rightarrow> Inr (TMap t)))
      | None \<Rightarrow> ok_or (StepExecution (Msg (''Unknown type: '' @ s))) (primitive_type s))"
  by pat_completeness auto
termination
proof (relation "measure length")
  fix s0 s inner assume s: "s = trim s0" and q: "strip_suffix_str ''?'' s = Some inner"
  from strip_suffix_Some[THEN iffD1, OF q] length_trim[of s0] s show "(inner, s0) \<in> measure length" by auto
next
  fix s0 s rest inner assume s: "s = trim s0" and r: "strip_prefix_str ''list<'' s = Some rest"
    and q: "strip_suffix_str ''>'' rest = Some inner"
  from strip_suffix_Some[THEN iffD1, OF q] strip_prefix_Some[THEN iffD1, OF r] length_trim[of s0] s
  show "(inner, s0) \<in> measure length" by auto
next
  fix s0 s rest inner assume s: "s = trim s0" and r: "strip_prefix_str ''map<'' s = Some rest"
    and q: "strip_suffix_str ''>'' rest = Some inner"
  from strip_suffix_Some[THEN iffD1, OF q] strip_prefix_Some[THEN iffD1, OF r] length_trim[of s0] s
  show "(inner, s0) \<in> measure length" by auto
qed simp

declare parse_type.simps [simp del]

text \<open>The printer of the YAML crate.\<close>

primrec show_type :: "schema_type \<Rightarrow> string" where
  "show_type TString = ''string''"
| "show_type TNumber = ''number''"
| "show_type TInteger = ''integer''"
| "show_type TBool = ''bool''"
| "show_type TAny = ''any''"
| "show_type (TOptional t) = show_type t @ ''?''"
| "show_type (TList t) = ''list<'' @ show_type t @ ''>''"
| "show_type (TMap t) = ''map<'' @ show_type t @ ''>''"

text \<open>\<open>str::find\<close> of a character, as the text before and after its first occurrence.\<close>

fun split_first :: "char \<Rightarrow> string \<Rightarrow> (string \<times> string) option" where
  "split_first c [] = None"
| "split_first c (x # xs) =
     (if x = c then Some ([], xs)
      else map_option (\<lambda>(a, b). (x # a, b)) (split_first c xs))"

lemma split_first_Some: "split_first c s = Some (a, b) \<Longrightarrow> s = a @ c # b \<and> c \<notin> set a"
  by (induction s arbitrary: a b) (auto split: if_splits)

lemma split_first_None: "split_first c s = None \<longleftrightarrow> c \<notin> set s"
  by (induction s) auto

text \<open>
  \<open>parse_type_string\<close> of the YAML crate: the two optional branches of the source do the same,
  and a generic is split at the first \<open><\<close>. Its errors are strings.
\<close>

function parse_type_string :: "string \<Rightarrow> string + schema_type" where
  "parse_type_string s0 =
     (let s = trim s0 in
      if s = [] then Inl ''Empty type string''
      else if ends_with s ''?'' then
        (case parse_type_string (butlast s) of Inl e \<Rightarrow> Inl e | Inr t \<Rightarrow> Inr (TOptional t))
      else case split_first (CHR ''<'') s of
        Some (container, rest) \<Rightarrow>
          if \<not> ends_with s ''>'' then Inl (''Malformed generic type: '' @ quoted s @ '' (missing closing '' @ quoted ''>'' @ '')'')
          else (case parse_type_string (butlast rest) of
                  Inl e \<Rightarrow> Inl e
                | Inr t \<Rightarrow>
                    if container = ''list'' then Inr (TList t)
                    else if container = ''map'' then Inr (TMap t)
                    else Inl (''Unknown generic type: '' @ quoted container))
      | None \<Rightarrow> ok_or (''Unknown type: '' @ quoted s) (primitive_type s))"
  by pat_completeness auto
termination
proof (relation "measure length")
  fix s0 s assume s: "s = trim s0" and "s \<noteq> []" "ends_with s ''?''"
  then show "(butlast s, s0) \<in> measure length" using length_trim[of s0] by (cases "trim s0") auto
next
  fix s0 s x container rest assume s: "s = trim s0" and f: "split_first (CHR ''<'') s = Some x"
    and x: "(container, rest) = x"
  then have "s = container @ CHR ''<'' # rest" using split_first_Some[of "CHR ''<''" s] by simp
  then have "length rest < length s" by simp
  also have "length s \<le> length s0" unfolding s by (rule length_trim)
  finally show "(butlast rest, s0) \<in> measure length" by simp
qed simp

declare parse_type_string.simps [simp del]

section \<open>Validation\<close>

definition schema_type_name :: "json \<Rightarrow> string" where
  "schema_type_name v =
     (case v of JNull \<Rightarrow> ''null'' | JBool _ \<Rightarrow> ''bool'' | JNumber _ \<Rightarrow> ''number'' | JString _ \<Rightarrow> ''string''
      | JArray _ \<Rightarrow> ''array'' | JObject _ \<Rightarrow> ''object'')"

definition double_quoted :: "string \<Rightarrow> string" where
  "double_quoted s = CHR 0x22 # s @ [CHR 0x22]"

definition map_err :: "('e \<Rightarrow> 'f) \<Rightarrow> 'e + 'a \<Rightarrow> 'f + 'a" where
  "map_err f r = (case r of Inl e \<Rightarrow> Inl (f e) | Inr x \<Rightarrow> Inr x)"

primrec validate_value :: "schema_type \<Rightarrow> json \<Rightarrow> string + unit" where
  "validate_value TString v =
     (if is_string v then Inr () else Inl (''expected string, got '' @ schema_type_name v))"
| "validate_value TNumber v =
     (if is_number v then Inr () else Inl (''expected number, got '' @ schema_type_name v))"
| "validate_value TInteger v =
     (if is_i64 v \<or> is_u64 v then Inr () else Inl (''expected integer, got '' @ schema_type_name v))"
| "validate_value TBool v =
     (if is_boolean v then Inr () else Inl (''expected bool, got '' @ schema_type_name v))"
| "validate_value (TOptional inner) v = (if is_null v then Inr () else validate_value inner v)"
| "validate_value (TList inner) v =
     (case as_array v of
        Some arr \<Rightarrow>
          try_each (\<lambda>(i, item). map_err (\<lambda>e. ''list element ['' @ show_nat i @ '']: '' @ e)
                                 (validate_value inner item)) (List.enumerate 0 arr)
      | None \<Rightarrow> Inl (''expected list, got '' @ schema_type_name v))"
| "validate_value (TMap inner) v =
     (case as_object v of
        Some obj \<Rightarrow>
          try_each (\<lambda>(key, val). map_err (\<lambda>e. ''map key '' @ double_quoted key @ '': '' @ e)
                                   (validate_value inner val)) obj
      | None \<Rightarrow> Inl (''expected map, got '' @ schema_type_name v))"
| "validate_value TAny v = Inr ()"

fun is_optional :: "schema_type \<Rightarrow> bool" where
  "is_optional (TOptional _) = True"
| "is_optional _ = False"

definition field_errors :: "json_map \<Rightarrow> string \<times> schema_type \<Rightarrow> string list" where
  "field_errors obj f =
     (case map_of obj (fst f) of
        Some v \<Rightarrow> (case validate_value (snd f) v of
                     Inl e \<Rightarrow> [''field '' @ double_quoted (fst f) @ '': '' @ e] | Inr _ \<Rightarrow> [])
      | None \<Rightarrow> if is_optional (snd f) then [] else [''missing required field: '' @ double_quoted (fst f)])"

definition validate_fields :: "(string \<times> schema_type) list \<Rightarrow> json \<Rightarrow> string list + unit" where
  "validate_fields flds data =
     (case as_object data of
        None \<Rightarrow> Inl [''expected an object'']
      | Some obj \<Rightarrow>
          (let errors = concat (map (field_errors obj) flds)
           in if errors = [] then Inr () else Inl errors))"

definition validate_inputs :: "workflow_schema \<Rightarrow> json \<Rightarrow> string list + unit" where
  "validate_inputs sch data = validate_fields (wsc_inputs sch) data"

definition validate_outputs :: "workflow_schema \<Rightarrow> json \<Rightarrow> string list + unit" where
  "validate_outputs sch data = validate_fields (wsc_outputs sch) data"

section \<open>Lemmas\<close>

lemma trim_no_space: "\<forall>c \<in> set s. \<not> is_space c \<Longrightarrow> trim s = s"
proof -
  assume a: "\<forall>c \<in> set s. \<not> is_space c"
  have d: "dropWhile is_space t = t" if "\<forall>c \<in> set t. \<not> is_space c" for t
    using that by (cases t) auto
  from a d[of s] d[of "rev s"] show ?thesis by (simp add: trim_def trim_start_def trim_end_def)
qed

lemma show_type_no_space: "\<forall>c \<in> set (show_type t). \<not> is_space c"
  by (induction t) (auto simp: is_space_def)

lemma trim_show_type [simp]: "trim (show_type t) = show_type t"
  by (rule trim_no_space) (rule show_type_no_space)

lemma strip_suffix_iff: "strip_suffix_str p s = Some r \<longleftrightarrow> s = r @ p"
  by (rule strip_suffix_Some)

lemma strip_prefix_iff: "strip_prefix_str p s = Some r \<longleftrightarrow> s = p @ r"
  by (rule strip_prefix_Some)

lemma ends_with_char: "ends_with s [c] \<longleftrightarrow> s \<noteq> [] \<and> last s = c"
  by (cases s rule: rev_cases) (simp_all add: ends_with_def)

lemma strip_suffix_char: "strip_suffix_str [c] s = (if ends_with s [c] then Some (butlast s) else None)"
  by (cases s rule: rev_cases) (auto simp: strip_suffix_str_def ends_with_def)

lemma primitive_type_show: "t \<in> {TString, TNumber, TInteger, TBool, TAny} \<Longrightarrow> primitive_type (show_type t) = Some t"
  by (auto simp: primitive_type_def)

lemma primitive_type_no_bracket: "primitive_type s = Some t \<Longrightarrow> CHR ''<'' \<notin> set s"
  by (auto simp: primitive_type_def split: if_splits)

lemma option_via_pair:
  assumes "\<And>r. a = Some r \<longleftrightarrow> b = Some (p, r)"
  shows "a = (case b of Some (c, r) \<Rightarrow> if c = p then Some r else None | None \<Rightarrow> None)"
proof (cases b)
  case None
  with assms have "a \<noteq> Some r" for r by simp
  with None show ?thesis by (cases a) auto
next
  case (Some cr)
  obtain c r where cr: "cr = (c, r)" by fastforce
  from Some cr assms have "a = Some r' \<longleftrightarrow> c = p \<and> r = r'" for r' by simp
  then show ?thesis using Some cr by (cases a) auto
qed

lemma strip_prefix_split:
  assumes "CHR ''<'' \<notin> set p"
  shows "strip_prefix_str (p @ ''<'') s =
    (case split_first (CHR ''<'') s of Some (c, r) \<Rightarrow> if c = p then Some r else None | None \<Rightarrow> None)"
proof -
  have "split_first (CHR ''<'') (p @ CHR ''<'' # r) = Some (p, r)" for r using assms by (induction p) auto
  then have "strip_prefix_str (p @ ''<'') s = Some r \<longleftrightarrow> split_first (CHR ''<'') s = Some (p, r)" for r
    by (auto simp: strip_prefix_iff dest: split_first_Some)
  then show ?thesis by (rule option_via_pair)
qed

lemmas strip_prefix_generic = strip_prefix_split[of "''list''", simplified] strip_prefix_split[of "''map''", simplified]

text \<open>The core parser in the vocabulary of the other one.\<close>

lemma parse_type_unfold:
  "parse_type s0 =
     (let s = trim s0 in
      if ends_with s ''?'' then
        (case parse_type (butlast s) of Inl e \<Rightarrow> Inl e | Inr t \<Rightarrow> Inr (TOptional t))
      else case split_first (CHR ''<'') s of
        Some (container, rest) \<Rightarrow>
          if container = ''list'' \<or> container = ''map'' then
            if \<not> ends_with rest ''>'' then Inl (StepExecution (Msg (''Invalid type syntax: '' @ s)))
            else (case parse_type (butlast rest) of Inl e \<Rightarrow> Inl e
                  | Inr t \<Rightarrow> Inr (if container = ''list'' then TList t else TMap t))
          else Inl (StepExecution (Msg (''Unknown type: '' @ s)))
      | None \<Rightarrow> ok_or (StepExecution (Msg (''Unknown type: '' @ s))) (primitive_type s))"
proof -
  have "primitive_type (trim s0) = None" if "split_first (CHR ''<'') (trim s0) = Some x" for x
    using that primitive_type_no_bracket split_first_None by (metis not_None_eq)
  then show ?thesis
    by (subst parse_type.simps)
      (auto simp: Let_def strip_suffix_char strip_prefix_generic ok_or_def split: option.splits sum.splits)
qed

lemma agree_cases:
  assumes "\<And>t. a = Inr t \<longleftrightarrow> b = Inr t"
  obtains e f where "a = Inl e" "b = Inl f" | t where "a = Inr t" "b = Inr t"
proof (cases a)
  case (Inl e)
  with assms have "b \<noteq> Inr t" for t by (metis Inl_Inr_False)
  with Inl that(1) show ?thesis by (cases b) auto
next
  case (Inr t)
  with assms that(2) show ?thesis by blast
qed

lemma parsers_agree: "parse_type s = Inr t \<longleftrightarrow> parse_type_string s = Inr t"
proof (induction s arbitrary: t rule: measure_induct_rule[of length])
  case (less s0)
  define s where "s = trim s0"
  have len: "length s \<le> length s0" unfolding s_def by (rule length_trim)
  show ?case
  proof (cases "ends_with s ''?''")
    case True
    then have "length (butlast s) < length s0" using len by (cases s) (auto simp: ends_with_char)
    note ih = less[OF this]
    from True show ?thesis
      by (cases rule: agree_cases[OF ih])
        (auto simp: parse_type_unfold[of s0] parse_type_string.simps[of s0] Let_def ends_with_char
          simp flip: s_def)
  next
    case False
    show ?thesis
    proof (cases "split_first (CHR ''<'') s")
      case None
      with False show ?thesis
        by (subst parse_type_unfold, subst parse_type_string.simps)
          (auto simp: Let_def ok_or_def primitive_type_def simp flip: s_def split: option.splits)
    next
      case (Some cr)
      obtain c r where cr: "cr = (c, r)" by fastforce
      from split_first_Some[OF Some[unfolded cr]] have s: "s = c @ CHR ''<'' # r" by simp
      with len have "length (butlast r) < length s0" by simp
      note ih = less[OF this]
      have "ends_with s ''>'' = ends_with r ''>''" using s by (auto simp: ends_with_char)
      with False Some cr s show ?thesis
        by (cases rule: agree_cases[OF ih])
          (auto simp: parse_type_unfold[of s0] parse_type_string.simps[of s0] Let_def simp flip: s_def)
    qed
  qed
qed

text \<open>
  The two parsers of type strings, one in the core crate and one in the YAML crate,
  accept the same strings and agree on the type.
\<close>

theorem type_parsers_agree: "parse_type s = Inr t \<longleftrightarrow> parse_type_string s = Inr t"
  by (rule parsers_agree)

text \<open>
  C38: printing a type and parsing it again, with either parser, gives the type back.
\<close>

theorem show_type_round_trip:
  "parse_type (show_type t) = Inr t \<and> parse_type_string (show_type t) = Inr t"
proof -
  have "parse_type (show_type t) = Inr t"
  proof (induction t)
    case (TList t)
    have "split_first (CHR ''<'') (''list<'' @ show_type t @ ''>'') = Some (''list'', show_type t @ ''>'')" by simp
    with TList trim_show_type[of "TList t"] show ?case
      by (subst parse_type_unfold) (simp add: ends_with_char butlast_append)
  next
    case (TMap t)
    have "split_first (CHR ''<'') (''map<'' @ show_type t @ ''>'') = Some (''map'', show_type t @ ''>'')" by simp
    with TMap trim_show_type[of "TMap t"] show ?case
      by (subst parse_type_unfold) (simp add: ends_with_char butlast_append)
  next
    case (TOptional t)
    with trim_show_type[of "TOptional t"] show ?case
      by (subst parse_type_unfold) (simp add: ends_with_char butlast_append)
  qed (subst parse_type_unfold, simp add: ends_with_char trim_no_space is_space_def primitive_type_def ok_or_def)+
  then show ?thesis using parsers_agree by blast
qed

section \<open>Validation against a typing relation\<close>

inductive has_type :: "json \<Rightarrow> schema_type \<Rightarrow> bool" where
  ht_string: "has_type (JString s) TString"
| ht_number: "has_type (JNumber n) TNumber"
| ht_unsigned: "has_type (JNumber (PosInt u)) TInteger"
| ht_negative: "has_type (JNumber (NegInt u)) TInteger"
| ht_bool: "has_type (JBool b) TBool"
| ht_none: "has_type JNull (TOptional t)"
| ht_some: "has_type v t \<Longrightarrow> has_type v (TOptional t)"
| ht_list: "\<forall>v \<in> set vs. has_type v t \<Longrightarrow> has_type (JArray vs) (TList t)"
| ht_map: "\<forall>(k, v) \<in> set m. has_type v t \<Longrightarrow> has_type (JObject m) (TMap t)"
| ht_any: "has_type v TAny"

inductive_simps has_type_simps [simp]:
  "has_type v TString" "has_type v TNumber" "has_type v TInteger" "has_type v TBool"
  "has_type v (TOptional t)" "has_type v (TList t)" "has_type v (TMap t)" "has_type v TAny"

lemma map_err_Inr [simp]: "map_err f r = Inr x \<longleftrightarrow> r = Inr x"
  by (auto simp: map_err_def split: sum.splits)

lemma ball_enumerate: "(\<forall>(i, x) \<in> set (List.enumerate n xs). P x) \<longleftrightarrow> (\<forall>x \<in> set xs. P x)"
proof -
  have "(\<forall>(i, x) \<in> set (List.enumerate n xs). P x) \<longleftrightarrow> (\<forall>x \<in> snd ` set (List.enumerate n xs). P x)" by auto
  also have "snd ` set (List.enumerate n xs) = set xs" by (metis list.set_map map_snd_enumerate)
  finally show ?thesis .
qed

lemma validate_value_iff: "validate_value t v = Inr () \<longleftrightarrow> has_type v t"
proof (induction t arbitrary: v)
  case (TList t)
  have "validate_value (TList t) v = Inr () \<longleftrightarrow> (\<exists>vs. v = JArray vs \<and>
      (\<forall>(i, x) \<in> set (List.enumerate 0 vs). validate_value t x = Inr ()))"
    by (cases v) (auto simp: as_array_def)
  then show ?case by (simp only: ball_enumerate TList has_type_simps)
next
  case (TMap t)
  then show ?case by (cases v) (auto simp: as_object_def)
qed (auto simp: is_string_def is_number_def is_i64_def is_u64_def is_boolean_def is_null_def
      as_str_def as_bool_def
      split: json.splits json_number.splits)

definition field_ok :: "json_map \<Rightarrow> string \<times> schema_type \<Rightarrow> bool" where
  "field_ok obj f =
     (case map_of obj (fst f) of None \<Rightarrow> is_optional (snd f) | Some v \<Rightarrow> has_type v (snd f))"

lemma field_errors_length: "length (field_errors obj f) = (if field_ok obj f then 0 else 1)"
  by (auto simp: field_errors_def field_ok_def simp flip: validate_value_iff split: option.splits sum.splits)

lemma field_errors_Nil: "field_errors obj f = [] \<longleftrightarrow> field_ok obj f"
  using field_errors_length[of obj f] by (auto split: if_splits)

text \<open>
  C39: validation of a field map accepts exactly the objects in which every declared field that
  is present has its declared type and every missing one is optional; otherwise it reports one
  error per offending field. The types are given by the rules of \<open>has_type\<close>.
\<close>

theorem validate_fields_spec:
  "(case data of
      JObject obj \<Rightarrow>
        validate_fields flds data = Inr () \<and> list_all (field_ok obj) flds \<or>
        (\<exists>es. validate_fields flds data = Inl es \<and> es \<noteq> [] \<and>
          length es = length (filter (\<lambda>f. \<not> field_ok obj f) flds))
    | _ \<Rightarrow> validate_fields flds data = Inl [''expected an object''])"
proof (cases data)
  case (JObject obj)
  have len: "length (concat (map (field_errors obj) flds)) = length (filter (\<lambda>f. \<not> field_ok obj f) flds)"
    by (induction flds) (simp_all add: field_errors_length)
  have "concat (map (field_errors obj) flds) = [] \<longleftrightarrow> list_all (field_ok obj) flds"
    by (auto simp: concat_eq_Nil_conv list_all_iff field_errors_Nil)
  with len JObject show ?thesis by (simp add: validate_fields_def Let_def)
qed (simp_all add: validate_fields_def as_object_def)

end
