(* ===== verification/Primitives.thy ===== *)
theory Primitives
  imports Pointer_Ids Schema
begin

text \<open>
  The built-in step bodies of \<open>wfe-core/src/primitives\<close>. A body is modelled by its \<open>run\<close> as a
  function of the fields of the struct and the step context. The containers (if, while, for-each,
  sequence, saga, schedule, recur) share a protocol: they branch once, note it in their
  persistence data, and look at their own scope (their scope extended by their id) to see whether
  the children are done.
\<close>

section \<open>Shared pieces\<close>

definition children_active_data :: json where
  "children_active_data = JObject [(''children_active'', JBool True)]"

definition persistence_flag :: "'w step_context \<Rightarrow> string \<Rightarrow> bool" where
  "persistence_flag c key =
     unwrap_or (and_then (and_then (sx_persistence_data c) (\<lambda>d. json_get d key)) as_bool) False"

definition own_scope :: "'w step_context \<Rightarrow> string list" where
  "own_scope c = ep_scope (sx_execution_pointer c) @ [ep_id (sx_execution_pointer c)]"

definition config_str :: "'w step_context \<Rightarrow> string \<Rightarrow> string" where
  "config_str c key =
     unwrap_or (and_then (and_then (ws_step_config (sx_step c)) (\<lambda>cfg. json_get cfg key)) as_str) []"

section \<open>Simple steps\<close>

definition decide_run :: "json \<Rightarrow> 'w step_context \<Rightarrow> execution_result res" where
  "decide_run expression_value c = Inr (result_outcome expression_value)"

definition delay_run :: "duration \<Rightarrow> 'w step_context \<Rightarrow> execution_result res" where
  "delay_run dur c =
     (let dur' =
        (if dur = 0 then
           unwrap_or
             (map_option (\<lambda>ms. from_millis (unat ms))
               (and_then (and_then (ws_step_config (sx_step c)) (\<lambda>cfg. json_get cfg ''duration_millis'')) as_u64))
             dur
         else dur)
      in Inr (result_sleep dur' None))"

definition end_run :: "'w step_context \<Rightarrow> execution_result res" where
  "end_run c = Inr result_next"

definition poll_endpoint_run :: "poll_endpoint_config \<Rightarrow> 'w step_context \<Rightarrow> execution_result res" where
  "poll_endpoint_run config c = Inr (result_poll_endpoint config)"

definition wait_for_run :: "'w sys \<Rightarrow> string \<Rightarrow> string \<Rightarrow> 'w step_context \<Rightarrow> ('w, execution_result res) eff" where
  "wait_for_run S event_name event_key c w =
     (if ep_event_data (sx_execution_pointer c) \<noteq> None then (Inr result_next, w)
      else
        (let n = (if event_name = [] then config_str c ''event_name'' else event_name);
             k = (if event_key = [] then config_str c ''event_key'' else event_key);
             (now, w) = utc_now S w
         in (Inr (result_wait_for_event n k now), w)))"

section \<open>Containers\<close>

definition if_run :: "bool \<Rightarrow> 'w step_context \<Rightarrow> execution_result res" where
  "if_run condition c =
     (if persistence_flag c ''children_active'' then
        if is_branch_complete (sx_workflow c) (own_scope c) then Inr result_next
        else Inr (result_persist children_active_data)
      else if condition then Inr (result_branch [JNull] (Some children_active_data))
      else Inr result_next)"

definition while_run :: "bool \<Rightarrow> 'w step_context \<Rightarrow> execution_result res" where
  "while_run condition c =
     (if persistence_flag c ''children_active'' then
        if is_branch_complete (sx_workflow c) (own_scope c) then
          if condition then Inr (result_branch [JNull] (Some children_active_data))
          else Inr result_next
        else Inr (result_persist children_active_data)
      else if condition then Inr (result_branch [JNull] (Some children_active_data))
      else Inr result_next)"

definition index_data :: "nat \<Rightarrow> json" where
  "index_data i =
     JObject [(''children_active'', JBool True), (''current_index'', JNumber (PosInt (word_of_nat i)))]"

text \<open>
  The sequential mode reads \<open>collection[current_index]\<close>. The step itself only writes indices
  that are in range; the panic that foreign persistence data could cause is an error value here.
\<close>

definition branch_item :: "json list \<Rightarrow> nat \<Rightarrow> execution_result res" where
  "branch_item collection i =
     (if i < length collection then Inr (result_branch [collection ! i] (Some (index_data i)))
      else Inl (Other ''index out of bounds''))"

definition foreach_run :: "json list \<Rightarrow> bool \<Rightarrow> 'w step_context \<Rightarrow> execution_result res" where
  "foreach_run collection run_parallel c =
     (if collection = [] then Inr result_next
      else if run_parallel then
        if persistence_flag c ''children_active'' then
          if is_branch_complete (sx_workflow c) (own_scope c) then Inr result_next
          else Inr (result_persist children_active_data)
        else Inr (result_branch collection (Some children_active_data))
      else
        (let current_index = unat (unwrap_or (and_then (and_then (sx_persistence_data c)
                               (\<lambda>d. json_get d ''current_index'')) as_u64) 0)
         in if persistence_flag c ''children_active'' then
              if is_branch_complete (sx_workflow c) (own_scope c) then
                if current_index + 1 \<ge> length collection then Inr result_next
                else branch_item collection (current_index + 1)
              else Inr (result_persist (index_data current_index))
            else branch_item collection current_index))"

definition recur_run :: "duration \<Rightarrow> bool \<Rightarrow> 'w step_context \<Rightarrow> execution_result res" where
  "recur_run interval stop_condition c =
     (if stop_condition then Inr result_next
      else if persistence_flag c ''children_active'' then
        if is_branch_complete (sx_workflow c) (own_scope c)
        then Inr (result_sleep interval (Some children_active_data))
        else Inr (result_persist children_active_data)
      else Inr (result_sleep interval (Some children_active_data)))"

definition schedule_run :: "duration \<Rightarrow> 'w step_context \<Rightarrow> execution_result res" where
  "schedule_run interval c =
     (if persistence_flag c ''children_active'' then
        if is_branch_complete (sx_workflow c) (own_scope c) then Inr result_next
        else Inr (result_persist children_active_data)
      else Inr (result_sleep interval (Some children_active_data)))"

definition compensating_data :: json where
  "compensating_data = JObject [(''children_active'', JBool True), (''compensating'', JBool True)]"

definition saga_run :: "'w step_context \<Rightarrow> execution_result res" where
  "saga_run c =
     (if persistence_flag c ''compensating'' then
        if is_branch_complete (sx_workflow c) (own_scope c) then Inr result_next
        else Inr (result_persist compensating_data)
      else if persistence_flag c ''children_active'' then
        if ws_do_compensate (sx_step c) then Inr (result_branch [JNull] (Some compensating_data))
        else if is_branch_complete (sx_workflow c) (own_scope c) then Inr result_next
        else Inr (result_persist children_active_data)
      else Inr (result_branch [JNull] (Some children_active_data)))"

definition sequence_run :: "'w step_context \<Rightarrow> execution_result res" where
  "sequence_run c =
     (let has_children = ws_children (sx_step c) \<noteq> [];
          children_spawned = list_ex (\<lambda>p. ep_scope p = own_scope c) (wi_execution_pointers (sx_workflow c))
      in if has_children \<and> \<not> children_spawned then Inr (result_branch [JNull] None)
         else if is_branch_complete (sx_workflow c) (own_scope c) then Inr result_next
         else Inr (result_persist children_active_data))"

section \<open>Sub-workflows\<close>

record sub_workflow_step =
  sw_workflow_id :: string
  sw_version :: u32
  sw_inputs :: json
  sw_output_keys :: "string list"
  sw_input_schema :: "workflow_schema option"
  sw_output_schema :: "workflow_schema option"

definition sub_workflow_default :: sub_workflow_step where
  "sub_workflow_default =
     \<lparr>sw_workflow_id = [], sw_version = 0, sw_inputs = JNull, sw_output_keys = [],
      sw_input_schema = None, sw_output_schema = None\<rparr>"

definition join_errors :: "string list \<Rightarrow> string" where
  "join_errors es = concat (case es of [] \<Rightarrow> [] | e # es \<Rightarrow> e # map (\<lambda>x. ''; '' @ x) es)"

definition child_output :: "sub_workflow_step \<Rightarrow> json \<Rightarrow> json" where
  "child_output s event_data =
     (let child_data = unwrap_or (json_get event_data ''data'') JNull
      in JObject
          (if sw_output_keys s = [] then (case child_data of JObject m \<Rightarrow> m | _ \<Rightarrow> [])
           else fold (\<lambda>key out. case json_get child_data key of None \<Rightarrow> out | Some v \<Rightarrow> obj_insert key v out)
                  (sw_output_keys s) []))"

definition hydrate :: "sub_workflow_step \<Rightarrow> json option \<Rightarrow> sub_workflow_step" where
  "hydrate s config =
     (case config of
        None \<Rightarrow> s
      | Some cfg \<Rightarrow>
          if sw_workflow_id s \<noteq> [] then s
          else
            (let s = (case and_then (json_get cfg ''workflow_id'') as_str of
                        None \<Rightarrow> s | Some i \<Rightarrow> s\<lparr>sw_workflow_id := i\<rparr>);
                 s = (case and_then (json_get cfg ''version'') as_u64 of
                        None \<Rightarrow> s | Some v \<Rightarrow> s\<lparr>sw_version := ucast v\<rparr>);
                 s = (case json_get cfg ''inputs'' of None \<Rightarrow> s | Some i \<Rightarrow> s\<lparr>sw_inputs := i\<rparr>)
             in (case and_then (json_get cfg ''output_keys'') as_array of
                   None \<Rightarrow> s | Some keys \<Rightarrow> s\<lparr>sw_output_keys := List.map_filter as_str keys\<rparr>)))"

definition start_child ::
  "'w sys \<Rightarrow> 'w host_context \<Rightarrow> sub_workflow_step \<Rightarrow> workflow_instance \<Rightarrow> ('w, execution_result res) eff" where
  "start_child S host s parent w =
     (let child_data = (if \<not> is_null (sw_inputs s) then sw_inputs s
                        else if is_object (wi_data parent) then wi_data parent
                        else JObject []);
          parent_root = option_or (wi_root_workflow_id parent) (Some (wi_id parent))
      in case hc_start_workflow host (sw_workflow_id s) (sw_version s) child_data parent_root w of
           (Inl e, w) \<Rightarrow> (Inl e, w)
         | (Inr child_instance_id, w) \<Rightarrow>
             (let (now, w) = utc_now S w
              in (Inr (result_wait_for_event ''wfe.workflow.completed'' child_instance_id now), w)))"

definition sub_workflow_run ::
  "'w sys \<Rightarrow> sub_workflow_step \<Rightarrow> 'w step_context \<Rightarrow> ('w, execution_result res) eff" where
  "sub_workflow_run S s0 c w =
     (case ep_event_data (sx_execution_pointer c) of
        Some event_data \<Rightarrow>
          (let output_value = child_output s0 event_data
           in case (case sw_output_schema s0 of None \<Rightarrow> Inr () | Some sch \<Rightarrow> validate_outputs sch output_value) of
                Inl errors \<Rightarrow>
                  (Inl (StepExecution (Msg (''SubWorkflow output validation failed: '' @ join_errors errors))), w)
              | Inr _ \<Rightarrow> (Inr (result_next\<lparr>er_output_data := Some output_value\<rparr>), w))
      | None \<Rightarrow>
          (let s = hydrate s0 (ws_step_config (sx_step c))
           in case (case sw_input_schema s of None \<Rightarrow> Inr () | Some sch \<Rightarrow> validate_inputs sch (sw_inputs s)) of
                Inl errors \<Rightarrow>
                  (Inl (StepExecution (Msg (''SubWorkflow input validation failed: '' @ join_errors errors))), w)
              | Inr _ \<Rightarrow>
                case sx_host_context c of
                  None \<Rightarrow>
                    (Inl (StepExecution (Msg ''SubWorkflowStep requires a host context to start child workflows'')), w)
                | Some host \<Rightarrow>
                    start_child S host s (sx_workflow c) w))"

section \<open>The registered bodies\<close>

text \<open>The bodies built by \<open>Default\<close>, under the type names the registry uses for them.\<close>

definition pure_body :: "('w step_context \<Rightarrow> execution_result res) \<Rightarrow> 'w step_body" where
  "pure_body f = default_step_body (\<lambda>c w. (f c, w))"

definition register_primitives :: "'w sys \<Rightarrow> 'w step_registry \<Rightarrow> 'w step_registry" where
  "register_primitives S r =
     fold (\<lambda>(k, b) r. register_factory r k b)
       [(''wfe_core::primitives::decide::DecideStep'', pure_body (decide_run JNull)),
        (''wfe_core::primitives::delay::DelayStep'', pure_body (delay_run 0)),
        (''wfe_core::primitives::end_step::EndStep'', pure_body end_run),
        (''wfe_core::primitives::foreach_step::ForEachStep'', pure_body (foreach_run [] True)),
        (''wfe_core::primitives::if_step::IfStep'', pure_body (if_run False)),
        (''wfe_core::primitives::poll_endpoint::PollEndpointStep'',
           pure_body (poll_endpoint_run poll_endpoint_config_default)),
        (''wfe_core::primitives::recur::RecurStep'', pure_body (recur_run 0 False)),
        (''wfe_core::primitives::saga_container::SagaContainerStep'', pure_body saga_run),
        (''wfe_core::primitives::schedule::ScheduleStep'', pure_body (schedule_run 0)),
        (''wfe_core::primitives::sequence::SequenceStep'', pure_body sequence_run),
        (''wfe_core::primitives::wait_for::WaitForStep'', default_step_body (wait_for_run S [] [])),
        (''wfe_core::primitives::while_step::WhileStep'', pure_body (while_run False)),
        (''wfe_core::primitives::sub_workflow::SubWorkflowStep'',
           default_step_body (sub_workflow_run S sub_workflow_default))] r"

section \<open>Lemmas\<close>

lemmas primitive_runs = decide_run_def delay_run_def end_run_def poll_endpoint_run_def if_run_def
  while_run_def foreach_run_def branch_item_def recur_run_def schedule_run_def saga_run_def
  sequence_run_def

lemma register_primitives_ran:
  "ran (register_primitives S step_registry_new) \<subseteq>
     {pure_body (decide_run JNull), pure_body (delay_run 0), pure_body end_run,
      pure_body (foreach_run [] True), pure_body (if_run False),
      pure_body (poll_endpoint_run poll_endpoint_config_default), pure_body (recur_run 0 False),
      pure_body saga_run, pure_body (schedule_run 0), pure_body sequence_run,
      default_step_body (wait_for_run S [] []), pure_body (while_run False),
      default_step_body (sub_workflow_run S sub_workflow_default)}"
  by (auto simp: register_primitives_def register_factory_def step_registry_new_def ran_def split: if_splits)

text \<open>
  Over the in-memory world, no built-in body takes back an id that was drawn, provided the host
  context it calls does not.
\<close>

definition host_grows :: "mem_world host_context option \<Rightarrow> bool" where
  "host_grows host \<longleftrightarrow>
     (\<forall>h i v data root w. host = Some h \<longrightarrow>
        mem_ids.grows w (snd (hc_start_workflow h i v data root w)))"

lemma primitive_body_grows:
  assumes "host_grows host" and "body \<in> ran (register_primitives mem_sys step_registry_new)"
  shows "body_grows host body"
  unfolding body_grows_def
proof (intro allI impI)
  fix c :: "mem_world step_context" and w assume c: "sx_host_context c = host"
  with assms(1) have assms1: "host_grows (sx_host_context c)" by simp
  have pure: "mem_ids.grows w (snd (run (pure_body f) c w))" for f by (simp add: pure_body_def default_step_body_def)
  have wait: "mem_ids.grows w (snd (wait_for_run mem_sys n k c w))" for n k
    by (auto simp: wait_for_run_def mem_now_def Let_def intro!: mem_world_grows)
  have sub: "mem_ids.grows w (snd (sub_workflow_run mem_sys s c w))" for s
  proof (cases "sx_host_context c")
    case None
    then show ?thesis by (simp add: sub_workflow_run_def Let_def split: option.splits sum.splits)
  next
    case (Some h)
    have now: "mem_ids.grows v (snd (mem_now v))" for v by (simp add: mem_now_def mem_world_grows)
    have "mem_ids.grows w (snd (start_child mem_sys h s inst w))" for s inst
    proof -
      let ?r = "\<lambda>data. hc_start_workflow h (sw_workflow_id s) (sw_version s) data
        (option_or (wi_root_workflow_id inst) (Some (wi_id inst))) w"
      have "mem_ids.grows w (snd (?r data))" for data using assms1 Some by (simp add: host_grows_def)
      with now show ?thesis
        by (auto simp: start_child_def Let_def split: prod.splits sum.splits simp del: if_split)
          (metis mem_ids.grows_trans snd_conv)+
    qed
    with Some show ?thesis by (auto simp: sub_workflow_run_def Let_def split: option.splits sum.splits)
  qed
  show "mem_ids.grows w (snd (run body c w)) \<and> mem_ids.grows w (snd (mount_artifacts body c w)) \<and>
      mem_ids.grows w (snd (unmount_artifacts body c w))"
    using assms(2) register_primitives_ran[of mem_sys] pure wait sub
    by (auto simp: default_step_body_def pure_body_def)
qed

interpretation prim_exec: executor_store_ids "mem_executor (Some mem_lifecycle) None" mem_stored mem_queued
  mw_locks mem_sys mem_uuids_drawn mem_uuids_unique "register_primitives mem_sys step_registry_new" None
  by (rule mem_executor_ids) (simp_all add: primitive_body_grows host_grows_def)

section \<open>Properties\<close>

lemma persistence_flag_data [simp]:
  "sx_persistence_data c = Some children_active_data \<Longrightarrow> persistence_flag c ''children_active''"
  "sx_persistence_data c = Some compensating_data \<Longrightarrow> persistence_flag c ''children_active''"
  "sx_persistence_data c = Some compensating_data \<Longrightarrow> persistence_flag c ''compensating''"
  "sx_persistence_data c = Some (index_data i) \<Longrightarrow> persistence_flag c ''children_active''"
  "sx_persistence_data c = None \<Longrightarrow> \<not> persistence_flag c k"
  by (simp_all add: persistence_flag_def children_active_data_def compensating_data_def index_data_def
      unwrap_or_def)

text \<open>
  C36: a container waits for its children. When its persistence data says that children are active,
  an if, a while, a for-each over a collection that is not empty, a recur whose stop condition does not
  hold, a schedule, a sequence, and a saga that is not about to start its compensation, neither proceed
  nor start children again nor sleep while some pointer in their own scope is not final: the result
  only persists data that still says that children are active. When there are such pointers and
  all of them are final, an if, a while whose condition no longer holds, a parallel for-each, a
  schedule, a sequence, and such a saga proceed. The cases left out do not wait: a recur proceeds as
  soon as its stop condition holds, a for-each as soon as its collection is empty, and a saga that is
  to compensate starts the compensation while its children run.
\<close>

theorem container_waits_for_children:
  assumes "persistence_flag c ''children_active''"
    and "run_c \<in> {if_run b, while_run b, foreach_run (x # xs) par, recur_run t False, schedule_run t, sequence_run, saga_run}"
    and "run_c = saga_run \<Longrightarrow> ws_do_compensate (sx_step c) \<Longrightarrow> persistence_flag c ''compensating''"
  shows "if \<exists>p \<in> set (wi_execution_pointers (sx_workflow c)). ep_scope p = own_scope c \<and> \<not> is_final (ep_status p)
    then \<exists>d. run_c c = Inr (result_persist d) \<and> persistence_flag (c\<lparr>sx_persistence_data := Some d\<rparr>) ''children_active''
    else own_scope c \<in> ep_scope ` set (wi_execution_pointers (sx_workflow c)) \<and>
        run_c \<in> {if_run b, while_run False, foreach_run (x # xs) True, schedule_run t, sequence_run, saga_run} \<longrightarrow>
      run_c c = Inr result_next"
proof -
  let ?done = "is_branch_complete (sx_workflow c) (own_scope c)"
  have "(\<exists>p \<in> set (wi_execution_pointers (sx_workflow c)). ep_scope p = own_scope c \<and> \<not> is_final (ep_status p)) \<longleftrightarrow> \<not> ?done"
    by (auto simp: is_branch_complete_def list_all_iff)
  moreover have "\<exists>d. run_c c = Inr (result_persist d) \<and> persistence_flag (c\<lparr>sx_persistence_data := Some d\<rparr>) ''children_active''"
    if "\<not> ?done"
  proof -
    have "list_ex (\<lambda>p. ep_scope p = own_scope c) (wi_execution_pointers (sx_workflow c))"
      using that by (auto simp: is_branch_complete_def list_all_iff list_ex_iff)
    moreover have "\<exists>d'. result_persist d = result_persist d' \<and> persistence_flag (c\<lparr>sx_persistence_data := Some d'\<rparr>) ''children_active''"
      if "persistence_flag (c\<lparr>sx_persistence_data := Some d\<rparr>) ''children_active''" for d using that by blast
    ultimately show ?thesis using that assms by (auto simp: primitive_runs Let_def)
  qed
  moreover have "run_c c = Inr result_next"
    if "?done" and "own_scope c \<in> ep_scope ` set (wi_execution_pointers (sx_workflow c)) \<and>
        run_c \<in> {if_run b, while_run False, foreach_run (x # xs) True, schedule_run t, sequence_run, saga_run}"
    using that assms(1,3) by (auto simp: primitive_runs list_ex_iff)
  ultimately show ?thesis by simp
qed

text \<open>
  The sequential for-each, driven with its own persistence data while every branch it starts has
  completed: the branch values of the first \<open>n\<close> calls.
\<close>

fun drive_foreach :: "json list \<Rightarrow> nat \<Rightarrow> 'w step_context \<Rightarrow> json list" where
  "drive_foreach collection 0 c = []"
| "drive_foreach collection (Suc n) c =
     (case foreach_run collection False c of
        Inl _ \<Rightarrow> []
      | Inr r \<Rightarrow>
          (case er_branch_values r of
             None \<Rightarrow> []
           | Some vs \<Rightarrow> vs @ drive_foreach collection n (c\<lparr>sx_persistence_data := er_persistence_data r\<rparr>)))"

lemma own_scope_upd [simp]: "own_scope (c\<lparr>sx_persistence_data := d\<rparr>) = own_scope c"
  by (simp add: own_scope_def)

lemma foreach_next:
  assumes "is_branch_complete (sx_workflow c) (own_scope c)" and "length xs < 2 ^ 64" and "i < length xs"
    and "sx_persistence_data c = Some (index_data i)"
  shows "foreach_run xs False c =
    (if Suc i < length xs then Inr (result_branch [xs ! Suc i] (Some (index_data (Suc i)))) else Inr result_next)"
proof -
  have "unat (unwrap_or (and_then (and_then (sx_persistence_data c) (\<lambda>d. json_get d ''current_index'')) as_u64) 0) = i"
    using assms(2-4) by (simp add: index_data_def unwrap_or_def unat_of_nat)
  moreover have "persistence_flag c ''children_active''" using assms(4) by simp
  ultimately show ?thesis
    using assms(1,3) by (auto simp add: foreach_run_def branch_item_def Let_def)
qed

lemma drive_foreach_from:
  assumes "is_branch_complete (sx_workflow c) (own_scope c)" and "length xs < 2 ^ 64" and "i < length xs"
    and "sx_persistence_data c = Some (index_data i)"
  shows "drive_foreach xs n c = take n (drop (Suc i) xs)"
  using assms
proof (induction n arbitrary: c i)
  case (Suc n)
  show ?case
  proof (cases "Suc i < length xs")
    case True
    with Suc.prems Suc.IH[of "c\<lparr>sx_persistence_data := Some (index_data (Suc i))\<rparr>" "Suc i"]
    show ?thesis by (simp add: foreach_next[OF Suc.prems] result_defs Cons_nth_drop_Suc[symmetric])
  next
    case False
    then show ?thesis by (simp add: foreach_next[OF Suc.prems] result_defs)
  qed
qed simp

text \<open>
  The sequential for-each visits the elements of its collection in order, each exactly
  once, and then proceeds: the branch values of its first \<open>n\<close> calls are the first \<open>n\<close> elements,
  and the call after the last element proceeds.
\<close>

theorem foreach_sequential_order:
  assumes "is_branch_complete (sx_workflow c) (own_scope c)" and "length xs < 2 ^ 64"
    and "sx_persistence_data c = None"
  shows "drive_foreach xs n c = take n xs \<and>
    (xs \<noteq> [] \<longrightarrow> foreach_run xs False (c\<lparr>sx_persistence_data := Some (index_data (length xs - 1))\<rparr>) = Inr result_next)"
proof
  show "drive_foreach xs n c = take n xs"
  proof (cases xs)
    case Nil
    then show ?thesis by (cases n) (simp_all add: foreach_run_def result_defs)
  next
    case (Cons y ys)
    have first: "foreach_run xs False c = Inr (result_branch [y] (Some (index_data 0)))"
      using Cons assms(3) by (simp add: foreach_run_def branch_item_def unwrap_or_def Let_def)
    show ?thesis
    proof (cases n)
      case (Suc m)
      with first Cons assms drive_foreach_from[of "c\<lparr>sx_persistence_data := Some (index_data 0)\<rparr>" xs 0 m]
      show ?thesis by (simp add: result_defs)
    qed simp
  qed
  show "xs \<noteq> [] \<longrightarrow> foreach_run xs False (c\<lparr>sx_persistence_data := Some (index_data (length xs - 1))\<rparr>) = Inr result_next"
    using assms foreach_next[of "c\<lparr>sx_persistence_data := Some (index_data (length xs - 1))\<rparr>" xs "length xs - 1"]
    by (cases xs) simp_all
qed

text \<open>
  A delay never ends. Whenever a pointer at a step whose body is the built-in delay is
  executed, it is sleeping and active again afterwards, whatever its persistence data and however
  often it has slept before, so the step never completes and never starts its successor.
\<close>

theorem delay_step_never_completes:
  fixes E :: "'w workflow_executor"
  assumes "execute_pointer E S wid d reg host i st w = (Inr st', w')"
    and "i < length (wi_execution_pointers (lp_workflow st))"
    and "find_step d (ep_step_id (wi_execution_pointers (lp_workflow st) ! i)) = Some step"
    and "ws_when step = None" and "resolve reg (ws_step_type step) = Some (pure_body (delay_run t))"
  shows "ep_status (wi_execution_pointers (lp_workflow st') ! i) = Sleeping \<and>
         ep_active (wi_execution_pointers (lp_workflow st') ! i) \<and>
         length (wi_execution_pointers (lp_workflow st')) = length (wi_execution_pointers (lp_workflow st))"
proof -
  let ?body = "pure_body (delay_run t) :: 'w step_body"
  from assms have ps: "perform_step E S wid d host step ?body i st w = (st', w')"
    by (auto simp: execute_pointer_def Let_def split: prod.splits)
  obtain inst1 w1 where st: "start_pointer S i (lp_workflow st) w = (inst1, w1)" by (metis surj_pair)
  from start_pointer_fields(1)[OF st assms(2)]
  have len: "length (wi_execution_pointers inst1) = length (wi_execution_pointers (lp_workflow st))" by auto
  have sleeps: "\<exists>t'. run_step ?body c v = (Inr (result_sleep t' None), v)"
    for c :: "'w step_context" and v :: 'w
    by (auto simp: run_step_def pure_body_def default_step_body_def delay_run_def Let_def)
  obtain vol v where v: "step_volume E step inst1
      (publish_lifecycle E S inst1 (LStepStarted (ws_id step) (ws_name step)) w1) = (vol, v)" by (metis surj_pair)
  from sleeps obtain t' where
    "run_step ?body (build_context E d host step i inst1 vol) v = (Inr (result_sleep t' None), v)" by blast
  with ps st v have ar: "apply_result E S d step i (result_sleep t' None) (st\<lparr>lp_workflow := inst1\<rparr>) v = (st', w')"
    by (simp add: perform_step_def)
  then obtain p' pr w2 v2 where
    pr: "process_result S (result_sleep t' None) (wi_execution_pointers inst1 ! i) d (wi_id inst1) v2 = ((p', pr), w2)"
    and st': "wi_execution_pointers (lp_workflow st') = (wi_execution_pointers inst1)[i := p'] @ pr_new_pointers pr"
    by (auto simp: apply_result_def Let_def split: prod.splits)
  from pr have "ep_status p' = Sleeping" "ep_active p'" "pr_new_pointers pr = []"
    by (auto simp: process_result_def result_defs split: prod.splits dest!: process_sleep_fields)
  with st' len assms(2) show ?thesis by (simp add: nth_append)
qed

section \<open>Witnesses\<close>

definition sample_context :: "nat step_context" where
  "sample_context =
     \<lparr>sx_item = None, sx_execution_pointer = execution_pointer_new ''p'' 0, sx_persistence_data = None,
      sx_step = workflow_step_new 0 ''step'',
      sx_workflow = sample_instance\<lparr>wi_execution_pointers :=
        [execution_pointer_new ''p'' 0,
         (execution_pointer_new ''q'' 1)\<lparr>ep_scope := [''p''], ep_status := PComplete, ep_active := False\<rparr>]\<rparr>,
      sx_definition = None, sx_host_context = None, sx_artifact_store = None, sx_artifact_volume = None,
      sx_persistence = None\<rparr>"

lemma sample_context_complete: "is_branch_complete (sx_workflow sample_context) (own_scope sample_context)"
  by (simp add: sample_context_def is_branch_complete_def own_scope_def)

theorem container_waits_for_children_witness:
  "if_run True (sample_context\<lparr>sx_persistence_data := Some children_active_data\<rparr>) = Inr result_next"
proof -
  let ?c = "sample_context\<lparr>sx_persistence_data := Some children_active_data\<rparr>"
  have "\<not> (\<exists>p \<in> set (wi_execution_pointers (sx_workflow ?c)). ep_scope p = own_scope ?c \<and> \<not> is_final (ep_status p))"
    by (simp add: sample_context_def own_scope_def)
  moreover have "own_scope ?c \<in> ep_scope ` set (wi_execution_pointers (sx_workflow ?c))"
    by (simp add: sample_context_def own_scope_def)
  moreover have "\<not> ws_do_compensate (sx_step ?c)" by (simp add: sample_context_def workflow_step_new_def)
  ultimately show ?thesis
    using container_waits_for_children[where run_c = "if_run True" and b = True and c = ?c] by simp
qed

theorem foreach_sequential_order_witness:
  "drive_foreach [JNull, JBool True, JNull] 2 sample_context = [JNull, JBool True]"
proof -
  have "sx_persistence_data sample_context = None" by (simp add: sample_context_def)
  from foreach_sequential_order[OF sample_context_complete _ this, of "[JNull, JBool True, JNull]" 2]
  show ?thesis by simp
qed

theorem delay_step_never_completes_witness:
  "\<exists>st' w'. execute_pointer (mem_executor None None) mem_sys ''i'' two_steps
      (register_factory step_registry_new ''pass'' (pure_body (delay_run 5))) None 0
      \<lparr>lp_workflow = sample_instance, lp_subscriptions = [], lp_errors = []\<rparr> sample_world = (Inr st', w') \<and>
      ep_status (wi_execution_pointers (lp_workflow st') ! 0) = Sleeping"
proof -
  let ?reg = "register_factory step_registry_new ''pass'' (pure_body (delay_run 5))"
  let ?st = "\<lparr>lp_workflow = sample_instance, lp_subscriptions = [], lp_errors = []\<rparr>"
  let ?s = "(workflow_step_new 0 ''pass'')\<lparr>ws_outcomes := [\<lparr>so_next_step = 1, so_label = None, so_value = None\<rparr>]\<rparr>"
  have f: "find_step two_steps (ep_step_id (wi_execution_pointers (lp_workflow ?st) ! 0)) = Some ?s"
    by (simp add: two_steps_def sample_instance_def find_step_def workflow_step_new_def)
  have t: "ws_when ?s = None" "resolve ?reg (ws_step_type ?s) = Some (pure_body (delay_run 5))"
    by (simp_all add: workflow_step_new_def resolve_def register_factory_def)
  have l: "0 < length (wi_execution_pointers (lp_workflow ?st))" by (simp add: sample_instance_def)
  obtain st' w' where ps: "perform_step (mem_executor None None) mem_sys ''i'' two_steps None ?s
      (pure_body (delay_run 5)) 0 ?st sample_world = (st', w')" by (metis surj_pair)
  have x: "execute_pointer (mem_executor None None) mem_sys ''i'' two_steps ?reg None 0 ?st sample_world = (Inr st', w')"
    unfolding execute_pointer_def Let_def f option.case t sum.case bool.case ps by simp
  from delay_step_never_completes[OF x l f t] x show ?thesis by blast
qed

end
