(* ===== verification/Definitions.thy ===== *)
theory Definitions
  imports Executor_Correct
begin

text \<open>
  Well-formed workflow definitions: step ids are unique and every reference (outcome, child,
  compensation) points to a step. The executor keeps the pointers of an instance at steps of such a
  definition, so that it never returns \<open>StepNotFound\<close>; the builder and the YAML compiler are shown
  elsewhere to produce such definitions.
\<close>

definition step_refs :: "workflow_step \<Rightarrow> nat set" where
  "step_refs s =
     so_next_step ` set (ws_outcomes s) \<union> set (ws_children s) \<union> set_option (ws_compensation_step_id s)"

definition definition_ok :: "workflow_definition \<Rightarrow> bool" where
  "definition_ok d \<longleftrightarrow>
     distinct (map ws_id (wd_steps d)) \<and>
     (\<forall>s \<in> set (wd_steps d). step_refs s \<subseteq> ws_id ` set (wd_steps d))"

definition steps_known :: "workflow_definition \<Rightarrow> execution_pointer list \<Rightarrow> bool" where
  "steps_known d ps \<longleftrightarrow> (\<forall>p \<in> set ps. ep_step_id p \<in> ws_id ` set (wd_steps d))"

lemma find_step_unique:
  assumes "distinct (map ws_id (wd_steps d))" and "s \<in> set (wd_steps d)"
  shows "find_step d (ws_id s) = Some s"
proof (cases "find_step d (ws_id s)")
  case None
  with assms(2) show ?thesis by (auto simp: find_step_None_iff)
next
  case (Some s')
  from find_step_Some[OF this] assms show ?thesis using Some by (metis distinct_map inj_onD)
qed

lemma steps_known_find: "steps_known d ps \<Longrightarrow> p \<in> set ps \<Longrightarrow> find_step d (ep_step_id p) \<noteq> None"
  by (auto simp: steps_known_def find_step_None_iff)

lemma definition_ok_refs:
  "definition_ok d \<Longrightarrow> find_step d i = Some s \<Longrightarrow> j \<in> step_refs s \<Longrightarrow> j \<in> ws_id ` set (wd_steps d)"
  by (auto simp: definition_ok_def dest!: find_step_Some)

lemma steps_known_step:
  assumes "steps_known d ps" and "i < length ps" and "ep_step_id p' = ep_step_id (ps ! i)" and "steps_known d new"
  shows "steps_known d (ps[i := p'] @ new)"
  using assms by (auto simp: steps_known_def dest!: set_update_subset_insert[THEN subsetD])

lemma process_result_steps:
  assumes "process_result S r p d wid w = ((p', pr), w')" and "definition_ok d"
  shows "steps_known d (pr_new_pointers pr)"
proof -
  have proceed: "steps_known d new" if "process_proceed S r p d w = ((q, new), w1)" for q new w1
  proof -
    have "ep_step_id x \<in> ws_id ` set (wd_steps d)" if x: "x \<in> set new" for x
    proof -
      from process_proceed_fields[OF \<open>process_proceed S r p d w = ((q, new), w1)\<close>]
      have m: "map ep_step_id new = (case and_then (find_step d (ep_step_id p))
          (\<lambda>s. find_next_step s (er_outcome_value r)) of None \<Rightarrow> [] | Some i \<Rightarrow> [i])" by blast
      from x have "ep_step_id x \<in> set (map ep_step_id new)" by simp
      then obtain s where s: "find_step d (ep_step_id p) = Some s"
        "find_next_step s (er_outcome_value r) = Some (ep_step_id x)"
        unfolding m by (cases "find_step d (ep_step_id p)") (auto split: option.splits)
      from find_next_step_mem[OF s(2)] have "ep_step_id x \<in> step_refs s" by (force simp: step_refs_def)
      with definition_ok_refs[OF assms(2) s(1)] show ?thesis by blast
    qed
    then show ?thesis by (simp add: steps_known_def)
  qed
  have branch: "steps_known d new" if "process_branch S r vs p d w = ((q, new), w1)" for vs q new w1
  proof -
    from process_branch_fields[OF that] have "set (map ep_step_id new) \<subseteq>
        (case find_step d (ep_step_id p) of None \<Rightarrow> {} | Some s \<Rightarrow> set (ws_children s))"
      by (auto split: option.splits)
    also have "\<dots> \<subseteq> ws_id ` set (wd_steps d)"
      using definition_ok_refs[OF assms(2)] by (auto simp: step_refs_def split: option.splits)
    finally show ?thesis by (auto simp: steps_known_def)
  qed
  from assms(1) show ?thesis
    by (auto simp: process_result_def steps_known_def[of d "[]"] split: if_splits prod.splits option.splits
        dest!: proceed branch)
qed

lemma handle_error_steps:
  assumes "handle_error S p d w = ((p', h), w')" and "definition_ok d"
  shows "steps_known d (eh_new_pointers h)"
  using assms(1) definition_ok_refs[OF assms(2)]
  by (auto simp: handle_error_def Let_def steps_known_def step_refs_def bind_eq_Some_conv
      split: if_splits prod.splits option.splits error_behavior.splits dest!: new_pointer_fields)

lemma skip_pointer_steps:
  assumes "skip_pointer S d step i inst w = (inst', w')" and "step_refs step \<subseteq> ws_id ` set (wd_steps d)"
    and "steps_known d (wi_execution_pointers inst)" and "i < length (wi_execution_pointers inst)"
  shows "steps_known d (wi_execution_pointers inst')"
proof -
  let ?p = "wi_execution_pointers inst ! i"
  obtain now w1 where now: "utc_now S w = (now, w1)" by (metis surj_pair)
  let ?p' = "?p\<lparr>ep_status := Skipped, ep_active := False, ep_end_time := Some now\<rparr>"
  obtain new where ps: "wi_execution_pointers inst' = (wi_execution_pointers inst)[i := ?p'] @ new"
    and new: "steps_known d new"
  proof (cases "ws_outcomes step")
    case Nil
    with assms now that[of "[]"] show ?thesis by (auto simp: skip_pointer_def steps_known_def)
  next
    case (Cons oc ocs)
    obtain q w2 where q: "new_pointer S d (so_next_step oc) (ep_id ?p) (ep_scope ?p) w1 = (q, w2)"
      by (metis surj_pair)
    have "so_next_step oc \<in> ws_id ` set (wd_steps d)" using assms(2) Cons by (auto simp: step_refs_def)
    with assms now Cons that[of "[q]"] q new_pointer_fields[OF q] show ?thesis
      by (auto simp: skip_pointer_def steps_known_def)
  qed
  from steps_known_step[OF assms(3,4) _ new, of ?p'] show ?thesis unfolding ps by simp
qed

lemma apply_result_steps:
  assumes "apply_result E S d step i r st w = (st', w')" and "definition_ok d"
    and "steps_known d (wi_execution_pointers (lp_workflow st))"
    and "i < length (wi_execution_pointers (lp_workflow st))"
  shows "steps_known d (wi_execution_pointers (lp_workflow st'))"
proof -
  let ?inst = "lp_workflow st"
  let ?w = "publish_lifecycle E S ?inst (LStepCompleted (ws_id step) (ws_name step)) w"
  obtain p' pr w1 where pr: "process_result S r (wi_execution_pointers ?inst ! i) d (wi_id ?inst) ?w = ((p', pr), w1)"
    by (metis surj_pair)
  with assms(1) have ps: "wi_execution_pointers (lp_workflow st') =
      (wi_execution_pointers ?inst)[i := p'] @ pr_new_pointers pr"
    by (auto simp: apply_result_def Let_def)
  show ?thesis unfolding ps
    by (rule steps_known_step[OF assms(3,4) process_result_keeps(2)[OF pr] process_result_steps[OF pr assms(2)]])
qed

lemma apply_error_steps:
  assumes "apply_error E S wid d i e st w = (st', w')" and "definition_ok d"
    and "steps_known d (wi_execution_pointers (lp_workflow st))"
    and "i < length (wi_execution_pointers (lp_workflow st))"
  shows "steps_known d (wi_execution_pointers (lp_workflow st'))"
proof -
  let ?inst = "lp_workflow st"
  obtain now w1 where now: "utc_now S (publish_lifecycle E S ?inst (LError e) w) = (now, w1)"
    by (metis surj_pair)
  obtain p' h w2 where h: "handle_error S (wi_execution_pointers ?inst ! i) d w1 = ((p', h), w2)"
    by (metis surj_pair)
  from assms(1) now h have ps: "wi_execution_pointers (lp_workflow st') =
      (wi_execution_pointers ?inst)[i := p'] @ eh_new_pointers h"
    by (auto simp: apply_error_def Let_def split: option.splits prod.splits if_splits)
  show ?thesis unfolding ps
    by (rule steps_known_step[OF assms(3,4) handle_error_keeps(2)[OF h] handle_error_steps[OF h assms(2)]])
qed

lemma perform_step_steps:
  assumes "perform_step E S wid d host step body i st w = (st', w')" and "definition_ok d"
    and "steps_known d (wi_execution_pointers (lp_workflow st))"
    and "i < length (wi_execution_pointers (lp_workflow st))"
  shows "steps_known d (wi_execution_pointers (lp_workflow st'))"
proof -
  obtain inst1 w1 where st: "start_pointer S i (lp_workflow st) w = (inst1, w1)" by (metis surj_pair)
  from start_pointer_fields(1)[OF st assms(4)] obtain p1 where
    ps1: "wi_execution_pointers inst1 = (wi_execution_pointers (lp_workflow st))[i := p1] @ []"
    and p1: "ep_step_id p1 = ep_step_id (wi_execution_pointers (lp_workflow st) ! i)" by (auto simp: same_pointer_def)
  have k: "steps_known d (wi_execution_pointers inst1)"
    unfolding ps1 using assms(3,4) p1 by (intro steps_known_step) (simp_all add: steps_known_def)
  let ?st1 = "st\<lparr>lp_workflow := inst1\<rparr>"
  from assms(1) st have "(\<exists>r w2. apply_result E S d step i r ?st1 w2 = (st', w')) \<or>
      (\<exists>e w2. apply_error E S wid d i e ?st1 w2 = (st', w'))"
    by (auto simp: perform_step_def Let_def split: prod.splits sum.splits)
  with k assms(2,4) ps1 show ?thesis
    by (auto dest: apply_result_steps apply_error_steps)
qed

lemma execute_pointer_steps:
  assumes "execute_pointer E S wid d reg host i st w = (r, w')" and "definition_ok d"
    and "steps_known d (wi_execution_pointers (lp_workflow st))"
    and "i < length (wi_execution_pointers (lp_workflow st))"
  shows "r \<noteq> Inl (StepNotFound k) \<and>
    (\<forall>st'. r = Inr st' \<longrightarrow> steps_known d (wi_execution_pointers (lp_workflow st')) \<and>
       length (wi_execution_pointers (lp_workflow st)) \<le> length (wi_execution_pointers (lp_workflow st')))"
proof -
  let ?inst = "lp_workflow st"
  from steps_known_find[OF assms(3)] assms(4) obtain step where
    f: "find_step d (ep_step_id (wi_execution_pointers ?inst ! i)) = Some step" by fastforce
  have refs: "step_refs step \<subseteq> ws_id ` set (wd_steps d)"
    using definition_ok_refs[OF assms(2) f] by auto
  show ?thesis
  proof (cases "case ws_when step of None \<Rightarrow> Inr True | Some c \<Rightarrow> evaluate c (wi_data ?inst)")
    case (Inl e)
    with assms(1) f show ?thesis
      by (auto simp: execute_pointer_def Let_def split: option.splits dest!: evaluate_error)
  next
    case (Inr b)
    show ?thesis
    proof (cases b)
      case True
      with Inr assms(1) f have "(\<exists>m. r = Inl (StepExecution m)) \<or>
          (\<exists>body st'. perform_step E S wid d host step body i st w = (st', w') \<and> r = Inr st')"
        by (auto simp: execute_pointer_def Let_def split: option.splits prod.splits)
      then show ?thesis
        by (auto dest: perform_step_steps[OF _ assms(2-4)] perform_step_length[OF _ assms(4)])
    next
      case False
      with Inr assms(1) f obtain inst' where sk: "skip_pointer S d step i ?inst w = (inst', w')"
        and r: "r = Inr (st\<lparr>lp_workflow := inst'\<rparr>)"
        by (auto simp: execute_pointer_def Let_def split: prod.splits)
      have "length (wi_execution_pointers ?inst) \<le> length (wi_execution_pointers inst')"
        using skip_pointer_evolve(1)[OF sk assms(4)] by (simp add: pointers_evolve_def)
      with skip_pointer_steps[OF sk refs assms(3,4)] r show ?thesis by simp
    qed
  qed
qed

lemma execute_pointers_steps:
  assumes "execute_pointers E S wid d reg host is st w = (r, w')" and "definition_ok d"
    and "steps_known d (wi_execution_pointers (lp_workflow st))"
    and "\<And>i. i \<in> set is \<Longrightarrow> i < length (wi_execution_pointers (lp_workflow st))"
  shows "r \<noteq> Inl (StepNotFound k) \<and>
    (\<forall>st'. r = Inr st' \<longrightarrow> steps_known d (wi_execution_pointers (lp_workflow st')))"
  using assms
proof (induction "is" arbitrary: st w)
  case (Cons i "is")
  obtain r1 w1 where s1: "execute_pointer E S wid d reg host i st w = (r1, w1)" by (metis surj_pair)
  note e1 = execute_pointer_steps[OF s1 Cons.prems(2,3) Cons.prems(4)[of i, simplified]]
  show ?case
  proof (cases r1)
    case (Inl e)
    with Cons.prems(1) s1 e1 show ?thesis by auto
  next
    case (Inr st1)
    with Cons.prems(1) s1 have s2: "execute_pointers E S wid d reg host is st1 w1 = (r, w')" by simp
    from e1 Inr have k1: "steps_known d (wi_execution_pointers (lp_workflow st1))"
      and l1: "length (wi_execution_pointers (lp_workflow st)) \<le> length (wi_execution_pointers (lp_workflow st1))"
      by auto
    from Cons.prems(4) l1 have "\<And>j. j \<in> set is \<Longrightarrow> j < length (wi_execution_pointers (lp_workflow st1))"
      by fastforce
    from Cons.IH[OF s2 Cons.prems(2) k1 this] show ?thesis .
  qed
qed auto

text \<open>In memory, the end of a pass cannot fail.\<close>

lemma mem_finish_ok: "\<exists>w'. finish_execution (mem_executor l a) S wid st w = (Inr (), w')"
  by (auto simp: finish_execution_def store_instance_def mem_ops Let_def split: prod.splits)

text \<open>
  C3: references never dangle at run time. For a well-formed definition and an instance whose
  pointers are at its steps, a pass never ends in \<open>StepNotFound\<close>, and when it succeeds every
  pointer of the stored instance is again at a step of the definition.
\<close>

theorem execute_stays_in_definition:
  assumes "definition_ok d" and "wid \<notin> mw_locks w" and "mem_stored w wid = Some inst"
    and "wi_id inst = wid" and "wi_status inst = Runnable" and "steps_known d (wi_execution_pointers inst)"
    and "execute (mem_executor l a) S wid d reg host w = (r, w')"
  shows "r \<noteq> Inl (StepNotFound k) \<and>
    (r = Inr () \<longrightarrow> (\<exists>inst'. mem_stored w' wid = Some inst' \<and> steps_known d (wi_execution_pointers inst')))"
proof -
  let ?E = "mem_executor l a" and ?w1 = "w\<lparr>mw_locks := insert wid (mw_locks w)\<rparr>"
  obtain now w3 where now: "utc_now S ?w1 = (now, w3)" by (metis surj_pair)
  let ?st = "\<lparr>lp_workflow = inst, lp_subscriptions = [], lp_errors = []\<rparr>"
  let ?is = "runnable_indices (wi_execution_pointers inst) now"
  obtain x w4 where ex: "execute_pointers ?E S wid d reg host ?is ?st w3 = (x, w4)" by (metis surj_pair)
  from execute_pointers_steps[OF ex assms(1)] assms(6) runnable_indices_props(2)
  have x: "x \<noteq> Inl (StepNotFound k)" "\<And>st'. x = Inr st' \<Longrightarrow> steps_known d (wi_execution_pointers (lp_workflow st'))"
    by auto
  have g: "get_workflow_instance mem_persistence wid ?w1 = (Inr inst, ?w1)"
    using assms(3) by (simp add: mem_get_workflow_instance_def mem_stored_def ok_or_def)
  have inner: "execute_inner ?E S wid d reg host ?w1 =
      (case x of Inl e \<Rightarrow> (Inl e, w4) | Inr st \<Rightarrow> finish_execution ?E S wid st w4)"
    using g now ex assms(5) by (simp add: execute_inner_def split: sum.splits)
  show ?thesis
  proof (cases x)
    case (Inl e)
    with inner assms(2,7) x show ?thesis by (auto simp: execute_def mem_acquire_lock_def split: prod.splits)
  next
    case (Inr st')
    from execute_pointers_evolve[OF ex[unfolded Inr]] runnable_indices_props assms(4)
    have wid: "wi_id (lp_workflow st') = wid"
      by (auto simp: header_evolves_def dest: is_pointer_runnable_not_final)
    obtain w5 where f: "finish_execution ?E S wid st' w4 = (Inr (), w5)" using mem_finish_ok by blast
    from mem_exec.finish_execution_stored[OF f wid] x(2)[OF Inr]
    have "\<exists>inst'. mem_stored w5 wid = Some inst' \<and> steps_known d (wi_execution_pointers inst')" by auto
    moreover have "r = Inr ()" "w' = snd (mem_release_lock wid w5)"
      using inner Inr f assms(2,7) by (auto simp: execute_def mem_acquire_lock_def split: prod.splits)
    ultimately show ?thesis by (simp add: mem_release_lock_def mem_stored_def)
  qed
qed

theorem execute_stays_in_definition_witness:
  "\<exists>inst'. mem_stored (snd sample_run) ''i'' = Some inst' \<and> steps_known two_steps (wi_execution_pointers inst')"
proof -
  have d: "definition_ok two_steps"
    by (simp add: definition_ok_def step_refs_def two_steps_def workflow_step_new_def workflow_definition_new_def)
  have k: "steps_known two_steps (wi_execution_pointers sample_instance)"
    by (simp add: steps_known_def two_steps_def sample_instance_def workflow_step_new_def)
  from execute_stays_in_definition[OF d sample_world_facts(1-4) k sample_run_eq] show ?thesis by blast
qed

end
