(* ===== verification/Builder.thy ===== *)
theory Builder
  imports Primitives Definitions
begin

text \<open>
  The fluent builder of \<open>wfe-core/src/builder\<close>. A \<open>StepBuilder\<close> is the workflow builder it owns
  with the id of its current step. Type parameters of the methods appear as the type name they
  contribute; the closures that build children are functions on the builder. Every operation
  keeps the builder invariant (ids are positions, references are in range), so what \<open>build\<close>
  returns is a well-formed definition.
\<close>

section \<open>Workflow builder\<close>

record workflow_builder =
  wb_steps :: "workflow_step list"
  wb_last_step :: "nat option"
  wb_inline_closures :: "(nat \<times> execution_result) list"
  wb_default_error_behavior :: "error_behavior option"

text \<open>An inline closure takes no argument: it is the result it returns.\<close>

definition workflow_builder_new :: workflow_builder where
  "workflow_builder_new =
     \<lparr>wb_steps = [], wb_last_step = None, wb_inline_closures = [], wb_default_error_behavior = None\<rparr>"

definition builder_default_error_behavior :: "error_behavior \<Rightarrow> workflow_builder \<Rightarrow> workflow_builder" where
  "builder_default_error_behavior b wb = wb\<lparr>wb_default_error_behavior := Some b\<rparr>"

definition add_step :: "string \<Rightarrow> workflow_builder \<Rightarrow> nat \<times> workflow_builder" where
  "add_step step_type wb =
     (let i = length (wb_steps wb)
      in (i, wb\<lparr>wb_steps := wb_steps wb @ [workflow_step_new i step_type]\<rparr>))"

definition update_step :: "nat \<Rightarrow> (workflow_step \<Rightarrow> workflow_step) \<Rightarrow> workflow_builder \<Rightarrow> workflow_builder" where
  "update_step i f wb =
     (if i < length (wb_steps wb) then wb\<lparr>wb_steps := (wb_steps wb)[i := f (wb_steps wb ! i)]\<rparr> else wb)"

definition add_step_typed :: "string \<Rightarrow> string \<Rightarrow> json option \<Rightarrow> workflow_builder \<Rightarrow> nat \<times> workflow_builder" where
  "add_step_typed step_type nm config wb =
     (let (i, wb) = add_step step_type wb;
          wb = update_step i (\<lambda>s. s\<lparr>ws_name := Some nm\<rparr>) wb;
          wb = (case config of None \<Rightarrow> wb | Some cfg \<Rightarrow> update_step i (\<lambda>s. s\<lparr>ws_step_config := Some cfg\<rparr>) wb)
      in (i, wb))"

definition wire_outcome :: "nat \<Rightarrow> nat \<Rightarrow> json option \<Rightarrow> workflow_builder \<Rightarrow> workflow_builder" where
  "wire_outcome from_step to_step value wb =
     update_step from_step
       (\<lambda>s. s\<lparr>ws_outcomes := ws_outcomes s @ [\<lparr>so_next_step = to_step, so_label = None, so_value = value\<rparr>]\<rparr>) wb"

definition add_child :: "nat \<Rightarrow> nat \<Rightarrow> workflow_builder \<Rightarrow> workflow_builder" where
  "add_child parent child wb = update_step parent (\<lambda>s. s\<lparr>ws_children := ws_children s @ [child]\<rparr>) wb"

definition build :: "workflow_builder \<Rightarrow> string \<Rightarrow> u32 \<Rightarrow> workflow_definition" where
  "build wb i version =
     (let d = (workflow_definition_new i version)\<lparr>wd_steps := wb_steps wb\<rparr>
      in case wb_default_error_behavior wb of
           None \<Rightarrow> d | Some eb \<Rightarrow> d\<lparr>wd_default_error_behavior := eb\<rparr>)"

definition build_with_closures ::
  "workflow_builder \<Rightarrow> string \<Rightarrow> u32 \<Rightarrow> workflow_definition \<times> (nat \<times> execution_result) list" where
  "build_with_closures wb i version = (build wb i version, wb_inline_closures wb)"

definition inline_step_type :: string where
  "inline_step_type = ''wfe_core::builder::inline_step::InlineStep''"

definition inline_run :: "execution_result \<Rightarrow> 'w step_context \<Rightarrow> execution_result res" where
  "inline_run r c = Inr r"

text \<open>The loop that registers the closures, under one key per step.\<close>

definition inline_key :: "nat \<Rightarrow> string" where
  "inline_key step_id = inline_step_type @ ''::'' @ show_nat step_id"

definition register_inline ::
  "nat \<times> execution_result \<Rightarrow> 'w step_registry \<times> workflow_definition \<Rightarrow> 'w step_registry \<times> workflow_definition" where
  "register_inline entry acc =
     (let (step_id, closure) = entry; (registry, d) = acc; key = inline_key step_id;
          d = (if step_id < length (wd_steps d)
               then d\<lparr>wd_steps := (wd_steps d)[step_id := (wd_steps d ! step_id)\<lparr>ws_step_type := key\<rparr>]\<rparr>
               else d)
      in (register_factory registry key (pure_body (inline_run closure)), d))"

definition register_inline_steps ::
  "workflow_builder \<Rightarrow> 'w step_registry \<Rightarrow> string \<Rightarrow> u32 \<Rightarrow> 'w step_registry \<times> workflow_definition" where
  "register_inline_steps wb registry i version =
     fold register_inline (wb_inline_closures wb) (registry, build wb i version)"

section \<open>Step builder\<close>

record step_builder =
  sb_builder :: workflow_builder
  sb_step_id :: nat

definition step_builder_new :: "workflow_builder \<Rightarrow> nat \<Rightarrow> step_builder" where
  "step_builder_new wb i = \<lparr>sb_builder = wb, sb_step_id = i\<rparr>"

definition start_with :: "string \<Rightarrow> workflow_builder \<Rightarrow> step_builder" where
  "start_with step_type wb =
     (let (i, wb) = add_step step_type wb in step_builder_new (wb\<lparr>wb_last_step := Some i\<rparr>) i)"

definition configure :: "(workflow_step \<Rightarrow> workflow_step) \<Rightarrow> step_builder \<Rightarrow> step_builder" where
  "configure f sb = sb\<lparr>sb_builder := update_step (sb_step_id sb) f (sb_builder sb)\<rparr>"

definition step_name :: "string \<Rightarrow> step_builder \<Rightarrow> step_builder" where
  "step_name n sb = configure (\<lambda>s. s\<lparr>ws_name := Some n\<rparr>) sb"

definition external_id :: "string \<Rightarrow> step_builder \<Rightarrow> step_builder" where
  "external_id i sb = configure (\<lambda>s. s\<lparr>ws_external_id := Some i\<rparr>) sb"

definition on_error :: "error_behavior \<Rightarrow> step_builder \<Rightarrow> step_builder" where
  "on_error b sb = configure (\<lambda>s. s\<lparr>ws_error_behavior := Some b\<rparr>) sb"

definition config :: "json \<Rightarrow> step_builder \<Rightarrow> step_builder" where
  "config cfg sb = configure (\<lambda>s. s\<lparr>ws_step_config := Some cfg\<rparr>) sb"

definition compensate_with :: "string \<Rightarrow> step_builder \<Rightarrow> step_builder" where
  "compensate_with step_type sb =
     (let (comp_id, wb) = add_step step_type (sb_builder sb)
      in sb\<lparr>sb_builder := update_step (sb_step_id sb) (\<lambda>s. s\<lparr>ws_compensation_step_id := Some comp_id\<rparr>) wb\<rparr>)"

text \<open>The start that every chaining method shares: add the step and wire an outcome to it.\<close>

definition chain :: "string \<Rightarrow> step_builder \<Rightarrow> nat \<times> workflow_builder" where
  "chain step_type sb =
     (let (next_id, wb) = add_step step_type (sb_builder sb)
      in (next_id, wire_outcome (sb_step_id sb) next_id None wb))"

definition step_then :: "string \<Rightarrow> step_builder \<Rightarrow> step_builder" where
  "step_then step_type sb =
     (let (next_id, wb) = chain step_type sb in step_builder_new (wb\<lparr>wb_last_step := Some next_id\<rparr>) next_id)"

definition then_fn :: "execution_result \<Rightarrow> step_builder \<Rightarrow> step_builder" where
  "then_fn f sb =
     (let (next_id, wb) = chain inline_step_type sb;
          wb = wb\<lparr>wb_last_step := Some next_id, wb_inline_closures := AList.update next_id f (wb_inline_closures wb)\<rparr>
      in step_builder_new wb next_id)"

definition wait_for :: "string \<Rightarrow> string \<Rightarrow> step_builder \<Rightarrow> step_builder" where
  "wait_for event_name event_key sb =
     (let (next_id, wb) = chain ''wfe_core::primitives::wait_for::WaitForStep'' sb;
          wb = wb\<lparr>wb_last_step := Some next_id\<rparr>;
          cfg = JObject [(''event_key'', JString event_key), (''event_name'', JString event_name)]
      in step_builder_new (update_step next_id (\<lambda>s. s\<lparr>ws_step_config := Some cfg\<rparr>) wb) next_id)"

definition delay :: "duration \<Rightarrow> step_builder \<Rightarrow> step_builder" where
  "delay dur sb =
     (let (next_id, wb) = chain ''wfe_core::primitives::delay::DelayStep'' sb;
          wb = wb\<lparr>wb_last_step := Some next_id\<rparr>;
          cfg = JObject [(''duration_millis'', JNumber (PosInt (word_of_nat (as_millis dur))))]
      in step_builder_new (update_step next_id (\<lambda>s. s\<lparr>ws_step_config := Some cfg\<rparr>) wb) next_id)"

text \<open>Run the closure and register the steps it added as children.\<close>

definition build_children :: "nat \<Rightarrow> (workflow_builder \<Rightarrow> workflow_builder) \<Rightarrow> workflow_builder \<Rightarrow> workflow_builder" where
  "build_children container f wb =
     (let before_count = length (wb_steps wb); wb = f wb; after_count = length (wb_steps wb)
      in fold (add_child container) [before_count..<after_count] wb)"

definition container_do ::
  "string \<Rightarrow> (workflow_builder \<Rightarrow> workflow_builder) \<Rightarrow> step_builder \<Rightarrow> step_builder" where
  "container_do step_type f sb =
     (let (c, wb) = chain step_type sb; wb = build_children c f wb
      in step_builder_new (wb\<lparr>wb_last_step := Some c\<rparr>) c)"

definition if_do :: "(workflow_builder \<Rightarrow> workflow_builder) \<Rightarrow> step_builder \<Rightarrow> step_builder" where
  "if_do f sb = container_do ''wfe_core::primitives::if_step::IfStep'' f sb"

definition while_do :: "(workflow_builder \<Rightarrow> workflow_builder) \<Rightarrow> step_builder \<Rightarrow> step_builder" where
  "while_do f sb = container_do ''wfe_core::primitives::while_step::WhileStep'' f sb"

definition for_each :: "(workflow_builder \<Rightarrow> workflow_builder) \<Rightarrow> step_builder \<Rightarrow> step_builder" where
  "for_each f sb = container_do ''wfe_core::primitives::foreach_step::ForEachStep'' f sb"

definition saga :: "(workflow_builder \<Rightarrow> workflow_builder) \<Rightarrow> step_builder \<Rightarrow> step_builder" where
  "saga f sb =
     (let (saga_id, wb) = add_step ''wfe_core::primitives::saga_container::SagaContainerStep'' (sb_builder sb);
          wb = update_step saga_id (\<lambda>s. s\<lparr>ws_saga := True\<rparr>) wb;
          wb = wire_outcome (sb_step_id sb) saga_id None wb;
          wb = build_children saga_id f wb
      in step_builder_new (wb\<lparr>wb_last_step := Some saga_id\<rparr>) saga_id)"

record parallel_builder =
  pb_builder :: workflow_builder
  pb_container_id :: nat

definition branch :: "(workflow_builder \<Rightarrow> workflow_builder) \<Rightarrow> parallel_builder \<Rightarrow> parallel_builder" where
  "branch f pb = pb\<lparr>pb_builder := build_children (pb_container_id pb) f (pb_builder pb)\<rparr>"

definition parallel :: "(parallel_builder \<Rightarrow> parallel_builder) \<Rightarrow> step_builder \<Rightarrow> step_builder" where
  "parallel f sb =
     (let (seq_id, wb) = chain ''wfe_core::primitives::sequence::SequenceStep'' sb;
          pb = f \<lparr>pb_builder = wb, pb_container_id = seq_id\<rparr>
      in step_builder_new ((pb_builder pb)\<lparr>wb_last_step := Some seq_id\<rparr>) seq_id)"

definition end_workflow :: "step_builder \<Rightarrow> workflow_builder" where
  "end_workflow sb = sb_builder sb"

section \<open>The builder invariant\<close>

definition builder_ok :: "workflow_builder \<Rightarrow> bool" where
  "builder_ok wb \<longleftrightarrow>
     map ws_id (wb_steps wb) = [0..<length (wb_steps wb)] \<and>
     (\<forall>s \<in> set (wb_steps wb). step_refs s \<subseteq> {..<length (wb_steps wb)})"

text \<open>What the closures that build children do, as is shown below: they only add to a well-formed builder.\<close>

definition child_ok :: "(workflow_builder \<Rightarrow> workflow_builder) \<Rightarrow> bool" where
  "child_ok f \<longleftrightarrow>
     (\<forall>wb. builder_ok wb \<longrightarrow> builder_ok (f wb) \<and> length (wb_steps wb) \<le> length (wb_steps (f wb)))"

definition step_builder_ok :: "step_builder \<Rightarrow> bool" where
  "step_builder_ok sb \<longleftrightarrow> builder_ok (sb_builder sb) \<and> sb_step_id sb < length (wb_steps (sb_builder sb))"

lemma builder_ok_new: "builder_ok workflow_builder_new"
  by (simp add: builder_ok_def workflow_builder_new_def)

lemma builder_ok_upd [simp]:
  "builder_ok (wb\<lparr>wb_last_step := x\<rparr>) = builder_ok wb"
  "builder_ok (wb\<lparr>wb_last_step := x, wb_inline_closures := y\<rparr>) = builder_ok wb"
  "builder_ok (wb\<lparr>wb_default_error_behavior := z\<rparr>) = builder_ok wb"
  by (simp_all add: builder_ok_def)

lemma update_step_length [simp]: "length (wb_steps (update_step i f wb)) = length (wb_steps wb)"
  by (simp add: update_step_def)

lemma wire_child_length [simp]:
  "length (wb_steps (wire_outcome i j v wb)) = length (wb_steps wb)"
  "length (wb_steps (add_child i j wb)) = length (wb_steps wb)"
  by (simp_all add: wire_outcome_def add_child_def)

lemma builder_ok_update_step:
  assumes "builder_ok wb" and "\<And>s. ws_id (f s) = ws_id s"
    and "\<And>s. step_refs s \<subseteq> {..<length (wb_steps wb)} \<Longrightarrow> step_refs (f s) \<subseteq> {..<length (wb_steps wb)}"
  shows "builder_ok (update_step i f wb)"
proof (cases "i < length (wb_steps wb)")
  case True
  have "map ws_id ((wb_steps wb)[i := f (wb_steps wb ! i)]) = map ws_id (wb_steps wb)"
    using True assms(2) by (metis list_update_id map_update nth_map)
  moreover have "step_refs s \<subseteq> {..<length (wb_steps wb)}" if "s \<in> set ((wb_steps wb)[i := f (wb_steps wb ! i)])" for s
    using that assms(1,3) True set_update_subset_insert nth_mem unfolding builder_ok_def by fastforce
  ultimately show ?thesis using True assms(1) by (simp add: builder_ok_def update_step_def)
qed (simp add: update_step_def assms(1))

lemma builder_ok_set_config [simp]:
  "builder_ok wb \<Longrightarrow> builder_ok (update_step i (\<lambda>s. s\<lparr>ws_step_config := c\<rparr>) wb)"
  by (rule builder_ok_update_step) (simp_all add: step_refs_def)

lemma builder_ok_add_step:
  assumes "builder_ok wb" and "add_step t wb = (i, wb')"
  shows "builder_ok wb'" and "i = length (wb_steps wb)" and "length (wb_steps wb') = Suc (length (wb_steps wb))"
  using assms
  by (fastforce simp: add_step_def builder_ok_def workflow_step_new_def step_refs_def Let_def)+

lemma builder_ok_wire:
  "builder_ok wb \<Longrightarrow> j < length (wb_steps wb) \<Longrightarrow> builder_ok (wire_outcome i j v wb)"
  unfolding wire_outcome_def by (rule builder_ok_update_step) (auto simp: step_refs_def)

lemma builder_ok_add_child:
  "builder_ok wb \<Longrightarrow> j < length (wb_steps wb) \<Longrightarrow> builder_ok (add_child i j wb)"
  unfolding add_child_def by (rule builder_ok_update_step) (auto simp: step_refs_def)

lemma add_children_ok:
  "builder_ok wb \<Longrightarrow> set js \<subseteq> {..<length (wb_steps wb)} \<Longrightarrow>
     builder_ok (fold (add_child i) js wb) \<and> length (wb_steps (fold (add_child i) js wb)) = length (wb_steps wb)"
proof (induction js arbitrary: wb)
  case (Cons j js)
  then have "builder_ok (add_child i j wb)" by (simp add: builder_ok_add_child)
  with Cons.IH[OF this] Cons.prems show ?case by simp
qed simp

lemma builder_ok_children:
  assumes "builder_ok wb" and "child_ok f"
  shows "builder_ok (build_children c f wb)" and "length (wb_steps wb) \<le> length (wb_steps (build_children c f wb))"
proof -
  from assms have f: "builder_ok (f wb)" "length (wb_steps wb) \<le> length (wb_steps (f wb))"
    by (simp_all add: child_ok_def)
  have "set [length (wb_steps wb)..<length (wb_steps (f wb))] \<subseteq> {..<length (wb_steps (f wb))}" by auto
  from add_children_ok[OF f(1) this, of c] f(2)
  show "builder_ok (build_children c f wb)" "length (wb_steps wb) \<le> length (wb_steps (build_children c f wb))"
    by (simp_all add: build_children_def Let_def)
qed

lemma builder_ok_chain:
  assumes "step_builder_ok sb" and "chain t sb = (i, wb)"
  shows "builder_ok wb" and "i = length (wb_steps (sb_builder sb))" and "length (wb_steps wb) = Suc i"
proof -
  obtain j wb1 where a: "add_step t (sb_builder sb) = (j, wb1)" by fastforce
  from assms(1) have "builder_ok (sb_builder sb)" by (simp add: step_builder_ok_def)
  note b = builder_ok_add_step[OF this a]
  from assms(2) a have "i = j" "wb = wire_outcome (sb_step_id sb) j None wb1" by (auto simp: chain_def)
  with b builder_ok_wire[OF b(1)] show "builder_ok wb" "i = length (wb_steps (sb_builder sb))" "length (wb_steps wb) = Suc i"
    by simp_all
qed

lemma chain_ok:
  "step_builder_ok sb \<Longrightarrow> chain t sb = (i, wb) \<Longrightarrow>
     builder_ok wb \<and> i = length (wb_steps (sb_builder sb)) \<and> length (wb_steps wb) = Suc i"
  using builder_ok_chain by blast

lemma step_builder_ok_new [simp]:
  "step_builder_ok (step_builder_new wb i) \<longleftrightarrow> builder_ok wb \<and> i < length (wb_steps wb)"
  "sb_builder (step_builder_new wb i) = wb"
  by (simp_all add: step_builder_ok_def step_builder_new_def)

lemma build_steps [simp]: "wd_steps (build wb i v) = wb_steps wb"
  by (simp add: build_def Let_def split: option.splits)

lemma builder_build_ok:
  assumes "builder_ok wb"
  shows "definition_ok (build wb i v)"
proof -
  from assms have ok: "map ws_id (wb_steps wb) = [0..<length (wb_steps wb)]" by (simp add: builder_ok_def)
  then have "ws_id ` set (wb_steps wb) = {..<length (wb_steps wb)}" by (metis atLeast_upt list.set_map)
  with ok assms show ?thesis by (auto simp: definition_ok_def builder_ok_def)
qed

subsection \<open>An interface for builder methods\<close>

text \<open>
  The chaining methods share a contract: on a well-formed step builder they give a well-formed one
  with at least as many steps. Methods with this contract compose.
\<close>

locale builder_method =
  fixes m :: "step_builder \<Rightarrow> step_builder"
  assumes keeps_ok: "step_builder_ok sb \<Longrightarrow> step_builder_ok (m sb)"
    and adds: "step_builder_ok sb \<Longrightarrow> length (wb_steps (sb_builder sb)) \<le> length (wb_steps (sb_builder (m sb)))"
begin

lemma compose:
  assumes "builder_method m'"
  shows "builder_method (m' \<circ> m)"
proof
  fix sb assume sb: "step_builder_ok sb"
  from sb show "step_builder_ok ((m' \<circ> m) sb)"
    using builder_method.keeps_ok[OF assms] keeps_ok by simp
  from adds[OF sb] builder_method.adds[OF assms keeps_ok[OF sb]]
  show "length (wb_steps (sb_builder sb)) \<le> length (wb_steps (sb_builder ((m' \<circ> m) sb)))" by simp
qed

lemma build_ok:
  assumes "step_builder_ok sb"
  shows "definition_ok (build (end_workflow (m sb)) i v)"
  using keeps_ok[OF assms] by (simp add: step_builder_ok_def end_workflow_def builder_build_ok)

end

lemma configure_method:
  assumes "\<And>s. ws_id (f s) = ws_id s" and "\<And>s. step_refs (f s) = step_refs s"
  shows "builder_method (configure f)"
  by unfold_locales
    (auto simp: step_builder_ok_def configure_def assms intro!: builder_ok_update_step)

interpretation name_method: builder_method "step_name n" for n
  unfolding step_name_def by (rule configure_method) (simp_all add: step_refs_def)

interpretation external_id_method: builder_method "external_id x" for x
  unfolding external_id_def by (rule configure_method) (simp_all add: step_refs_def)

interpretation on_error_method: builder_method "on_error b" for b
  unfolding on_error_def by (rule configure_method) (simp_all add: step_refs_def)

interpretation config_method: builder_method "config c" for c
  unfolding config_def by (rule configure_method) (simp_all add: step_refs_def)

interpretation then_method: builder_method "step_then t" for t
  by unfold_locales (auto simp: step_then_def split: prod.splits dest!: chain_ok)

interpretation then_fn_method: builder_method "then_fn r" for r
  by unfold_locales (auto simp: then_fn_def Let_def split: prod.splits dest!: chain_ok)

interpretation compensate_method: builder_method "compensate_with t" for t
proof
  fix sb assume sb: "step_builder_ok sb"
  obtain i wb where a: "add_step t (sb_builder sb) = (i, wb)" by fastforce
  from sb have "builder_ok (sb_builder sb)" by (simp add: step_builder_ok_def)
  note b = builder_ok_add_step[OF this a]
  have "builder_ok (update_step (sb_step_id sb) (\<lambda>s. s\<lparr>ws_compensation_step_id := Some i\<rparr>) wb)"
    using b by (intro builder_ok_update_step) (auto simp: step_refs_def)
  with sb a b show "step_builder_ok (compensate_with t sb)"
    and "length (wb_steps (sb_builder sb)) \<le> length (wb_steps (sb_builder (compensate_with t sb)))"
    by (simp_all add: compensate_with_def step_builder_ok_def)
qed

interpretation wait_for_method: builder_method "wait_for n k" for n k
  by unfold_locales
    (auto simp: wait_for_def Let_def split: prod.splits dest!: chain_ok)

interpretation delay_method: builder_method "delay t" for t
  by unfold_locales
    (auto simp: delay_def Let_def split: prod.splits dest!: chain_ok)

lemma container_method: "child_ok f \<Longrightarrow> builder_method (container_do t f)"
proof unfold_locales
  fix sb assume f: "child_ok f" and sb: "step_builder_ok sb"
  obtain c wb where ch: "chain t sb = (c, wb)" by fastforce
  note b = builder_ok_chain[OF sb ch]
  from builder_ok_children[OF b(1) f, of c] b(2,3) ch
  show "step_builder_ok (container_do t f sb)"
    and "length (wb_steps (sb_builder sb)) \<le> length (wb_steps (sb_builder (container_do t f sb)))"
    by (auto simp: container_do_def step_builder_ok_def step_builder_new_def Let_def)
qed

lemma saga_method: "child_ok f \<Longrightarrow> builder_method (saga f)"
proof unfold_locales
  fix sb assume f: "child_ok f" and sb: "step_builder_ok sb"
  obtain c wb where a: "add_step ''wfe_core::primitives::saga_container::SagaContainerStep'' (sb_builder sb) = (c, wb)"
    by fastforce
  from sb have "builder_ok (sb_builder sb)" by (simp add: step_builder_ok_def)
  note b = builder_ok_add_step[OF this a]
  let ?wb = "wire_outcome (sb_step_id sb) c None (update_step c (\<lambda>s. s\<lparr>ws_saga := True\<rparr>) wb)"
  have "builder_ok (update_step c (\<lambda>s. s\<lparr>ws_saga := True\<rparr>) wb)"
    using b(1) by (rule builder_ok_update_step) (simp_all add: step_refs_def)
  then have w: "builder_ok ?wb" by (rule builder_ok_wire) (simp add: b)
  from builder_ok_children[OF w f, of c] b(2,3) a
  show "step_builder_ok (saga f sb)"
    and "length (wb_steps (sb_builder sb)) \<le> length (wb_steps (sb_builder (saga f sb)))"
    by (auto simp: saga_def Let_def)
qed

definition branches_ok :: "(parallel_builder \<Rightarrow> parallel_builder) \<Rightarrow> bool" where
  "branches_ok f \<longleftrightarrow>
     (\<forall>pb. builder_ok (pb_builder pb) \<longrightarrow> builder_ok (pb_builder (f pb)) \<and>
        length (wb_steps (pb_builder pb)) \<le> length (wb_steps (pb_builder (f pb))))"

lemma branch_branches_ok: "child_ok f \<Longrightarrow> branches_ok (branch f)"
  by (simp add: branches_ok_def branch_def builder_ok_children)

lemma branches_ok_comp: "branches_ok f \<Longrightarrow> branches_ok g \<Longrightarrow> branches_ok (g \<circ> f)"
  unfolding branches_ok_def by (metis comp_apply order.trans)

lemma parallel_method: "branches_ok f \<Longrightarrow> builder_method (parallel f)"
proof unfold_locales
  fix sb assume f: "branches_ok f" and sb: "step_builder_ok sb"
  obtain c wb where ch: "chain ''wfe_core::primitives::sequence::SequenceStep'' sb = (c, wb)" by fastforce
  let ?pb = "f \<lparr>pb_builder = wb, pb_container_id = c\<rparr>"
  from f chain_ok[OF sb ch] have "builder_ok (pb_builder ?pb)" "Suc c \<le> length (wb_steps (pb_builder ?pb))"
    unfolding branches_ok_def by (metis parallel_builder.select_convs(1))+
  with chain_ok[OF sb ch] ch show "step_builder_ok (parallel f sb)"
    and "length (wb_steps (sb_builder sb)) \<le> length (wb_steps (sb_builder (parallel f sb)))"
    by (simp_all add: parallel_def Let_def)
qed

section \<open>Properties\<close>

text \<open>
  The closures that build children: they are lent the builder and call its public methods, on whatever condition. An
  outcome may only be wired to a step that exists by then; when the step it starts from does not exist, nothing is
  wired.
\<close>

inductive closure_calls :: "(workflow_builder \<Rightarrow> workflow_builder) \<Rightarrow> bool" where
  k_nothing: "closure_calls (\<lambda>wb. wb)"
| k_add_step: "closure_calls f \<Longrightarrow> closure_calls (\<lambda>wb. snd (add_step (t wb) (f wb)))"
| k_add_step_typed: "closure_calls f \<Longrightarrow> closure_calls (\<lambda>wb. snd (add_step_typed (t wb) (n wb) (c wb) (f wb)))"
| k_wire_outcome: "closure_calls f \<Longrightarrow> \<forall>wb. i wb < length (wb_steps (f wb)) \<longrightarrow> j wb < length (wb_steps (f wb)) \<Longrightarrow>
    closure_calls (\<lambda>wb. wire_outcome (i wb) (j wb) (v wb) (f wb))"
| k_cond: "closure_calls f \<Longrightarrow> closure_calls g \<Longrightarrow> closure_calls (\<lambda>wb. if P wb then f wb else g wb)"

inductive branch_calls :: "(parallel_builder \<Rightarrow> parallel_builder) \<Rightarrow> bool" where
  p_nothing: "branch_calls (\<lambda>pb. pb)"
| p_branch: "branch_calls g \<Longrightarrow> closure_calls f \<Longrightarrow> branch_calls (\<lambda>pb. branch f (g pb))"

text \<open>
  Everything that the public methods of the two builders can reach from an empty builder; \<open>end_workflow\<close> and
  \<open>start_with\<close> lead from one to the other.
\<close>

inductive assembled :: "workflow_builder \<Rightarrow> bool" and built :: "step_builder \<Rightarrow> bool" where
  a_new: "assembled workflow_builder_new"
| a_default: "assembled wb \<Longrightarrow> assembled (builder_default_error_behavior b wb)"
| a_add_step: "assembled wb \<Longrightarrow> assembled (snd (add_step t wb))"
| a_add_step_typed: "assembled wb \<Longrightarrow> assembled (snd (add_step_typed t n c wb))"
| a_wire_outcome: "assembled wb \<Longrightarrow> j < length (wb_steps wb) \<Longrightarrow> assembled (wire_outcome i j v wb)"
| a_end: "built sb \<Longrightarrow> assembled (end_workflow sb)"
| b_start: "assembled wb \<Longrightarrow> built (start_with t wb)"
| b_name: "built sb \<Longrightarrow> built (step_name n sb)"
| b_id: "built sb \<Longrightarrow> built (external_id x sb)"
| b_on_error: "built sb \<Longrightarrow> built (on_error b sb)"
| b_config: "built sb \<Longrightarrow> built (config c sb)"
| b_compensate: "built sb \<Longrightarrow> built (compensate_with t sb)"
| b_then: "built sb \<Longrightarrow> built (step_then t sb)"
| b_then_fn: "built sb \<Longrightarrow> built (then_fn r sb)"
| b_wait_for: "built sb \<Longrightarrow> built (wait_for n k sb)"
| b_delay: "built sb \<Longrightarrow> built (delay dur sb)"
| b_if: "built sb \<Longrightarrow> closure_calls f \<Longrightarrow> built (if_do f sb)"
| b_while: "built sb \<Longrightarrow> closure_calls f \<Longrightarrow> built (while_do f sb)"
| b_for_each: "built sb \<Longrightarrow> closure_calls f \<Longrightarrow> built (for_each f sb)"
| b_saga: "built sb \<Longrightarrow> closure_calls f \<Longrightarrow> built (saga f sb)"
| b_parallel: "built sb \<Longrightarrow> branch_calls g \<Longrightarrow> built (parallel g sb)"

lemma add_step_ok:
  "builder_ok wb \<Longrightarrow> builder_ok (snd (add_step t wb)) \<and> length (wb_steps (snd (add_step t wb))) = Suc (length (wb_steps wb))"
  using builder_ok_add_step(1,3) by (metis prod.collapse)

lemma add_step_typed_ok:
  assumes "builder_ok wb"
  shows "builder_ok (snd (add_step_typed t n c wb)) \<and>
    length (wb_steps (snd (add_step_typed t n c wb))) = Suc (length (wb_steps wb))"
proof -
  obtain i wb1 where a: "add_step t wb = (i, wb1)" by fastforce
  note b = builder_ok_add_step[OF assms a]
  have "builder_ok (update_step i (\<lambda>s. s\<lparr>ws_name := Some n\<rparr>) wb1)"
    by (rule builder_ok_update_step[OF b(1)]) (simp_all add: step_refs_def)
  with b(3) show ?thesis
    by (auto simp: add_step_typed_def a Let_def split: option.splits)
qed

lemma wire_outcome_missing: "\<not> i < length (wb_steps wb) \<Longrightarrow> wire_outcome i j v wb = wb"
  by (simp add: wire_outcome_def update_step_def)

lemma closure_calls_child_ok: "closure_calls f \<Longrightarrow> child_ok f"
proof (induction rule: closure_calls.induct)
  case (k_add_step f t)
  then show ?case using add_step_ok unfolding child_ok_def by (metis le_SucI)
next
  case (k_add_step_typed f t n c)
  then show ?case using add_step_typed_ok unfolding child_ok_def by (metis le_SucI)
next
  case (k_wire_outcome f i j v)
  then have "builder_ok (wire_outcome (i wb) (j wb) (v wb) (f wb))" if "builder_ok wb" for wb
    using that builder_ok_wire[of "f wb" "j wb" "i wb" "v wb"] wire_outcome_missing[of "i wb" "f wb"]
    by (cases "i wb < length (wb_steps (f wb))") (auto simp: child_ok_def)
  with k_wire_outcome show ?case by (simp add: child_ok_def)
qed (simp_all add: child_ok_def)

lemma branch_calls_ok: "branch_calls g \<Longrightarrow> branches_ok g"
proof (induction rule: branch_calls.induct)
  case (p_branch g f)
  from branches_ok_comp[OF p_branch.IH branch_branches_ok[OF closure_calls_child_ok[OF p_branch.hyps(2)]]]
  show ?case by (simp add: comp_def)
qed (simp add: branches_ok_def)

lemma start_with_ok: "builder_ok wb \<Longrightarrow> step_builder_ok (start_with t wb)"
  using builder_ok_add_step[of wb t] by (auto simp: start_with_def split: prod.splits)

lemma built_ok: "assembled wb \<Longrightarrow> builder_ok wb" "built sb \<Longrightarrow> step_builder_ok sb"
proof (induction rule: assembled_built.inducts)
  case (a_default wb b)
  then show ?case by (simp add: builder_default_error_behavior_def)
next
  case (a_end sb)
  then show ?case by (simp add: end_workflow_def step_builder_ok_def)
next
  case (b_if sb f)
  then show ?case unfolding if_do_def using closure_calls_child_ok container_method builder_method.keeps_ok by blast
next
  case (b_while sb f)
  then show ?case unfolding while_do_def using closure_calls_child_ok container_method builder_method.keeps_ok by blast
next
  case (b_for_each sb f)
  then show ?case unfolding for_each_def using closure_calls_child_ok container_method builder_method.keeps_ok by blast
next
  case (b_saga sb f)
  then show ?case using closure_calls_child_ok saga_method builder_method.keeps_ok by blast
next
  case (b_parallel sb g)
  then show ?case using branch_calls_ok parallel_method builder_method.keeps_ok by blast
qed (simp_all add: start_with_ok builder_ok_new builder_ok_wire add_step_ok add_step_typed_ok
      name_method.keeps_ok external_id_method.keeps_ok
      on_error_method.keeps_ok config_method.keeps_ok compensate_method.keeps_ok then_method.keeps_ok
      then_fn_method.keeps_ok wait_for_method.keeps_ok delay_method.keeps_ok)

text \<open>
  C13: the builders only produce well-formed definitions. However the public methods of the workflow builder and of
  the step builder are chained, with closures for children and branches that call the same methods in turn, the
  definition that is built has the positions of its steps as ids, and every outcome, child and compensation refers to a step of the
  definition; after a \<open>start_with\<close> it has a step. The one condition is on the callers of \<open>wire_outcome\<close>, which takes
  any number: the target is a step that exists when it is called. Writes to the public vector of
  steps that go around the methods are not considered.
\<close>

theorem built_definition_ok:
  assumes "assembled wb"
  shows "definition_ok (build wb i v) \<and>
    map ws_id (wd_steps (build wb i v)) = [0..<length (wd_steps (build wb i v))] \<and>
    (\<forall>sb. built sb \<and> wb = end_workflow sb \<longrightarrow> wd_steps (build wb i v) \<noteq> [])"
proof -
  have "wd_steps (build (end_workflow sb) i v) \<noteq> []" if "built sb" for sb
    using built_ok(2)[OF that] builder_build_ok[of "sb_builder sb" i v]
    by (auto simp: step_builder_ok_def end_workflow_def)
  with built_ok(1)[OF assms] builder_build_ok[of wb i v] show ?thesis
    by (auto simp: builder_ok_def)
qed

theorem built_definition_ok_witness:
  "definition_ok (build (end_workflow (compensate_with ''undo'' (step_then ''b''
     (if_do (\<lambda>wb. snd (add_step ''a'' wb)) (start_with ''s'' workflow_builder_new))))) ''wf'' 1)"
  by (rule built_definition_ok[OF a_end[OF b_compensate[OF b_then[OF b_if[OF b_start[OF a_new]
        k_add_step[OF k_nothing, of "\<lambda>_. ''a''"]]]]], THEN conjunct1])

text \<open>Without the condition an outcome leads nowhere.\<close>

lemma wire_outcome_unchecked:
  "\<not> definition_ok (build (wire_outcome 0 7 None (sb_builder (start_with ''s'' workflow_builder_new))) ''wf'' 1)"
  by (simp add: definition_ok_def build_def wire_outcome_def update_step_def start_with_def step_builder_new_def
      workflow_builder_new_def workflow_step_new_def step_refs_def add_step_def Let_def)

end
