(* ===== verification/Host.thy ===== *)
theory Host
  imports Primitives Builder
begin

text \<open>
  The workflow host: \<open>wfe/src/registry.rs\<close> (definitions by id and version), \<open>wfe/src/host.rs\<close>
  (starting, suspending, resuming and terminating instances, publishing and processing events, one
  iteration of each of the two background consumers) and \<open>wfe/src/host_builder.rs\<close>. The host's
  registries, which the sources keep behind read-write locks, are fields of the host record; the
  sleeps of the consumer loops and the shutdown token are left out.
\<close>

section \<open>Definition registry\<close>

type_synonym workflow_registry = "((string \<times> u32) \<times> workflow_definition) list"

definition registry_new :: workflow_registry where
  "registry_new = []"

definition registry_register :: "workflow_definition \<Rightarrow> workflow_registry \<Rightarrow> workflow_registry" where
  "registry_register d r = AList.update (wd_id d, wd_version d) d r"

text \<open>The definition with the highest version: \<open>max_by_key\<close> keeps the last maximum.\<close>

definition latest :: "workflow_registry \<Rightarrow> ((string \<times> u32) \<times> workflow_definition) option" where
  "latest r =
     fold (\<lambda>e acc. case acc of None \<Rightarrow> Some e | Some m \<Rightarrow> if snd (fst m) \<le> snd (fst e) then Some e else Some m)
       r None"

definition get_definition :: "workflow_registry \<Rightarrow> string \<Rightarrow> u32 option \<Rightarrow> workflow_definition option" where
  "get_definition r i version =
     (case version of
        Some v \<Rightarrow> map_of r (i, v)
      | None \<Rightarrow> map_option snd (latest (filter (\<lambda>((def_id, _), _). def_id = i) r)))"

definition is_registered :: "workflow_registry \<Rightarrow> string \<Rightarrow> u32 \<Rightarrow> bool" where
  "is_registered r i v = (map_of r (i, v) \<noteq> None)"

definition deregister :: "string \<Rightarrow> u32 \<Rightarrow> workflow_registry \<Rightarrow> bool \<times> workflow_registry" where
  "deregister i v r = (map_of r (i, v) \<noteq> None, AList.delete (i, v) r)"

definition get_all_definitions :: "workflow_registry \<Rightarrow> workflow_definition list" where
  "get_all_definitions r = map snd r"

section \<open>The host\<close>

record 'w service_provider =
  can_provision :: "service_definition list \<Rightarrow> bool"
  provision :: "string \<Rightarrow> service_definition list \<Rightarrow> ('w, service_endpoint list res) eff"
  teardown :: "string \<Rightarrow> ('w, unit res) eff"

record 'w workflow_host =
  wh_persistence :: "'w persistence_provider"
  wh_lock_provider :: "'w lock_provider"
  wh_queue_provider :: "'w queue_provider"
  wh_lifecycle :: "'w lifecycle_publisher option"
  wh_search :: "'w search_index option"
  wh_registry :: workflow_registry
  wh_step_registry :: "'w step_registry"
  wh_service_provider :: "'w service_provider option"
  wh_artifact_store :: "'w artifact_store option"
  wh_executor :: "'w workflow_executor"

record 'w host_builder =
  hb_persistence :: "'w persistence_provider option"
  hb_lock_provider :: "'w lock_provider option"
  hb_queue_provider :: "'w queue_provider option"
  hb_lifecycle :: "'w lifecycle_publisher option"
  hb_search :: "'w search_index option"
  hb_service_provider :: "'w service_provider option"
  hb_artifact_store :: "'w artifact_store option"

definition host_build :: "'w host_builder \<Rightarrow> 'w workflow_host res" where
  "host_build hb =
     (case hb_persistence hb of
        None \<Rightarrow> Inl (Other ''PersistenceProvider is required. Call .use_persistence() before .build().'')
      | Some persistence \<Rightarrow>
        case hb_lock_provider hb of
          None \<Rightarrow> Inl (Other ''DistributedLockProvider is required. Call .use_lock_provider() before .build().'')
        | Some lock_provider \<Rightarrow>
          case hb_queue_provider hb of
            None \<Rightarrow> Inl (Other ''QueueProvider is required. Call .use_queue_provider() before .build().'')
          | Some queue_provider \<Rightarrow>
              (let executor = executor_new persistence lock_provider queue_provider;
                   executor = (case hb_lifecycle hb of None \<Rightarrow> executor | Some l \<Rightarrow> with_lifecycle executor l);
                   executor = (case hb_search hb of None \<Rightarrow> executor | Some s \<Rightarrow> with_search executor s);
                   executor = (case hb_artifact_store hb of None \<Rightarrow> executor | Some a \<Rightarrow> with_artifact_store executor a)
               in Inr \<lparr>wh_persistence = persistence, wh_lock_provider = lock_provider,
                       wh_queue_provider = queue_provider, wh_lifecycle = hb_lifecycle hb,
                       wh_search = hb_search hb, wh_registry = registry_new,
                       wh_step_registry = step_registry_new,
                       wh_service_provider = hb_service_provider hb,
                       wh_artifact_store = hb_artifact_store hb, wh_executor = executor\<rparr>))"

definition register_workflow_definition :: "workflow_definition \<Rightarrow> 'w workflow_host \<Rightarrow> 'w workflow_host" where
  "register_workflow_definition d h = h\<lparr>wh_registry := registry_register d (wh_registry h)\<rparr>"

definition register_workflow ::
  "(workflow_builder \<Rightarrow> workflow_builder) \<Rightarrow> string \<Rightarrow> u32 \<Rightarrow> 'w workflow_host \<Rightarrow> workflow_definition \<times> 'w workflow_host" where
  "register_workflow builder_fn i version h =
     (let d = build (builder_fn workflow_builder_new) i version in (d, register_workflow_definition d h))"

definition register_step_factory :: "string \<Rightarrow> 'w step_body \<Rightarrow> 'w workflow_host \<Rightarrow> 'w workflow_host" where
  "register_step_factory key body h = h\<lparr>wh_step_registry := register_factory (wh_step_registry h) key body\<rparr>"

definition host_publish ::
  "'w workflow_host \<Rightarrow> 'w sys \<Rightarrow> string \<Rightarrow> string \<Rightarrow> u32 \<Rightarrow> lifecycle_event_type \<Rightarrow> 'w \<Rightarrow> 'w" where
  "host_publish h S wid def_id version t w =
     (case wh_lifecycle h of
        None \<Rightarrow> w
      | Some p \<Rightarrow>
          (let (now, w) = utc_now S w
           in snd (publish p (lifecycle_event_new now wid def_id version t) w)))"

subsection \<open>Starting workflows\<close>

definition shared_volume_json :: "shared_volume \<Rightarrow> json" where
  "shared_volume_json sv =
     JObject ((''mount_path'', JString (sv_mount_path sv)) #
       (case sv_size sv of None \<Rightarrow> [] | Some s \<Rightarrow> [(''size'', JString s)]))"

text \<open>\<open>WorkflowInstance::new\<close> draws the id first, then reads the clock.\<close>

definition create_instance :: "'w sys \<Rightarrow> string \<Rightarrow> u32 \<Rightarrow> json \<Rightarrow> ('w, workflow_instance) eff" where
  "create_instance S def_id version data w =
     (let (u, w) = uuid_v4 S w; (now, w) = utc_now S w
      in (workflow_instance_new u now def_id version data, w))"

definition numbered_name :: "string \<Rightarrow> u64 \<Rightarrow> string" where
  "numbered_name def_id n = def_id @ ''-'' @ show_nat (unat n)"

text \<open>The new instance: a pointer at step 0, and the shared volume of the definition in its data.\<close>

definition root_instance ::
  "'w sys \<Rightarrow> workflow_definition \<Rightarrow> string \<Rightarrow> u32 \<Rightarrow> json \<Rightarrow> ('w, workflow_instance) eff" where
  "root_instance S d def_id version data w =
     (let (inst, w) = create_instance S def_id version data w;
          (inst, w) =
            (case wd_steps d of
               [] \<Rightarrow> (inst, w)
             | s # _ \<Rightarrow>
                 (let (u, w) = uuid_v4 S w
                  in (inst\<lparr>wi_execution_pointers :=
                        [(execution_pointer_new u 0)\<lparr>ep_step_name := ws_name s\<rparr>]\<rparr>, w)))
      in (case wd_shared_volume d of
            None \<Rightarrow> inst
          | Some sv \<Rightarrow>
              (case wi_data inst of
                 JObject m \<Rightarrow>
                   inst\<lparr>wi_data := JObject (obj_insert ''_wfe_shared_volume'' (shared_volume_json sv) m)\<rparr>
               | _ \<Rightarrow> inst), w))"

definition choose_name ::
  "'w workflow_host \<Rightarrow> string \<Rightarrow> string option \<Rightarrow> ('w, string res) eff" where
  "choose_name h def_id name_override w =
     (case name_override of
        Some n \<Rightarrow>
          (if trim n \<noteq> [] then Inr n
           else Inl (StepExecution (Msg ''workflow name override must be non-empty'')), w)
      | None \<Rightarrow>
          (case next_definition_sequence (wh_persistence h) def_id w of
             (Inl e, w) \<Rightarrow> (Inl e, w)
           | (Inr n, w) \<Rightarrow> (Inr (numbered_name def_id n), w)))"

definition start_workflow_with_name ::
  "'w workflow_host \<Rightarrow> 'w sys \<Rightarrow> string \<Rightarrow> u32 \<Rightarrow> json \<Rightarrow> string option \<Rightarrow> ('w, string res) eff" where
  "start_workflow_with_name h S def_id version data name_override w =
     (case get_definition (wh_registry h) def_id (Some version) of
        None \<Rightarrow> (Inl (DefinitionNotFound def_id version), w)
      | Some d \<Rightarrow>
          (let (inst, w) = root_instance S d def_id version data w
           in case choose_name h def_id name_override w of
                (Inl e, w) \<Rightarrow> (Inl e, w)
              | (Inr n, w) \<Rightarrow>
                case create_new_workflow (wh_persistence h) (inst\<lparr>wi_name := n\<rparr>) w of
                  (Inl e, w) \<Rightarrow> (Inl e, w)
                | (Inr i, w) \<Rightarrow>
                  case queue_work (wh_queue_provider h) i QWorkflow w of
                    (Inl e, w) \<Rightarrow> (Inl e, w)
                  | (Inr _, w) \<Rightarrow> (Inr i, host_publish h S i def_id version LStarted w)))"

definition start_workflow ::
  "'w workflow_host \<Rightarrow> 'w sys \<Rightarrow> string \<Rightarrow> u32 \<Rightarrow> json \<Rightarrow> ('w, string res) eff" where
  "start_workflow h S def_id version data w = start_workflow_with_name h S def_id version data None w"

text \<open>\<open>HostContextImpl::start_workflow\<close>, which sub-workflow steps call.\<close>

definition context_start_workflow ::
  "'w workflow_host \<Rightarrow> 'w sys \<Rightarrow> string \<Rightarrow> u32 \<Rightarrow> json \<Rightarrow> string option \<Rightarrow> ('w, string res) eff" where
  "context_start_workflow h S def_id version data parent_root w =
     (case get_definition (wh_registry h) def_id (Some version) of
        None \<Rightarrow> (Inl (DefinitionNotFound def_id version), w)
      | Some d \<Rightarrow>
          (let (inst, w) = create_instance S def_id version data w;
               (inst, w) =
                 (if wd_steps d \<noteq> [] then
                    (let (u, w) = uuid_v4 S w
                     in (inst\<lparr>wi_execution_pointers := [execution_pointer_new u 0]\<rparr>, w))
                  else (inst, w));
               inst = inst\<lparr>wi_root_workflow_id := parent_root\<rparr>
           in case next_definition_sequence (wh_persistence h) def_id w of
                (Inl e, w) \<Rightarrow> (Inl e, w)
              | (Inr n, w) \<Rightarrow>
                case create_new_workflow (wh_persistence h) (inst\<lparr>wi_name := numbered_name def_id n\<rparr>) w of
                  (Inl e, w) \<Rightarrow> (Inl e, w)
                | (Inr i, w) \<Rightarrow>
                  case queue_work (wh_queue_provider h) i QWorkflow w of
                    (Inl e, w) \<Rightarrow> (Inl e, w)
                  | (Inr _, w) \<Rightarrow> (Inr i, w)))"

definition host_context_of :: "'w workflow_host \<Rightarrow> 'w sys \<Rightarrow> 'w host_context" where
  "host_context_of h S = \<lparr>hc_start_workflow = context_start_workflow h S\<rparr>"

subsection \<open>Events and control\<close>

definition publish_event ::
  "'w workflow_host \<Rightarrow> 'w sys \<Rightarrow> string \<Rightarrow> string \<Rightarrow> json \<Rightarrow> ('w, unit res) eff" where
  "publish_event h S event_name event_key data w =
     (let (u, w) = uuid_v4 S w; (now, w) = utc_now S w
      in case create_event (wh_persistence h) (event_new u now event_name event_key data) w of
           (Inl e, w) \<Rightarrow> (Inl e, w)
         | (Inr event_id, w) \<Rightarrow> queue_work (wh_queue_provider h) event_id QEvent w)"

definition get_workflow :: "'w workflow_host \<Rightarrow> string \<Rightarrow> ('w, workflow_instance res) eff" where
  "get_workflow h id_or_name w =
     (case get_workflow_instance (wh_persistence h) id_or_name w of
        (Inr inst, w) \<Rightarrow> (Inr inst, w)
      | (Inl (WorkflowNotFound _), w) \<Rightarrow> get_workflow_instance_by_name (wh_persistence h) id_or_name w
      | (Inl e, w) \<Rightarrow> (Inl e, w))"

definition resolve_workflow_id :: "'w workflow_host \<Rightarrow> string \<Rightarrow> ('w, string res) eff" where
  "resolve_workflow_id h id_or_name w =
     (case get_workflow h id_or_name w of (Inl e, w) \<Rightarrow> (Inl e, w) | (Inr inst, w) \<Rightarrow> (Inr (wi_id inst), w))"

definition suspend_workflow :: "'w workflow_host \<Rightarrow> 'w sys \<Rightarrow> string \<Rightarrow> ('w, bool res) eff" where
  "suspend_workflow h S id_or_name w =
     (case get_workflow h id_or_name w of
        (Inl e, w) \<Rightarrow> (Inl e, w)
      | (Inr inst, w) \<Rightarrow>
          if wi_status inst \<noteq> Runnable then (Inr False, w)
          else
            (case persist_workflow (wh_persistence h) (inst\<lparr>wi_status := Suspended\<rparr>) w of
               (Inl e, w) \<Rightarrow> (Inl e, w)
             | (Inr _, w) \<Rightarrow>
                 (Inr True, host_publish h S (wi_id inst) (wi_workflow_definition_id inst) (wi_version inst)
                              LSuspended w)))"

definition resume_workflow :: "'w workflow_host \<Rightarrow> 'w sys \<Rightarrow> string \<Rightarrow> ('w, bool res) eff" where
  "resume_workflow h S id_or_name w =
     (case get_workflow h id_or_name w of
        (Inl e, w) \<Rightarrow> (Inl e, w)
      | (Inr inst, w) \<Rightarrow>
          if wi_status inst \<noteq> Suspended then (Inr False, w)
          else
            (case persist_workflow (wh_persistence h) (inst\<lparr>wi_status := Runnable\<rparr>) w of
               (Inl e, w) \<Rightarrow> (Inl e, w)
             | (Inr _, w) \<Rightarrow>
                 (case queue_work (wh_queue_provider h) (wi_id inst) QWorkflow w of
                    (Inl e, w) \<Rightarrow> (Inl e, w)
                  | (Inr _, w) \<Rightarrow>
                      (Inr True, host_publish h S (wi_id inst) (wi_workflow_definition_id inst)
                                   (wi_version inst) LResumed w))))"

definition terminate_workflow :: "'w workflow_host \<Rightarrow> 'w sys \<Rightarrow> string \<Rightarrow> ('w, bool res) eff" where
  "terminate_workflow h S id_or_name w =
     (case get_workflow h id_or_name w of
        (Inl e, w) \<Rightarrow> (Inl e, w)
      | (Inr inst, w) \<Rightarrow>
          if wi_status inst = Complete \<or> wi_status inst = Terminated then (Inr False, w)
          else
            (let (now, w) = utc_now S w
             in case persist_workflow (wh_persistence h)
                       (inst\<lparr>wi_status := Terminated, wi_complete_time := Some now\<rparr>) w of
                  (Inl e, w) \<Rightarrow> (Inl e, w)
                | (Inr _, w) \<Rightarrow>
                    (Inr True, host_publish h S (wi_id inst) (wi_workflow_definition_id inst) (wi_version inst)
                                 LTerminated w)))"

subsection \<open>Processing an event\<close>

definition arm_pointer :: "string \<Rightarrow> json \<Rightarrow> execution_pointer \<Rightarrow> execution_pointer" where
  "arm_pointer pid data p =
     (if ep_id p = pid \<and> ep_status p = WaitingForEvent
      then p\<lparr>ep_event_data := Some data, ep_event_published := True, ep_active := True\<rparr> else p)"

text \<open>The asynchronous block that runs under the lock of one subscription's workflow.\<close>

definition deliver_event ::
  "'w persistence_provider \<Rightarrow> 'w queue_provider \<Rightarrow> event \<Rightarrow> event_subscription \<Rightarrow> ('w, unit res) eff" where
  "deliver_event P Q ev sub w =
     (case get_workflow_instance P (es_workflow_id sub) w of
        (Inl e, w) \<Rightarrow> (Inl e, w)
      | (Inr inst, w) \<Rightarrow>
          (let inst = inst\<lparr>wi_execution_pointers :=
                 map (arm_pointer (es_execution_pointer_id sub) (ev_data ev)) (wi_execution_pointers inst),
                 wi_next_execution := Some 0\<rparr>
           in case persist_workflow P inst w of
                (Inl e, w) \<Rightarrow> (Inl e, w)
              | (Inr _, w) \<Rightarrow>
                (case queue_work Q (es_workflow_id sub) QWorkflow w of
                   (Inl e, w) \<Rightarrow> (Inl e, w)
                 | (Inr _, w) \<Rightarrow> terminate_subscription P (es_id sub) w)))"

text \<open>The loop over the subscriptions: \<open>Inr False\<close> is the early return after re-queuing the event.\<close>

fun deliver_all ::
  "'w persistence_provider \<Rightarrow> 'w lock_provider \<Rightarrow> 'w queue_provider \<Rightarrow> event \<Rightarrow> string \<Rightarrow>
   event_subscription list \<Rightarrow> ('w, bool res) eff" where
  "deliver_all P L Q ev event_id [] w = (Inr True, w)"
| "deliver_all P L Q ev event_id (sub # subs) w =
     (case acquire_lock L (es_workflow_id sub) w of
        (Inl e, w) \<Rightarrow> (Inl e, w)
      | (Inr False, w) \<Rightarrow>
          (case queue_work Q event_id QEvent w of
             (Inl e, w) \<Rightarrow> (Inl e, w) | (Inr _, w) \<Rightarrow> (Inr False, w))
      | (Inr True, w) \<Rightarrow>
          (let (result, w) = deliver_event P Q ev sub w
           in case release_lock L (es_workflow_id sub) w of
                (Inl e, w) \<Rightarrow> (Inl e, w)
              | (Inr _, w) \<Rightarrow>
                (case result of
                   Inl e \<Rightarrow> (Inl e, w)
                 | Inr _ \<Rightarrow> deliver_all P L Q ev event_id subs w)))"

definition process_event ::
  "'w persistence_provider \<Rightarrow> 'w lock_provider \<Rightarrow> 'w queue_provider \<Rightarrow> string \<Rightarrow> ('w, unit res) eff" where
  "process_event P L Q event_id w =
     (case get_event P event_id w of
        (Inl e, w) \<Rightarrow> (Inl e, w)
      | (Inr ev, w) \<Rightarrow>
          (case get_subscriptions P (ev_name ev) (ev_key ev) (ev_time ev) w of
             (Inl e, w) \<Rightarrow> (Inl e, w)
           | (Inr subs, w) \<Rightarrow>
               (case deliver_all P L Q ev event_id subs w of
                  (Inl e, w) \<Rightarrow> (Inl e, w)
                | (Inr False, w) \<Rightarrow> (Inr (), w)
                | (Inr True, w) \<Rightarrow> mark_event_processed P event_id w)))"

subsection \<open>Executing work\<close>

definition can_execute_workflow ::
  "workflow_definition \<Rightarrow> 'w step_registry \<Rightarrow> 'w service_provider option \<Rightarrow> bool" where
  "can_execute_workflow d reg provider \<longleftrightarrow>
     list_all (\<lambda>s. resolve reg (ws_step_type s) \<noteq> None) (wd_steps d) \<and>
     (wd_services d = [] \<or>
      (case provider of None \<Rightarrow> False | Some p \<Rightarrow> can_provision p (wd_services d)))"

definition upper :: "string \<Rightarrow> string" where
  "upper s = map (\<lambda>c. if 97 \<le> (of_char c :: nat) \<and> (of_char c :: nat) \<le> 122
                      then char_of ((of_char c :: nat) - 32) else c) s"

definition port_json :: "service_port \<Rightarrow> json" where
  "port_json p = JNumber (PosInt (ucast (sp_container_port p)))"

definition endpoint_entries :: "service_endpoint \<Rightarrow> json_map \<Rightarrow> json_map" where
  "endpoint_entries ep data_obj =
     (let prefix = ''SVC_'' @ upper (se_name ep);
          data_obj = obj_insert (prefix @ ''_HOST'') (JString (se_host ep)) data_obj
      in case se_ports ep of
           [] \<Rightarrow> data_obj
         | port # _ \<Rightarrow> obj_insert (prefix @ ''_PORT'') (port_json port) data_obj)"

definition services_map :: "service_endpoint list \<Rightarrow> json_map" where
  "services_map endpoints =
     fold (\<lambda>ep m. obj_insert (se_name ep)
             (JObject [(''host'', JString (se_host ep)), (''ports'', JArray (map port_json (se_ports ep)))]) m)
       endpoints []"

definition inject_service_endpoints ::
  "'w persistence_provider \<Rightarrow> string \<Rightarrow> service_endpoint list \<Rightarrow> ('w, unit res) eff" where
  "inject_service_endpoints P workflow_id endpoints w =
     (case get_workflow_instance P workflow_id w of
        (Inl e, w) \<Rightarrow> (Inl e, w)
      | (Inr inst, w) \<Rightarrow>
          (let inst =
             (case wi_data inst of
                JObject m \<Rightarrow>
                  inst\<lparr>wi_data := JObject (obj_insert ''services'' (JObject (services_map endpoints))
                                            (fold endpoint_entries endpoints m))\<rparr>
              | _ \<Rightarrow> inst)
           in persist_workflow P inst w))"

text \<open>Execution of a dequeued instance with its definition, services provisioned around it.\<close>

definition execute_with_services ::
  "'w workflow_host \<Rightarrow> 'w sys \<Rightarrow> string \<Rightarrow> workflow_definition \<Rightarrow> 'w \<Rightarrow> 'w" where
  "execute_with_services h S workflow_id d w =
     (let run = (\<lambda>w. snd (execute (wh_executor h) S workflow_id d (wh_step_registry h)
                           (Some (host_context_of h S)) w))
      in if wd_services d = [] then run w
         else
           case wh_service_provider h of
             None \<Rightarrow> run w
           | Some provider \<Rightarrow>
               (case provision provider workflow_id (wd_services d) w of
                  (Inl e, w) \<Rightarrow> w
                | (Inr endpoints, w) \<Rightarrow>
                    (case inject_service_endpoints (we_persistence (wh_executor h)) workflow_id endpoints w of
                       (Inl e, w) \<Rightarrow> snd (teardown provider workflow_id w)
                     | (Inr _, w) \<Rightarrow> snd (teardown provider workflow_id (run w)))))"

text \<open>One iteration of the workflow consumer.\<close>

definition consume_workflow :: "'w workflow_host \<Rightarrow> 'w sys \<Rightarrow> 'w \<Rightarrow> 'w" where
  "consume_workflow h S w =
     (case dequeue_work (wh_queue_provider h) QWorkflow w of
        (Inl e, w) \<Rightarrow> w
      | (Inr None, w) \<Rightarrow> w
      | (Inr (Some workflow_id), w) \<Rightarrow>
          (case get_workflow_instance (we_persistence (wh_executor h)) workflow_id w of
             (Inl e, w) \<Rightarrow> w
           | (Inr inst, w) \<Rightarrow>
               (case get_definition (wh_registry h) (wi_workflow_definition_id inst) (Some (wi_version inst)) of
                  None \<Rightarrow> w
                | Some d \<Rightarrow>
                    if \<not> can_execute_workflow d (wh_step_registry h) (wh_service_provider h)
                    then snd (queue_work (wh_queue_provider h) workflow_id QWorkflow w)
                    else execute_with_services h S workflow_id d w)))"

text \<open>One iteration of the event consumer.\<close>

definition consume_event :: "'w workflow_host \<Rightarrow> 'w \<Rightarrow> 'w" where
  "consume_event h w =
     (case dequeue_work (wh_queue_provider h) QEvent w of
        (Inl e, w) \<Rightarrow> w
      | (Inr None, w) \<Rightarrow> w
      | (Inr (Some event_id), w) \<Rightarrow>
          snd (process_event (wh_persistence h) (wh_lock_provider h) (wh_queue_provider h) event_id w))"

end
