(* ===== verification/Host_Correct.thy ===== *)
theory Host_Correct
  imports Host
begin

text \<open>
  Properties of the host over the in-memory providers: which definition is found, what starting a
  workflow leaves behind, how an event reaches a waiting pointer, the status changes the control
  operations allow, and the two places where work is lost.
\<close>

section \<open>The registry\<close>

lemma latest_props:
  "latest r = None \<longleftrightarrow> r = []"
  "latest r = Some e \<Longrightarrow> e \<in> set r \<and> (\<forall>x \<in> set r. snd (fst x) \<le> snd (fst e))"
proof -
  let ?f = "\<lambda>e acc. case acc of None \<Rightarrow> Some e | Some m \<Rightarrow> if snd (fst m) \<le> snd (fst e) then Some e else Some m"
  have gen: "\<exists>e. fold ?f r (Some m) = Some e \<and> e \<in> insert m (set r) \<and> snd (fst m) \<le> snd (fst e) \<and>
      (\<forall>x \<in> set r. snd (fst x) \<le> snd (fst e))" for r :: workflow_registry and m
  proof (induction r arbitrary: m)
    case (Cons a r)
    show ?case
    proof (cases "snd (fst m) \<le> snd (fst a)")
      case True
      from Cons.IH[of a] obtain e where "fold ?f r (Some a) = Some e" "e \<in> insert a (set r)"
        "snd (fst a) \<le> snd (fst e)" "\<forall>x \<in> set r. snd (fst x) \<le> snd (fst e)" by blast
      with True show ?thesis by (intro exI[of _ e]) (auto intro: order.trans)
    next
      case False
      from Cons.IH[of m] obtain e where "fold ?f r (Some m) = Some e" "e \<in> insert m (set r)"
        "snd (fst m) \<le> snd (fst e)" "\<forall>x \<in> set r. snd (fst x) \<le> snd (fst e)" by blast
      with False show ?thesis by (intro exI[of _ e]) (auto intro: order.trans)
    qed
  qed simp
  show "latest r = None \<longleftrightarrow> r = []"
    using gen[of "tl r" "hd r"] by (cases r) (auto simp: latest_def)
  show "latest r = Some e \<Longrightarrow> e \<in> set r \<and> (\<forall>x \<in> set r. snd (fst x) \<le> snd (fst e))"
    using gen[of "tl r" "hd r"] by (cases r) (auto simp: latest_def)
qed

definition registry_ok :: "workflow_registry \<Rightarrow> bool" where
  "registry_ok r \<longleftrightarrow>
     distinct (map fst r) \<and> (\<forall>((i, v), d) \<in> set r. wd_id d = i \<and> wd_version d = v)"

lemma registry_register_ok: "registry_ok r \<Longrightarrow> registry_ok (registry_register d r)"
  using set_alist_update[of "(wd_id d, wd_version d)" d r]
  by (fastforce simp: registry_ok_def registry_register_def distinct_update)

text \<open>
  lookups in the definition registry. With a version, the definition registered last under
  that id and version is found; without one, the one with the highest registered version; and
  registering keeps every entry under its own id and version.
\<close>

theorem get_definition_spec:
  assumes "registry_ok r"
  shows "get_definition (registry_register d r) (wd_id d) (Some (wd_version d)) = Some d \<and>
    (i \<noteq> wd_id d \<or> v \<noteq> wd_version d \<longrightarrow>
       get_definition (registry_register d r) i (Some v) = get_definition r i (Some v)) \<and>
    (case get_definition r i None of
       None \<Rightarrow> \<forall>v. \<not> is_registered r i v
     | Some x \<Rightarrow> is_registered r i (wd_version x) \<and> wd_id x = i \<and> (\<forall>v. is_registered r i v \<longrightarrow> v \<le> wd_version x))"
proof (intro conjI)
  let ?es = "filter (\<lambda>((def_id, _), _). def_id = i) r"
  have reg: "is_registered r i v \<longleftrightarrow> (\<exists>d. ((i, v), d) \<in> set ?es)" for v
    by (auto simp: is_registered_def map_of_eq_None_iff image_iff) (metis fst_conv)
  show "case get_definition r i None of
       None \<Rightarrow> \<forall>v. \<not> is_registered r i v
     | Some x \<Rightarrow> is_registered r i (wd_version x) \<and> wd_id x = i \<and> (\<forall>v. is_registered r i v \<longrightarrow> v \<le> wd_version x)"
  proof (cases "latest ?es")
    case None
    then have "?es = []" by (simp add: latest_props(1))
    with reg None show ?thesis by (simp add: get_definition_def)
  next
    case (Some e)
    obtain j v x where e: "e = ((j, v), x)" by (metis prod.collapse)
    from latest_props(2)[OF Some] e have mem: "((j, v), x) \<in> set ?es" and max: "\<forall>y \<in> set ?es. snd (fst y) \<le> v"
      by auto
    from mem assms have x: "j = i" "wd_version x = v" "wd_id x = i" by (auto simp: registry_ok_def)
    have "v' \<le> v" if "is_registered r i v'" for v' using that max unfolding reg by fastforce
    with x mem Some e show ?thesis unfolding reg by (auto simp: get_definition_def)
  qed
qed (auto simp: get_definition_def registry_register_def update_conv')

section \<open>A host over the in-memory providers\<close>

definition mem_host :: "workflow_registry \<Rightarrow> mem_world step_registry \<Rightarrow> mem_world workflow_host" where
  "mem_host R reg =
     \<lparr>wh_persistence = mem_persistence, wh_lock_provider = mem_lock, wh_queue_provider = mem_queue,
      wh_lifecycle = Some mem_lifecycle, wh_search = None, wh_registry = R, wh_step_registry = reg,
      wh_service_provider = None, wh_artifact_store = None,
      wh_executor = mem_executor (Some mem_lifecycle) None\<rparr>"

lemma mem_host_simps [simp]:
  "wh_persistence (mem_host R reg) = mem_persistence" "wh_lock_provider (mem_host R reg) = mem_lock"
  "wh_queue_provider (mem_host R reg) = mem_queue" "wh_lifecycle (mem_host R reg) = Some mem_lifecycle"
  "wh_registry (mem_host R reg) = R" "wh_step_registry (mem_host R reg) = reg"
  "wh_service_provider (mem_host R reg) = None"
  "wh_executor (mem_host R reg) = mem_executor (Some mem_lifecycle) None"
  by (simp_all add: mem_host_def)

text \<open>It is what \<open>build\<close> returns for these providers, up to the registrations made later.\<close>

lemma mem_host_built:
  "host_build \<lparr>hb_persistence = Some mem_persistence, hb_lock_provider = Some mem_lock,
     hb_queue_provider = Some mem_queue, hb_lifecycle = Some mem_lifecycle, hb_search = None,
     hb_service_provider = None, hb_artifact_store = None\<rparr> = Inr (mem_host registry_new step_registry_new)"
  by (simp add: host_build_def mem_host_def mem_executor_def executor_new_def with_lifecycle_def Let_def)

subsection \<open>Starting\<close>

lemmas host_eval = create_instance_def host_publish_def numbered_name_def mem_next_definition_sequence_def
  mem_ops update_conv' Let_def

text \<open>The data of a new instance: the data of the start, with the shared volume of the definition when it declares one.\<close>

definition with_volume :: "workflow_definition \<Rightarrow> json \<Rightarrow> json" where
  "with_volume d data =
     (case (wd_shared_volume d, data) of
        (Some sv, JObject m) \<Rightarrow> JObject (obj_insert ''_wfe_shared_volume'' (shared_volume_json sv) m)
      | _ \<Rightarrow> data)"

lemma with_volume_none [simp]: "wd_shared_volume d = None \<Longrightarrow> with_volume d data = data"
  by (simp add: with_volume_def)

lemma root_instance_fields:
  assumes "root_instance mem_sys d def_id v data w = (inst, w')"
  shows "wi_id inst = mw_uuids w (mw_drawn w) \<and> wi_status inst = Runnable \<and>
    wi_workflow_definition_id inst = def_id \<and> wi_version inst = v \<and>
    map ep_step_id (wi_execution_pointers inst) = (if wd_steps d = [] then [] else [0]) \<and>
    (\<forall>p \<in> set (wi_execution_pointers inst). ep_status p = Pending \<and> pointer_ok p) \<and>
    wi_data inst = with_volume d data \<and>
    mem_stored w' = mem_stored w \<and> mem_queued w' = mem_queued w \<and> mw_sequences w' = mw_sequences w \<and>
    mw_uuids w' = mw_uuids w \<and> mw_events w' = mw_events w"
  using assms
  by (auto simp: root_instance_def create_instance_def mem_ops workflow_instance_new_def mem_stored_def with_volume_def
      mem_queued_def pointer_ok_def fun_eq_iff split: list.splits option.splits json.splits)

lemma start_workflow_mem:
  assumes "mw_uuids w (mw_drawn w) \<noteq> []" and "get_definition R def_id (Some v) = Some d"
  obtains inst w' where "start_workflow (mem_host R reg) mem_sys def_id v data w = (Inr (wi_id inst), w')"
    and "wi_id inst = mw_uuids w (mw_drawn w)" and "wi_status inst = Runnable"
    and "wi_workflow_definition_id inst = def_id" and "wi_version inst = v"
    and "wi_name inst = numbered_name def_id (unwrap_or (map_of (mw_sequences w) def_id) 0 + 1)"
    and "map ep_step_id (wi_execution_pointers inst) = (if wd_steps d = [] then [] else [0])"
    and "\<forall>p \<in> set (wi_execution_pointers inst). ep_status p = Pending \<and> pointer_ok p"
    and "mem_stored w' = (mem_stored w)(wi_id inst \<mapsto> inst)"
    and "mem_queued w' = (mem_queued w)(QWorkflow := mem_queued w QWorkflow @ [wi_id inst])"
    and "wi_data inst = with_volume d data" and "mw_uuids w' = mw_uuids w"
    and "mw_events w' = mw_events w"
proof -
  obtain inst w1 where r: "root_instance mem_sys d def_id v data w = (inst, w1)" by (metis surj_pair)
  note f = root_instance_fields[OF r]
  let ?n = "unwrap_or (map_of (mw_sequences w1) def_id) 0 + 1"
  let ?inst = "inst\<lparr>wi_name := numbered_name def_id ?n\<rparr>"
  have ne: "wi_id inst \<noteq> []" "wi_name ?inst \<noteq> []" using f assms by (simp_all add: numbered_name_def)
  have "\<exists>w'. start_workflow (mem_host R reg) mem_sys def_id v data w = (Inr (wi_id ?inst), w') \<and>
      mem_stored w' = (mem_stored w1)(wi_id ?inst \<mapsto> ?inst) \<and>
      mem_queued w' = (mem_queued w1)(QWorkflow := mem_queued w1 QWorkflow @ [wi_id ?inst]) \<and>
      mw_uuids w' = mw_uuids w1 \<and> mw_events w' = mw_events w1"
    using assms(2) r ne
    by (simp add: start_workflow_def start_workflow_with_name_def choose_name_def host_eval mem_stored_def
        mem_queued_def fun_eq_iff)
  then show thesis using f that[of ?inst] by auto
qed

text \<open>
  Starting a workflow. For an unknown definition nothing happens but the error; otherwise a
  new runnable instance under a fresh id is stored, with one pending pointer at step 0 and the next
  number of its definition in its name, every other stored instance is kept, and the id is appended
  to the workflow queue.
\<close>

theorem start_workflow_spec:
  assumes "mw_uuids w (mw_drawn w) \<noteq> []"
  shows "case get_definition R def_id (Some v) of
      None \<Rightarrow> start_workflow (mem_host R reg) mem_sys def_id v data w = (Inl (DefinitionNotFound def_id v), w)
    | Some d \<Rightarrow>
        (\<exists>inst w'. start_workflow (mem_host R reg) mem_sys def_id v data w = (Inr (wi_id inst), w') \<and>
           wi_id inst = mw_uuids w (mw_drawn w) \<and> wi_status inst = Runnable \<and>
           wi_workflow_definition_id inst = def_id \<and> wi_version inst = v \<and>
           wi_name inst = numbered_name def_id (unwrap_or (map_of (mw_sequences w) def_id) 0 + 1) \<and>
           map ep_step_id (wi_execution_pointers inst) = (if wd_steps d = [] then [] else [0]) \<and>
           (\<forall>p \<in> set (wi_execution_pointers inst). ep_status p = Pending \<and> pointer_ok p) \<and>
           mem_stored w' = (mem_stored w)(wi_id inst \<mapsto> inst) \<and>
           mem_queued w' = (mem_queued w)(QWorkflow := mem_queued w QWorkflow @ [wi_id inst]))"
proof (cases "get_definition R def_id (Some v)")
  case None
  then show ?thesis by (simp add: start_workflow_def start_workflow_with_name_def)
next
  case (Some d)
  show ?thesis unfolding Some option.case
    by (rule start_workflow_mem[where reg = reg and data = data, OF assms Some], intro exI conjI) assumption+
qed

subsection \<open>Event delivery\<close>

definition armed :: "json \<Rightarrow> execution_pointer \<Rightarrow> execution_pointer" where
  "armed data p = p\<lparr>ep_event_data := Some data, ep_event_published := True, ep_active := True\<rparr>"

text \<open>The pointers of an instance after the subscriptions \<open>subs\<close> have been served.\<close>

definition served :: "event_subscription list \<Rightarrow> json \<Rightarrow> string \<Rightarrow> execution_pointer \<Rightarrow> execution_pointer" where
  "served subs data wid p =
     (if ep_status p = WaitingForEvent \<and>
         (\<exists>s \<in> set subs. es_workflow_id s = wid \<and> es_execution_pointer_id s = ep_id p)
      then armed data p else p)"

lemma served_arm:
  "served subs data (es_workflow_id s) \<circ> arm_pointer (es_execution_pointer_id s) data =
     served (s # subs) data (es_workflow_id s)"
  "es_workflow_id s \<noteq> wid \<Longrightarrow> served (s # subs) data wid = served subs data wid"
  by (auto simp: served_def arm_pointer_def armed_def fun_eq_iff)

definition terminated_sub :: "event_subscription \<Rightarrow> event_subscription" where
  "terminated_sub s = s\<lparr>es_external_token := Some ''__terminated__''\<rparr>"

lemma deliver_event_mem:
  assumes "mem_stored w (es_workflow_id s) = Some inst" and "wi_id inst = es_workflow_id s"
    and "map_of (mw_subscriptions w) (es_id s) = Some s"
  shows "\<exists>w'. deliver_event mem_persistence mem_queue ev s w = (Inr (), w') \<and>
    mem_stored w' = (mem_stored w)(es_workflow_id s \<mapsto> inst\<lparr>wi_execution_pointers :=
        map (arm_pointer (es_execution_pointer_id s) (ev_data ev)) (wi_execution_pointers inst),
        wi_next_execution := Some 0\<rparr>) \<and>
    mem_queued w' = (mem_queued w)(QWorkflow := mem_queued w QWorkflow @ [es_workflow_id s]) \<and>
    map_of (mw_subscriptions w') = (map_of (mw_subscriptions w))(es_id s \<mapsto> terminated_sub s) \<and>
    mw_events w' = mw_events w \<and> mw_locks w' = mw_locks w"
  using assms
  by (simp add: deliver_event_def mem_ops ok_or_def mem_stored_def mem_queued_def mem_terminate_subscription_def
      terminated_sub_def update_conv' fun_eq_iff)

lemma deliver_all_mem:
  assumes "mw_locks w = {}" and "distinct (map es_id subs)"
    and "\<And>s. s \<in> set subs \<Longrightarrow> map_of (mw_subscriptions w) (es_id s) = Some s"
    and "\<And>s. s \<in> set subs \<Longrightarrow> mem_stored w (es_workflow_id s) \<noteq> None"
    and "\<And>i x. mem_stored w i = Some x \<Longrightarrow> wi_id x = i"
  shows "\<exists>w'. deliver_all mem_persistence mem_lock mem_queue ev eid subs w = (Inr True, w') \<and>
    mw_locks w' = {} \<and> mw_events w' = mw_events w \<and>
    mem_queued w' QWorkflow = mem_queued w QWorkflow @ map es_workflow_id subs \<and>
    (\<forall>s \<in> set subs. map_of (mw_subscriptions w') (es_id s) = Some (terminated_sub s)) \<and>
    (\<forall>i inst. mem_stored w i = Some inst \<longrightarrow> (\<exists>inst'. mem_stored w' i = Some inst' \<and>
       wi_status inst' = wi_status inst \<and>
       wi_execution_pointers inst' = map (served subs (ev_data ev) i) (wi_execution_pointers inst))) \<and>
    (\<forall>k. k \<notin> es_id ` set subs \<longrightarrow> map_of (mw_subscriptions w') k = map_of (mw_subscriptions w) k)"
  using assms
proof (induction subs arbitrary: w)
  case Nil
  have "served [] (ev_data ev) i = (\<lambda>p. p)" for i by (simp add: served_def fun_eq_iff)
  with Nil show ?case by auto
next
  case (Cons s subs)
  let ?w = "w\<lparr>mw_locks := insert (es_workflow_id s) (mw_locks w)\<rparr>"
  from Cons.prems(4)[of s] obtain inst where inst: "mem_stored w (es_workflow_id s) = Some inst" by auto
  with Cons.prems(5) have idi: "wi_id inst = es_workflow_id s" by blast
  have "mem_stored ?w (es_workflow_id s) = Some inst" "map_of (mw_subscriptions ?w) (es_id s) = Some s"
    using inst Cons.prems(3)[of s] by simp_all
  from deliver_event_mem[OF this(1) idi this(2), of ev] obtain w1 where
    d: "deliver_event mem_persistence mem_queue ev s ?w = (Inr (), w1)"
    and st1: "mem_stored w1 = (mem_stored w)(es_workflow_id s \<mapsto> inst\<lparr>wi_execution_pointers :=
        map (arm_pointer (es_execution_pointer_id s) (ev_data ev)) (wi_execution_pointers inst),
        wi_next_execution := Some 0\<rparr>)"
    and q1: "mem_queued w1 = (mem_queued w)(QWorkflow := mem_queued w QWorkflow @ [es_workflow_id s])"
    and sub1: "map_of (mw_subscriptions w1) = (map_of (mw_subscriptions w))(es_id s \<mapsto> terminated_sub s)"
    and e1: "mw_events w1 = mw_events w" and l1: "mw_locks w1 = {es_workflow_id s}"
    using Cons.prems(1) by auto
  let ?w2 = "w1\<lparr>mw_locks := mw_locks w1 - {es_workflow_id s}\<rparr>"
  have same: "mem_stored ?w2 = mem_stored w1" "mem_queued ?w2 = mem_queued w1"
    "mw_subscriptions ?w2 = mw_subscriptions w1" "mw_events ?w2 = mw_events w1" "mw_locks ?w2 = {}"
    using l1 by simp_all
  have step: "deliver_all mem_persistence mem_lock mem_queue ev eid (s # subs) w =
      deliver_all mem_persistence mem_lock mem_queue ev eid subs ?w2"
    using Cons.prems(1) d by (simp add: mem_acquire_lock_def mem_release_lock_def)
  have "\<exists>w'. deliver_all mem_persistence mem_lock mem_queue ev eid subs ?w2 = (Inr True, w') \<and>
    mw_locks w' = {} \<and> mw_events w' = mw_events ?w2 \<and>
    mem_queued w' QWorkflow = mem_queued ?w2 QWorkflow @ map es_workflow_id subs \<and>
    (\<forall>s \<in> set subs. map_of (mw_subscriptions w') (es_id s) = Some (terminated_sub s)) \<and>
    (\<forall>i inst. mem_stored ?w2 i = Some inst \<longrightarrow> (\<exists>inst'. mem_stored w' i = Some inst' \<and>
       wi_status inst' = wi_status inst \<and>
       wi_execution_pointers inst' = map (served subs (ev_data ev) i) (wi_execution_pointers inst))) \<and>
    (\<forall>k. k \<notin> es_id ` set subs \<longrightarrow> map_of (mw_subscriptions w') k = map_of (mw_subscriptions ?w2) k)"
  proof (rule Cons.IH)
    show "mw_locks ?w2 = {}" by (rule same)
    show "distinct (map es_id subs)" using Cons.prems(2) by simp
    show "map_of (mw_subscriptions ?w2) (es_id t) = Some t" if "t \<in> set subs" for t
      using that Cons.prems(2,3) by (auto simp: same sub1) (metis image_eqI)
    show "mem_stored ?w2 (es_workflow_id t) \<noteq> None" if "t \<in> set subs" for t
      using that Cons.prems(4) by (simp add: same st1)
    show "wi_id x = i" if "mem_stored ?w2 i = Some x" for i x
      using that Cons.prems(5) idi by (auto simp: same st1 split: if_splits)
  qed
  then obtain w' where w': "deliver_all mem_persistence mem_lock mem_queue ev eid subs ?w2 = (Inr True, w')"
    "mw_locks w' = {}" "mw_events w' = mw_events w"
    "mem_queued w' QWorkflow = mem_queued w QWorkflow @ map es_workflow_id (s # subs)"
    and subs': "\<And>t. t \<in> set subs \<Longrightarrow> map_of (mw_subscriptions w') (es_id t) = Some (terminated_sub t)"
    and inst': "\<And>i x. mem_stored w1 i = Some x \<Longrightarrow> (\<exists>inst'. mem_stored w' i = Some inst' \<and>
       wi_status inst' = wi_status x \<and>
       wi_execution_pointers inst' = map (served subs (ev_data ev) i) (wi_execution_pointers x))"
    and other: "\<And>k. k \<notin> es_id ` set subs \<Longrightarrow> map_of (mw_subscriptions w') k = map_of (mw_subscriptions w1) k"
    unfolding same by (auto simp: q1 e1)
  have "\<exists>inst'. mem_stored w' i = Some inst' \<and> wi_status inst' = wi_status x \<and>
      wi_execution_pointers inst' = map (served (s # subs) (ev_data ev) i) (wi_execution_pointers x)"
    if x: "mem_stored w i = Some x" for i x
  proof (cases "i = es_workflow_id s")
    case True
    with x inst have "x = inst" by simp
    with inst'[of i] st1 True show ?thesis by (auto simp: served_arm)
  next
    case False
    with x inst'[of i x] st1 show ?thesis by (auto simp: served_arm)
  qed
  moreover have "map_of (mw_subscriptions w') (es_id t) = Some (terminated_sub t)" if "t \<in> set (s # subs)" for t
    using that subs' other[of "es_id s"] Cons.prems(2) by (auto simp: sub1)
  moreover have "map_of (mw_subscriptions w') k = map_of (mw_subscriptions w) k" if "k \<notin> es_id ` set (s # subs)" for k
    using that other[of k] by (auto simp: sub1)
  ultimately show ?case using w' step by auto
qed

lemma mem_invar_subs:
  assumes "mem_invar w"
  shows "distinct (map es_id (map snd (mw_subscriptions w)))"
    and "s \<in> snd ` set (mw_subscriptions w) \<Longrightarrow> map_of (mw_subscriptions w) (es_id s) = Some s"
proof -
  from assms have k: "map es_id (map snd (mw_subscriptions w)) = map fst (mw_subscriptions w)"
    by (auto simp: mem_invar_def)
  from assms show "distinct (map es_id (map snd (mw_subscriptions w)))" unfolding k by (simp add: mem_invar_def)
  show "s \<in> snd ` set (mw_subscriptions w) \<Longrightarrow> map_of (mw_subscriptions w) (es_id s) = Some s"
    using assms by (auto simp: mem_invar_def intro!: map_of_is_SomeI)
qed

lemma mem_invar_stored: "mem_invar w \<Longrightarrow> mem_stored w i = Some x \<Longrightarrow> wi_id x = i"
  by (auto simp: mem_invar_def mem_stored_def dest!: map_of_SomeD)

definition open_subscriptions :: "mem_world \<Rightarrow> event \<Rightarrow> event_subscription list" where
  "open_subscriptions w ev =
     filter (open_for (ev_name ev) (ev_key ev) (ev_time ev)) (map snd (mw_subscriptions w))"

text \<open>
  C35: event delivery. Processing a stored event, with no lock held, succeeds; it makes exactly
  the pointers that wait under an open subscription for the event active, with the event's data,
  and changes no other pointer and no status; it queues the workflow of every such subscription,
  closes these subscriptions and marks the event as processed.
\<close>

theorem process_event_delivers:
  assumes "mem_invar w" and "mw_locks w = {}" and "map_of (mw_events w) eid = Some ev"
    and "\<forall>s \<in> set (open_subscriptions w ev). mem_stored w (es_workflow_id s) \<noteq> None"
  shows "\<exists>w'. process_event mem_persistence mem_lock mem_queue eid w = (Inr (), w') \<and>
    map_of (mw_events w') eid = Some (ev\<lparr>ev_is_processed := True\<rparr>) \<and> mw_locks w' = {} \<and>
    mem_queued w' QWorkflow = mem_queued w QWorkflow @ map es_workflow_id (open_subscriptions w ev) \<and>
    (\<forall>s \<in> set (open_subscriptions w ev). map_of (mw_subscriptions w') (es_id s) = Some (terminated_sub s)) \<and>
    (\<forall>i inst. mem_stored w i = Some inst \<longrightarrow> (\<exists>inst'. mem_stored w' i = Some inst' \<and>
       wi_status inst' = wi_status inst \<and>
       wi_execution_pointers inst' =
         map (served (open_subscriptions w ev) (ev_data ev) i) (wi_execution_pointers inst)))"
proof -
  let ?subs = "open_subscriptions w ev"
  have "distinct (map es_id ?subs)"
    using mem_invar_subs(1)[OF assms(1)] by (simp add: open_subscriptions_def distinct_map_filter)
  moreover have "map_of (mw_subscriptions w) (es_id s) = Some s" if "s \<in> set ?subs" for s
    using that mem_invar_subs(2)[OF assms(1)] by (auto simp: open_subscriptions_def)
  ultimately obtain w1 where
    d: "deliver_all mem_persistence mem_lock mem_queue ev eid ?subs w = (Inr True, w1)"
    and w1: "mw_locks w1 = {}" "mw_events w1 = mw_events w"
      "mem_queued w1 QWorkflow = mem_queued w QWorkflow @ map es_workflow_id ?subs"
      "\<forall>s \<in> set ?subs. map_of (mw_subscriptions w1) (es_id s) = Some (terminated_sub s)"
      "\<forall>i inst. mem_stored w i = Some inst \<longrightarrow> (\<exists>inst'. mem_stored w1 i = Some inst' \<and>
         wi_status inst' = wi_status inst \<and>
         wi_execution_pointers inst' = map (served ?subs (ev_data ev) i) (wi_execution_pointers inst))"
    using deliver_all_mem[OF assms(2), of ?subs ev eid] assms(4) mem_invar_stored[OF assms(1)] by blast
  let ?w' = "w1\<lparr>mw_events := AList.update eid (ev\<lparr>ev_is_processed := True\<rparr>) (mw_events w1)\<rparr>"
  have "process_event mem_persistence mem_lock mem_queue eid w = (Inr (), ?w')"
    using assms(3) d w1(2)
    by (simp add: process_event_def mem_get_event_def mem_get_subscriptions_def ok_or_def
        mem_mark_event_processed_def set_processed_def flip: open_subscriptions_def)
  moreover have "mem_stored ?w' = mem_stored w1" "mem_queued ?w' = mem_queued w1"
    by (simp_all add: mem_stored_def mem_queued_def fun_eq_iff)
  ultimately show ?thesis using w1 by (intro exI[of _ ?w']) (simp add: update_conv')
qed

text \<open>
  an event that no subscription waits for is lost. Processing it only marks it as
  processed, so a pointer that subscribes to it later, even with an earlier \<open>subscribe_as_of\<close>, is
  not woken by it.
\<close>

theorem unmatched_event_is_consumed:
  assumes "map_of (mw_events w) eid = Some ev" and "open_subscriptions w ev = []"
  shows "process_event mem_persistence mem_lock mem_queue eid w =
    (Inr (), w\<lparr>mw_events := AList.update eid (ev\<lparr>ev_is_processed := True\<rparr>) (mw_events w)\<rparr>)"
  using assms
  by (simp add: process_event_def mem_get_event_def mem_get_subscriptions_def ok_or_def
      mem_mark_event_processed_def set_processed_def flip: open_subscriptions_def)

text \<open>A world with one instance waiting for the event it holds.\<close>

definition waiting_pointer :: execution_pointer where
  "waiting_pointer = (execution_pointer_new ''p'' 0)\<lparr>ep_status := WaitingForEvent, ep_active := False\<rparr>"

definition event_world :: mem_world where
  "event_world = (mem_new int show_nat)
     \<lparr>mw_workflows := [(''i'', sample_instance\<lparr>wi_execution_pointers := [waiting_pointer]\<rparr>)],
      mw_events := [(''e'', event_new ''e'' 5 ''paid'' ''42'' JNull)],
      mw_subscriptions := [(''s'', event_subscription_new ''s'' ''i'' 0 ''p'' ''paid'' ''42'' 3)]\<rparr>"

theorem process_event_delivers_witness:
  "\<exists>w' inst'. process_event mem_persistence mem_lock mem_queue ''e'' event_world = (Inr (), w') \<and>
     mem_stored w' ''i'' = Some inst' \<and> map ep_active (wi_execution_pointers inst') = [True]"
proof -
  let ?ev = "event_new ''e'' 5 ''paid'' ''42'' JNull"
  have subs: "open_subscriptions event_world ?ev = [event_subscription_new ''s'' ''i'' 0 ''p'' ''paid'' ''42'' 3]"
    by (simp add: open_subscriptions_def event_world_def open_for_def event_new_def event_subscription_new_def)
  have w: "mem_invar event_world" "mw_locks event_world = {}" "map_of (mw_events event_world) ''e'' = Some ?ev"
    "\<forall>s \<in> set (open_subscriptions event_world ?ev). mem_stored event_world (es_workflow_id s) \<noteq> None"
    "mem_stored event_world ''i'' = Some (sample_instance\<lparr>wi_execution_pointers := [waiting_pointer]\<rparr>)"
    unfolding subs
    by (simp_all add: event_world_def mem_new_def mem_invar_def mem_stored_def event_new_def
        event_subscription_new_def sample_instance_def workflow_instance_new_def)
  have "ep_active (served [event_subscription_new ''s'' ''i'' 0 ''p'' ''paid'' ''42'' 3] d ''i'' waiting_pointer)" for d
    by (simp add: served_def armed_def waiting_pointer_def event_subscription_new_def)
  with process_event_delivers[OF w(1-4)] w(5) subs show ?thesis by fastforce
qed

theorem unmatched_event_is_consumed_witness:
  "fst (process_event mem_persistence mem_lock mem_queue ''e'' (event_world\<lparr>mw_subscriptions := []\<rparr>)) = Inr ()"
  using unmatched_event_is_consumed[of "event_world\<lparr>mw_subscriptions := []\<rparr>" "''e''"]
  by (simp add: open_subscriptions_def event_world_def)

theorem start_workflow_spec_witness:
  "\<exists>i w'. start_workflow (mem_host [((''two'', 1), two_steps)] pass_registry) mem_sys ''two'' 1 JNull
      (mem_new int show_nat) = (Inr i, w') \<and> mem_queued w' QWorkflow = [i]"
proof -
  have "mw_uuids (mem_new int show_nat) (mw_drawn (mem_new int show_nat)) \<noteq> []"
    using show_nat_digits by (simp add: mem_new_def)
  from start_workflow_spec[OF this, where R = "[((''two'', 1), two_steps)]" and def_id = "''two''"
      and v = 1 and reg = pass_registry and data = JNull]
  show ?thesis by (auto simp: get_definition_def)
qed

theorem get_definition_spec_witness:
  "get_definition (registry_register two_steps []) ''two'' (Some 1) = Some two_steps"
proof -
  have "registry_ok []" by (simp add: registry_ok_def)
  from get_definition_spec[OF this, of two_steps] show ?thesis
    by (simp add: two_steps_def workflow_definition_new_def)
qed

subsection \<open>Control operations\<close>

text \<open>The changes of status that suspending, resuming and terminating allow.\<close>

inductive control_step :: "workflow_status \<Rightarrow> workflow_status \<Rightarrow> bool" where
  cs_same: "control_step s s"
| cs_suspend: "control_step Runnable Suspended"
| cs_resume: "control_step Suspended Runnable"
| cs_terminate_runnable: "control_step Runnable Terminated"
| cs_terminate_suspended: "control_step Suspended Terminated"

inductive_cases control_from_terminal: "control_step Complete s" "control_step Terminated s"

lemma get_workflow_mem:
  "get_workflow (mem_host R reg) i w =
     ((case mem_stored w i of Some inst \<Rightarrow> Inr inst
       | None \<Rightarrow> ok_or (WorkflowNotFound i) (List.find (\<lambda>x. wi_name x = i) (map snd (mw_workflows w)))), w)"
  by (auto simp: get_workflow_def mem_get_workflow_instance_def mem_get_workflow_instance_by_name_def
      mem_stored_def ok_or_def split: option.splits)

lemma get_workflow_found:
  assumes "mem_invar w" and "get_workflow (mem_host R reg) i w = (Inr inst, w')"
  shows "w' = w \<and> mem_stored w (wi_id inst) = Some inst \<and> (wi_id inst = i \<or> wi_name inst = i)"
proof -
  have find: "mem_stored w (wi_id x) = Some x" if "x \<in> snd ` set (mw_workflows w)" for x
    using that assms(1) by (auto simp: mem_invar_def mem_stored_def intro!: map_of_is_SomeI)
  show ?thesis
  proof (cases "mem_stored w i")
    case (Some x)
    with assms(2) mem_invar_stored[OF assms(1)] show ?thesis by (auto simp: get_workflow_mem)
  next
    case None
    with assms(2) have "List.find (\<lambda>x. wi_name x = i) (map snd (mw_workflows w)) = Some inst" "w' = w"
      by (auto simp: get_workflow_mem ok_or_def split: option.splits)
    with find_Some_memb[OF this(1)] find show ?thesis by auto
  qed
qed

text \<open>How the three operations move the views of the store; \<open>quiet_clock\<close>: reading the time does not.\<close>

definition quiet_clock :: "mem_world sys \<Rightarrow> bool" where
  "quiet_clock S \<longleftrightarrow>
     (\<forall>w. mem_stored (snd (utc_now S w)) = mem_stored w \<and> mem_queued (snd (utc_now S w)) = mem_queued w)"

lemma quiet_clock_now:
  "quiet_clock S \<Longrightarrow> utc_now S v = (t, v') \<Longrightarrow> mem_stored v' = mem_stored v \<and> mem_queued v' = mem_queued v"
  unfolding quiet_clock_def by (metis snd_conv)

lemma host_publish_views:
  assumes "quiet_clock S"
  shows "mem_stored (host_publish (mem_host R reg) S a b c t v) = mem_stored v"
    "mem_queued (host_publish (mem_host R reg) S a b c t v) = mem_queued v"
  using quiet_clock_now[OF assms]
  by (auto simp: host_publish_def mem_publish_def mem_stored_def mem_queued_def fun_eq_iff split: prod.splits)

lemma mem_write_views:
  "mem_stored (snd (mem_persist_workflow x v)) = (mem_stored v)(wi_id x \<mapsto> x)"
  "mem_queued (snd (mem_persist_workflow x v)) = mem_queued v"
  "fst (mem_persist_workflow x v) = Inr ()"
  "mem_stored (snd (mem_queue_work a t v)) = mem_stored v"
  "mem_queued (snd (mem_queue_work a t v)) = (mem_queued v)(t := mem_queued v t @ [a])"
  "fst (mem_queue_work a t v) = Inr ()"
  by (simp_all add: mem_persist_workflow_def mem_queue_work_def mem_stored_def mem_queued_def update_conv' fun_eq_iff)

text \<open>What one control operation on the instance \<open>inst\<close> does, given the new instance.\<close>

definition control_effect :: "mem_world \<Rightarrow> workflow_instance \<Rightarrow> workflow_instance \<Rightarrow> bool \<Rightarrow> mem_world \<Rightarrow> bool" where
  "control_effect w inst inst' changed w' \<longleftrightarrow>
     mem_stored w' = (mem_stored w)(wi_id inst \<mapsto> inst') \<and>
     control_step (wi_status inst) (wi_status inst') \<and>
     wi_execution_pointers inst' = wi_execution_pointers inst \<and>
     changed = (wi_status inst' \<noteq> wi_status inst) \<and>
     (wi_status inst' = Terminated \<and> changed \<longrightarrow> wi_complete_time inst' \<noteq> None) \<and>
     (wi_status inst' = Runnable \<and> changed \<longrightarrow> wi_id inst \<in> set (mem_queued w' QWorkflow))"

lemma control_effect_none:
  "mem_stored w (wi_id inst) = Some inst \<Longrightarrow> control_effect w inst inst False w"
  by (auto simp: control_effect_def intro: cs_same)

lemma suspend_effect:
  assumes "quiet_clock S" and "get_workflow (mem_host R reg) i w = (Inr inst, w)"
    and "mem_stored w (wi_id inst) = Some inst" and "suspend_workflow (mem_host R reg) S i w = (Inr changed, w')"
  shows "\<exists>inst'. control_effect w inst inst' changed w'"
proof (cases "wi_status inst = Runnable")
  case True
  with assms have "control_effect w inst (inst\<lparr>wi_status := Suspended\<rparr>) changed w'"
    by (auto simp: suspend_workflow_def case_prod_beta host_publish_views mem_write_views control_effect_def
        intro: control_step.intros)
  then show ?thesis ..
next
  case False
  with assms have "w' = w" "\<not> changed" by (auto simp: suspend_workflow_def)
  with control_effect_none[OF assms(3)] show ?thesis by auto
qed

lemma resume_effect:
  assumes "quiet_clock S" and "get_workflow (mem_host R reg) i w = (Inr inst, w)"
    and "mem_stored w (wi_id inst) = Some inst" and "resume_workflow (mem_host R reg) S i w = (Inr changed, w')"
  shows "\<exists>inst'. control_effect w inst inst' changed w'"
proof (cases "wi_status inst = Suspended")
  case True
  with assms have "control_effect w inst (inst\<lparr>wi_status := Runnable\<rparr>) changed w'"
    by (auto simp: resume_workflow_def case_prod_beta host_publish_views mem_write_views control_effect_def
        intro: control_step.intros)
  then show ?thesis ..
next
  case False
  with assms have "w' = w" "\<not> changed" by (auto simp: resume_workflow_def)
  with control_effect_none[OF assms(3)] show ?thesis by auto
qed

lemma terminate_effect:
  assumes "quiet_clock S" and "get_workflow (mem_host R reg) i w = (Inr inst, w)"
    and "mem_stored w (wi_id inst) = Some inst" and "terminate_workflow (mem_host R reg) S i w = (Inr changed, w')"
  shows "\<exists>inst'. control_effect w inst inst' changed w'"
proof (cases "wi_status inst = Complete \<or> wi_status inst = Terminated")
  case False
  obtain t v where tv: "utc_now S w = (t, v)" by (metis surj_pair)
  from False assms have "control_effect w inst (inst\<lparr>wi_status := Terminated, wi_complete_time := Some t\<rparr>) changed w'"
    using quiet_clock_now[OF assms(1) tv]
    by (cases "wi_status inst")
      (auto simp: terminate_workflow_def case_prod_beta host_publish_views mem_write_views control_effect_def tv
        intro: control_step.intros)
  then show ?thesis ..
next
  case True
  with assms have "w' = w" "\<not> changed" by (auto simp: terminate_workflow_def)
  with control_effect_none[OF assms(3)] show ?thesis by auto
qed

text \<open>
  The control operations. Suspending, resuming and terminating by id or by name change at
  most the instance addressed; its status changes as \<open>control_step\<close> allows, so complete and
  terminated instances stay as they are; the answer says whether the status changed; and a resumed
  instance is in the workflow queue.
\<close>

theorem control_operations:
  assumes "mem_invar w" and "quiet_clock S"
    and "run_op \<in> {suspend_workflow (mem_host R reg) S i, resume_workflow (mem_host R reg) S i,
           terminate_workflow (mem_host R reg) S i}"
    and "run_op w = (Inr changed, w')"
  shows "\<exists>inst inst'. mem_stored w (wi_id inst) = Some inst \<and> (wi_id inst = i \<or> wi_name inst = i) \<and>
     mem_stored w' = (mem_stored w)(wi_id inst \<mapsto> inst') \<and>
     control_step (wi_status inst) (wi_status inst') \<and>
     wi_execution_pointers inst' = wi_execution_pointers inst \<and>
     changed = (wi_status inst' \<noteq> wi_status inst) \<and>
     (wi_status inst' = Terminated \<and> changed \<longrightarrow> wi_complete_time inst' \<noteq> None) \<and>
     (wi_status inst' = Runnable \<and> changed \<longrightarrow> wi_id inst \<in> set (mem_queued w' QWorkflow))"
proof -
  obtain r w1 where g: "get_workflow (mem_host R reg) i w = (r, w1)" by (metis surj_pair)
  with assms(3,4) obtain inst where r: "r = Inr inst"
    by (cases r) (auto simp: suspend_workflow_def resume_workflow_def terminate_workflow_def)
  from get_workflow_found[OF assms(1) g[unfolded r]] have w1: "w1 = w"
    and st: "mem_stored w (wi_id inst) = Some inst" "wi_id inst = i \<or> wi_name inst = i" by auto
  note effects = suspend_effect resume_effect terminate_effect
  from assms(3,4) effects[OF assms(2) g[unfolded r w1] st(1)] have "\<exists>inst'. control_effect w inst inst' changed w'"
    by blast
  with st show ?thesis unfolding control_effect_def by blast
qed

lemma mem_now_frame:
  "mem_stored (snd (utc_now mem_sys w)) = mem_stored w \<and> mem_queued (snd (utc_now mem_sys w)) = mem_queued w"
  by (simp add: mem_now_def mem_stored_def mem_queued_def fun_eq_iff)

theorem control_operations_witness:
  "\<exists>w' inst'. suspend_workflow (mem_host [] Map.empty) mem_sys ''i'' sample_world = (Inr True, w') \<and>
     mem_stored w' ''i'' = Some inst' \<and> control_step Runnable (wi_status inst') \<and> wi_status inst' \<noteq> Runnable"
proof -
  let ?op = "suspend_workflow (mem_host [] Map.empty) mem_sys ''i''"
  have inv: "mem_invar sample_world"
    by (simp add: sample_world_def mem_new_def mem_invar_def sample_instance_def workflow_instance_new_def)
  have "fst (?op sample_world) = Inr True"
    by (simp add: suspend_workflow_def get_workflow_mem sample_world_facts mem_persist_workflow_def)
  then obtain w' where op: "?op sample_world = (Inr True, w')" by (metis prod.collapse)
  have "quiet_clock mem_sys" using mem_now_frame by (simp add: quiet_clock_def)
  from control_operations[where run_op = ?op and R = "[]" and reg = Map.empty and S = mem_sys and i = "''i''",
      OF inv this _ op] obtain inst inst' where
    i: "mem_stored sample_world (wi_id inst) = Some inst" "mem_stored w' = (mem_stored sample_world)(wi_id inst \<mapsto> inst')"
      "control_step (wi_status inst) (wi_status inst')" "wi_status inst' \<noteq> wi_status inst" by auto
  have "inst = sample_instance"
    using i(1) by (simp add: sample_world_def mem_stored_def split: if_splits)
  with i op show ?thesis by (auto simp: sample_world_facts)
qed

section \<open>Where work is lost\<close>

text \<open>
  C40: a condition that cannot be evaluated strands the instance. If the first runnable pointer
  is at a step whose condition fails to evaluate, the consumer takes the instance off the queue, the
  pass ends in the error, and the instance is left as it was: runnable, with its active pointer, but
  neither persisted with an error status nor queued again.
\<close>

theorem condition_error_strands:
  assumes "mem_queued w QWorkflow = wid # rest" and "wid \<notin> mw_locks w" and "mem_stored w wid = Some inst"
    and "wi_status inst = Runnable"
    and "get_definition R (wi_workflow_definition_id inst) (Some (wi_version inst)) = Some d"
    and "can_execute_workflow d reg None"
    and "runnable_indices (wi_execution_pointers inst) (mw_clock w (mw_ticks w)) = k # ks"
    and "find_step d (ep_step_id (wi_execution_pointers inst ! k)) = Some step"
    and "ws_when step = Some c" and "evaluate c (wi_data inst) = Inl e"
  shows "mem_stored (consume_workflow (mem_host R reg) mem_sys w) = mem_stored w \<and>
         mem_queued (consume_workflow (mem_host R reg) mem_sys w) QWorkflow = rest"
proof -
  from assms(1) obtain q where q: "map_of (mw_queues w) QWorkflow = Some q" "q = wid # rest"
    by (auto simp: mem_queued_def unwrap_or_def split: option.splits)
  let ?w1 = "w\<lparr>mw_queues := AList.update QWorkflow rest (mw_queues w)\<rparr>"
  have deq: "mem_dequeue_work QWorkflow w = (Inr (Some wid), ?w1)" using q by (simp add: mem_dequeue_work_def)
  have get: "mem_get_workflow_instance wid v = (Inr inst, v)" if "mw_workflows v = mw_workflows w" for v
    using assms(3) that by (simp add: mem_get_workflow_instance_def mem_stored_def ok_or_def)
  have svc: "execute_with_services (mem_host R reg) mem_sys wid d ?w1 =
      snd (execute (mem_executor (Some mem_lifecycle) None) mem_sys wid d reg
        (Some (host_context_of (mem_host R reg) mem_sys)) ?w1)"
    by (simp add: execute_with_services_def)
  have "snd (execute (mem_executor (Some mem_lifecycle) None) mem_sys wid d reg
        (Some (host_context_of (mem_host R reg) mem_sys)) ?w1) =
      ?w1\<lparr>mw_locks := insert wid (mw_locks w) - {wid}, mw_ticks := Suc (mw_ticks w)\<rparr>"
    using assms(2,4,7-10)
    by (simp add: execute_def execute_inner_def mem_acquire_lock_def mem_release_lock_def get mem_now_def
        execute_pointer_def)
  then show ?thesis
    using assms(5,6) by (simp add: consume_workflow_def deq get svc mem_stored_def mem_queued_def update_conv' unwrap_or_def)
qed

text \<open>A step with a condition that compares a string with a number.\<close>

definition bad_condition :: step_condition where
  "bad_condition = Comparison \<lparr>fc_field = ''x'', fc_operator = Gt, fc_value = Some (JNumber (PosInt 1))\<rparr>"

definition bad_definition :: workflow_definition where
  "bad_definition = (workflow_definition_new ''two'' 1)
     \<lparr>wd_steps := [(workflow_step_new 0 ''pass'')\<lparr>ws_when := Some bad_condition\<rparr>]\<rparr>"

theorem condition_error_strands_witness:
  "mem_queued (consume_workflow (mem_host [((''two'', 1), bad_definition)] pass_registry) mem_sys
     (sample_world\<lparr>mw_workflows := [(''i'', sample_instance\<lparr>wi_data := JObject [(''x'', JString ''a'')]\<rparr>)],
        mw_queues := [(QWorkflow, [''i''])]\<rparr>)) QWorkflow = []"
proof -
  let ?inst = "sample_instance\<lparr>wi_data := JObject [(''x'', JString ''a'')]\<rparr>"
  let ?w = "sample_world\<lparr>mw_workflows := [(''i'', ?inst)], mw_queues := [(QWorkflow, [''i''])]\<rparr>"
  let ?R = "[((''two'', 1), bad_definition)]"
  have a: "mem_queued ?w QWorkflow = [''i'']" "''i'' \<notin> mw_locks ?w" "mem_stored ?w ''i'' = Some ?inst"
    "wi_status ?inst = Runnable"
    by (simp_all add: mem_queued_def unwrap_or_def mem_stored_def sample_defs mem_new_def workflow_instance_new_def)
  have b: "get_definition ?R (wi_workflow_definition_id ?inst) (Some (wi_version ?inst)) = Some bad_definition"
    "can_execute_workflow bad_definition pass_registry None"
    by (simp_all add: get_definition_def sample_instance_def workflow_instance_new_def can_execute_workflow_def
        bad_definition_def workflow_definition_new_def workflow_step_new_def resolve_def pass_registry_def
        register_factory_def)
  have c: "runnable_indices (wi_execution_pointers ?inst) (mw_clock ?w (mw_ticks ?w)) = [0]"
    by (simp add: runnable_indices_def is_pointer_runnable_def sample_instance_def)
  have d: "find_step bad_definition (ep_step_id (wi_execution_pointers ?inst ! 0)) =
      Some ((workflow_step_new 0 ''pass'')\<lparr>ws_when := Some bad_condition\<rparr>)"
    by (simp add: find_step_def bad_definition_def sample_instance_def workflow_step_new_def)
  have e: "evaluate bad_condition (wi_data ?inst) =
      Inl (StepExecution (MsgJson ''cannot compare non-numeric field value: '' (JString ''a'')))"
    by (simp add: bad_condition_def evaluate_def evaluate_comparison_def resolve_field_path_def strip_prefix_str_def
        unwrap_or_def parse_u64_def parse_digits_def is_digit_def compare_numeric_def as_f64_def eval_fail_def)
  from condition_error_strands[OF a b c d _ e] show ?thesis by simp
qed

text \<open>A registry whose only step terminates the workflow it runs in, through the host.\<close>

definition terminating_registry :: "mem_world step_registry" where
  "terminating_registry = register_factory step_registry_new ''pass''
     (default_step_body (\<lambda>_ w. (Inr result_next, snd (terminate_workflow (mem_host [] Map.empty) mem_sys ''i'' w))))"

text \<open>
  A termination during a step is overwritten. The control operations do not take the lock
  of the instance, so one that arrives while a step of the instance runs is persisted, announced and
  answered with success, and then lost when the pass persists its own copy: here the step of the
  sample terminates its own workflow while it runs, and the stored instance is runnable afterwards.
\<close>

theorem concurrent_terminate_is_lost:
  "\<exists>w' inst'. execute (mem_executor None None) mem_sys ''i'' two_steps terminating_registry None sample_world =
      (Inr (), w') \<and> map le_event_type (mw_published w') = [LTerminated] \<and>
     mem_stored w' ''i'' = Some inst' \<and> wi_status inst' = Runnable \<and> wi_complete_time inst' = None"
  by (simp add: sample_defs terminating_registry_def executor_eval mem_stored_def terminate_workflow_def
      get_workflow_def host_publish_def lifecycle_event_new_def ok_or_def)

text \<open>
  the time a sleeping pointer wakes is never used for scheduling. For pointers that satisfy
  the pointer invariant, \<open>next_execution\<close> is either at once or absent: a sleeping pointer is active,
  so the branch that looks for the earliest \<open>sleep_until\<close> finds none, and the instance is queued again
  immediately, for as long as the pointer sleeps.
\<close>

theorem next_execution_ignores_sleep:
  assumes "\<forall>p \<in> set (wi_execution_pointers inst). pointer_ok p"
  shows "next_execution_of inst = (if has_active inst then Some 0 else None)"
proof (cases "has_active inst")
  case False
  with assms have "filter (\<lambda>p. ep_status p = Sleeping) (wi_execution_pointers inst) = []"
    by (auto simp: filter_empty_conv has_active_def list_ex_iff pointer_ok_def)
  with False show ?thesis by (simp add: next_execution_of_def List.map_filter_def)
qed (simp add: next_execution_of_def)

theorem next_execution_ignores_sleep_witness:
  "next_execution_of (sample_instance\<lparr>wi_execution_pointers :=
     [(execution_pointer_new ''p'' 0)\<lparr>ep_status := Sleeping, ep_sleep_until := Some 1000000000\<rparr>]\<rparr>) = Some 0"
  using next_execution_ignores_sleep[of "sample_instance\<lparr>wi_execution_pointers :=
     [(execution_pointer_new ''p'' 0)\<lparr>ep_status := Sleeping, ep_sleep_until := Some 1000000000\<rparr>]\<rparr>"]
  by (simp add: pointer_ok_def has_active_def)

end
