(* ===== verification/Yaml_Spec.thy ===== *)
theory Yaml_Spec
  imports Schema Primitives
begin

text \<open>
  The deserialised YAML workflow files (\<open>wfe-yaml/src/schema.rs\<close>, \<open>error.rs\<close>). Hash maps are
  association lists in the order in which the program happens to iterate over them.
  \<open>all_steps\<close> lists the steps of a file with the steps nested in them, which is what the recursive
  passes over the file visit.
\<close>

section \<open>Errors\<close>

datatype yaml_error =
    Parse string | UnresolvedVariable string | Validation string | Compilation string | Io string

section \<open>Values and conditions\<close>

text \<open>
  \<open>serde_yaml::Value\<close>. A number is a \<open>u64\<close>, a negative \<open>i64\<close> or a float, which in YAML
  may also be infinite or not a number.
\<close>

datatype yaml_number = YPosInt u64 | YNegInt u64 | YFloat rat | YNonFinite

datatype yaml_value =
    YNull
  | YBool bool
  | YNumber yaml_number
  | YString string
  | YSequence "yaml_value list"
  | YMapping "(yaml_value \<times> yaml_value) list"
  | YTagged string yaml_value

record yaml_comparison =
  yc_field :: string
  yc_equals :: "yaml_value option"
  yc_not_equals :: "yaml_value option"
  yc_gt :: "yaml_value option"
  yc_gte :: "yaml_value option"
  yc_lt :: "yaml_value option"
  yc_lte :: "yaml_value option"
  yc_contains :: "yaml_value option"
  yc_is_null :: "bool option"
  yc_is_not_null :: "bool option"

definition comparison_on :: "string \<Rightarrow> yaml_comparison" where
  "comparison_on f =
     \<lparr>yc_field = f, yc_equals = None, yc_not_equals = None, yc_gt = None, yc_gte = None, yc_lt = None,
      yc_lte = None, yc_contains = None, yc_is_null = None, yc_is_not_null = None\<rparr>"

datatype yaml_condition =
    YComparison yaml_comparison
  | YCombinator yaml_combinator
and yaml_combinator =
    YamlCombinator
      (yk_all: "yaml_condition list option")
      (yk_any: "yaml_condition list option")
      (yk_none: "yaml_condition list option")
      (yk_one_of: "yaml_condition list option")
      (yk_not: "yaml_condition option")

text \<open>\<open>iter().flatten()\<close> on an optional vector.\<close>

definition flat :: "'a list option \<Rightarrow> 'a list" where
  "flat xs = unwrap_or xs []"

section \<open>Steps\<close>

record data_ref =
  dr_name :: string
  dr_path :: "string option"
  dr_json_path :: "string option"

record yaml_error_behavior =
  yeb_behavior_type :: string
  yeb_interval :: "string option"
  yeb_max_retries :: "u32 option"

record deno_permissions_yaml =
  dp_net :: "string list"
  dp_read :: "string list"
  dp_write :: "string list"
  dp_env :: "string list"
  dp_run :: bool
  dp_dynamic_import :: bool

record tls_config =
  tls_ca :: "string option"
  tls_cert :: "string option"
  tls_key :: "string option"

record registry_auth =
  ra_username :: string
  ra_password :: string

record volume_mount =
  vm_source :: string
  vm_target :: string
  vm_readonly :: bool

text \<open>
  \<open>StepConfig\<close> is one flat struct; its groups of fields are record extensions of one another.
\<close>

record step_config_shell =
  sc_run :: "string option"
  sc_file :: "string option"
  sc_script :: "string option"
  sc_shell :: "string option"
  sc_env :: "(string \<times> string) list"
  sc_timeout :: "string option"
  sc_working_dir :: "string option"
  sc_inputs :: "(string \<times> string) list"

record step_config_git = step_config_shell +
  sc_branch :: "string option"
  sc_commit :: "string option"
  sc_depth :: "u32 option"
  sc_input :: "string option"

record step_config_deno = step_config_git +
  sc_permissions :: "deno_permissions_yaml option"
  sc_modules :: "string list"

record step_config_buildkit = step_config_deno +
  sc_dockerfile :: "string option"
  sc_context :: "string option"
  sc_target :: "string option"
  sc_tags :: "string list"
  sc_build_args :: "(string \<times> string) list"
  sc_cache_from :: "string list"
  sc_cache_to :: "string list"
  sc_push :: "bool option"
  sc_output_type :: "string option"
  sc_output_dest :: "string option"
  sc_buildkit_addr :: "string option"
  sc_tls :: "tls_config option"
  sc_registry_auth :: "(string \<times> registry_auth) list option"

record step_config_containerd = step_config_buildkit +
  sc_image :: "string option"
  sc_command :: "string list option"
  sc_volumes :: "volume_mount list"
  sc_user :: "string option"
  sc_network :: "string option"
  sc_memory :: "string option"
  sc_cpu :: "string option"
  sc_pull :: "string option"
  sc_containerd_addr :: "string option"
  sc_cli :: "string option"

record step_config_kubernetes = step_config_containerd +
  sc_kubeconfig :: "string option"
  sc_namespace :: "string option"
  sc_pull_policy :: "string option"
  sc_artifact_outputs :: "(string \<times> string) list"

record step_config_rust = step_config_kubernetes +
  sc_package :: "string option"
  sc_features :: "string list"
  sc_all_features :: "bool option"
  sc_no_default_features :: "bool option"
  sc_release :: "bool option"
  sc_profile :: "string option"
  sc_toolchain :: "string option"
  sc_extra_args :: "string list"
  sc_output_dir :: "string option"
  sc_components :: "string list"
  sc_targets :: "string list"
  sc_default_toolchain :: "string option"

record step_config = step_config_rust +
  sc_child_workflow :: "string option"
  sc_child_version :: "u32 option"

definition empty_config :: step_config where
  "empty_config =
     \<lparr>sc_run = None, sc_file = None, sc_script = None, sc_shell = None, sc_env = [], sc_timeout = None,
      sc_working_dir = None, sc_inputs = [], sc_branch = None, sc_commit = None, sc_depth = None,
      sc_input = None, sc_permissions = None, sc_modules = [], sc_dockerfile = None, sc_context = None,
      sc_target = None, sc_tags = [], sc_build_args = [], sc_cache_from = [], sc_cache_to = [],
      sc_push = None, sc_output_type = None, sc_output_dest = None, sc_buildkit_addr = None,
      sc_tls = None, sc_registry_auth = None, sc_image = None, sc_command = None, sc_volumes = [],
      sc_user = None, sc_network = None, sc_memory = None, sc_cpu = None, sc_pull = None,
      sc_containerd_addr = None, sc_cli = None, sc_kubeconfig = None, sc_namespace = None,
      sc_pull_policy = None, sc_artifact_outputs = [], sc_package = None, sc_features = [],
      sc_all_features = None, sc_no_default_features = None, sc_release = None, sc_profile = None,
      sc_toolchain = None, sc_extra_args = [], sc_output_dir = None, sc_components = [],
      sc_targets = [], sc_default_toolchain = None, sc_child_workflow = None, sc_child_version = None\<rparr>"

datatype yaml_step =
  YamlStep
    (ys_name: string)
    (ys_step_type: "string option")
    (ys_config: "step_config option")
    (ys_inputs: "data_ref list")
    (ys_outputs: "data_ref list")
    (ys_parallel: "yaml_step list option")
    (ys_error_behavior: "yaml_error_behavior option")
    (ys_on_success: "yaml_step option")
    (ys_on_failure: "yaml_step option")
    (ys_ensure: "yaml_step option")
    (ys_when: "yaml_condition option")

text \<open>A step with a type and a configuration and nothing else.\<close>

definition plain_step :: "string \<Rightarrow> string \<Rightarrow> step_config \<Rightarrow> yaml_step" where
  "plain_step name type config = YamlStep name (Some type) (Some config) [] [] None None None None None None"

lemma plain_step_simps [simp]:
  "ys_name (plain_step n t c) = n"
  "ys_step_type (plain_step n t c) = Some t"
  "ys_config (plain_step n t c) = Some c"
  "ys_outputs (plain_step n t c) = []"
  "ys_parallel (plain_step n t c) = None"
  "ys_error_behavior (plain_step n t c) = None"
  "ys_on_success (plain_step n t c) = None"
  "ys_on_failure (plain_step n t c) = None"
  "ys_ensure (plain_step n t c) = None"
  "ys_when (plain_step n t c) = None"
  by (simp_all add: plain_step_def)

section \<open>Workflows\<close>

record yaml_http_get =
  yh_port :: u16
  yh_path :: string

record yaml_readiness =
  yr_exec :: "string list option"
  yr_tcp :: "u16 option"
  yr_http :: "yaml_http_get option"
  yr_interval :: "string option"
  yr_timeout :: "string option"
  yr_retries :: "u32 option"

record yaml_service =
  yv_image :: string
  yv_ports :: "u16 list"
  yv_env :: "(string \<times> string) list"
  yv_readiness :: "yaml_readiness option"
  yv_memory :: "string option"
  yv_cpu :: "string option"
  yv_command :: "string list option"
  yv_args :: "string list option"

record yaml_shared_volume =
  yl_mount_path :: string
  yl_size :: "string option"

record workflow_spec =
  spec_id :: string
  spec_name :: "string option"
  spec_version :: u32
  spec_description :: "string option"
  spec_error_behavior :: "yaml_error_behavior option"
  spec_steps :: "yaml_step list"
  spec_inputs :: "(string \<times> string) list"
  spec_outputs :: "(string \<times> string) list"
  spec_services :: "(string \<times> yaml_service) list"
  spec_shared_volume :: "yaml_shared_volume option"

definition plain_spec :: "string \<Rightarrow> yaml_step list \<Rightarrow> workflow_spec" where
  "plain_spec i steps =
     \<lparr>spec_id = i, spec_name = None, spec_version = 1, spec_description = None, spec_error_behavior = None,
      spec_steps = steps, spec_inputs = [], spec_outputs = [], spec_services = [], spec_shared_volume = None\<rparr>"

record yaml_workflow_file =
  yf_workflow :: "workflow_spec option"
  yf_workflows :: "workflow_spec list option"

section \<open>Sizes\<close>

text \<open>The recursive passes go from a step to its nested steps; these facts are their termination.\<close>

lemma nested_step_size:
  "ys_parallel s = Some cs \<Longrightarrow> size_list size cs < size s"
  "ys_on_success s = Some h \<Longrightarrow> Suc (size h) < size s"
  "ys_on_failure s = Some h \<Longrightarrow> Suc (size h) < size s"
  "ys_ensure s = Some h \<Longrightarrow> Suc (size h) < size s"
  by (cases s; simp)+

text \<open>The nested steps in the order of the recursive passes: the step, its children, its hooks.\<close>

function all_steps :: "yaml_step list \<Rightarrow> yaml_step list" where
  "all_steps [] = []"
| "all_steps (s # rest) =
     s # (case ys_parallel s of None \<Rightarrow> [] | Some cs \<Rightarrow> all_steps cs)
       @ (case ys_on_success s of None \<Rightarrow> [] | Some h \<Rightarrow> all_steps [h])
       @ (case ys_on_failure s of None \<Rightarrow> [] | Some h \<Rightarrow> all_steps [h])
       @ (case ys_ensure s of None \<Rightarrow> [] | Some h \<Rightarrow> all_steps [h])
       @ all_steps rest"
  by pat_completeness auto
termination
  by (relation "measure (size_list size)") (auto dest: nested_step_size)

definition own_steps :: "yaml_step \<Rightarrow> yaml_step list" where
  "own_steps ys = ys # (case ys_parallel ys of None \<Rightarrow> [] | Some cs \<Rightarrow> all_steps cs)
     @ (case ys_on_success ys of None \<Rightarrow> [] | Some h \<Rightarrow> all_steps [h])
     @ (case ys_on_failure ys of None \<Rightarrow> [] | Some h \<Rightarrow> all_steps [h])
     @ (case ys_ensure ys of None \<Rightarrow> [] | Some h \<Rightarrow> all_steps [h])"

lemma all_steps_Cons: "all_steps (ys # rest) = own_steps ys @ all_steps rest"
  unfolding own_steps_def all_steps.simps(2)[of ys rest] by (simp only: append_Cons append_assoc)

text \<open>As rewrite rules the equations do not terminate on the hooks of an unknown step.\<close>

declare all_steps.simps(2) [simp del]

end
