(* ===== verification/Yaml_Config.thy ===== *)
theory Yaml_Config
  imports Yaml_Spec
begin

text \<open>
  The configurations of the step executors and how the YAML compiler builds them
  (\<open>wfe-yaml/src/compiler.rs\<close>, the \<open>build_*_config\<close> functions, and the configuration types of the
  executor crates), with the JSON value that \<open>serde\<close> makes of each: the compiler stores it as the
  configuration of the step. Executors behind a feature flag are selected by a record of flags. An
  executor itself runs an external tool; the factory the compiler registers for it is represented
  by the configuration it is closed over.
\<close>

section \<open>Serialisation\<close>

definition json_opt :: "('a \<Rightarrow> json) \<Rightarrow> 'a option \<Rightarrow> json" where
  "json_opt f v = (case v of None \<Rightarrow> JNull | Some x \<Rightarrow> f x)"

definition json_strings :: "string list \<Rightarrow> json" where
  "json_strings ss = JArray (map JString ss)"

definition json_string_map :: "(string \<times> string) list \<Rightarrow> json" where
  "json_string_map m = json_object (map (\<lambda>(k, v). (k, JString v)) m)"

definition json_u64 :: "u64 \<Rightarrow> json" where
  "json_u64 n = JNumber (PosInt n)"

definition json_u32 :: "u32 \<Rightarrow> json" where
  "json_u32 n = JNumber (PosInt (ucast n))"

section \<open>Durations\<close>

text \<open>
  The products are \<open>u64\<close> products, which wrap around in a release build.
\<close>

definition parse_duration_ms :: "string \<Rightarrow> u64 option" where
  "parse_duration_ms s0 =
     (let s = trim s0 in
      case strip_suffix_str ''ms'' s of
        Some ms \<Rightarrow> map_option word_of_nat (parse_u64 (trim ms))
      | None \<Rightarrow>
      case strip_suffix_str ''s'' s of
        Some secs \<Rightarrow> map_option (\<lambda>v. word_of_nat v * 1000) (parse_u64 (trim secs))
      | None \<Rightarrow>
      case strip_suffix_str ''m'' s of
        Some mins \<Rightarrow> map_option (\<lambda>v. word_of_nat v * 60 * 1000) (parse_u64 (trim mins))
      | None \<Rightarrow> map_option word_of_nat (parse_u64 s))"

definition timeout_ms :: "step_config option \<Rightarrow> u64 option" where
  "timeout_ms c = and_then (and_then c sc_timeout) parse_duration_ms"

section \<open>Configurations\<close>

record shell_config =
  sh_run :: string
  sh_shell :: string
  sh_env :: "(string \<times> string) list"
  sh_working_dir :: "string option"
  sh_timeout_ms :: "u64 option"
  sh_inputs :: "(string \<times> string) list option"

definition shell_json :: "shell_config \<Rightarrow> json" where
  "shell_json c = json_object
     [(''run'', JString (sh_run c)), (''shell'', JString (sh_shell c)), (''env'', json_string_map (sh_env c)),
      (''working_dir'', json_opt JString (sh_working_dir c)), (''timeout_ms'', json_opt json_u64 (sh_timeout_ms c)),
      (''inputs'', json_opt json_string_map (sh_inputs c))]"

record git_repo_config =
  gr_url :: string
  gr_branch :: "string option"
  gr_commit :: "string option"
  gr_depth :: "u32 option"
  gr_path :: string
  gr_output :: string
  gr_input :: "string option"

definition git_repo_json :: "git_repo_config \<Rightarrow> json" where
  "git_repo_json c = json_object
     [(''url'', JString (gr_url c)), (''branch'', json_opt JString (gr_branch c)),
      (''commit'', json_opt JString (gr_commit c)), (''depth'', json_opt json_u32 (gr_depth c)),
      (''path'', JString (gr_path c)), (''output'', JString (gr_output c)),
      (''input'', json_opt JString (gr_input c))]"

record deno_config =
  dc_script :: "string option"
  dc_file :: "string option"
  dc_permissions :: deno_permissions_yaml
  dc_modules :: "string list"
  dc_env :: "(string \<times> string) list"
  dc_timeout_ms :: "u64 option"

definition deno_permissions_default :: deno_permissions_yaml where
  "deno_permissions_default =
     \<lparr>dp_net = [], dp_read = [], dp_write = [], dp_env = [], dp_run = False, dp_dynamic_import = False\<rparr>"

definition deno_permissions_json :: "deno_permissions_yaml \<Rightarrow> json" where
  "deno_permissions_json p = json_object
     [(''net'', json_strings (dp_net p)), (''read'', json_strings (dp_read p)),
      (''write'', json_strings (dp_write p)), (''env'', json_strings (dp_env p)),
      (''run'', JBool (dp_run p)), (''dynamic_import'', JBool (dp_dynamic_import p))]"

definition deno_json :: "deno_config \<Rightarrow> json" where
  "deno_json c = json_object
     [(''script'', json_opt JString (dc_script c)), (''file'', json_opt JString (dc_file c)),
      (''permissions'', deno_permissions_json (dc_permissions c)), (''modules'', json_strings (dc_modules c)),
      (''env'', json_string_map (dc_env c)), (''timeout_ms'', json_opt json_u64 (dc_timeout_ms c))]"

definition tls_default :: tls_config where
  "tls_default = \<lparr>tls_ca = None, tls_cert = None, tls_key = None\<rparr>"

definition tls_json :: "tls_config \<Rightarrow> json" where
  "tls_json t = json_object
     [(''ca'', json_opt JString (tls_ca t)), (''cert'', json_opt JString (tls_cert t)),
      (''key'', json_opt JString (tls_key t))]"

definition registry_auth_json :: "(string \<times> registry_auth) list \<Rightarrow> json" where
  "registry_auth_json ra = json_object
     (map (\<lambda>(k, a). (k, json_object [(''username'', JString (ra_username a)), (''password'', JString (ra_password a))])) ra)"

record buildkit_config =
  bk_dockerfile :: string
  bk_context :: string
  bk_target :: "string option"
  bk_tags :: "string list"
  bk_build_args :: "(string \<times> string) list"
  bk_cache_from :: "string list"
  bk_cache_to :: "string list"
  bk_push :: bool
  bk_output_type :: "string option"
  bk_output_dest :: "string option"
  bk_buildkit_addr :: string
  bk_tls :: tls_config
  bk_registry_auth :: "(string \<times> registry_auth) list"
  bk_inputs :: "(string \<times> string) list option"
  bk_input :: "string option"
  bk_timeout_ms :: "u64 option"

definition buildkit_json :: "buildkit_config \<Rightarrow> json" where
  "buildkit_json c = json_object
     [(''dockerfile'', JString (bk_dockerfile c)), (''context'', JString (bk_context c)),
      (''target'', json_opt JString (bk_target c)), (''tags'', json_strings (bk_tags c)),
      (''build_args'', json_string_map (bk_build_args c)), (''cache_from'', json_strings (bk_cache_from c)),
      (''cache_to'', json_strings (bk_cache_to c)), (''push'', JBool (bk_push c)),
      (''output_type'', json_opt JString (bk_output_type c)), (''output_dest'', json_opt JString (bk_output_dest c)),
      (''buildkit_addr'', JString (bk_buildkit_addr c)), (''tls'', tls_json (bk_tls c)),
      (''registry_auth'', registry_auth_json (bk_registry_auth c)),
      (''inputs'', json_opt json_string_map (bk_inputs c)), (''input'', json_opt JString (bk_input c)),
      (''timeout_ms'', json_opt json_u64 (bk_timeout_ms c))]"

record containerd_config =
  cd_image :: string
  cd_command :: "string list option"
  cd_run :: "string option"
  cd_env :: "(string \<times> string) list"
  cd_volumes :: "volume_mount list"
  cd_working_dir :: "string option"
  cd_user :: string
  cd_network :: string
  cd_memory :: "string option"
  cd_cpu :: "string option"
  cd_pull :: string
  cd_containerd_addr :: string
  cd_cli :: string
  cd_tls :: tls_config
  cd_registry_auth :: "(string \<times> registry_auth) list"
  cd_inputs :: "(string \<times> string) list option"
  cd_timeout_ms :: "u64 option"

definition containerd_json :: "containerd_config \<Rightarrow> json" where
  "containerd_json c = json_object
     [(''image'', JString (cd_image c)), (''command'', json_opt json_strings (cd_command c)),
      (''run'', json_opt JString (cd_run c)), (''env'', json_string_map (cd_env c)),
      (''volumes'', JArray (map (\<lambda>v. json_object
          [(''source'', JString (vm_source v)), (''target'', JString (vm_target v)), (''readonly'', JBool (vm_readonly v))])
        (cd_volumes c))),
      (''working_dir'', json_opt JString (cd_working_dir c)), (''user'', JString (cd_user c)),
      (''network'', JString (cd_network c)), (''memory'', json_opt JString (cd_memory c)),
      (''cpu'', json_opt JString (cd_cpu c)), (''pull'', JString (cd_pull c)),
      (''containerd_addr'', JString (cd_containerd_addr c)), (''cli'', JString (cd_cli c)),
      (''tls'', tls_json (cd_tls c)), (''registry_auth'', registry_auth_json (cd_registry_auth c)),
      (''inputs'', json_opt json_string_map (cd_inputs c)), (''timeout_ms'', json_opt json_u64 (cd_timeout_ms c))]"

record cluster_config =
  cc_kubeconfig :: "string option"
  cc_namespace_prefix :: string
  cc_service_account :: "string option"
  cc_image_pull_secrets :: "string list"
  cc_node_selector :: "(string \<times> string) list"
  cc_default_shared_volume_size :: string
  cc_shared_volume_storage_class :: "string option"

definition cluster_config_default :: cluster_config where
  "cluster_config_default =
     \<lparr>cc_kubeconfig = None, cc_namespace_prefix = ''wfe-'', cc_service_account = None,
      cc_image_pull_secrets = [], cc_node_selector = [], cc_default_shared_volume_size = ''10Gi'',
      cc_shared_volume_storage_class = None\<rparr>"

record kubernetes_step_config =
  ks_image :: string
  ks_command :: "string list option"
  ks_run :: "string option"
  ks_shell :: "string option"
  ks_env :: "(string \<times> string) list"
  ks_working_dir :: "string option"
  ks_memory :: "string option"
  ks_cpu :: "string option"
  ks_timeout_ms :: "u64 option"
  ks_pull_policy :: "string option"
  ks_namespace :: "string option"
  ks_artifact_outputs :: "(string \<times> string) list"

definition kubernetes_json :: "kubernetes_step_config \<Rightarrow> json" where
  "kubernetes_json c = json_object
     [(''image'', JString (ks_image c)), (''command'', json_opt json_strings (ks_command c)),
      (''run'', json_opt JString (ks_run c)), (''shell'', json_opt JString (ks_shell c)),
      (''env'', json_string_map (ks_env c)), (''working_dir'', json_opt JString (ks_working_dir c)),
      (''memory'', json_opt JString (ks_memory c)), (''cpu'', json_opt JString (ks_cpu c)),
      (''timeout_ms'', json_opt json_u64 (ks_timeout_ms c)), (''pull_policy'', json_opt JString (ks_pull_policy c)),
      (''namespace'', json_opt JString (ks_namespace c)),
      (''artifact_outputs'', json_string_map (ks_artifact_outputs c))]"

datatype cargo_command =
    Build | Test | Check | Clippy | Fmt | Doc | Publish | Audit | Deny | Nextest | LlvmCov | DocMdx

fun cargo_as_str :: "cargo_command \<Rightarrow> string" where
  "cargo_as_str Build = ''build''"
| "cargo_as_str Test = ''test''"
| "cargo_as_str Check = ''check''"
| "cargo_as_str Clippy = ''clippy''"
| "cargo_as_str Fmt = ''fmt''"
| "cargo_as_str Doc = ''doc''"
| "cargo_as_str Publish = ''publish''"
| "cargo_as_str Audit = ''audit''"
| "cargo_as_str Deny = ''deny''"
| "cargo_as_str Nextest = ''nextest''"
| "cargo_as_str LlvmCov = ''llvm-cov''"
| "cargo_as_str DocMdx = ''doc-mdx''"

record cargo_config =
  cg_command :: cargo_command
  cg_toolchain :: "string option"
  cg_package :: "string option"
  cg_features :: "string list"
  cg_all_features :: bool
  cg_no_default_features :: bool
  cg_release :: bool
  cg_target :: "string option"
  cg_profile :: "string option"
  cg_extra_args :: "string list"
  cg_env :: "(string \<times> string) list"
  cg_working_dir :: "string option"
  cg_timeout_ms :: "u64 option"
  cg_output_dir :: "string option"

definition cargo_json :: "cargo_config \<Rightarrow> json" where
  "cargo_json c = json_object
     [(''command'', JString (cargo_as_str (cg_command c))), (''toolchain'', json_opt JString (cg_toolchain c)),
      (''package'', json_opt JString (cg_package c)), (''features'', json_strings (cg_features c)),
      (''all_features'', JBool (cg_all_features c)), (''no_default_features'', JBool (cg_no_default_features c)),
      (''release'', JBool (cg_release c)), (''target'', json_opt JString (cg_target c)),
      (''profile'', json_opt JString (cg_profile c)), (''extra_args'', json_strings (cg_extra_args c)),
      (''env'', json_string_map (cg_env c)), (''working_dir'', json_opt JString (cg_working_dir c)),
      (''timeout_ms'', json_opt json_u64 (cg_timeout_ms c)), (''output_dir'', json_opt JString (cg_output_dir c))]"

datatype rustup_command = Install | ToolchainInstall | ComponentAdd | TargetAdd

fun rustup_as_str :: "rustup_command \<Rightarrow> string" where
  "rustup_as_str Install = ''install''"
| "rustup_as_str ToolchainInstall = ''toolchain-install''"
| "rustup_as_str ComponentAdd = ''component-add''"
| "rustup_as_str TargetAdd = ''target-add''"

record rustup_config =
  ru_command :: rustup_command
  ru_toolchain :: "string option"
  ru_components :: "string list"
  ru_targets :: "string list"
  ru_profile :: "string option"
  ru_default_toolchain :: "string option"
  ru_extra_args :: "string list"
  ru_timeout_ms :: "u64 option"

definition rustup_json :: "rustup_config \<Rightarrow> json" where
  "rustup_json c = json_object
     [(''command'', JString (rustup_as_str (ru_command c))), (''toolchain'', json_opt JString (ru_toolchain c)),
      (''components'', json_strings (ru_components c)), (''targets'', json_strings (ru_targets c)),
      (''profile'', json_opt JString (ru_profile c)), (''default_toolchain'', json_opt JString (ru_default_toolchain c)),
      (''extra_args'', json_strings (ru_extra_args c)), (''timeout_ms'', json_opt json_u64 (ru_timeout_ms c))]"

record sub_workflow_config =
  swc_workflow_id :: string
  swc_version :: u32
  swc_output_keys :: "string list"

definition sub_workflow_json :: "sub_workflow_config \<Rightarrow> json" where
  "sub_workflow_json c = json_object
     [(''workflow_id'', JString (swc_workflow_id c)), (''version'', json_u32 (swc_version c)),
      (''output_keys'', json_strings (swc_output_keys c))]"

datatype step_factory =
    ShellFactory shell_config
  | DenoFactory deno_config
  | BuildkitFactory buildkit_config
  | ContainerdFactory containerd_config
  | KubernetesFactory kubernetes_step_config cluster_config
  | CargoFactory cargo_config
  | RustupFactory rustup_config
  | GitRepoFactory git_repo_config
  | SubWorkflowFactory sub_workflow_step

section \<open>Building configurations\<close>

definition compilation :: "string \<Rightarrow> yaml_error + 'a" where
  "compilation msg = Inl (Compilation msg)"

definition need_config :: "string \<Rightarrow> yaml_step \<Rightarrow> (step_config \<Rightarrow> yaml_error + 'a) \<Rightarrow> yaml_error + 'a" where
  "need_config kind s k =
     (case ys_config s of
        None \<Rightarrow> compilation (kind @ '' '' @ quoted (ys_name s) @ '' is missing 'config' section'')
      | Some c \<Rightarrow> k c)"

definition need :: "'a option \<Rightarrow> string \<Rightarrow> yaml_step \<Rightarrow> string \<Rightarrow> ('a \<Rightarrow> yaml_error + 'b) \<Rightarrow> yaml_error + 'b" where
  "need v kind s what k =
     (case v of
        None \<Rightarrow> compilation (kind @ '' '' @ quoted (ys_name s) @ what)
      | Some x \<Rightarrow> k x)"

definition nonempty :: "'a list \<Rightarrow> 'a list option" where
  "nonempty m = (if m = [] then None else Some m)"

definition build_shell_config :: "yaml_step \<Rightarrow> yaml_error + shell_config" where
  "build_shell_config s = need_config ''Step'' s (\<lambda>c.
     need (option_or (sc_run c) (option_or (map_option ((@) ''sh '') (sc_file c)) (sc_script c)))
       ''Step'' s '' must have 'run', 'file', or 'script' in config'' (\<lambda>run.
     Inr \<lparr>sh_run = run, sh_shell = unwrap_or (sc_shell c) ''sh'', sh_env = sc_env c,
          sh_working_dir = sc_working_dir c, sh_timeout_ms = timeout_ms (Some c),
          sh_inputs = nonempty (sc_inputs c)\<rparr>))"

definition build_deno_config :: "yaml_step \<Rightarrow> yaml_error + deno_config" where
  "build_deno_config s = need_config ''Deno step'' s (\<lambda>c.
     if sc_script c = None \<and> sc_file c = None
     then compilation (''Deno step '' @ quoted (ys_name s) @ '' must have 'script' or 'file' in config'')
     else Inr \<lparr>dc_script = sc_script c, dc_file = sc_file c,
          dc_permissions = unwrap_or (sc_permissions c) deno_permissions_default,
          dc_modules = sc_modules c, dc_env = sc_env c, dc_timeout_ms = timeout_ms (Some c)\<rparr>)"

definition build_git_repo_config :: "yaml_step \<Rightarrow> yaml_error + git_repo_config" where
  "build_git_repo_config s = need_config ''git-repo step'' s (\<lambda>c.
     need (option_or (sc_run c) (sc_script c)) ''git-repo step'' s '' must have 'config.run' (the remote URL)'' (\<lambda>url.
     Inr \<lparr>gr_url = url, gr_branch = sc_branch c, gr_commit = sc_commit c, gr_depth = sc_depth c,
          gr_path = unwrap_or (sc_working_dir c) ''/workspace/repo'', gr_output = ys_name s,
          gr_input = sc_input c\<rparr>))"

definition cargo_commands :: "(string \<times> cargo_command) list" where
  "cargo_commands =
     [(''cargo-build'', Build), (''cargo-test'', Test), (''cargo-check'', Check), (''cargo-clippy'', Clippy),
      (''cargo-fmt'', Fmt), (''cargo-doc'', Doc), (''cargo-publish'', Publish), (''cargo-audit'', Audit),
      (''cargo-deny'', Deny), (''cargo-nextest'', Nextest), (''cargo-llvm-cov'', LlvmCov), (''cargo-doc-mdx'', DocMdx)]"

text \<open>\<open>config.map(f).unwrap_or_default()\<close> and \<open>config.and_then(f)\<close> on an optional section.\<close>

definition list_of :: "step_config option \<Rightarrow> (step_config \<Rightarrow> 'a list) \<Rightarrow> 'a list" where
  "list_of c f = unwrap_or (map_option f c) []"

definition flag_of :: "step_config option \<Rightarrow> (step_config \<Rightarrow> bool option) \<Rightarrow> bool" where
  "flag_of c f = unwrap_or (and_then c f) False"

definition build_cargo_config :: "yaml_step \<Rightarrow> string \<Rightarrow> yaml_error + cargo_config" where
  "build_cargo_config s step_type =
     (case map_of cargo_commands step_type of
        None \<Rightarrow> compilation (''Unknown cargo step type: '' @ quoted step_type)
      | Some cmd \<Rightarrow>
         (let c = ys_config s in
          Inr \<lparr>cg_command = cmd, cg_toolchain = and_then c sc_toolchain, cg_package = and_then c sc_package,
               cg_features = list_of c sc_features, cg_all_features = flag_of c sc_all_features,
               cg_no_default_features = flag_of c sc_no_default_features, cg_release = flag_of c sc_release,
               cg_target = and_then c sc_target, cg_profile = and_then c sc_profile,
               cg_extra_args = list_of c sc_extra_args, cg_env = list_of c sc_env,
               cg_working_dir = and_then c sc_working_dir, cg_timeout_ms = timeout_ms c,
               cg_output_dir = and_then c sc_output_dir\<rparr>))"

definition rustup_commands :: "(string \<times> rustup_command) list" where
  "rustup_commands =
     [(''rust-install'', Install), (''rustup-toolchain'', ToolchainInstall), (''rustup-component'', ComponentAdd),
      (''rustup-target'', TargetAdd)]"

definition build_rustup_config :: "yaml_step \<Rightarrow> string \<Rightarrow> yaml_error + rustup_config" where
  "build_rustup_config s step_type =
     (case map_of rustup_commands step_type of
        None \<Rightarrow> compilation (''Unknown rustup step type: '' @ quoted step_type)
      | Some cmd \<Rightarrow>
         (let c = ys_config s in
          Inr \<lparr>ru_command = cmd, ru_toolchain = and_then c sc_toolchain, ru_components = list_of c sc_components,
               ru_targets = list_of c sc_targets, ru_profile = and_then c sc_profile,
               ru_default_toolchain = and_then c sc_default_toolchain, ru_extra_args = list_of c sc_extra_args,
               ru_timeout_ms = timeout_ms c\<rparr>))"

definition build_buildkit_config :: "yaml_step \<Rightarrow> yaml_error + buildkit_config" where
  "build_buildkit_config s = need_config ''BuildKit step'' s (\<lambda>c.
     need (sc_dockerfile c) ''BuildKit step'' s ('' must have '' @ quoted ''config.dockerfile'') (\<lambda>dockerfile.
     let context = unwrap_or (sc_context c) (if sc_input c \<noteq> None then ''.'' else []) in
     if context = []
     then compilation (''BuildKit step '' @ quoted (ys_name s) @ '' must have '' @ quoted ''config.context'')
     else Inr \<lparr>bk_dockerfile = dockerfile, bk_context = context, bk_target = sc_target c, bk_tags = sc_tags c,
          bk_build_args = sc_build_args c, bk_cache_from = sc_cache_from c, bk_cache_to = sc_cache_to c,
          bk_push = unwrap_or (sc_push c) False, bk_output_type = sc_output_type c,
          bk_output_dest = sc_output_dest c,
          bk_buildkit_addr = unwrap_or (sc_buildkit_addr c) ''unix:///run/buildkit/buildkitd.sock'',
          bk_tls = unwrap_or (sc_tls c) tls_default, bk_registry_auth = unwrap_or (sc_registry_auth c) [],
          bk_inputs = nonempty (sc_inputs c), bk_input = sc_input c, bk_timeout_ms = timeout_ms (Some c)\<rparr>))"

definition build_containerd_config :: "yaml_step \<Rightarrow> yaml_error + containerd_config" where
  "build_containerd_config s = need_config ''Containerd step'' s (\<lambda>c.
     need (sc_image c) ''Containerd step'' s ('' must have '' @ quoted ''config.image'') (\<lambda>image.
     Inr \<lparr>cd_image = image, cd_command = sc_command c, cd_run = sc_run c, cd_env = sc_env c,
          cd_volumes = sc_volumes c, cd_working_dir = sc_working_dir c,
          cd_user = unwrap_or (sc_user c) ''65534:65534'', cd_network = unwrap_or (sc_network c) ''none'',
          cd_memory = sc_memory c, cd_cpu = sc_cpu c, cd_pull = unwrap_or (sc_pull c) ''if-not-present'',
          cd_containerd_addr = unwrap_or (sc_containerd_addr c) ''/run/containerd/containerd.sock'',
          cd_cli = unwrap_or (sc_cli c) ''nerdctl'', cd_tls = unwrap_or (sc_tls c) tls_default,
          cd_registry_auth = unwrap_or (sc_registry_auth c) [], cd_inputs = nonempty (sc_inputs c),
          cd_timeout_ms = timeout_ms (Some c)\<rparr>))"

definition build_kubernetes_config :: "yaml_step \<Rightarrow> yaml_error + (kubernetes_step_config \<times> cluster_config)" where
  "build_kubernetes_config s = need_config ''Kubernetes step'' s (\<lambda>c.
     need (sc_image c) ''Kubernetes step'' s ('' must have '' @ quoted ''config.image'') (\<lambda>image.
     Inr (\<lparr>ks_image = image, ks_command = sc_command c, ks_run = sc_run c, ks_shell = sc_shell c,
           ks_env = sc_env c, ks_working_dir = sc_working_dir c, ks_memory = sc_memory c, ks_cpu = sc_cpu c,
           ks_timeout_ms = timeout_ms (Some c), ks_pull_policy = sc_pull_policy c,
           ks_namespace = sc_namespace c, ks_artifact_outputs = sc_artifact_outputs c\<rparr>,
          cluster_config_default\<lparr>cc_kubeconfig := sc_kubeconfig c\<rparr>)))"

definition build_sub_workflow :: "yaml_step \<Rightarrow> yaml_error + sub_workflow_config" where
  "build_sub_workflow s = need_config ''Workflow step'' s (\<lambda>c.
     need (sc_child_workflow c) ''Workflow step'' s ('' must have '' @ quoted ''config.workflow'') (\<lambda>child.
     Inr \<lparr>swc_workflow_id = child, swc_version = unwrap_or (sc_child_version c) 1,
          swc_output_keys = map dr_name (ys_outputs s)\<rparr>))"

section \<open>Step types\<close>

record features =
  ft_deno :: bool
  ft_buildkit :: bool
  ft_containerd :: bool
  ft_kubernetes :: bool
  ft_rustlang :: bool

text \<open>The name of the step type, the configuration value and the factory of one configuration.\<close>

definition registered ::
  "string \<Rightarrow> yaml_step \<Rightarrow> ('c \<Rightarrow> json) \<Rightarrow> ('c \<Rightarrow> step_factory) \<Rightarrow> yaml_error + 'c \<Rightarrow>
   yaml_error + (string \<times> json \<times> step_factory)" where
  "registered kind s to_value factory r =
     (case r of
        Inl e \<Rightarrow> Inl e
      | Inr c \<Rightarrow> Inr (''wfe_yaml::'' @ kind @ ''::'' @ ys_name s, to_value c, factory c))"

definition build_step_config_and_factory ::
  "features \<Rightarrow> yaml_step \<Rightarrow> string \<Rightarrow> yaml_error + (string \<times> json \<times> step_factory)" where
  "build_step_config_and_factory ft s step_type =
     (if step_type = ''shell'' then registered ''shell'' s shell_json ShellFactory (build_shell_config s)
      else if ft_deno ft \<and> step_type = ''deno''
      then registered ''deno'' s deno_json DenoFactory (build_deno_config s)
      else if ft_buildkit ft \<and> step_type = ''buildkit''
      then registered ''buildkit'' s buildkit_json BuildkitFactory (build_buildkit_config s)
      else if ft_containerd ft \<and> step_type = ''containerd''
      then registered ''containerd'' s containerd_json ContainerdFactory (build_containerd_config s)
      else if ft_kubernetes ft \<and> step_type \<in> {''kubernetes'', ''k8s''}
      then registered ''kubernetes'' s (kubernetes_json \<circ> fst) (\<lambda>(k, cl). KubernetesFactory k cl) (build_kubernetes_config s)
      else if ft_rustlang ft \<and> step_type \<in> set (map fst cargo_commands)
      then registered ''cargo'' s cargo_json CargoFactory (build_cargo_config s step_type)
      else if ft_rustlang ft \<and> step_type \<in> set (map fst rustup_commands)
      then registered ''rustup'' s rustup_json RustupFactory (build_rustup_config s step_type)
      else if step_type = ''git-repo'' then registered ''git_repo'' s git_repo_json GitRepoFactory (build_git_repo_config s)
      else if step_type = ''workflow''
      then registered ''workflow'' s sub_workflow_json
        (\<lambda>c. SubWorkflowFactory (sub_workflow_default
           \<lparr>sw_workflow_id := swc_workflow_id c, sw_version := swc_version c, sw_output_keys := swc_output_keys c\<rparr>))
        (build_sub_workflow s)
      else compilation (''Unknown step type: '' @ quoted step_type))"

end
