(* ===== verification/Yaml_Compiler.thy ===== *)
theory Yaml_Compiler
  imports Yaml_Config Definitions
begin

text \<open>
  The compiler from workflow files to workflow definitions (\<open>wfe-yaml/src/compiler.rs\<close>):
  conditions, error behaviours, services and the steps with their hooks. \<open>compile_each\<close> is the
  loop of \<open>compile_steps\<close> over the YAML steps; the state it threads holds the definition under
  construction, the factories and the next step id.
\<close>

section \<open>Conditions\<close>

definition number_to_json :: "yaml_number \<Rightarrow> json" where
  "number_to_json n = (case n of
       YPosInt u \<Rightarrow> JNumber (PosInt u)
     | YNegInt i \<Rightarrow> JNumber (if sint i < 0 then NegInt i else PosInt i)
     | YFloat f \<Rightarrow> JNumber (Float f)
     | YNonFinite \<Rightarrow> JNull)"

fun yaml_value_to_json :: "yaml_value \<Rightarrow> json" where
  "yaml_value_to_json YNull = JNull"
| "yaml_value_to_json (YBool b) = JBool b"
| "yaml_value_to_json (YNumber n) = number_to_json n"
| "yaml_value_to_json (YString s) = JString s"
| "yaml_value_to_json (YSequence vs) = JArray (map yaml_value_to_json vs)"
| "yaml_value_to_json (YMapping m) =
     JObject (fold (\<lambda>(k, j) obj. case k of YString key \<Rightarrow> obj_insert key j obj | _ \<Rightarrow> obj)
       (map (\<lambda>(k, v). (k, yaml_value_to_json v)) m) [])"
| "yaml_value_to_json (YTagged t v) = yaml_value_to_json v"

definition comparison_ops :: "yaml_comparison \<Rightarrow> (comparison_op \<times> json option) list" where
  "comparison_ops c =
     (let valued = \<lambda>op v. case v of None \<Rightarrow> [] | Some x \<Rightarrow> [(op, Some (yaml_value_to_json x))];
          flagged = \<lambda>op b. if b = Some True then [(op, None)] else []
      in valued Equals (yc_equals c) @ valued NotEquals (yc_not_equals c) @ valued Gt (yc_gt c) @
         valued Gte (yc_gte c) @ valued Lt (yc_lt c) @ valued Lte (yc_lte c) @
         valued Contains (yc_contains c) @ flagged IsNull (yc_is_null c) @ flagged IsNotNull (yc_is_not_null c))"

definition compile_comparison :: "yaml_comparison \<Rightarrow> yaml_error + step_condition" where
  "compile_comparison c =
     (case comparison_ops c of
        [] \<Rightarrow> compilation (''Comparison on field '' @ quoted (yc_field c) @
                '' must specify an operator (equals, gt, etc.)'')
      | [(op, v)] \<Rightarrow> Inr (Comparison \<lparr>fc_field = yc_field c, fc_operator = op, fc_value = v\<rparr>)
      | ops \<Rightarrow> compilation (''Comparison on field '' @ quoted (yc_field c) @
                '' must specify exactly one operator, found '' @ show_nat (length ops)))"

definition key_count :: "yaml_combinator \<Rightarrow> nat" where
  "key_count c =
     of_bool (yk_all c \<noteq> None) + of_bool (yk_any c \<noteq> None) + of_bool (yk_none c \<noteq> None) +
     of_bool (yk_one_of c \<noteq> None) + of_bool (yk_not c \<noteq> None)"

definition wrap :: "('a \<Rightarrow> 'b) \<Rightarrow> 'e + 'a \<Rightarrow> 'e + 'b" where
  "wrap f r = (case r of Inl e \<Rightarrow> Inl e | Inr x \<Rightarrow> Inr (f x))"

lemma flat_Some_size: "x \<in> set xs \<Longrightarrow> size x < Suc (size_list size xs)"
  by (simp add: less_Suc_eq_le size_list_estimation')

function compile_condition :: "yaml_condition \<Rightarrow> yaml_error + step_condition"
and compile_combinator :: "yaml_combinator \<Rightarrow> yaml_error + step_condition" where
  "compile_condition (YComparison cmp) = compile_comparison cmp"
| "compile_condition (YCombinator c) = compile_combinator c"
| "compile_combinator (YamlCombinator a b c d inner) =
     (if key_count (YamlCombinator a b c d inner) = 0
      then compilation ''Condition combinator must have at least one of: all, any, none, one_of, not''
      else if key_count (YamlCombinator a b c d inner) > 1
      then compilation ''Condition combinator must have exactly one of: all, any, none, one_of, not''
      else case a of Some children \<Rightarrow> wrap All (try_map compile_condition children) | None \<Rightarrow>
      (case b of Some children \<Rightarrow> wrap Any (try_map compile_condition children) | None \<Rightarrow>
      (case c of Some children \<Rightarrow> wrap NoneOf (try_map compile_condition children) | None \<Rightarrow>
      (case d of Some children \<Rightarrow> wrap OneOf (try_map compile_condition children) | None \<Rightarrow>
      (case inner of Some i \<Rightarrow> wrap Not (compile_condition i)
       | None \<Rightarrow> compilation ''Condition combinator must have at least one of: all, any, none, one_of, not'')))))"
  by pat_completeness auto
termination
  by (relation "measure (case_sum size size)") (auto dest: flat_Some_size)

section \<open>Error behaviours and services\<close>

definition map_error_behavior :: "yaml_error_behavior \<Rightarrow> yaml_error + error_behavior" where
  "map_error_behavior eb =
     (let t = yeb_behavior_type eb in
      if t = ''retry'' then
        Inr (Retry (case and_then (yeb_interval eb) parse_duration_ms of
                      None \<Rightarrow> from_millis 60000 | Some ms \<Rightarrow> from_millis (unat ms))
                   (unwrap_or (yeb_max_retries eb) 3))
      else if t = ''suspend'' then Inr Suspend
      else if t = ''terminate'' then Inr Terminate
      else if t = ''compensate'' then Inr Compensate
      else compilation (''Unknown error behavior type: '' @ quoted t))"

definition compile_readiness :: "yaml_service \<Rightarrow> yaml_readiness \<Rightarrow> readiness_probe" where
  "compile_readiness svc r =
     \<lparr>rp_check =
        (case yr_exec r of Some cmd \<Rightarrow> Exec cmd | None \<Rightarrow>
        (case yr_tcp r of Some port \<Rightarrow> TcpSocket port | None \<Rightarrow>
        (case yr_http r of Some h \<Rightarrow> HttpGet (yh_port h) (yh_path h) | None \<Rightarrow>
         TcpSocket (case yv_ports svc of [] \<Rightarrow> 0 | p # _ \<Rightarrow> p)))),
      rp_interval_ms = unwrap_or (and_then (yr_interval r) parse_duration_ms) 5000,
      rp_timeout_ms = unwrap_or (and_then (yr_timeout r) parse_duration_ms) 60000,
      rp_retries = unwrap_or (yr_retries r) 12\<rparr>"

definition compile_services :: "(string \<times> yaml_service) list \<Rightarrow> service_definition list" where
  "compile_services = map (\<lambda>(name, svc).
     \<lparr>sd_name = name, sd_image = yv_image svc, sd_ports = map service_port_tcp (yv_ports svc),
      sd_env = yv_env svc, sd_readiness = map_option (compile_readiness svc) (yv_readiness svc),
      sd_command = unwrap_or (yv_command svc) [], sd_args = unwrap_or (yv_args svc) [],
      sd_memory = yv_memory svc, sd_cpu = yv_cpu svc\<rparr>)"

section \<open>Steps\<close>

record compile_state =
  cs_definition :: workflow_definition
  cs_factories :: "(string \<times> step_factory) list"
  cs_next_id :: nat

definition alloc_id :: "compile_state \<Rightarrow> nat \<times> compile_state" where
  "alloc_id st = (cs_next_id st, st\<lparr>cs_next_id := cs_next_id st + 1\<rparr>)"

definition push_step :: "workflow_step \<Rightarrow> compile_state \<Rightarrow> compile_state" where
  "push_step s st = st\<lparr>cs_definition := (cs_definition st)\<lparr>wd_steps := wd_steps (cs_definition st) @ [s]\<rparr>\<rparr>"

definition push_factory :: "string \<Rightarrow> step_factory \<Rightarrow> compile_state \<Rightarrow> compile_state" where
  "push_factory key f st = st\<lparr>cs_factories := cs_factories st @ [(key, f)]\<rparr>"

text \<open>\<open>if let Some(x) = o { slot = Some(f(x)?) }\<close> on a slot that is \<open>None\<close>.\<close>

definition try_option :: "('a \<Rightarrow> 'e + 'b) \<Rightarrow> 'a option \<Rightarrow> 'e + 'b option" where
  "try_option f v = (case v of None \<Rightarrow> Inr None | Some x \<Rightarrow> wrap Some (f x))"

definition outcome_to :: "nat \<Rightarrow> string option \<Rightarrow> step_outcome" where
  "outcome_to i l = \<lparr>so_next_step = i, so_label = l, so_value = None\<rparr>"

definition add_outcome :: "step_outcome \<Rightarrow> workflow_step \<Rightarrow> workflow_step" where
  "add_outcome oc s = s\<lparr>ws_outcomes := ws_outcomes s @ [oc]\<rparr>"

text \<open>
  A hook step: a new id, a step with the hook's name and configuration, and its factory. The
  condition, the error behaviour and the nested steps of a hook are not looked at.
\<close>

definition compile_hook ::
  "features \<Rightarrow> yaml_step \<Rightarrow> compile_state \<Rightarrow> yaml_error + nat \<times> compile_state" where
  "compile_hook ft hook st =
     (let (i, st) = alloc_id st in
      case build_step_config_and_factory ft hook (unwrap_or (ys_step_type hook) ''shell'') of
        Inl e \<Rightarrow> Inl e
      | Inr (key, value, factory) \<Rightarrow>
          Inr (i, push_factory key factory (push_step
            ((workflow_step_new i key)\<lparr>ws_name := Some (ys_name hook), ws_step_config := Some value\<rparr>) st)))"

definition compile_on_failure ::
  "features \<Rightarrow> yaml_step \<Rightarrow> workflow_step \<Rightarrow> compile_state \<Rightarrow> yaml_error + workflow_step \<times> compile_state" where
  "compile_on_failure ft ys wf_step st =
     (case ys_on_failure ys of
        None \<Rightarrow> Inr (wf_step, st)
      | Some hook \<Rightarrow> wrap (\<lambda>(i, st).
          (wf_step\<lparr>ws_compensation_step_id := Some i, ws_error_behavior := Some Compensate\<rparr>, st))
          (compile_hook ft hook st))"

definition compile_on_success ::
  "features \<Rightarrow> yaml_step \<Rightarrow> workflow_step \<Rightarrow> compile_state \<Rightarrow> yaml_error + workflow_step \<times> compile_state" where
  "compile_on_success ft ys wf_step st =
     (case ys_on_success ys of
        None \<Rightarrow> Inr (wf_step, st)
      | Some hook \<Rightarrow> wrap (\<lambda>(i, st). (add_outcome (outcome_to i (Some ''success'')) wf_step, st))
          (compile_hook ft hook st))"

definition compile_ensure ::
  "features \<Rightarrow> yaml_step \<Rightarrow> workflow_step \<Rightarrow> compile_state \<Rightarrow> yaml_error + workflow_step \<times> compile_state" where
  "compile_ensure ft ys wf_step st =
     (case ys_ensure ys of
        None \<Rightarrow> Inr (wf_step, st)
      | Some hook \<Rightarrow> wrap (\<lambda>(i, st).
          (if ys_on_success ys = None then add_outcome (outcome_to i (Some ''ensure'')) wf_step else wf_step, st))
          (compile_hook ft hook st))"

definition compile_regular ::
  "features \<Rightarrow> yaml_step \<Rightarrow> compile_state \<Rightarrow> yaml_error + nat \<times> compile_state" where
  "compile_regular ft ys st =
     (let (step_id, st) = alloc_id st in
      case build_step_config_and_factory ft ys (unwrap_or (ys_step_type ys) ''shell'') of
        Inl e \<Rightarrow> Inl e
      | Inr (key, value, factory) \<Rightarrow>
      (case try_option map_error_behavior (ys_error_behavior ys) of
        Inl e \<Rightarrow> Inl e
      | Inr eb \<Rightarrow>
      (case try_option compile_condition (ys_when ys) of
        Inl e \<Rightarrow> Inl e
      | Inr cond \<Rightarrow>
      (let wf_step = (workflow_step_new step_id key)
             \<lparr>ws_name := Some (ys_name ys), ws_step_config := Some value, ws_error_behavior := eb, ws_when := cond\<rparr> in
       case compile_on_failure ft ys wf_step st of
        Inl e \<Rightarrow> Inl e
      | Inr (wf_step, st) \<Rightarrow>
      (case compile_on_success ft ys wf_step st of
        Inl e \<Rightarrow> Inl e
      | Inr (wf_step, st) \<Rightarrow>
      (case compile_ensure ft ys wf_step st of
        Inl e \<Rightarrow> Inl e
      | Inr (wf_step, st) \<Rightarrow>
          Inr (step_id, push_factory key factory (push_step wf_step st))))))))"

text \<open>The wiring of one pair of neighbouring main steps, and the loop over the pairs.\<close>

fun map_first :: "('a \<Rightarrow> bool) \<Rightarrow> ('a \<Rightarrow> 'a) \<Rightarrow> 'a list \<Rightarrow> 'a list" where
  "map_first p f [] = []"
| "map_first p f (x # xs) = (if p x then f x # xs else x # map_first p f xs)"

definition update_first :: "nat \<Rightarrow> (workflow_step \<Rightarrow> workflow_step) \<Rightarrow> workflow_definition \<Rightarrow> workflow_definition" where
  "update_first i f d = d\<lparr>wd_steps := map_first (\<lambda>s. ws_id s = i) f (wd_steps d)\<rparr>"

definition wire_pair :: "nat \<Rightarrow> nat \<Rightarrow> workflow_definition \<Rightarrow> workflow_definition" where
  "wire_pair current next d =
     (case find_step d current of
        None \<Rightarrow> d
      | Some s \<Rightarrow>
          if ws_outcomes s = [] then update_first current (add_outcome (outcome_to next None)) d
          else
            (let hook = so_next_step (last (ws_outcomes s)) in
             case find_step d hook of
               None \<Rightarrow> d
             | Some h \<Rightarrow>
                 if ws_outcomes h = [] then update_first hook (add_outcome (outcome_to next None)) d else d))"

fun wire_main_steps :: "nat list \<Rightarrow> workflow_definition \<Rightarrow> workflow_definition" where
  "wire_main_steps (a # b # ids) d = wire_main_steps (b # ids) (wire_pair a b d)"
| "wire_main_steps _ d = d"

definition wire_state :: "nat list \<Rightarrow> compile_state \<Rightarrow> compile_state" where
  "wire_state ids st = st\<lparr>cs_definition := wire_main_steps ids (cs_definition st)\<rparr>"

function compile_each ::
  "features \<Rightarrow> yaml_step list \<Rightarrow> compile_state \<Rightarrow> yaml_error + nat list \<times> compile_state" where
  "compile_each ft [] st = Inr ([], st)"
| "compile_each ft (ys # rest) st =
     (case (case ys_parallel ys of
              None \<Rightarrow> compile_regular ft ys st
            | Some children \<Rightarrow>
                (let (container_id, st) = alloc_id st in
                 case try_option map_error_behavior (ys_error_behavior ys) of
                   Inl e \<Rightarrow> Inl e
                 | Inr eb \<Rightarrow>
                 (case compile_each ft children st of
                   Inl e \<Rightarrow> Inl e
                 | Inr (child_ids, st) \<Rightarrow>
                 (let st = wire_state child_ids st in
                  case try_option compile_condition (ys_when ys) of
                   Inl e \<Rightarrow> Inl e
                 | Inr cond \<Rightarrow>
                     Inr (container_id, push_step
                       ((workflow_step_new container_id ''wfe_core::primitives::sequence::SequenceStep'')
                          \<lparr>ws_name := Some (ys_name ys), ws_error_behavior := eb, ws_children := child_ids,
                           ws_when := cond\<rparr>) st))))) of
        Inl e \<Rightarrow> Inl e
      | Inr (i, st) \<Rightarrow>
          (case compile_each ft rest st of
             Inl e \<Rightarrow> Inl e
           | Inr (ids, st) \<Rightarrow> Inr (i # ids, st)))"
  by pat_completeness auto
termination
  by (relation "measure (\<lambda>(_, steps, _). size_list size steps)") (auto dest: nested_step_size)

declare compile_each.simps(2) [simp del]

definition compile_steps ::
  "features \<Rightarrow> yaml_step list \<Rightarrow> compile_state \<Rightarrow> yaml_error + nat list \<times> compile_state" where
  "compile_steps ft steps st =
     (case compile_each ft steps st of
        Inl e \<Rightarrow> Inl e
      | Inr (ids, st) \<Rightarrow> Inr (ids, wire_state ids st))"

text \<open>The block of \<open>compile_steps\<close> for a parallel step, as one function of the step.\<close>

definition compile_parallel ::
  "features \<Rightarrow> yaml_step \<Rightarrow> yaml_step list \<Rightarrow> compile_state \<Rightarrow> yaml_error + nat \<times> compile_state" where
  "compile_parallel ft ys children st =
     (let (container_id, st) = alloc_id st in
      case try_option map_error_behavior (ys_error_behavior ys) of
        Inl e \<Rightarrow> Inl e
      | Inr eb \<Rightarrow>
      (case compile_steps ft children st of
        Inl e \<Rightarrow> Inl e
      | Inr (child_ids, st) \<Rightarrow>
      (case try_option compile_condition (ys_when ys) of
        Inl e \<Rightarrow> Inl e
      | Inr cond \<Rightarrow>
          Inr (container_id, push_step
            ((workflow_step_new container_id ''wfe_core::primitives::sequence::SequenceStep'')
               \<lparr>ws_name := Some (ys_name ys), ws_error_behavior := eb, ws_children := child_ids,
                ws_when := cond\<rparr>) st))))"

lemma compile_each_Cons:
  "compile_each ft (ys # rest) st =
     (case (case ys_parallel ys of
              None \<Rightarrow> compile_regular ft ys st
            | Some children \<Rightarrow> compile_parallel ft ys children st) of
        Inl e \<Rightarrow> Inl e
      | Inr (i, st) \<Rightarrow>
          (case compile_each ft rest st of
             Inl e \<Rightarrow> Inl e
           | Inr (ids, st) \<Rightarrow> Inr (i # ids, st)))"
  by (auto simp: compile_each.simps(2)[of ft ys rest st] compile_parallel_def compile_steps_def Let_def
      split: option.splits sum.splits prod.splits)

record compiled_workflow =
  cw_definition :: workflow_definition
  cw_step_factories :: "(string \<times> step_factory) list"

definition compile :: "features \<Rightarrow> workflow_spec \<Rightarrow> yaml_error + compiled_workflow" where
  "compile ft spec =
     (let d = (workflow_definition_new (spec_id spec) (spec_version spec))
            \<lparr>wd_name := spec_name spec, wd_description := spec_description spec,
             wd_shared_volume := map_option (\<lambda>v. \<lparr>sv_mount_path = yl_mount_path v, sv_size = yl_size v\<rparr>)
               (spec_shared_volume spec)\<rparr> in
      case (case spec_error_behavior spec of None \<Rightarrow> Inr d
            | Some eb \<Rightarrow> wrap (\<lambda>b. d\<lparr>wd_default_error_behavior := b\<rparr>) (map_error_behavior eb)) of
        Inl e \<Rightarrow> Inl e
      | Inr d \<Rightarrow>
      (case compile_steps ft (spec_steps spec) \<lparr>cs_definition = d, cs_factories = [], cs_next_id = 0\<rparr> of
        Inl e \<Rightarrow> Inl e
      | Inr (_, st) \<Rightarrow>
          Inr \<lparr>cw_definition = (cs_definition st)\<lparr>wd_services := compile_services (spec_services spec)\<rparr>,
               cw_step_factories = cs_factories st\<rparr>))"

end
