(* ===== verification/Yaml_Validation.thy ===== *)
theory Yaml_Validation
  imports Yaml_Spec
begin

text \<open>
  Validation of workflow files (\<open>wfe-yaml/src/validation.rs\<close>): the shape of every step, unique
  step names, the fields and types of conditions, unused outputs and, across workflows, duplicate
  ids and circular references between workflows. The mutable sets of the source are threaded
  through; the order in which a hash set or map is traversed is the order of the list that stands
  for it.
\<close>

section \<open>Steps\<close>

definition validation :: "string \<Rightarrow> yaml_error + 'a" where
  "validation msg = Inl (Validation msg)"

definition step_msg :: "string \<Rightarrow> yaml_step \<Rightarrow> string \<Rightarrow> string" where
  "step_msg kind s rest = kind @ '' '' @ quoted (ys_name s) @ rest"

definition require :: "bool \<Rightarrow> string \<Rightarrow> yaml_error + unit" where
  "require b msg = (if b then Inr () else validation msg)"

text \<open>\<open>?\<close> after a check.\<close>

definition and_check :: "'e + unit \<Rightarrow> 'e + 'a \<Rightarrow> 'e + 'a" where
  "and_check r k = (case r of Inl e \<Rightarrow> Inl e | Inr _ \<Rightarrow> k)"

definition with_config :: "string \<Rightarrow> yaml_step \<Rightarrow> (step_config \<Rightarrow> yaml_error + unit) \<Rightarrow> yaml_error + unit" where
  "with_config kind s k =
     (case ys_config s of
        None \<Rightarrow> validation (step_msg kind s '' must have a 'config' section'')
      | Some c \<Rightarrow> k c)"

definition check_shell :: "yaml_step \<Rightarrow> yaml_error + unit" where
  "check_shell s = with_config ''Shell step'' s (\<lambda>c.
     require (sc_run c \<noteq> None \<or> sc_file c \<noteq> None)
       (step_msg ''Shell step'' s ('' must have 'config.run' or '' @ quoted ''config.file'')))"

definition check_deno :: "yaml_step \<Rightarrow> yaml_error + unit" where
  "check_deno s = with_config ''Deno step'' s (\<lambda>c.
     require (sc_script c \<noteq> None \<or> sc_file c \<noteq> None)
       (step_msg ''Deno step'' s ('' must have 'config.script' or '' @ quoted ''config.file'')))"

definition check_buildkit :: "yaml_step \<Rightarrow> yaml_error + unit" where
  "check_buildkit s = with_config ''BuildKit step'' s (\<lambda>c.
     and_check (require (sc_dockerfile c \<noteq> None)
       (step_msg ''BuildKit step'' s ('' must have '' @ quoted ''config.dockerfile'')))
    (and_check (require (sc_context c \<noteq> None \<or> sc_input c \<noteq> None)
       (step_msg ''BuildKit step'' s
          '' must have 'config.context' (or 'config.input' for artifact override)''))
    (require (\<not> (unwrap_or (sc_push c) False \<and> sc_tags c = []))
       (step_msg ''BuildKit step'' s '' has push=true but no tags specified''))))"

definition check_containerd :: "yaml_step \<Rightarrow> yaml_error + unit" where
  "check_containerd s = with_config ''Containerd step'' s (\<lambda>c.
     and_check (require (sc_image c \<noteq> None)
       (step_msg ''Containerd step'' s ('' must have '' @ quoted ''config.image'')))
    (and_check (require (sc_run c \<noteq> None \<or> sc_command c \<noteq> None)
       (step_msg ''Containerd step'' s ('' must have 'config.run' or '' @ quoted ''config.command'')))
    (and_check (require (\<not> (sc_run c \<noteq> None \<and> sc_command c \<noteq> None))
       (step_msg ''Containerd step'' s ('' cannot have both 'config.run' and '' @ quoted ''config.command'')))
    (and_check (case sc_network c of
         None \<Rightarrow> Inr ()
       | Some n \<Rightarrow> require (n \<in> {''none'', ''host'', ''bridge''})
           (step_msg ''Containerd step'' s ('' has invalid network '' @ quoted n @ ''. Must be none, host, or bridge'')))
    (case sc_pull c of
         None \<Rightarrow> Inr ()
       | Some p \<Rightarrow> require (p \<in> {''always'', ''if-not-present'', ''never''})
           (step_msg ''Containerd step'' s
              ('' has invalid pull policy '' @ quoted p @ ''. Must be always, if-not-present, or never'')))))))"

definition check_workflow :: "yaml_step \<Rightarrow> yaml_error + unit" where
  "check_workflow s = with_config ''Workflow step'' s (\<lambda>c.
     require (sc_child_workflow c \<noteq> None) (step_msg ''Workflow step'' s ('' must have '' @ quoted ''config.workflow'')))"

definition validate_error_behavior_type :: "string \<Rightarrow> yaml_error + unit" where
  "validate_error_behavior_type t =
     require (t \<in> {''retry'', ''suspend'', ''terminate'', ''compensate''})
       (''Invalid error behavior type: '' @ quoted t @ ''. Must be retry, suspend, terminate, or compensate'')"

text \<open>The checks of one step, without its name and its nested steps.\<close>

definition check_step :: "yaml_step \<Rightarrow> yaml_error + unit" where
  "check_step s =
     and_check (require (ys_step_type s \<noteq> None \<or> ys_parallel s \<noteq> None)
       (step_msg ''Step'' s ('' must have either 'type' + 'config' or '' @ quoted ''parallel'')))
    (and_check (require (\<not> (ys_step_type s \<noteq> None \<and> ys_parallel s \<noteq> None))
       (step_msg ''Step'' s ('' cannot have both 'type' and '' @ quoted ''parallel'')))
    (and_check
       (if ys_step_type s = Some ''shell'' then check_shell s
        else if ys_step_type s = Some ''deno'' then check_deno s
        else if ys_step_type s = Some ''buildkit'' then check_buildkit s
        else if ys_step_type s = Some ''containerd'' then check_containerd s
        else if ys_step_type s = Some ''workflow'' then check_workflow s
        else Inr ())
    (case ys_error_behavior s of
       None \<Rightarrow> Inr ()
     | Some eb \<Rightarrow> validate_error_behavior_type (yeb_behavior_type eb))))"

function validate_steps :: "yaml_step list \<Rightarrow> string set \<Rightarrow> yaml_error + string set" where
  "validate_steps [] seen = Inr seen"
| "validate_steps (s # rest) seen =
     (if ys_name s \<in> seen then validation (''Duplicate step name: '' @ quoted (ys_name s))
      else
      (let seen = insert (ys_name s) seen in
       case check_step s of Inl e \<Rightarrow> Inl e | Inr _ \<Rightarrow>
       (case (case ys_parallel s of None \<Rightarrow> Inr seen | Some cs \<Rightarrow> validate_steps cs seen) of
          Inl e \<Rightarrow> Inl e | Inr seen \<Rightarrow>
       (case (case ys_on_success s of None \<Rightarrow> Inr seen | Some h \<Rightarrow> validate_steps [h] seen) of
          Inl e \<Rightarrow> Inl e | Inr seen \<Rightarrow>
       (case (case ys_on_failure s of None \<Rightarrow> Inr seen | Some h \<Rightarrow> validate_steps [h] seen) of
          Inl e \<Rightarrow> Inl e | Inr seen \<Rightarrow>
       (case (case ys_ensure s of None \<Rightarrow> Inr seen | Some h \<Rightarrow> validate_steps [h] seen) of
          Inl e \<Rightarrow> Inl e | Inr seen \<Rightarrow>
        validate_steps rest seen))))))"
  by pat_completeness auto
termination
  by (relation "measure (\<lambda>(steps, _). size_list size steps)") (auto dest: nested_step_size)

section \<open>Outputs and references\<close>

definition own_workflow_refs :: "yaml_step \<Rightarrow> string set" where
  "own_workflow_refs s =
     (if ys_step_type s = Some ''workflow''
      then set_option (and_then (ys_config s) sc_child_workflow) else {})"

function collect_workflow_refs :: "yaml_step list \<Rightarrow> string set" where
  "collect_workflow_refs [] = {}"
| "collect_workflow_refs (s # rest) =
     own_workflow_refs s
     \<union> (case ys_parallel s of None \<Rightarrow> {} | Some cs \<Rightarrow> collect_workflow_refs cs)
     \<union> (case ys_on_success s of None \<Rightarrow> {} | Some h \<Rightarrow> collect_workflow_refs [h])
     \<union> (case ys_on_failure s of None \<Rightarrow> {} | Some h \<Rightarrow> collect_workflow_refs [h])
     \<union> (case ys_ensure s of None \<Rightarrow> {} | Some h \<Rightarrow> collect_workflow_refs [h])
     \<union> collect_workflow_refs rest"
  by pat_completeness auto
termination
  by (relation "measure (size_list size)") (auto dest: nested_step_size)

function collect_step_outputs :: "yaml_step list \<Rightarrow> string set" where
  "collect_step_outputs [] = {}"
| "collect_step_outputs (s # rest) =
     dr_name ` set (ys_outputs s)
     \<union> (case ys_parallel s of None \<Rightarrow> {} | Some cs \<Rightarrow> collect_step_outputs cs)
     \<union> (case ys_on_success s of None \<Rightarrow> {} | Some h \<Rightarrow> collect_step_outputs [h])
     \<union> (case ys_on_failure s of None \<Rightarrow> {} | Some h \<Rightarrow> collect_step_outputs [h])
     \<union> (case ys_ensure s of None \<Rightarrow> {} | Some h \<Rightarrow> collect_step_outputs [h])
     \<union> collect_step_outputs rest"
  by pat_completeness auto
termination
  by (relation "measure (size_list size)") (auto dest: nested_step_size)

section \<open>Conditions\<close>

text \<open>\<open>field.split('.')\<close> without the empty segment that a leading dot gives.\<close>

definition path_parts :: "string \<Rightarrow> string list" where
  "path_parts f = (case split_on (CHR ''.'') f of [] # ps \<Rightarrow> ps | ps \<Rightarrow> ps)"

definition join_names :: "string list \<Rightarrow> string" where
  "join_names ns = concat (case ns of [] \<Rightarrow> [] | n # ns \<Rightarrow> n # map ((@) '', '') ns)"

definition validate_field_path :: "string \<Rightarrow> workflow_spec \<Rightarrow> string set \<Rightarrow> yaml_error + unit" where
  "validate_field_path f spec known_outputs =
     (if spec_inputs spec = [] \<and> spec_outputs spec = [] then Inr ()
      else case path_parts f of
        space # field_name # _ \<Rightarrow>
          (if space = ''inputs'' then
             require (field_name \<in> fst ` set (spec_inputs spec))
               (''Condition references unknown input field '' @ quoted field_name @ ''. Available inputs: ['' @
                join_names (map fst (spec_inputs spec)) @ '']'')
           else if space = ''outputs'' then
             require (field_name \<in> fst ` set (spec_outputs spec) \<or> field_name \<in> known_outputs)
               (''Condition references unknown output field '' @ quoted field_name @ ''. Available outputs: ['' @
                join_names (map fst (spec_outputs spec)) @ '']'')
           else validation (''Condition field path '' @ quoted f @ '' must start with 'inputs' or 'outputs', got '' @ quoted space))
      | _ \<Rightarrow> validation (''Condition field path '' @ quoted f @
               '' must have at least two segments (e.g. '' @ quoted ''.inputs.name'' @ '')''))"

definition resolve_field_type :: "string \<Rightarrow> workflow_spec \<Rightarrow> schema_type option" where
  "resolve_field_type f spec =
     (case path_parts f of
        space # field_name # _ \<Rightarrow>
          and_then
            (if space = ''inputs'' then map_of (spec_inputs spec) field_name
             else if space = ''outputs'' then map_of (spec_outputs spec) field_name
             else None)
            (\<lambda>type_str. case parse_type_string type_str of Inl _ \<Rightarrow> None | Inr t \<Rightarrow> Some t)
      | _ \<Rightarrow> None)"

fun is_numeric_type :: "schema_type \<Rightarrow> bool" where
  "is_numeric_type TNumber = True"
| "is_numeric_type TInteger = True"
| "is_numeric_type TAny = True"
| "is_numeric_type (TOptional t) = is_numeric_type t"
| "is_numeric_type _ = False"

fun is_containable_type :: "schema_type \<Rightarrow> bool" where
  "is_containable_type TString = True"
| "is_containable_type (TList _) = True"
| "is_containable_type TAny = True"
| "is_containable_type (TOptional t) = is_containable_type t"
| "is_containable_type _ = False"

fun is_optional_type :: "schema_type \<Rightarrow> bool" where
  "is_optional_type (TOptional _) = True"
| "is_optional_type TAny = True"
| "is_optional_type _ = False"

definition validate_comparison_type :: "yaml_comparison \<Rightarrow> workflow_spec \<Rightarrow> yaml_error + unit" where
  "validate_comparison_type cmp spec =
     (case resolve_field_type (yc_field cmp) spec of
        None \<Rightarrow> Inr ()
      | Some t \<Rightarrow>
         (let has_type = ''but field '' @ quoted (yc_field cmp) @ '' has type '' @ quoted (show_type t) in
          and_check (require
            (\<not> ((yc_gt cmp \<noteq> None \<or> yc_gte cmp \<noteq> None \<or> yc_lt cmp \<noteq> None \<or> yc_lte cmp \<noteq> None) \<and> \<not> is_numeric_type t))
            (''Comparison operators gt/gte/lt/lte are only valid for number/integer types, '' @ has_type))
         (and_check (require (\<not> (yc_contains cmp \<noteq> None \<and> \<not> is_containable_type t))
            (''Comparison operator 'contains' is only valid for string/list types, '' @ has_type))
         (require (\<not> ((yc_is_null cmp = Some True \<or> yc_is_not_null cmp = Some True) \<and> \<not> is_optional_type t))
            (''Comparison operators is_null/is_not_null are only valid for optional types, '' @ has_type)))))"

lemma flat_size: "x \<in> set (flat xs) \<Longrightarrow> size x < size_option (size_list size) xs"
  by (cases xs) (auto simp: flat_def less_Suc_eq_le intro: size_list_estimation')

text \<open>Fields and types are checked by two passes over the condition; both visit \<open>not\<close> last.\<close>

function validate_condition_fields :: "workflow_spec \<Rightarrow> string set \<Rightarrow> yaml_condition \<Rightarrow> yaml_error + unit"
and validate_combinator_fields :: "workflow_spec \<Rightarrow> string set \<Rightarrow> yaml_combinator \<Rightarrow> yaml_error + unit" where
  "validate_condition_fields spec known (YComparison cmp) = validate_field_path (yc_field cmp) spec known"
| "validate_condition_fields spec known (YCombinator c) = validate_combinator_fields spec known c"
| "validate_combinator_fields spec known (YamlCombinator a b c d inner) =
     and_check (try_each (validate_condition_fields spec known) (flat a @ flat b @ flat c @ flat d))
       (case inner of None \<Rightarrow> Inr () | Some i \<Rightarrow> validate_condition_fields spec known i)"
  by pat_completeness auto
termination
  by (relation "measure (case_sum (\<lambda>(_, _, c). size c) (\<lambda>(_, _, c). size c))") (auto dest: flat_size)

function validate_condition_types :: "workflow_spec \<Rightarrow> yaml_condition \<Rightarrow> yaml_error + unit"
and validate_combinator_types :: "workflow_spec \<Rightarrow> yaml_combinator \<Rightarrow> yaml_error + unit" where
  "validate_condition_types spec (YComparison cmp) = validate_comparison_type cmp spec"
| "validate_condition_types spec (YCombinator c) = validate_combinator_types spec c"
| "validate_combinator_types spec (YamlCombinator a b c d inner) =
     and_check (try_each (validate_condition_types spec) (flat a @ flat b @ flat c @ flat d))
       (case inner of None \<Rightarrow> Inr () | Some i \<Rightarrow> validate_condition_types spec i)"
  by pat_completeness auto
termination
  by (relation "measure (case_sum (\<lambda>(_, c). size c) (\<lambda>(_, c). size c))") (auto dest: flat_size)

definition check_condition :: "workflow_spec \<Rightarrow> string set \<Rightarrow> yaml_step \<Rightarrow> yaml_error + unit" where
  "check_condition spec known s =
     (case ys_when s of
        None \<Rightarrow> Inr ()
      | Some cond \<Rightarrow> and_check (validate_condition_fields spec known cond) (validate_condition_types spec cond))"

function validate_step_conditions :: "workflow_spec \<Rightarrow> string set \<Rightarrow> yaml_step list \<Rightarrow> yaml_error + unit" where
  "validate_step_conditions spec known [] = Inr ()"
| "validate_step_conditions spec known (s # rest) =
     and_check (check_condition spec known s)
    (and_check (case ys_parallel s of None \<Rightarrow> Inr () | Some cs \<Rightarrow> validate_step_conditions spec known cs)
    (and_check (case ys_on_success s of None \<Rightarrow> Inr () | Some h \<Rightarrow> validate_step_conditions spec known [h])
    (and_check (case ys_on_failure s of None \<Rightarrow> Inr () | Some h \<Rightarrow> validate_step_conditions spec known [h])
    (and_check (case ys_ensure s of None \<Rightarrow> Inr () | Some h \<Rightarrow> validate_step_conditions spec known [h])
    (validate_step_conditions spec known rest)))))"
  by pat_completeness auto
termination
  by (relation "measure (\<lambda>(_, _, steps). size_list size steps)") (auto dest: nested_step_size)

definition detect_unused_outputs :: "workflow_spec \<Rightarrow> string set \<Rightarrow> yaml_error + unit" where
  "detect_unused_outputs spec known =
     try_each (\<lambda>n. require (n \<in> known)
       (''Declared output '' @ quoted n @ '' is never produced by any step. Add an output data ref with name '' @
        quoted n @ '' to a step.'')) (map fst (spec_outputs spec))"

definition validate :: "workflow_spec \<Rightarrow> yaml_error + unit" where
  "validate spec =
     (if spec_steps spec = [] then validation ''Workflow must have at least one step''
      else case validate_steps (spec_steps spec) {} of Inl e \<Rightarrow> Inl e | Inr _ \<Rightarrow>
        and_check (case spec_error_behavior spec of
             None \<Rightarrow> Inr () | Some eb \<Rightarrow> validate_error_behavior_type (yeb_behavior_type eb))
       (let known_outputs = collect_step_outputs (spec_steps spec) in
        and_check (validate_step_conditions spec known_outputs (spec_steps spec))
          (detect_unused_outputs spec known_outputs)))"

section \<open>What validation accepts\<close>

lemma and_check_Inr [simp]: "and_check r k = Inr x \<longleftrightarrow> r = Inr () \<and> k = Inr x"
  by (cases r) (simp_all add: and_check_def)

lemma require_Inr [simp]: "require b msg = Inr () \<longleftrightarrow> b"
  by (simp add: require_def validation_def)

lemma validation_not_Inr [simp]: "validation msg \<noteq> Inr x"
  by (simp add: validation_def)

text \<open>The recursive passes visit exactly the steps of \<open>all_steps\<close>.\<close>

lemma nested_union:
  "(\<And>x. o' = Some x \<Longrightarrow> f x = (\<Union>s \<in> set (g x). h s)) \<Longrightarrow>
   (case o' of None \<Rightarrow> {} | Some x \<Rightarrow> f x) = (\<Union>s \<in> set (case o' of None \<Rightarrow> [] | Some x \<Rightarrow> g x). h s)"
  by (cases o') auto

lemma nested_checks:
  "(\<And>x. o' = Some x \<Longrightarrow> f x = Inr () \<longleftrightarrow> (\<forall>s \<in> set (g x). P s)) \<Longrightarrow>
   (case o' of None \<Rightarrow> Inr () | Some x \<Rightarrow> f x) = Inr () \<longleftrightarrow>
   (\<forall>s \<in> set (case o' of None \<Rightarrow> [] | Some x \<Rightarrow> g x). P s)"
  by (cases o') auto

lemma collect_workflow_refs_eq:
  "collect_workflow_refs steps = (\<Union>s \<in> set (all_steps steps). own_workflow_refs s)"
proof (induction steps rule: collect_workflow_refs.induct)
  case (2 s rest)
  note nested = nested_union[OF 2(1)] nested_union[OF 2(2)] nested_union[OF 2(3)] nested_union[OF 2(4)]
  show ?case
    by (simp only: collect_workflow_refs.simps(2)[of s rest] all_steps.simps(2)[of s rest] nested 2(5)
        list.set set_append UN_insert UN_Un Un_assoc)
qed simp

lemma collect_step_outputs_eq:
  "collect_step_outputs steps = (\<Union>s \<in> set (all_steps steps). dr_name ` set (ys_outputs s))"
proof (induction steps rule: collect_step_outputs.induct)
  case (2 s rest)
  note nested = nested_union[OF 2(1)] nested_union[OF 2(2)] nested_union[OF 2(3)] nested_union[OF 2(4)]
  show ?case
    by (simp only: collect_step_outputs.simps(2)[of s rest] all_steps.simps(2)[of s rest] nested 2(5)
        list.set set_append UN_insert UN_Un Un_assoc)
qed simp

lemma validate_step_conditions_iff:
  "validate_step_conditions spec known steps = Inr () \<longleftrightarrow>
     (\<forall>s \<in> set (all_steps steps). check_condition spec known s = Inr ())"
proof (induction spec known steps rule: validate_step_conditions.induct)
  case (2 spec known s rest)
  note nested = nested_checks[OF 2(1)] nested_checks[OF 2(2)] nested_checks[OF 2(3)] nested_checks[OF 2(4)]
  show ?case
    by (simp only: validate_step_conditions.simps(2)[of spec known s rest] all_steps.simps(2)[of s rest]
        and_check_Inr nested 2(5) list.set set_append ball_simps ball_Un conj_assoc)
qed simp

text \<open>
  One link of the chain of \<open>validate_steps\<close>: a part that, given names already seen, succeeds
  when its own names \<open>ns\<close> are new and distinct and its condition \<open>P\<close> holds, and adds its names.
\<close>

definition adds_names :: "string list \<Rightarrow> bool \<Rightarrow> string set \<Rightarrow> yaml_error + string set \<Rightarrow> bool" where
  "adds_names ns P seen r \<longleftrightarrow>
     (\<forall>seen'. r = Inr seen' \<longleftrightarrow> distinct ns \<and> set ns \<inter> seen = {} \<and> P \<and> seen' = seen \<union> set ns)"

lemma adds_names_none [simp]: "adds_names [] True seen (Inr seen)"
  by (auto simp: adds_names_def)

lemma adds_names_chain:
  assumes "adds_names ns P seen r" and "\<And>seen'. r = Inr seen' \<Longrightarrow> adds_names ms Q seen' (k seen')"
  shows "adds_names (ns @ ms) (P \<and> Q) seen (case r of Inl e \<Rightarrow> Inl e | Inr seen' \<Rightarrow> k seen')"
proof (cases r)
  case (Inl e)
  with assms(1) show ?thesis by (auto simp: adds_names_def)
next
  case (Inr s)
  with assms(1) have "distinct ns" "set ns \<inter> seen = {}" P "s = seen \<union> set ns" by (auto simp: adds_names_def)
  with Inr assms(2)[OF Inr] show ?thesis by (auto simp: adds_names_def)
qed

lemma adds_names_nested:
  "(\<And>x seen. o' = Some x \<Longrightarrow> adds_names (map ys_name (g x)) (\<forall>s \<in> set (g x). C s) seen (f x seen)) \<Longrightarrow>
   adds_names (map ys_name (case o' of None \<Rightarrow> [] | Some x \<Rightarrow> g x))
     (\<forall>s \<in> set (case o' of None \<Rightarrow> [] | Some x \<Rightarrow> g x). C s) seen
     (case o' of None \<Rightarrow> Inr seen | Some x \<Rightarrow> f x seen)"
  by (cases o') auto

lemma adds_names_step:
  "adds_names ns P (insert n seen) r \<Longrightarrow>
   adds_names (n # ns) (c = Inr () \<and> P) seen
     (if n \<in> seen then validation msg else case c of Inl e \<Rightarrow> Inl e | Inr _ \<Rightarrow> r)"
  by (cases c) (auto simp: adds_names_def)

lemma validate_steps_names:
  "adds_names (map ys_name (all_steps steps)) (\<forall>s \<in> set (all_steps steps). check_step s = Inr ()) seen
     (validate_steps steps seen)"
proof (induction steps arbitrary: seen rule: all_steps.induct)
  case (2 s rest)
  note nested = adds_names_nested[OF 2(1)] adds_names_nested[OF 2(2)] adds_names_nested[OF 2(3)]
    adds_names_nested[OF 2(4)]
  note chain = adds_names_step[OF adds_names_chain[OF nested(1) adds_names_chain[OF nested(2)
      adds_names_chain[OF nested(3) adds_names_chain[OF nested(4) 2(5)]]]]]
  show ?case
    unfolding validate_steps.simps(2)[of s rest seen] all_steps.simps(2)[of s rest] Let_def
      list.map map_append list.set set_append ball_simps ball_Un
    by (rule chain)
qed simp

lemma validate_iff:
  "validate spec = Inr () \<longleftrightarrow>
     (let steps = all_steps (spec_steps spec);
          produced = (\<Union>s \<in> set steps. dr_name ` set (ys_outputs s))
      in spec_steps spec \<noteq> [] \<and> distinct (map ys_name steps) \<and>
         list_all (\<lambda>s. check_step s = Inr () \<and> check_condition spec produced s = Inr ()) steps \<and>
         fst ` set (spec_outputs spec) \<subseteq> produced \<and>
         pred_option (\<lambda>eb. yeb_behavior_type eb \<in> {''retry'', ''suspend'', ''terminate'', ''compensate''})
           (spec_error_behavior spec))"
proof -
  have names: "(\<exists>seen. validate_steps (spec_steps spec) {} = Inr seen) \<longleftrightarrow>
      distinct (map ys_name (all_steps (spec_steps spec))) \<and>
      (\<forall>s \<in> set (all_steps (spec_steps spec)). check_step s = Inr ())"
    using validate_steps_names[of "spec_steps spec" "{}"] by (auto simp: adds_names_def)
  have eb: "(case spec_error_behavior spec of None \<Rightarrow> Inr ()
      | Some eb \<Rightarrow> validate_error_behavior_type (yeb_behavior_type eb)) = Inr () \<longleftrightarrow>
      pred_option (\<lambda>eb. yeb_behavior_type eb \<in> {''retry'', ''suspend'', ''terminate'', ''compensate''})
        (spec_error_behavior spec)"
    by (cases "spec_error_behavior spec") (simp_all add: validate_error_behavior_type_def)
  have unused: "detect_unused_outputs spec known = Inr () \<longleftrightarrow> fst ` set (spec_outputs spec) \<subseteq> known" for known
    by (auto simp: detect_unused_outputs_def try_each_Inr_iff)
  have "validate spec = Inr () \<longleftrightarrow> spec_steps spec \<noteq> [] \<and> (\<exists>seen. validate_steps (spec_steps spec) {} = Inr seen) \<and>
      (case spec_error_behavior spec of None \<Rightarrow> Inr ()
        | Some eb \<Rightarrow> validate_error_behavior_type (yeb_behavior_type eb)) = Inr () \<and>
      validate_step_conditions spec (collect_step_outputs (spec_steps spec)) (spec_steps spec) = Inr () \<and>
      detect_unused_outputs spec (collect_step_outputs (spec_steps spec)) = Inr ()"
    by (auto simp: validate_def Let_def split: sum.splits)
  then show ?thesis
    unfolding names eb unused validate_step_conditions_iff collect_step_outputs_eq Let_def list_all_iff by blast
qed

section \<open>What a valid step is\<close>






text \<open>The configuration each executor needs.\<close>

definition config_ok :: "string \<Rightarrow> step_config \<Rightarrow> bool" where
  "config_ok type c \<longleftrightarrow>
     (type = ''shell'' \<longrightarrow> sc_run c \<noteq> None \<or> sc_file c \<noteq> None) \<and>
     (type = ''deno'' \<longrightarrow> sc_script c \<noteq> None \<or> sc_file c \<noteq> None) \<and>
     (type = ''buildkit'' \<longrightarrow> sc_dockerfile c \<noteq> None \<and> (sc_context c \<noteq> None \<or> sc_input c \<noteq> None) \<and>
        (sc_push c = Some True \<longrightarrow> sc_tags c \<noteq> [])) \<and>
     (type = ''containerd'' \<longrightarrow> sc_image c \<noteq> None \<and> (sc_run c = None) \<noteq> (sc_command c = None) \<and>
        set_option (sc_network c) \<subseteq> {''none'', ''host'', ''bridge''} \<and>
        set_option (sc_pull c) \<subseteq> {''always'', ''if-not-present'', ''never''}) \<and>
     (type = ''workflow'' \<longrightarrow> sc_child_workflow c \<noteq> None)"

definition behavior_ok :: "yaml_error_behavior option \<Rightarrow> bool" where
  "behavior_ok b \<longleftrightarrow> pred_option (\<lambda>eb. yeb_behavior_type eb \<in> {''retry'', ''suspend'', ''terminate'', ''compensate''}) b"

definition step_ok :: "yaml_step \<Rightarrow> bool" where
  "step_ok s \<longleftrightarrow>
     (ys_step_type s = None) \<noteq> (ys_parallel s = None) \<and>
     (\<forall>type \<in> {''shell'', ''deno'', ''buildkit'', ''containerd'', ''workflow''}.
        ys_step_type s = Some type \<longrightarrow> (\<exists>c. ys_config s = Some c \<and> config_ok type c)) \<and>
     behavior_ok (ys_error_behavior s)"







lemma with_config_Inr: "with_config kind s k = Inr () \<longleftrightarrow> (\<exists>c. ys_config s = Some c \<and> k c = Inr ())"
  by (cases "ys_config s") (simp_all add: with_config_def)

lemma executor_checks:
  "check_shell s = Inr () \<longleftrightarrow> (\<exists>c. ys_config s = Some c \<and> config_ok ''shell'' c)"
  "check_deno s = Inr () \<longleftrightarrow> (\<exists>c. ys_config s = Some c \<and> config_ok ''deno'' c)"
  "check_buildkit s = Inr () \<longleftrightarrow> (\<exists>c. ys_config s = Some c \<and> config_ok ''buildkit'' c)"
  "check_containerd s = Inr () \<longleftrightarrow> (\<exists>c. ys_config s = Some c \<and> config_ok ''containerd'' c)"
  "check_workflow s = Inr () \<longleftrightarrow> (\<exists>c. ys_config s = Some c \<and> config_ok ''workflow'' c)"
proof -
  have none: "(case x of None \<Rightarrow> Inr () | Some y \<Rightarrow> require (P y) (m y)) = Inr () \<longleftrightarrow> (\<forall>y \<in> set_option x. P y)"
    for x :: "string option" and P m by (cases x) simp_all
  have one: "(x \<noteq> None \<or> y \<noteq> None) \<and> \<not> (x \<noteq> None \<and> y \<noteq> None) \<and> Q \<longleftrightarrow> (x = None) \<noteq> (y = None) \<and> Q"
    for x :: "string option" and y :: "string list option" and Q by auto
  show "check_shell s = Inr () \<longleftrightarrow> (\<exists>c. ys_config s = Some c \<and> config_ok ''shell'' c)"
    "check_deno s = Inr () \<longleftrightarrow> (\<exists>c. ys_config s = Some c \<and> config_ok ''deno'' c)"
    "check_workflow s = Inr () \<longleftrightarrow> (\<exists>c. ys_config s = Some c \<and> config_ok ''workflow'' c)"
    by (simp_all add: check_shell_def check_deno_def check_workflow_def with_config_Inr config_ok_def)
  show "check_buildkit s = Inr () \<longleftrightarrow> (\<exists>c. ys_config s = Some c \<and> config_ok ''buildkit'' c)"
    unfolding check_buildkit_def with_config_Inr config_ok_def
    by (intro arg_cong[where f = Ex] ext conj_cong refl) (auto simp: unwrap_or_def split: option.splits)
  show "check_containerd s = Inr () \<longleftrightarrow> (\<exists>c. ys_config s = Some c \<and> config_ok ''containerd'' c)"
    unfolding check_containerd_def with_config_Inr config_ok_def and_check_Inr require_Inr none one subset_eq by simp
qed

lemma check_step_iff: "check_step s = Inr () \<longleftrightarrow> step_ok s"
proof -
  have "(case ys_error_behavior s of None \<Rightarrow> Inr () | Some eb \<Rightarrow> validate_error_behavior_type (yeb_behavior_type eb)) = Inr () \<longleftrightarrow>
      behavior_ok (ys_error_behavior s)"
    by (cases "ys_error_behavior s") (simp_all add: validate_error_behavior_type_def behavior_ok_def)
  then show ?thesis by (auto simp: check_step_def step_ok_def executor_checks)
qed



text \<open>A step without a type and without children is refused.\<close>

lemma untyped_step_rejected:
  "s \<in> set (all_steps (spec_steps spec)) \<Longrightarrow> ys_step_type s = None \<Longrightarrow> ys_parallel s = None \<Longrightarrow> validate spec \<noteq> Inr ()"
  by (auto simp: validate_iff check_step_iff step_ok_def list_all_iff Let_def)

end
