(* ===== verification/Yaml_Compiler_Correct.thy ===== *)
theory Yaml_Compiler_Correct
  imports Yaml_Compiler Yaml_Validation "HOL-Library.Multiset"
begin

text \<open>
  Correctness of the YAML compiler. While it runs, the ids of the steps emitted so far and of the
  containers whose children are being compiled (\<open>pending\<close>) are together the ids handed out, each
  once, and every reference is to an id handed out; at the end nothing is pending, so the
  definition is well formed. The type of every emitted step has a factory, and for a validated
  workflow no two factories share a name.
\<close>

section \<open>Well-formed definitions\<close>

definition sequence_type :: string where
  "sequence_type = ''wfe_core::primitives::sequence::SequenceStep''"

abbreviation emitted :: "compile_state \<Rightarrow> workflow_step list" where
  "emitted st \<equiv> wd_steps (cs_definition st)"

definition compile_inv :: "nat set \<Rightarrow> compile_state \<Rightarrow> bool" where
  "compile_inv pending st \<longleftrightarrow>
     distinct (map ws_id (emitted st)) \<and> ws_id ` set (emitted st) \<inter> pending = {} \<and>
     ws_id ` set (emitted st) \<union> pending = {..<cs_next_id st} \<and>
     (\<forall>s \<in> set (emitted st). step_refs s \<subseteq> {..<cs_next_id st})"

text \<open>What every part of the compiler does to the state.\<close>

definition label :: "workflow_step \<Rightarrow> nat \<times> string option \<times> string" where
  "label s = (ws_id s, ws_name s, ws_step_type s)"

abbreviation labels :: "workflow_definition \<Rightarrow> (nat \<times> string option \<times> string) list" where
  "labels d \<equiv> map label (wd_steps d)"

definition extends :: "compile_state \<Rightarrow> compile_state \<Rightarrow> bool" where
  "extends st st' \<longleftrightarrow>
     (\<forall>pending. compile_inv pending st \<longrightarrow> compile_inv pending st') \<and> cs_next_id st \<le> cs_next_id st' \<and>
     set (labels (cs_definition st)) \<subseteq> set (labels (cs_definition st')) \<and>
     wd_id (cs_definition st') = wd_id (cs_definition st)"

lemma extends_refl [simp]: "extends st st"
  by (simp add: extends_def)

lemma extends_trans [trans]: "extends a b \<Longrightarrow> extends b c \<Longrightarrow> extends a c"
  by (simp add: extends_def) (meson order_trans)

lemma extends_le: "extends st st' \<Longrightarrow> cs_next_id st \<le> cs_next_id st'"
  by (simp add: extends_def)

lemma compile_state_simps [simp]:
  "emitted (push_step s st) = emitted st @ [s]"
  "emitted (push_factory k f st) = emitted st"
  "wd_id (cs_definition (push_step s st)) = wd_id (cs_definition st)"
  "wd_id (cs_definition (push_factory k f st)) = wd_id (cs_definition st)"
  "cs_next_id (push_step s st) = cs_next_id st"
  "cs_next_id (push_factory k f st) = cs_next_id st"
  "cs_factories (push_step s st) = cs_factories st"
  "cs_factories (push_factory k f st) = cs_factories st @ [(k, f)]"
  by (simp_all add: push_step_def push_factory_def)

lemma compile_inv_alloc:
  "compile_inv pending st \<Longrightarrow> compile_inv (insert (cs_next_id st) pending) (st\<lparr>cs_next_id := Suc (cs_next_id st)\<rparr>)"
  by (fastforce simp: compile_inv_def lessThan_Suc)

lemma compile_inv_push:
  "compile_inv (insert (ws_id s) pending) st \<Longrightarrow> ws_id s \<notin> pending \<Longrightarrow> step_refs s \<subseteq> {..<cs_next_id st} \<Longrightarrow>
   compile_inv pending (push_step s st)"
  by (auto simp: compile_inv_def)

lemma compile_inv_factory [simp]: "compile_inv pending (push_factory k f st) = compile_inv pending st"
  by (simp add: compile_inv_def)

text \<open>Handing out an id, doing something that extends the state, then emitting the step with that id.\<close>

lemma extends_step:
  assumes "extends (st\<lparr>cs_next_id := Suc (cs_next_id st)\<rparr>) st'" and "ws_id s = cs_next_id st"
    and "step_refs s \<subseteq> {..<cs_next_id st'}"
  shows "extends st (push_step s st')"
  unfolding extends_def
proof (intro conjI allI impI)
  fix pending assume inv: "compile_inv pending st"
  then have "ws_id s \<notin> pending" using assms(2) by (auto simp: compile_inv_def)
  moreover have "compile_inv (insert (ws_id s) pending) st'"
    using compile_inv_alloc[OF inv] assms(1,2) by (simp add: extends_def)
  ultimately show "compile_inv pending (push_step s st')" using assms(3) by (auto intro: compile_inv_push)
qed (use assms(1) in \<open>auto simp: extends_def\<close>)

lemma step_refs_simps [simp]:
  "step_refs (workflow_step_new i k) = {}"
  "step_refs (s\<lparr>ws_name := n\<rparr>) = step_refs s"
  "step_refs (s\<lparr>ws_step_config := v\<rparr>) = step_refs s"
  "step_refs (s\<lparr>ws_error_behavior := b\<rparr>) = step_refs s"
  "step_refs (s\<lparr>ws_when := c\<rparr>) = step_refs s"
  "step_refs (add_outcome (outcome_to i l) s) = insert i (step_refs s)"
  "step_refs (s\<lparr>ws_compensation_step_id := Some i\<rparr>) \<subseteq> insert i (step_refs s)"
  "step_refs (s\<lparr>ws_children := ids\<rparr>) \<subseteq> set ids \<union> step_refs s"
  by (auto simp: step_refs_def workflow_step_new_def add_outcome_def outcome_to_def)

lemma add_outcome_simps [simp]:
  "ws_id (add_outcome oc s) = ws_id s"
  "ws_step_type (add_outcome oc s) = ws_step_type s"
  "ws_name (add_outcome oc s) = ws_name s"
  "ws_id (workflow_step_new i k) = i"
  "ws_step_type (workflow_step_new i k) = k"
  by (simp_all add: add_outcome_def workflow_step_new_def)

lemma label_add_outcome [simp]: "label (add_outcome oc s) = label s"
  by (simp add: label_def add_outcome_def)

lemma wrap_Inr: "wrap f r = Inr y \<longleftrightarrow> (\<exists>x. r = Inr x \<and> y = f x)"
  by (auto simp: wrap_def split: sum.splits)

lemma extends_factory [simp]: "extends st (push_factory k f st') = extends st st'"
  by (simp add: extends_def)

lemma compile_hook_extends:
  assumes "compile_hook ft hook st = Inr (i, st')"
  shows "extends st st' \<and> i < cs_next_id st'"
  using assms
  by (auto simp: compile_hook_def alloc_id_def split: sum.splits intro!: extends_step)

text \<open>The three hooks of a step: they extend the state and only add references to ids handed out.\<close>

definition hooked :: "workflow_step \<Rightarrow> compile_state \<Rightarrow> workflow_step \<times> compile_state \<Rightarrow> bool" where
  "hooked s st r \<longleftrightarrow>
     (case r of (s', st') \<Rightarrow> extends st st' \<and> label s' = label s \<and>
        step_refs s' \<subseteq> step_refs s \<union> {..<cs_next_id st'})"

lemma hooks_hooked:
  "compile_on_failure ft ys s st = Inr r \<Longrightarrow> hooked s st r"
  "compile_on_success ft ys s st = Inr r \<Longrightarrow> hooked s st r"
  "compile_ensure ft ys s st = Inr r \<Longrightarrow> hooked s st r"
  by (auto simp: compile_on_failure_def compile_on_success_def compile_ensure_def hooked_def wrap_Inr label_def
      split: option.splits if_splits dest!: compile_hook_extends subsetD[OF step_refs_simps(7)])

lemma compile_regularE:
  assumes "compile_regular ft ys st = Inr (i, st')"
  obtains key val f s0 s1 st1 s2 st2 s3 st3 where
    "build_step_config_and_factory ft ys (unwrap_or (ys_step_type ys) ''shell'') = Inr (key, val, f)"
    "label s0 = (cs_next_id st, Some (ys_name ys), key)" "step_refs s0 = {}" "ws_outcomes s0 = []"
    "ws_step_config s0 = Some val"
    "compile_on_failure ft ys s0 (st\<lparr>cs_next_id := Suc (cs_next_id st)\<rparr>) = Inr (s1, st1)"
    "compile_on_success ft ys s1 st1 = Inr (s2, st2)" "compile_ensure ft ys s2 st2 = Inr (s3, st3)"
    "i = cs_next_id st" "st' = push_factory key f (push_step s3 st3)"
proof -
  let ?st0 = "st\<lparr>cs_next_id := Suc (cs_next_id st)\<rparr>"
  from assms obtain key val f eb cond where
    b: "build_step_config_and_factory ft ys (unwrap_or (ys_step_type ys) ''shell'') = Inr (key, val, f)"
    "try_option map_error_behavior (ys_error_behavior ys) = Inr eb" "try_option compile_condition (ys_when ys) = Inr cond"
    by (auto simp: compile_regular_def alloc_id_def split: sum.splits)
  define s0 where "s0 = (workflow_step_new (cs_next_id st) key)
    \<lparr>ws_name := Some (ys_name ys), ws_step_config := Some val, ws_error_behavior := eb, ws_when := cond\<rparr>"
  have s0: "label s0 = (cs_next_id st, Some (ys_name ys), key)" "step_refs s0 = {}" "ws_outcomes s0 = []"
      "ws_step_config s0 = Some val"
    by (simp_all add: s0_def label_def workflow_step_new_def step_refs_def)
  obtain s1 st1 where h1: "compile_on_failure ft ys s0 ?st0 = Inr (s1, st1)"
    using assms by (auto simp: compile_regular_def alloc_id_def b Let_def simp flip: s0_def split: sum.splits)
  obtain s2 st2 where h2: "compile_on_success ft ys s1 st1 = Inr (s2, st2)"
    using assms by (auto simp: compile_regular_def alloc_id_def b Let_def h1 simp flip: s0_def split: sum.splits)
  obtain s3 st3 where h3: "compile_ensure ft ys s2 st2 = Inr (s3, st3)"
    using assms by (auto simp: compile_regular_def alloc_id_def b Let_def h1 h2 simp flip: s0_def split: sum.splits)
  have "i = cs_next_id st" "st' = push_factory key f (push_step s3 st3)"
    using assms by (auto simp: compile_regular_def alloc_id_def b Let_def h1 h2 h3 simp flip: s0_def)
  with b(1) s0 h1 h2 h3 show ?thesis by (rule that)
qed

lemma compile_regular_extends:
  assumes "compile_regular ft ys st = Inr (i, st')"
  shows "extends st st' \<and> i < cs_next_id st' \<and> i = cs_next_id st"
  using assms
proof (rule compile_regularE)
  let ?st0 = "st\<lparr>cs_next_id := Suc (cs_next_id st)\<rparr>"
  fix key val f s0 s1 st1 s2 st2 s3 st3
  assume s0: "label s0 = (cs_next_id st, Some (ys_name ys), key)" "step_refs s0 = {}"
    and "compile_on_failure ft ys s0 ?st0 = Inr (s1, st1)" "compile_on_success ft ys s1 st1 = Inr (s2, st2)"
    "compile_ensure ft ys s2 st2 = Inr (s3, st3)"
    and st': "i = cs_next_id st" "st' = push_factory key f (push_step s3 st3)"
  then have h: "hooked s0 ?st0 (s1, st1)" "hooked s1 st1 (s2, st2)" "hooked s2 st2 (s3, st3)"
    by (auto dest: hooks_hooked)
  then have e: "extends ?st0 st1" "extends st1 st2" "extends st2 st3" by (simp_all add: hooked_def)
  note e3 = extends_trans[OF extends_trans[OF e(1,2)] e(3)]
  have "label s3 = label s0" using h by (simp add: hooked_def)
  then have "ws_id s3 = cs_next_id st" using s0 by (simp add: label_def)
  moreover have "step_refs s3 \<subseteq> {..<cs_next_id st3}"
    using h s0(2) extends_le[OF e(2)] extends_le[OF e(3)] by (force simp: hooked_def)
  ultimately have "extends st (push_step s3 st3)" by (rule extends_step[OF e3])
  with st' extends_le[OF e3] show ?thesis by simp
qed

text \<open>Wiring keeps the ids and only adds references to the ids it is given.\<close>

lemma map_first_same: "(\<And>x. p x \<Longrightarrow> g (f x) = g x) \<Longrightarrow> map g (map_first p f xs) = map g xs"
  by (induction xs) auto

lemma map_first_set: "y \<in> set (map_first p f xs) \<Longrightarrow> y \<in> set xs \<or> (\<exists>x \<in> set xs. p x \<and> y = f x)"
  by (induction xs) (auto split: if_splits)

definition rewired :: "nat set \<Rightarrow> workflow_definition \<Rightarrow> workflow_definition \<Rightarrow> bool" where
  "rewired targets d d' \<longleftrightarrow>
     wd_id d' = wd_id d \<and> labels d' = labels d \<and>
     (\<Union>s \<in> set (wd_steps d'). step_refs s) \<subseteq> (\<Union>s \<in> set (wd_steps d). step_refs s) \<union> targets"

lemma rewired_refl [simp]: "rewired T d d"
  by (simp add: rewired_def)

lemma rewired_trans: "rewired T d d' \<Longrightarrow> rewired U d' d'' \<Longrightarrow> rewired (T \<union> U) d d''"
  by (simp add: rewired_def) blast

lemma rewired_update: "rewired {n} d (update_first i (add_outcome (outcome_to n l)) d)"
  by (auto simp: rewired_def update_first_def map_first_same dest!: map_first_set)

lemma labels_ids: "labels d' = labels d \<Longrightarrow> map ws_id (wd_steps d') = map ws_id (wd_steps d)"
  by (drule arg_cong[where f = "map fst"]) (simp add: comp_def label_def)

lemma rewired_wire_pair: "rewired {b} d (wire_pair a b d)"
  by (simp add: wire_pair_def Let_def rewired_update split: option.split)

lemma rewired_wire: "rewired (set ids) d (wire_main_steps ids d)"
proof (induction ids d rule: wire_main_steps.induct)
  case (1 a b ids d)
  from rewired_trans[OF rewired_wire_pair 1] show ?case
    by (auto simp: rewired_def)
qed simp_all

lemma extends_wire:
  assumes "extends st st'" and "set ids \<subseteq> {..<cs_next_id st'}"
  shows "extends st (wire_state ids st')"
proof -
  have r: "rewired (set ids) (cs_definition st') (wire_main_steps ids (cs_definition st'))" by (rule rewired_wire)
  then have labels: "labels (wire_main_steps ids (cs_definition st')) = labels (cs_definition st')"
    by (simp add: rewired_def)
  then have ids: "ws_id ` set (wd_steps (wire_main_steps ids (cs_definition st'))) = ws_id ` set (emitted st')"
    by (metis list.set_map labels_ids)
  have "compile_inv pending (wire_state ids st')" if inv: "compile_inv pending st'" for pending
  proof -
    have "(\<Union>s \<in> set (emitted st'). step_refs s) \<subseteq> {..<cs_next_id st'}" using inv by (auto simp: compile_inv_def)
    with r assms(2) have "(\<Union>s \<in> set (wd_steps (wire_main_steps ids (cs_definition st'))). step_refs s) \<subseteq> {..<cs_next_id st'}"
      unfolding rewired_def by blast
    with ids labels_ids[OF labels] inv show ?thesis by (auto simp: compile_inv_def wire_state_def)
  qed
  moreover have "label ` set (wd_steps (wire_main_steps ids (cs_definition st'))) = label ` set (emitted st')"
    using labels by (metis list.set_map)
  moreover have "wd_id (wire_main_steps ids (cs_definition st')) = wd_id (cs_definition st')"
    using r by (simp add: rewired_def)
  ultimately show ?thesis using assms(1) by (simp add: extends_def wire_state_def)
qed

lemma wire_state_next [simp]: "cs_next_id (wire_state ids st) = cs_next_id st"
  by (simp add: wire_state_def)

text \<open>
  The loop and, with the wiring, \<open>compile_steps\<close>: the main step ids are handed out in this call
  and grow.
\<close>

definition compiled_ids :: "compile_state \<Rightarrow> nat list \<times> compile_state \<Rightarrow> bool" where
  "compiled_ids st r \<longleftrightarrow>
     (case r of (ids, st') \<Rightarrow> extends st st' \<and> sorted_wrt (<) ids \<and> set ids \<subseteq> {cs_next_id st..<cs_next_id st'} \<and>
        (ids \<noteq> [] \<longrightarrow> hd ids = cs_next_id st))"

definition container_step ::
  "nat \<Rightarrow> yaml_step \<Rightarrow> error_behavior option \<Rightarrow> nat list \<Rightarrow> step_condition option \<Rightarrow> workflow_step" where
  "container_step i ys eb ids cond = (workflow_step_new i sequence_type)
     \<lparr>ws_name := Some (ys_name ys), ws_error_behavior := eb, ws_children := ids, ws_when := cond\<rparr>"

lemma container_step_simps [simp]:
  "ws_id (container_step i ys eb ids cond) = i"
  "ws_step_type (container_step i ys eb ids cond) = sequence_type"
  "ws_name (container_step i ys eb ids cond) = Some (ys_name ys)"
  "ws_outcomes (container_step i ys eb ids cond) = []"
  "step_refs (container_step i ys eb ids cond) = set ids"
  by (auto simp: container_step_def workflow_step_new_def step_refs_def)

lemma compile_parallelE:
  assumes "compile_parallel ft ys children st = Inr (i, st')"
  obtains eb ids cond st1 where
    "compile_each ft children (st\<lparr>cs_next_id := Suc (cs_next_id st)\<rparr>) = Inr (ids, st1)"
    "st' = push_step (container_step i ys eb ids cond) (wire_state ids st1)" "i = cs_next_id st"
proof -
  let ?st0 = "st\<lparr>cs_next_id := Suc (cs_next_id st)\<rparr>"
  from assms obtain eb r cond where "try_option map_error_behavior (ys_error_behavior ys) = Inr eb"
    and each: "compile_each ft children ?st0 = Inr r" and "try_option compile_condition (ys_when ys) = Inr cond"
    by (cases "try_option map_error_behavior (ys_error_behavior ys)"; cases "compile_each ft children ?st0";
        cases "try_option compile_condition (ys_when ys)")
      (simp_all add: compile_parallel_def compile_steps_def alloc_id_def split: prod.splits)
  with assms have "(i, st') = (cs_next_id st, push_step (container_step (cs_next_id st) ys eb (fst r) cond)
      (wire_state (fst r) (snd r)))"
    by (auto simp: compile_parallel_def compile_steps_def alloc_id_def container_step_def sequence_type_def
        split: prod.splits)
  with each that[of "fst r" "snd r" eb cond] show ?thesis by simp
qed

lemma compile_parallel_extends:
  assumes "compile_parallel ft ys children st = Inr (i, st')"
    and IH: "\<And>st r. compile_each ft children st = Inr r \<Longrightarrow> compiled_ids st r"
  shows "extends st st' \<and> i < cs_next_id st' \<and> i = cs_next_id st"
  using assms(1)
proof (rule compile_parallelE)
  let ?st0 = "st\<lparr>cs_next_id := Suc (cs_next_id st)\<rparr>"
  fix eb ids cond st1
  assume each: "compile_each ft children ?st0 = Inr (ids, st1)" and i: "i = cs_next_id st"
    and st': "st' = push_step (container_step i ys eb ids cond) (wire_state ids st1)"
  from IH[OF each] have ok: "extends ?st0 st1" "set ids \<subseteq> {..<cs_next_id st1}" "Suc i \<le> cs_next_id st1"
    using i by (auto simp: compiled_ids_def extends_def)
  have "extends st st'"
    unfolding st' by (rule extends_step[OF extends_wire[OF ok(1,2)]]) (use i ok(2) in auto)
  with st' i ok(3) show ?thesis by simp
qed

text \<open>One main step followed by the rest.\<close>

lemma compile_each_ConsE:
  assumes "compile_each ft (ys # rest) st = Inr r"
  obtains i ids st1 st2 where
    "(case ys_parallel ys of None \<Rightarrow> compile_regular ft ys st | Some cs \<Rightarrow> compile_parallel ft ys cs st) = Inr (i, st1)"
    "compile_each ft rest st1 = Inr (ids, st2)" "r = (i # ids, st2)"
  using assms that by (auto simp: compile_each_Cons split: sum.splits)

lemma compiled_ids_Cons:
  assumes "extends st st1 \<and> i < cs_next_id st1 \<and> i = cs_next_id st" and "compiled_ids st1 (ids, st2)"
  shows "compiled_ids st (i # ids, st2)"
  using assms extends_trans[of st st1 st2] extends_le[of st1 st2] by (auto simp: compiled_ids_def)

lemma compile_each_ids: "compile_each ft steps st = Inr r \<Longrightarrow> compiled_ids st r"
proof (induction "size_list size steps" arbitrary: steps st r rule: less_induct)
  case less
  show ?case
  proof (cases steps)
    case Nil
    with less.prems show ?thesis by (auto simp: compiled_ids_def)
  next
    case (Cons ys rest)
    from less.prems[unfolded Cons] show ?thesis
    proof (rule compile_each_ConsE)
      fix i ids st1 st2
      assume first: "(case ys_parallel ys of None \<Rightarrow> compile_regular ft ys st
          | Some cs \<Rightarrow> compile_parallel ft ys cs st) = Inr (i, st1)"
        and rest: "compile_each ft rest st1 = Inr (ids, st2)" and r: "r = (i # ids, st2)"
      have "extends st st1 \<and> i < cs_next_id st1 \<and> i = cs_next_id st"
      proof (cases "ys_parallel ys")
        case None
        with first show ?thesis using compile_regular_extends by auto
      next
        case (Some cs)
        then have "size_list size cs < size_list size steps" using nested_step_size(1) by (fastforce simp: Cons)
        from compile_parallel_extends[OF _ less.hyps[OF this]] Some first show ?thesis by auto
      qed
      from compiled_ids_Cons[OF this less.hyps[OF _ rest]] r show ?thesis by (simp add: Cons)
    qed
  qed
qed

lemma compile_steps_ids: "compile_steps ft steps st = Inr r \<Longrightarrow> compiled_ids st r"
  using compile_each_ids extends_wire
  by (fastforce simp: compile_steps_def compiled_ids_def split: sum.splits)

section \<open>Factories\<close>

text \<open>
  Every emitted step that is not a container has its own factory, registered under its type; the
  type names the step, after a prefix for the kind of step that holds no colon.
\<close>

definition step_key :: "string \<Rightarrow> string \<Rightarrow> string" where
  "step_key kind name = ''wfe_yaml::'' @ kind @ ''::'' @ name"

definition keyed :: "workflow_step \<Rightarrow> bool" where
  "keyed s \<longleftrightarrow> ws_step_type s = sequence_type \<or>
     (\<exists>kind name. ws_name s = Some name \<and> ws_step_type s = step_key kind name \<and> CHR '':'' \<notin> set kind)"

definition factory_inv :: "compile_state \<Rightarrow> bool" where
  "factory_inv st \<longleftrightarrow> list_all keyed (emitted st) \<and>
     mset (map fst (cs_factories st)) = mset (filter (\<lambda>t. t \<noteq> sequence_type) (map ws_step_type (emitted st)))"

definition adds :: "string list \<Rightarrow> compile_state \<Rightarrow> compile_state \<Rightarrow> bool" where
  "adds ns st st' \<longleftrightarrow>
     mset (map ws_name (emitted st')) \<subseteq># mset (map ws_name (emitted st)) + mset (map Some ns) \<and>
     (factory_inv st \<longrightarrow> factory_inv st')"

lemma adds_refl [simp]: "adds [] st st"
  by (simp add: adds_def)

lemma adds_trans:
  assumes "adds ns a b" and "adds ms b c"
  shows "adds (ns @ ms) a c"
proof -
  from assms have "mset (map ws_name (emitted c)) \<subseteq># mset (map ws_name (emitted b)) + mset (map Some ms)"
    "mset (map ws_name (emitted b)) \<subseteq># mset (map ws_name (emitted a)) + mset (map Some ns)" by (simp_all add: adds_def)
  from subset_mset.order_trans[OF this(1) subset_mset.add_right_mono[OF this(2)]]
  show ?thesis using assms by (simp add: adds_def ac_simps)
qed

lemma adds_weaken: "adds ns a b \<Longrightarrow> mset ns \<subseteq># mset ms \<Longrightarrow> adds ms a b"
  unfolding adds_def using image_mset_subseteq_mono[of "mset ns" "mset ms" Some]
  by (auto intro: subset_mset.order_trans subset_mset.add_left_mono)

lemma adds_alloc [simp]: "adds ns (st\<lparr>cs_next_id := n\<rparr>) st' = adds ns st st'"
  by (simp add: adds_def factory_inv_def)

lemma step_key_not_sequence [simp]: "step_key kind name \<noteq> sequence_type"
  by (simp add: step_key_def sequence_type_def)

lemma adds_step:
  "ws_step_type s = step_key kind name \<Longrightarrow> ws_name s = Some name \<Longrightarrow> CHR '':'' \<notin> set kind \<Longrightarrow>
   adds [name] st (push_factory (step_key kind name) f (push_step s st))"
  by (auto simp: adds_def factory_inv_def keyed_def)

lemma adds_container:
  "ws_step_type s = sequence_type \<Longrightarrow> ws_name s = Some name \<Longrightarrow> adds [name] st (push_step s st)"
  by (auto simp: adds_def factory_inv_def keyed_def)

lemma adds_wire [simp]: "adds [] st (wire_state ids st)"
proof -
  have l: "labels (wire_main_steps ids (cs_definition st)) = labels (cs_definition st)"
    using rewired_wire[of ids "cs_definition st"] by (simp add: rewired_def)
  then have n: "map ws_name (wd_steps (wire_main_steps ids (cs_definition st))) = map ws_name (emitted st)"
    and t: "map ws_step_type (wd_steps (wire_main_steps ids (cs_definition st))) = map ws_step_type (emitted st)"
    by (auto dest: arg_cong[where f = "map (fst \<circ> snd)"] arg_cong[where f = "map (snd \<circ> snd)"] simp: comp_def label_def)
  let ?K = "\<lambda>(i, n, t). t = sequence_type \<or>
      (\<exists>kind name. n = Some name \<and> t = step_key kind name \<and> CHR '':'' \<notin> set kind)"
  have K: "list_all keyed xs = list_all ?K (map label xs)" for xs
    by (simp add: list_all_iff keyed_def label_def)
  have "list_all keyed (wd_steps (wire_main_steps ids (cs_definition st))) = list_all keyed (emitted st)"
    unfolding K l ..
  with n t show ?thesis by (simp add: adds_def factory_inv_def wire_state_def)
qed

lemma registered_key: "registered kind s v f r = Inr (key, x) \<Longrightarrow> key = step_key kind (ys_name s)"
  by (auto simp: registered_def step_key_def split: sum.splits)

lemma if_valueE: "(if c then a else b) = r \<Longrightarrow> (a = r \<Longrightarrow> Q) \<Longrightarrow> (b = r \<Longrightarrow> Q) \<Longrightarrow> Q"
  by (cases c) simp_all

lemma built_key:
  assumes "build_step_config_and_factory ft s t = Inr (key, val, f)"
  obtains kind where "key = step_key kind (ys_name s)" "CHR '':'' \<notin> set kind"
proof -
  have key: thesis if "registered kind s v g r = Inr (key, val, f)" "CHR '':'' \<notin> set kind" for kind v g r
    using that registered_key[OF that(1)] \<open>\<And>kind. key = step_key kind (ys_name s) \<Longrightarrow> CHR '':'' \<notin> set kind \<Longrightarrow> thesis\<close> by blast
  from assms show thesis
    unfolding build_step_config_and_factory_def
    by (elim if_valueE) (erule key, simp | simp add: compilation_def)+
qed

lemma compile_hook_adds: "compile_hook ft hook st = Inr (i, st') \<Longrightarrow> adds [ys_name hook] st st'"
proof -
  assume h: "compile_hook ft hook st = Inr (i, st')"
  then obtain key val f where b:
    "build_step_config_and_factory ft hook (unwrap_or (ys_step_type hook) ''shell'') = Inr (key, val, f)"
    by (auto simp: compile_hook_def alloc_id_def split: sum.splits)
  from built_key[OF b] obtain kind where k: "key = step_key kind (ys_name hook)" "CHR '':'' \<notin> set kind" .
  let ?st0 = "st\<lparr>cs_next_id := Suc (cs_next_id st)\<rparr>"
  let ?s = "(workflow_step_new (cs_next_id st) key)\<lparr>ws_name := Some (ys_name hook), ws_step_config := Some val\<rparr>"
  have "adds [ys_name hook] ?st0 (push_factory key f (push_step ?s ?st0))"
    unfolding k(1) by (rule adds_step) (use k in \<open>simp_all add: workflow_step_new_def\<close>)
  moreover have "st' = push_factory key f (push_step ?s ?st0)" using h b by (auto simp: compile_hook_def alloc_id_def)
  ultimately show ?thesis by simp
qed

definition hook_names :: "yaml_step option \<Rightarrow> string list" where
  "hook_names h = (case h of None \<Rightarrow> [] | Some h \<Rightarrow> [ys_name h])"

lemma hooks_add:
  "compile_on_failure ft ys s st = Inr (s', st') \<Longrightarrow> adds (hook_names (ys_on_failure ys)) st st'"
  "compile_on_success ft ys s st = Inr (s', st') \<Longrightarrow> adds (hook_names (ys_on_success ys)) st st'"
  "compile_ensure ft ys s st = Inr (s', st') \<Longrightarrow> adds (hook_names (ys_ensure ys)) st st'"
  by (auto simp: compile_on_failure_def compile_on_success_def compile_ensure_def wrap_Inr hook_names_def
      split: option.splits dest: compile_hook_adds)

lemma compile_regular_adds:
  assumes "compile_regular ft ys st = Inr (i, st')"
  shows "adds (((hook_names (ys_on_failure ys) @ hook_names (ys_on_success ys)) @ hook_names (ys_ensure ys)) @ [ys_name ys]) st st' \<and>
    (\<exists>t. (i, Some (ys_name ys), t) \<in> set (labels (cs_definition st')))"
  using assms
proof (rule compile_regularE)
  let ?st0 = "st\<lparr>cs_next_id := Suc (cs_next_id st)\<rparr>"
  fix key val f s0 s1 st1 s2 st2 s3 st3
  assume b: "build_step_config_and_factory ft ys (unwrap_or (ys_step_type ys) ''shell'') = Inr (key, val, f)"
    and s0: "label s0 = (cs_next_id st, Some (ys_name ys), key)"
    and h: "compile_on_failure ft ys s0 ?st0 = Inr (s1, st1)" "compile_on_success ft ys s1 st1 = Inr (s2, st2)"
    "compile_ensure ft ys s2 st2 = Inr (s3, st3)"
    and st': "i = cs_next_id st" "st' = push_factory key f (push_step s3 st3)"
  have "hooked s0 ?st0 (s1, st1)" "hooked s1 st1 (s2, st2)" "hooked s2 st2 (s3, st3)"
    using h by (auto dest: hooks_hooked)
  then have l: "label s3 = (i, Some (ys_name ys), key)" using s0 st' by (simp add: hooked_def)
  from built_key[OF b] obtain kind where k: "key = step_key kind (ys_name ys)" "CHR '':'' \<notin> set kind" .
  have "adds [ys_name ys] st3 st'"
    unfolding st' k(1) by (rule adds_step) (use k l in \<open>auto simp: label_def\<close>)
  from adds_trans[OF adds_trans[OF adds_trans[OF hooks_add(1)[OF h(1)] hooks_add(2)[OF h(2)]] hooks_add(3)[OF h(3)]] this]
  show ?thesis using l st' by auto
qed

text \<open>The names of the hooks of a step are names of \<open>all_steps\<close>.\<close>

lemma hook_names_sub:
  "mset (hook_names h) \<subseteq># mset (map ys_name (case h of None \<Rightarrow> [] | Some h \<Rightarrow> all_steps [h]))"
proof (cases h)
  case (Some a)
  have "all_steps [a] = a # tl (own_steps a)" by (subst all_steps_Cons) (simp add: own_steps_def)
  with Some show ?thesis by (simp add: hook_names_def)
qed (simp add: hook_names_def)

lemma regular_names_sub:
  "mset (((hook_names (ys_on_failure ys) @ hook_names (ys_on_success ys)) @ hook_names (ys_ensure ys)) @ [ys_name ys])
     \<subseteq># mset (map ys_name (own_steps ys))"
proof -
  have sum: "a + b + c + {#n#} \<subseteq># {#n#} + (p + (b' + (a' + c')))"
    if "a \<subseteq># a'" "b \<subseteq># b'" "c \<subseteq># c'" for a b c p a' b' c' :: "string multiset" and n
  proof -
    have "a + b + c + {#n#} \<subseteq># a' + b' + c' + {#n#}" using that by (intro subset_mset.add_mono) simp_all
    also have "\<dots> \<subseteq># a' + b' + c' + {#n#} + p" by simp
    also have "\<dots> = {#n#} + (p + (b' + (a' + c')))" by (simp add: ac_simps)
    finally show ?thesis .
  qed
  from sum[OF hook_names_sub hook_names_sub hook_names_sub] show ?thesis by (simp add: own_steps_def)
qed

lemma main_step_adds:
  assumes first: "(case ys_parallel ys of None \<Rightarrow> compile_regular ft ys st
      | Some cs \<Rightarrow> compile_parallel ft ys cs st) = Inr (i, st')"
    and IH: "\<And>cs st ids st'. ys_parallel ys = Some cs \<Longrightarrow> compile_each ft cs st = Inr (ids, st') \<Longrightarrow>
      adds (map ys_name (all_steps cs)) st st'"
  shows "adds (map ys_name (own_steps ys)) st st' \<and>
     (\<exists>t. (i, Some (ys_name ys), t) \<in> set (labels (cs_definition st')))"
proof (cases "ys_parallel ys")
  case None
  with first have "compile_regular ft ys st = Inr (i, st')" by simp
  from compile_regular_adds[OF this] adds_weaken[OF _ regular_names_sub] show ?thesis by blast
next
  case (Some cs)
  with first have "compile_parallel ft ys cs st = Inr (i, st')" by simp
  then show ?thesis
  proof (rule compile_parallelE)
    fix eb ids cond st1
    assume each: "compile_each ft cs (st\<lparr>cs_next_id := Suc (cs_next_id st)\<rparr>) = Inr (ids, st1)"
      and st': "st' = push_step (container_step i ys eb ids cond) (wire_state ids st1)"
    have "adds [ys_name ys] (wire_state ids st1) st'" unfolding st' by (rule adds_container) simp_all
    from adds_trans[OF adds_trans[OF IH[OF Some each] adds_wire] this]
    have a: "adds (map ys_name (all_steps cs) @ [ys_name ys]) st st'" by simp
    have "mset (map ys_name (all_steps cs) @ [ys_name ys]) \<subseteq># mset (map ys_name (own_steps ys))"
      by (simp add: own_steps_def Some)
    moreover have "(i, Some (ys_name ys), sequence_type) \<in> set (labels (cs_definition st'))"
      by (simp add: st' label_def)
    ultimately show ?thesis using adds_weaken[OF a] by blast
  qed
qed

lemma compile_each_adds:
  "compile_each ft steps st = Inr (ids, st') \<Longrightarrow>
   adds (map ys_name (all_steps steps)) st st' \<and>
   list_all2 (\<lambda>i ys. \<exists>t. (i, Some (ys_name ys), t) \<in> set (labels (cs_definition st'))) ids steps"
proof (induction "size_list size steps" arbitrary: steps st ids st' rule: less_induct)
  case less
  show ?case
  proof (cases steps)
    case Nil
    with less.prems show ?thesis by simp
  next
    case (Cons ys rest)
    from less.prems[unfolded Cons] show ?thesis
    proof (rule compile_each_ConsE)
      fix i ids' st1 st2
      assume first: "(case ys_parallel ys of None \<Rightarrow> compile_regular ft ys st
          | Some cs \<Rightarrow> compile_parallel ft ys cs st) = Inr (i, st1)"
        and rest: "compile_each ft rest st1 = Inr (ids', st2)" and r: "(ids, st') = (i # ids', st2)"
      have "size_list size cs < size_list size steps" if "ys_parallel ys = Some cs" for cs
        using nested_step_size(1)[OF that] by (simp add: Cons)
      with main_step_adds[OF first] less.hyps have f: "adds (map ys_name (own_steps ys)) st st1"
        "\<exists>t. (i, Some (ys_name ys), t) \<in> set (labels (cs_definition st1))" by blast+
      from less.hyps[OF _ rest] Cons have g: "adds (map ys_name (all_steps rest)) st1 st2"
        "list_all2 (\<lambda>i ys. \<exists>t. (i, Some (ys_name ys), t) \<in> set (labels (cs_definition st2))) ids' rest" by auto
      have "extends st1 st2" using compile_each_ids[OF rest] by (simp add: compiled_ids_def)
      with f(2) have "\<exists>t. (i, Some (ys_name ys), t) \<in> set (labels (cs_definition st2))"
        unfolding extends_def by blast
      with g(2) r adds_trans[OF f(1) g(1)] show ?thesis
        by (simp add: Cons all_steps_Cons)
    qed
  qed
qed

section \<open>Where steps and factories come from\<close>

text \<open>
  Every step and every factory was made from a step of the source: \<open>made_from\<close> is what the compiler builds from
  one, and \<open>tag\<close> what a compiled step keeps of it.
\<close>

definition made_from :: "features \<Rightarrow> yaml_step \<Rightarrow> yaml_error + (string \<times> json \<times> step_factory)" where
  "made_from ft ys = build_step_config_and_factory ft ys (unwrap_or (ys_step_type ys) ''shell'')"

definition tag :: "workflow_step \<Rightarrow> string option \<times> string \<times> json option" where
  "tag s = (ws_name s, ws_step_type s, ws_step_config s)"

definition tag_from :: "features \<Rightarrow> yaml_step set \<Rightarrow> string option \<times> string \<times> json option \<Rightarrow> bool" where
  "tag_from ft Y = (\<lambda>(n, t, c). t = sequence_type \<or>
     (\<exists>ys \<in> Y. \<exists>val f. made_from ft ys = Inr (t, val, f) \<and> n = Some (ys_name ys) \<and> c = Some val))"

definition sourced :: "features \<Rightarrow> yaml_step set \<Rightarrow> compile_state \<Rightarrow> bool" where
  "sourced ft Y st \<longleftrightarrow>
     (\<forall>(key, f) \<in> set (cs_factories st). \<exists>ys \<in> Y. \<exists>val. made_from ft ys = Inr (key, val, f)) \<and>
     (\<forall>t \<in> tag ` set (emitted st). tag_from ft Y t)"

lemma sourced_alloc [simp]: "sourced ft Y (st\<lparr>cs_next_id := n\<rparr>) = sourced ft Y st"
  by (simp add: sourced_def)

lemma sourced_push:
  assumes "sourced ft Y st" and "ys \<in> Y" and "made_from ft ys = Inr (key, val, f)" and "tag s = (Some (ys_name ys), key, Some val)"
  shows "sourced ft Y (push_factory key f (push_step s st))"
proof -
  have "tag_from ft Y (tag s)" using assms(2-4) by (auto simp: tag_from_def)
  with assms show ?thesis by (auto simp: sourced_def push_factory_def push_step_def)
qed

lemma sourced_container: "sourced ft Y st \<Longrightarrow> ws_step_type s = sequence_type \<Longrightarrow> sourced ft Y (push_step s st)"
  by (simp add: sourced_def push_step_def tag_from_def tag_def)

lemma map_first_tag: "(\<And>s. tag (f s) = tag s) \<Longrightarrow> map tag (map_first P f xs) = map tag xs"
  by (induction xs) simp_all

lemma wire_tags: "map tag (wd_steps (wire_main_steps ids d)) = map tag (wd_steps d)"
proof (induction ids d rule: wire_main_steps.induct)
  case (1 a b ids d)
  have "map tag (wd_steps (wire_pair a b d)) = map tag (wd_steps d)"
    by (simp add: wire_pair_def update_first_def map_first_tag tag_def add_outcome_def Let_def split: option.splits)
  with 1 show ?case by simp
qed simp_all

lemma sourced_wire [simp]: "sourced ft Y (wire_state ids st) = sourced ft Y st"
  using arg_cong[OF wire_tags[of ids "cs_definition st"], of set] by (simp add: sourced_def wire_state_def)

lemma hook_sourced:
  assumes "compile_hook ft hook st = Inr (i, st')" and "sourced ft Y st" and "hook \<in> Y"
  shows "sourced ft Y st'"
proof -
  obtain key val f where m: "made_from ft hook = Inr (key, val, f)"
    and st': "st' = push_factory key f (push_step ((workflow_step_new (cs_next_id st) key)
      \<lparr>ws_name := Some (ys_name hook), ws_step_config := Some val\<rparr>) (st\<lparr>cs_next_id := Suc (cs_next_id st)\<rparr>))"
    using assms(1) by (auto simp: compile_hook_def made_from_def alloc_id_def split: sum.splits)
  show ?thesis
    unfolding st' by (rule sourced_push[OF _ assms(3) m]) (simp_all add: assms(2) tag_def workflow_step_new_def)
qed

lemma hooks_sourced:
  "compile_on_failure ft ys s st = Inr (s', st') \<Longrightarrow> sourced ft Y st \<Longrightarrow> set_option (ys_on_failure ys) \<subseteq> Y \<Longrightarrow>
     sourced ft Y st' \<and> tag s' = tag s"
  "compile_on_success ft ys s st = Inr (s', st') \<Longrightarrow> sourced ft Y st \<Longrightarrow> set_option (ys_on_success ys) \<subseteq> Y \<Longrightarrow>
     sourced ft Y st' \<and> tag s' = tag s"
  "compile_ensure ft ys s st = Inr (s', st') \<Longrightarrow> sourced ft Y st \<Longrightarrow> set_option (ys_ensure ys) \<subseteq> Y \<Longrightarrow>
     sourced ft Y st' \<and> tag s' = tag s"
  by (auto simp: compile_on_failure_def compile_on_success_def compile_ensure_def wrap_Inr tag_def add_outcome_def
      split: option.splits intro: hook_sourced)

lemma in_own_steps: "ys \<in> set (own_steps ys)"
  by (simp add: own_steps_def)

lemma in_all_steps: "ys \<in> set (all_steps [ys])"
  by (subst all_steps_Cons) (simp add: in_own_steps)

lemma own_steps_hooks:
  "ys \<in> set (own_steps ys)" "set_option (ys_on_failure ys) \<subseteq> set (own_steps ys)"
  "set_option (ys_on_success ys) \<subseteq> set (own_steps ys)" "set_option (ys_ensure ys) \<subseteq> set (own_steps ys)"
  "ys_parallel ys = Some cs \<Longrightarrow> set (all_steps cs) \<subseteq> set (own_steps ys)"
  using in_all_steps by (auto simp: own_steps_def)

lemma compile_regular_sourced:
  assumes "compile_regular ft ys st = Inr (i, st')" and "sourced ft Y st" and "set (own_steps ys) \<subseteq> Y"
  shows "sourced ft Y st'"
  using assms(1)
proof (rule compile_regularE)
  let ?st0 = "st\<lparr>cs_next_id := Suc (cs_next_id st)\<rparr>"
  fix key val f s0 s1 st1 s2 st2 s3 st3
  assume b: "build_step_config_and_factory ft ys (unwrap_or (ys_step_type ys) ''shell'') = Inr (key, val, f)"
    and s0: "label s0 = (cs_next_id st, Some (ys_name ys), key)" "ws_step_config s0 = Some val"
    and h: "compile_on_failure ft ys s0 ?st0 = Inr (s1, st1)" "compile_on_success ft ys s1 st1 = Inr (s2, st2)"
    "compile_ensure ft ys s2 st2 = Inr (s3, st3)"
    and st': "st' = push_factory key f (push_step s3 st3)"
  note hooks = own_steps_hooks(2-4)[of ys, THEN subset_trans[OF _ assms(3)]]
  have 1: "sourced ft Y st1 \<and> tag s1 = tag s0" using hooks_sourced(1)[OF h(1) _ hooks(1)] assms(2) by simp
  have 2: "sourced ft Y st2 \<and> tag s2 = tag s1" using hooks_sourced(2)[OF h(2) _ hooks(2)] 1 by blast
  have 3: "sourced ft Y st3 \<and> tag s3 = tag s2" using hooks_sourced(3)[OF h(3) _ hooks(3)] 2 by blast
  have "tag s3 = (Some (ys_name ys), key, Some val)" using 1 2 3 s0 by (simp add: tag_def label_def)
  then show ?thesis
    unfolding st' using sourced_push[of ft Y st3 ys key val f s3] 3 b own_steps_hooks(1) assms(3) by (auto simp: made_from_def)
qed

lemma compile_each_sourced:
  "compile_each ft steps st = Inr (ids, st') \<Longrightarrow> sourced ft Y st \<Longrightarrow> set (all_steps steps) \<subseteq> Y \<Longrightarrow> sourced ft Y st'"
proof (induction "size_list size steps" arbitrary: steps st ids st' rule: less_induct)
  case less
  show ?case
  proof (cases steps)
    case (Cons ys rest)
    have Y: "set (own_steps ys) \<subseteq> Y" "set (all_steps rest) \<subseteq> Y" using less.prems(3) by (auto simp: Cons all_steps_Cons)
    from less.prems(1)[unfolded Cons] show ?thesis
    proof (rule compile_each_ConsE)
      fix i ids' st1 st2
      assume first: "(case ys_parallel ys of None \<Rightarrow> compile_regular ft ys st
          | Some cs \<Rightarrow> compile_parallel ft ys cs st) = Inr (i, st1)"
        and rest: "compile_each ft rest st1 = Inr (ids', st2)" and r: "(ids, st') = (i # ids', st2)"
      have "sourced ft Y st1"
      proof (cases "ys_parallel ys")
        case None
        with first compile_regular_sourced[OF _ less.prems(2) Y(1)] show ?thesis by simp
      next
        case (Some cs)
        with first have "compile_parallel ft ys cs st = Inr (i, st1)" by simp
        then show ?thesis
        proof (rule compile_parallelE)
          fix eb ids cond st0
          assume each: "compile_each ft cs (st\<lparr>cs_next_id := Suc (cs_next_id st)\<rparr>) = Inr (ids, st0)"
            and st1: "st1 = push_step (container_step i ys eb ids cond) (wire_state ids st0)"
          have "size_list size cs < size_list size steps" using nested_step_size(1)[OF Some] by (simp add: Cons)
          from less.hyps[OF this each] less.prems(2) own_steps_hooks(5)[OF Some] Y(1)
          have "sourced ft Y (wire_state ids st0)" by simp
          then show ?thesis unfolding st1 by (rule sourced_container) simp
        qed
      qed
      from less.hyps[OF _ rest this Y(2)] r show ?thesis by (simp add: Cons)
    qed
  qed (use less.prems in simp)
qed

section \<open>Compiled workflows\<close>

lemma compileE:
  assumes "compile ft spec = Inr c"
  obtains d ids st where "wd_steps d = []" "wd_id d = spec_id spec"
    "compile_each ft (spec_steps spec) \<lparr>cs_definition = d, cs_factories = [], cs_next_id = 0\<rparr> = Inr (ids, st)"
    "wd_steps (cw_definition c) = wd_steps (cs_definition (wire_state ids st))"
    "cw_step_factories c = cs_factories (wire_state ids st)"
    "wd_id (cw_definition c) = wd_id (cs_definition (wire_state ids st))"
proof -
  let ?d = "(workflow_definition_new (spec_id spec) (spec_version spec))
    \<lparr>wd_name := spec_name spec, wd_description := spec_description spec,
     wd_shared_volume := map_option (\<lambda>v. \<lparr>sv_mount_path = yl_mount_path v, sv_size = yl_size v\<rparr>) (spec_shared_volume spec)\<rparr>"
  from assms obtain d where d: "(case spec_error_behavior spec of None \<Rightarrow> Inr ?d
      | Some eb \<Rightarrow> wrap (\<lambda>b. ?d\<lparr>wd_default_error_behavior := b\<rparr>) (map_error_behavior eb)) = Inr d"
    by (auto simp: compile_def Let_def split: sum.splits)
  then have steps: "wd_steps d = []" "wd_id d = spec_id spec"
    by (auto simp: workflow_definition_new_def wrap_Inr split: option.splits)
  from assms d obtain ids st where each:
    "compile_each ft (spec_steps spec) \<lparr>cs_definition = d, cs_factories = [], cs_next_id = 0\<rparr> = Inr (ids, st)"
    by (auto simp: compile_def Let_def compile_steps_def split: sum.splits)
  with assms d that[OF steps(1,2) each] show ?thesis by (auto simp: compile_def Let_def compile_steps_def)
qed

lemma compile_each_start:
  assumes "compile_each ft steps \<lparr>cs_definition = d, cs_factories = [], cs_next_id = 0\<rparr> = Inr (ids, st)"
    and "wd_steps d = []"
  shows "compile_inv {} (wire_state ids st) \<and> (ids \<noteq> [] \<longrightarrow> hd ids = 0) \<and>
    adds (map ys_name (all_steps steps)) \<lparr>cs_definition = d, cs_factories = [], cs_next_id = 0\<rparr> (wire_state ids st)"
proof -
  let ?st0 = "\<lparr>cs_definition = d, cs_factories = [], cs_next_id = 0\<rparr>"
  have "compile_steps ft steps ?st0 = Inr (ids, wire_state ids st)" using assms(1) by (simp add: compile_steps_def)
  from compile_steps_ids[OF this] have "extends ?st0 (wire_state ids st)" "ids \<noteq> [] \<longrightarrow> hd ids = 0"
    by (auto simp: compiled_ids_def)
  moreover have "compile_inv {} ?st0" using assms(2) by (simp add: compile_inv_def)
  moreover have "adds (map ys_name (all_steps steps)) ?st0 (wire_state ids st)"
    using adds_trans[OF _ adds_wire] compile_each_adds[OF assms(1)] by fastforce
  ultimately show ?thesis by (simp add: extends_def)
qed

lemma compile_wellformed:
  assumes "compile ft spec = Inr c"
  shows "definition_ok (cw_definition c) \<and>
    ws_id ` set (wd_steps (cw_definition c)) = {..<length (wd_steps (cw_definition c))} \<and>
    (spec_steps spec \<noteq> [] \<longrightarrow> step_name_of (cw_definition c) 0 = Some (ys_name (hd (spec_steps spec))))"
  using assms
proof (rule compileE)
  fix d ids st
  assume d: "wd_steps d = []"
    and each: "compile_each ft (spec_steps spec) \<lparr>cs_definition = d, cs_factories = [], cs_next_id = 0\<rparr> = Inr (ids, st)"
    and c: "wd_steps (cw_definition c) = wd_steps (cs_definition (wire_state ids st))"
  from compile_each_start[OF each d] have inv: "compile_inv {} (wire_state ids st)" and hd: "ids \<noteq> [] \<longrightarrow> hd ids = 0" by auto
  let ?steps = "wd_steps (cw_definition c)"
  from inv have ids: "ws_id ` set ?steps = {..<cs_next_id st}" and dist: "distinct (map ws_id ?steps)"
    and refs: "\<forall>s \<in> set ?steps. step_refs s \<subseteq> {..<cs_next_id st}"
    by (auto simp: compile_inv_def c)
  have "card (ws_id ` set ?steps) = length ?steps" using distinct_card[OF dist] by simp
  then have len: "cs_next_id st = length ?steps" using ids by simp
  have ok: "definition_ok (cw_definition c)" using ids dist refs by (simp add: definition_ok_def)
  have "step_name_of (cw_definition c) 0 = Some (ys_name (hd (spec_steps spec)))" if ne: "spec_steps spec \<noteq> []"
  proof -
    from compile_each_adds[OF each] ne hd obtain t where
      t: "(0, Some (ys_name (hd (spec_steps spec))), t) \<in> set (labels (cs_definition st))"
      by (cases "spec_steps spec"; cases ids) auto
    have "labels (cs_definition (wire_state ids st)) = labels (cs_definition st)"
      using rewired_wire[of ids "cs_definition st"] by (simp add: rewired_def wire_state_def)
    with t have "(0, Some (ys_name (hd (spec_steps spec))), t) \<in> set (map label ?steps)" by (simp only: c)
    then obtain s where "s \<in> set ?steps" "ws_id s = 0" "ws_name s = Some (ys_name (hd (spec_steps spec)))"
      by (auto simp: label_def)
    with find_step_unique[OF dist, of s] show ?thesis by (simp add: step_name_of_def)
  qed
  with ok ids len show ?thesis by simp
qed

text \<open>
  C14: the compiler only produces well-formed definitions. Its step ids are exactly the numbers
  below the number of steps, each used once; every successor, child and compensation step that a
  step refers to exists; and step 0, where an instance starts, is the first step of the file.
\<close>

theorem compile_definition_ok:
  assumes "compile ft spec = Inr c"
  shows "definition_ok (cw_definition c) \<and>
    ws_id ` set (wd_steps (cw_definition c)) = {..<length (wd_steps (cw_definition c))} \<and>
    (spec_steps spec \<noteq> [] \<longrightarrow> step_name_of (cw_definition c) 0 = Some (ys_name (hd (spec_steps spec))))"
  using assms by (rule compile_wellformed)

lemma compile_id: "compile ft spec = Inr c \<Longrightarrow> wd_id (cw_definition c) = spec_id spec"
proof (erule compileE)
  fix d ids st
  assume d: "wd_id d = spec_id spec" and c: "wd_id (cw_definition c) = wd_id (cs_definition (wire_state ids st))"
    and each: "compile_each ft (spec_steps spec) \<lparr>cs_definition = d, cs_factories = [], cs_next_id = 0\<rparr> = Inr (ids, st)"
  have "extends \<lparr>cs_definition = d, cs_factories = [], cs_next_id = 0\<rparr> (wire_state ids st)"
    using compile_steps_ids[of ft "spec_steps spec"] each by (fastforce simp: compiled_ids_def compile_steps_def)
  with c d show ?thesis by (simp add: extends_def)
qed

lemma step_key_inj:
  assumes "step_key k n = step_key k' n'" and "CHR '':'' \<notin> set k" and "CHR '':'' \<notin> set k'"
  shows "n = n'"
proof -
  have tw: "takeWhile (\<lambda>x. x \<noteq> CHR '':'') (k @ CHR '':'' # r) = k" if "CHR '':'' \<notin> set k" for k r
    using that by (induction k) auto
  from assms(1) have "k @ CHR '':'' # CHR '':'' # n = k' @ CHR '':'' # CHR '':'' # n'" by (simp add: step_key_def)
  from arg_cong[OF this, of "takeWhile (\<lambda>x. x \<noteq> CHR '':'')"] have "k = k'" using tw assms(2,3) by simp
  with assms(1) show ?thesis by (simp add: step_key_def)
qed

lemma distinct_sub_mset:
  assumes "mset xs \<subseteq># mset ys" and "distinct ys"
  shows "distinct xs"
proof -
  from assms(1) obtain zs where "mset ys = mset (xs @ zs)"
    by (metis ex_mset mset_append mset_subset_eq_exists_conv)
  with assms(2) show ?thesis by (metis distinct_append mset_eq_imp_distinct_iff)
qed

lemma keyed_types_distinct:
  assumes "list_all keyed steps" and "distinct (map ws_name steps)"
  shows "distinct (filter (\<lambda>t. t \<noteq> sequence_type) (map ws_step_type steps))"
  using assms
proof (induction steps)
  case (Cons s steps)
  have "ws_step_type s \<noteq> ws_step_type r" if r: "r \<in> set steps" "ws_step_type s \<noteq> sequence_type" for r
  proof
    assume eq: "ws_step_type s = ws_step_type r"
    from Cons.prems r(1) have "keyed s" "keyed r" by (auto simp: list_all_iff)
    from \<open>keyed s\<close> r(2) obtain k n where s: "ws_name s = Some n" "ws_step_type s = step_key k n" "CHR '':'' \<notin> set k"
      by (auto simp: keyed_def)
    from \<open>keyed r\<close> r(2) eq obtain k' n' where r': "ws_name r = Some n'" "ws_step_type r = step_key k' n'" "CHR '':'' \<notin> set k'"
      by (auto simp: keyed_def)
    have "n = n'" by (rule step_key_inj[OF _ s(3) r'(3)]) (use s(2) r'(2) eq in simp)
    then have "ws_name s = ws_name r" using s(1) r'(1) by simp
    with Cons.prems r(1) show False by (metis distinct.simps(2) image_eqI list.simps(9) list.set_map)
  qed
  with Cons show ?case by auto
qed simp

text \<open>Two steps of the source that lead to the same key are the same.\<close>

lemma made_from_key_inj:
  assumes "made_from ft x = Inr (key, v, f)" and "made_from ft y = Inr (key, v', f')"
    and "distinct (map ys_name l)" and "x \<in> set l" and "y \<in> set l"
  shows "x = y"
proof -
  from built_key[OF assms(1)[unfolded made_from_def]] obtain k where "key = step_key k (ys_name x)" "CHR '':'' \<notin> set k" .
  moreover from built_key[OF assms(2)[unfolded made_from_def]] obtain k' where "key = step_key k' (ys_name y)" "CHR '':'' \<notin> set k'" .
  ultimately have "ys_name x = ys_name y" using step_key_inj by metis
  with assms(3-5) show ?thesis by (simp add: distinct_map inj_on_def)
qed

lemma factory_of_step:
  assumes src: "(\<forall>(key, f) \<in> set fs. \<exists>ys \<in> set l. \<exists>val. made_from ft ys = Inr (key, val, f)) \<and>
      (\<forall>t \<in> tag ` set steps. tag_from ft (set l) t)"
    and "distinct (map ys_name l)" and "distinct (map fst fs)" and "s \<in> set steps" and "ws_step_type s \<noteq> sequence_type"
    and "ws_step_type s \<in> fst ` set fs"
  shows "\<exists>ys \<in> set l. \<exists>val f. build_step_config_and_factory ft ys (unwrap_or (ys_step_type ys) ''shell'') = Inr (ws_step_type s, val, f) \<and>
    ws_name s = Some (ys_name ys) \<and> ws_step_config s = Some val \<and> map_of fs (ws_step_type s) = Some f"
proof -
  from src assms(4,5) obtain ys val f where ys: "ys \<in> set l" "made_from ft ys = Inr (ws_step_type s, val, f)"
    "ws_name s = Some (ys_name ys)" "ws_step_config s = Some val"
    by (fastforce simp: tag_from_def tag_def)
  from assms(6) obtain g where g: "(ws_step_type s, g) \<in> set fs" by auto
  with src obtain zs v where "zs \<in> set l" "made_from ft zs = Inr (ws_step_type s, v, g)" by blast
  with made_from_key_inj[OF ys(2) this(2) assms(2) ys(1)] ys(2) have "g = f" by simp
  with ys map_of_is_SomeI[OF assms(3) g] show ?thesis by (auto simp: made_from_def)
qed

text \<open>
  C15: each compiled step gets the body of its own configuration. Of a workflow that was validated and compiled, the
  step names and the keys of the registered factories are distinct, the keys are exactly the types of the
  steps that are not parallel containers, and for each such step there is a step of the source (a main step, a
  nested step or a hook) of the same name such that the step carries the configuration built from it and the
  factory under its type is the one built from it. This is about one compiled workflow:
  the keys contain the step name and not the workflow, and what happens when several workflows register in one host is
  not part of it.
\<close>

theorem compile_factories:
  assumes "validate spec = Inr ()" and "compile ft spec = Inr c"
  shows "distinct (map ws_name (wd_steps (cw_definition c))) \<and> distinct (map fst (cw_step_factories c)) \<and>
    fst ` set (cw_step_factories c) =
      {ws_step_type s | s. s \<in> set (wd_steps (cw_definition c)) \<and> ws_step_type s \<noteq> sequence_type} \<and>
    (\<forall>s \<in> set (wd_steps (cw_definition c)). ws_step_type s \<noteq> sequence_type \<longrightarrow>
       (\<exists>ys \<in> set (all_steps (spec_steps spec)). \<exists>val f.
          build_step_config_and_factory ft ys (unwrap_or (ys_step_type ys) ''shell'') = Inr (ws_step_type s, val, f) \<and>
          ws_name s = Some (ys_name ys) \<and> ws_step_config s = Some val \<and>
          map_of (cw_step_factories c) (ws_step_type s) = Some f))"
  using assms(2)
proof (rule compileE)
  fix d ids st
  assume d: "wd_steps d = []"
    and each: "compile_each ft (spec_steps spec) \<lparr>cs_definition = d, cs_factories = [], cs_next_id = 0\<rparr> = Inr (ids, st)"
    and c: "wd_steps (cw_definition c) = wd_steps (cs_definition (wire_state ids st))"
      "cw_step_factories c = cs_factories (wire_state ids st)"
  let ?steps = "wd_steps (cw_definition c)" and ?Y = "set (all_steps (spec_steps spec))"
  from compile_each_start[OF each d] d have names: "mset (map ws_name ?steps) \<subseteq># mset (map (Some \<circ> ys_name) (all_steps (spec_steps spec)))"
    and inv: "list_all keyed ?steps"
      "mset (map fst (cw_step_factories c)) = mset (filter (\<lambda>t. t \<noteq> sequence_type) (map ws_step_type ?steps))"
    by (auto simp: adds_def factory_inv_def c comp_def)
  from assms(1) have src: "distinct (map ys_name (all_steps (spec_steps spec)))" by (simp add: validate_iff Let_def)
  then have "distinct (map (Some \<circ> ys_name) (all_steps (spec_steps spec)))" by (simp add: distinct_map inj_on_def)
  from distinct_sub_mset[OF names this] have dist: "distinct (map ws_name ?steps)" .
  from keyed_types_distinct[OF inv(1) this] inv(2) have keys: "distinct (map fst (cw_step_factories c))"
    by (metis mset_eq_imp_distinct_iff)
  from arg_cong[OF inv(2), of set_mset] have types: "fst ` set (cw_step_factories c) =
      {ws_step_type s | s. s \<in> set ?steps \<and> ws_step_type s \<noteq> sequence_type}" by auto
  have "sourced ft ?Y \<lparr>cs_definition = d, cs_factories = [], cs_next_id = 0\<rparr>" by (simp add: sourced_def d)
  from compile_each_sourced[OF each this subset_refl] have "sourced ft ?Y (wire_state ids st)" by simp
  from factory_of_step[OF this[unfolded sourced_def, folded c] src keys] types dist keys show ?thesis by blast
qed

section \<open>An example\<close>

definition default_features :: features where
  "default_features = \<lparr>ft_deno = False, ft_buildkit = False, ft_containerd = False, ft_kubernetes = False, ft_rustlang = False\<rparr>"

definition shell_step :: "string \<Rightarrow> yaml_step" where
  "shell_step name = plain_step name ''shell'' (empty_config\<lparr>sc_run := Some ''true''\<rparr>)"

definition parallel_step :: "string \<Rightarrow> yaml_step list \<Rightarrow> yaml_step" where
  "parallel_step name children = YamlStep name None None [] [] (Some children) None None None None None"

definition sample_yaml :: workflow_spec where
  "sample_yaml = plain_spec ''w'' [shell_step ''a'', parallel_step ''p'' [shell_step ''b'', shell_step ''c'']]"

lemmas compile_eval = compile_def plain_spec_def compile_steps_def compile_each_Cons compile_parallel_def compile_regular_def
  alloc_id_def build_step_config_and_factory_def registered_def build_shell_config_def need_config_def need_def
  try_option_def compile_on_failure_def compile_on_success_def compile_ensure_def wire_state_def wire_pair_def
  find_step_def update_first_def add_outcome_def outcome_to_def push_step_def push_factory_def workflow_step_new_def
  workflow_definition_new_def compile_services_def default_features_def shell_step_def parallel_step_def option_or_def
  empty_config_def

lemma sample_yaml_compiles:
  "\<exists>c. compile default_features sample_yaml = Inr c \<and>
     map ws_id (wd_steps (cw_definition c)) = [0, 2, 3, 1] \<and>
     map (\<lambda>s. map so_next_step (ws_outcomes s)) (wd_steps (cw_definition c)) = [[1], [3], [], []] \<and>
     map ws_children (wd_steps (cw_definition c)) = [[], [], [], [2, 3]]"
  by (simp add: sample_yaml_def compile_eval)

lemma sample_yaml_valid: "validate sample_yaml = Inr ()"
  by (simp add: sample_yaml_def plain_spec_def validate_iff all_steps_Cons own_steps_def shell_step_def parallel_step_def
      check_step_def check_shell_def with_config_def check_condition_def empty_config_def Let_def)

theorem compile_definition_ok_witness:
  "\<exists>c. compile default_features sample_yaml = Inr c \<and> definition_ok (cw_definition c) \<and>
     step_name_of (cw_definition c) 0 = Some ''a''"
proof -
  obtain c where c: "compile default_features sample_yaml = Inr c" using sample_yaml_compiles by blast
  from compile_definition_ok[OF c] c show ?thesis
    by (simp add: sample_yaml_def plain_spec_def shell_step_def)
qed

theorem compile_factories_witness:
  "\<exists>c. compile default_features sample_yaml = Inr c \<and> distinct (map fst (cw_step_factories c))"
  using sample_yaml_compiles compile_factories[OF sample_yaml_valid] by blast

text \<open>
  The children of a parallel step are compiled with the sequential wiring of a list of steps. The
  container starts all of them, and a child that completes starts its neighbour once more.
\<close>

lemma parallel_children_are_chained:
  "\<exists>c b container. compile default_features sample_yaml = Inr c \<and>
     find_step (cw_definition c) 1 = Some container \<and> ws_children container = [2, 3] \<and>
     find_step (cw_definition c) 2 = Some b \<and> ws_name b = Some ''b'' \<and> find_next_step b None = Some 3"
  by (simp add: sample_yaml_def compile_eval find_next_step_def)

text \<open>The \<open>ensure\<close> step of a step that also has \<open>on_success\<close> is emitted, but nothing refers to it.\<close>

definition ensured_step :: yaml_step where
  "ensured_step = YamlStep ''a'' (Some ''shell'') (Some (empty_config\<lparr>sc_run := Some ''true''\<rparr>)) [] [] None None
     (Some (shell_step ''ok'')) (Some (shell_step ''undo'')) (Some (shell_step ''cleanup'')) None"

lemma ensure_is_unreachable:
  "\<exists>c. compile default_features (plain_spec ''w'' [ensured_step, shell_step ''b'']) = Inr c \<and>
     step_name_of (cw_definition c) 3 = Some ''cleanup'' \<and>
     list_all (\<lambda>s. 3 \<notin> step_refs s) (wd_steps (cw_definition c))"
  by (simp add: compile_eval ensured_step_def step_name_of_def step_refs_def wrap_def compile_hook_def)

end
