(* ===== verification/Yaml_References.thy ===== *)
theory Yaml_References
  imports Yaml_Validation
begin

text \<open>
  References between the workflows of a file (\<open>validate_multi\<close>, \<open>validate_workflow_references\<close> and
  \<open>detect_cycles\<close> of \<open>wfe-yaml/src/validation.rs\<close>): a depth-first search with three colours over
  hash maps. The iteration order of a hash set is unspecified; it is a parameter \<open>order\<close> that lists
  a set, and the locale \<open>hash_order\<close> is what the standard library promises of it. The recursion
  of the search is given fuel; \<open>length\<close> of the node list is enough, because every nested call turns
  one white node gray. The results also name the panic that the \<open>unwrap\<close> in the search could
  raise, and the lemmas show that neither that nor running out of fuel happens.
\<close>

section \<open>The search\<close>

datatype color = White | Gray | Black

type_synonym colors = "string \<rightharpoonup> color"

datatype visit_result = Visited colors | Circular "string list" | Panicked | OutOfFuel

definition neighbors :: "(string \<rightharpoonup> string list) \<Rightarrow> string \<Rightarrow> string list" where
  "neighbors deps node = unwrap_or (deps node) []"

fun dfs :: "nat \<Rightarrow> (string \<rightharpoonup> string list) \<Rightarrow> string \<Rightarrow> colors \<Rightarrow> string list \<Rightarrow> visit_result"
and visit_neighbors ::
  "nat \<Rightarrow> (string \<rightharpoonup> string list) \<Rightarrow> string list \<Rightarrow> colors \<Rightarrow> string list \<Rightarrow> visit_result" where
  "dfs 0 deps node colors path = OutOfFuel"
| "dfs (Suc fuel) deps node colors path =
     (case visit_neighbors fuel deps (neighbors deps node) (colors(node \<mapsto> Gray)) (path @ [node]) of
        Visited colors \<Rightarrow> Visited (colors(node \<mapsto> Black))
      | r \<Rightarrow> r)"
| "visit_neighbors fuel deps [] colors path = Visited colors"
| "visit_neighbors fuel deps (n # ns) colors path =
     (case colors n of
        Some Gray \<Rightarrow>
          (case dropWhile (\<lambda>m. m \<noteq> n) path of
             [] \<Rightarrow> Panicked
           | cycle \<Rightarrow> Circular (cycle @ [n]))
      | Some White \<Rightarrow>
          (case dfs fuel deps n colors path of
             Visited colors \<Rightarrow> visit_neighbors fuel deps ns colors path
           | r \<Rightarrow> r)
      | Some Black \<Rightarrow> visit_neighbors fuel deps ns colors path
      | None \<Rightarrow> visit_neighbors fuel deps ns colors path)"

fun dfs_all :: "nat \<Rightarrow> (string \<rightharpoonup> string list) \<Rightarrow> string list \<Rightarrow> colors \<Rightarrow> visit_result" where
  "dfs_all fuel deps [] colors = Visited colors"
| "dfs_all fuel deps (n # ns) colors =
     (if colors n = Some White
      then (case dfs fuel deps n colors [] of
              Visited colors \<Rightarrow> dfs_all fuel deps ns colors
            | r \<Rightarrow> r)
      else dfs_all fuel deps ns colors)"

definition arrows :: "string list \<Rightarrow> string" where
  "arrows ns = concat (case ns of [] \<Rightarrow> [] | n # ns \<Rightarrow> n # map ((@) '' -> '') ns)"

definition detect_cycles :: "string list \<Rightarrow> (string \<rightharpoonup> string list) \<Rightarrow> (yaml_error + unit) option" where
  "detect_cycles nodes deps =
     (case dfs_all (length nodes) deps nodes (\<lambda>n. if n \<in> set nodes then Some White else None) of
        Visited _ \<Rightarrow> Some (Inr ())
      | Circular cycle \<Rightarrow> Some (validation (''Circular workflow reference detected: '' @ arrows cycle))
      | _ \<Rightarrow> None)"

section \<open>Multiple workflows\<close>

definition validate_workflow_references ::
  "(string set \<Rightarrow> string list) \<Rightarrow> workflow_spec list \<Rightarrow> (yaml_error + unit) option" where
  "validate_workflow_references order specs =
     (let known_ids = set (map spec_id specs);
          deps = fold (\<lambda>spec deps. deps(spec_id spec \<mapsto> collect_workflow_refs (spec_steps spec))) specs Map.empty
      in detect_cycles (order known_ids) (\<lambda>n. map_option order (deps n)))"

fun check_ids :: "workflow_spec list \<Rightarrow> string set \<Rightarrow> yaml_error + unit" where
  "check_ids [] seen = Inr ()"
| "check_ids (spec # specs) seen =
     (if spec_id spec \<in> seen then validation (''Duplicate workflow ID: '' @ quoted (spec_id spec))
      else check_ids specs (insert (spec_id spec) seen))"

definition validate_multi ::
  "(string set \<Rightarrow> string list) \<Rightarrow> workflow_spec list \<Rightarrow> (yaml_error + unit) option" where
  "validate_multi order specs =
     (case try_each validate specs of Inl e \<Rightarrow> Some (Inl e) | Inr _ \<Rightarrow>
      (case check_ids specs {} of Inl e \<Rightarrow> Some (Inl e) | Inr _ \<Rightarrow>
       validate_workflow_references order specs))"

section \<open>Correctness of the search\<close>

definition edges :: "(string \<rightharpoonup> string list) \<Rightarrow> (string \<times> string) set" where
  "edges deps = {(a, b). b \<in> set (neighbors deps a)}"

definition colored :: "color \<Rightarrow> colors \<Rightarrow> string set" where
  "colored c colors = {n. colors n = Some c}"

text \<open>
  The gray nodes are the nodes of the current path, the path follows edges, the known neighbours
  of a black node are black, and the graph on the black nodes has no cycle.
\<close>

definition search_ok :: "(string \<rightharpoonup> string list) \<Rightarrow> string set \<Rightarrow> string list \<Rightarrow> colors \<Rightarrow> bool" where
  "search_ok deps K path colors \<longleftrightarrow>
     finite K \<and> dom colors = K \<and> colored Gray colors = set path \<and>
     successively (\<lambda>a b. (a, b) \<in> edges deps) path \<and>
     edges deps `` colored Black colors \<inter> K \<subseteq> colored Black colors \<and>
     acyclic (edges deps \<inter> colored Black colors \<times> colored Black colors)"

definition progress :: "colors \<Rightarrow> colors \<Rightarrow> bool" where
  "progress colors colors' \<longleftrightarrow>
     colored White colors' \<subseteq> colored White colors \<and> colored Black colors \<subseteq> colored Black colors'"

lemma progress_refl [simp]: "progress c c"
  by (simp add: progress_def)

lemma progress_trans: "progress a b \<Longrightarrow> progress b c \<Longrightarrow> progress a c"
  by (auto simp: progress_def)

lemma colored_upd:
  "colored c (colors(n \<mapsto> d)) = (if c = d then insert n (colored c colors) else colored c colors - {n})"
  by (auto simp: colored_def)

lemma finite_colored: "search_ok deps K path colors \<Longrightarrow> finite (colored c colors)"
  by (rule finite_subset[of _ K]) (auto simp: search_ok_def colored_def)

lemma search_ok_gray: "search_ok deps K path colors \<Longrightarrow> n \<in> set path \<longleftrightarrow> colors n = Some Gray"
  by (metis (mono_tags) colored_def mem_Collect_eq search_ok_def)

text \<open>A gray neighbour closes a cycle along the path.\<close>

lemma path_trancl:
  "successively (\<lambda>a b. (a, b) \<in> E) (x # xs) \<Longrightarrow> y \<in> set xs \<Longrightarrow> set (x # xs) \<subseteq> S \<Longrightarrow>
   (x, y) \<in> (E \<inter> S \<times> S)\<^sup>+"
proof (induction xs arbitrary: x)
  case (Cons z zs)
  then have step: "(x, z) \<in> E \<inter> S \<times> S" by auto
  show ?case
  proof (cases "y = z")
    case False
    with Cons have "(z, y) \<in> (E \<inter> S \<times> S)\<^sup>+" by auto
    from trancl_into_trancl2[OF step this] show ?thesis .
  qed (use step in auto)
qed simp

lemma gray_neighbor_cycle:
  assumes ok: "search_ok deps K path colors" and "path \<noteq> []"
    and n: "n \<in> set (neighbors deps (last path))" "colors n = Some Gray"
  shows "dropWhile (\<lambda>m. m \<noteq> n) path \<noteq> [] \<and> \<not> acyclic (edges deps \<inter> K \<times> K)"
proof -
  from ok have gray: "colored Gray colors = set path" "dom colors = K"
    and succ: "successively (\<lambda>a b. (a, b) \<in> edges deps) path" by (auto simp: search_ok_def)
  with n(2) have "n \<in> set path" by (auto simp: colored_def)
  then obtain xs ys where path: "path = xs @ n # ys" by (auto simp: in_set_conv_decomp)
  have K: "set path \<subseteq> K" using gray by (auto simp: colored_def)
  have last: "last path = last (n # ys)" by (simp add: path)
  have closing: "(last path, n) \<in> edges deps \<inter> K \<times> K"
    using n K assms(2) by (auto simp: edges_def path)
  have "(n, n) \<in> (edges deps \<inter> K \<times> K)\<^sup>+"
  proof (cases "ys = []")
    case True
    with closing last show ?thesis by auto
  next
    case False
    have "(n, last ys) \<in> (edges deps \<inter> K \<times> K)\<^sup>+"
      by (rule path_trancl[where x = n and xs = ys]) (use succ K False in \<open>auto simp: path successively_append_iff\<close>)
    with closing last False show ?thesis by (auto intro: trancl_into_trancl)
  qed
  moreover have "dropWhile (\<lambda>m. m \<noteq> n) path \<noteq> []" using \<open>n \<in> set path\<close> by (auto simp: dropWhile_eq_Nil_conv)
  ultimately show ?thesis by (auto simp: acyclic_def)
qed

text \<open>Turning a white node gray and putting it at the end of the path; turning it black.\<close>

lemma search_ok_enter:
  assumes "search_ok deps K path colors" and "colors node = Some White"
    and "path = [] \<or> node \<in> set (neighbors deps (last path))"
  shows "search_ok deps K (path @ [node]) (colors(node \<mapsto> Gray)) \<and>
    card (colored White (colors(node \<mapsto> Gray))) < card (colored White colors)"
proof -
  have "colored Black (colors(node \<mapsto> Gray)) = colored Black colors"
    using assms(2) by (auto simp: colored_def)
  moreover have "node \<in> colored White colors" using assms(2) by (simp add: colored_def)
  then have "card (colored White colors - {node}) < card (colored White colors)"
    using finite_colored[OF assms(1)] by (meson card_Diff1_less)
  ultimately show ?thesis
    using assms by (auto simp: search_ok_def colored_upd successively_append_iff edges_def)
qed

lemma search_ok_leave:
  assumes ok: "search_ok deps K (path @ [node]) colors" and fresh: "node \<notin> set path"
    and nbrs: "\<forall>n \<in> set (neighbors deps node). n \<in> K \<longrightarrow> colors n = Some Black"
  shows "search_ok deps K path (colors(node \<mapsto> Black))"
proof -
  let ?B = "colored Black colors" and ?E = "edges deps"
  from ok have gray: "colors node = Some Gray" by (auto simp: search_ok_def colored_def)
  then have notin: "node \<notin> ?B" by (simp add: colored_def)
  from ok gray have K: "node \<in> K" "?B \<subseteq> K" by (auto simp: search_ok_def colored_def)
  have into: "(a, node) \<notin> ?E" if "a \<in> insert node ?B" for a
    using that ok nbrs notin K(1) gray by (auto simp: search_ok_def edges_def Image_def)
  have "acyclic (?E \<inter> insert node ?B \<times> insert node ?B)"
  proof -
    let ?E1 = "?E \<inter> insert node ?B \<times> insert node ?B"
    have sub: "?E1 \<subseteq> ?E \<inter> ?B \<times> ?B \<union> {node} \<times> ?B" using into by auto
    have step: "(a, b) \<in> (?E \<inter> ?B \<times> ?B)\<^sup>+ \<or> a = node \<and> b \<in> ?B" if "(a, b) \<in> ?E1\<^sup>+" for a b
      using that
    proof induction
      case (step b c)
      with sub have "b \<in> ?B" "(b, c) \<in> ?E \<inter> ?B \<times> ?B" using notin by (auto dest: tranclD2)
      with step.IH show ?case by (auto intro: trancl_into_trancl)
    qed (use sub in auto)
    from ok step notin show ?thesis unfolding search_ok_def acyclic_def by blast
  qed
  moreover have "?E `` insert node ?B \<inter> K \<subseteq> insert node ?B"
    using ok nbrs by (auto simp: search_ok_def edges_def colored_def)
  ultimately show ?thesis
    using ok K fresh by (auto simp: search_ok_def colored_upd successively_append_iff)
qed

text \<open>The specification of a result: what is visited is done, and a cycle is a cycle.\<close>

definition result_ok ::
  "(string \<rightharpoonup> string list) \<Rightarrow> string set \<Rightarrow> string list \<Rightarrow> colors \<Rightarrow> string set \<Rightarrow> visit_result \<Rightarrow> bool" where
  "result_ok deps K path colors done r =
     (case r of
        Visited colors' \<Rightarrow> search_ok deps K path colors' \<and> progress colors colors' \<and> done \<inter> K \<subseteq> colored Black colors'
      | Circular _ \<Rightarrow> \<not> acyclic (edges deps \<inter> K \<times> K)
      | _ \<Rightarrow> False)"

lemma result_ok_Cons:
  assumes "colors' n = Some Black \<or> n \<notin> K" and "progress colors colors'"
    and "result_ok deps K path colors' (set ns) r"
  shows "result_ok deps K path colors (set (n # ns)) r"
proof (cases r)
  case (Visited c)
  with assms(1,3) have "{n} \<inter> K \<subseteq> colored Black c" by (auto simp: result_ok_def progress_def colored_def)
  with Visited assms(3) progress_trans[OF assms(2)] show ?thesis by (auto simp: result_ok_def)
qed (use assms(3) in \<open>auto simp: result_ok_def\<close>)

lemma dfs_correct:
  "search_ok deps K path colors \<Longrightarrow> colors node = Some White \<Longrightarrow>
     path = [] \<or> node \<in> set (neighbors deps (last path)) \<Longrightarrow> card (colored White colors) \<le> fuel \<Longrightarrow>
     result_ok deps K path colors {node} (dfs fuel deps node colors path)"
  "search_ok deps K path colors \<Longrightarrow> path \<noteq> [] \<Longrightarrow> set ns \<subseteq> set (neighbors deps (last path)) \<Longrightarrow>
     card (colored White colors) \<le> fuel \<Longrightarrow>
     result_ok deps K path colors (set ns) (visit_neighbors fuel deps ns colors path)"
proof (induction fuel deps node colors path and fuel deps ns colors path rule: dfs_visit_neighbors.induct)
  case (1 deps node colors path)
  then have "colored White colors = {}" using finite_colored[OF 1(1)] by simp
  with 1(2) show ?case by (auto simp: colored_def)
next
  case (2 fuel deps node colors path)
  let ?gray = "colors(node \<mapsto> Gray)"
  from search_ok_enter[OF 2(2-4)] 2(5) have
    "search_ok deps K (path @ [node]) ?gray" "card (colored White ?gray) \<le> fuel" by auto
  from 2(1)[OF this(1) _ _ this(2)] have r:
    "result_ok deps K (path @ [node]) ?gray (set (neighbors deps node))
       (visit_neighbors fuel deps (neighbors deps node) ?gray (path @ [node]))" by (simp add: fun_upd_def)
  have fresh: "node \<notin> set path" using search_ok_gray[OF 2(2)] 2(3) by simp
  show ?case
  proof (cases "visit_neighbors fuel deps (neighbors deps node) ?gray (path @ [node])")
    case (Visited colors')
    with r have ok: "search_ok deps K (path @ [node]) colors'" and p: "progress ?gray colors'"
      and b: "set (neighbors deps node) \<inter> K \<subseteq> colored Black colors'" by (auto simp: result_ok_def)
    from search_ok_leave[OF ok fresh] b have "search_ok deps K path (colors'(node \<mapsto> Black))"
      by (auto simp: colored_def)
    moreover have "progress colors (colors'(node \<mapsto> Black))"
      using p 2(3) by (auto simp: progress_def colored_upd)
    ultimately show ?thesis using Visited by (auto simp: result_ok_def colored_upd)
  qed (use r in \<open>auto simp: result_ok_def\<close>)
next
  case (4 fuel deps n ns colors path)
  have dom: "colors m = None \<longleftrightarrow> m \<notin> K" for m using 4(5) by (auto simp: search_ok_def)
  consider (gray) "colors n = Some Gray" | (white) "colors n = Some White" | (skip) "colors n = None \<or> colors n = Some Black"
    by (metis color.exhaust option.exhaust)
  then show ?case
  proof cases
    case gray
    with gray_neighbor_cycle[OF 4(5,6)] 4(7) show ?thesis
      by (auto simp: result_ok_def split: list.splits)
  next
    case white
    have "n \<in> set (neighbors deps (last path))" using 4(7) by simp
    with 4(2)[OF white refl 4(5) white] 4(8) have r: "result_ok deps K path colors {n} (dfs fuel deps n colors path)"
      by blast
    show ?thesis
    proof (cases "dfs fuel deps n colors path")
      case (Visited colors')
      have "n \<in> K" using dom[of n] white by simp
      with Visited r have v: "search_ok deps K path colors'" "progress colors colors'" "colors' n = Some Black"
        by (auto simp: result_ok_def colored_def)
      from v(2) have "colored White colors' \<subseteq> colored White colors" by (simp add: progress_def)
      from card_mono[OF finite_colored[OF 4(5)] this] 4(8) have "card (colored White colors') \<le> fuel" by simp
      with 4(3)[OF white refl Visited v(1) 4(6)] 4(7)
      have "result_ok deps K path colors' (set ns) (visit_neighbors fuel deps ns colors' path)" by simp
      from result_ok_Cons[OF _ v(2) this, of n] v(3) white Visited show ?thesis by simp
    qed (use r white in \<open>auto simp: result_ok_def\<close>)
  next
    case skip
    then have "result_ok deps K path colors (set ns) (visit_neighbors fuel deps ns colors path)"
      using 4(1)[OF _ 4(5,6) _ 4(8)] 4(4)[OF _ refl 4(5,6) _ 4(8)] 4(7) by (auto simp: dom)
    moreover from skip dom[of n] have "colors n = Some Black \<or> n \<notin> K" by auto
    ultimately have "result_ok deps K path colors (set (n # ns)) (visit_neighbors fuel deps ns colors path)"
      using result_ok_Cons[OF _ progress_refl] by blast
    with skip show ?thesis by auto
  qed
qed (simp add: result_ok_def)

lemma dfs_all_correct:
  "search_ok deps K [] colors \<Longrightarrow> card (colored White colors) \<le> fuel \<Longrightarrow>
   result_ok deps K [] colors (colored White colors \<inter> set ns) (dfs_all fuel deps ns colors)"
proof (induction ns arbitrary: colors)
  case (Cons n ns)
  show ?case
  proof (cases "colors n = Some White")
    case True
    from dfs_correct(1)[OF Cons.prems(1) True _ Cons.prems(2)]
    have r: "result_ok deps K [] colors {n} (dfs fuel deps n colors [])" by simp
    show ?thesis
    proof (cases "dfs fuel deps n colors []")
      case (Visited colors')
      with r have v: "search_ok deps K [] colors'" "progress colors colors'" by (auto simp: result_ok_def)
      then have "colored White colors' \<subseteq> colored White colors" by (simp add: progress_def)
      from card_mono[OF finite_colored[OF Cons.prems(1)] this] Cons.prems(2)
      have "card (colored White colors') \<le> fuel" by simp
      from Cons.IH[OF v(1) this] have "result_ok deps K [] colors' (colored White colors' \<inter> set ns)
          (dfs_all fuel deps ns colors')" .
      moreover have "colored White colors \<inter> K \<subseteq> colored White colors' \<union> colored Black colors'"
        using v(1) by (auto simp: search_ok_def colored_def) (metis color.exhaust option.exhaust)
      moreover have "{n} \<inter> K \<subseteq> colored Black colors'" using r Visited by (simp add: result_ok_def)
      moreover have "colored White colors' \<inter> colored Black colors' = {}" by (auto simp: colored_def)
      ultimately have "result_ok deps K [] colors (colored White colors \<inter> set (n # ns)) (dfs_all fuel deps ns colors')"
        using v(2) progress_trans[OF v(2)] by (cases "dfs_all fuel deps ns colors'") (auto simp: result_ok_def progress_def)
      with True Visited show ?thesis by simp
    qed (use r True in \<open>auto simp: result_ok_def\<close>)
  next
    case False
    with Cons show ?thesis by (auto simp: colored_def)
  qed
qed (auto simp: result_ok_def)

text \<open>The verdict of the search for any order of the nodes and of their neighbours.\<close>

lemma detect_cycles_iff:
  "\<exists>r. detect_cycles nodes deps = Some r \<and> (r = Inr () \<longleftrightarrow> acyclic (edges deps \<inter> set nodes \<times> set nodes))"
proof -
  let ?init = "\<lambda>n. if n \<in> set nodes then Some White else None"
  have white: "colored White ?init = set nodes" and other: "colored Gray ?init = {}" "colored Black ?init = {}"
    by (auto simp: colored_def)
  have ok: "search_ok deps (set nodes) [] ?init"
    by (auto simp: search_ok_def other dom_def acyclic_def)
  from dfs_all_correct[OF ok, of "length nodes" nodes] white
  have r: "result_ok deps (set nodes) [] ?init (set nodes) (dfs_all (length nodes) deps nodes ?init)"
    by (simp add: card_length)
  show ?thesis
  proof (cases "dfs_all (length nodes) deps nodes ?init")
    case (Visited c)
    with r have "search_ok deps (set nodes) [] c" "set nodes \<subseteq> colored Black c" by (auto simp: result_ok_def)
    then have "acyclic (edges deps \<inter> set nodes \<times> set nodes)"
      by (auto simp: search_ok_def elim!: acyclic_subset)
    with Visited show ?thesis by (simp add: detect_cycles_def)
  qed (use r in \<open>auto simp: result_ok_def detect_cycles_def validation_def\<close>)
qed

section \<open>Validation of a file\<close>

text \<open>The references between the workflows of a file that name a workflow of the file.\<close>

definition references :: "workflow_spec list \<Rightarrow> (string \<times> string) set" where
  "references specs =
     {(spec_id s, r) | s r. s \<in> set specs \<and> r \<in> collect_workflow_refs (spec_steps s) \<and> r \<in> spec_id ` set specs}"

lemma finite_collect_workflow_refs: "finite (collect_workflow_refs steps)"
  by (simp add: collect_workflow_refs_eq own_workflow_refs_def)

lemma check_ids_Inr: "check_ids specs seen = Inr () \<longleftrightarrow> distinct (map spec_id specs) \<and> spec_id ` set specs \<inter> seen = {}"
  by (induction specs arbitrary: seen) auto

lemma fold_deps:
  "distinct (map spec_id specs) \<Longrightarrow>
   fold (\<lambda>spec deps. deps(spec_id spec \<mapsto> f spec)) specs m n =
     (case map_of (map (\<lambda>spec. (spec_id spec, f spec)) specs) n of None \<Rightarrow> m n | Some v \<Rightarrow> Some v)"
proof (induction specs arbitrary: m)
  case (Cons s specs)
  then have "map_of (map (\<lambda>spec. (spec_id spec, f spec)) specs) (spec_id s) = None"
    by (simp add: map_of_eq_None_iff image_image)
  with Cons show ?case by (auto split: option.splits)
qed simp

lemma case_option_id: "(case x of None \<Rightarrow> None | Some v \<Rightarrow> Some v) = x"
  by (cases x) simp_all

lemma edges_deps:
  assumes "distinct (map spec_id specs)" and "\<And>spec. set (order (f spec)) = f spec"
  shows "edges (\<lambda>n. map_option order (map_of (map (\<lambda>spec. (spec_id spec, f spec)) specs) n)) =
    {(spec_id s, r) | s r. s \<in> set specs \<and> r \<in> f s}" (is "edges ?deps = _")
proof (intro set_eqI)
  fix p :: "string \<times> string"
  obtain n r where p: "p = (n, r)" by (cases p)
  have "r \<in> set (neighbors ?deps n) \<longleftrightarrow> (\<exists>s \<in> set specs. spec_id s = n \<and> r \<in> f s)"
  proof (cases "map_of (map (\<lambda>spec. (spec_id spec, f spec)) specs) n")
    case None
    then have "n \<notin> spec_id ` set specs" by (simp add: map_of_eq_None_iff image_image)
    with None show ?thesis by (auto simp: neighbors_def)
  next
    case (Some R)
    with assms(1) have "\<exists>s \<in> set specs. spec_id s = n \<and> R = f s"
      by (subst (asm) map_of_eq_Some_iff) (auto simp: comp_def)
    then obtain s where s: "s \<in> set specs" "spec_id s = n" "R = f s" by blast
    have inj: "inj_on spec_id (set specs)" using assms(1) by (simp add: distinct_map)
    have unique: "t = s" if "t \<in> set specs" "spec_id t = n" for t
      by (rule inj_onD[OF inj]) (use that s in simp_all)
    have "set (neighbors ?deps n) = f s" using Some s(3) assms(2)[of s] by (simp add: neighbors_def)
    with s(1,2) unique show ?thesis by blast
  qed
  with p show "p \<in> edges ?deps \<longleftrightarrow> p \<in> {(spec_id s, r) | s r. s \<in> set specs \<and> r \<in> f s}"
    by (auto simp: edges_def)
qed

locale hash_order =
  fixes order :: "string set \<Rightarrow> string list"
  assumes order_set: "finite A \<Longrightarrow> set (order A) = A"
begin

lemma references_acyclic:
  assumes "distinct (map spec_id specs)"
  shows "\<exists>r. validate_workflow_references order specs = Some r \<and> (r = Inr () \<longleftrightarrow> acyclic (references specs))"
proof -
  let ?refs = "\<lambda>spec. collect_workflow_refs (spec_steps spec)" and ?ids = "spec_id ` set specs"
  let ?deps = "\<lambda>n. map_option order (map_of (map (\<lambda>spec. (spec_id spec, ?refs spec)) specs) n)"
  have "edges ?deps \<inter> set (order ?ids) \<times> set (order ?ids) = references specs"
    using edges_deps[of specs order ?refs, OF assms order_set[OF finite_collect_workflow_refs]]
    by (auto simp: references_def order_set)
  moreover have "validate_workflow_references order specs = detect_cycles (order ?ids) ?deps"
    by (simp add: validate_workflow_references_def fold_deps[OF assms] case_option_id)
  ultimately show ?thesis using detect_cycles_iff[of "order ?ids" ?deps] by simp
qed

lemma multi_accepts_iff:
  "\<exists>r. validate_multi order specs = Some r \<and>
     (r = Inr () \<longleftrightarrow> list_all (\<lambda>s. validate s = Inr ()) specs \<and> distinct (map spec_id specs) \<and>
        acyclic (references specs))"
proof (cases "try_each validate specs = Inr () \<and> check_ids specs {} = Inr ()")
  case True
  then have "validate_multi order specs = validate_workflow_references order specs"
    by (simp add: validate_multi_def del: try_each_Inr_iff)
  with True references_acyclic[of specs] show ?thesis
    by (auto simp: check_ids_Inr try_each_Inr_iff list_all_iff)
next
  case False
  then obtain e where "validate_multi order specs = Some (Inl e)"
    by (cases "try_each validate specs"; cases "check_ids specs {}")
      (auto simp: validate_multi_def simp del: try_each_Inr_iff)
  with False show ?thesis by (auto simp: check_ids_Inr try_each_Inr_iff list_all_iff)
qed

end

interpretation sorted_order: hash_order sorted_list_of_set
  by unfold_locales simp

text \<open>A workflow whose only step calls another workflow.\<close>

definition caller :: "string \<Rightarrow> string \<Rightarrow> workflow_spec" where
  "caller i callee = plain_spec i [plain_step ''call'' ''workflow'' (empty_config\<lparr>sc_child_workflow := Some callee\<rparr>)]"

lemma caller_simps [simp]:
  "spec_id (caller i c) = i"
  "collect_workflow_refs (spec_steps (caller i c)) = {c}"
  "validate (caller i c) = Inr ()"
  by (simp_all add: caller_def plain_spec_def own_workflow_refs_def validate_iff Let_def check_step_def
      check_workflow_def with_config_def check_condition_def all_steps_Cons own_steps_def)

text \<open>
  C33: validation of a file with several workflows always reaches a verdict, whatever order the
  hash sets are traversed in: the search does not panic and does not run forever. The workflows of a
  file it accepts are each valid, have distinct ids, and their references to one another form no
  cycle. When every reference is to a workflow of the file, such files are exactly the accepted ones;
  what happens to references to workflows that the file does not have is left open here.
\<close>

theorem validate_multi_accepts_iff:
  assumes "\<And>A. finite A \<Longrightarrow> set (order A) = A"
  shows "\<exists>r. validate_multi order specs = Some r \<and>
     (r = Inr () \<longrightarrow> list_all (\<lambda>s. validate s = Inr ()) specs \<and> distinct (map spec_id specs) \<and> acyclic (references specs)) \<and>
     ((\<forall>s \<in> set specs. collect_workflow_refs (spec_steps s) \<subseteq> spec_id ` set specs) \<longrightarrow>
        (r = Inr () \<longleftrightarrow> list_all (\<lambda>s. validate s = Inr ()) specs \<and> distinct (map spec_id specs) \<and>
          acyclic {(spec_id s, i) | s i. s \<in> set specs \<and> i \<in> collect_workflow_refs (spec_steps s)}))"
proof -
  have refs: "references specs = {(spec_id s, i) | s i. s \<in> set specs \<and> i \<in> collect_workflow_refs (spec_steps s)}"
    if "\<forall>s \<in> set specs. collect_workflow_refs (spec_steps s) \<subseteq> spec_id ` set specs"
    using that unfolding references_def by blast
  obtain r where r: "validate_multi order specs = Some r" "r = Inr () \<longleftrightarrow>
      list_all (\<lambda>s. validate s = Inr ()) specs \<and> distinct (map spec_id specs) \<and> acyclic (references specs)"
    using assms hash_order.multi_accepts_iff[OF hash_order.intro] by metis
  then show ?thesis using refs by (intro exI[of _ r]) auto
qed

theorem validate_multi_accepts_iff_witness:
  "\<exists>e. validate_multi sorted_list_of_set [caller ''a'' ''b'', caller ''b'' ''a''] = Some (Inl e)"
proof -
  let ?specs = "[caller ''a'' ''b'', caller ''b'' ''a'']"
  let ?E = "{(spec_id s, i) | s i. s \<in> set ?specs \<and> i \<in> collect_workflow_refs (spec_steps s)}"
  have known: "\<forall>s \<in> set ?specs. collect_workflow_refs (spec_steps s) \<subseteq> spec_id ` set ?specs" by simp
  have ref: "(spec_id s, i) \<in> ?E" if "s \<in> set ?specs" "i \<in> collect_workflow_refs (spec_steps s)" for s i
    using that by blast
  have "(''a'', ''b'') \<in> ?E" "(''b'', ''a'') \<in> ?E"
    using ref[of "caller ''a'' ''b''" "''b''"] ref[of "caller ''b'' ''a''" "''a''"] by simp_all
  then have "\<not> acyclic ?E" by (meson acyclic_def trancl.simps)
  moreover obtain r where "validate_multi sorted_list_of_set ?specs = Some r"
    "r = Inr () \<longleftrightarrow> list_all (\<lambda>s. validate s = Inr ()) ?specs \<and> distinct (map spec_id ?specs) \<and> acyclic ?E"
    using validate_multi_accepts_iff[of sorted_list_of_set ?specs] known by auto
  ultimately show ?thesis by (cases r) auto
qed

text \<open>
  The documentation of \<open>validate_workflow_references\<close> says that references point to known
  workflows; a reference to a workflow that the file does not have is accepted.
\<close>

lemma unknown_reference_accepted: "validate_multi sorted_list_of_set [caller ''a'' ''missing''] = Some (Inr ())"
proof -
  have "references [caller ''a'' ''missing''] = {}" by (auto simp: references_def)
  with sorted_order.multi_accepts_iff[of "[caller ''a'' ''missing'']"] show ?thesis
    by (auto simp: acyclic_def)
qed

end
