(* ===== verification/Yaml_Load.thy ===== *)
theory Yaml_Load
  imports Yaml_Compiler_Correct Yaml_References
begin

text \<open>
  Interpolation of configuration variables (\<open>wfe-yaml/src/interpolation.rs\<close>) and the loader that
  composes interpolation, parsing, validation and compilation (\<open>wfe-yaml/src/lib.rs\<close>). The YAML
  parser with merge keys, the text \<open>serde_json\<close> prints for a value and the file system are
  parameters. The regular expression of a reference is matched at the leftmost position; its
  character class does not contain a parenthesis, so the longest run of name characters is the only
  candidate.
\<close>

section \<open>Interpolation\<close>

definition is_var_char :: "char \<Rightarrow> bool" where
  "is_var_char c \<longleftrightarrow>
     is_alphanumeric c \<or> c = CHR ''_'' \<or> c = CHR ''.''"

definition match_var :: "string \<Rightarrow> (string \<times> string) option" where
  "match_var s =
     and_then (strip_prefix_str ''(('' s) (\<lambda>r.
       let name = takeWhile is_var_char r in
       if name = [] then None
       else map_option (Pair name) (strip_prefix_str ''))'' (dropWhile is_var_char r)))"

fun walk_path :: "string list \<Rightarrow> json \<Rightarrow> json option" where
  "walk_path [] v = Some v"
| "walk_path (seg # segs) v = and_then (json_get v seg) (walk_path segs)"

definition resolve_path :: "(json \<Rightarrow> string) \<Rightarrow> (string \<rightharpoonup> json) \<Rightarrow> string \<Rightarrow> yaml_error + string" where
  "resolve_path show config path =
     (case split_on (CHR ''.'') path of
        [] \<Rightarrow> Inl (UnresolvedVariable path)
      | root_key # segs \<Rightarrow>
          (case and_then (config root_key) (walk_path segs) of
             None \<Rightarrow> Inl (UnresolvedVariable path)
           | Some v \<Rightarrow> Inr (case v of JString s \<Rightarrow> s | JNull \<Rightarrow> ''null'' | _ \<Rightarrow> show v)))"

lemma match_var_Some:
  "match_var s = Some (name, rest) \<longleftrightarrow>
     (\<exists>r. s = ''(('' @ r \<and> name = takeWhile is_var_char r \<and> name \<noteq> [] \<and> dropWhile is_var_char r = ''))'' @ rest)"
proof -
  have split: "and_then x f = Some y \<longleftrightarrow> (\<exists>z. x = Some z \<and> f z = Some y)" for x :: "'a option" and f and y :: 'b
    by (cases x) auto
  show ?thesis unfolding match_var_def split by (auto simp: Let_def strip_prefix_Some)
qed

lemma match_var_shorter:
  assumes "match_var s = Some (name, rest)"
  shows "length rest < length s"
proof -
  from assms obtain r where r: "s = ''(('' @ r" "dropWhile is_var_char r = ''))'' @ rest"
    unfolding match_var_Some by blast
  have "length (dropWhile is_var_char r) \<le> length r" by (rule length_dropWhile_le)
  with r show ?thesis by simp
qed

function interpolate :: "(json \<Rightarrow> string) \<Rightarrow> (string \<rightharpoonup> json) \<Rightarrow> string \<Rightarrow> yaml_error + string" where
  "interpolate show config [] = Inr []"
| "interpolate show config (c # s) =
     (case match_var (c # s) of
        Some (path, rest) \<Rightarrow>
          (case resolve_path show config path of
             Inl e \<Rightarrow> Inl e
           | Inr v \<Rightarrow> wrap ((@) v) (interpolate show config rest))
      | None \<Rightarrow> wrap ((#) c) (interpolate show config s))"
  by pat_completeness auto
termination
  by (relation "measure (\<lambda>(_, _, s). length s)") (auto dest: match_var_shorter)

section \<open>The loader\<close>

record loader_env =
  le_show :: "json \<Rightarrow> string"
  le_parse :: "string \<Rightarrow> yaml_error + (string list \<times> yaml_workflow_file)"
  le_canonicalize :: "string \<Rightarrow> string option"
  le_read :: "string \<Rightarrow> yaml_error + string"
  le_sibling :: "string \<Rightarrow> string \<Rightarrow> string"
  le_order :: "string set \<Rightarrow> string list"
  le_features :: features

definition resolve_workflow_specs :: "yaml_workflow_file \<Rightarrow> yaml_error + workflow_spec list" where
  "resolve_workflow_specs file =
     (case (yf_workflow file, yf_workflows file) of
        (Some single, None) \<Rightarrow> Inr [single]
      | (None, Some multi) \<Rightarrow> if multi = [] then validation ''workflows list is empty'' else Inr multi
      | (Some _, Some _) \<Rightarrow> validation ''Cannot specify both 'workflow' and 'workflows' in the same file''
      | (None, None) \<Rightarrow> validation (''Must specify either 'workflow' or '' @ quoted ''workflows''))"

text \<open>From the text of a file to its specs and includes.\<close>

definition parse_text ::
  "loader_env \<Rightarrow> (string \<rightharpoonup> json) \<Rightarrow> string \<Rightarrow> yaml_error + (string list \<times> workflow_spec list)" where
  "parse_text E config yaml =
     (case interpolate (le_show E) config yaml of Inl e \<Rightarrow> Inl e | Inr txt \<Rightarrow>
      (case le_parse E txt of Inl e \<Rightarrow> Inl e | Inr (includes, file) \<Rightarrow>
       wrap (Pair includes) (resolve_workflow_specs file)))"

text \<open>Validation of all specs, then compilation of each; \<open>None\<close> is a panic or a search without end.\<close>

definition compile_all :: "loader_env \<Rightarrow> workflow_spec list \<Rightarrow> (yaml_error + compiled_workflow list) option" where
  "compile_all E specs =
     (case validate_multi (le_order E) specs of
        None \<Rightarrow> None
      | Some (Inl e) \<Rightarrow> Some (Inl e)
      | Some (Inr _) \<Rightarrow> Some (try_map (compile (le_features E)) specs))"

definition load_workflow_from_str ::
  "loader_env \<Rightarrow> (string \<rightharpoonup> json) \<Rightarrow> string \<Rightarrow> (yaml_error + compiled_workflow list) option" where
  "load_workflow_from_str E config yaml =
     (case parse_text E config yaml of
        Inl e \<Rightarrow> Some (Inl e)
      | Inr (_, specs) \<Rightarrow> compile_all E specs)"

definition load_single_workflow_from_str ::
  "loader_env \<Rightarrow> (string \<rightharpoonup> json) \<Rightarrow> string \<Rightarrow> (yaml_error + compiled_workflow) option" where
  "load_single_workflow_from_str E config yaml =
     map_option (\<lambda>r. case r of
          Inl e \<Rightarrow> Inl e
        | Inr ws \<Rightarrow> (case ws of [w] \<Rightarrow> Inr w
                     | _ \<Rightarrow> validation (''Expected single workflow, got '' @ show_nat (length ws))))
       (load_workflow_from_str E config yaml)"

definition load_workflow ::
  "loader_env \<Rightarrow> string \<Rightarrow> (string \<rightharpoonup> json) \<Rightarrow> (yaml_error + compiled_workflow) option" where
  "load_workflow E path config =
     (case le_read E path of
        Inl e \<Rightarrow> Some (Inl e)
      | Inr yaml \<Rightarrow> load_single_workflow_from_str E config yaml)"

section \<open>Includes\<close>

definition add_included :: "workflow_spec list \<Rightarrow> workflow_spec list \<Rightarrow> workflow_spec list" where
  "add_included specs included = specs @ filter (\<lambda>s. spec_id s \<notin> spec_id ` set specs) included"

text \<open>
  \<open>load_includes_recursive\<close> and the loop over the includes of one file. The recursion is given
  fuel; every call adds a canonical path to the visited ones.
\<close>

type_synonym include_state = "workflow_spec list \<times> string set"

fun load_include :: "nat \<Rightarrow> loader_env \<Rightarrow> (string \<rightharpoonup> json) \<Rightarrow> string \<Rightarrow> include_state \<Rightarrow>
    (yaml_error + include_state) option"
and load_includes :: "nat \<Rightarrow> loader_env \<Rightarrow> (string \<rightharpoonup> json) \<Rightarrow> string \<Rightarrow> string list \<Rightarrow> include_state \<Rightarrow>
    (yaml_error + include_state) option" where
  "load_include 0 E config path st = None"
| "load_include (Suc fuel) E config path (specs, visited) =
     (case le_canonicalize E path of
        None \<Rightarrow> Some (Inl (Io (''Include file not found: '' @ path)))
      | Some canonical \<Rightarrow>
         if canonical \<in> visited
         then Some (validation (''Circular include detected: '' @ quoted path))
         else
         (case le_read E canonical of Inl e \<Rightarrow> Some (Inl e) | Inr yaml \<Rightarrow>
         (case parse_text E config yaml of Inl e \<Rightarrow> Some (Inl e) | Inr (includes, included) \<Rightarrow>
          load_includes fuel E config canonical includes (add_included specs included, insert canonical visited))))"
| "load_includes fuel E config base [] st = Some (Inr st)"
| "load_includes fuel E config base (inc # incs) st =
     (case load_include fuel E config (le_sibling E base inc) st of
        None \<Rightarrow> None
      | Some (Inl e) \<Rightarrow> Some (Inl e)
      | Some (Inr st) \<Rightarrow> load_includes fuel E config base incs st)"

definition load_workflow_with_includes ::
  "nat \<Rightarrow> loader_env \<Rightarrow> string \<Rightarrow> string \<Rightarrow> (string \<rightharpoonup> json) \<Rightarrow> (yaml_error + compiled_workflow list) option" where
  "load_workflow_with_includes fuel E yaml base_path config =
     (let canonical = unwrap_or (le_canonicalize E base_path) base_path in
      case parse_text E config yaml of
        Inl e \<Rightarrow> Some (Inl e)
      | Inr (includes, main_specs) \<Rightarrow>
         (case load_includes fuel E config base_path includes (main_specs, {canonical}) of
            None \<Rightarrow> None
          | Some (Inl e) \<Rightarrow> Some (Inl e)
          | Some (Inr (specs, _)) \<Rightarrow> compile_all E specs))"

section \<open>Correctness\<close>

lemma match_var_reference:
  assumes "list_all is_var_char path" and "path \<noteq> []"
  shows "match_var (''(('' @ path @ ''))'' @ post) = Some (path, post)"
proof -
  have "takeWhile is_var_char (path @ CHR '')'' # x) = path" "dropWhile is_var_char (path @ CHR '')'' # x) = CHR '')'' # x" for x
    using assms(1) by (induction path) (simp_all add: is_var_char_def char_class_defs)
  with assms(2) show ?thesis by (simp add: match_var_Some)
qed

lemma interpolate_literal:
  assumes "CHR ''('' \<notin> set pre"
  shows "interpolate show config (pre @ s) = wrap ((@) pre) (interpolate show config s)"
  using assms
proof (induction pre)
  case Nil
  show ?case by (cases "interpolate show config s") (simp_all add: wrap_def)
next
  case (Cons c pre)
  then have "match_var (c # pre @ s) = None" by (auto simp: match_var_def strip_prefix_str_def)
  with Cons show ?case by (cases "interpolate show config s") (simp_all add: wrap_def)
qed

text \<open>
  Interpolation replaces a reference by the value of its path, unchanged text before it stays
  and the scan goes on after the reference: a value that itself looks like a reference is not
  interpolated again. Without a parenthesis the text is unchanged.
\<close>

theorem interpolate_reference:
  assumes "CHR ''('' \<notin> set pre" and "list_all is_var_char path" and "path \<noteq> []"
    and "resolve_path show config path = Inr v"
  shows "interpolate show config (pre @ ''(('' @ path @ ''))'' @ post) =
      wrap (\<lambda>out. pre @ v @ out) (interpolate show config post) \<and>
    interpolate show config pre = Inr pre"
proof -
  have "interpolate show config (''(('' @ path @ ''))'' @ post) = wrap ((@) v) (interpolate show config post)"
    using match_var_reference[OF assms(2,3), of post] assms(4) by simp
  with interpolate_literal[OF assms(1)] show ?thesis
    using interpolate_literal[OF assms(1), of "show" config "[]"]
    by (cases "interpolate show config post") (simp_all add: wrap_def)
qed

theorem interpolate_reference_witness:
  "interpolate (\<lambda>_. []) [''db'' \<mapsto> JObject [(''host'', JString ''((x))'')]] (''h: '' @ ''(('' @ ''db.host'' @ ''))'' @ []) =
     Inr (''h: ((x))'')"
  using interpolate_reference[of "''h: ''" "''db.host''" "\<lambda>_. []" "[''db'' \<mapsto> JObject [(''host'', JString ''((x))'')]]" "''((x))''" "[]"]
  by (simp add: is_var_char_def char_class_defs resolve_path_def json_get_def wrap_def)

text \<open>
  Includes: with fuel above the number of canonical paths not yet visited the recursion ends; it
  only adds visited paths and appends specs.
\<close>

definition include_ok :: "include_state \<Rightarrow> (yaml_error + include_state) option \<Rightarrow> bool" where
  "include_ok st r \<longleftrightarrow>
     (case r of
        None \<Rightarrow> False
      | Some (Inl _) \<Rightarrow> True
      | Some (Inr st') \<Rightarrow> prefix (fst st) (fst st') \<and> snd st \<subseteq> snd st')"

lemma include_ok_trans:
  "prefix (fst st) (fst st') \<Longrightarrow> snd st \<subseteq> snd st' \<Longrightarrow> include_ok st' r \<Longrightarrow> include_ok st r"
  by (auto simp: include_ok_def split: option.splits sum.splits)

lemma load_includes_ok:
  assumes "finite F" and F: "\<And>p c. le_canonicalize E p = Some c \<Longrightarrow> c \<in> F"
  shows "card (F - snd st) < fuel \<Longrightarrow> include_ok st (load_include fuel E config path st)"
    "card (F - snd st) < fuel \<Longrightarrow> include_ok st (load_includes fuel E config base incs st)"
  using F
proof (induction fuel E config path st and fuel E config base incs st rule: load_include_load_includes.induct)
  case (2 fuel E config path specs visited)
  show ?case
  proof (cases "le_canonicalize E path")
    case (Some canonical)
    show ?thesis
    proof (cases "canonical \<in> visited")
      case False
      let ?rec = "\<lambda>incs included. load_includes fuel E config canonical incs (add_included specs included, insert canonical visited)"
      have "F - insert canonical visited \<subset> F - visited" using 2(3)[OF Some] False by auto
      from psubset_card_mono[OF finite_Diff[OF assms(1)] this] 2(2)
      have card: "card (F - snd (add_included specs included, insert canonical visited)) < fuel" for included by simp
      have "include_ok (add_included specs included, insert canonical visited) (?rec incs included)"
        if "le_read E canonical = Inr yaml" "parse_text E config yaml = Inr (incs, included)" for yaml incs included
        by (rule 2(1)[OF Some False that(1,2)]) (use card 2(3) in auto)
      from include_ok_trans[OF _ _ this, of "(specs, visited)"]
      have "include_ok (specs, visited) (?rec incs included)"
        if "le_read E canonical = Inr yaml" "parse_text E config yaml = Inr (incs, included)" for yaml incs included
        using that by (auto simp: add_included_def)
      with Some False show ?thesis by (auto simp: include_ok_def split: sum.split)
    qed (simp add: Some include_ok_def validation_def)
  qed (simp add: include_ok_def)
next
  case (4 fuel E config base inc incs st)
  have r: "include_ok st (load_include fuel E config (le_sibling E base inc) st)" by (rule 4(1)[OF 4(3,4)])
  show ?case
  proof (cases "load_include fuel E config (le_sibling E base inc) st")
    case (Some r')
    show ?thesis
    proof (cases r')
      case (Inr st')
      with r Some have p: "prefix (fst st) (fst st')" "snd st \<subseteq> snd st'" by (auto simp: include_ok_def)
      have "card (F - snd st') \<le> card (F - snd st)" using p(2) by (intro card_mono finite_Diff[OF assms(1)]) auto
      with 4(3) have "card (F - snd st') < fuel" by simp
      from include_ok_trans[OF p 4(2)[OF Some Inr this 4(4)]] Some Inr show ?thesis by simp
    qed (use Some in \<open>simp add: include_ok_def\<close>)
  qed (use r in \<open>simp add: include_ok_def\<close>)
qed (simp_all add: include_ok_def)

lemma compile_all_ok:
  assumes "\<And>A. finite A \<Longrightarrow> set (le_order E A) = A"
  shows "\<exists>r. compile_all E specs = Some r \<and>
    (\<forall>cs. r = Inr cs \<longrightarrow> list_all (\<lambda>c. definition_ok (cw_definition c)) cs \<and>
       map (\<lambda>c. wd_id (cw_definition c)) cs = map spec_id specs \<and> distinct (map spec_id specs))"
proof -
  have "hash_order (le_order E)" using assms by (rule hash_order.intro)
  from hash_order.multi_accepts_iff[OF this, of specs] obtain v where v: "validate_multi (le_order E) specs = Some v" "v = Inr () \<longrightarrow> distinct (map spec_id specs)"
    by blast
  show ?thesis
  proof (cases v)
    case (Inr u)
    have "list_all (\<lambda>c. definition_ok (cw_definition c)) cs \<and> map (\<lambda>c. wd_id (cw_definition c)) cs = map spec_id specs"
      if "list_all2 (\<lambda>spec c. compile (le_features E) spec = Inr c) specs cs" for cs
      using that by (induction specs cs rule: list_all2_induct) (simp_all add: compile_wellformed compile_id)
    with v Inr show ?thesis by (auto simp: compile_all_def try_map_Inr_iff)
  qed (use v in \<open>simp add: compile_all_def\<close>)
qed

text \<open>
  C16: loading a file with its includes always ends with a result when the file system has finitely
  many canonical paths and the fuel exceeds their number. What is loaded is well formed: every
  definition has valid references, ids of workflows do not clash, and the workflows of the main
  file come first, whatever the included files define.
\<close>

theorem load_with_includes_ok:
  assumes "finite F" and "\<And>p c. le_canonicalize E p = Some c \<Longrightarrow> c \<in> F" and "card F < fuel"
    and "\<And>A. finite A \<Longrightarrow> set (le_order E A) = A"
  shows "\<exists>r. load_workflow_with_includes fuel E yaml base_path config = Some r \<and>
    (\<forall>cs. r = Inr cs \<longrightarrow> list_all (\<lambda>c. definition_ok (cw_definition c)) cs \<and>
       distinct (map (\<lambda>c. wd_id (cw_definition c)) cs) \<and>
       (\<exists>incs main. parse_text E config yaml = Inr (incs, main) \<and>
          prefix (map spec_id main) (map (\<lambda>c. wd_id (cw_definition c)) cs)))"
proof (cases "parse_text E config yaml")
  case (Inr parsed)
  obtain incs main where p: "parsed = (incs, main)" by (cases parsed)
  let ?st = "(main, {unwrap_or (le_canonicalize E base_path) base_path})"
  have "card (F - snd ?st) \<le> card F" using assms(1) by (intro card_mono) auto
  then have "card (F - snd ?st) < fuel" using assms(3) by simp
  from load_includes_ok(2)[OF assms(1,2) this] have ok: "include_ok ?st (load_includes fuel E config base_path incs ?st)" .
  then obtain r where r: "load_includes fuel E config base_path incs ?st = Some r" by (auto simp: include_ok_def split: option.splits)
  show ?thesis
  proof (cases r)
    case (Inr st)
    obtain specs visited where st: "st = (specs, visited)" by (cases st)
    with ok r Inr have "prefix (map spec_id main) (map spec_id specs)"
      by (auto simp: include_ok_def map_mono_prefix)
    with compile_all_ok[OF assms(4), of specs] r Inr st p \<open>parse_text E config yaml = Inr parsed\<close> show ?thesis
      by (auto simp: load_workflow_with_includes_def)
  qed (use r p \<open>parse_text E config yaml = Inr parsed\<close> in \<open>auto simp: load_workflow_with_includes_def\<close>)
qed (simp add: load_workflow_with_includes_def)

section \<open>An example\<close>

text \<open>
  A file system with the files \<open>x\<close> and \<open>y\<close>, whose text is their name; both hold one workflow and
  \<open>x\<close> includes \<open>y\<close>. The main text includes both.
\<close>

definition diamond_parse :: "string \<Rightarrow> yaml_error + (string list \<times> yaml_workflow_file)" where
  "diamond_parse txt =
     Inr (if txt = ''x'' then [''y''] else if txt = ''y'' then [] else [''x'', ''y''],
          \<lparr>yf_workflow = Some (plain_spec txt [shell_step ''a'']), yf_workflows = None\<rparr>)"

definition diamond_env :: loader_env where
  "diamond_env =
     \<lparr>le_show = (\<lambda>_. []), le_parse = diamond_parse,
      le_canonicalize = (\<lambda>p. if p \<in> {''x'', ''y''} then Some p else None), le_read = Inr,
      le_sibling = (\<lambda>_ p. p), le_order = sorted_list_of_set, le_features = default_features\<rparr>"

lemma diamond_env_simps [simp]:
  "le_canonicalize diamond_env p = (if p = ''x'' \<or> p = ''y'' then Some p else None)"
  "le_read diamond_env p = Inr p"
  "le_sibling diamond_env b p = p"
  "le_order diamond_env = sorted_list_of_set"
  "parse_text diamond_env Map.empty ''x'' = Inr ([''y''], [plain_spec ''x'' [shell_step ''a'']])"
  "parse_text diamond_env Map.empty ''y'' = Inr ([], [plain_spec ''y'' [shell_step ''a'']])"
  "parse_text diamond_env Map.empty ''main'' = Inr ([''x'', ''y''], [plain_spec ''main'' [shell_step ''a'']])"
  by (auto simp: parse_text_def diamond_env_def diamond_parse_def resolve_workflow_specs_def wrap_def match_var_def
      strip_prefix_str_def)

theorem load_with_includes_ok_witness:
  "\<exists>r. load_workflow_with_includes 3 diamond_env ''main'' ''m'' Map.empty = Some r"
proof -
  have "\<exists>r. load_workflow_with_includes 3 diamond_env ''main'' ''m'' Map.empty = Some r \<and>
      (\<forall>cs. r = Inr cs \<longrightarrow> list_all (\<lambda>c. definition_ok (cw_definition c)) cs \<and>
       distinct (map (\<lambda>c. wd_id (cw_definition c)) cs) \<and>
       (\<exists>incs main. parse_text diamond_env Map.empty ''main'' = Inr (incs, main) \<and>
          prefix (map spec_id main) (map (\<lambda>c. wd_id (cw_definition c)) cs)))"
    by (rule load_with_includes_ok[of "{''x'', ''y''}"]) (auto split: if_splits)
  then show ?thesis by blast
qed

text \<open>
  A file that is included twice is reported as a circular include even when there is no cycle:
  the set of visited files is never shrunk.
\<close>

lemma diamond_include_rejected:
  "load_workflow_with_includes 3 diamond_env ''main'' ''m'' Map.empty =
     Some (Inl (Validation (''Circular include detected: '' @ quoted ''y'')))"
  by (simp add: load_workflow_with_includes_def numeral_3_eq_3 add_included_def plain_spec_def validation_def)

end
