(* ===== verification/Store.thy ===== *)
theory Store
  imports InMemory "HOL-Library.Multiset"
begin

text \<open>
  What the persistence trait promises, independently of the provider. The first part holds the
  relational vocabulary the two database providers share: a table is the list of its rows, a query
  filters it, and the order in which rows come back (no query of the providers has an
  \<open>ORDER BY\<close>) is a parameter. The second part is the abstract store: finite maps for workflows,
  events and live subscriptions, the definition counters and the pending commands. An instance is
  seen up to the order of its execution pointers. The locale states that a provider implements the
  abstract store; it is interpreted here for the in-memory provider and in the theories of the SQLite
  and PostgreSQL providers for those.
\<close>

section \<open>Results, casts and names\<close>

text \<open>The \<open>?\<close> operator, and the loop \<open>for x in xs { f(x)?; }\<close> over a state.\<close>

definition res_bind :: "'e + 'a \<Rightarrow> ('a \<Rightarrow> 'e + 'b) \<Rightarrow> 'e + 'b" where
  "res_bind r f = (case r of Inl e \<Rightarrow> Inl e | Inr x \<Rightarrow> f x)"

fun try_fold :: "('a \<Rightarrow> 's \<Rightarrow> 'e + 's) \<Rightarrow> 'a list \<Rightarrow> 's \<Rightarrow> 'e + 's" where
  "try_fold f [] s = Inr s"
| "try_fold f (x # xs) s = res_bind (f x s) (try_fold f xs)"

text \<open>The text of an error after a fixed prefix, as a persistence error.\<close>

definition map_persistence :: "string \<Rightarrow> string + 'a \<Rightarrow> 'a res" where
  "map_persistence pre r = map_sum (\<lambda>e. Persistence (pre @ e)) id r"

text \<open>\<open>opt.map(f).transpose()\<close>.\<close>

definition transpose_map :: "('a \<Rightarrow> 'e + 'b) \<Rightarrow> 'a option \<Rightarrow> 'e + 'b option" where
  "transpose_map f x = (case x of None \<Rightarrow> Inr None | Some y \<Rightarrow> map_sum id Some (f y))"

text \<open>The \<open>as\<close> casts between the integer types of the model and of the columns.\<close>

definition usize_as_i64 :: "nat \<Rightarrow> int" where
  "usize_as_i64 n = sint (word_of_nat n :: 64 word)"

definition i64_as_usize :: "int \<Rightarrow> nat" where
  "i64_as_usize i = unat (word_of_int i :: 64 word)"

definition u32_as_i64 :: "u32 \<Rightarrow> int" where
  "u32_as_i64 v = uint v"

definition i64_as_u32 :: "int \<Rightarrow> u32" where
  "i64_as_u32 i = word_of_int i"

definition usize_as_i32 :: "nat \<Rightarrow> int" where
  "usize_as_i32 n = sint (word_of_nat n :: 32 word)"

definition u32_as_i32 :: "u32 \<Rightarrow> int" where
  "u32_as_i32 v = sint v"

text \<open>The names of the variants, as \<open>derive(Serialize)\<close> and the providers write them.\<close>

fun status_to_str :: "workflow_status \<Rightarrow> string" where
  "status_to_str Runnable = ''Runnable''"
| "status_to_str Suspended = ''Suspended''"
| "status_to_str Complete = ''Complete''"
| "status_to_str Terminated = ''Terminated''"

fun pointer_status_to_str :: "pointer_status \<Rightarrow> string" where
  "pointer_status_to_str Pending = ''Pending''"
| "pointer_status_to_str Running = ''Running''"
| "pointer_status_to_str PComplete = ''Complete''"
| "pointer_status_to_str Skipped = ''Skipped''"
| "pointer_status_to_str Sleeping = ''Sleeping''"
| "pointer_status_to_str WaitingForEvent = ''WaitingForEvent''"
| "pointer_status_to_str Failed = ''Failed''"
| "pointer_status_to_str Compensated = ''Compensated''"
| "pointer_status_to_str Cancelled = ''Cancelled''"
| "pointer_status_to_str PendingPredecessor = ''PendingPredecessor''"

fun command_name_to_str :: "command_name \<Rightarrow> string" where
  "command_name_to_str ProcessWorkflow = ''ProcessWorkflow''"
| "command_name_to_str ProcessEvent = ''ProcessEvent''"

definition str_to_status :: "string \<Rightarrow> workflow_status option" where
  "str_to_status s = List.find (\<lambda>v. status_to_str v = s) [Runnable, Suspended, Complete, Terminated]"

definition str_to_pointer_status :: "string \<Rightarrow> pointer_status option" where
  "str_to_pointer_status s =
     List.find (\<lambda>v. pointer_status_to_str v = s)
       [Pending, Running, PComplete, Skipped, Sleeping, WaitingForEvent, Failed, Compensated, Cancelled,
        PendingPredecessor]"

definition str_to_command_name :: "string \<Rightarrow> command_name option" where
  "str_to_command_name s = List.find (\<lambda>v. command_name_to_str v = s) [ProcessWorkflow, ProcessEvent]"

lemma res_bind_simps [simp]: "res_bind (Inr x) f = f x" "res_bind (Inl e) f = Inl e"
  by (simp_all add: res_bind_def)

lemma res_bind_Inr_iff: "res_bind r f = Inr y \<longleftrightarrow> (\<exists>x. r = Inr x \<and> f x = Inr y)"
  by (cases r) auto

lemma map_persistence_simps [simp]:
  "map_persistence pre (Inr x) = Inr x" "map_persistence pre (Inl e) = Inl (Persistence (pre @ e))"
  by (simp_all add: map_persistence_def)

lemma transpose_map_simps [simp]:
  "transpose_map f None = Inr None" "transpose_map f (Some x) = map_sum id Some (f x)"
  by (simp_all add: transpose_map_def)

lemma str_to_status_inverse [simp]: "str_to_status (status_to_str v) = Some v"
  by (cases v) (simp_all add: str_to_status_def)

lemma str_to_pointer_status_inverse [simp]: "str_to_pointer_status (pointer_status_to_str v) = Some v"
  by (cases v) (simp_all add: str_to_pointer_status_def)

lemma str_to_command_name_inverse [simp]: "str_to_command_name (command_name_to_str v) = Some v"
  by (cases v) (simp_all add: str_to_command_name_def)

lemma i64_as_usize_inverse: "n < 2 ^ 64 \<Longrightarrow> i64_as_usize (usize_as_i64 n) = n"
  by (simp add: i64_as_usize_def usize_as_i64_def unat_of_nat)

lemma i64_as_u32_inverse [simp]: "i64_as_u32 (u32_as_i64 v) = v"
  by (simp add: i64_as_u32_def u32_as_i64_def)

text \<open>A count survives the four-byte column, and an index below \<open>2 ^ 31\<close> does.\<close>

lemma i32_u32_inverse [simp]: "i64_as_u32 (u32_as_i32 v) = v"
  by (simp add: i64_as_u32_def u32_as_i32_def)

lemma i32_usize_inverse: "n < 2 ^ 31 \<Longrightarrow> i64_as_usize (usize_as_i32 n) = n"
  by (simp add: i64_as_usize_def usize_as_i32_def signed_of_nat signed_take_bit_int_eq_self unat_of_nat)

section \<open>Tables\<close>

definition lookup :: "('r \<Rightarrow> 'k) \<Rightarrow> 'k \<Rightarrow> 'r list \<Rightarrow> 'r option" where
  "lookup key k rows = List.find (\<lambda>r. key r = k) rows"

definition update_where :: "('r \<Rightarrow> bool) \<Rightarrow> ('r \<Rightarrow> 'r) \<Rightarrow> 'r list \<Rightarrow> 'r list" where
  "update_where p f rows = map (\<lambda>r. if p r then f r else r) rows"

definition delete_where :: "('r \<Rightarrow> bool) \<Rightarrow> 'r list \<Rightarrow> 'r list" where
  "delete_where p rows = filter (\<lambda>r. \<not> p r) rows"

text \<open>The rows a query answers with: those that satisfy it, in the order the database visits them.\<close>

type_synonym row_order = "string \<Rightarrow> nat \<Rightarrow> nat list"

definition select_where :: "row_order \<Rightarrow> string \<Rightarrow> ('r \<Rightarrow> bool) \<Rightarrow> 'r list \<Rightarrow> 'r list" where
  "select_where ord q p rows =
     (let hits = filter p rows in map (\<lambda>i. hits ! i) (ord q (length hits)))"

text \<open>\<open>fetch_optional\<close>: the first row of the answer, if there is one.\<close>

definition first_row :: "'r list \<Rightarrow> 'r option" where
  "first_row rows = (case rows of [] \<Rightarrow> None | r # _ \<Rightarrow> Some r)"

text \<open>Every row is visited once.\<close>

definition visits_all :: "row_order \<Rightarrow> bool" where
  "visits_all ord \<longleftrightarrow> (\<forall>q n. mset (ord q n) = mset [0..<n])"

definition rowid_order :: row_order where
  "rowid_order q n = [0..<n]"

lemma visits_all_rowid [simp]: "visits_all rowid_order"
  by (simp add: visits_all_def rowid_order_def)

lemma select_where_mset:
  assumes "visits_all ord"
  shows "mset (select_where ord q p rows) = mset (filter p rows)"
proof -
  let ?h = "filter p rows"
  have "mset (map ((!) ?h) (ord q (length ?h))) = image_mset ((!) ?h) (mset [0..<length ?h])"
    using assms by (simp add: visits_all_def)
  also have "\<dots> = mset (map ((!) ?h) [0..<length ?h])" by (simp only: mset_map)
  also have "\<dots> = mset ?h" by (simp only: map_nth)
  finally show ?thesis by (simp add: select_where_def Let_def)
qed

lemma select_where_set: "visits_all ord \<Longrightarrow> set (select_where ord q p rows) = {r \<in> set rows. p r}"
  using select_where_mset[of ord q p rows] by (metis set_filter set_mset_mset)

lemma first_row_None: "first_row rows = None \<longleftrightarrow> rows = []"
  by (simp add: first_row_def split: list.splits)

lemma first_row_Some: "first_row rows = Some r \<Longrightarrow> r \<in> set rows"
  by (auto simp: first_row_def split: list.splits)

lemma lookup_simps [simp]:
  "lookup key k [] = None"
  "lookup key k (r # rows) = (if key r = k then Some r else lookup key k rows)"
  by (simp_all add: lookup_def)

lemma lookup_Some: "lookup key k rows = Some r \<Longrightarrow> r \<in> set rows \<and> key r = k"
  unfolding lookup_def by (drule find_Some_memb) auto

lemma lookup_None_iff: "lookup key k rows = None \<longleftrightarrow> k \<notin> key ` set rows"
  by (auto simp: lookup_def find_None_iff)

lemma lookup_snoc [simp]:
  "lookup key k (rows @ [r]) =
     (case lookup key k rows of None \<Rightarrow> if key r = k then Some r else None | Some x \<Rightarrow> Some x)"
  by (induction rows) auto

lemma lookup_memb: "distinct (map key rows) \<Longrightarrow> r \<in> set rows \<Longrightarrow> lookup key (key r) rows = Some r"
  by (induction rows) (auto dest: image_eqI[of _ key])

lemma lookup_distinct_iff:
  "distinct (map key rows) \<Longrightarrow> lookup key k rows = Some r \<longleftrightarrow> r \<in> set rows \<and> key r = k"
  using lookup_memb lookup_Some by metis

lemma first_row_select_key:
  assumes "visits_all ord" "distinct (map key rows)"
  shows "first_row (select_where ord q (\<lambda>r. key r = k) rows) = lookup key k rows"
proof (cases "first_row (select_where ord q (\<lambda>r. key r = k) rows)")
  case None
  then have "lookup key k rows = None"
    using select_where_set[OF assms(1), of q "\<lambda>r. key r = k" rows]
    by (auto simp: first_row_None lookup_None_iff)
  with None show ?thesis by simp
next
  case (Some r)
  then have "r \<in> set rows" "key r = k"
    using select_where_set[OF assms(1), of q "\<lambda>r. key r = k" rows] first_row_Some by fastforce+
  with Some assms(2) show ?thesis by (auto simp: lookup_memb)
qed

lemma update_where_keys [simp]: "(\<And>r. key (f r) = key r) \<Longrightarrow> map key (update_where p f rows) = map key rows"
  by (simp add: update_where_def)

lemma lookup_update_where:
  assumes "\<And>r. key (f r) = key r"
  shows "lookup key k (update_where p f rows) = map_option (\<lambda>r. if p r then f r else r) (lookup key k rows)"
  by (induction rows) (auto simp: update_where_def assms)

lemma set_update_where: "set (update_where p f rows) = (\<lambda>r. if p r then f r else r) ` set rows"
  by (simp add: update_where_def)

lemma update_where_Cons: "update_where p f (r # rows) = (if p r then f r else r) # update_where p f rows"
  by (simp add: update_where_def)

lemma update_where_none: "(\<And>r. r \<in> set rows \<Longrightarrow> \<not> p r) \<Longrightarrow> update_where p f rows = rows"
  by (auto simp: update_where_def intro: map_idI)

lemma set_delete_where [simp]: "set (delete_where p rows) = {r \<in> set rows. \<not> p r}"
  by (auto simp: delete_where_def)

lemma lookup_delete_where_key:
  "lookup key k (delete_where (\<lambda>r. key r = j) rows) = (if k = j then None else lookup key k rows)"
  by (induction rows) (auto simp: delete_where_def)

lemma distinct_delete_where [simp]: "distinct (map key rows) \<Longrightarrow> distinct (map key (delete_where p rows))"
  by (simp add: delete_where_def distinct_map_filter)

section \<open>The abstract store\<close>

type_synonym instance_view = "workflow_instance \<times> execution_pointer multiset"

definition inst_view :: "workflow_instance \<Rightarrow> instance_view" where
  "inst_view x = (x\<lparr>wi_execution_pointers := []\<rparr>, mset (wi_execution_pointers x))"

record store =
  st_workflows :: "string \<rightharpoonup> instance_view"
  st_events :: "string \<rightharpoonup> event"
  st_subs :: "string \<rightharpoonup> event_subscription"
  st_seqs :: "string \<Rightarrow> u64"
  st_commands :: "(command_name \<times> string) set"

definition store_empty :: store where
  "store_empty =
     \<lparr>st_workflows = Map.empty, st_events = Map.empty, st_subs = Map.empty, st_seqs = (\<lambda>_. 0),
      st_commands = {}\<rparr>"

text \<open>The operations of the trait that change the store, and their answers.\<close>

datatype store_op =
    OpCreate workflow_instance
  | OpPersist workflow_instance
  | OpPersistSubs workflow_instance "event_subscription list"
  | OpSequence string
  | OpSubscribe event_subscription
  | OpTerminate string
  | OpSetToken string string string date_time
  | OpClearToken string string
  | OpEvent event
  | OpProcessed string
  | OpUnprocessed string
  | OpSchedule scheduled_command

datatype op_result = RUnit | RId string | RNum u64 | RBool bool

definition answer :: "('a \<Rightarrow> op_result) \<Rightarrow> 'a res \<times> 'w \<Rightarrow> op_result res \<times> 'w" where
  "answer f = map_prod (map_sum id f) id"

fun run_op :: "'w persistence_provider \<Rightarrow> store_op \<Rightarrow> ('w, op_result res) eff" where
  "run_op P (OpCreate x) w = answer RId (create_new_workflow P x w)"
| "run_op P (OpPersist x) w = answer (\<lambda>_. RUnit) (persist_workflow P x w)"
| "run_op P (OpPersistSubs x ss) w = answer (\<lambda>_. RUnit) (persist_workflow_with_subscriptions P x ss w)"
| "run_op P (OpSequence d) w = answer RNum (next_definition_sequence P d w)"
| "run_op P (OpSubscribe s) w = answer RId (create_event_subscription P s w)"
| "run_op P (OpTerminate i) w = answer (\<lambda>_. RUnit) (terminate_subscription P i w)"
| "run_op P (OpSetToken i t k e) w = answer RBool (set_subscription_token P i t k e w)"
| "run_op P (OpClearToken i t) w = answer (\<lambda>_. RUnit) (clear_subscription_token P i t w)"
| "run_op P (OpEvent e) w = answer RId (create_event P e w)"
| "run_op P (OpProcessed i) w = answer (\<lambda>_. RUnit) (mark_event_processed P i w)"
| "run_op P (OpUnprocessed i) w = answer (\<lambda>_. RUnit) (mark_event_unprocessed P i w)"
| "run_op P (OpSchedule c) w = answer (\<lambda>_. RUnit) (schedule_command P c w)"

text \<open>
  A provider may keep less than it was given (a column type with a coarser clock, for example):
  what it keeps of a value is its normal form.
\<close>

record norm =
  nm_instance :: "workflow_instance \<Rightarrow> workflow_instance"
  nm_event :: "event \<Rightarrow> event"
  nm_sub :: "event_subscription \<Rightarrow> event_subscription"
  nm_time :: "date_time \<Rightarrow> date_time"

definition exact_norm :: norm where
  "exact_norm = \<lparr>nm_instance = (\<lambda>x. x), nm_event = (\<lambda>x. x), nm_sub = (\<lambda>x. x), nm_time = (\<lambda>x. x)\<rparr>"

text \<open>The instance under the id it was stored with; an empty name becomes the id.\<close>

definition named :: "string \<Rightarrow> workflow_instance \<Rightarrow> workflow_instance" where
  "named i x = x\<lparr>wi_id := i, wi_name := if wi_name x = [] then i else wi_name x\<rparr>"

definition put_instance :: "string \<Rightarrow> workflow_instance \<Rightarrow> store \<Rightarrow> store" where
  "put_instance i x s = s\<lparr>st_workflows := (st_workflows s)(i \<mapsto> inst_view x)\<rparr>"

definition put_sub :: "event_subscription \<Rightarrow> store \<Rightarrow> store" where
  "put_sub x s = s\<lparr>st_subs := (st_subs s)(es_id x \<mapsto> x)\<rparr>"

definition alter_sub :: "(event_subscription \<Rightarrow> event_subscription) \<Rightarrow> string \<Rightarrow> store \<Rightarrow> store" where
  "alter_sub f i s = s\<lparr>st_subs := (st_subs s)(i := map_option f (st_subs s i))\<rparr>"

definition set_token :: "string \<Rightarrow> string \<Rightarrow> date_time \<Rightarrow> event_subscription \<Rightarrow> event_subscription" where
  "set_token t k e x =
     x\<lparr>es_external_token := Some t, es_external_worker_id := Some k, es_external_token_expiry := Some e\<rparr>"

definition clear_token :: "event_subscription \<Rightarrow> event_subscription" where
  "clear_token x =
     x\<lparr>es_external_token := None, es_external_worker_id := None, es_external_token_expiry := None\<rparr>"

definition mark_event :: "bool \<Rightarrow> string \<Rightarrow> store \<Rightarrow> store" where
  "mark_event b i s =
     s\<lparr>st_events := (st_events s)(i := map_option (\<lambda>e. e\<lparr>ev_is_processed := b\<rparr>) (st_events s i))\<rparr>"

fun spec_op :: "norm \<Rightarrow> store_op \<Rightarrow> op_result \<Rightarrow> store \<Rightarrow> store" where
  "spec_op N (OpCreate x) (RId i) s = put_instance i (nm_instance N (named i x)) s"
| "spec_op N (OpPersist x) RUnit s = put_instance (wi_id x) (nm_instance N x) s"
| "spec_op N (OpPersistSubs x ss) RUnit s =
     fold (\<lambda>y. put_sub (nm_sub N y)) ss (put_instance (wi_id x) (nm_instance N x) s)"
| "spec_op N (OpSequence d) (RNum n) s = s\<lparr>st_seqs := (st_seqs s)(d := n)\<rparr>"
| "spec_op N (OpSubscribe x) (RId i) s = put_sub (nm_sub N (x\<lparr>es_id := i\<rparr>)) s"
| "spec_op N (OpTerminate i) RUnit s = s\<lparr>st_subs := (st_subs s)(i := None)\<rparr>"
| "spec_op N (OpSetToken i t k e) (RBool b) s =
     (if b then alter_sub (set_token t k (nm_time N e)) i s else s)"
| "spec_op N (OpClearToken i t) RUnit s = alter_sub clear_token i s"
| "spec_op N (OpEvent x) (RId i) s = s\<lparr>st_events := (st_events s)(i \<mapsto> nm_event N (x\<lparr>ev_id := i\<rparr>))\<rparr>"
| "spec_op N (OpProcessed i) RUnit s = mark_event True i s"
| "spec_op N (OpUnprocessed i) RUnit s = mark_event False i s"
| "spec_op N (OpSchedule c) RUnit s = s\<lparr>st_commands := insert (sc_command_name c, sc_data c) (st_commands s)\<rparr>"
| "spec_op N _ _ s = s"

text \<open>What the answer says of the store before the call.\<close>

fun spec_result :: "store_op \<Rightarrow> op_result \<Rightarrow> store \<Rightarrow> bool" where
  "spec_result (OpCreate x) r s \<longleftrightarrow> (\<exists>i. r = RId i \<and> (wi_id x \<noteq> [] \<longrightarrow> i = wi_id x))"
| "spec_result (OpSequence d) r s \<longleftrightarrow> r = RNum (st_seqs s d + 1)"
| "spec_result (OpSubscribe x) r s \<longleftrightarrow> (\<exists>i. r = RId i \<and> (es_id x \<noteq> [] \<longrightarrow> i = es_id x))"
| "spec_result (OpEvent x) r s \<longleftrightarrow> (\<exists>i. r = RId i \<and> (ev_id x \<noteq> [] \<longrightarrow> i = ev_id x))"
| "spec_result (OpSetToken i t k e) r s \<longleftrightarrow>
     (\<exists>b. r = RBool b \<and> (\<forall>x. st_subs s i = Some x \<longrightarrow> b = (es_external_token x = None)))"
| "spec_result (OpClearToken i t) r s \<longleftrightarrow>
     r = RUnit \<and> (\<forall>x. st_subs s i = Some x \<longrightarrow> es_external_token x = Some t)"
| "spec_result (OpProcessed i) r s \<longleftrightarrow> r = RUnit \<and> st_events s i \<noteq> None"
| "spec_result (OpUnprocessed i) r s \<longleftrightarrow> r = RUnit \<and> st_events s i \<noteq> None"
| "spec_result _ r s \<longleftrightarrow> r = RUnit"

text \<open>The instances a poll at time \<open>t\<close> is to find.\<close>

definition runnable_ids :: "store \<Rightarrow> date_time \<Rightarrow> string set" where
  "runnable_ids s t =
     {i. \<exists>x ps. st_workflows s i = Some (x, ps) \<and> wi_status x = Runnable \<and>
        (\<exists>ne. wi_next_execution x = Some ne \<and> ne \<le> timestamp_millis t)}"

section \<open>Sequences of operations\<close>

fun run_ops :: "'w persistence_provider \<Rightarrow> store_op list \<Rightarrow> ('w, (store_op \<times> op_result res) list) eff" where
  "run_ops P [] w = ([], w)"
| "run_ops P (x # xs) w =
     (let (r, w) = run_op P x w; (rs, w) = run_ops P xs w in ((x, r) # rs, w))"

fun spec_call :: "norm \<Rightarrow> store_op \<times> op_result res \<Rightarrow> store \<Rightarrow> store" where
  "spec_call N (x, Inl e) s = s"
| "spec_call N (x, Inr r) s = spec_op N x r s"

fun spec_calls :: "norm \<Rightarrow> (store_op \<times> op_result res) list \<Rightarrow> store \<Rightarrow> store" where
  "spec_calls N [] s = s"
| "spec_calls N (c # cs) s = spec_calls N cs (spec_call N c s)"

text \<open>Every call of the sequence is admissible in the store it is made in.\<close>

fun admissible :: "(store \<Rightarrow> store_op \<Rightarrow> bool) \<Rightarrow> norm \<Rightarrow> (store_op \<times> op_result res) list \<Rightarrow> store \<Rightarrow> bool" where
  "admissible adm N [] s = True"
| "admissible adm N (c # cs) s = (adm s (fst c) \<and> admissible adm N cs (spec_call N c s))"

section \<open>The contract\<close>

locale persistence_contract =
  fixes P :: "'w persistence_provider" and view :: "'w \<Rightarrow> store" and inv :: "'w \<Rightarrow> bool"
    and adm :: "store \<Rightarrow> store_op \<Rightarrow> bool" and N :: norm
  assumes step_Ok: "inv w \<Longrightarrow> adm (view w) x \<Longrightarrow> run_op P x w = (Inr r, w') \<Longrightarrow>
      inv w' \<and> spec_result x r (view w) \<and> view w' = spec_op N x r (view w)"
    and step_Err: "inv w \<Longrightarrow> run_op P x w = (Inl e, w') \<Longrightarrow> inv w' \<and> view w' = view w"
    and get: "inv w \<Longrightarrow> get_workflow_instance P i w = (g, w') \<Longrightarrow> w' = w \<and>
      (case st_workflows (view w) i of None \<Rightarrow> g = Inl (WorkflowNotFound i)
       | Some v \<Rightarrow> \<exists>y. g = Inr y \<and> inst_view y = v)"
    and runnable: "inv w \<Longrightarrow> get_runnable_instances P t w = (q, w') \<Longrightarrow> w' = w \<and>
      (\<exists>ids. q = Inr ids \<and> set ids = runnable_ids (view w) t)"
begin

lemma run_op_call:
  assumes "inv w" "adm (view w) x" "run_op P x w = (r, w')"
  shows "inv w' \<and> view w' = spec_call N (x, r) (view w)"
  using assms step_Ok[of w x _ w'] step_Err[of w x _ w'] by (cases r) auto

lemma run_ops_refine:
  "inv w \<Longrightarrow> run_ops P xs w = (cs, w') \<Longrightarrow> admissible adm N cs (view w) \<Longrightarrow>
     inv w' \<and> view w' = spec_calls N cs (view w)"
proof (induction xs arbitrary: w cs)
  case (Cons x xs)
  obtain r w1 where r: "run_op P x w = (r, w1)" by (cases "run_op P x w")
  obtain rs where rs: "run_ops P xs w1 = (rs, w')" "cs = (x, r) # rs"
    using Cons.prems(2) r by (auto split: prod.splits)
  then have "inv w1 \<and> view w1 = spec_call N (x, r) (view w)"
    using Cons.prems r by (intro run_op_call) auto
  with Cons.IH[of w1 rs] rs Cons.prems(3) show ?case by auto
qed auto

lemma get_after_ops:
  assumes "inv w" "run_ops P xs w = (cs, w')" "admissible adm N cs (view w)"
    and "st_workflows (spec_calls N cs (view w)) i = Some v"
  shows "\<exists>x. get_workflow_instance P i w' = (Inr x, w') \<and> inst_view x = v"
  using run_ops_refine[OF assms(1-3)] assms(4) get[of w' i]
  by (cases "get_workflow_instance P i w'") auto

end

section \<open>The in-memory provider\<close>

definition terminated_token :: string where
  "terminated_token = ''__terminated__''"

definition mem_live :: "mem_world \<Rightarrow> string \<rightharpoonup> event_subscription" where
  "mem_live w i =
     (case map_of (mw_subscriptions w) i of
        None \<Rightarrow> None
      | Some s \<Rightarrow> if es_external_token s = Some terminated_token then None else Some s)"

definition mem_view :: "mem_world \<Rightarrow> store" where
  "mem_view w =
     \<lparr>st_workflows = (\<lambda>i. map_option inst_view (map_of (mw_workflows w) i)),
      st_events = map_of (mw_events w), st_subs = mem_live w,
      st_seqs = (\<lambda>d. unwrap_or (map_of (mw_sequences w) d) 0),
      st_commands = (\<lambda>c. (sc_command_name c, sc_data c)) ` set (mw_scheduled_commands w)\<rparr>"

text \<open>The token value that marks a terminated subscription must not come from outside.\<close>

fun mem_admissible :: "store \<Rightarrow> store_op \<Rightarrow> bool" where
  "mem_admissible s (OpPersistSubs x ss) \<longleftrightarrow>
     list_all (\<lambda>y. es_external_token y \<noteq> Some terminated_token) ss"
| "mem_admissible s (OpSubscribe y) \<longleftrightarrow> es_external_token y \<noteq> Some terminated_token"
| "mem_admissible s (OpSetToken i t k e) \<longleftrightarrow> t \<noteq> terminated_token"
| "mem_admissible s (OpClearToken i t) \<longleftrightarrow> t \<noteq> terminated_token"
| "mem_admissible s _ \<longleftrightarrow> True"

lemma mem_persistence_more_simps [simp]:
  "get_runnable_instances mem_persistence = mem_get_runnable_instances"
  "create_event_subscription mem_persistence = mem_create_event_subscription"
  "set_subscription_token mem_persistence = mem_set_subscription_token"
  "clear_subscription_token mem_persistence = mem_clear_subscription_token"
  "mark_event_unprocessed mem_persistence = mem_mark_event_unprocessed"
  "schedule_command mem_persistence = mem_schedule_command"
  by (simp_all add: mem_persistence_def)

lemmas store_simps = put_instance_def put_sub_def alter_sub_def mark_event_def named_def answer_def
  exact_norm_def

text \<open>An association list of entries stored under their own key.\<close>

definition keyed :: "('a \<Rightarrow> 'k) \<Rightarrow> ('k \<times> 'a) list \<Rightarrow> bool" where
  "keyed key m \<longleftrightarrow> distinct (map fst m) \<and> (\<forall>(i, x) \<in> set m. key x = i)"

lemma keyed_update: "keyed key m \<Longrightarrow> key v = k \<Longrightarrow> keyed key (AList.update k v m)"
  using set_alist_update[of k v m] by (auto simp: keyed_def distinct_update)

lemma keyed_map_of: "keyed key m \<Longrightarrow> map_of m i = Some x \<Longrightarrow> key x = i"
  by (auto simp: keyed_def dest!: map_of_SomeD)

lemma keyed_values: "keyed key m \<Longrightarrow> x \<in> snd ` set m \<longleftrightarrow> map_of m (key x) = Some x"
  by (force simp: keyed_def)

lemma mem_invar_keyed:
  "mem_invar w \<longleftrightarrow> keyed wi_id (mw_workflows w) \<and> keyed ev_id (mw_events w) \<and>
     keyed es_id (mw_subscriptions w) \<and> distinct (map fst (mw_sequences w)) \<and> distinct (map fst (mw_queues w))"
  by (simp add: mem_invar_def keyed_def)

lemma answer_Inr [simp]: "answer f (r, w) = (Inr y, w') \<longleftrightarrow> (\<exists>z. r = Inr z \<and> y = f z) \<and> w' = w"
  by (cases r) (auto simp: answer_def)

lemma answer_Inl [simp]: "answer f (r, w) = (Inl e, w') \<longleftrightarrow> r = Inl e \<and> w' = w"
  by (cases r) (auto simp: answer_def)


lemma mem_view_sel [simp]:
  "st_subs (mem_view w) = mem_live w" "st_events (mem_view w) = map_of (mw_events w)"
  "st_seqs (mem_view w) d = unwrap_or (map_of (mw_sequences w) d) 0"
  by (simp_all add: mem_view_def)

lemma mem_view_updates [simp]:
  "mem_view (w\<lparr>mw_drawn := n\<rparr>) = mem_view w"
  "mem_view (w\<lparr>mw_workflows := AList.update i x (mw_workflows w)\<rparr>) = put_instance i x (mem_view w)"
  "mem_view (w\<lparr>mw_events := AList.update i e (mw_events w)\<rparr>) =
     mem_view w\<lparr>st_events := (map_of (mw_events w))(i \<mapsto> e)\<rparr>"
  "mem_view (w\<lparr>mw_sequences := AList.update d c (mw_sequences w)\<rparr>) =
     mem_view w\<lparr>st_seqs := (st_seqs (mem_view w))(d := c)\<rparr>"
  "mem_view (w\<lparr>mw_scheduled_commands := mw_scheduled_commands w @ [k]\<rparr>) =
     mem_view w\<lparr>st_commands := insert (sc_command_name k, sc_data k) (st_commands (mem_view w))\<rparr>"
  by (auto simp: mem_view_def put_instance_def fun_eq_iff update_conv' mem_live_def)

text \<open>Drawing an identifier and then writing is writing and then drawing.\<close>

lemma mem_view_drawn [simp]:
  "mem_view (w\<lparr>mw_drawn := n, mw_workflows := m\<rparr>) = mem_view (w\<lparr>mw_workflows := m\<rparr>)"
  "mem_view (w\<lparr>mw_drawn := n, mw_events := l\<rparr>) = mem_view (w\<lparr>mw_events := l\<rparr>)"
  "mem_view (w\<lparr>mw_drawn := n, mw_subscriptions := k\<rparr>) = mem_view (w\<lparr>mw_subscriptions := k\<rparr>)"
  by (simp_all add: mem_view_def mem_live_def fun_eq_iff)

lemma mem_view_sub:
  "mem_view (w\<lparr>mw_subscriptions := AList.update i s (mw_subscriptions w)\<rparr>) =
     mem_view w\<lparr>st_subs := (st_subs (mem_view w))
       (i := if es_external_token s = Some terminated_token then None else Some s)\<rparr>"
  by (auto simp: mem_view_def fun_eq_iff update_conv' mem_live_def)

lemma mem_view_subs:
  assumes "list_all (\<lambda>y. es_external_token y \<noteq> Some terminated_token) ss"
  shows "mem_view (w\<lparr>mw_subscriptions := fold (\<lambda>s. AList.update (es_id s) s) ss (mw_subscriptions w)\<rparr>)
     = fold put_sub ss (mem_view w)"
  using assms
proof (induction ss arbitrary: w)
  case (Cons s ss)
  then show ?case
    using Cons.IH[of "w\<lparr>mw_subscriptions := AList.update (es_id s) s (mw_subscriptions w)\<rparr>"]
    by (simp add: mem_view_sub put_sub_def)
qed simp

lemma keyed_fold_update: "keyed key m \<Longrightarrow> keyed key (fold (\<lambda>s. AList.update (key s) s) ss m)"
  by (induction ss arbitrary: m) (simp_all add: keyed_update)

lemma mem_get_view:
  "mem_get_workflow_instance i w = (g, w') \<Longrightarrow> w' = w \<and>
     (case st_workflows (mem_view w) i of None \<Rightarrow> g = Inl (WorkflowNotFound i)
      | Some v \<Rightarrow> \<exists>y. g = Inr y \<and> inst_view y = v)"
  by (auto simp: mem_get_workflow_instance_def mem_view_def ok_or_def split: option.splits)

lemma runnable_ids_mem:
  "runnable_ids (mem_view w) t =
     {i. \<exists>x. map_of (mw_workflows w) i = Some x \<and> wi_status x = Runnable \<and>
        (\<exists>ne. wi_next_execution x = Some ne \<and> ne \<le> timestamp_millis t)}"
  by (auto simp: runnable_ids_def mem_view_def inst_view_def)

lemma mem_runnable_view:
  assumes "mem_invar w" and "mem_get_runnable_instances t w = (q, w')"
  shows "w' = w \<and> (\<exists>ids. q = Inr ids \<and> set ids = runnable_ids (mem_view w) t)"
proof -
  let ?p = "\<lambda>x. wi_status x = Runnable \<and>
      unwrap_or (map_option (\<lambda>ne. ne \<le> timestamp_millis t) (wi_next_execution x)) False"
  have k: "keyed wi_id (mw_workflows w)" using assms(1) by (simp add: mem_invar_keyed)
  have p: "?p x \<longleftrightarrow> wi_status x = Runnable \<and>
      (\<exists>ne. wi_next_execution x = Some ne \<and> ne \<le> timestamp_millis t)" for x
    by (cases "wi_next_execution x") auto
  have "set (map wi_id (filter ?p (map snd (mw_workflows w)))) = wi_id ` {x \<in> snd ` set (mw_workflows w). ?p x}"
    by simp
  also have "{x \<in> snd ` set (mw_workflows w). ?p x} = {x. map_of (mw_workflows w) (wi_id x) = Some x \<and> ?p x}"
    by (simp only: keyed_values[OF k])
  also have "wi_id ` \<dots> = runnable_ids (mem_view w) t"
    unfolding runnable_ids_mem p using keyed_map_of[OF k] by blast
  finally show ?thesis
    using assms(2) unfolding mem_get_runnable_instances_def by blast
qed

lemma mem_sub_id: "mem_invar w \<Longrightarrow> map_of (mw_subscriptions w) i = Some y \<Longrightarrow> es_id y = i"
  using keyed_map_of[of es_id "mw_subscriptions w" i y] by (simp add: mem_invar_keyed)

lemma mem_invar_sub:
  "mem_invar w \<Longrightarrow> es_id y = i \<Longrightarrow>
     mem_invar (w\<lparr>mw_subscriptions := AList.update i y (mw_subscriptions w)\<rparr>)"
  by (simp add: mem_invar_keyed keyed_update)

lemma answer_Inr_iff: "answer f y = (Inr r, w') \<longleftrightarrow> (\<exists>z. y = (Inr z, w') \<and> r = f z)"
  by (cases y) auto

lemma mem_mark_step:
  assumes "set_processed b i w = (Inr u, w')" "mem_invar w"
  shows "mem_invar w' \<and> (\<exists>e. map_of (mw_events w) i = Some e) \<and> mem_view w' = mark_event b i (mem_view w)"
proof -
  obtain e where e: "map_of (mw_events w) i = Some e"
    "w' = w\<lparr>mw_events := AList.update i (e\<lparr>ev_is_processed := b\<rparr>) (mw_events w)\<rparr>"
    using assms(1) by (auto simp: set_processed_def split: option.splits)
  have "ev_id e = i" using assms(2) e(1) keyed_map_of[of ev_id "mw_events w" i e] by (simp add: mem_invar_keyed)
  with e assms(2) have "mem_invar w'" by (simp add: mem_invar_keyed keyed_update)
  with e show ?thesis by (simp add: mark_event_def)
qed

lemma mem_step_Ok:
  assumes "mem_invar w" "mem_admissible (mem_view w) x" "run_op mem_persistence x w = (Inr r, w')"
  shows "mem_invar w' \<and> spec_result x r (mem_view w) \<and> mem_view w' = spec_op exact_norm x r (mem_view w)"
proof (cases x)
  case (OpCreate y)
  with assms show ?thesis
    by (auto simp: mem_create_new_workflow_def mem_uuid_def Let_def mem_invar_keyed keyed_update
        exact_norm_def named_def split: if_splits)
next
  case (OpPersist y)
  with assms show ?thesis
    by (simp add: mem_persist_workflow_def mem_invar_keyed keyed_update exact_norm_def)
next
  case (OpPersistSubs y ss)
  with assms show ?thesis
    using mem_view_subs[of ss "w\<lparr>mw_workflows := AList.update (wi_id y) y (mw_workflows w)\<rparr>"]
    by (auto simp: mem_persist_workflow_with_subscriptions_def mem_persist_workflow_def mem_invar_keyed
        keyed_update keyed_fold_update exact_norm_def)
next
  case (OpSequence d)
  with assms show ?thesis
    by (auto simp: mem_next_definition_sequence_def Let_def mem_invar_keyed distinct_update )
next
  case (OpSubscribe y)
  with assms show ?thesis
    by (auto simp: mem_create_event_subscription_def mem_uuid_def Let_def mem_invar_keyed keyed_update
        exact_norm_def mem_view_sub put_sub_def split: if_splits)
next
  case (OpTerminate i)
  then obtain y where y: "map_of (mw_subscriptions w) i = Some y"
    "w' = w\<lparr>mw_subscriptions :=
       AList.update i (y\<lparr>es_external_token := Some terminated_token\<rparr>) (mw_subscriptions w)\<rparr>" "r = RUnit"
    using assms(3) by (auto simp: mem_terminate_subscription_def terminated_token_def split: option.splits)
  then have "mem_invar w'" using assms(1) mem_sub_id[OF assms(1) y(1)] by (simp add: mem_invar_sub)
  with y OpTerminate show ?thesis by (simp add: mem_view_sub)
next
  case (OpSetToken i t k e)
  then obtain y b where y: "map_of (mw_subscriptions w) i = Some y" "r = RBool b" "b = (es_external_token y = None)"
    "w' = (if b then w\<lparr>mw_subscriptions := AList.update i (set_token t k e y) (mw_subscriptions w)\<rparr> else w)"
    using assms(3) by (auto simp: mem_set_subscription_token_def set_token_def split: option.splits if_splits)
  then have "mem_invar w'" using assms(1) mem_sub_id[OF assms(1) y(1)] by (simp add: mem_invar_sub set_token_def)
  with y OpSetToken assms(2) show ?thesis
    by (auto simp: mem_view_sub alter_sub_def exact_norm_def mem_live_def set_token_def)
next
  case (OpClearToken i t)
  then obtain y where y: "map_of (mw_subscriptions w) i = Some y" "r = RUnit" "es_external_token y = Some t"
    "w' = w\<lparr>mw_subscriptions := AList.update i (clear_token y) (mw_subscriptions w)\<rparr>"
    using assms(3) by (auto simp: mem_clear_subscription_token_def clear_token_def split: option.splits if_splits)
  then have "mem_invar w'" using assms(1) mem_sub_id[OF assms(1) y(1)] by (simp add: mem_invar_sub clear_token_def)
  with y OpClearToken assms(2) show ?thesis
    by (auto simp: mem_view_sub alter_sub_def mem_live_def clear_token_def)
next
  case (OpEvent e)
  with assms show ?thesis
    by (auto simp: mem_create_event_def mem_uuid_def Let_def mem_invar_keyed keyed_update
        exact_norm_def  split: if_splits)
next
  case (OpProcessed i)
  with assms show ?thesis by (auto simp: mem_mark_event_processed_def answer_Inr_iff dest!: mem_mark_step)
next
  case (OpUnprocessed i)
  with assms show ?thesis by (auto simp: mem_mark_event_unprocessed_def answer_Inr_iff dest!: mem_mark_step)
next
  case (OpSchedule c)
  with assms show ?thesis
    by (auto simp: mem_schedule_command_def mem_invar_keyed )
qed

lemma mem_never_fails [simp]:
  "mem_create_new_workflow x w \<noteq> (Inl e, w')" "mem_persist_workflow x w \<noteq> (Inl e, w')"
  "mem_persist_workflow_with_subscriptions x ss w \<noteq> (Inl e, w')"
  "mem_next_definition_sequence d w \<noteq> (Inl e, w')" "mem_create_event_subscription s w \<noteq> (Inl e, w')"
  "mem_create_event ev w \<noteq> (Inl e, w')" "mem_schedule_command c w \<noteq> (Inl e, w')"
  by (simp_all add: mem_create_new_workflow_def mem_persist_workflow_def Let_def mem_schedule_command_def
      mem_persist_workflow_with_subscriptions_def mem_next_definition_sequence_def
      mem_create_event_subscription_def mem_create_event_def split: prod.splits)

lemma mem_fails_unchanged:
  "mem_terminate_subscription i w = (Inl e, w') \<Longrightarrow> w' = w"
  "mem_set_subscription_token i t k d w = (Inl e, w') \<Longrightarrow> w' = w"
  "mem_clear_subscription_token i t w = (Inl e, w') \<Longrightarrow> w' = w"
  "mem_mark_event_processed i w = (Inl e, w') \<Longrightarrow> w' = w"
  "mem_mark_event_unprocessed i w = (Inl e, w') \<Longrightarrow> w' = w"
  by (auto simp: mem_terminate_subscription_def mem_set_subscription_token_def set_processed_def
      mem_clear_subscription_token_def mem_mark_event_processed_def mem_mark_event_unprocessed_def
      split: option.splits if_splits)

lemma answer_Inl_iff: "answer f y = (Inl e, w') \<longleftrightarrow> y = (Inl e, w')"
  by (cases y) auto

lemma mem_step_Err: "run_op mem_persistence x w = (Inl e, w') \<Longrightarrow> w' = w"
  by (cases x) (simp_all add: answer_Inl_iff mem_fails_unchanged)

interpretation mem_store: persistence_contract mem_persistence mem_view mem_invar mem_admissible exact_norm
proof (unfold_locales, goal_cases)
  case 1
  then show ?case by (rule mem_step_Ok)
next
  case 2
  then show ?case using mem_step_Err by blast
next
  case 3
  then show ?case by (auto dest!: mem_get_view)
next
  case 4
  then show ?case by (auto dest!: mem_runnable_view)
qed

end
