(* ===== verification/Sqlite.thy ===== *)
theory Sqlite
  imports Store
begin

text \<open>
  The SQLite persistence provider of \<open>wfe-sqlite/src/lib.rs\<close>. The database is a record of its
  seven tables, each the list of its rows in insertion order; a row has the columns of the
  \<open>CREATE TABLE\<close> statement, \<open>TEXT\<close> as strings, \<open>INTEGER\<close> as integers (or, for the three
  flags sqlx binds as \<open>bool\<close>, as truth values). The constraints the statements declare (primary
  keys, \<open>UNIQUE\<close>, the foreign key of the pointers) are checked where the inserts and updates
  would violate them, and a transaction that fails leaves the tables as they were. What the code
  calls and the repository does not contain is a parameter: the JSON text of \<open>serde_json\<close>, the
  RFC 3339 text of \<open>chrono\<close>, the messages of their errors and of \<open>sqlx\<close>, and the order in
  which the rows of an answer come.
\<close>

section \<open>Parameters\<close>

datatype db_error = UniqueViolation string | ForeignKeyViolation

record text_codec =
  json_to_text :: "json \<Rightarrow> string"
  json_of_text :: "string \<Rightarrow> string + json"
  strings_to_text :: "string list \<Rightarrow> string"
  strings_of_text :: "string \<Rightarrow> string + string list"
  attrs_to_text :: "(string \<times> json) list \<Rightarrow> string"
  attrs_of_text :: "string \<Rightarrow> string + (string \<times> json) list"
  dt_to_rfc3339 :: "date_time \<Rightarrow> string"
  dt_of_text :: "string \<Rightarrow> string + date_time"
  variant_error :: "string \<Rightarrow> string"
  sqlx_text :: "db_error \<Rightarrow> string"
  answer_order :: row_order

section \<open>Tables\<close>

record workflow_row =
  wr_id :: string
  wr_name :: string
  wr_root_workflow_id :: "string option"
  wr_definition_id :: string
  wr_version :: int
  wr_description :: "string option"
  wr_reference :: "string option"
  wr_status :: string
  wr_data :: string
  wr_next_execution :: "int option"
  wr_create_time :: string
  wr_complete_time :: "string option"

record pointer_row =
  pr_id :: string
  pr_workflow_id :: string
  pr_step_id :: int
  pr_active :: bool
  pr_status :: string
  pr_sleep_until :: "string option"
  pr_persistence_data :: "string option"
  pr_start_time :: "string option"
  pr_end_time :: "string option"
  pr_event_name :: "string option"
  pr_event_key :: "string option"
  pr_event_published :: bool
  pr_event_data :: "string option"
  pr_step_name :: "string option"
  pr_retry_count :: int
  pr_children :: string
  pr_context_item :: "string option"
  pr_predecessor_id :: "string option"
  pr_outcome :: "string option"
  pr_scope :: string
  pr_extension_attributes :: string

record event_row =
  vr_id :: string
  vr_event_name :: string
  vr_event_key :: string
  vr_event_data :: string
  vr_event_time :: string
  vr_is_processed :: bool

record subscription_row =
  sr_id :: string
  sr_workflow_id :: string
  sr_step_id :: int
  sr_execution_pointer_id :: string
  sr_event_name :: string
  sr_event_key :: string
  sr_subscribe_as_of :: string
  sr_subscription_data :: "string option"
  sr_external_token :: "string option"
  sr_external_worker_id :: "string option"
  sr_external_token_expiry :: "string option"
  sr_terminated :: bool

text \<open>The message of an error is kept as the error (see the data model).\<close>

record error_row =
  xr_id :: nat
  xr_error_time :: string
  xr_workflow_id :: string
  xr_execution_pointer_id :: string
  xr_message :: wfe_error

record command_row =
  cr_id :: nat
  cr_command_name :: string
  cr_data :: string
  cr_execute_time :: int

text \<open>
  The database, the two \<open>AUTOINCREMENT\<close> counters and the source of UUIDs. The counter column
  \<open>next_num\<close> is an integer without the bound of \<open>2 ^ 63\<close> at which SQLite's addition stops
  being exact.
\<close>

record sql_world =
  sq_workflows :: "workflow_row list"
  sq_definition_sequences :: "(string \<times> int) list"
  sq_execution_pointers :: "pointer_row list"
  sq_events :: "event_row list"
  sq_event_subscriptions :: "subscription_row list"
  sq_execution_errors :: "error_row list"
  sq_scheduled_commands :: "command_row list"
  sq_error_seq :: nat
  sq_command_seq :: nat
  sq_uuids :: "nat \<Rightarrow> string"
  sq_drawn :: nat

definition create_tables :: "(nat \<Rightarrow> string) \<Rightarrow> sql_world" where
  "create_tables uuids =
     \<lparr>sq_workflows = [], sq_definition_sequences = [], sq_execution_pointers = [], sq_events = [],
      sq_event_subscriptions = [], sq_execution_errors = [], sq_scheduled_commands = [],
      sq_error_seq = 0, sq_command_seq = 0, sq_uuids = uuids, sq_drawn = 0\<rparr>"

definition sql_uuid :: "(sql_world, string) eff" where
  "sql_uuid w = (sq_uuids w (sq_drawn w), w\<lparr>sq_drawn := Suc (sq_drawn w)\<rparr>)"

text \<open>A transaction commits the tables it leaves, or rolls back.\<close>

definition transaction :: "(sql_world \<Rightarrow> sql_world res) \<Rightarrow> 'a \<Rightarrow> (sql_world, 'a res) eff" where
  "transaction f x w = (case f w of Inl e \<Rightarrow> (Inl e, w) | Inr w' \<Rightarrow> (Inr x, w'))"

section \<open>Rows\<close>

definition to_persistence_err :: "text_codec \<Rightarrow> db_error \<Rightarrow> wfe_error" where
  "to_persistence_err C e = Persistence (sqlx_text C e)"

definition opt_dt_to_string :: "text_codec \<Rightarrow> date_time option \<Rightarrow> string option" where
  "opt_dt_to_string C = map_option (dt_to_rfc3339 C)"

definition string_to_dt :: "text_codec \<Rightarrow> string \<Rightarrow> date_time res" where
  "string_to_dt C s = map_persistence (''Failed to parse datetime '' @ quoted s @ '': '') (dt_of_text C s)"

definition string_to_opt_dt :: "text_codec \<Rightarrow> string option \<Rightarrow> date_time option res" where
  "string_to_opt_dt C s = transpose_map (string_to_dt C) s"

definition json_column :: "text_codec \<Rightarrow> string \<Rightarrow> string option \<Rightarrow> json option res" where
  "json_column C name s =
     map_persistence (''Failed to deserialize '' @ name @ '': '') (transpose_map (json_of_text C) s)"

definition row_to_workflow :: "text_codec \<Rightarrow> workflow_row \<Rightarrow> execution_pointer list \<Rightarrow> workflow_instance res" where
  "row_to_workflow C row pointers =
     res_bind (ok_or (Persistence (''Failed to deserialize WorkflowStatus: '' @ variant_error C (wr_status row)))
       (str_to_status (wr_status row))) (\<lambda>status.
     res_bind (map_persistence ''Failed to deserialize data: '' (json_of_text C (wr_data row))) (\<lambda>data.
     res_bind (string_to_dt C (wr_create_time row)) (\<lambda>create_time.
     res_bind (string_to_opt_dt C (wr_complete_time row)) (\<lambda>complete_time.
     Inr \<lparr>wi_id = wr_id row, wi_name = wr_name row, wi_root_workflow_id = wr_root_workflow_id row,
          wi_workflow_definition_id = wr_definition_id row, wi_version = i64_as_u32 (wr_version row),
          wi_description = wr_description row, wi_reference = wr_reference row,
          wi_execution_pointers = pointers, wi_next_execution = wr_next_execution row,
          wi_status = status, wi_data = data, wi_create_time = create_time,
          wi_complete_time = complete_time\<rparr>))))"

definition row_to_pointer :: "text_codec \<Rightarrow> pointer_row \<Rightarrow> execution_pointer res" where
  "row_to_pointer C row =
     res_bind (ok_or (Persistence (''Failed to deserialize PointerStatus: '' @ variant_error C (pr_status row)))
       (str_to_pointer_status (pr_status row))) (\<lambda>status.
     res_bind (json_column C ''persistence_data'' (pr_persistence_data row)) (\<lambda>persistence_data.
     res_bind (json_column C ''event_data'' (pr_event_data row)) (\<lambda>event_data.
     res_bind (json_column C ''context_item'' (pr_context_item row)) (\<lambda>context_item.
     res_bind (json_column C ''outcome'' (pr_outcome row)) (\<lambda>outcome.
     res_bind (map_persistence ''Failed to deserialize children: '' (strings_of_text C (pr_children row))) (\<lambda>children.
     res_bind (map_persistence ''Failed to deserialize scope: '' (strings_of_text C (pr_scope row))) (\<lambda>scope.
     res_bind (map_persistence ''Failed to deserialize extension_attributes: ''
       (attrs_of_text C (pr_extension_attributes row))) (\<lambda>extension_attributes.
     res_bind (string_to_opt_dt C (pr_sleep_until row)) (\<lambda>sleep_until.
     res_bind (string_to_opt_dt C (pr_start_time row)) (\<lambda>start_time.
     res_bind (string_to_opt_dt C (pr_end_time row)) (\<lambda>end_time.
     Inr \<lparr>ep_id = pr_id row, ep_step_id = i64_as_usize (pr_step_id row), ep_active = pr_active row,
          ep_status = status, ep_sleep_until = sleep_until, ep_persistence_data = persistence_data,
          ep_start_time = start_time, ep_end_time = end_time, ep_event_name = pr_event_name row,
          ep_event_key = pr_event_key row, ep_event_published = pr_event_published row,
          ep_event_data = event_data, ep_step_name = pr_step_name row,
          ep_retry_count = i64_as_u32 (pr_retry_count row), ep_children = children,
          ep_context_item = context_item, ep_predecessor_id = pr_predecessor_id row,
          ep_outcome = outcome, ep_scope = scope,
          ep_extension_attributes = extension_attributes\<rparr>)))))))))))"

definition row_to_event :: "text_codec \<Rightarrow> event_row \<Rightarrow> event res" where
  "row_to_event C row =
     res_bind (map_persistence ''Failed to deserialize event_data: '' (json_of_text C (vr_event_data row))) (\<lambda>data.
     res_bind (string_to_dt C (vr_event_time row)) (\<lambda>event_time.
     Inr \<lparr>ev_id = vr_id row, ev_name = vr_event_name row, ev_key = vr_event_key row, ev_data = data,
          ev_time = event_time, ev_is_processed = vr_is_processed row\<rparr>))"

definition row_to_subscription :: "text_codec \<Rightarrow> subscription_row \<Rightarrow> event_subscription res" where
  "row_to_subscription C row =
     res_bind (json_column C ''subscription_data'' (sr_subscription_data row)) (\<lambda>subscription_data.
     res_bind (string_to_dt C (sr_subscribe_as_of row)) (\<lambda>subscribe_as_of.
     res_bind (string_to_opt_dt C (sr_external_token_expiry row)) (\<lambda>external_token_expiry.
     Inr \<lparr>es_id = sr_id row, es_workflow_id = sr_workflow_id row,
          es_step_id = i64_as_usize (sr_step_id row),
          es_execution_pointer_id = sr_execution_pointer_id row, es_event_name = sr_event_name row,
          es_event_key = sr_event_key row, es_subscribe_as_of = subscribe_as_of,
          es_subscription_data = subscription_data, es_external_token = sr_external_token row,
          es_external_worker_id = sr_external_worker_id row,
          es_external_token_expiry = external_token_expiry\<rparr>)))"

section \<open>Inserts\<close>

definition pointer_to_row :: "text_codec \<Rightarrow> string \<Rightarrow> execution_pointer \<Rightarrow> pointer_row" where
  "pointer_to_row C workflow_id p =
     \<lparr>pr_id = ep_id p, pr_workflow_id = workflow_id, pr_step_id = usize_as_i64 (ep_step_id p),
      pr_active = ep_active p, pr_status = pointer_status_to_str (ep_status p),
      pr_sleep_until = opt_dt_to_string C (ep_sleep_until p),
      pr_persistence_data = map_option (json_to_text C) (ep_persistence_data p),
      pr_start_time = opt_dt_to_string C (ep_start_time p),
      pr_end_time = opt_dt_to_string C (ep_end_time p), pr_event_name = ep_event_name p,
      pr_event_key = ep_event_key p, pr_event_published = ep_event_published p,
      pr_event_data = map_option (json_to_text C) (ep_event_data p), pr_step_name = ep_step_name p,
      pr_retry_count = u32_as_i64 (ep_retry_count p), pr_children = strings_to_text C (ep_children p),
      pr_context_item = map_option (json_to_text C) (ep_context_item p),
      pr_predecessor_id = ep_predecessor_id p,
      pr_outcome = map_option (json_to_text C) (ep_outcome p),
      pr_scope = strings_to_text C (ep_scope p),
      pr_extension_attributes = attrs_to_text C (ep_extension_attributes p)\<rparr>"

definition insert_pointer :: "text_codec \<Rightarrow> string \<Rightarrow> execution_pointer \<Rightarrow> sql_world \<Rightarrow> sql_world res" where
  "insert_pointer C workflow_id p w =
     (if lookup pr_id (ep_id p) (sq_execution_pointers w) \<noteq> None
      then Inl (to_persistence_err C (UniqueViolation ''execution_pointers.id''))
      else if lookup wr_id workflow_id (sq_workflows w) = None
      then Inl (to_persistence_err C ForeignKeyViolation)
      else Inr (w\<lparr>sq_execution_pointers := sq_execution_pointers w @ [pointer_to_row C workflow_id p]\<rparr>))"

definition subscription_to_row :: "text_codec \<Rightarrow> event_subscription \<Rightarrow> subscription_row" where
  "subscription_to_row C s =
     \<lparr>sr_id = es_id s, sr_workflow_id = es_workflow_id s, sr_step_id = usize_as_i64 (es_step_id s),
      sr_execution_pointer_id = es_execution_pointer_id s, sr_event_name = es_event_name s,
      sr_event_key = es_event_key s, sr_subscribe_as_of = dt_to_rfc3339 C (es_subscribe_as_of s),
      sr_subscription_data = map_option (json_to_text C) (es_subscription_data s),
      sr_external_token = es_external_token s, sr_external_worker_id = es_external_worker_id s,
      sr_external_token_expiry = opt_dt_to_string C (es_external_token_expiry s),
      sr_terminated = False\<rparr>"

definition insert_subscription :: "text_codec \<Rightarrow> event_subscription \<Rightarrow> sql_world \<Rightarrow> sql_world res" where
  "insert_subscription C s w =
     (if lookup sr_id (es_id s) (sq_event_subscriptions w) \<noteq> None
      then Inl (to_persistence_err C (UniqueViolation ''event_subscriptions.id''))
      else Inr (w\<lparr>sq_event_subscriptions := sq_event_subscriptions w @ [subscription_to_row C s]\<rparr>))"

section \<open>Workflow repository\<close>

definition workflow_to_row :: "text_codec \<Rightarrow> string \<Rightarrow> string \<Rightarrow> workflow_instance \<Rightarrow> workflow_row" where
  "workflow_to_row C i name inst =
     \<lparr>wr_id = i, wr_name = name, wr_root_workflow_id = wi_root_workflow_id inst,
      wr_definition_id = wi_workflow_definition_id inst, wr_version = u32_as_i64 (wi_version inst),
      wr_description = wi_description inst, wr_reference = wi_reference inst,
      wr_status = status_to_str (wi_status inst), wr_data = json_to_text C (wi_data inst),
      wr_next_execution = wi_next_execution inst,
      wr_create_time = dt_to_rfc3339 C (wi_create_time inst),
      wr_complete_time = opt_dt_to_string C (wi_complete_time inst)\<rparr>"

definition insert_workflow :: "text_codec \<Rightarrow> workflow_row \<Rightarrow> sql_world \<Rightarrow> sql_world res" where
  "insert_workflow C row w =
     (if lookup wr_id (wr_id row) (sq_workflows w) \<noteq> None
      then Inl (to_persistence_err C (UniqueViolation ''workflows.id''))
      else if lookup wr_name (wr_name row) (sq_workflows w) \<noteq> None
      then Inl (to_persistence_err C (UniqueViolation ''workflows.name''))
      else Inr (w\<lparr>sq_workflows := sq_workflows w @ [row]\<rparr>))"

definition sql_create_new_workflow :: "text_codec \<Rightarrow> workflow_instance \<Rightarrow> (sql_world, string res) eff" where
  "sql_create_new_workflow C inst w =
     (let (i, w) = (if wi_id inst = [] then sql_uuid w else (wi_id inst, w));
          name = (if wi_name inst = [] then i else wi_name inst)
      in transaction (\<lambda>w.
           res_bind (insert_workflow C (workflow_to_row C i name inst) w)
             (try_fold (insert_pointer C i) (wi_execution_pointers inst))) i w)"

text \<open>The \<open>UPDATE\<close>: every column but \<open>id\<close> and \<open>create_time\<close>; no error when no row matches.\<close>

definition set_workflow_columns :: "text_codec \<Rightarrow> workflow_instance \<Rightarrow> workflow_row \<Rightarrow> workflow_row" where
  "set_workflow_columns C inst row =
     row\<lparr>wr_name := wi_name inst, wr_root_workflow_id := wi_root_workflow_id inst,
         wr_definition_id := wi_workflow_definition_id inst, wr_version := u32_as_i64 (wi_version inst),
         wr_description := wi_description inst, wr_reference := wi_reference inst,
         wr_status := status_to_str (wi_status inst), wr_data := json_to_text C (wi_data inst),
         wr_next_execution := wi_next_execution inst,
         wr_complete_time := opt_dt_to_string C (wi_complete_time inst)\<rparr>"

definition update_workflow :: "text_codec \<Rightarrow> workflow_instance \<Rightarrow> sql_world \<Rightarrow> sql_world res" where
  "update_workflow C inst w =
     (if lookup wr_id (wi_id inst) (sq_workflows w) \<noteq> None \<and>
         list_ex (\<lambda>r. wr_name r = wi_name inst \<and> wr_id r \<noteq> wi_id inst) (sq_workflows w)
      then Inl (to_persistence_err C (UniqueViolation ''workflows.name''))
      else Inr (w\<lparr>sq_workflows :=
             update_where (\<lambda>r. wr_id r = wi_id inst) (set_workflow_columns C inst) (sq_workflows w)\<rparr>))"

definition delete_pointers :: "string \<Rightarrow> sql_world \<Rightarrow> sql_world" where
  "delete_pointers i w =
     w\<lparr>sq_execution_pointers := delete_where (\<lambda>r. pr_workflow_id r = i) (sq_execution_pointers w)\<rparr>"

definition write_instance :: "text_codec \<Rightarrow> workflow_instance \<Rightarrow> sql_world \<Rightarrow> sql_world res" where
  "write_instance C inst w =
     res_bind (update_workflow C inst w) (\<lambda>w.
       try_fold (insert_pointer C (wi_id inst)) (wi_execution_pointers inst)
         (delete_pointers (wi_id inst) w))"

definition sql_persist_workflow :: "text_codec \<Rightarrow> workflow_instance \<Rightarrow> (sql_world, unit res) eff" where
  "sql_persist_workflow C inst w = transaction (write_instance C inst) () w"

definition sql_persist_workflow_with_subscriptions ::
  "text_codec \<Rightarrow> workflow_instance \<Rightarrow> event_subscription list \<Rightarrow> (sql_world, unit res) eff" where
  "sql_persist_workflow_with_subscriptions C inst subs w =
     transaction (\<lambda>w. res_bind (write_instance C inst w) (try_fold (insert_subscription C) subs)) () w"

definition sql_get_runnable_instances :: "text_codec \<Rightarrow> date_time \<Rightarrow> (sql_world, string list res) eff" where
  "sql_get_runnable_instances C as_at w =
     (Inr (map wr_id (select_where (answer_order C) ''runnable_instances''
        (\<lambda>r. wr_status r = ''Runnable'' \<and>
           (case wr_next_execution r of None \<Rightarrow> False | Some ne \<Rightarrow> ne \<le> timestamp_millis as_at))
        (sq_workflows w))), w)"

definition sql_get_workflow_instance :: "text_codec \<Rightarrow> string \<Rightarrow> (sql_world, workflow_instance res) eff" where
  "sql_get_workflow_instance C i w =
     (res_bind (ok_or (WorkflowNotFound i)
        (first_row (select_where (answer_order C) ''workflow'' (\<lambda>r. wr_id r = i) (sq_workflows w)))) (\<lambda>row.
      res_bind (try_map (row_to_pointer C)
        (select_where (answer_order C) ''pointers'' (\<lambda>r. pr_workflow_id r = i) (sq_execution_pointers w)))
        (row_to_workflow C row)), w)"

definition sql_get_workflow_instance_by_name ::
  "text_codec \<Rightarrow> string \<Rightarrow> (sql_world, workflow_instance res) eff" where
  "sql_get_workflow_instance_by_name C name w =
     (case first_row (select_where (answer_order C) ''by_name'' (\<lambda>r. wr_name r = name) (sq_workflows w)) of
        None \<Rightarrow> (Inl (WorkflowNotFound name), w)
      | Some row \<Rightarrow> sql_get_workflow_instance C (wr_id row) w)"

definition sql_next_definition_sequence :: "string \<Rightarrow> (sql_world, u64 res) eff" where
  "sql_next_definition_sequence d w =
     (let n = (case map_of (sq_definition_sequences w) d of None \<Rightarrow> 1 | Some k \<Rightarrow> k + 1)
      in (Inr (word_of_int n), w\<lparr>sq_definition_sequences := AList.update d n (sq_definition_sequences w)\<rparr>))"

fun collect_instances :: "(string \<Rightarrow> workflow_instance res) \<Rightarrow> string list \<Rightarrow> workflow_instance list res" where
  "collect_instances g [] = Inr []"
| "collect_instances g (i # is) =
     (case g i of
        Inr x \<Rightarrow> map_sum id (Cons x) (collect_instances g is)
      | Inl (WorkflowNotFound _) \<Rightarrow> collect_instances g is
      | Inl e \<Rightarrow> Inl e)"

definition sql_get_workflow_instances ::
  "text_codec \<Rightarrow> string list \<Rightarrow> (sql_world, workflow_instance list res) eff" where
  "sql_get_workflow_instances C ids w =
     (collect_instances (\<lambda>i. fst (sql_get_workflow_instance C i w)) ids, w)"

section \<open>Subscription repository\<close>

definition sql_create_event_subscription :: "text_codec \<Rightarrow> event_subscription \<Rightarrow> (sql_world, string res) eff" where
  "sql_create_event_subscription C sub w =
     (let (i, w) = (if es_id sub = [] then sql_uuid w else (es_id sub, w))
      in transaction (insert_subscription C (sub\<lparr>es_id := i\<rparr>)) i w)"

definition sql_get_subscriptions ::
  "text_codec \<Rightarrow> string \<Rightarrow> string \<Rightarrow> date_time \<Rightarrow> (sql_world, event_subscription list res) eff" where
  "sql_get_subscriptions C n k as_of w =
     (try_map (row_to_subscription C)
        (select_where (answer_order C) ''subscriptions''
          (\<lambda>r. sr_event_name r = n \<and> sr_event_key r = k \<and> sr_subscribe_as_of r \<le> dt_to_rfc3339 C as_of \<and>
             \<not> sr_terminated r)
          (sq_event_subscriptions w)), w)"

text \<open>The statements that change the row with a given id and report whether there was one.\<close>

definition update_subscription ::
  "(subscription_row \<Rightarrow> bool) \<Rightarrow> (subscription_row \<Rightarrow> subscription_row) \<Rightarrow> sql_world \<Rightarrow> bool \<times> sql_world" where
  "update_subscription p f w =
     (list_ex p (sq_event_subscriptions w),
      w\<lparr>sq_event_subscriptions := update_where p f (sq_event_subscriptions w)\<rparr>)"

definition sql_terminate_subscription :: "string \<Rightarrow> (sql_world, unit res) eff" where
  "sql_terminate_subscription i w =
     (let (hit, w) = update_subscription (\<lambda>r. sr_id r = i) (\<lambda>r. r\<lparr>sr_terminated := True\<rparr>) w
      in (if hit then Inr () else Inl (SubscriptionNotFound i), w))"

definition sql_get_subscription :: "text_codec \<Rightarrow> string \<Rightarrow> (sql_world, event_subscription res) eff" where
  "sql_get_subscription C i w =
     (res_bind (ok_or (SubscriptionNotFound i)
        (first_row (select_where (answer_order C) ''subscription'' (\<lambda>r. sr_id r = i) (sq_event_subscriptions w))))
        (row_to_subscription C), w)"

definition sql_get_first_open_subscription ::
  "text_codec \<Rightarrow> string \<Rightarrow> string \<Rightarrow> date_time \<Rightarrow> (sql_world, event_subscription option res) eff" where
  "sql_get_first_open_subscription C n k as_of w =
     (transpose_map (row_to_subscription C)
        (first_row (select_where (answer_order C) ''open_subscription''
          (\<lambda>r. sr_event_name r = n \<and> sr_event_key r = k \<and> sr_subscribe_as_of r \<le> dt_to_rfc3339 C as_of \<and>
             \<not> sr_terminated r \<and> sr_external_token r = None)
          (sq_event_subscriptions w))), w)"

definition sql_set_subscription_token ::
  "text_codec \<Rightarrow> string \<Rightarrow> string \<Rightarrow> string \<Rightarrow> date_time \<Rightarrow> (sql_world, bool res) eff" where
  "sql_set_subscription_token C i token worker_id expiry w =
     (let (hit, w) = update_subscription (\<lambda>r. sr_id r = i \<and> sr_external_token r = None)
            (\<lambda>r. r\<lparr>sr_external_token := Some token, sr_external_worker_id := Some worker_id,
                   sr_external_token_expiry := Some (dt_to_rfc3339 C expiry)\<rparr>) w
      in (if hit then Inr True
          else if list_ex (\<lambda>r. sr_id r = i) (sq_event_subscriptions w) then Inr False
          else Inl (SubscriptionNotFound i), w))"

definition sql_clear_subscription_token :: "string \<Rightarrow> string \<Rightarrow> (sql_world, unit res) eff" where
  "sql_clear_subscription_token i token w =
     (let (hit, w) = update_subscription (\<lambda>r. sr_id r = i \<and> sr_external_token r = Some token)
            (\<lambda>r. r\<lparr>sr_external_token := None, sr_external_worker_id := None,
                   sr_external_token_expiry := None\<rparr>) w
      in (if hit then Inr () else Inl (SubscriptionNotFound i), w))"

section \<open>Event repository\<close>

definition event_to_row :: "text_codec \<Rightarrow> string \<Rightarrow> event \<Rightarrow> event_row" where
  "event_to_row C i ev =
     \<lparr>vr_id = i, vr_event_name = ev_name ev, vr_event_key = ev_key ev,
      vr_event_data = json_to_text C (ev_data ev), vr_event_time = dt_to_rfc3339 C (ev_time ev),
      vr_is_processed = ev_is_processed ev\<rparr>"

definition sql_create_event :: "text_codec \<Rightarrow> event \<Rightarrow> (sql_world, string res) eff" where
  "sql_create_event C ev w =
     (let (i, w) = (if ev_id ev = [] then sql_uuid w else (ev_id ev, w))
      in if lookup vr_id i (sq_events w) \<noteq> None
         then (Inl (to_persistence_err C (UniqueViolation ''events.id'')), w)
         else (Inr i, w\<lparr>sq_events := sq_events w @ [event_to_row C i ev]\<rparr>))"

definition sql_get_event :: "text_codec \<Rightarrow> string \<Rightarrow> (sql_world, event res) eff" where
  "sql_get_event C i w =
     (res_bind (ok_or (EventNotFound i)
        (first_row (select_where (answer_order C) ''event'' (\<lambda>r. vr_id r = i) (sq_events w))))
        (row_to_event C), w)"

definition sql_get_runnable_events :: "text_codec \<Rightarrow> date_time \<Rightarrow> (sql_world, string list res) eff" where
  "sql_get_runnable_events C as_at w =
     (Inr (map vr_id (select_where (answer_order C) ''runnable_events''
        (\<lambda>r. \<not> vr_is_processed r \<and> vr_event_time r \<le> dt_to_rfc3339 C as_at) (sq_events w))), w)"

definition sql_get_events :: "text_codec \<Rightarrow> string \<Rightarrow> string \<Rightarrow> date_time \<Rightarrow> (sql_world, string list res) eff" where
  "sql_get_events C n k as_of w =
     (Inr (map vr_id (select_where (answer_order C) ''events''
        (\<lambda>r. vr_event_name r = n \<and> vr_event_key r = k \<and> vr_event_time r \<le> dt_to_rfc3339 C as_of)
        (sq_events w))), w)"

definition sql_set_processed :: "bool \<Rightarrow> string \<Rightarrow> (sql_world, unit res) eff" where
  "sql_set_processed b i w =
     (let hit = list_ex (\<lambda>r. vr_id r = i) (sq_events w);
          w = w\<lparr>sq_events := update_where (\<lambda>r. vr_id r = i) (\<lambda>r. r\<lparr>vr_is_processed := b\<rparr>) (sq_events w)\<rparr>
      in (if hit then Inr () else Inl (EventNotFound i), w))"

definition sql_mark_event_processed :: "string \<Rightarrow> (sql_world, unit res) eff" where
  "sql_mark_event_processed i w = sql_set_processed True i w"

definition sql_mark_event_unprocessed :: "string \<Rightarrow> (sql_world, unit res) eff" where
  "sql_mark_event_unprocessed i w = sql_set_processed False i w"

section \<open>Scheduled commands and errors\<close>

text \<open>\<open>INSERT OR IGNORE\<close>: a command that is already pending keeps its row, time included.\<close>

definition sql_schedule_command :: "scheduled_command \<Rightarrow> (sql_world, unit res) eff" where
  "sql_schedule_command c w =
     (let name = command_name_to_str (sc_command_name c) in
      if list_ex (\<lambda>r. cr_command_name r = name \<and> cr_data r = sc_data c) (sq_scheduled_commands w)
      then (Inr (), w)
      else (Inr (), w\<lparr>sq_command_seq := Suc (sq_command_seq w),
              sq_scheduled_commands := sq_scheduled_commands w @
                [\<lparr>cr_id = Suc (sq_command_seq w), cr_command_name = name, cr_data = sc_data c,
                  cr_execute_time = sc_execute_time c\<rparr>]\<rparr>))"

definition row_to_command :: "text_codec \<Rightarrow> command_row \<Rightarrow> (nat \<times> scheduled_command) res" where
  "row_to_command C row =
     res_bind (ok_or (Persistence (''Failed to deserialize CommandName: '' @ variant_error C (cr_command_name row)))
       (str_to_command_name (cr_command_name row))) (\<lambda>name.
     Inr (cr_id row, \<lparr>sc_command_name = name, sc_data = cr_data row, sc_execute_time = cr_execute_time row\<rparr>))"

fun handle_commands :: "(scheduled_command \<Rightarrow> (sql_world, unit res) eff) \<Rightarrow> (nat \<times> scheduled_command) list \<Rightarrow>
    (sql_world, unit res) eff" where
  "handle_commands handler [] w = (Inr (), w)"
| "handle_commands handler ((db_id, cmd) # cs) w =
     (case handler cmd w of
        (Inl e, w) \<Rightarrow> (Inl e, w)
      | (Inr _, w) \<Rightarrow>
          handle_commands handler cs
            (w\<lparr>sq_scheduled_commands := delete_where (\<lambda>r. cr_id r = db_id) (sq_scheduled_commands w)\<rparr>))"

definition sql_process_commands ::
  "text_codec \<Rightarrow> date_time \<Rightarrow> (scheduled_command \<Rightarrow> (sql_world, unit res) eff) \<Rightarrow> (sql_world, unit res) eff" where
  "sql_process_commands C as_of handler w =
     (case try_map (row_to_command C) (select_where (answer_order C) ''due_commands''
        (\<lambda>r. cr_execute_time r \<le> timestamp_millis as_of) (sq_scheduled_commands w)) of
        Inl e \<Rightarrow> (Inl e, w)
      | Inr commands \<Rightarrow> handle_commands handler commands w)"

definition insert_error :: "text_codec \<Rightarrow> execution_error \<Rightarrow> sql_world \<Rightarrow> sql_world" where
  "insert_error C e w =
     w\<lparr>sq_error_seq := Suc (sq_error_seq w),
       sq_execution_errors := sq_execution_errors w @
         [\<lparr>xr_id = Suc (sq_error_seq w), xr_error_time = dt_to_rfc3339 C (xe_error_time e),
           xr_workflow_id = xe_workflow_id e, xr_execution_pointer_id = xe_execution_pointer_id e,
           xr_message = xe_message e\<rparr>]\<rparr>"

definition sql_persist_errors :: "text_codec \<Rightarrow> execution_error list \<Rightarrow> (sql_world, unit res) eff" where
  "sql_persist_errors C errors w = (Inr (), fold (insert_error C) errors w)"

definition sqlite_persistence :: "text_codec \<Rightarrow> sql_world persistence_provider" where
  "sqlite_persistence C =
     \<lparr>create_new_workflow = sql_create_new_workflow C, persist_workflow = sql_persist_workflow C,
      persist_workflow_with_subscriptions = sql_persist_workflow_with_subscriptions C,
      get_runnable_instances = sql_get_runnable_instances C,
      get_workflow_instance = sql_get_workflow_instance C,
      get_workflow_instance_by_name = sql_get_workflow_instance_by_name C,
      next_definition_sequence = sql_next_definition_sequence,
      get_workflow_instances = sql_get_workflow_instances C,
      create_event_subscription = sql_create_event_subscription C,
      get_subscriptions = sql_get_subscriptions C,
      terminate_subscription = sql_terminate_subscription,
      get_subscription = sql_get_subscription C,
      get_first_open_subscription = sql_get_first_open_subscription C,
      set_subscription_token = sql_set_subscription_token C,
      clear_subscription_token = sql_clear_subscription_token,
      create_event = sql_create_event C, get_event = sql_get_event C,
      get_runnable_events = sql_get_runnable_events C, get_events = sql_get_events C,
      mark_event_processed = sql_mark_event_processed,
      mark_event_unprocessed = sql_mark_event_unprocessed,
      schedule_command = sql_schedule_command, persist_errors = sql_persist_errors C\<rparr>"

end
