(* ===== verification/Tables.thy ===== *)
theory Tables
  imports Store
begin

text \<open>
  What the two database providers share in their proofs: a table of rows with a key, read through a
  decoder, as a finite map; and the pair of tables that hold the workflow instances and their
  execution pointers. The locale fixes the columns, decoders and encoder of such a pair; its lemmas
  say what inserting, rewriting and reading an instance does to the view.
\<close>

section \<open>A table as a map\<close>

definition ok_option :: "'e + 'a \<Rightarrow> 'a option" where
  "ok_option r = (case r of Inl _ \<Rightarrow> None | Inr x \<Rightarrow> Some x)"

definition row_view :: "('r \<Rightarrow> 'k) \<Rightarrow> ('r \<Rightarrow> 'a option) \<Rightarrow> 'r list \<Rightarrow> 'k \<rightharpoonup> 'a" where
  "row_view key dec rows k = and_then (lookup key k rows) dec"

lemma ok_option_simps [simp]: "ok_option (Inr x) = Some x" "ok_option (Inl e) = None"
  by (simp_all add: ok_option_def)

lemma is_ok_iff: "is_ok r \<longleftrightarrow> (\<exists>x. r = Inr x)"
  by (cases r) simp_all

lemma try_map_ok: "list_all (\<lambda>x. is_ok (f x)) xs \<Longrightarrow> try_map f xs = Inr (map (\<lambda>x. projr (f x)) xs)"
  by (induction xs) (auto simp: is_ok_iff)

lemma row_view_Nil [simp]: "row_view key dec [] = Map.empty"
  by (simp add: row_view_def fun_eq_iff)

lemma row_view_Some: "lookup key k rows = Some r \<Longrightarrow> row_view key dec rows k = dec r"
  by (simp add: row_view_def)

lemma row_view_SomeD: "row_view key dec rows k = Some x \<Longrightarrow> \<exists>r. lookup key k rows = Some r \<and> dec r = Some x"
  by (cases "lookup key k rows") (auto simp: row_view_def)

lemma row_view_snoc:
  assumes "lookup key (key r) rows = None"
  shows "row_view key dec (rows @ [r]) = (row_view key dec rows)(key r := dec r)"
proof
  fix k
  show "row_view key dec (rows @ [r]) k = ((row_view key dec rows)(key r := dec r)) k"
    using assms by (cases "lookup key k rows") (auto simp: row_view_def)
qed

text \<open>An update of the row with one key changes the map there, and nowhere else.\<close>

lemma row_view_update:
  assumes "\<And>r. key (f r) = key r" "\<And>r. p r \<Longrightarrow> key r = i" "lookup key i rows = Some r"
  shows "row_view key dec (update_where p f rows) = (row_view key dec rows)(i := dec (if p r then f r else r))"
proof
  fix k
  show "row_view key dec (update_where p f rows) k =
      ((row_view key dec rows)(i := dec (if p r then f r else r))) k"
  proof (cases "k = i")
    case True
    then show ?thesis using assms(3) by (simp add: row_view_def lookup_update_where[of key f, OF assms(1)])
  next
    case False
    then have "lookup key k (update_where p f rows) = lookup key k rows"
      using assms(2) lookup_Some[of key k rows]
      by (auto simp: lookup_update_where[of key f, OF assms(1)] intro!: option.map_ident_strong)
    with False show ?thesis by (simp add: row_view_def)
  qed
qed

lemma row_view_delete: "row_view key dec (delete_where (\<lambda>r. key r = i) rows) = (row_view key dec rows)(i := None)"
  by (simp add: row_view_def lookup_delete_where_key fun_eq_iff)

lemma list_ex_lookup:
  "distinct (map key rows) \<Longrightarrow>
     list_ex (\<lambda>r. key r = k \<and> q r) rows \<longleftrightarrow> (\<exists>r. lookup key k rows = Some r \<and> q r)"
  by (auto simp: list_ex_iff lookup_distinct_iff)

lemma list_ex_lookup_key: "list_ex (\<lambda>r. key r = k) rows \<longleftrightarrow> lookup key k rows \<noteq> None"
  by (auto simp: list_ex_iff lookup_None_iff)

text \<open>The constraints of a table: the key is unique and every row decodes.\<close>

definition table_inv :: "('r \<Rightarrow> 'k) \<Rightarrow> ('r \<Rightarrow> 'a res) \<Rightarrow> 'r list \<Rightarrow> bool" where
  "table_inv key dec rows \<longleftrightarrow> distinct (map key rows) \<and> list_all (\<lambda>r. is_ok (dec r)) rows"

lemma table_inv_Nil [simp]: "table_inv key dec []"
  by (simp add: table_inv_def)

lemma table_inv_snoc:
  "table_inv key dec rows \<Longrightarrow> lookup key (key r) rows = None \<Longrightarrow> is_ok (dec r) \<Longrightarrow> table_inv key dec (rows @ [r])"
  by (simp add: table_inv_def lookup_None_iff)

lemma table_inv_update:
  assumes "table_inv key dec rows" "\<And>r. key (f r) = key r" "\<And>r x. dec r = Inr x \<Longrightarrow> is_ok (dec (f r))"
  shows "table_inv key dec (update_where p f rows)"
  using assms by (auto simp: table_inv_def list_all_iff set_update_where is_ok_iff)

lemma table_inv_delete: "table_inv key dec rows \<Longrightarrow> table_inv key dec (delete_where p rows)"
  by (auto simp: table_inv_def list_all_iff)

lemma table_inv_row:
  assumes "table_inv key dec rows" "lookup key k rows = Some r"
  obtains x where "dec r = Inr x"
  using assms lookup_Some[OF assms(2)] by (auto simp: table_inv_def list_all_iff is_ok_iff)

lemma distinct_update_where:
  assumes "distinct (map key rows)" "distinct (map nm rows)" "\<And>r. nm (f r) = n"
    and "\<forall>r \<in> set rows. key r \<noteq> i \<longrightarrow> nm r \<noteq> n"
  shows "distinct (map nm (update_where (\<lambda>r. key r = i) f rows))"
  using assms
proof (induction rows)
  case (Cons r rows)
  have IH: "distinct (map nm (update_where (\<lambda>r. key r = i) f rows))" using Cons by simp
  show ?case
  proof (cases "key r = i")
    case True
    then have other: "key x \<noteq> i" if "x \<in> set rows" for x
      using Cons.prems(1) that by (auto simp: rev_image_eqI)
    then have "update_where (\<lambda>r. key r = i) f (r # rows) = f r # rows"
      using True update_where_none[of rows] by (simp add: update_where_Cons)
    moreover have "n \<notin> nm ` set rows" using Cons.prems(4) other by auto
    ultimately show ?thesis using Cons.prems by simp
  next
    case False
    then have "nm r \<noteq> n" "nm r \<notin> nm ` set rows" using Cons.prems by auto
    then have "nm r \<notin> nm ` set (update_where (\<lambda>r. key r = i) f rows)"
      using Cons.prems(3) by (auto simp: set_update_where)
    with IH False show ?thesis by (simp add: update_where_Cons)
  qed
qed (simp add: update_where_def)

section \<open>Updates of one row\<close>

text \<open>A row is shown decoded, unless a flag hides it.\<close>

definition decoded :: "('r \<Rightarrow> bool) \<Rightarrow> ('r \<Rightarrow> 'a res) \<Rightarrow> 'r \<Rightarrow> 'a option" where
  "decoded hid dec r = (if hid r then None else ok_option (dec r))"

abbreviation table_view :: "('r \<Rightarrow> 'k) \<Rightarrow> ('r \<Rightarrow> bool) \<Rightarrow> ('r \<Rightarrow> 'a res) \<Rightarrow> 'r list \<Rightarrow> 'k \<rightharpoonup> 'a" where
  "table_view key hid dec rows \<equiv> row_view key (decoded hid dec) rows"

lemma insert_row:
  assumes "table_inv key dec rows" "lookup key (key r) rows = None" "dec r = Inr x" "\<not> hid r"
  shows "table_inv key dec (rows @ [r])"
    and "table_view key hid dec (rows @ [r]) = (table_view key hid dec rows)(key r \<mapsto> x)"
  using assms by (simp_all add: table_inv_snoc row_view_snoc decoded_def)

lemma hide_row:
  assumes "table_inv key dec rows" "lookup key i rows \<noteq> None" "\<And>r. key (f r) = key r" "\<And>r. hid (f r)"
    and "\<And>r x. dec r = Inr x \<Longrightarrow> is_ok (dec (f r))"
  shows "table_inv key dec (update_where (\<lambda>r. key r = i) f rows)"
    and "table_view key hid dec (update_where (\<lambda>r. key r = i) f rows) = (table_view key hid dec rows)(i := None)"
proof -
  show "table_inv key dec (update_where (\<lambda>r. key r = i) f rows)"
    using assms(3,5) by (rule table_inv_update[OF assms(1)])
  obtain r where r: "lookup key i rows = Some r" using assms(2) by blast
  then show "table_view key hid dec (update_where (\<lambda>r. key r = i) f rows) = (table_view key hid dec rows)(i := None)"
    using row_view_update[of key f "\<lambda>r. key r = i" i rows r "decoded hid dec"] lookup_Some[OF r] assms(3,4)
    by (simp add: decoded_def)
qed

text \<open>A statement that changes the row with key \<open>i\<close> if it satisfies \<open>q\<close>, and finds it.\<close>

lemma change_row:
  assumes "table_inv key dec rows" "list_ex (\<lambda>r. key r = i \<and> q r) rows"
    and "\<And>r. key (f r) = key r" "\<And>r. hid (f r) = hid r" "\<And>r x. dec r = Inr x \<Longrightarrow> dec (f r) = Inr (g x)"
  shows "table_inv key dec (update_where (\<lambda>r. key r = i \<and> q r) f rows)"
    and "table_view key hid dec (update_where (\<lambda>r. key r = i \<and> q r) f rows) =
      (table_view key hid dec rows)(i := map_option g (table_view key hid dec rows i))"
    and "\<exists>r. lookup key i rows = Some r \<and> q r"
proof -
  show "table_inv key dec (update_where (\<lambda>r. key r = i \<and> q r) f rows)"
    by (rule table_inv_update[OF assms(1)]) (simp_all add: assms(3,5))
  obtain r where r: "lookup key i rows = Some r" "q r"
    using assms(1,2) list_ex_lookup[of key rows i q] by (auto simp: table_inv_def)
  then show "\<exists>r. lookup key i rows = Some r \<and> q r" by blast
  obtain x where x: "dec r = Inr x" using table_inv_row[OF assms(1) r(1)] by blast
  show "table_view key hid dec (update_where (\<lambda>r. key r = i \<and> q r) f rows) =
      (table_view key hid dec rows)(i := map_option g (table_view key hid dec rows i))"
    using row_view_update[of key f "\<lambda>r. key r = i \<and> q r" i rows r "decoded hid dec"] lookup_Some[OF r(1)]
      r row_view_Some[OF r(1), of "decoded hid dec"] x assms(3,4) assms(5)[OF x]
    by (simp add: decoded_def)
qed

lemma table_view_SomeD:
  assumes "table_view key hid dec rows i = Some x"
  obtains r where "lookup key i rows = Some r" "dec r = Inr x" "\<not> hid r"
proof -
  obtain r where "lookup key i rows = Some r" "decoded hid dec r = Some x" using row_view_SomeD[OF assms] by blast
  then show thesis using that[of r] by (auto simp: decoded_def ok_option_def split: if_splits sum.splits)
qed

lemma ex_update_where: "(\<And>r. Q (f r) = Q r) \<Longrightarrow> (\<exists>r \<in> set (update_where p f rows). Q r) = (\<exists>r \<in> set rows. Q r)"
  by (auto simp: set_update_where)

text \<open>A statement that finds no row changes nothing.\<close>

lemma change_no_row: "\<not> list_ex p rows \<Longrightarrow> update_where p f rows = rows"
  by (auto simp: list_ex_iff intro: update_where_none)

section \<open>Instances and their pointers\<close>

definition instances_view :: "('w \<Rightarrow> string) \<Rightarrow> ('w \<Rightarrow> workflow_instance res) \<Rightarrow> ('p \<Rightarrow> string) \<Rightarrow>
    ('p \<Rightarrow> execution_pointer res) \<Rightarrow> 'w list \<Rightarrow> 'p list \<Rightarrow> string \<rightharpoonup> instance_view" where
  "instances_view wid dw pwid dp ws ptrs i =
     and_then (lookup wid i ws) (\<lambda>row.
     and_then (ok_option (dw row)) (\<lambda>y.
     map_option (\<lambda>ps. (y, mset ps)) (ok_option (try_map dp (filter (\<lambda>r. pwid r = i) ptrs)))))"

definition pointers_inv :: "('p \<Rightarrow> string) \<Rightarrow> ('p \<Rightarrow> string) \<Rightarrow> ('p \<Rightarrow> execution_pointer res) \<Rightarrow>
    string set \<Rightarrow> 'p list \<Rightarrow> bool" where
  "pointers_inv pid pwid dp ids ptrs \<longleftrightarrow> table_inv pid dp ptrs \<and> list_all (\<lambda>r. pwid r \<in> ids) ptrs"

text \<open>
  \<open>dw\<close> decodes the row of an instance, without its pointers; \<open>enc\<close> is the row of a pointer,
  \<open>dp\<close> decodes it to \<open>kept\<close> of the pointer if the pointer is \<open>fit\<close> for its columns.
\<close>

locale instance_tables =
  fixes wid wname :: "'w \<Rightarrow> string" and dw :: "'w \<Rightarrow> workflow_instance res"
    and pid pwid :: "'p \<Rightarrow> string" and dp :: "'p \<Rightarrow> execution_pointer res"
    and enc :: "string \<Rightarrow> execution_pointer \<Rightarrow> 'p" and kept :: "execution_pointer \<Rightarrow> execution_pointer"
    and fit :: "execution_pointer \<Rightarrow> bool"
  assumes pid_enc: "pid (enc i p) = ep_id p" and pwid_enc: "pwid (enc i p) = i"
    and dp_enc: "fit p \<Longrightarrow> dp (enc i p) = Inr (kept p)"
begin

lemma view_row:
  assumes "table_inv wid dw ws" "pointers_inv pid pwid dp ids ptrs" "lookup wid i ws = Some row"
  obtains y where "dw row = Inr y" "instances_view wid dw pwid dp ws ptrs i = Some (y,
      image_mset (\<lambda>r. projr (dp r)) (mset (filter (\<lambda>r. pwid r = i) ptrs)))"
proof -
  obtain y where y: "dw row = Inr y" using table_inv_row[OF assms(1,3)] by blast
  have "list_all (\<lambda>r. is_ok (dp r)) (filter (\<lambda>r. pwid r = i) ptrs)"
    using assms(2) by (auto simp: pointers_inv_def table_inv_def list_all_iff)
  from try_map_ok[OF this] show thesis using that[OF y] assms(3) y by (simp add: instances_view_def)
qed

lemma view_None: "lookup wid i ws = None \<Longrightarrow> instances_view wid dw pwid dp ws ptrs i = None"
  by (simp add: instances_view_def)

lemma decode_encoded: "list_all fit ps \<Longrightarrow> try_map dp (map (enc i) ps) = Inr (map kept ps)"
  by (induction ps) (auto simp: dp_enc)

text \<open>Writing the row and the pointers of one instance changes the view of that instance only.\<close>

lemma view_upd:
  assumes "lookup wid i ws' = Some row" "list_all fit ps" "dw row = Inr y"
    and "filter (\<lambda>r. pwid r = i) ptrs' = map (enc i) ps"
    and "\<And>j. j \<noteq> i \<Longrightarrow> lookup wid j ws' = lookup wid j ws"
    and "\<And>j. j \<noteq> i \<Longrightarrow> filter (\<lambda>r. pwid r = j) ptrs' = filter (\<lambda>r. pwid r = j) ptrs"
  shows "instances_view wid dw pwid dp ws' ptrs' =
    (instances_view wid dw pwid dp ws ptrs)(i \<mapsto> (y, mset (map kept ps)))"
proof
  fix j
  show "instances_view wid dw pwid dp ws' ptrs' j =
      ((instances_view wid dw pwid dp ws ptrs)(i \<mapsto> (y, mset (map kept ps)))) j"
    using assms(1,3,4) assms(5,6)[of j] decode_encoded[OF assms(2), of i]
    by (auto simp: instances_view_def)
qed

lemma filter_encoded:
  "filter (\<lambda>r. pwid r = j) (map (enc i) ps) = (if j = i then map (enc i) ps else [])"
  by (induction ps) (auto simp: pwid_enc)

lemma no_pointers: "pointers_inv pid pwid dp ids ptrs \<Longrightarrow> i \<notin> ids \<Longrightarrow> filter (\<lambda>r. pwid r = i) ptrs = []"
  by (auto simp: pointers_inv_def list_all_iff filter_empty_conv)

lemma pointers_inv_append:
  assumes "pointers_inv pid pwid dp ids ptrs" "ids \<subseteq> ids'" "list_all fit ps" "distinct (map ep_id ps)"
    and "ep_id ` set ps \<inter> pid ` set ptrs = {}" "ps \<noteq> [] \<longrightarrow> i \<in> ids'"
  shows "pointers_inv pid pwid dp ids' (ptrs @ map (enc i) ps)"
  using assms
  by (fastforce simp: pointers_inv_def table_inv_def list_all_iff dp_enc pid_enc pwid_enc comp_def)

lemma pointers_inv_delete:
  "pointers_inv pid pwid dp ids ptrs \<Longrightarrow> pointers_inv pid pwid dp ids (delete_where q ptrs)"
  by (auto simp: pointers_inv_def table_inv_delete list_all_iff)

text \<open>A new instance: its row and then its pointers are inserted.\<close>

lemma create_view:
  assumes "table_inv wid dw ws" "pointers_inv pid pwid dp (wid ` set ws) ptrs"
    and "wid row \<notin> wid ` set ws" "dw row = Inr y" "list_all fit ps" "distinct (map ep_id ps)"
    and "ep_id ` set ps \<inter> pid ` set ptrs = {}"
  shows "table_inv wid dw (ws @ [row])"
    and "pointers_inv pid pwid dp (insert (wid row) (wid ` set ws)) (ptrs @ map (enc (wid row)) ps)"
    and "instances_view wid dw pwid dp (ws @ [row]) (ptrs @ map (enc (wid row)) ps) =
      (instances_view wid dw pwid dp ws ptrs)(wid row \<mapsto> (y, mset (map kept ps)))"
proof -
  have new: "lookup wid (wid row) ws = None" using assms(3) by (simp add: lookup_None_iff)
  show "table_inv wid dw (ws @ [row])" using table_inv_snoc[OF assms(1) new] assms(4) by simp
  show "pointers_inv pid pwid dp (insert (wid row) (wid ` set ws)) (ptrs @ map (enc (wid row)) ps)"
    using assms by (intro pointers_inv_append[OF assms(2)]) auto
  show "instances_view wid dw pwid dp (ws @ [row]) (ptrs @ map (enc (wid row)) ps) =
      (instances_view wid dw pwid dp ws ptrs)(wid row \<mapsto> (y, mset (map kept ps)))"
    using new assms(4,5) no_pointers[OF assms(2,3)]
    by (intro view_upd[where row = row]) (auto simp: filter_encoded split: option.splits)
qed

text \<open>A known instance: its row is updated, its pointers are deleted and inserted anew.\<close>

lemma rewrite_view:
  assumes "table_inv wid dw ws" "pointers_inv pid pwid dp (wid ` set ws) ptrs"
    and "lookup wid i ws = Some row" "\<And>r. wid (f r) = wid r" "\<And>r x. dw r = Inr x \<Longrightarrow> is_ok (dw (f r))"
    and "dw (f row) = Inr y" "list_all fit ps" "distinct (map ep_id ps)"
    and "ep_id ` set ps \<inter> pid ` set (delete_where (\<lambda>r. pwid r = i) ptrs) = {}"
  defines "ws' \<equiv> update_where (\<lambda>r. wid r = i) f ws"
    and "ptrs' \<equiv> delete_where (\<lambda>r. pwid r = i) ptrs @ map (enc i) ps"
  shows "table_inv wid dw ws'" and "pointers_inv pid pwid dp (wid ` set ws') ptrs'"
    and "instances_view wid dw pwid dp ws' ptrs' =
      (instances_view wid dw pwid dp ws ptrs)(i \<mapsto> (y, mset (map kept ps)))"
proof -
  show "table_inv wid dw ws'" unfolding ws'_def using assms(4,5) by (rule table_inv_update[OF assms(1)])
  have "map wid ws' = map wid ws" unfolding ws'_def by (simp add: assms(4))
  then have ids: "wid ` set ws' = wid ` set ws" by (metis list.set_map)
  have "i \<in> wid ` set ws" using lookup_Some[OF assms(3)] by auto
  then show "pointers_inv pid pwid dp (wid ` set ws') ptrs'"
    unfolding ids ptrs'_def
    using assms by (intro pointers_inv_append[OF pointers_inv_delete[OF assms(2)]]) auto
  have row: "lookup wid j ws' = (if j = i then Some (f row) else lookup wid j ws)" for j
    using assms(3) lookup_Some[OF assms(3)] lookup_Some[of wid j ws]
    by (auto simp: ws'_def lookup_update_where[of wid f, OF assms(4)] intro!: option.map_ident_strong)
  show "instances_view wid dw pwid dp ws' ptrs' =
      (instances_view wid dw pwid dp ws ptrs)(i \<mapsto> (y, mset (map kept ps)))"
    using assms(6,7)
    by (intro view_upd[where row = "f row"])
      (auto simp: row ptrs'_def filter_encoded delete_where_def filter_empty_conv intro!: filter_cong)
qed

text \<open>Reading the row and, in any order, the pointers of an instance answers from the view.\<close>

lemma read_view:
  assumes "visits_all ord" "table_inv wid dw ws" "pointers_inv pid pwid dp ids ptrs"
  shows "(case instances_view wid dw pwid dp ws ptrs i of
      None \<Rightarrow> first_row (select_where ord q (\<lambda>r. wid r = i) ws) = None
    | Some v \<Rightarrow> \<exists>row y ps. first_row (select_where ord q (\<lambda>r. wid r = i) ws) = Some row \<and> dw row = Inr y \<and>
        try_map dp (select_where ord q' (\<lambda>r. pwid r = i) ptrs) = Inr ps \<and> v = (y, mset ps))"
proof -
  have row: "first_row (select_where ord q (\<lambda>r. wid r = i) ws) = lookup wid i ws"
    using assms(2) by (intro first_row_select_key[OF assms(1)]) (simp add: table_inv_def)
  show ?thesis
  proof (cases "lookup wid i ws")
    case None
    then show ?thesis using row by (simp add: view_None)
  next
    case (Some r)
    obtain y where y: "dw r = Inr y" "instances_view wid dw pwid dp ws ptrs i = Some (y,
        image_mset (\<lambda>r. projr (dp r)) (mset (filter (\<lambda>r. pwid r = i) ptrs)))"
      by (rule view_row[OF assms(2,3) Some])
    have "list_all (\<lambda>r. is_ok (dp r)) (select_where ord q' (\<lambda>r. pwid r = i) ptrs)"
      using assms(3) by (simp add: pointers_inv_def table_inv_def list_all_iff select_where_set[OF assms(1)])
    from try_map_ok[OF this] show ?thesis
      using row Some y select_where_mset[OF assms(1), of q' "\<lambda>r. pwid r = i" ptrs] by simp
  qed
qed

text \<open>The poll: the due rows are the due instances of the view.\<close>

lemma due_view:
  assumes "visits_all ord" "table_inv wid dw ws" "pointers_inv pid pwid dp ids ptrs"
    and "\<And>r y. dw r = Inr y \<Longrightarrow> due r \<longleftrightarrow> wi_status y = Runnable \<and>
      (\<exists>ne. wi_next_execution y = Some ne \<and> ne \<le> timestamp_millis t)"
    and "st_workflows s = instances_view wid dw pwid dp ws ptrs"
  shows "set (map wid (select_where ord q due ws)) = runnable_ids s t"
proof -
  have "i \<in> runnable_ids s t \<longleftrightarrow> (\<exists>r. lookup wid i ws = Some r \<and> due r)" for i
  proof (cases "lookup wid i ws")
    case (Some r)
    obtain y where "dw r = Inr y" "instances_view wid dw pwid dp ws ptrs i = Some (y,
        image_mset (\<lambda>r. projr (dp r)) (mset (filter (\<lambda>r. pwid r = i) ptrs)))"
      by (rule view_row[OF assms(2,3) Some])
    then show ?thesis using Some assms(4)[of r y] assms(5) by (simp add: runnable_ids_def)
  qed (simp add: runnable_ids_def view_None assms(5))
  moreover have "lookup wid i ws = Some r \<longleftrightarrow> r \<in> set ws \<and> wid r = i" for i r
    using assms(2) by (intro lookup_distinct_iff) (simp add: table_inv_def)
  ultimately have "runnable_ids s t = wid ` {r \<in> set ws. due r}" by auto
  then show ?thesis by (simp add: select_where_set[OF assms(1)])
qed

end

end
