(* ===== verification/Sqlite_Correct.thy ===== *)
theory Sqlite_Correct
  imports Sqlite Tables
begin

text \<open>
  The SQLite provider implements the abstract store. The view decodes the rows; the invariant says
  that the declared constraints hold and that every row decodes. The values a client writes must
  survive the text columns (\<open>instance_ok\<close> and its companions: what \<open>serde_json\<close> and
  \<open>chrono\<close> print they read back), and a persisted instance must exist with the creation time it
  had, which the provider never updates. Under these conditions every sequence of calls acts on the
  view as on the abstract store, failed calls leave it alone, and reads answer from it.
\<close>

section \<open>Values that survive the text columns\<close>

definition json_ok :: "text_codec \<Rightarrow> json \<Rightarrow> bool" where
  "json_ok C j \<longleftrightarrow> json_of_text C (json_to_text C j) = Inr j"

definition time_ok :: "text_codec \<Rightarrow> date_time \<Rightarrow> bool" where
  "time_ok C t \<longleftrightarrow> dt_of_text C (dt_to_rfc3339 C t) = Inr t"

definition strings_ok :: "text_codec \<Rightarrow> string list \<Rightarrow> bool" where
  "strings_ok C xs \<longleftrightarrow> strings_of_text C (strings_to_text C xs) = Inr xs"

definition pointer_ok :: "text_codec \<Rightarrow> execution_pointer \<Rightarrow> bool" where
  "pointer_ok C p \<longleftrightarrow>
     ep_step_id p < 2 ^ 64 \<and> pred_option (time_ok C) (ep_sleep_until p) \<and>
     pred_option (time_ok C) (ep_start_time p) \<and> pred_option (time_ok C) (ep_end_time p) \<and>
     pred_option (json_ok C) (ep_persistence_data p) \<and> pred_option (json_ok C) (ep_event_data p) \<and>
     pred_option (json_ok C) (ep_context_item p) \<and> pred_option (json_ok C) (ep_outcome p) \<and>
     strings_ok C (ep_children p) \<and> strings_ok C (ep_scope p) \<and>
     attrs_of_text C (attrs_to_text C (ep_extension_attributes p)) = Inr (ep_extension_attributes p)"

definition instance_ok :: "text_codec \<Rightarrow> workflow_instance \<Rightarrow> bool" where
  "instance_ok C x \<longleftrightarrow>
     json_ok C (wi_data x) \<and> time_ok C (wi_create_time x) \<and> pred_option (time_ok C) (wi_complete_time x) \<and>
     list_all (pointer_ok C) (wi_execution_pointers x)"

definition event_ok :: "text_codec \<Rightarrow> event \<Rightarrow> bool" where
  "event_ok C e \<longleftrightarrow> json_ok C (ev_data e) \<and> time_ok C (ev_time e)"

definition subscription_ok :: "text_codec \<Rightarrow> event_subscription \<Rightarrow> bool" where
  "subscription_ok C s \<longleftrightarrow>
     es_step_id s < 2 ^ 64 \<and> time_ok C (es_subscribe_as_of s) \<and>
     pred_option (json_ok C) (es_subscription_data s) \<and> pred_option (time_ok C) (es_external_token_expiry s)"

section \<open>Rows decode to what was written\<close>

lemma string_to_dt_inverse: "time_ok C t \<Longrightarrow> string_to_dt C (dt_to_rfc3339 C t) = Inr t"
  by (simp add: string_to_dt_def time_ok_def)

lemma string_to_opt_dt_inverse:
  "pred_option (time_ok C) t \<Longrightarrow> string_to_opt_dt C (opt_dt_to_string C t) = Inr t"
  by (cases t) (simp_all add: string_to_opt_dt_def opt_dt_to_string_def string_to_dt_inverse)

lemma json_column_inverse:
  "pred_option (json_ok C) j \<Longrightarrow> json_column C name (map_option (json_to_text C) j) = Inr j"
  by (cases j) (simp_all add: json_column_def json_ok_def)

lemmas column_inverses = string_to_dt_inverse string_to_opt_dt_inverse json_column_inverse
  i64_as_usize_inverse

lemma row_to_pointer_inverse: "pointer_ok C p \<Longrightarrow> row_to_pointer C (pointer_to_row C i p) = Inr p"
  by (simp add: pointer_ok_def row_to_pointer_def pointer_to_row_def column_inverses strings_ok_def)

lemma row_to_workflow_inverse:
  "instance_ok C x \<Longrightarrow> row_to_workflow C (workflow_to_row C i n x) ps =
     Inr (x\<lparr>wi_id := i, wi_name := n, wi_execution_pointers := ps\<rparr>)"
  by (simp add: instance_ok_def row_to_workflow_def workflow_to_row_def column_inverses json_ok_def)

lemma row_to_event_inverse:
  "event_ok C e \<Longrightarrow> row_to_event C (event_to_row C i e) = Inr (e\<lparr>ev_id := i\<rparr>)"
  by (simp add: event_ok_def row_to_event_def event_to_row_def column_inverses json_ok_def)

lemma row_to_subscription_inverse:
  "subscription_ok C s \<Longrightarrow> row_to_subscription C (subscription_to_row C s) = Inr s"
  by (simp add: subscription_ok_def row_to_subscription_def subscription_to_row_def column_inverses)

lemma row_to_workflow_pointers:
  "row_to_workflow C r ps = map_sum id (\<lambda>x. x\<lparr>wi_execution_pointers := ps\<rparr>) (row_to_workflow C r [])"
  by (auto simp: row_to_workflow_def res_bind_def split: sum.splits)

text \<open>After the \<open>UPDATE\<close> a row decodes to the new instance with the old creation time.\<close>

lemma row_to_workflow_update:
  assumes "row_to_workflow C row qs = Inr y" "instance_ok C x"
  shows "row_to_workflow C (set_workflow_columns C x row) ps =
     Inr (x\<lparr>wi_id := wr_id row, wi_create_time := wi_create_time y, wi_execution_pointers := ps\<rparr>)"
  using assms
  by (auto simp: row_to_workflow_def set_workflow_columns_def instance_ok_def res_bind_Inr_iff json_ok_def
      string_to_opt_dt_inverse)

section \<open>View and invariant\<close>

definition sql_instance :: "text_codec \<Rightarrow> workflow_row \<Rightarrow> workflow_instance res" where
  "sql_instance C r = row_to_workflow C r []"

abbreviation sql_instances :: "text_codec \<Rightarrow> sql_world \<Rightarrow> string \<rightharpoonup> instance_view" where
  "sql_instances C w \<equiv> instances_view wr_id (sql_instance C) pr_workflow_id (row_to_pointer C)
     (sq_workflows w) (sq_execution_pointers w)"

abbreviation sql_subs :: "text_codec \<Rightarrow> sql_world \<Rightarrow> string \<rightharpoonup> event_subscription" where
  "sql_subs C w \<equiv> table_view sr_id sr_terminated (row_to_subscription C) (sq_event_subscriptions w)"

definition sql_view :: "text_codec \<Rightarrow> sql_world \<Rightarrow> store" where
  "sql_view C w =
     \<lparr>st_workflows = sql_instances C w,
      st_events = table_view vr_id (\<lambda>_. False) (row_to_event C) (sq_events w),
      st_subs = sql_subs C w,
      st_seqs = (\<lambda>d. word_of_int (unwrap_or (map_of (sq_definition_sequences w) d) 0)),
      st_commands = {(n, d). \<exists>r \<in> set (sq_scheduled_commands w).
        cr_command_name r = command_name_to_str n \<and> cr_data r = d}\<rparr>"

definition sql_inv :: "text_codec \<Rightarrow> sql_world \<Rightarrow> bool" where
  "sql_inv C w \<longleftrightarrow>
     table_inv wr_id (sql_instance C) (sq_workflows w) \<and> distinct (map wr_name (sq_workflows w)) \<and>
     pointers_inv pr_id pr_workflow_id (row_to_pointer C) (wr_id ` set (sq_workflows w)) (sq_execution_pointers w) \<and>
     table_inv vr_id (row_to_event C) (sq_events w) \<and>
     table_inv sr_id (row_to_subscription C) (sq_event_subscriptions w)"

text \<open>The calls for which the provider keeps what it is given.\<close>

definition known_instance :: "store \<Rightarrow> workflow_instance \<Rightarrow> bool" where
  "known_instance s x \<longleftrightarrow>
     pred_option (\<lambda>v. wi_create_time (fst v) = wi_create_time x) (st_workflows s (wi_id x)) \<and>
     st_workflows s (wi_id x) \<noteq> None"

fun sql_admissible :: "text_codec \<Rightarrow> store \<Rightarrow> store_op \<Rightarrow> bool" where
  "sql_admissible C s (OpCreate x) \<longleftrightarrow> instance_ok C x"
| "sql_admissible C s (OpPersist x) \<longleftrightarrow> instance_ok C x \<and> known_instance s x"
| "sql_admissible C s (OpPersistSubs x ss) \<longleftrightarrow>
     instance_ok C x \<and> known_instance s x \<and> list_all (subscription_ok C) ss"
| "sql_admissible C s (OpSubscribe y) \<longleftrightarrow> subscription_ok C y"
| "sql_admissible C s (OpSetToken i t k e) \<longleftrightarrow> time_ok C e"
| "sql_admissible C s (OpEvent e) \<longleftrightarrow> event_ok C e"
| "sql_admissible C s _ \<longleftrightarrow> True"

lemma row_sels [simp]:
  "pr_id (pointer_to_row C i p) = ep_id p" "pr_workflow_id (pointer_to_row C i p) = i"
  "wr_id (workflow_to_row C i n x) = i" "wr_name (workflow_to_row C i n x) = n"
  "sr_id (subscription_to_row C s) = es_id s" "\<not> sr_terminated (subscription_to_row C s)"
  "vr_id (event_to_row C i e) = i"
  "wr_id (set_workflow_columns C x r) = wr_id r" "wr_name (set_workflow_columns C x r) = wi_name x"
  by (simp_all add: pointer_to_row_def workflow_to_row_def subscription_to_row_def event_to_row_def
      set_workflow_columns_def)

interpretation sql_tables: instance_tables wr_id wr_name "sql_instance C" pr_id pr_workflow_id "row_to_pointer C"
  "pointer_to_row C" "\<lambda>p. p" "pointer_ok C"
  for C :: text_codec
  by unfold_locales (simp_all add: row_to_pointer_inverse)

lemma sql_view_sel [simp]:
  "st_workflows (sql_view C w) = sql_instances C w"
  "st_events (sql_view C w) = table_view vr_id (\<lambda>_. False) (row_to_event C) (sq_events w)"
  "st_subs (sql_view C w) = sql_subs C w"
  "st_seqs (sql_view C w) d = word_of_int (unwrap_or (map_of (sq_definition_sequences w) d) 0)"
  by (simp_all add: sql_view_def)

section \<open>Writing an instance\<close>

lemma insert_pointers_Inr:
  "try_fold (insert_pointer C i) ps w = Inr w' \<Longrightarrow>
     w' = w\<lparr>sq_execution_pointers := sq_execution_pointers w @ map (pointer_to_row C i) ps\<rparr> \<and>
     distinct (map ep_id ps) \<and> ep_id ` set ps \<inter> pr_id ` set (sq_execution_pointers w) = {}"
proof (induction ps arbitrary: w)
  case (Cons p ps)
  obtain w1 where w1: "insert_pointer C i p w = Inr w1" "try_fold (insert_pointer C i) ps w1 = Inr w'"
    using Cons.prems by (auto simp: res_bind_Inr_iff)
  show ?case using Cons.IH[OF w1(2)] w1(1) by (auto simp: insert_pointer_def lookup_None_iff split: if_splits)
qed simp

lemma create_step:
  assumes "sql_inv C w" "instance_ok C x"
    and "res_bind (insert_workflow C (workflow_to_row C i n x) w)
           (try_fold (insert_pointer C i) (wi_execution_pointers x)) = Inr w'"
  shows "sql_inv C w' \<and> sql_view C w' = put_instance i (x\<lparr>wi_id := i, wi_name := n\<rparr>) (sql_view C w)"
proof -
  let ?row = "workflow_to_row C i n x" and ?ps = "wi_execution_pointers x"
  obtain w1 where w1: "insert_workflow C ?row w = Inr w1" "try_fold (insert_pointer C i) ?ps w1 = Inr w'"
    using assms(3) by (auto simp: res_bind_Inr_iff)
  then have new: "i \<notin> wr_id ` set (sq_workflows w)" "n \<notin> wr_name ` set (sq_workflows w)"
    "w1 = w\<lparr>sq_workflows := sq_workflows w @ [?row]\<rparr>"
    by (auto simp: insert_workflow_def lookup_None_iff split: if_splits)
  note loop = insert_pointers_Inr[OF w1(2)]
  have dec: "sql_instance C ?row = Inr (x\<lparr>wi_id := i, wi_name := n, wi_execution_pointers := []\<rparr>)"
    using row_to_workflow_inverse[OF assms(2)] by (simp add: sql_instance_def)
  have ok: "list_all (pointer_ok C) ?ps" "distinct (map ep_id ?ps)"
    "ep_id ` set ?ps \<inter> pr_id ` set (sq_execution_pointers w) = {}" "wr_id ?row \<notin> wr_id ` set (sq_workflows w)"
    using assms(2) loop new by (auto simp: instance_ok_def)
  have inv: "table_inv wr_id (sql_instance C) (sq_workflows w)"
    "pointers_inv pr_id pr_workflow_id (row_to_pointer C) (wr_id ` set (sq_workflows w)) (sq_execution_pointers w)"
    using assms(1) by (auto simp: sql_inv_def)
  from sql_tables.create_view[OF inv ok(4) dec ok(1-3)] show ?thesis
    using assms(1) loop new by (simp add: sql_inv_def sql_view_def put_instance_def inst_view_def)
qed

lemma write_step:
  assumes "sql_inv C w" "instance_ok C x" "known_instance (sql_view C w) x" "write_instance C x w = Inr w'"
  shows "sql_inv C w' \<and> sql_view C w' = put_instance (wi_id x) x (sql_view C w)"
proof -
  let ?i = "wi_id x" and ?ps = "wi_execution_pointers x" and ?f = "set_workflow_columns C x"
  let ?P' = "delete_where (\<lambda>r. pr_workflow_id r = ?i) (sq_execution_pointers w)"
  have inv: "table_inv wr_id (sql_instance C) (sq_workflows w)"
    "pointers_inv pr_id pr_workflow_id (row_to_pointer C) (wr_id ` set (sq_workflows w)) (sq_execution_pointers w)"
    using assms(1) by (auto simp: sql_inv_def)
  have "lookup wr_id ?i (sq_workflows w) \<noteq> None"
    using assms(3) sql_tables.view_None[of ?i "sq_workflows w" C] unfolding known_instance_def by force
  then obtain row where row: "lookup wr_id ?i (sq_workflows w) = Some row" by blast
  obtain y where y0: "sql_instance C row = Inr y" "sql_instances C w ?i = Some (y, image_mset
      (\<lambda>r. projr (row_to_pointer C r)) (mset (filter (\<lambda>r. pr_workflow_id r = ?i) (sq_execution_pointers w))))"
    by (rule sql_tables.view_row[OF inv row])
  then have y: "row_to_workflow C row [] = Inr y" "wi_create_time y = wi_create_time x"
    using assms(3) by (simp_all add: known_instance_def sql_instance_def)
  have keep: "is_ok (sql_instance C (?f r))" if "sql_instance C r = Inr z" for r z
    using row_to_workflow_update[of C r "[]" z x "[]"] that assms(2) by (simp add: sql_instance_def)
  have dec: "sql_instance C (?f row) = Inr (x\<lparr>wi_execution_pointers := []\<rparr>)"
    using row_to_workflow_update[of C row "[]" y x "[]"] y assms(2) lookup_Some[OF row] by (simp add: sql_instance_def)
  have upd: "\<not> list_ex (\<lambda>r. wr_name r = wi_name x \<and> wr_id r \<noteq> ?i) (sq_workflows w)"
    "try_fold (insert_pointer C ?i) ?ps (w\<lparr>sq_workflows := update_where (\<lambda>r. wr_id r = ?i) ?f (sq_workflows w),
       sq_execution_pointers := ?P'\<rparr>) = Inr w'"
    using assms(4) row by (auto simp: write_instance_def update_workflow_def delete_pointers_def split: if_splits)
  note loop = insert_pointers_Inr[OF upd(2)]
  have ok: "list_all (pointer_ok C) ?ps" "distinct (map ep_id ?ps)" "ep_id ` set ?ps \<inter> pr_id ` set ?P' = {}"
    using assms(2) loop by (auto simp: instance_ok_def)
  have names: "distinct (map wr_name (update_where (\<lambda>r. wr_id r = ?i) ?f (sq_workflows w)))"
    using assms(1) upd(1)
    by (intro distinct_update_where[where n = "wi_name x"]) (auto simp: sql_inv_def table_inv_def list_ex_iff)
  from sql_tables.rewrite_view[where f = ?f, OF inv row _ keep dec ok] show ?thesis
    using assms(1) loop names by (simp add: sql_inv_def sql_view_def put_instance_def inst_view_def)
qed

section \<open>Subscriptions and events\<close>

lemma row_to_subscription_changes:
  "row_to_subscription C r = Inr s \<Longrightarrow> es_external_token s = sr_external_token r"
  "row_to_subscription C (r\<lparr>sr_terminated := b\<rparr>) = row_to_subscription C r"
  "row_to_subscription C r = Inr s \<Longrightarrow>
     row_to_subscription C (r\<lparr>sr_external_token := None, sr_external_worker_id := None,
       sr_external_token_expiry := None\<rparr>) = Inr (clear_token s)"
  "row_to_subscription C r = Inr s \<Longrightarrow> time_ok C e \<Longrightarrow>
     row_to_subscription C (r\<lparr>sr_external_token := Some t, sr_external_worker_id := Some k,
       sr_external_token_expiry := Some (dt_to_rfc3339 C e)\<rparr>) = Inr (set_token t k e s)"
  by (auto simp: row_to_subscription_def res_bind_Inr_iff set_token_def clear_token_def string_to_opt_dt_def
      string_to_dt_inverse)

lemma sql_inv_subs [simp]:
  "sql_inv C w \<Longrightarrow> sql_inv C (w\<lparr>sq_event_subscriptions := ss\<rparr>) \<longleftrightarrow> table_inv sr_id (row_to_subscription C) ss"
  by (simp add: sql_inv_def)

lemma sql_inv_subs_table: "sql_inv C w \<Longrightarrow> table_inv sr_id (row_to_subscription C) (sq_event_subscriptions w)"
  by (simp add: sql_inv_def)

lemma sql_view_subs [simp]:
  "sql_view C (w\<lparr>sq_event_subscriptions := ss\<rparr>) =
     sql_view C w\<lparr>st_subs := table_view sr_id sr_terminated (row_to_subscription C) ss\<rparr>"
  by (simp add: sql_view_def)

lemma insert_subscription_step:
  assumes "insert_subscription C s w = Inr w'" "subscription_ok C s" "sql_inv C w"
  shows "sql_inv C w' \<and> sql_view C w' = put_sub s (sql_view C w)"
proof -
  have "lookup sr_id (sr_id (subscription_to_row C s)) (sq_event_subscriptions w) = None"
    "w' = w\<lparr>sq_event_subscriptions := sq_event_subscriptions w @ [subscription_to_row C s]\<rparr>"
    using assms(1) by (auto simp: insert_subscription_def split: if_splits)
  with insert_row[where hid = sr_terminated, OF sql_inv_subs_table[OF assms(3)] _ row_to_subscription_inverse[OF assms(2)]] show ?thesis
    using assms(3) by (simp add: put_sub_def)
qed

lemma insert_subscriptions_step:
  "try_fold (insert_subscription C) ss w = Inr w' \<Longrightarrow> list_all (subscription_ok C) ss \<Longrightarrow> sql_inv C w \<Longrightarrow>
     sql_inv C w' \<and> sql_view C w' = fold put_sub ss (sql_view C w)"
proof (induction ss arbitrary: w)
  case (Cons s ss)
  obtain w1 where w1: "insert_subscription C s w = Inr w1" "try_fold (insert_subscription C) ss w1 = Inr w'"
    using Cons.prems(1) by (auto simp: res_bind_Inr_iff)
  then show ?case using Cons.IH[of w1] Cons.prems insert_subscription_step[of C s w w1] by simp
qed simp

lemma terminate_step:
  assumes "sql_inv C w" "sql_terminate_subscription i w = (Inr u, w')"
  shows "sql_inv C w' \<and> sql_view C w' = sql_view C w\<lparr>st_subs := (st_subs (sql_view C w))(i := None)\<rparr>"
proof -
  let ?f = "\<lambda>r. r\<lparr>sr_terminated := True\<rparr>" and ?ss = "sq_event_subscriptions w"
  have w': "w' = w\<lparr>sq_event_subscriptions := update_where (\<lambda>r. sr_id r = i) ?f ?ss\<rparr>" "lookup sr_id i ?ss \<noteq> None"
    using assms(2) by (auto simp: sql_terminate_subscription_def update_subscription_def
        list_ex_lookup_key split: if_splits)
  from hide_row[OF sql_inv_subs_table[OF assms(1)] w'(2), of ?f sr_terminated] show ?thesis
    using assms(1) w'(1) by (simp add: row_to_subscription_changes(2))
qed

lemma sql_subs_token:
  assumes "sql_subs C w i = Some x" "lookup sr_id i (sq_event_subscriptions w) = Some r"
  shows "es_external_token x = sr_external_token r"
proof -
  obtain r' where "lookup sr_id i (sq_event_subscriptions w) = Some r'" "row_to_subscription C r' = Inr x"
    by (rule table_view_SomeD[OF assms(1)])
  then show ?thesis using assms(2) row_to_subscription_changes(1) by simp
qed

lemma sql_set_token_step:
  assumes "sql_inv C w" "time_ok C e" "sql_set_subscription_token C i t k e w = (Inr b, w')"
  shows "sql_inv C w' \<and> (\<forall>x. st_subs (sql_view C w) i = Some x \<longrightarrow> b = (es_external_token x = None)) \<and>
     sql_view C w' = (if b then alter_sub (set_token t k e) i (sql_view C w) else sql_view C w)"
proof -
  let ?ss = "sq_event_subscriptions w" and ?p = "\<lambda>r. sr_id r = i \<and> sr_external_token r = None"
  let ?f = "\<lambda>r. r\<lparr>sr_external_token := Some t, sr_external_worker_id := Some k,
      sr_external_token_expiry := Some (dt_to_rfc3339 C e)\<rparr>"
  have w': "w' = w\<lparr>sq_event_subscriptions := update_where ?p ?f ?ss\<rparr>" "b = list_ex ?p ?ss"
    using assms(3) by (auto simp: sql_set_subscription_token_def update_subscription_def split: if_splits)
  have token: "b = (es_external_token x = None)" if live: "sql_subs C w i = Some x" for x
  proof -
    obtain r where r: "lookup sr_id i ?ss = Some r" by (rule table_view_SomeD[OF live])
    then show ?thesis
      using w'(2) sql_subs_token[OF live r] sql_inv_subs_table[OF assms(1)]
      by (simp add: list_ex_lookup table_inv_def)
  qed
  show ?thesis
  proof (cases b)
    case True
    from change_row[OF sql_inv_subs_table[OF assms(1)] True[unfolded w'(2)], of ?f sr_terminated "set_token t k e"]
    show ?thesis
      using True assms(1,2) w'(1) token by (simp add: row_to_subscription_changes(4) alter_sub_def)
  next
    case False
    then have "w' = w" using w' by (simp add: change_no_row)
    then show ?thesis using False token assms(1) by simp
  qed
qed

lemma sql_clear_token_step:
  assumes "sql_inv C w" "sql_clear_subscription_token i t w = (Inr u, w')"
  shows "sql_inv C w' \<and> (\<forall>x. st_subs (sql_view C w) i = Some x \<longrightarrow> es_external_token x = Some t) \<and>
     sql_view C w' = alter_sub clear_token i (sql_view C w)"
proof -
  let ?ss = "sq_event_subscriptions w" and ?p = "\<lambda>r. sr_id r = i \<and> sr_external_token r = Some t"
  let ?f = "\<lambda>r. r\<lparr>sr_external_token := None, sr_external_worker_id := None, sr_external_token_expiry := None\<rparr>"
  have w': "w' = w\<lparr>sq_event_subscriptions := update_where ?p ?f ?ss\<rparr>" "list_ex ?p ?ss"
    using assms(2) by (auto simp: sql_clear_subscription_token_def update_subscription_def split: if_splits)
  from change_row[OF sql_inv_subs_table[OF assms(1)] w'(2), of ?f sr_terminated clear_token] show ?thesis
    using assms(1) w'(1) sql_subs_token[of C w i]
    by (auto simp: row_to_subscription_changes(3) alter_sub_def)
qed

lemma create_event_step:
  assumes "sql_inv C w" "event_ok C e" "lookup vr_id i (sq_events w) = None"
    and "w' = w\<lparr>sq_events := sq_events w @ [event_to_row C i e]\<rparr>"
  shows "sql_inv C w' \<and>
     sql_view C w' = sql_view C w\<lparr>st_events := (st_events (sql_view C w))(i \<mapsto> e\<lparr>ev_id := i\<rparr>)\<rparr>"
  using insert_row[of vr_id "row_to_event C" "sq_events w" "event_to_row C i e" _ "\<lambda>_. False"]
    row_to_event_inverse[OF assms(2), of i] assms
  by (simp add: sql_inv_def sql_view_def)

lemma mark_step:
  assumes "sql_inv C w" "sql_set_processed b i w = (Inr u, w')"
  shows "sql_inv C w' \<and> sql_view C w' = mark_event b i (sql_view C w) \<and> st_events (sql_view C w) i \<noteq> None"
proof -
  let ?f = "\<lambda>r. r\<lparr>vr_is_processed := b\<rparr>" and ?es = "sq_events w"
  have w': "w' = w\<lparr>sq_events := update_where (\<lambda>r. vr_id r = i \<and> True) ?f ?es\<rparr>" "list_ex (\<lambda>r. vr_id r = i \<and> True) ?es"
    using assms(2) by (auto simp: sql_set_processed_def Let_def split: if_splits)
  have dec: "row_to_event C (?f r) = Inr (x\<lparr>ev_is_processed := b\<rparr>)" if "row_to_event C r = Inr x" for r x
    using that by (auto simp: row_to_event_def res_bind_Inr_iff)
  have inv: "table_inv vr_id (row_to_event C) ?es" using assms(1) by (simp add: sql_inv_def)
  note change = change_row[OF inv w'(2), of ?f "\<lambda>_. False" "\<lambda>x. x\<lparr>ev_is_processed := b\<rparr>", OF _ _ dec, simplified]
  obtain r where r: "lookup vr_id i ?es = Some r" using change(3) by blast
  moreover obtain x where "row_to_event C r = Inr x" by (rule table_inv_row[OF inv r])
  ultimately show ?thesis
    using assms(1) w'(1) change(1,2) by (simp add: sql_inv_def sql_view_def mark_event_def row_view_Some decoded_def)
qed

section \<open>Reads\<close>

lemma sql_get_view:
  assumes "visits_all (answer_order C)" "sql_inv C w" "sql_get_workflow_instance C i w = (g, w')"
  shows "w' = w \<and> (case st_workflows (sql_view C w) i of None \<Rightarrow> g = Inl (WorkflowNotFound i)
      | Some v \<Rightarrow> \<exists>y. g = Inr y \<and> inst_view y = v)"
proof -
  have ptrs: "row_to_workflow C row ps = Inr (y\<lparr>wi_execution_pointers := ps\<rparr>)" "wi_execution_pointers y = []"
    if "row_to_workflow C row [] = Inr y" for row y ps
    using that row_to_workflow_pointers[of C row ps] by (auto simp: row_to_workflow_def res_bind_Inr_iff)
  have "table_inv wr_id (sql_instance C) (sq_workflows w)"
    "pointers_inv pr_id pr_workflow_id (row_to_pointer C) (wr_id ` set (sq_workflows w)) (sq_execution_pointers w)"
    using assms(2) by (auto simp: sql_inv_def)
  from sql_tables.read_view[where i = i and q = "''workflow''" and q' = "''pointers''", OF assms(1) this] show ?thesis
    using assms(3)
    by (auto simp: sql_get_workflow_instance_def sql_instance_def inst_view_def ptrs split: option.splits)
qed

lemma sql_runnable_view:
  assumes "visits_all (answer_order C)" "sql_inv C w" "sql_get_runnable_instances C t w = (q, w')"
  shows "w' = w \<and> (\<exists>ids. q = Inr ids \<and> set ids = runnable_ids (sql_view C w) t)"
proof -
  let ?due = "\<lambda>r. wr_status r = ''Runnable'' \<and>
      (case wr_next_execution r of None \<Rightarrow> False | Some ne \<Rightarrow> ne \<le> timestamp_millis t)"
  have due: "?due r \<longleftrightarrow> wi_status y = Runnable \<and> (\<exists>ne. wi_next_execution y = Some ne \<and> ne \<le> timestamp_millis t)"
    if "sql_instance C r = Inr y" for r y
    using that
    by (auto simp: sql_instance_def row_to_workflow_def res_bind_Inr_iff ok_or_def str_to_status_def
        split: option.splits if_splits)
  have "table_inv wr_id (sql_instance C) (sq_workflows w)"
    "pointers_inv pr_id pr_workflow_id (row_to_pointer C) (wr_id ` set (sq_workflows w)) (sq_execution_pointers w)"
    using assms(2) by (auto simp: sql_inv_def)
  from sql_tables.due_view[where due = ?due and t = t and s = "sql_view C w" and q = "''runnable_instances''",
      OF assms(1) this due] show ?thesis
    using assms(3) unfolding sql_get_runnable_instances_def by (auto simp del: set_map)
qed

section \<open>The provider implements the store\<close>

lemma sqlite_persistence_simps [simp]:
  "create_new_workflow (sqlite_persistence C) = sql_create_new_workflow C"
  "persist_workflow (sqlite_persistence C) = sql_persist_workflow C"
  "persist_workflow_with_subscriptions (sqlite_persistence C) = sql_persist_workflow_with_subscriptions C"
  "get_runnable_instances (sqlite_persistence C) = sql_get_runnable_instances C"
  "get_workflow_instance (sqlite_persistence C) = sql_get_workflow_instance C"
  "next_definition_sequence (sqlite_persistence C) = sql_next_definition_sequence"
  "create_event_subscription (sqlite_persistence C) = sql_create_event_subscription C"
  "terminate_subscription (sqlite_persistence C) = sql_terminate_subscription"
  "set_subscription_token (sqlite_persistence C) = sql_set_subscription_token C"
  "clear_subscription_token (sqlite_persistence C) = sql_clear_subscription_token"
  "create_event (sqlite_persistence C) = sql_create_event C"
  "mark_event_processed (sqlite_persistence C) = sql_mark_event_processed"
  "mark_event_unprocessed (sqlite_persistence C) = sql_mark_event_unprocessed"
  "schedule_command (sqlite_persistence C) = sql_schedule_command"
  by (simp_all add: sqlite_persistence_def)

lemma transaction_Inr: "transaction f x w = (Inr y, w') \<longleftrightarrow> y = x \<and> f w = Inr w'"
  by (auto simp: transaction_def split: sum.splits)

lemma transaction_Inl: "transaction f x w = (Inl e, w') \<longleftrightarrow> w' = w \<and> f w = Inl e"
  by (auto simp: transaction_def split: sum.splits)

lemma sql_drawn [simp]:
  "sql_inv C (w\<lparr>sq_drawn := n\<rparr>) = sql_inv C w" "sql_view C (w\<lparr>sq_drawn := n\<rparr>) = sql_view C w"
  by (simp_all add: sql_inv_def sql_view_def)

lemma schedule_step:
  assumes "sql_schedule_command c w = (r, w')"
  shows "r = Inr () \<and> (sql_inv C w \<longrightarrow> sql_inv C w') \<and> sql_view C w' =
     sql_view C w\<lparr>st_commands := insert (sc_command_name c, sc_data c) (st_commands (sql_view C w))\<rparr>"
proof -
  have inj: "command_name_to_str a = command_name_to_str b \<longleftrightarrow> a = b" for a b
    by (metis option.inject str_to_command_name_inverse)
  show ?thesis
    using assms
    by (auto simp: sql_schedule_command_def Let_def sql_inv_def sql_view_def list_ex_iff inj split: if_splits)
qed

text \<open>The id of a new row: the one the client gave, or a fresh UUID.\<close>

lemma draw_id:
  assumes "(if j = [] then sql_uuid w else (j, w)) = (i, w0)"
  shows "j \<noteq> [] \<longrightarrow> i = j" "sql_inv C w0 = sql_inv C w" "sql_view C w0 = sql_view C w"
  using assms by (auto simp: sql_uuid_def split: if_splits)

lemma sql_step_Ok:
  assumes "sql_inv C w" "sql_admissible C (sql_view C w) x" "run_op (sqlite_persistence C) x w = (Inr r, w')"
  shows "sql_inv C w' \<and> spec_result x r (sql_view C w) \<and> sql_view C w' = spec_op exact_norm x r (sql_view C w)"
proof (cases x)
  case (OpCreate y)
  let ?name = "\<lambda>i. if wi_name y = [] then i else wi_name y"
  obtain i w0 where d: "(if wi_id y = [] then sql_uuid w else (wi_id y, w)) = (i, w0)" by fastforce
  then have w0: "r = RId i" "res_bind (insert_workflow C (workflow_to_row C i (?name i) y) w0)
       (try_fold (insert_pointer C i) (wi_execution_pointers y)) = Inr w'"
    using assms(3) OpCreate by (auto simp: answer_Inr_iff sql_create_new_workflow_def Let_def transaction_Inr)
  have "sql_inv C w0" using assms(1) draw_id(2)[OF d] by simp
  from create_step[OF this _ w0(2)] show ?thesis
    using draw_id(1)[OF d] draw_id(2,3)[OF d, of C] w0(1) assms(2) OpCreate by (simp add: exact_norm_def named_def)
next
  case (OpPersist y)
  then show ?thesis
    using assms write_step[of C w y w'] by (auto simp: answer_Inr_iff sql_persist_workflow_def transaction_Inr exact_norm_def)
next
  case (OpPersistSubs y ss)
  then obtain w1 where "write_instance C y w = Inr w1" "try_fold (insert_subscription C) ss w1 = Inr w'" "r = RUnit"
    using assms(3)
    by (auto simp: answer_Inr_iff sql_persist_workflow_with_subscriptions_def transaction_Inr res_bind_Inr_iff)
  then show ?thesis
    using assms(1,2) OpPersistSubs write_step[of C w y w1] insert_subscriptions_step[of C ss w1 w']
    by (simp add: exact_norm_def)
next
  case (OpSequence d)
  with assms(1,3) show ?thesis
    by (auto simp: answer_Inr_iff sql_next_definition_sequence_def Let_def sql_inv_def sql_view_def fun_eq_iff
        update_conv' split: option.splits)
next
  case (OpSubscribe y)
  obtain i w0 where d: "(if es_id y = [] then sql_uuid w else (es_id y, w)) = (i, w0)" by fastforce
  then have w0: "r = RId i" "insert_subscription C (y\<lparr>es_id := i\<rparr>) w0 = Inr w'"
    using assms(3) OpSubscribe by (auto simp: answer_Inr_iff sql_create_event_subscription_def Let_def transaction_Inr)
  have "sql_inv C w0" using assms(1) draw_id(2)[OF d] by simp
  from insert_subscription_step[OF w0(2) _ this] show ?thesis
    using draw_id(1)[OF d] draw_id(2,3)[OF d, of C] w0(1) assms(1,2) OpSubscribe by (simp add: exact_norm_def subscription_ok_def)
next
  case (OpTerminate i)
  then show ?thesis using terminate_step[OF assms(1), of i] assms(3) by (auto simp: answer_Inr_iff)
next
  case (OpSetToken i t k e)
  then show ?thesis
    using sql_set_token_step[OF assms(1)] assms(2,3) by (auto simp: answer_Inr_iff exact_norm_def)
next
  case (OpClearToken i t)
  then show ?thesis
    using sql_clear_token_step[OF assms(1)] assms(3) by (auto simp: answer_Inr_iff)
next
  case (OpEvent e)
  obtain i w0 where d: "(if ev_id e = [] then sql_uuid w else (ev_id e, w)) = (i, w0)" by fastforce
  then have w0: "r = RId i" "lookup vr_id i (sq_events w0) = None"
    "w' = w0\<lparr>sq_events := sq_events w0 @ [event_to_row C i e]\<rparr>"
    using assms(3) OpEvent by (auto simp: answer_Inr_iff sql_create_event_def Let_def split: if_splits)
  have "sql_inv C w0" using assms(1) draw_id(2)[OF d] by simp
  from create_event_step[OF this _ w0(2,3)] show ?thesis
    using draw_id(1)[OF d] draw_id(2,3)[OF d, of C] w0(1) assms(2) OpEvent by (simp add: exact_norm_def)
next
  case (OpProcessed i)
  then show ?thesis
    using mark_step[OF assms(1), of True i] assms(3) by (auto simp: answer_Inr_iff sql_mark_event_processed_def)
next
  case (OpUnprocessed i)
  then show ?thesis
    using mark_step[OF assms(1), of False i] assms(3) by (auto simp: answer_Inr_iff sql_mark_event_unprocessed_def)
next
  case (OpSchedule c)
  then obtain u where "sql_schedule_command c w = (u, w')" "r = RUnit"
    using assms(3) by (auto simp: answer_Inr_iff)
  then show ?thesis using schedule_step[of c w u w' C] assms(1) OpSchedule by simp
qed

text \<open>A failed call leaves the tables alone; it may have drawn a UUID.\<close>

lemma sql_create_fails:
  "sql_create_new_workflow C x w = (Inl e, w') \<Longrightarrow> w' = w \<or> w' = snd (sql_uuid w)"
  "sql_create_event_subscription C s w = (Inl e, w') \<Longrightarrow> w' = w \<or> w' = snd (sql_uuid w)"
  "sql_create_event C ev w = (Inl e, w') \<Longrightarrow> w' = w \<or> w' = snd (sql_uuid w)"
  by (auto simp: sql_create_new_workflow_def sql_create_event_subscription_def sql_create_event_def sql_uuid_def
      Let_def transaction_Inl split: if_splits)

lemma update_subscription_none: "update_subscription p f w = (False, w') \<Longrightarrow> w' = w"
  by (auto simp: update_subscription_def list_ex_iff update_where_none)

lemma sql_update_fails:
  "sql_terminate_subscription i w = (Inl e, w') \<Longrightarrow> w' = w"
  "sql_set_subscription_token C i t k d w = (Inl e, w') \<Longrightarrow> w' = w"
  "sql_clear_subscription_token i t w = (Inl e, w') \<Longrightarrow> w' = w"
  "sql_set_processed b i w = (Inl e, w') \<Longrightarrow> w' = w"
  by (auto simp: sql_terminate_subscription_def sql_set_subscription_token_def sql_clear_subscription_token_def
      sql_set_processed_def Let_def list_ex_iff update_where_none
      dest: update_subscription_none split: if_splits prod.splits)

lemma sql_step_Err:
  assumes "run_op (sqlite_persistence C) x w = (Inl e, w')"
  shows "w' = w \<or> w' = snd (sql_uuid w)"
  using assms
  by (cases x)
    (auto simp: answer_Inl_iff sql_persist_workflow_def sql_persist_workflow_with_subscriptions_def transaction_Inl
      sql_mark_event_processed_def sql_mark_event_unprocessed_def sql_next_definition_sequence_def Let_def
      dest: sql_create_fails sql_update_fails schedule_step)

text \<open>The contract with the row order as a further condition on the codec, carried by the invariant.\<close>

definition sqlite_invariant :: "text_codec \<Rightarrow> sql_world \<Rightarrow> bool" where
  "sqlite_invariant C w \<longleftrightarrow> visits_all (answer_order C) \<and> sql_inv C w"

interpretation sqlite: persistence_contract "sqlite_persistence C" "sql_view C" "sqlite_invariant C"
  "sql_admissible C" exact_norm
  for C :: text_codec
proof (unfold_locales, goal_cases)
  case (1 w x r w')
  then show ?case using sql_step_Ok[of C w x r w'] by (simp add: sqlite_invariant_def)
next
  case (2 w x e w')
  then show ?case using sql_step_Err[of C x w e w'] by (auto simp: sqlite_invariant_def sql_uuid_def)
next
  case (3 w i g w')
  then show ?case using sql_get_view[of C w i g w'] by (simp add: sqlite_invariant_def)
next
  case (4 w t q w')
  then show ?case using sql_runnable_view[of C w t q w'] by (simp add: sqlite_invariant_def)
qed

lemma sql_new_inv: "sql_inv C (create_tables uuids)" "sql_view C (create_tables uuids) = store_empty"
  by (simp_all add: create_tables_def sql_inv_def pointers_inv_def sql_view_def store_empty_def instances_view_def
      fun_eq_iff)

section \<open>Properties\<close>

text \<open>
  C6: the SQLite provider refines the abstract store. Whatever sequence of calls is made on a new
  database, its decoded content is what the abstract store becomes under the successful calls, the
  failed ones having no effect; reading an instance answers with the stored one up to the order of
  its pointers, or \<open>WorkflowNotFound\<close>; and the poll finds exactly the instances that are due.
  The hypotheses: every row of an answer is visited once, and each call is admissible where it is
  made (its values survive the text columns, a persisted instance exists and keeps its creation
  time).
\<close>

theorem sqlite_refines_store:
  assumes "visits_all (answer_order C)"
    and "run_ops (sqlite_persistence C) xs (create_tables uuids) = (calls, w)"
    and "admissible (sql_admissible C) exact_norm calls store_empty"
  shows "sql_view C w = spec_calls exact_norm calls store_empty \<and>
    (\<forall>i. case st_workflows (spec_calls exact_norm calls store_empty) i of
       None \<Rightarrow> sql_get_workflow_instance C i w = (Inl (WorkflowNotFound i), w)
     | Some v \<Rightarrow> \<exists>x. sql_get_workflow_instance C i w = (Inr x, w) \<and> inst_view x = v) \<and>
    (\<exists>ids. sql_get_runnable_instances C t w = (Inr ids, w) \<and>
       set ids = runnable_ids (spec_calls exact_norm calls store_empty) t)"
proof -
  have "sqlite_invariant C (create_tables uuids)" using assms(1) by (simp add: sqlite_invariant_def sql_new_inv)
  from sqlite.run_ops_refine[OF this assms(2)] have inv: "sqlite_invariant C w"
    and view: "sql_view C w = spec_calls exact_norm calls store_empty"
    using assms(3) by (simp_all add: sql_new_inv)
  have "case st_workflows (sql_view C w) i of None \<Rightarrow> sql_get_workflow_instance C i w = (Inl (WorkflowNotFound i), w)
      | Some v \<Rightarrow> \<exists>x. sql_get_workflow_instance C i w = (Inr x, w) \<and> inst_view x = v" for i
    using sqlite.get[OF inv, of i] by (cases "sql_get_workflow_instance C i w") (auto split: option.splits)
  moreover have "\<exists>ids. sql_get_runnable_instances C t w = (Inr ids, w) \<and> set ids = runnable_ids (sql_view C w) t"
    using sqlite.runnable[OF inv, of t] by (cases "sql_get_runnable_instances C t w") auto
  ultimately show ?thesis using view by metis
qed

text \<open>A codec that is right on the values of the sample run.\<close>

definition sample_codec :: text_codec where
  "sample_codec =
     \<lparr>json_to_text = (\<lambda>j. if j = JObject [] then ''{}'' else ''null''),
      json_of_text = (\<lambda>s. Inr (if s = ''{}'' then JObject [] else JNull)),
      strings_to_text = (\<lambda>_. ''[]''), strings_of_text = (\<lambda>_. Inr []),
      attrs_to_text = (\<lambda>_. ''{}''), attrs_of_text = (\<lambda>_. Inr []),
      dt_to_rfc3339 = (\<lambda>_. ''1970-01-01T00:00:00+00:00''), dt_of_text = (\<lambda>_. Inr 0),
      variant_error = (\<lambda>s. ''unknown variant '' @ s), sqlx_text = (\<lambda>_. ''constraint failed''),
      answer_order = rowid_order\<rparr>"

definition sample_new :: workflow_instance where
  "sample_new = (workflow_instance_new ''w1'' 0 ''build'' 1 (JObject []))\<lparr>wi_name := ''build-1''\<rparr>"

definition sample_run :: workflow_instance where
  "sample_run = sample_new\<lparr>wi_execution_pointers := [execution_pointer_new ''p1'' 0, execution_pointer_new ''p2'' 1]\<rparr>"

definition sample_calls :: "(store_op \<times> op_result res) list" where
  "sample_calls =
     [(OpCreate sample_new, Inr (RId ''w1'')), (OpPersist sample_run, Inr RUnit),
      (OpProcessed ''e1'', Inl (EventNotFound ''e1''))]"

lemmas sample_defs = sample_codec_def sample_new_def sample_run_def sample_calls_def
  workflow_instance_new_def execution_pointer_new_def

lemma sample_runs:
  "fst (run_ops (sqlite_persistence sample_codec) (map fst sample_calls) (create_tables (\<lambda>_. ''u''))) = sample_calls"
  by (simp add: sample_defs create_tables_def sql_create_new_workflow_def transaction_def insert_workflow_def
      sql_persist_workflow_def write_instance_def update_workflow_def delete_pointers_def delete_where_def
      insert_pointer_def update_where_def set_workflow_columns_def workflow_to_row_def answer_def
      sql_mark_event_processed_def sql_set_processed_def Let_def)

lemma sample_admissible: "admissible (sql_admissible sample_codec) exact_norm sample_calls store_empty"
  by (simp add: sample_defs instance_ok_def json_ok_def time_ok_def known_instance_def put_instance_def
      inst_view_def exact_norm_def named_def pointer_ok_def strings_ok_def)

lemma sqlite_refines_store_witness:
  "\<exists>x. sql_get_workflow_instance sample_codec ''w1''
      (snd (run_ops (sqlite_persistence sample_codec) (map fst sample_calls) (create_tables (\<lambda>_. ''u'')))) =
      (Inr x, snd (run_ops (sqlite_persistence sample_codec) (map fst sample_calls) (create_tables (\<lambda>_. ''u'')))) \<and>
    inst_view x = inst_view sample_run"
proof -
  have order: "visits_all (answer_order sample_codec)" by (simp add: sample_codec_def)
  have stored: "st_workflows (spec_calls exact_norm sample_calls store_empty) ''w1'' = Some (inst_view sample_run)"
    by (simp add: sample_calls_def put_instance_def exact_norm_def) (simp add: sample_defs)
  have "run_ops (sqlite_persistence sample_codec) (map fst sample_calls) (create_tables (\<lambda>_. ''u'')) =
      (sample_calls, snd (run_ops (sqlite_persistence sample_codec) (map fst sample_calls) (create_tables (\<lambda>_. ''u''))))"
    using sample_runs by (metis prod.collapse)
  note refined = sqlite_refines_store[OF order this sample_admissible]
  show ?thesis using refined[THEN conjunct2, THEN conjunct1, THEN spec, of "''w1''"] by (simp only: stored option.simps)
qed

section \<open>Scheduled commands\<close>

text \<open>
  Commands are handled and then deleted one by one, by their row: a command that the handler
  schedules meanwhile stays pending.
\<close>

lemma sql_keeps_scheduled_command:
  "map cr_data (sq_scheduled_commands (snd (sql_process_commands sample_codec 0
      (\<lambda>_. sql_schedule_command (command_process_workflow ''w2'' 0))
      (snd (sql_schedule_command (command_process_workflow ''w1'' 0) (create_tables (\<lambda>_. ''u'')))))))
     = [''w2'']"
  by (simp add: sample_codec_def create_tables_def sql_schedule_command_def sql_process_commands_def
      select_where_def rowid_order_def command_process_workflow_def row_to_command_def str_to_command_name_def
      timestamp_millis_def delete_where_def)

text \<open>A command that is already pending keeps the time it was first scheduled for.\<close>

lemma sql_reschedule_ignored:
  "sql_schedule_command (c\<lparr>sc_execute_time := t\<rparr>) (snd (sql_schedule_command c w)) =
     (Inr (), snd (sql_schedule_command c w))"
  by (auto simp: sql_schedule_command_def Let_def)

end
