(* ===== verification/Postgres.thy ===== *)
theory Postgres
  imports Store
begin

text \<open>
  The PostgreSQL persistence provider of \<open>wfe-postgres/src/lib.rs\<close>, with the tables of its
  migration. Columns have native types, so fewer values pass through text than in the SQLite
  provider; what the server does to a value is a parameter: \<open>pg_time\<close> is what a
  \<open>TIMESTAMPTZ\<close> column keeps of an instant (microseconds), \<open>jsonb\<close> what a \<open>JSONB\<close> column
  keeps of a value. The indices and counters are bound as four-byte integers. The column
  \<open>last_heartbeat_at\<close>, which the provider writes from the server's clock and never reads, is left out, and
  text values are assumed to be accepted by the server.
\<close>

section \<open>Parameters\<close>

record pg_env =
  pg_time :: "date_time \<Rightarrow> date_time"
  jsonb :: "json \<Rightarrow> json"
  value_error :: "json \<Rightarrow> string"
  pg_text :: "string \<Rightarrow> string"
  pg_order :: row_order

section \<open>Tables\<close>

record pg_workflow_row =
  gw_id :: string
  gw_name :: string
  gw_root_workflow_id :: "string option"
  gw_definition_id :: string
  gw_version :: int
  gw_description :: "string option"
  gw_reference :: "string option"
  gw_status :: string
  gw_data :: json
  gw_next_execution :: "int option"
  gw_create_time :: date_time
  gw_complete_time :: "date_time option"

record pg_pointer_row =
  gp_id :: string
  gp_workflow_id :: string
  gp_step_id :: int
  gp_active :: bool
  gp_status :: string
  gp_sleep_until :: "date_time option"
  gp_persistence_data :: "json option"
  gp_start_time :: "date_time option"
  gp_end_time :: "date_time option"
  gp_event_name :: "string option"
  gp_event_key :: "string option"
  gp_event_published :: bool
  gp_event_data :: "json option"
  gp_step_name :: "string option"
  gp_retry_count :: int
  gp_children :: json
  gp_context_item :: "json option"
  gp_predecessor_id :: "string option"
  gp_outcome :: "json option"
  gp_scope :: json
  gp_extension_attributes :: json

record pg_subscription_row =
  gs_id :: string
  gs_workflow_id :: string
  gs_step_id :: int
  gs_execution_pointer_id :: string
  gs_event_name :: string
  gs_event_key :: string
  gs_subscribe_as_of :: date_time
  gs_subscription_data :: "json option"
  gs_external_token :: "string option"
  gs_external_worker_id :: "string option"
  gs_external_token_expiry :: "date_time option"

text \<open>The rows of \<open>events\<close> and \<open>execution_errors\<close> have the fields of the structs they hold.\<close>

record pg_command_row =
  gc_id :: nat
  gc_command_name :: string
  gc_data :: string
  gc_execute_time :: int

record pg_world =
  pg_workflows :: "pg_workflow_row list"
  pg_definition_sequences :: "(string \<times> int) list"
  pg_execution_pointers :: "pg_pointer_row list"
  pg_events :: "event list"
  pg_event_subscriptions :: "pg_subscription_row list"
  pg_execution_errors :: "execution_error list"
  pg_scheduled_commands :: "pg_command_row list"
  pg_command_seq :: nat
  pg_uuids :: "nat \<Rightarrow> string"
  pg_drawn :: nat

definition pg_new :: "(nat \<Rightarrow> string) \<Rightarrow> pg_world" where
  "pg_new uuids =
     \<lparr>pg_workflows = [], pg_definition_sequences = [], pg_execution_pointers = [], pg_events = [],
      pg_event_subscriptions = [], pg_execution_errors = [], pg_scheduled_commands = [],
      pg_command_seq = 0, pg_uuids = uuids, pg_drawn = 0\<rparr>"

definition pg_uuid :: "(pg_world, string) eff" where
  "pg_uuid w = (pg_uuids w (pg_drawn w), w\<lparr>pg_drawn := Suc (pg_drawn w)\<rparr>)"

definition fresh_or :: "string \<Rightarrow> (pg_world, string) eff" where
  "fresh_or i w = (if i = [] then pg_uuid w else (i, w))"

text \<open>A failed transaction rolls the tables back; the UUIDs it drew stay drawn.\<close>

definition pg_transaction :: "(pg_world, unit res) eff \<Rightarrow> 'a \<Rightarrow> (pg_world, 'a res) eff" where
  "pg_transaction f x w =
     (case f w of (Inl e, w') \<Rightarrow> (Inl e, w\<lparr>pg_drawn := pg_drawn w'\<rparr>) | (Inr _, w') \<Rightarrow> (Inr x, w'))"

fun eff_each :: "('a \<Rightarrow> ('w, unit res) eff) \<Rightarrow> 'a list \<Rightarrow> ('w, unit res) eff" where
  "eff_each f [] w = (Inr (), w)"
| "eff_each f (x # xs) w = (case f x w of (Inl e, w) \<Rightarrow> (Inl e, w) | (Inr _, w) \<Rightarrow> eff_each f xs w)"

text \<open>\<open>truncate_all\<close> names six of the seven tables.\<close>

definition truncate_all :: "pg_world \<Rightarrow> pg_world" where
  "truncate_all w =
     w\<lparr>pg_execution_errors := [], pg_execution_pointers := [], pg_event_subscriptions := [],
       pg_events := [], pg_scheduled_commands := [], pg_workflows := []\<rparr>"

section \<open>Rows\<close>

definition map_sqlx_err :: "pg_env \<Rightarrow> string \<Rightarrow> wfe_error" where
  "map_sqlx_err E c = Persistence (pg_text E c)"

definition pg_str_to_status :: "string \<Rightarrow> workflow_status res" where
  "pg_str_to_status s = ok_or (Persistence (''Unknown workflow status: '' @ s)) (str_to_status s)"

definition pg_str_to_pointer_status :: "string \<Rightarrow> pointer_status res" where
  "pg_str_to_pointer_status s = ok_or (Persistence (''Unknown pointer status: '' @ s)) (str_to_pointer_status s)"

definition pg_str_to_command_name :: "string \<Rightarrow> command_name res" where
  "pg_str_to_command_name s = ok_or (Persistence (''Unknown command name: '' @ s)) (str_to_command_name s)"

text \<open>\<open>serde_json::to_value\<close> and \<open>from_value\<close> of a vector of strings and of a map.\<close>

definition strings_value :: "string list \<Rightarrow> json" where
  "strings_value xs = JArray (map JString xs)"

definition value_strings :: "json \<Rightarrow> string list option" where
  "value_strings v = and_then (as_array v) (\<lambda>vs. those (map as_str vs))"

definition from_value :: "pg_env \<Rightarrow> string \<Rightarrow> (json \<Rightarrow> 'a option) \<Rightarrow> json \<Rightarrow> 'a res" where
  "from_value E name f v =
     ok_or (Persistence (''Failed to deserialize '' @ name @ '': '' @ value_error E v)) (f v)"

definition pg_row_to_pointer :: "pg_env \<Rightarrow> pg_pointer_row \<Rightarrow> execution_pointer res" where
  "pg_row_to_pointer E row =
     res_bind (from_value E ''children'' value_strings (gp_children row)) (\<lambda>children.
     res_bind (from_value E ''scope'' value_strings (gp_scope row)) (\<lambda>scope.
     res_bind (from_value E ''extension_attributes'' as_object (gp_extension_attributes row)) (\<lambda>ext.
     res_bind (pg_str_to_pointer_status (gp_status row)) (\<lambda>status.
     Inr \<lparr>ep_id = gp_id row, ep_step_id = i64_as_usize (gp_step_id row), ep_active = gp_active row,
          ep_status = status, ep_sleep_until = gp_sleep_until row,
          ep_persistence_data = gp_persistence_data row, ep_start_time = gp_start_time row,
          ep_end_time = gp_end_time row, ep_event_name = gp_event_name row,
          ep_event_key = gp_event_key row, ep_event_published = gp_event_published row,
          ep_event_data = gp_event_data row, ep_step_name = gp_step_name row,
          ep_retry_count = i64_as_u32 (gp_retry_count row), ep_children = children,
          ep_context_item = gp_context_item row, ep_predecessor_id = gp_predecessor_id row,
          ep_outcome = gp_outcome row, ep_scope = scope, ep_extension_attributes = ext\<rparr>))))"

definition pg_pointer_to_row :: "pg_env \<Rightarrow> string \<Rightarrow> execution_pointer \<Rightarrow> pg_pointer_row" where
  "pg_pointer_to_row E workflow_id p =
     \<lparr>gp_id = ep_id p, gp_workflow_id = workflow_id, gp_step_id = usize_as_i32 (ep_step_id p),
      gp_active = ep_active p, gp_status = pointer_status_to_str (ep_status p),
      gp_sleep_until = map_option (pg_time E) (ep_sleep_until p),
      gp_persistence_data = map_option (jsonb E) (ep_persistence_data p),
      gp_start_time = map_option (pg_time E) (ep_start_time p),
      gp_end_time = map_option (pg_time E) (ep_end_time p), gp_event_name = ep_event_name p,
      gp_event_key = ep_event_key p, gp_event_published = ep_event_published p,
      gp_event_data = map_option (jsonb E) (ep_event_data p), gp_step_name = ep_step_name p,
      gp_retry_count = u32_as_i32 (ep_retry_count p),
      gp_children = jsonb E (strings_value (ep_children p)),
      gp_context_item = map_option (jsonb E) (ep_context_item p),
      gp_predecessor_id = ep_predecessor_id p, gp_outcome = map_option (jsonb E) (ep_outcome p),
      gp_scope = jsonb E (strings_value (ep_scope p)),
      gp_extension_attributes = jsonb E (JObject (ep_extension_attributes p))\<rparr>"

definition pg_insert_pointer :: "pg_env \<Rightarrow> string \<Rightarrow> execution_pointer \<Rightarrow> (pg_world, unit res) eff" where
  "pg_insert_pointer E workflow_id p w =
     (if lookup gp_id (ep_id p) (pg_execution_pointers w) \<noteq> None
      then (Inl (map_sqlx_err E ''execution_pointers_pkey''), w)
      else if lookup gw_id workflow_id (pg_workflows w) = None
      then (Inl (map_sqlx_err E ''execution_pointers_workflow_id_fkey''), w)
      else (Inr (), w\<lparr>pg_execution_pointers := pg_execution_pointers w @ [pg_pointer_to_row E workflow_id p]\<rparr>))"

definition insert_pointers :: "pg_env \<Rightarrow> string \<Rightarrow> execution_pointer list \<Rightarrow> (pg_world, unit res) eff" where
  "insert_pointers E workflow_id pointers w = eff_each (pg_insert_pointer E workflow_id) pointers w"

definition load_pointers :: "pg_env \<Rightarrow> string \<Rightarrow> pg_world \<Rightarrow> execution_pointer list res" where
  "load_pointers E workflow_id w =
     try_map (pg_row_to_pointer E)
       (select_where (pg_order E) ''pointers'' (\<lambda>r. gp_workflow_id r = workflow_id) (pg_execution_pointers w))"

section \<open>Workflow repository\<close>

definition pg_workflow_to_row :: "pg_env \<Rightarrow> string \<Rightarrow> string \<Rightarrow> workflow_instance \<Rightarrow> pg_workflow_row" where
  "pg_workflow_to_row E i name inst =
     \<lparr>gw_id = i, gw_name = name, gw_root_workflow_id = wi_root_workflow_id inst,
      gw_definition_id = wi_workflow_definition_id inst, gw_version = u32_as_i32 (wi_version inst),
      gw_description = wi_description inst, gw_reference = wi_reference inst,
      gw_status = status_to_str (wi_status inst), gw_data = jsonb E (wi_data inst),
      gw_next_execution = wi_next_execution inst, gw_create_time = pg_time E (wi_create_time inst),
      gw_complete_time = map_option (pg_time E) (wi_complete_time inst)\<rparr>"

definition pg_insert_workflow :: "pg_env \<Rightarrow> pg_workflow_row \<Rightarrow> (pg_world, unit res) eff" where
  "pg_insert_workflow E row w =
     (if lookup gw_id (gw_id row) (pg_workflows w) \<noteq> None
      then (Inl (map_sqlx_err E ''workflows_pkey''), w)
      else if lookup gw_name (gw_name row) (pg_workflows w) \<noteq> None
      then (Inl (map_sqlx_err E ''workflows_name_key''), w)
      else (Inr (), w\<lparr>pg_workflows := pg_workflows w @ [row]\<rparr>))"

definition pg_create_new_workflow :: "pg_env \<Rightarrow> workflow_instance \<Rightarrow> (pg_world, string res) eff" where
  "pg_create_new_workflow E inst w =
     (let (i, w) = fresh_or (wi_id inst) w;
          name = (if wi_name inst = [] then i else wi_name inst)
      in pg_transaction (\<lambda>w.
           (case pg_insert_workflow E (pg_workflow_to_row E i name inst) w of
              (Inl e, w) \<Rightarrow> (Inl e, w)
            | (Inr _, w) \<Rightarrow> insert_pointers E i (wi_execution_pointers inst) w)) i w)"

text \<open>The \<open>UPDATE\<close>: every column but \<open>id\<close>.\<close>

definition pg_update_workflow :: "pg_env \<Rightarrow> workflow_instance \<Rightarrow> (pg_world, unit res) eff" where
  "pg_update_workflow E inst w =
     (if lookup gw_id (wi_id inst) (pg_workflows w) \<noteq> None \<and>
         list_ex (\<lambda>r. gw_name r = wi_name inst \<and> gw_id r \<noteq> wi_id inst) (pg_workflows w)
      then (Inl (map_sqlx_err E ''workflows_name_key''), w)
      else (Inr (), w\<lparr>pg_workflows :=
              update_where (\<lambda>r. gw_id r = wi_id inst)
                (\<lambda>r. pg_workflow_to_row E (gw_id r) (wi_name inst) inst) (pg_workflows w)\<rparr>))"

definition pg_write_instance :: "pg_env \<Rightarrow> workflow_instance \<Rightarrow> (pg_world, unit res) eff" where
  "pg_write_instance E inst w =
     (case pg_update_workflow E inst w of
        (Inl e, w) \<Rightarrow> (Inl e, w)
      | (Inr _, w) \<Rightarrow>
          insert_pointers E (wi_id inst) (wi_execution_pointers inst)
            (w\<lparr>pg_execution_pointers :=
                 delete_where (\<lambda>r. gp_workflow_id r = wi_id inst) (pg_execution_pointers w)\<rparr>))"

definition pg_persist_workflow :: "pg_env \<Rightarrow> workflow_instance \<Rightarrow> (pg_world, unit res) eff" where
  "pg_persist_workflow E inst w = pg_transaction (pg_write_instance E inst) () w"

definition pg_subscription_to_row :: "pg_env \<Rightarrow> string \<Rightarrow> event_subscription \<Rightarrow> pg_subscription_row" where
  "pg_subscription_to_row E i s =
     \<lparr>gs_id = i, gs_workflow_id = es_workflow_id s, gs_step_id = usize_as_i32 (es_step_id s),
      gs_execution_pointer_id = es_execution_pointer_id s, gs_event_name = es_event_name s,
      gs_event_key = es_event_key s, gs_subscribe_as_of = pg_time E (es_subscribe_as_of s),
      gs_subscription_data = map_option (jsonb E) (es_subscription_data s),
      gs_external_token = es_external_token s, gs_external_worker_id = es_external_worker_id s,
      gs_external_token_expiry = map_option (pg_time E) (es_external_token_expiry s)\<rparr>"

definition pg_insert_subscription :: "pg_env \<Rightarrow> event_subscription \<Rightarrow> (pg_world, string res) eff" where
  "pg_insert_subscription E s w =
     (let (i, w) = fresh_or (es_id s) w in
      if lookup gs_id i (pg_event_subscriptions w) \<noteq> None
      then (Inl (map_sqlx_err E ''event_subscriptions_pkey''), w)
      else (Inr i, w\<lparr>pg_event_subscriptions := pg_event_subscriptions w @ [pg_subscription_to_row E i s]\<rparr>))"

definition pg_persist_workflow_with_subscriptions ::
  "pg_env \<Rightarrow> workflow_instance \<Rightarrow> event_subscription list \<Rightarrow> (pg_world, unit res) eff" where
  "pg_persist_workflow_with_subscriptions E inst subs w =
     pg_transaction (\<lambda>w.
       (case pg_write_instance E inst w of
          (Inl e, w) \<Rightarrow> (Inl e, w)
        | (Inr _, w) \<Rightarrow> eff_each (\<lambda>s w. map_prod (map_sum id (\<lambda>_. ())) id (pg_insert_subscription E s w)) subs w))
       () w"

definition pg_get_runnable_instances :: "pg_env \<Rightarrow> date_time \<Rightarrow> (pg_world, string list res) eff" where
  "pg_get_runnable_instances E as_at w =
     (Inr (map gw_id (select_where (pg_order E) ''runnable_instances''
        (\<lambda>r. gw_status r = ''Runnable'' \<and>
           (case gw_next_execution r of None \<Rightarrow> False | Some ne \<Rightarrow> ne \<le> timestamp_millis as_at))
        (pg_workflows w))), w)"

definition pg_row_to_workflow :: "pg_workflow_row \<Rightarrow> execution_pointer list \<Rightarrow> workflow_instance res" where
  "pg_row_to_workflow row pointers =
     res_bind (pg_str_to_status (gw_status row)) (\<lambda>status.
     Inr \<lparr>wi_id = gw_id row, wi_name = gw_name row, wi_root_workflow_id = gw_root_workflow_id row,
          wi_workflow_definition_id = gw_definition_id row, wi_version = i64_as_u32 (gw_version row),
          wi_description = gw_description row, wi_reference = gw_reference row,
          wi_execution_pointers = pointers, wi_next_execution = gw_next_execution row,
          wi_status = status, wi_data = gw_data row, wi_create_time = gw_create_time row,
          wi_complete_time = gw_complete_time row\<rparr>)"

definition pg_get_workflow_instance :: "pg_env \<Rightarrow> string \<Rightarrow> (pg_world, workflow_instance res) eff" where
  "pg_get_workflow_instance E i w =
     (res_bind (ok_or (WorkflowNotFound i)
        (first_row (select_where (pg_order E) ''workflow'' (\<lambda>r. gw_id r = i) (pg_workflows w)))) (\<lambda>row.
      res_bind (load_pointers E i w) (pg_row_to_workflow row)), w)"

definition pg_get_workflow_instance_by_name :: "pg_env \<Rightarrow> string \<Rightarrow> (pg_world, workflow_instance res) eff" where
  "pg_get_workflow_instance_by_name E name w =
     (case first_row (select_where (pg_order E) ''by_name'' (\<lambda>r. gw_name r = name) (pg_workflows w)) of
        None \<Rightarrow> (Inl (WorkflowNotFound name), w)
      | Some row \<Rightarrow> pg_get_workflow_instance E (gw_id row) w)"

definition pg_next_definition_sequence :: "string \<Rightarrow> (pg_world, u64 res) eff" where
  "pg_next_definition_sequence d w =
     (let n = (case map_of (pg_definition_sequences w) d of None \<Rightarrow> 1 | Some k \<Rightarrow> k + 1)
      in (Inr (word_of_int n), w\<lparr>pg_definition_sequences := AList.update d n (pg_definition_sequences w)\<rparr>))"

fun pg_collect_instances :: "(string \<Rightarrow> workflow_instance res) \<Rightarrow> string list \<Rightarrow> workflow_instance list res" where
  "pg_collect_instances g [] = Inr []"
| "pg_collect_instances g (i # is) =
     (case g i of
        Inr x \<Rightarrow> map_sum id (Cons x) (pg_collect_instances g is)
      | Inl (WorkflowNotFound _) \<Rightarrow> pg_collect_instances g is
      | Inl e \<Rightarrow> Inl e)"

definition pg_get_workflow_instances :: "pg_env \<Rightarrow> string list \<Rightarrow> (pg_world, workflow_instance list res) eff" where
  "pg_get_workflow_instances E ids w =
     (pg_collect_instances (\<lambda>i. fst (pg_get_workflow_instance E i w)) ids, w)"

section \<open>Subscription repository\<close>

definition pg_create_event_subscription :: "pg_env \<Rightarrow> event_subscription \<Rightarrow> (pg_world, string res) eff" where
  "pg_create_event_subscription E s w = pg_insert_subscription E s w"

definition pg_row_to_subscription :: "pg_subscription_row \<Rightarrow> event_subscription" where
  "pg_row_to_subscription row =
     \<lparr>es_id = gs_id row, es_workflow_id = gs_workflow_id row, es_step_id = i64_as_usize (gs_step_id row),
      es_execution_pointer_id = gs_execution_pointer_id row, es_event_name = gs_event_name row,
      es_event_key = gs_event_key row, es_subscribe_as_of = gs_subscribe_as_of row,
      es_subscription_data = gs_subscription_data row, es_external_token = gs_external_token row,
      es_external_worker_id = gs_external_worker_id row,
      es_external_token_expiry = gs_external_token_expiry row\<rparr>"

definition pg_open_for :: "pg_env \<Rightarrow> string \<Rightarrow> string \<Rightarrow> date_time \<Rightarrow> pg_subscription_row \<Rightarrow> bool" where
  "pg_open_for E n k as_of r \<longleftrightarrow>
     gs_event_name r = n \<and> gs_event_key r = k \<and> gs_subscribe_as_of r \<le> pg_time E as_of \<and>
     gs_external_token r = None"

definition pg_get_subscriptions ::
  "pg_env \<Rightarrow> string \<Rightarrow> string \<Rightarrow> date_time \<Rightarrow> (pg_world, event_subscription list res) eff" where
  "pg_get_subscriptions E n k as_of w =
     (Inr (map pg_row_to_subscription
        (select_where (pg_order E) ''subscriptions'' (pg_open_for E n k as_of) (pg_event_subscriptions w))), w)"

definition pg_terminate_subscription :: "string \<Rightarrow> (pg_world, unit res) eff" where
  "pg_terminate_subscription i w =
     (if list_ex (\<lambda>r. gs_id r = i) (pg_event_subscriptions w) then Inr () else Inl (SubscriptionNotFound i),
      w\<lparr>pg_event_subscriptions := delete_where (\<lambda>r. gs_id r = i) (pg_event_subscriptions w)\<rparr>)"

definition pg_get_subscription :: "pg_env \<Rightarrow> string \<Rightarrow> (pg_world, event_subscription res) eff" where
  "pg_get_subscription E i w =
     (map_sum id pg_row_to_subscription (ok_or (SubscriptionNotFound i)
        (first_row (select_where (pg_order E) ''subscription'' (\<lambda>r. gs_id r = i) (pg_event_subscriptions w)))), w)"

definition pg_get_first_open_subscription ::
  "pg_env \<Rightarrow> string \<Rightarrow> string \<Rightarrow> date_time \<Rightarrow> (pg_world, event_subscription option res) eff" where
  "pg_get_first_open_subscription E n k as_of w =
     (Inr (map_option pg_row_to_subscription (first_row
        (select_where (pg_order E) ''open_subscription'' (pg_open_for E n k as_of) (pg_event_subscriptions w)))), w)"

definition pg_update_subscription ::
  "(pg_subscription_row \<Rightarrow> bool) \<Rightarrow> (pg_subscription_row \<Rightarrow> pg_subscription_row) \<Rightarrow> pg_world \<Rightarrow> bool \<times> pg_world" where
  "pg_update_subscription p f w =
     (list_ex p (pg_event_subscriptions w),
      w\<lparr>pg_event_subscriptions := update_where p f (pg_event_subscriptions w)\<rparr>)"

definition pg_set_subscription_token ::
  "pg_env \<Rightarrow> string \<Rightarrow> string \<Rightarrow> string \<Rightarrow> date_time \<Rightarrow> (pg_world, bool res) eff" where
  "pg_set_subscription_token E i token worker_id expiry w =
     (let (hit, w) = pg_update_subscription (\<lambda>r. gs_id r = i \<and> gs_external_token r = None)
            (\<lambda>r. r\<lparr>gs_external_token := Some token, gs_external_worker_id := Some worker_id,
                   gs_external_token_expiry := Some (pg_time E expiry)\<rparr>) w
      in (if hit then Inr True
          else if list_ex (\<lambda>r. gs_id r = i) (pg_event_subscriptions w) then Inr False
          else Inl (SubscriptionNotFound i), w))"

definition pg_clear_subscription_token :: "string \<Rightarrow> string \<Rightarrow> (pg_world, unit res) eff" where
  "pg_clear_subscription_token i token w =
     (let (hit, w) = pg_update_subscription (\<lambda>r. gs_id r = i \<and> gs_external_token r = Some token)
            (\<lambda>r. r\<lparr>gs_external_token := None, gs_external_worker_id := None,
                   gs_external_token_expiry := None\<rparr>) w
      in (if hit then Inr () else Inl (SubscriptionNotFound i), w))"

section \<open>Event repository\<close>

definition pg_event_to_row :: "pg_env \<Rightarrow> string \<Rightarrow> event \<Rightarrow> event" where
  "pg_event_to_row E i ev = ev\<lparr>ev_id := i, ev_data := jsonb E (ev_data ev), ev_time := pg_time E (ev_time ev)\<rparr>"

definition pg_create_event :: "pg_env \<Rightarrow> event \<Rightarrow> (pg_world, string res) eff" where
  "pg_create_event E ev w =
     (let (i, w) = fresh_or (ev_id ev) w
      in if lookup ev_id i (pg_events w) \<noteq> None
         then (Inl (map_sqlx_err E ''events_pkey''), w)
         else (Inr i, w\<lparr>pg_events := pg_events w @ [pg_event_to_row E i ev]\<rparr>))"

definition pg_get_event :: "pg_env \<Rightarrow> string \<Rightarrow> (pg_world, event res) eff" where
  "pg_get_event E i w =
     (ok_or (EventNotFound i)
        (first_row (select_where (pg_order E) ''event'' (\<lambda>r. ev_id r = i) (pg_events w))), w)"

definition pg_get_runnable_events :: "pg_env \<Rightarrow> date_time \<Rightarrow> (pg_world, string list res) eff" where
  "pg_get_runnable_events E as_at w =
     (Inr (map ev_id (select_where (pg_order E) ''runnable_events''
        (\<lambda>r. \<not> ev_is_processed r \<and> ev_time r \<le> pg_time E as_at) (pg_events w))), w)"

definition pg_get_events :: "pg_env \<Rightarrow> string \<Rightarrow> string \<Rightarrow> date_time \<Rightarrow> (pg_world, string list res) eff" where
  "pg_get_events E n k as_of w =
     (Inr (map ev_id (select_where (pg_order E) ''events''
        (\<lambda>r. ev_name r = n \<and> ev_key r = k \<and> ev_time r \<le> pg_time E as_of) (pg_events w))), w)"

definition pg_set_processed :: "bool \<Rightarrow> string \<Rightarrow> (pg_world, unit res) eff" where
  "pg_set_processed b i w =
     (if list_ex (\<lambda>r. ev_id r = i) (pg_events w) then Inr () else Inl (EventNotFound i),
      w\<lparr>pg_events := update_where (\<lambda>r. ev_id r = i) (\<lambda>r. r\<lparr>ev_is_processed := b\<rparr>) (pg_events w)\<rparr>)"

definition pg_mark_event_processed :: "string \<Rightarrow> (pg_world, unit res) eff" where
  "pg_mark_event_processed i w = pg_set_processed True i w"

definition pg_mark_event_unprocessed :: "string \<Rightarrow> (pg_world, unit res) eff" where
  "pg_mark_event_unprocessed i w = pg_set_processed False i w"

section \<open>Scheduled commands and errors\<close>

text \<open>
  \<open>ON CONFLICT DO UPDATE\<close>: a pending command takes the new time. The serial number of the row is
  drawn before the conflict is found.
\<close>

definition pg_schedule_command :: "scheduled_command \<Rightarrow> (pg_world, unit res) eff" where
  "pg_schedule_command c w =
     (let name = command_name_to_str (sc_command_name c);
          same = (\<lambda>r. gc_command_name r = name \<and> gc_data r = sc_data c);
          w = w\<lparr>pg_command_seq := Suc (pg_command_seq w)\<rparr>
      in (Inr (), w\<lparr>pg_scheduled_commands :=
            (if list_ex same (pg_scheduled_commands w)
             then update_where same (\<lambda>r. r\<lparr>gc_execute_time := sc_execute_time c\<rparr>) (pg_scheduled_commands w)
             else pg_scheduled_commands w @
               [\<lparr>gc_id = pg_command_seq w, gc_command_name = name, gc_data = sc_data c,
                 gc_execute_time = sc_execute_time c\<rparr>])\<rparr>))"

definition pg_row_to_command :: "pg_command_row \<Rightarrow> scheduled_command res" where
  "pg_row_to_command row =
     res_bind (pg_str_to_command_name (gc_command_name row)) (\<lambda>name.
     Inr \<lparr>sc_command_name = name, sc_data = gc_data row, sc_execute_time = gc_execute_time row\<rparr>)"

definition pg_process_commands ::
  "pg_env \<Rightarrow> date_time \<Rightarrow> (scheduled_command \<Rightarrow> (pg_world, unit res) eff) \<Rightarrow> (pg_world, unit res) eff" where
  "pg_process_commands E as_of handler w =
     (case try_map pg_row_to_command (select_where (pg_order E) ''due_commands''
        (\<lambda>r. gc_execute_time r \<le> timestamp_millis as_of) (pg_scheduled_commands w)) of
        Inl e \<Rightarrow> (Inl e, w)
      | Inr commands \<Rightarrow>
          (case eff_each handler commands w of
             (Inl e, w) \<Rightarrow> (Inl e, w)
           | (Inr _, w) \<Rightarrow>
               (Inr (), w\<lparr>pg_scheduled_commands :=
                  delete_where (\<lambda>r. gc_execute_time r \<le> timestamp_millis as_of) (pg_scheduled_commands w)\<rparr>)))"

definition pg_persist_errors :: "pg_env \<Rightarrow> execution_error list \<Rightarrow> (pg_world, unit res) eff" where
  "pg_persist_errors E errors w =
     (Inr (), fold (\<lambda>e w. w\<lparr>pg_execution_errors :=
        pg_execution_errors w @ [e\<lparr>xe_error_time := pg_time E (xe_error_time e)\<rparr>]\<rparr>) errors w)"

definition postgres_persistence :: "pg_env \<Rightarrow> pg_world persistence_provider" where
  "postgres_persistence E =
     \<lparr>create_new_workflow = pg_create_new_workflow E, persist_workflow = pg_persist_workflow E,
      persist_workflow_with_subscriptions = pg_persist_workflow_with_subscriptions E,
      get_runnable_instances = pg_get_runnable_instances E,
      get_workflow_instance = pg_get_workflow_instance E,
      get_workflow_instance_by_name = pg_get_workflow_instance_by_name E,
      next_definition_sequence = pg_next_definition_sequence,
      get_workflow_instances = pg_get_workflow_instances E,
      create_event_subscription = pg_create_event_subscription E,
      get_subscriptions = pg_get_subscriptions E,
      terminate_subscription = pg_terminate_subscription,
      get_subscription = pg_get_subscription E,
      get_first_open_subscription = pg_get_first_open_subscription E,
      set_subscription_token = pg_set_subscription_token E,
      clear_subscription_token = pg_clear_subscription_token,
      create_event = pg_create_event E, get_event = pg_get_event E,
      get_runnable_events = pg_get_runnable_events E, get_events = pg_get_events E,
      mark_event_processed = pg_mark_event_processed,
      mark_event_unprocessed = pg_mark_event_unprocessed,
      schedule_command = pg_schedule_command, persist_errors = pg_persist_errors E\<rparr>"

end
