(* ===== verification/Postgres_Correct.thy ===== *)
theory Postgres_Correct
  imports Postgres Tables
begin

text \<open>
  The PostgreSQL provider implements the abstract store up to a normal form: instants keep what a
  \<open>TIMESTAMPTZ\<close> column keeps, JSON values what \<open>JSONB\<close> keeps. Step indices must fit the
  four-byte columns, and lists of strings must survive \<open>JSONB\<close>. Unlike the SQLite provider the
  creation time is rewritten with every persist. The scheduled commands of the provider are looked
  at separately: a command that a handler schedules while the due ones are processed can be deleted
  unprocessed.
\<close>

section \<open>Normal form\<close>

definition pg_kept_pointer :: "pg_env \<Rightarrow> execution_pointer \<Rightarrow> execution_pointer" where
  "pg_kept_pointer E p =
     p\<lparr>ep_sleep_until := map_option (pg_time E) (ep_sleep_until p),
       ep_persistence_data := map_option (jsonb E) (ep_persistence_data p),
       ep_start_time := map_option (pg_time E) (ep_start_time p),
       ep_end_time := map_option (pg_time E) (ep_end_time p),
       ep_event_data := map_option (jsonb E) (ep_event_data p),
       ep_context_item := map_option (jsonb E) (ep_context_item p),
       ep_outcome := map_option (jsonb E) (ep_outcome p),
       ep_extension_attributes := unwrap_or (as_object (jsonb E (JObject (ep_extension_attributes p)))) []\<rparr>"

definition pg_kept_instance :: "pg_env \<Rightarrow> workflow_instance \<Rightarrow> workflow_instance" where
  "pg_kept_instance E x =
     x\<lparr>wi_execution_pointers := map (pg_kept_pointer E) (wi_execution_pointers x),
       wi_data := jsonb E (wi_data x), wi_create_time := pg_time E (wi_create_time x),
       wi_complete_time := map_option (pg_time E) (wi_complete_time x)\<rparr>"

definition pg_kept_sub :: "pg_env \<Rightarrow> event_subscription \<Rightarrow> event_subscription" where
  "pg_kept_sub E s =
     s\<lparr>es_subscribe_as_of := pg_time E (es_subscribe_as_of s),
       es_subscription_data := map_option (jsonb E) (es_subscription_data s),
       es_external_token_expiry := map_option (pg_time E) (es_external_token_expiry s)\<rparr>"

definition pg_norm :: "pg_env \<Rightarrow> norm" where
  "pg_norm E =
     \<lparr>nm_instance = pg_kept_instance E,
      nm_event = (\<lambda>e. e\<lparr>ev_data := jsonb E (ev_data e), ev_time := pg_time E (ev_time e)\<rparr>),
      nm_sub = pg_kept_sub E, nm_time = pg_time E\<rparr>"

text \<open>What fits the columns.\<close>

definition pg_pointer_ok :: "pg_env \<Rightarrow> execution_pointer \<Rightarrow> bool" where
  "pg_pointer_ok E p \<longleftrightarrow>
     ep_step_id p < 2 ^ 31 \<and> jsonb E (strings_value (ep_children p)) = strings_value (ep_children p) \<and>
     jsonb E (strings_value (ep_scope p)) = strings_value (ep_scope p) \<and>
     as_object (jsonb E (JObject (ep_extension_attributes p))) \<noteq> None"

definition pg_instance_ok :: "pg_env \<Rightarrow> workflow_instance \<Rightarrow> bool" where
  "pg_instance_ok E x \<longleftrightarrow> list_all (pg_pointer_ok E) (wi_execution_pointers x)"

fun pg_admissible :: "pg_env \<Rightarrow> store \<Rightarrow> store_op \<Rightarrow> bool" where
  "pg_admissible E s (OpCreate x) \<longleftrightarrow> pg_instance_ok E x"
| "pg_admissible E s (OpPersist x) \<longleftrightarrow> pg_instance_ok E x \<and> st_workflows s (wi_id x) \<noteq> None"
| "pg_admissible E s (OpPersistSubs x ss) \<longleftrightarrow>
     pg_instance_ok E x \<and> st_workflows s (wi_id x) \<noteq> None \<and>
     list_all (\<lambda>y. es_id y \<noteq> [] \<and> es_step_id y < 2 ^ 31) ss"
| "pg_admissible E s (OpSubscribe y) \<longleftrightarrow> es_step_id y < 2 ^ 31"
| "pg_admissible E s _ \<longleftrightarrow> True"

section \<open>Rows decode to the normal form\<close>

lemma value_strings_inverse [simp]: "value_strings (strings_value xs) = Some xs"
proof -
  have "those (map as_str (map JString xs)) = Some xs" by (induction xs) (auto simp: as_str_def)
  then show ?thesis by (simp add: value_strings_def strings_value_def as_array_def)
qed

lemma pg_row_to_pointer_inverse:
  "pg_pointer_ok E p \<Longrightarrow> pg_row_to_pointer E (pg_pointer_to_row E i p) = Inr (pg_kept_pointer E p)"
  by (auto simp: pg_pointer_ok_def pg_row_to_pointer_def pg_pointer_to_row_def from_value_def
      pg_str_to_pointer_status_def i32_usize_inverse pg_kept_pointer_def)

definition pg_instance :: "pg_workflow_row \<Rightarrow> workflow_instance res" where
  "pg_instance r = pg_row_to_workflow r []"

lemma pg_instance_inverse:
  "pg_instance (pg_workflow_to_row E i n x) =
     Inr ((pg_kept_instance E (x\<lparr>wi_id := i, wi_name := n\<rparr>))\<lparr>wi_execution_pointers := []\<rparr>)"
  by (simp add: pg_instance_def pg_row_to_workflow_def pg_workflow_to_row_def pg_str_to_status_def
      pg_kept_instance_def)

lemma pg_kept_pointers: "wi_execution_pointers (pg_kept_instance E x) = map (pg_kept_pointer E) (wi_execution_pointers x)"
  by (simp add: pg_kept_instance_def)

lemma pg_row_to_subscription_inverse:
  "es_step_id s < 2 ^ 31 \<Longrightarrow>
     pg_row_to_subscription (pg_subscription_to_row E i s) = (pg_kept_sub E s)\<lparr>es_id := i\<rparr>"
  by (simp add: pg_row_to_subscription_def pg_subscription_to_row_def pg_kept_sub_def i32_usize_inverse)

lemma pg_row_sels [simp]:
  "gp_id (pg_pointer_to_row E i p) = ep_id p" "gp_workflow_id (pg_pointer_to_row E i p) = i"
  "gw_id (pg_workflow_to_row E i n x) = i" "gw_name (pg_workflow_to_row E i n x) = n"
  "gs_id (pg_subscription_to_row E i s) = i" "ev_id (pg_event_to_row E i e) = i"
  by (simp_all add: pg_pointer_to_row_def pg_workflow_to_row_def pg_subscription_to_row_def pg_event_to_row_def)

interpretation pg_tables: instance_tables gw_id gw_name pg_instance gp_id gp_workflow_id "pg_row_to_pointer E"
  "pg_pointer_to_row E" "pg_kept_pointer E" "pg_pointer_ok E"
  for E :: pg_env
  by unfold_locales (simp_all add: pg_row_to_pointer_inverse)

section \<open>View and invariant\<close>

abbreviation pg_instances :: "pg_env \<Rightarrow> pg_world \<Rightarrow> string \<rightharpoonup> instance_view" where
  "pg_instances E w \<equiv> instances_view gw_id pg_instance gp_workflow_id (pg_row_to_pointer E)
     (pg_workflows w) (pg_execution_pointers w)"

definition total_row :: "('r \<Rightarrow> 'a) \<Rightarrow> 'r \<Rightarrow> 'a res" where
  "total_row f r = Inr (f r)"

abbreviation pg_subs :: "pg_world \<Rightarrow> string \<rightharpoonup> event_subscription" where
  "pg_subs w \<equiv> table_view gs_id (\<lambda>_. False) (total_row pg_row_to_subscription) (pg_event_subscriptions w)"

definition pg_view :: "pg_env \<Rightarrow> pg_world \<Rightarrow> store" where
  "pg_view E w =
     \<lparr>st_workflows = pg_instances E w,
      st_events = table_view ev_id (\<lambda>_. False) (total_row (\<lambda>e. e)) (pg_events w),
      st_subs = pg_subs w,
      st_seqs = (\<lambda>d. word_of_int (unwrap_or (map_of (pg_definition_sequences w) d) 0)),
      st_commands = {(n, d). \<exists>r \<in> set (pg_scheduled_commands w).
        gc_command_name r = command_name_to_str n \<and> gc_data r = d}\<rparr>"

definition pg_inv :: "pg_env \<Rightarrow> pg_world \<Rightarrow> bool" where
  "pg_inv E w \<longleftrightarrow>
     table_inv gw_id pg_instance (pg_workflows w) \<and> distinct (map gw_name (pg_workflows w)) \<and>
     pointers_inv gp_id gp_workflow_id (pg_row_to_pointer E) (gw_id ` set (pg_workflows w)) (pg_execution_pointers w) \<and>
     table_inv ev_id (total_row (\<lambda>e. e)) (pg_events w) \<and>
     table_inv gs_id (total_row pg_row_to_subscription) (pg_event_subscriptions w)"

lemma pg_view_sel [simp]:
  "st_workflows (pg_view E w) = pg_instances E w" "st_subs (pg_view E w) = pg_subs w"
  "st_events (pg_view E w) = table_view ev_id (\<lambda>_. False) (total_row (\<lambda>e. e)) (pg_events w)"
  "st_seqs (pg_view E w) d = word_of_int (unwrap_or (map_of (pg_definition_sequences w) d) 0)"
  by (simp_all add: pg_view_def)

lemma pg_drawn [simp]:
  "pg_inv E (w\<lparr>pg_drawn := n\<rparr>) = pg_inv E w" "pg_view E (w\<lparr>pg_drawn := n\<rparr>) = pg_view E w"
  by (simp_all add: pg_inv_def pg_view_def)

lemma fresh_or_id:
  assumes "fresh_or j w = (i, w0)"
  shows "j \<noteq> [] \<longrightarrow> i = j" "pg_inv E w0 = pg_inv E w" "pg_view E w0 = pg_view E w"
    "pg_event_subscriptions w0 = pg_event_subscriptions w" "pg_events w0 = pg_events w"
  using assms by (auto simp: fresh_or_def pg_uuid_def split: if_splits)

section \<open>Writing an instance\<close>

lemma pg_insert_pointers_Ok:
  "insert_pointers E i ps w = (Inr u, w') \<Longrightarrow>
     w' = w\<lparr>pg_execution_pointers := pg_execution_pointers w @ map (pg_pointer_to_row E i) ps\<rparr> \<and>
     distinct (map ep_id ps) \<and> ep_id ` set ps \<inter> gp_id ` set (pg_execution_pointers w) = {}"
proof (induction ps arbitrary: w)
  case (Cons p ps)
  obtain w1 where w1: "pg_insert_pointer E i p w = (Inr (), w1)" "insert_pointers E i ps w1 = (Inr u, w')"
    using Cons.prems by (auto simp: insert_pointers_def split: prod.splits sum.splits)
  show ?case using Cons.IH[OF w1(2)] w1(1) by (auto simp: pg_insert_pointer_def lookup_None_iff split: if_splits)
qed (simp add: insert_pointers_def)

lemma pg_create_step:
  assumes "pg_inv E w" "pg_instance_ok E x" "pg_insert_workflow E (pg_workflow_to_row E i n x) w = (Inr u, w1)"
    and "insert_pointers E i (wi_execution_pointers x) w1 = (Inr v, w')"
  shows "pg_inv E w' \<and>
     pg_view E w' = put_instance i (pg_kept_instance E (x\<lparr>wi_id := i, wi_name := n\<rparr>)) (pg_view E w)"
proof -
  let ?row = "pg_workflow_to_row E i n x" and ?ps = "wi_execution_pointers x"
  have new: "i \<notin> gw_id ` set (pg_workflows w)" "n \<notin> gw_name ` set (pg_workflows w)"
    "w1 = w\<lparr>pg_workflows := pg_workflows w @ [?row]\<rparr>"
    using assms(3) by (auto simp: pg_insert_workflow_def lookup_None_iff split: if_splits)
  note loop = pg_insert_pointers_Ok[OF assms(4)]
  have ok: "list_all (pg_pointer_ok E) ?ps" "distinct (map ep_id ?ps)"
    "ep_id ` set ?ps \<inter> gp_id ` set (pg_execution_pointers w) = {}" "gw_id ?row \<notin> gw_id ` set (pg_workflows w)"
    using assms(2) loop new by (auto simp: pg_instance_ok_def)
  have inv: "table_inv gw_id pg_instance (pg_workflows w)"
    "pointers_inv gp_id gp_workflow_id (pg_row_to_pointer E) (gw_id ` set (pg_workflows w)) (pg_execution_pointers w)"
    using assms(1) by (auto simp: pg_inv_def)
  from pg_tables.create_view[OF inv ok(4) pg_instance_inverse ok(1-3)] show ?thesis
    using assms(1) loop new
    by (simp add: pg_inv_def pg_view_def put_instance_def inst_view_def pg_kept_pointers)
qed

lemma pg_write_step:
  assumes "pg_inv E w" "pg_instance_ok E x" "st_workflows (pg_view E w) (wi_id x) \<noteq> None"
    and "pg_write_instance E x w = (Inr u, w')"
  shows "pg_inv E w' \<and> pg_view E w' = put_instance (wi_id x) (pg_kept_instance E x) (pg_view E w)"
proof -
  let ?i = "wi_id x" and ?ps = "wi_execution_pointers x" and ?f = "\<lambda>r. pg_workflow_to_row E (gw_id r) (wi_name x) x"
  let ?P' = "delete_where (\<lambda>r. gp_workflow_id r = ?i) (pg_execution_pointers w)"
  have inv: "table_inv gw_id pg_instance (pg_workflows w)"
    "pointers_inv gp_id gp_workflow_id (pg_row_to_pointer E) (gw_id ` set (pg_workflows w)) (pg_execution_pointers w)"
    using assms(1) by (auto simp: pg_inv_def)
  have "lookup gw_id ?i (pg_workflows w) \<noteq> None"
    using assms(3) pg_tables.view_None[of ?i "pg_workflows w" E] by force
  then obtain row where row: "lookup gw_id ?i (pg_workflows w) = Some row" by blast
  have dec: "pg_instance (?f row) = Inr ((pg_kept_instance E x)\<lparr>wi_execution_pointers := []\<rparr>)"
    using lookup_Some[OF row] by (cases x) (simp add: pg_instance_inverse)
  have upd: "\<not> list_ex (\<lambda>r. gw_name r = wi_name x \<and> gw_id r \<noteq> ?i) (pg_workflows w)"
    "insert_pointers E ?i ?ps (w\<lparr>pg_workflows := update_where (\<lambda>r. gw_id r = ?i) ?f (pg_workflows w),
       pg_execution_pointers := ?P'\<rparr>) = (Inr u, w')"
    using assms(4) row by (auto simp: pg_write_instance_def pg_update_workflow_def split: if_splits)
  note loop = pg_insert_pointers_Ok[OF upd(2)]
  have ok: "list_all (pg_pointer_ok E) ?ps" "distinct (map ep_id ?ps)" "ep_id ` set ?ps \<inter> gp_id ` set ?P' = {}"
    using assms(2) loop by (auto simp: pg_instance_ok_def)
  have names: "distinct (map gw_name (update_where (\<lambda>r. gw_id r = ?i) ?f (pg_workflows w)))"
    using assms(1) upd(1)
    by (intro distinct_update_where[where n = "wi_name x"]) (auto simp: pg_inv_def table_inv_def list_ex_iff)
  have keep: "is_ok (pg_instance (?f r))" for r by (simp add: pg_instance_inverse)
  from pg_tables.rewrite_view[where f = ?f, OF inv row _ keep dec ok] show ?thesis
    using assms(1) loop names
    by (simp add: pg_inv_def pg_view_def put_instance_def inst_view_def pg_kept_pointers)
qed

section \<open>Subscriptions and events\<close>

lemma total_row_simps [simp]:
  "total_row f r = Inr x \<longleftrightarrow> x = f r" "is_ok (total_row f r)" "ok_option (total_row f r) = Some (f r)"
  by (auto simp: total_row_def)

lemma pg_inv_subs_table: "pg_inv E w \<Longrightarrow> table_inv gs_id (total_row pg_row_to_subscription) (pg_event_subscriptions w)"
  by (simp add: pg_inv_def)

lemma pg_inv_subs [simp]:
  "pg_inv E w \<Longrightarrow> pg_inv E (w\<lparr>pg_event_subscriptions := ss\<rparr>) \<longleftrightarrow> table_inv gs_id (total_row pg_row_to_subscription) ss"
  by (simp add: pg_inv_def)

lemma pg_view_subs [simp]:
  "pg_view E (w\<lparr>pg_event_subscriptions := ss\<rparr>) =
     pg_view E w\<lparr>st_subs := table_view gs_id (\<lambda>_. False) (total_row pg_row_to_subscription) ss\<rparr>"
  by (simp add: pg_view_def)

lemma pg_insert_subscription_step:
  assumes "pg_insert_subscription E s w = (Inr i, w')" "es_step_id s < 2 ^ 31" "pg_inv E w"
  shows "pg_inv E w' \<and> pg_view E w' = put_sub (pg_kept_sub E (s\<lparr>es_id := i\<rparr>)) (pg_view E w) \<and> (es_id s \<noteq> [] \<longrightarrow> i = es_id s)"
proof -
  obtain j w0 where d: "fresh_or (es_id s) w = (j, w0)" by fastforce
  then have w0: "lookup gs_id j (pg_event_subscriptions w0) = None" "j = i"
    "w' = w0\<lparr>pg_event_subscriptions := pg_event_subscriptions w0 @ [pg_subscription_to_row E i s]\<rparr>"
    using assms(1) by (auto simp: pg_insert_subscription_def split: if_splits)
  have inv: "pg_inv E w0" using assms(3) fresh_or_id(2)[OF d] by simp
  have dec: "total_row pg_row_to_subscription (pg_subscription_to_row E i s) = Inr (pg_kept_sub E (s\<lparr>es_id := i\<rparr>))"
    using pg_row_to_subscription_inverse[OF assms(2)] by (simp add: pg_kept_sub_def)
  from insert_row[where hid = "\<lambda>_. False", OF pg_inv_subs_table[OF inv] _ dec] show ?thesis
    using inv w0 fresh_or_id(1,4)[OF d] fresh_or_id(3)[OF d, of E] by (simp add: put_sub_def pg_kept_sub_def)
qed

lemma pg_insert_subscriptions_step:
  "eff_each (\<lambda>s w. map_prod (map_sum id (\<lambda>_. ())) id (pg_insert_subscription E s w)) ss w = (Inr u, w') \<Longrightarrow>
     list_all (\<lambda>y. es_id y \<noteq> [] \<and> es_step_id y < 2 ^ 31) ss \<Longrightarrow> pg_inv E w \<Longrightarrow>
     pg_inv E w' \<and> pg_view E w' = fold (\<lambda>s. put_sub (pg_kept_sub E s)) ss (pg_view E w)"
proof (induction ss arbitrary: w)
  case (Cons s ss)
  obtain r w1 where w1: "pg_insert_subscription E s w = (r, w1)" by fastforce
  obtain i where i: "r = Inr i" using Cons.prems(1) w1 by (cases r) auto
  have "s\<lparr>es_id := es_id s\<rparr> = s" by (cases s) simp
  then have "pg_inv E w1 \<and> pg_view E w1 = put_sub (pg_kept_sub E s) (pg_view E w)"
    using pg_insert_subscription_step[of E s w i w1] w1 i Cons.prems(2,3) by auto
  with Cons.IH[of w1] Cons.prems w1 i show ?case by simp
qed simp

lemma pg_terminate_step:
  assumes "pg_inv E w" "pg_terminate_subscription i w = (Inr u, w')"
  shows "pg_inv E w' \<and> pg_view E w' = pg_view E w\<lparr>st_subs := (st_subs (pg_view E w))(i := None)\<rparr>"
  using assms table_inv_delete[OF pg_inv_subs_table[OF assms(1)]]
  by (auto simp: pg_terminate_subscription_def row_view_delete split: if_splits)

lemma pg_subs_token:
  assumes "pg_subs w i = Some x" "lookup gs_id i (pg_event_subscriptions w) = Some r"
  shows "es_external_token x = gs_external_token r"
proof -
  obtain r' where "lookup gs_id i (pg_event_subscriptions w) = Some r'" "total_row pg_row_to_subscription r' = Inr x"
    by (rule table_view_SomeD[OF assms(1)])
  then show ?thesis using assms(2) by (auto simp: pg_row_to_subscription_def)
qed

lemma pg_set_token_step:
  assumes "pg_inv E w" "pg_set_subscription_token E i t k e w = (Inr b, w')"
  shows "pg_inv E w' \<and> (\<forall>x. st_subs (pg_view E w) i = Some x \<longrightarrow> b = (es_external_token x = None)) \<and>
     pg_view E w' = (if b then alter_sub (set_token t k (pg_time E e)) i (pg_view E w) else pg_view E w)"
proof -
  let ?ss = "pg_event_subscriptions w" and ?p = "\<lambda>r. gs_id r = i \<and> gs_external_token r = None"
  let ?f = "\<lambda>r. r\<lparr>gs_external_token := Some t, gs_external_worker_id := Some k,
      gs_external_token_expiry := Some (pg_time E e)\<rparr>"
  have w': "w' = w\<lparr>pg_event_subscriptions := update_where ?p ?f ?ss\<rparr>" "b = list_ex ?p ?ss"
    using assms(2) by (auto simp: pg_set_subscription_token_def pg_update_subscription_def split: if_splits)
  have token: "b = (es_external_token x = None)" if live: "pg_subs w i = Some x" for x
  proof -
    obtain r where r: "lookup gs_id i ?ss = Some r" by (rule table_view_SomeD[OF live])
    then show ?thesis
      using w'(2) pg_subs_token[OF live r] pg_inv_subs_table[OF assms(1)]
      by (simp add: list_ex_lookup table_inv_def)
  qed
  show ?thesis
  proof (cases b)
    case True
    from change_row[OF pg_inv_subs_table[OF assms(1)] True[unfolded w'(2)], of ?f "\<lambda>_. False" "set_token t k (pg_time E e)"]
    show ?thesis
      using True assms(1) w'(1) token by (simp add: pg_row_to_subscription_def set_token_def alter_sub_def)
  next
    case False
    then have "w' = w" using w' by (simp add: change_no_row)
    then show ?thesis using False token assms(1) by simp
  qed
qed

lemma pg_clear_token_step:
  assumes "pg_inv E w" "pg_clear_subscription_token i t w = (Inr u, w')"
  shows "pg_inv E w' \<and> (\<forall>x. st_subs (pg_view E w) i = Some x \<longrightarrow> es_external_token x = Some t) \<and>
     pg_view E w' = alter_sub clear_token i (pg_view E w)"
proof -
  let ?ss = "pg_event_subscriptions w" and ?p = "\<lambda>r. gs_id r = i \<and> gs_external_token r = Some t"
  let ?f = "\<lambda>r. r\<lparr>gs_external_token := None, gs_external_worker_id := None, gs_external_token_expiry := None\<rparr>"
  have w': "w' = w\<lparr>pg_event_subscriptions := update_where ?p ?f ?ss\<rparr>" "list_ex ?p ?ss"
    using assms(2) by (auto simp: pg_clear_subscription_token_def pg_update_subscription_def split: if_splits)
  from change_row[OF pg_inv_subs_table[OF assms(1)] w'(2), of ?f "\<lambda>_. False" clear_token] show ?thesis
    using assms(1) w'(1) pg_subs_token[of w i]
    by (auto simp: pg_row_to_subscription_def clear_token_def alter_sub_def)
qed

lemma pg_create_event_step:
  assumes "pg_inv E w" "lookup ev_id i (pg_events w) = None"
    and "w' = w\<lparr>pg_events := pg_events w @ [pg_event_to_row E i e]\<rparr>"
  shows "pg_inv E w' \<and> pg_view E w' =
     pg_view E w\<lparr>st_events := (st_events (pg_view E w))(i \<mapsto> nm_event (pg_norm E) (e\<lparr>ev_id := i\<rparr>))\<rparr>"
  using insert_row[of ev_id "total_row (\<lambda>e. e)" "pg_events w" "pg_event_to_row E i e" _ "\<lambda>_. False"] assms
  by (simp add: pg_inv_def pg_view_def pg_event_to_row_def pg_norm_def)

lemma pg_mark_step:
  assumes "pg_inv E w" "pg_set_processed b i w = (Inr u, w')"
  shows "pg_inv E w' \<and> pg_view E w' = mark_event b i (pg_view E w) \<and> st_events (pg_view E w) i \<noteq> None"
proof -
  let ?f = "\<lambda>r. r\<lparr>ev_is_processed := b\<rparr>" and ?es = "pg_events w"
  have w': "w' = w\<lparr>pg_events := update_where (\<lambda>r. ev_id r = i \<and> True) ?f ?es\<rparr>" "list_ex (\<lambda>r. ev_id r = i \<and> True) ?es"
    using assms(2) by (auto simp: pg_set_processed_def split: if_splits)
  have inv: "table_inv ev_id (total_row (\<lambda>e. e)) ?es" using assms(1) by (simp add: pg_inv_def)
  note change = change_row[OF inv w'(2), of ?f "\<lambda>_. False" ?f, simplified]
  obtain r where "lookup ev_id i ?es = Some r" using change(3) by blast
  then show ?thesis
    using assms(1) w'(1) change(1,2) by (simp add: pg_inv_def pg_view_def mark_event_def row_view_Some decoded_def)
qed

lemma pg_schedule_step:
  assumes "pg_schedule_command c w = (r, w')"
  shows "r = Inr () \<and> (pg_inv E w \<longrightarrow> pg_inv E w') \<and> pg_view E w' =
     pg_view E w\<lparr>st_commands := insert (sc_command_name c, sc_data c) (st_commands (pg_view E w))\<rparr>"
proof -
  have inj: "command_name_to_str a = command_name_to_str b \<longleftrightarrow> a = b" for a b
    by (metis option.inject str_to_command_name_inverse)
  let ?q = "\<lambda>r. gc_command_name r = command_name_to_str (sc_command_name c) \<and> gc_data r = sc_data c"
  show ?thesis
  proof (cases "list_ex ?q (pg_scheduled_commands w)")
    case True
    let ?f = "\<lambda>r. r\<lparr>gc_execute_time := sc_execute_time c\<rparr>"
    have keys: "(\<exists>r \<in> set (update_where ?q ?f rows). gc_command_name r = command_name_to_str n \<and> gc_data r = d) =
        (\<exists>r \<in> set rows. gc_command_name r = command_name_to_str n \<and> gc_data r = d)" for rows n d
      by (rule ex_update_where) simp
    have "w' = w\<lparr>pg_command_seq := Suc (pg_command_seq w),
        pg_scheduled_commands := update_where ?q ?f (pg_scheduled_commands w)\<rparr>"
      using assms True by (simp add: pg_schedule_command_def Let_def)
    then have "pg_view E w' = pg_view E w" by (simp add: pg_view_def keys)
    moreover have "(sc_command_name c, sc_data c) \<in> st_commands (pg_view E w)"
      using True by (auto simp: pg_view_def list_ex_iff)
    ultimately show ?thesis
      using assms True by (auto simp: pg_schedule_command_def Let_def pg_inv_def insert_absorb)
  next
    case False
    then show ?thesis
      using assms by (auto simp: pg_schedule_command_def Let_def pg_inv_def pg_view_def inj)
  qed
qed

section \<open>Reads\<close>

lemma pg_get_view:
  assumes "visits_all (pg_order E)" "pg_inv E w" "pg_get_workflow_instance E i w = (g, w')"
  shows "w' = w \<and> (case st_workflows (pg_view E w) i of None \<Rightarrow> g = Inl (WorkflowNotFound i)
      | Some v \<Rightarrow> \<exists>y. g = Inr y \<and> inst_view y = v)"
proof -
  have ptrs: "pg_row_to_workflow row ps = Inr (y\<lparr>wi_execution_pointers := ps\<rparr>)" "wi_execution_pointers y = []"
    if "pg_row_to_workflow row [] = Inr y" for row y ps
    using that by (auto simp: pg_row_to_workflow_def res_bind_Inr_iff)
  have "table_inv gw_id pg_instance (pg_workflows w)"
    "pointers_inv gp_id gp_workflow_id (pg_row_to_pointer E) (gw_id ` set (pg_workflows w)) (pg_execution_pointers w)"
    using assms(2) by (auto simp: pg_inv_def)
  from pg_tables.read_view[where i = i and q = "''workflow''" and q' = "''pointers''", OF assms(1) this] show ?thesis
    using assms(3)
    by (auto simp: pg_get_workflow_instance_def load_pointers_def pg_instance_def inst_view_def ptrs split: option.splits)
qed

lemma pg_runnable_view:
  assumes "visits_all (pg_order E)" "pg_inv E w" "pg_get_runnable_instances E t w = (q, w')"
  shows "w' = w \<and> (\<exists>ids. q = Inr ids \<and> set ids = runnable_ids (pg_view E w) t)"
proof -
  let ?due = "\<lambda>r. gw_status r = ''Runnable'' \<and>
      (case gw_next_execution r of None \<Rightarrow> False | Some ne \<Rightarrow> ne \<le> timestamp_millis t)"
  have due: "?due r \<longleftrightarrow> wi_status y = Runnable \<and> (\<exists>ne. wi_next_execution y = Some ne \<and> ne \<le> timestamp_millis t)"
    if "pg_instance r = Inr y" for r y
    using that
    by (auto simp: pg_instance_def pg_row_to_workflow_def res_bind_Inr_iff ok_or_def str_to_status_def
        pg_str_to_status_def split: option.splits if_splits)
  have "table_inv gw_id pg_instance (pg_workflows w)"
    "pointers_inv gp_id gp_workflow_id (pg_row_to_pointer E) (gw_id ` set (pg_workflows w)) (pg_execution_pointers w)"
    using assms(2) by (auto simp: pg_inv_def)
  from pg_tables.due_view[where due = ?due and t = t and s = "pg_view E w" and q = "''runnable_instances''",
      OF assms(1) this due] show ?thesis
    using assms(3) unfolding pg_get_runnable_instances_def by (auto simp del: set_map)
qed

section \<open>The provider implements the store\<close>

lemma postgres_persistence_simps [simp]:
  "create_new_workflow (postgres_persistence E) = pg_create_new_workflow E"
  "persist_workflow (postgres_persistence E) = pg_persist_workflow E"
  "persist_workflow_with_subscriptions (postgres_persistence E) = pg_persist_workflow_with_subscriptions E"
  "get_runnable_instances (postgres_persistence E) = pg_get_runnable_instances E"
  "get_workflow_instance (postgres_persistence E) = pg_get_workflow_instance E"
  "next_definition_sequence (postgres_persistence E) = pg_next_definition_sequence"
  "create_event_subscription (postgres_persistence E) = pg_create_event_subscription E"
  "terminate_subscription (postgres_persistence E) = pg_terminate_subscription"
  "set_subscription_token (postgres_persistence E) = pg_set_subscription_token E"
  "clear_subscription_token (postgres_persistence E) = pg_clear_subscription_token"
  "create_event (postgres_persistence E) = pg_create_event E"
  "mark_event_processed (postgres_persistence E) = pg_mark_event_processed"
  "mark_event_unprocessed (postgres_persistence E) = pg_mark_event_unprocessed"
  "schedule_command (postgres_persistence E) = pg_schedule_command"
  by (simp_all add: postgres_persistence_def)

lemma pg_transaction_Ok: "pg_transaction f x w = (Inr y, w') \<longleftrightarrow> y = x \<and> f w = (Inr (), w')"
  by (auto simp: pg_transaction_def split: prod.splits sum.splits)

lemma pg_transaction_Err: "pg_transaction f x w = (Inl e, w') \<Longrightarrow> \<exists>n. w' = w\<lparr>pg_drawn := n\<rparr>"
  by (auto simp: pg_transaction_def split: prod.splits sum.splits)

lemma pg_norm_sel [simp]:
  "nm_instance (pg_norm E) = pg_kept_instance E" "nm_sub (pg_norm E) = pg_kept_sub E" "nm_time (pg_norm E) = pg_time E"
  by (simp_all add: pg_norm_def)

lemma pg_step_Ok:
  assumes "pg_inv E w" "pg_admissible E (pg_view E w) x" "run_op (postgres_persistence E) x w = (Inr r, w')"
  shows "pg_inv E w' \<and> spec_result x r (pg_view E w) \<and> pg_view E w' = spec_op (pg_norm E) x r (pg_view E w)"
proof (cases x)
  case (OpCreate y)
  let ?name = "\<lambda>i. if wi_name y = [] then i else wi_name y"
  obtain i w0 where d: "fresh_or (wi_id y) w = (i, w0)" by fastforce
  then obtain w1 where w0: "r = RId i" "pg_insert_workflow E (pg_workflow_to_row E i (?name i) y) w0 = (Inr (), w1)"
    "insert_pointers E i (wi_execution_pointers y) w1 = (Inr (), w')"
    using assms(3) OpCreate
    by (auto simp: answer_Inr_iff pg_create_new_workflow_def Let_def pg_transaction_Ok split: prod.splits sum.splits)
  have "pg_inv E w0" using assms(1) fresh_or_id(2)[OF d] by simp
  from pg_create_step[OF this _ w0(2,3)] show ?thesis
    using fresh_or_id(1)[OF d] fresh_or_id(3)[OF d, of E] w0(1) assms(2) OpCreate by (simp add: named_def)
next
  case (OpPersist y)
  then show ?thesis
    using assms pg_write_step[of E w y "()" w'] by (auto simp: answer_Inr_iff pg_persist_workflow_def pg_transaction_Ok)
next
  case (OpPersistSubs y ss)
  then obtain w1 where "pg_write_instance E y w = (Inr (), w1)" "r = RUnit"
    "eff_each (\<lambda>s w. map_prod (map_sum id (\<lambda>_. ())) id (pg_insert_subscription E s w)) ss w1 = (Inr (), w')"
    using assms(3)
    by (auto simp: answer_Inr_iff pg_persist_workflow_with_subscriptions_def pg_transaction_Ok
        split: prod.splits sum.splits)
  then show ?thesis
    using assms(1,2) OpPersistSubs pg_write_step[of E w y "()" w1] pg_insert_subscriptions_step[of E ss w1 "()" w'] by simp
next
  case (OpSequence d)
  with assms(1,3) show ?thesis
    by (auto simp: answer_Inr_iff pg_next_definition_sequence_def Let_def pg_inv_def pg_view_def fun_eq_iff
        update_conv' split: option.splits)
next
  case (OpSubscribe y)
  then show ?thesis
    using pg_insert_subscription_step[of E y w] assms by (auto simp: answer_Inr_iff pg_create_event_subscription_def)
next
  case (OpTerminate i)
  then show ?thesis using pg_terminate_step[OF assms(1), of i] assms(3) by (auto simp: answer_Inr_iff)
next
  case (OpSetToken i t k e)
  then show ?thesis using pg_set_token_step[OF assms(1)] assms(3) by (auto simp: answer_Inr_iff)
next
  case (OpClearToken i t)
  then show ?thesis using pg_clear_token_step[OF assms(1)] assms(3) by (auto simp: answer_Inr_iff)
next
  case (OpEvent e)
  obtain i w0 where d: "fresh_or (ev_id e) w = (i, w0)" by fastforce
  then have w0: "r = RId i" "lookup ev_id i (pg_events w0) = None"
    "w' = w0\<lparr>pg_events := pg_events w0 @ [pg_event_to_row E i e]\<rparr>"
    using assms(3) OpEvent by (auto simp: answer_Inr_iff pg_create_event_def Let_def split: if_splits)
  have "pg_inv E w0" using assms(1) fresh_or_id(2)[OF d] by simp
  from pg_create_event_step[OF this w0(2,3)] show ?thesis
    using fresh_or_id(1,5)[OF d] fresh_or_id(3)[OF d, of E] w0(1) OpEvent by simp
next
  case (OpProcessed i)
  then show ?thesis
    using pg_mark_step[OF assms(1), of True i] assms(3) by (auto simp: answer_Inr_iff pg_mark_event_processed_def)
next
  case (OpUnprocessed i)
  then show ?thesis
    using pg_mark_step[OF assms(1), of False i] assms(3) by (auto simp: answer_Inr_iff pg_mark_event_unprocessed_def)
next
  case (OpSchedule c)
  then obtain u where "pg_schedule_command c w = (u, w')" "r = RUnit"
    using assms(3) by (auto simp: answer_Inr_iff)
  then show ?thesis using pg_schedule_step[of c w u w' E] assms(1) OpSchedule by simp
qed

text \<open>A failed call leaves the tables alone; it may have drawn UUIDs.\<close>

lemma same_drawn: "\<exists>n. w = w\<lparr>pg_drawn := n\<rparr>"
  by (rule exI[of _ "pg_drawn w"]) (cases w; simp)

lemma fresh_or_drawn: "\<exists>n. snd (fresh_or i w) = w\<lparr>pg_drawn := n\<rparr>"
  by (cases w) (auto simp: fresh_or_def pg_uuid_def)

lemma pg_create_fails:
  "pg_create_new_workflow E x w = (Inl e, w') \<Longrightarrow> \<exists>n. w' = w\<lparr>pg_drawn := n\<rparr>"
  "pg_insert_subscription E s w = (Inl e, w') \<Longrightarrow> \<exists>n. w' = w\<lparr>pg_drawn := n\<rparr>"
  "pg_create_event E ev w = (Inl e, w') \<Longrightarrow> \<exists>n. w' = w\<lparr>pg_drawn := n\<rparr>"
  using fresh_or_drawn[of "wi_id x" w] fresh_or_drawn[of "es_id s" w] fresh_or_drawn[of "ev_id ev" w]
  by (auto simp: pg_create_new_workflow_def pg_insert_subscription_def pg_create_event_def Let_def
      split: prod.splits if_splits dest!: pg_transaction_Err)

lemma pg_update_fails:
  "pg_terminate_subscription i w = (Inl e, w') \<Longrightarrow> w' = w"
  "pg_set_subscription_token E i t k d w = (Inl e, w') \<Longrightarrow> w' = w"
  "pg_clear_subscription_token i t w = (Inl e, w') \<Longrightarrow> w' = w"
  "pg_set_processed b i w = (Inl e, w') \<Longrightarrow> w' = w"
proof -
  have "\<not> list_ex p rows \<Longrightarrow> delete_where p rows = rows" for p and rows :: "pg_subscription_row list"
    by (auto simp: delete_where_def list_ex_iff filter_id_conv)
  then show "pg_terminate_subscription i w = (Inl e, w') \<Longrightarrow> w' = w"
    by (auto simp: pg_terminate_subscription_def split: if_splits)
  show "pg_set_subscription_token E i t k d w = (Inl e, w') \<Longrightarrow> w' = w"
    "pg_clear_subscription_token i t w = (Inl e, w') \<Longrightarrow> w' = w" "pg_set_processed b i w = (Inl e, w') \<Longrightarrow> w' = w"
    by (auto simp: pg_set_subscription_token_def pg_clear_subscription_token_def pg_update_subscription_def
        pg_set_processed_def change_no_row split: if_splits)
qed

lemma pg_step_Err:
  assumes "run_op (postgres_persistence E) x w = (Inl e, w')"
  shows "\<exists>n. w' = w\<lparr>pg_drawn := n\<rparr>"
  using assms
  by (cases x)
    (auto simp: answer_Inl_iff pg_persist_workflow_def pg_persist_workflow_with_subscriptions_def
      pg_mark_event_processed_def pg_mark_event_unprocessed_def pg_next_definition_sequence_def Let_def
      pg_create_event_subscription_def same_drawn
      dest!: pg_update_fails dest: pg_create_fails pg_transaction_Err pg_schedule_step)

definition postgres_invariant :: "pg_env \<Rightarrow> pg_world \<Rightarrow> bool" where
  "postgres_invariant E w \<longleftrightarrow> visits_all (pg_order E) \<and> pg_inv E w"

interpretation postgres: persistence_contract "postgres_persistence E" "pg_view E" "postgres_invariant E"
  "pg_admissible E" "pg_norm E"
  for E :: pg_env
proof (unfold_locales, goal_cases)
  case (1 w x r w')
  then show ?case using pg_step_Ok[of E w x r w'] by (simp add: postgres_invariant_def)
next
  case (2 w x e w')
  then show ?case using pg_step_Err[of E x w e w'] by (auto simp: postgres_invariant_def)
next
  case (3 w i g w')
  then show ?case using pg_get_view[of E w i g w'] by (simp add: postgres_invariant_def)
next
  case (4 w t q w')
  then show ?case using pg_runnable_view[of E w t q w'] by (simp add: postgres_invariant_def)
qed

lemma pg_new_inv: "pg_inv E (pg_new uuids)" "pg_view E (pg_new uuids) = store_empty"
  by (simp_all add: pg_new_def pg_inv_def pointers_inv_def pg_view_def store_empty_def instances_view_def fun_eq_iff)

section \<open>Properties\<close>

text \<open>
  C7: the PostgreSQL provider refines the abstract store up to the normal form of the values its
  columns keep. After any sequence of calls on a new database its decoded content is what the
  abstract store becomes under the successful calls, reading an instance answers with the stored one
  up to the order of its pointers, and the poll finds exactly the instances that are due. The
  hypotheses: every row of an answer is visited once, and each call is admissible (indices fit four
  bytes, string lists survive \<open>JSONB\<close>, a persisted instance exists).
\<close>

theorem postgres_refines_store:
  assumes "visits_all (pg_order E)"
    and "run_ops (postgres_persistence E) xs (pg_new uuids) = (calls, w)"
    and "admissible (pg_admissible E) (pg_norm E) calls store_empty"
  shows "pg_view E w = spec_calls (pg_norm E) calls store_empty \<and>
    (\<forall>i. case st_workflows (spec_calls (pg_norm E) calls store_empty) i of
       None \<Rightarrow> pg_get_workflow_instance E i w = (Inl (WorkflowNotFound i), w)
     | Some v \<Rightarrow> \<exists>x. pg_get_workflow_instance E i w = (Inr x, w) \<and> inst_view x = v) \<and>
    (\<exists>ids. pg_get_runnable_instances E t w = (Inr ids, w) \<and>
       set ids = runnable_ids (spec_calls (pg_norm E) calls store_empty) t)"
proof -
  have "postgres_invariant E (pg_new uuids)" using assms(1) by (simp add: postgres_invariant_def pg_new_inv)
  from postgres.run_ops_refine[OF this assms(2)] have inv: "postgres_invariant E w"
    and view: "pg_view E w = spec_calls (pg_norm E) calls store_empty"
    using assms(3) by (simp_all add: pg_new_inv)
  have "case st_workflows (pg_view E w) i of None \<Rightarrow> pg_get_workflow_instance E i w = (Inl (WorkflowNotFound i), w)
      | Some v \<Rightarrow> \<exists>x. pg_get_workflow_instance E i w = (Inr x, w) \<and> inst_view x = v" for i
    using postgres.get[OF inv, of i] by (cases "pg_get_workflow_instance E i w") (auto split: option.splits)
  moreover have "\<exists>ids. pg_get_runnable_instances E t w = (Inr ids, w) \<and> set ids = runnable_ids (pg_view E w) t"
    using postgres.runnable[OF inv, of t] by (cases "pg_get_runnable_instances E t w") auto
  ultimately show ?thesis using view by metis
qed

text \<open>A server that cuts instants to microseconds and keeps JSON values.\<close>

definition sample_env :: pg_env where
  "sample_env =
     \<lparr>pg_time = (\<lambda>t. t div 1000 * 1000), jsonb = (\<lambda>j. j), value_error = (\<lambda>_. ''invalid type''),
      pg_text = (\<lambda>c. ''violates constraint '' @ c), pg_order = rowid_order\<rparr>"

definition pg_sample :: workflow_instance where
  "pg_sample = (workflow_instance_new ''w1'' 1234567 ''build'' 1 (JObject []))
     \<lparr>wi_name := ''build-1'', wi_execution_pointers := [execution_pointer_new ''p1'' 0]\<rparr>"

definition pg_sample_calls :: "(store_op \<times> op_result res) list" where
  "pg_sample_calls =
     [(OpCreate pg_sample, Inr (RId ''w1'')), (OpPersist pg_sample, Inr RUnit),
      (OpTerminate ''s1'', Inl (SubscriptionNotFound ''s1''))]"

lemmas pg_sample_defs = sample_env_def pg_sample_def pg_sample_calls_def workflow_instance_new_def
  execution_pointer_new_def

lemma pg_sample_runs:
  "fst (run_ops (postgres_persistence sample_env) (map fst pg_sample_calls) (pg_new (\<lambda>_. ''u''))) = pg_sample_calls"
  by (simp add: pg_sample_defs pg_new_def pg_create_new_workflow_def fresh_or_def pg_transaction_def
      pg_insert_workflow_def insert_pointers_def pg_insert_pointer_def pg_persist_workflow_def
      pg_write_instance_def pg_update_workflow_def delete_where_def update_where_def answer_def
      pg_terminate_subscription_def Let_def)

lemma pg_sample_admissible: "admissible (pg_admissible sample_env) (pg_norm sample_env) pg_sample_calls store_empty"
  by (simp add: pg_sample_defs pg_instance_ok_def pg_pointer_ok_def put_instance_def as_object_def)

lemma postgres_refines_store_witness:
  "\<exists>x. pg_get_workflow_instance sample_env ''w1''
      (snd (run_ops (postgres_persistence sample_env) (map fst pg_sample_calls) (pg_new (\<lambda>_. ''u'')))) =
      (Inr x, snd (run_ops (postgres_persistence sample_env) (map fst pg_sample_calls) (pg_new (\<lambda>_. ''u'')))) \<and>
    inst_view x = inst_view (pg_sample\<lparr>wi_create_time := 1234000\<rparr>)"
proof -
  have order: "visits_all (pg_order sample_env)" by (simp add: sample_env_def)
  have stored: "st_workflows (spec_calls (pg_norm sample_env) pg_sample_calls store_empty) ''w1'' =
      Some (inst_view (pg_sample\<lparr>wi_create_time := 1234000\<rparr>))"
    by (simp add: pg_sample_defs put_instance_def pg_kept_instance_def pg_kept_pointer_def named_def as_object_def)
  have "run_ops (postgres_persistence sample_env) (map fst pg_sample_calls) (pg_new (\<lambda>_. ''u'')) = (pg_sample_calls,
      snd (run_ops (postgres_persistence sample_env) (map fst pg_sample_calls) (pg_new (\<lambda>_. ''u''))))"
    using pg_sample_runs by (metis prod.collapse)
  note refined = postgres_refines_store[OF order this pg_sample_admissible]
  show ?thesis using refined[THEN conjunct2, THEN conjunct1, THEN spec, of "''w1''"] by (simp only: stored option.simps)
qed

section \<open>Scheduled commands\<close>

text \<open>
  The delete at the end of \<open>process_commands\<close> takes every due command, not the processed ones: a
  command that the handler schedules for now is gone although it was never handled.
\<close>

lemma pg_drops_scheduled_command:
  "snd (pg_process_commands sample_env 0 (\<lambda>_. pg_schedule_command (command_process_workflow ''w2'' 0))
      (snd (pg_schedule_command (command_process_workflow ''w1'' 0) (pg_new (\<lambda>_. ''u'')))))
     = (pg_new (\<lambda>_. ''u''))\<lparr>pg_command_seq := 2\<rparr>"
  by (simp add: sample_env_def pg_new_def pg_schedule_command_def pg_process_commands_def select_where_def
      rowid_order_def command_process_workflow_def pg_row_to_command_def pg_str_to_command_name_def
      str_to_command_name_def timestamp_millis_def delete_where_def)

text \<open>Cleaning the store keeps the definition counters.\<close>

lemma truncate_keeps_sequences: "pg_definition_sequences (truncate_all w) = pg_definition_sequences w"
  by (simp add: truncate_all_def)

end
