(* ===== verification/Postgres_Schema.thy ===== *)
theory Postgres_Schema
  imports Store
begin

text \<open>
  The layout options of \<open>wfe-postgres/src/lib.rs\<close>: validation of the schema name and the table
  prefix, the qualified table names, the rewriting of the migration scripts in prefix mode and the
  bookkeeping of the migrations. The rewriter is compared with a tokenizer: rewriting and reading
  the result again gives the tokens of the script with the known identifiers prefixed, so that no
  token is merged, split or changed otherwise. The digest of \<open>sha2\<close>, the execution of a script
  by the server and the migrations embedded by \<open>sqlx::migrate!\<close> are parameters.
\<close>

section \<open>Options\<close>

definition max_identifier_len :: nat where
  "max_identifier_len = 63"

definition prefixable_identifiers :: "string list" where
  "prefixable_identifiers =
     [''workflows'', ''definition_sequences'', ''execution_pointers'', ''events'', ''event_subscriptions'',
      ''execution_errors'', ''scheduled_commands'', ''idx_workflows_next_execution'', ''idx_workflows_status'',
      ''idx_events_name_key'', ''idx_events_is_processed'', ''idx_events_event_time'',
      ''idx_subscriptions_name_key'', ''idx_subscriptions_workflow'', ''idx_scheduled_commands_execute_time'']"

record postgres_options =
  po_schema :: string
  po_table_prefix :: string

definition postgres_options_default :: postgres_options where
  "postgres_options_default = \<lparr>po_schema = ''wfc'', po_table_prefix = []\<rparr>"

text \<open>The three configuration errors, by the texts they carry.\<close>

datatype options_error =
    InvalidIdentifier string string
  | SchemaTooLong string
  | PrefixTooLong string

definition ident_start :: "char \<Rightarrow> bool" where
  "ident_start c \<longleftrightarrow> is_lower c \<or> is_upper c \<or> c = CHR ''_''"

definition ident_char :: "char \<Rightarrow> bool" where
  "ident_char c \<longleftrightarrow> is_alphanumeric c \<or> c = CHR ''_''"

definition check_identifier :: "string \<Rightarrow> string \<Rightarrow> bool \<Rightarrow> options_error + unit" where
  "check_identifier what s allow_empty =
     (case s of
        [] \<Rightarrow> if allow_empty then Inr () else Inl (InvalidIdentifier what s)
      | c # r \<Rightarrow>
          if \<not> ident_start c \<or> \<not> list_all ident_char r then Inl (InvalidIdentifier what s) else Inr ())"

definition longest_base :: nat where
  "longest_base = fold max (map length prefixable_identifiers) 0"

definition validate_options :: "postgres_options \<Rightarrow> options_error + unit" where
  "validate_options opts =
     res_bind (check_identifier ''schema'' (po_schema opts) False) (\<lambda>_.
     if max_identifier_len < length (po_schema opts) then Inl (SchemaTooLong (po_schema opts)) else
     res_bind (check_identifier ''table prefix'' (po_table_prefix opts) True) (\<lambda>_.
     if max_identifier_len < length (po_table_prefix opts) + longest_base
     then Inl (PrefixTooLong (po_table_prefix opts)) else Inr ()))"

record qualified_tables =
  qt_workflows :: string
  qt_definition_sequences :: string
  qt_execution_pointers :: string
  qt_events :: string
  qt_event_subscriptions :: string
  qt_execution_errors :: string
  qt_scheduled_commands :: string

definition qualify :: "postgres_options \<Rightarrow> string \<Rightarrow> string" where
  "qualify opts base = CHR 0x22 # po_schema opts @ [CHR 0x22, CHR ''.'', CHR 0x22] @ po_table_prefix opts @ base @ [CHR 0x22]"

definition qualified_tables_new :: "postgres_options \<Rightarrow> qualified_tables" where
  "qualified_tables_new opts =
     \<lparr>qt_workflows = qualify opts ''workflows'', qt_definition_sequences = qualify opts ''definition_sequences'',
      qt_execution_pointers = qualify opts ''execution_pointers'', qt_events = qualify opts ''events'',
      qt_event_subscriptions = qualify opts ''event_subscriptions'',
      qt_execution_errors = qualify opts ''execution_errors'',
      qt_scheduled_commands = qualify opts ''scheduled_commands''\<rparr>"

text \<open>\<open>from_pool_with\<close>, which \<open>connect\<close>, \<open>new\<close> and \<open>from_pool\<close> go through.\<close>

definition from_pool_with :: "postgres_options \<Rightarrow> options_error + (postgres_options \<times> qualified_tables)" where
  "from_pool_with opts = res_bind (validate_options opts) (\<lambda>_. Inr (opts, qualified_tables_new opts))"

section \<open>Rewriting a script\<close>

text \<open>The rest of a string literal after its opening quote, up to the quote that ends it.\<close>

fun scan_literal :: "string \<Rightarrow> string \<times> string" where
  "scan_literal [] = ([], [])"
| "scan_literal [c] = ([c], [])"
| "scan_literal (c # d # r) =
     (if c = CHR 0x27 then
        if d = CHR 0x27 then (let (l, rest) = scan_literal r in (c # d # l, rest)) else ([c], d # r)
      else (let (l, rest) = scan_literal (d # r) in (c # l, rest)))"

text \<open>The rest of a block comment after its opening, up to the first closing.\<close>

fun scan_block :: "string \<Rightarrow> string \<times> string" where
  "scan_block [] = ([], [])"
| "scan_block [c] = ([c], [])"
| "scan_block (c # d # r) =
     (if c = CHR ''*'' \<and> d = CHR ''/'' then ([c, d], r)
      else (let (l, rest) = scan_block (d # r) in (c # l, rest)))"

definition next_is :: "char \<Rightarrow> string \<Rightarrow> bool" where
  "next_is d r \<longleftrightarrow> (case r of [] \<Rightarrow> False | c # _ \<Rightarrow> c = d)"

lemma scan_literal_append: "scan_literal s = (l, rest) \<Longrightarrow> s = l @ rest"
  by (induction s arbitrary: l rest rule: scan_literal.induct) (auto split: if_splits prod.splits)

lemma scan_block_append: "scan_block s = (l, rest) \<Longrightarrow> s = l @ rest"
  by (induction s arbitrary: l rest rule: scan_block.induct) (auto split: if_splits prod.splits)

lemma scan_length:
  "scan_literal s = (l, rest) \<Longrightarrow> length rest \<le> length s" "scan_block s = (l, rest) \<Longrightarrow> length rest \<le> length s"
  by (auto dest!: scan_literal_append scan_block_append)

lemma ident_start_char: "ident_start c \<Longrightarrow> ident_char c"
  by (auto simp: ident_start_def ident_char_def is_alphanumeric_def)

function substitute_identifiers :: "string \<Rightarrow> string \<Rightarrow> string" where
  "substitute_identifiers [] pre = []"
| "substitute_identifiers (c # r) pre =
     (if c = CHR 0x27 then
        (let (l, rest) = scan_literal r in c # l @ substitute_identifiers rest pre)
      else if c = CHR ''-'' \<and> next_is (CHR ''-'') r then
        takeWhile (\<lambda>d. d \<noteq> CHR 0x0A) (c # r)
          @ substitute_identifiers (dropWhile (\<lambda>d. d \<noteq> CHR 0x0A) (c # r)) pre
      else if c = CHR ''/'' \<and> next_is (CHR ''*'') r then
        (let (l, rest) = scan_block (tl r) in c # CHR ''*'' # l @ substitute_identifiers rest pre)
      else if ident_start c then
        (let ident = takeWhile ident_char (c # r)
         in (if ident \<in> set prefixable_identifiers then pre else []) @ ident
              @ substitute_identifiers (dropWhile ident_char (c # r)) pre)
      else c # substitute_identifiers r pre)"
  by pat_completeness auto
termination
proof (relation "measure (\<lambda>(s, p). length s)", goal_cases)
  case (2 c r pre x l rest)
  then show ?case using scan_length(1)[of r l rest] by simp
next
  case (3 c r pre)
  then show ?case using length_dropWhile_le[of "\<lambda>d. d \<noteq> CHR 0x0A" r] by (auto simp: le_imp_less_Suc)
next
  case (4 c r pre x l rest)
  then show ?case using scan_length(2)[of "tl r" l rest] by simp
next
  case (5 c r pre ident)
  then show ?case using length_dropWhile_le[of ident_char r] by (simp add: ident_start_char le_imp_less_Suc)
qed auto

section \<open>Tokens\<close>

datatype sql_token =
    Literal string | LineComment string | BlockComment string | Ident string | Punct char

fun next_token :: "char \<Rightarrow> string \<Rightarrow> sql_token \<times> string" where
  "next_token c r =
     (if c = CHR 0x27 then (let (l, rest) = scan_literal r in (Literal (c # l), rest))
      else if c = CHR ''-'' \<and> next_is (CHR ''-'') r then
        (LineComment (takeWhile (\<lambda>d. d \<noteq> CHR 0x0A) (c # r)), dropWhile (\<lambda>d. d \<noteq> CHR 0x0A) (c # r))
      else if c = CHR ''/'' \<and> next_is (CHR ''*'') r then
        (let (l, rest) = scan_block (tl r) in (BlockComment (c # CHR ''*'' # l), rest))
      else if ident_start c then (Ident (takeWhile ident_char (c # r)), dropWhile ident_char (c # r))
      else (Punct c, r))"

declare next_token.simps [simp del] substitute_identifiers.simps(2) [simp del]

lemma next_token_length: "next_token c r = (t, rest) \<Longrightarrow> length rest \<le> length r"
  using length_dropWhile_le[of "\<lambda>d. d \<noteq> CHR 0x0A" r] length_dropWhile_le[of ident_char r]
  by (auto simp: next_token.simps ident_start_char split: if_splits prod.splits dest!: scan_length)

function tokens :: "string \<Rightarrow> sql_token list" where
  "tokens [] = []"
| "tokens (c # r) = (let (t, rest) = next_token c r in t # tokens rest)"
  by pat_completeness auto
termination
  by (relation "measure length") (auto dest: next_token_length[OF sym] simp: le_imp_less_Suc)

definition prefixed :: "string \<Rightarrow> string \<Rightarrow> string" where
  "prefixed p i = (if i \<in> set prefixable_identifiers then p else []) @ i"

fun prefix_token :: "string \<Rightarrow> sql_token \<Rightarrow> sql_token" where
  "prefix_token p (Ident i) = Ident (prefixed p i)"
| "prefix_token p t = t"

fun token_text :: "sql_token \<Rightarrow> string" where
  "token_text (Literal s) = s"
| "token_text (LineComment s) = s"
| "token_text (BlockComment s) = s"
| "token_text (Ident s) = s"
| "token_text (Punct c) = [c]"

text \<open>One step of the rewriter copies one token, an identifier with its prefix.\<close>

lemma substitute_token:
  assumes "next_token c r = (t, rest)"
  shows "substitute_identifiers (c # r) p = token_text (prefix_token p t) @ substitute_identifiers rest p"
  using assms unfolding substitute_identifiers.simps(2)[of c r p] next_token.simps[of c r]
  by (cases "c = CHR 0x27"; cases "c = CHR ''-'' \<and> next_is (CHR ''-'') r"; cases "c = CHR ''/'' \<and> next_is (CHR ''*'') r")
    (auto simp: prefixed_def Let_def simp del: takeWhile.simps dropWhile.simps split: prod.splits if_splits)

lemma next_token_text:
  assumes "next_token c r = (t, rest)"
  shows "c # r = token_text t @ rest"
  using assms
  by (auto simp: next_token.simps next_is_def split: if_splits prod.splits list.splits
      dest!: scan_literal_append scan_block_append)

text \<open>
  The rewritten rest of a script starts like the rest: with the same character, or both with an
  identifier. That is all the tokenizer looks at beyond the end of a token.
\<close>

definition same_start :: "string \<Rightarrow> string \<Rightarrow> bool" where
  "same_start s s' \<longleftrightarrow>
     (case (s, s') of
        ([], []) \<Rightarrow> True
      | (c # _, d # _) \<Rightarrow> c = d \<or> ident_start c \<and> ident_start d
      | _ \<Rightarrow> False)"

definition valid_prefix :: "string \<Rightarrow> bool" where
  "valid_prefix p \<longleftrightarrow> (case p of [] \<Rightarrow> True | c # r \<Rightarrow> ident_start c \<and> list_all ident_char r)"

lemma valid_prefix_chars: "valid_prefix p \<Longrightarrow> list_all ident_char p"
  by (cases p) (auto simp: valid_prefix_def ident_start_char)

lemma not_ident_start [simp]:
  "\<not> ident_start (CHR 0x27)" "\<not> ident_start (CHR ''-'')" "\<not> ident_start (CHR ''/'')" "\<not> ident_start (CHR ''*'')"
  "\<not> ident_start (CHR 0x0A)"
  by (simp_all add: ident_start_def char_class_defs)

lemma same_start_next_is:
  "same_start s s' \<Longrightarrow> \<not> ident_start d \<Longrightarrow> next_is d s' = next_is d s"
  by (auto simp: same_start_def next_is_def split: list.splits)

lemma same_start_substitute:
  assumes "valid_prefix p"
  shows "same_start s (substitute_identifiers s p)"
proof (cases s)
  case (Cons c r)
  obtain t rest where t: "next_token c r = (t, rest)" by fastforce
  show ?thesis
  proof (cases t)
    case (Ident i)
    then have "ident_start c" "i = c # takeWhile ident_char r"
      using t by (auto simp: next_token.simps ident_start_char split: if_splits prod.splits)
    then show ?thesis
      using assms substitute_token[OF t, of p] Ident Cons
      by (cases p) (auto simp: same_start_def prefixed_def valid_prefix_def)
  qed (use t substitute_token[OF t, of p] Cons in
      \<open>auto simp: same_start_def next_token.simps split: if_splits prod.splits\<close>)
qed (simp add: same_start_def)

section \<open>Reading the rewritten script again\<close>

lemma scan_literal_again:
  "scan_literal s = (l, rest) \<Longrightarrow> same_start rest out \<Longrightarrow> scan_literal (l @ out) = (l, out)"
proof (induction s arbitrary: l rule: scan_literal.induct)
  case (3 c d r)
  show ?case
  proof (cases "c = CHR 0x27")
    case True
    then show ?thesis
      using 3 by (cases "d = CHR 0x27"; cases out) (auto simp: same_start_def split: prod.splits)
  next
    case False
    then obtain l' where l': "scan_literal (d # r) = (l', rest)" "l = c # l'"
      using "3.prems"(1) by (auto split: prod.splits)
    have "l' \<noteq> []" using l'(1) by (cases r) (auto split: if_splits prod.splits)
    then obtain e l2 where "l' = e # l2" by (cases l') auto
    with "3.IH"(2)[OF False l'(1) "3.prems"(2)] l'(2) False show ?thesis by simp
  qed
qed (auto simp: same_start_def split: list.splits)

lemma scan_block_again:
  "scan_block s = (l, rest) \<Longrightarrow> (rest = [] \<Longrightarrow> out = []) \<Longrightarrow> scan_block (l @ out) = (l, out)"
proof (induction s arbitrary: l rule: scan_block.induct)
  case (3 c d r)
  show ?case
  proof (cases "c = CHR ''*'' \<and> d = CHR ''/''")
    case True
    then show ?thesis using "3.prems" by auto
  next
    case False
    then obtain l' where l': "scan_block (d # r) = (l', rest)" "l = c # l'"
      using "3.prems"(1) by (auto split: prod.splits)
    obtain l2 where l2: "l' = d # l2" using l'(1) by (cases r) (auto split: if_splits prod.splits)
    with "3.IH"[OF False l'(1) "3.prems"(2)] l'(2) False show ?thesis by auto
  qed
qed (auto simp: same_start_def)

lemma takeWhile_again:
  assumes "same_start (dropWhile P s) out" "\<And>c. ident_start c \<Longrightarrow> P c"
  shows "takeWhile P (takeWhile P s @ out) = takeWhile P s" "dropWhile P (takeWhile P s @ out) = out"
proof -
  have "out = [] \<or> \<not> P (hd out)"
  proof (cases "dropWhile P s")
    case (Cons c r)
    then have "\<not> P c" by (simp add: dropWhile_eq_Cons_conv)
    then show ?thesis using assms Cons by (auto simp: same_start_def split: list.splits)
  next
    case Nil
    then show ?thesis using assms(1) unfolding Nil by (cases out) (auto simp: same_start_def)
  qed
  then have out: "takeWhile P out = []" "dropWhile P out = out" by (cases out; simp)+
  have "\<forall>c \<in> set (takeWhile P s). P c" by (auto dest: set_takeWhileD)
  then show "takeWhile P (takeWhile P s @ out) = takeWhile P s" "dropWhile P (takeWhile P s @ out) = out"
    using out by (simp_all add: takeWhile_append2 dropWhile_append2)
qed

text \<open>A token read again, with a rewritten rest after it.\<close>

lemma next_token_again:
  assumes "next_token c r = (t, rest)" "same_start rest out" "valid_prefix p"
  shows "\<exists>d r'. token_text (prefix_token p t) @ out = d # r' \<and> next_token d r' = (prefix_token p t, out)"
proof (cases t)
  case (Literal s)
  then obtain l where l: "c = CHR 0x27" "scan_literal r = (l, rest)" "s = c # l"
    using assms(1) by (auto simp: next_token.simps split: if_splits prod.splits)
  then show ?thesis using Literal scan_literal_again[OF l(2) assms(2)] by (simp add: next_token.simps)
next
  case (LineComment s)
  let ?P = "\<lambda>d. d \<noteq> CHR 0x0A"
  have l: "c = CHR ''-''" "next_is (CHR ''-'') r" "s = takeWhile ?P (c # r)" "rest = dropWhile ?P (c # r)"
    using assms(1) LineComment by (auto simp: next_token.simps split: if_splits prod.splits)
  then obtain r1 where r1: "r = CHR ''-'' # r1" by (auto simp: next_is_def split: list.splits)
  have "\<And>c. ident_start c \<Longrightarrow> ?P c" by auto
  from takeWhile_again[OF assms(2)[unfolded l(4)] this] show ?thesis
    using LineComment l r1 by (simp add: next_token.simps next_is_def)
next
  case (BlockComment s)
  then obtain l where l: "c = CHR ''/''" "next_is (CHR ''*'') r" "scan_block (tl r) = (l, rest)" "s = c # CHR ''*'' # l"
    using assms(1) by (auto simp: next_token.simps split: if_splits prod.splits)
  have "rest = [] \<Longrightarrow> out = []" using assms(2) by (auto simp: same_start_def split: list.splits)
  from scan_block_again[OF l(3) this] show ?thesis using BlockComment l by (simp add: next_token.simps next_is_def)
next
  case (Ident i)
  have i: "ident_start c" "i = takeWhile ident_char (c # r)" "rest = dropWhile ident_char (c # r)"
    using assms(1) Ident by (auto simp: next_token.simps split: if_splits prod.splits)
  note again = takeWhile_again[OF assms(2)[unfolded i(3)] ident_start_char]
  have chars: "list_all ident_char p" by (rule valid_prefix_chars[OF assms(3)])
  have pre: "takeWhile ident_char (q @ i @ out) = q @ i" "dropWhile ident_char (q @ i @ out) = out"
    if "list_all ident_char q" for q
    using that again i(2) by (induction q) simp_all
  have "prefixed p i @ out \<noteq> [] \<and> ident_start (hd (prefixed p i @ out))"
    using i(1,2) assms(3) ident_start_char[OF i(1)] by (cases p) (auto simp: prefixed_def valid_prefix_def)
  then obtain d r' where d: "prefixed p i @ out = d # r'" "ident_start d" by (cases "prefixed p i @ out") auto
  have "takeWhile ident_char (d # r') = prefixed p i" "dropWhile ident_char (d # r') = out"
    using pre[of p] pre[of "[]"] chars d(1) by (auto simp: prefixed_def simp del: takeWhile.simps dropWhile.simps
        simp flip: d(1) split: if_splits)
  then show ?thesis using Ident d by (auto simp: next_token.simps)
next
  case (Punct q)
  have q: "q = c" "rest = r" "c \<noteq> CHR 0x27" "\<not> (c = CHR ''-'' \<and> next_is (CHR ''-'') r)"
    "\<not> (c = CHR ''/'' \<and> next_is (CHR ''*'') r)" "\<not> ident_start c"
    using assms(1) Punct by (auto simp: next_token.simps split: if_splits prod.splits)
  then show ?thesis
    using Punct same_start_next_is[OF assms(2), of "CHR ''-''"] same_start_next_is[OF assms(2), of "CHR ''*''"]
    by (auto simp: next_token.simps)
qed

lemma tokens_substitute:
  assumes "valid_prefix p"
  shows "tokens (substitute_identifiers s p) = map (prefix_token p) (tokens s)"
proof (induction s rule: tokens.induct)
  case (2 c r)
  obtain t rest where t: "next_token c r = (t, rest)" by fastforce
  obtain d r' where d: "token_text (prefix_token p t) @ substitute_identifiers rest p = d # r'"
    "next_token d r' = (prefix_token p t, substitute_identifiers rest p)"
    using next_token_again[OF t same_start_substitute[OF assms] assms] by blast
  have "tokens (substitute_identifiers (c # r) p) = prefix_token p t # tokens (substitute_identifiers rest p)"
    unfolding substitute_token[OF t] d(1) using d(2) by simp
  then show ?case using 2[of "(t, rest)" t rest] t by simp
qed simp

lemma tokens_text: "concat (map token_text (tokens s)) = s"
proof (induction s rule: tokens.induct)
  case (2 c r)
  then show ?case using next_token_text[of c r] by (auto split: prod.splits)
qed simp

lemma substitute_text: "substitute_identifiers s p = concat (map (\<lambda>t. token_text (prefix_token p t)) (tokens s))"
proof (induction s rule: tokens.induct)
  case (2 c r)
  then show ?case using substitute_token[of c r _ _ p] by (auto split: prod.splits)
qed simp

lemma prefix_token_Nil [simp]: "prefix_token [] t = t"
  by (cases t) (simp_all add: prefixed_def)

text \<open>An empty prefix leaves the script as it is.\<close>

lemma substitute_empty_prefix: "substitute_identifiers s [] = s"
  by (simp add: substitute_text tokens_text)

lemma validate_options_prefix:
  "validate_options opts = Inr () \<Longrightarrow> valid_prefix (po_table_prefix opts)"
  by (auto simp: validate_options_def res_bind_Inr_iff check_identifier_def valid_prefix_def
      split: if_splits list.splits)

text \<open>
  In prefix mode a migration script is rewritten token by token. For options that pass
  validation, reading the rewritten script again gives exactly the tokens of the original with the
  prefix on every known table and index name: string literals, comments and all other names are
  untouched and no two tokens run together.
\<close>

theorem prefixed_script_tokens:
  assumes "validate_options opts = Inr ()"
  shows "tokens (substitute_identifiers sql (po_table_prefix opts)) =
    map (prefix_token (po_table_prefix opts)) (tokens sql)"
  using tokens_substitute[OF validate_options_prefix[OF assms]] .

lemma prefixed_script_tokens_witness:
  "tokens (substitute_identifiers ''INDEX x ON events (id); -- events'' ''wfe_'') =
     map (prefix_token ''wfe_'') (tokens ''INDEX x ON events (id); -- events'')"
proof -
  have "validate_options \<lparr>po_schema = ''wfc'', po_table_prefix = ''wfe_''\<rparr> = Inr ()"
    by (simp add: validate_options_def check_identifier_def ident_start_def ident_char_def char_class_defs
        max_identifier_len_def longest_base_def prefixable_identifiers_def)
  from prefixed_script_tokens[OF this, of "''INDEX x ON events (id); -- events''"] show ?thesis by simp
qed

section \<open>Migrations in prefix mode\<close>

record migration =
  mg_version :: int
  mg_description :: string
  mg_is_down :: bool
  mg_sql :: string

record migration_row =
  mr_version :: int
  mr_description :: string
  mr_success :: bool
  mr_checksum :: string

text \<open>
  \<open>sha\<close> is the digest, \<open>exec\<close> runs a script on the database and gives the text of the error or
  the new state; a migration commits its script and its row together.
\<close>

record 'd pg_server =
  sv_sha :: "string \<Rightarrow> string"
  sv_exec :: "string \<Rightarrow> 'd \<Rightarrow> string + 'd"
  sv_duplicate :: string

definition previous_prefix_error :: "int \<Rightarrow> wfe_error" where
  "previous_prefix_error v = Persistence
     (''migration '' @ show_int v @ '' was previously applied with a different table prefix; the prefix of an '' @
      ''existing store cannot be changed in place'')"

definition dirty_error :: "int \<Rightarrow> wfe_error" where
  "dirty_error v = Persistence
     (''migration '' @ show_int v @ '' previously failed while applying (dirty); resolve it manually and clear '' @
      ''the row in _wfe_sqlx_migrations'')"

fun apply_each :: "'d pg_server \<Rightarrow> (int \<rightharpoonup> string) \<Rightarrow> string \<Rightarrow> migration list \<Rightarrow>
    ('d \<times> migration_row list, unit res) eff" where
  "apply_each S applied pre [] w = (Inr (), w)"
| "apply_each S applied pre (m # ms) (db, rows) =
     (if mg_is_down m then apply_each S applied pre ms (db, rows)
      else
        let sql = substitute_identifiers (mg_sql m) pre; checksum = sv_sha S sql in
        case applied (mg_version m) of
          Some recorded \<Rightarrow>
            if recorded = checksum then apply_each S applied pre ms (db, rows)
            else (Inl (previous_prefix_error (mg_version m)), (db, rows))
        | None \<Rightarrow>
            (case sv_exec S sql db of
               Inl e \<Rightarrow> (Inl (Persistence e), (db, rows))
             | Inr db' \<Rightarrow>
                 if mg_version m \<in> mr_version ` set rows then (Inl (Persistence (sv_duplicate S)), (db, rows))
                 else apply_each S applied pre ms (db', rows @
                   [\<lparr>mr_version = mg_version m, mr_description = mg_description m, mr_success = True,
                     mr_checksum = checksum\<rparr>])))"

definition applied_map :: "migration_row list \<Rightarrow> int \<rightharpoonup> string" where
  "applied_map rows = map_of (map (\<lambda>r. (mr_version r, mr_checksum r)) rows)"

definition apply_prefixed_migrations :: "'d pg_server \<Rightarrow> migration list \<Rightarrow> string \<Rightarrow>
    ('d \<times> migration_row list, unit res) eff" where
  "apply_prefixed_migrations S ms pre w =
     (case sort_key mr_version (filter (\<lambda>r. \<not> mr_success r) (snd w)) of
        r # _ \<Rightarrow> (Inl (dirty_error (mr_version r)), w)
      | [] \<Rightarrow> apply_each S (applied_map (snd w)) pre ms w)"

text \<open>The rows of a tracking table: one per version, none dirty.\<close>

definition rows_ok :: "migration_row list \<Rightarrow> bool" where
  "rows_ok rows \<longleftrightarrow> distinct (map mr_version rows) \<and> list_all mr_success rows"

definition recorded :: "'d pg_server \<Rightarrow> string \<Rightarrow> migration_row list \<Rightarrow> migration \<Rightarrow> bool" where
  "recorded S pre rows m \<longleftrightarrow>
     mg_is_down m \<or> applied_map rows (mg_version m) = Some (sv_sha S (substitute_identifiers (mg_sql m) pre))"

lemma applied_map_append:
  "mr_version r \<notin> mr_version ` set rows \<Longrightarrow> applied_map (rows @ [r]) = (applied_map rows)(mr_version r \<mapsto> mr_checksum r)"
  by (force simp: applied_map_def map_add_def fun_eq_iff split: option.splits dest: map_of_SomeD)

lemma applied_map_mono:
  "applied_map rows v = Some c \<Longrightarrow> v \<noteq> mr_version r \<Longrightarrow> applied_map (rows @ [r]) v = Some c"
  by (simp add: applied_map_def map_add_def)

lemma applied_map_dom: "applied_map rows v = Some c \<Longrightarrow> v \<in> mr_version ` set rows"
  by (auto simp: applied_map_def dest!: map_of_SomeD)

text \<open>A run that succeeds records every migration and keeps what was recorded.\<close>

lemma apply_each_records:
  assumes "apply_each S applied pre ms (db, rows) = (Inr u, (db', rows'))" "rows_ok rows"
    and "\<And>v c. applied v = Some c \<Longrightarrow> applied_map rows v = Some c"
  shows "rows_ok rows' \<and> (\<forall>v c. applied_map rows v = Some c \<longrightarrow> applied_map rows' v = Some c) \<and>
    list_all (recorded S pre rows') ms"
  using assms
proof (induction ms arbitrary: db rows)
  case (Cons m ms)
  let ?c = "sv_sha S (substitute_identifiers (mg_sql m) pre)"
  consider (down) "mg_is_down m" | (old) "\<not> mg_is_down m" "applied (mg_version m) = Some ?c"
    | (new) db1 where "\<not> mg_is_down m" "applied (mg_version m) = None" "mg_version m \<notin> mr_version ` set rows"
        "sv_exec S (substitute_identifiers (mg_sql m) pre) db = Inr db1"
    using Cons.prems(1) by (auto simp: Let_def split: if_splits option.splits sum.splits)
  then show ?case
  proof cases
    case down
    then show ?thesis using Cons by (auto simp: recorded_def)
  next
    case old
    then show ?thesis using Cons.prems Cons.IH[of db rows] by (auto simp: recorded_def Let_def)
  next
    case new
    let ?r = "\<lparr>mr_version = mg_version m, mr_description = mg_description m, mr_success = True, mr_checksum = ?c\<rparr>"
    have run: "apply_each S applied pre ms (db1, rows @ [?r]) = (Inr u, (db', rows'))"
      using Cons.prems(1) new by (simp add: Let_def)
    have ok: "rows_ok (rows @ [?r])" using Cons.prems(2) new(3) by (simp add: rows_ok_def)
    have mono: "applied_map (rows @ [?r]) v = Some c" if "applied_map rows v = Some c" for v c
    proof -
      have "v \<noteq> mr_version ?r" using applied_map_dom[OF that] new(3) by force
      then show ?thesis by (rule applied_map_mono[OF that])
    qed
    have "applied_map (rows @ [?r]) (mg_version m) = Some ?c" using applied_map_append[of ?r rows] new(3) by simp
    then show ?thesis
      using Cons.IH[OF run ok] Cons.prems(3) mono by (auto simp: recorded_def)
  qed
qed simp

lemma apply_each_again:
  "list_all (recorded S pre rows) ms \<Longrightarrow> apply_each S (applied_map rows) pre ms (db, rows) = (Inr (), (db, rows))"
  by (induction ms) (auto simp: recorded_def Let_def)

lemma apply_each_other_prefix:
  "list_all (recorded S pre rows) ms \<Longrightarrow> \<exists>m \<in> set ms. \<not> recorded S pre' rows m \<Longrightarrow>
     \<exists>v. apply_each S (applied_map rows) pre' ms (db, rows) = (Inl (previous_prefix_error v), (db, rows))"
proof (induction ms)
  case (Cons m ms)
  show ?case
  proof (cases "recorded S pre' rows m")
    case True
    then have "\<exists>v. apply_each S (applied_map rows) pre' ms (db, rows) = (Inl (previous_prefix_error v), (db, rows))"
      using Cons by auto
    with True show ?thesis by (auto simp: recorded_def Let_def)
  next
    case False
    with Cons.prems(1) show ?thesis by (auto simp: recorded_def Let_def)
  qed
qed simp

lemma no_dirty_rows: "rows_ok rows \<Longrightarrow> sort_key mr_version (filter (\<lambda>r. \<not> mr_success r) rows) = []"
  by (auto simp: rows_ok_def list_all_iff)

text \<open>
  The prefixed migrations settle. After a run that succeeded, running them again with the same
  prefix succeeds and changes nothing, and running them with a prefix that gives any migration
  another digest fails with the message about the prefix, executing no script and recording nothing.
\<close>

theorem prefixed_migrations_settle:
  assumes "apply_prefixed_migrations S ms pre (db, rows) = (Inr u, (db', rows'))"
    and "rows_ok rows"
  shows "apply_prefixed_migrations S ms pre (db', rows') = (Inr (), (db', rows')) \<and>
    ((\<exists>m \<in> set ms. \<not> mg_is_down m \<and>
        sv_sha S (substitute_identifiers (mg_sql m) pre') \<noteq> sv_sha S (substitute_identifiers (mg_sql m) pre)) \<longrightarrow>
     (\<exists>v. apply_prefixed_migrations S ms pre' (db', rows') = (Inl (previous_prefix_error v), (db', rows'))))"
proof -
  have "apply_each S (applied_map rows) pre ms (db, rows) = (Inr u, (db', rows'))"
    using assms by (simp add: apply_prefixed_migrations_def no_dirty_rows)
  from apply_each_records[OF this assms(2)] have ok: "rows_ok rows'" and all: "list_all (recorded S pre rows') ms"
    by simp_all
  have "\<exists>m \<in> set ms. \<not> recorded S pre' rows' m"
    if "\<exists>m \<in> set ms. \<not> mg_is_down m \<and>
        sv_sha S (substitute_identifiers (mg_sql m) pre') \<noteq> sv_sha S (substitute_identifiers (mg_sql m) pre)"
    using that all by (fastforce simp: recorded_def list_all_iff)
  then show ?thesis
    using apply_each_again[OF all] apply_each_other_prefix[OF all, of pre'] no_dirty_rows[OF ok]
    by (simp add: apply_prefixed_migrations_def)
qed

definition sample_server :: "string list pg_server" where
  "sample_server = \<lparr>sv_sha = (\<lambda>s. s), sv_exec = (\<lambda>s db. Inr (db @ [s])), sv_duplicate = ''duplicate key''\<rparr>"

definition sample_migration :: migration where
  "sample_migration = \<lparr>mg_version = 1, mg_description = ''initial'', mg_is_down = False, mg_sql = ''TRUNCATE events;''\<rparr>"

lemma sample_script: "substitute_identifiers ''TRUNCATE events;'' p = ''TRUNCATE '' @ p @ ''events;''"
  by (simp add: substitute_identifiers.simps(2) ident_start_def ident_char_def char_class_defs next_is_def
      prefixable_identifiers_def)

lemma prefixed_migrations_settle_witness:
  "\<exists>v db rows. apply_prefixed_migrations sample_server [sample_migration] ''a_'' ([], []) = (Inr (), (db, rows)) \<and>
     apply_prefixed_migrations sample_server [sample_migration] ''b_'' (db, rows) =
       (Inl (previous_prefix_error v), (db, rows))"
proof -
  have run: "apply_prefixed_migrations sample_server [sample_migration] ''a_'' ([], []) =
      (Inr (), ([''TRUNCATE a_events;''], [\<lparr>mr_version = 1, mr_description = ''initial'', mr_success = True,
        mr_checksum = ''TRUNCATE a_events;''\<rparr>]))"
    by (simp add: apply_prefixed_migrations_def sample_server_def sample_migration_def applied_map_def sample_script Let_def)
  have "rows_ok []" by (simp add: rows_ok_def)
  from prefixed_migrations_settle[OF run this, of "''b_''"] run show ?thesis
    by (simp add: sample_server_def sample_migration_def sample_script)
qed

end
