(* ===== verification/Artifacts.thy ===== *)
theory Artifacts
  imports Executor
begin

text \<open>
  Artifacts: the content-addressed store on the local file system
  (\<open>wfe-core/src/local_artifact_store.rs\<close>) and the volumes that carry artifacts to a step
  (\<open>wfe-core/src/artifact_volume.rs\<close>; the resolution of a volume is in \<open>Executor\<close>). The disk is a
  map from paths to contents, with a clock and a source of UUIDs. Any call to the file system may fail,
  as the parameter \<open>se_fault\<close> decides; a write that fails may leave anything in its file. The hash
  function, the JSON text of the metadata and the tar format are parameters. Directories are not
  kept: creating one can only fail.
\<close>

section \<open>The disk\<close>

record disk =
  dk_files :: "string \<rightharpoonup> string"
  dk_clock :: "nat \<Rightarrow> date_time"
  dk_ticks :: nat
  dk_uuids :: "nat \<Rightarrow> string"
  dk_drawn :: nat

definition dk_now :: "(disk, date_time) eff" where
  "dk_now d = (dk_clock d (dk_ticks d), d\<lparr>dk_ticks := Suc (dk_ticks d)\<rparr>)"

definition dk_uuid :: "(disk, string) eff" where
  "dk_uuid d = (dk_uuids d (dk_drawn d), d\<lparr>dk_drawn := Suc (dk_drawn d)\<rparr>)"

definition put_file :: "string \<Rightarrow> string \<Rightarrow> disk \<Rightarrow> disk" where
  "put_file p b d = d\<lparr>dk_files := (dk_files d)(p \<mapsto> b)\<rparr>"

definition drop_file :: "string \<Rightarrow> disk \<Rightarrow> disk" where
  "drop_file p d = d\<lparr>dk_files := (dk_files d)(p := None)\<rparr>"

record artifact_meta =
  am_created_at :: date_time
  am_expires_at :: "date_time option"

text \<open>
  \<open>se_fault ctx p d\<close>: whether the call on path \<open>p\<close> with the context \<open>ctx\<close> fails, with the message and
  with what a failing write has left in the file.
\<close>

record store_env =
  se_sha256 :: "string \<Rightarrow> string"
  se_meta_text :: "artifact_meta \<Rightarrow> string + string"
  se_meta_parse :: "string \<Rightarrow> string + artifact_meta"
  se_fault :: "string \<Rightarrow> string \<Rightarrow> disk \<Rightarrow> (string \<times> string option) option"

definition io_err :: "string \<Rightarrow> string \<Rightarrow> wfe_error" where
  "io_err ctx e = Other (''artifact store io error ('' @ ctx @ ''): '' @ e)"

text \<open>A call that changes the disk only when it succeeds, and one that writes a file.\<close>

definition attempt :: "store_env \<Rightarrow> string \<Rightarrow> string \<Rightarrow> (disk \<Rightarrow> disk) \<Rightarrow> (disk, unit res) eff" where
  "attempt E ctx p f d =
     (case se_fault E ctx p d of None \<Rightarrow> (Inr (), f d) | Some (e, _) \<Rightarrow> (Inl (io_err ctx e), d))"

definition attempt_write :: "store_env \<Rightarrow> string \<Rightarrow> string \<Rightarrow> string \<Rightarrow> (disk, unit res) eff" where
  "attempt_write E ctx p b d =
     (case se_fault E ctx p d of
        None \<Rightarrow> (Inr (), put_file p b d)
      | Some (e, left) \<Rightarrow>
          (Inl (io_err ctx e), case left of None \<Rightarrow> d | Some junk \<Rightarrow> put_file p junk d))"

section \<open>The local store\<close>

record local_store =
  las_root :: string
  las_default_expiry :: "duration option"

definition local_open :: "store_env \<Rightarrow> string \<Rightarrow> (disk, local_store res) eff" where
  "local_open E path d =
     (case attempt E ''create blob dir'' (path_join path ''blobs/sha256'') id d of
        (Inl e, d) \<Rightarrow> (Inl e, d)
      | (Inr _, d) \<Rightarrow>
        case attempt E ''create meta dir'' (path_join path ''meta'') id d of
          (Inl e, d) \<Rightarrow> (Inl e, d)
        | (Inr _, d) \<Rightarrow>
          (let oci_layout = path_join path ''oci-layout'';
               s = \<lparr>las_root = path, las_default_expiry = Some (7 * 24 * 60 * 60 * 1000000000)\<rparr>
           in if dk_files d oci_layout \<noteq> None then (Inr s, d)
              else (case attempt_write E ''write oci-layout'' oci_layout
                            (''{'' @ [CHR 0x22] @ ''imageLayoutVersion'' @ [CHR 0x22] @ '': '' @ [CHR 0x22]
                             @ ''1.0.0'' @ [CHR 0x22] @ ''}'') d of
                      (Inl e, d) \<Rightarrow> (Inl e, d)
                    | (Inr _, d) \<Rightarrow> (Inr s, d))))"

definition with_expiry :: "duration option \<Rightarrow> local_store \<Rightarrow> local_store" where
  "with_expiry expiry s = s\<lparr>las_default_expiry := expiry\<rparr>"

definition hash_of :: "string \<Rightarrow> string" where
  "hash_of digest = unwrap_or (strip_prefix_str ''sha256:'' digest) digest"

definition blob_path :: "local_store \<Rightarrow> string \<Rightarrow> string" where
  "blob_path s digest = path_join (path_join (las_root s) ''blobs/sha256'') (hash_of digest)"

definition meta_path :: "local_store \<Rightarrow> string \<Rightarrow> string" where
  "meta_path s digest = path_join (path_join (las_root s) ''meta'') (hash_of digest @ ''.json'')"

definition gc_expired :: "store_env \<Rightarrow> local_store \<Rightarrow> string \<Rightarrow> (disk, bool res) eff" where
  "gc_expired E s digest d =
     (case dk_files d (meta_path s digest) of
        None \<Rightarrow> (Inr False, d)
      | Some raw \<Rightarrow>
        case attempt E ''read meta'' (meta_path s digest) id d of
          (Inl e, d) \<Rightarrow> (Inl e, d)
        | (Inr _, d) \<Rightarrow>
          case se_meta_parse E raw of
            Inl e \<Rightarrow> (Inl (Serialization e), d)
          | Inr meta \<Rightarrow>
            (case am_expires_at meta of
               None \<Rightarrow> (Inr False, d)
             | Some t \<Rightarrow>
                (let (now, d) = dk_now d in
                 if t < now then
                   (let (_, d) = attempt E ''remove blob'' (blob_path s digest) (drop_file (blob_path s digest)) d;
                        (_, d) = attempt E ''remove meta'' (meta_path s digest) (drop_file (meta_path s digest)) d
                    in (Inr True, d))
                 else (Inr False, d))))"

text \<open>
  The copy loop of \<open>put\<close>: the stream ends with its last read or with a read of zero bytes. \<open>hashed\<close> is
  what the hasher has seen.
\<close>

fun copy_chunks :: "store_env \<Rightarrow> string \<Rightarrow> (string + string) list \<Rightarrow> string \<Rightarrow> (disk, string res) eff" where
  "copy_chunks E tmp [] hashed d = (Inr hashed, d)"
| "copy_chunks E tmp (Inl e # rest) hashed d = (Inl (io_err ''read input'' e), d)"
| "copy_chunks E tmp (Inr c # rest) hashed d =
     (if c = [] then (Inr hashed, d)
      else case attempt_write E ''write tmp file'' tmp (unwrap_or (dk_files d tmp) [] @ c) d of
             (Inl e, d) \<Rightarrow> (Inl e, d)
           | (Inr _, d) \<Rightarrow> copy_chunks E tmp rest (hashed @ c) d)"

text \<open>From the finished temporary file to the blob.\<close>

definition commit_blob :: "store_env \<Rightarrow> local_store \<Rightarrow> string \<Rightarrow> string \<Rightarrow> (disk, string res) eff" where
  "commit_blob E s tmp hashed d =
     (let digest = ''sha256:'' @ se_sha256 E hashed; dest = blob_path s digest in
      if dk_files d dest \<noteq> None then
        (case attempt E ''remove tmp file'' tmp (drop_file tmp) d of
           (Inl e, d) \<Rightarrow> (Inl e, d)
         | (Inr _, d) \<Rightarrow> (Inr digest, d))
      else
        (case attempt E ''rename blob'' dest
                (\<lambda>d. drop_file tmp (put_file dest (unwrap_or (dk_files d tmp) []) d)) d of
           (Inl e, d) \<Rightarrow> (Inl e, d)
         | (Inr _, d) \<Rightarrow>
             (let (created, d) = dk_now d;
                  (expires, d) = (case las_default_expiry s of
                                    None \<Rightarrow> (None, d)
                                  | Some dur \<Rightarrow> (let (now, d) = dk_now d in (Some (now + int dur), d)))
              in case se_meta_text E \<lparr>am_created_at = created, am_expires_at = expires\<rparr> of
                   Inl e \<Rightarrow> (Inl (Serialization e), d)
                 | Inr raw \<Rightarrow>
                     (case attempt_write E ''write meta'' (meta_path s digest) raw d of
                        (Inl e, d) \<Rightarrow> (Inl e, d)
                      | (Inr _, d) \<Rightarrow> (Inr digest, d)))))"

definition local_put :: "store_env \<Rightarrow> local_store \<Rightarrow> (string + string) list \<Rightarrow> (disk, string res) eff" where
  "local_put E s chunks d =
     (let tmp_dir = path_join (las_root s) ''tmp'' in
      case attempt E ''create tmp dir'' tmp_dir id d of
        (Inl e, d) \<Rightarrow> (Inl e, d)
      | (Inr _, d) \<Rightarrow>
        (let (u, d) = dk_uuid d; tmp = path_join tmp_dir (u @ ''.tmp'') in
         case attempt_write E ''create tmp file'' tmp [] d of
           (Inl e, d) \<Rightarrow> (Inl e, d)
         | (Inr _, d) \<Rightarrow>
           case copy_chunks E tmp chunks [] d of
             (Inl e, d) \<Rightarrow> (Inl e, d)
           | (Inr hashed, d) \<Rightarrow>
             case attempt E ''flush tmp file'' tmp id d of
               (Inl e, d) \<Rightarrow> (Inl e, d)
             | (Inr _, d) \<Rightarrow> commit_blob E s tmp hashed d))"

definition file_reader :: "store_env \<Rightarrow> string \<Rightarrow> string \<Rightarrow> disk reader" where
  "file_reader E p b d = (case se_fault E ''read blob'' p d of None \<Rightarrow> Inr b | Some (e, _) \<Rightarrow> Inl e, d)"

definition local_get :: "store_env \<Rightarrow> local_store \<Rightarrow> string \<Rightarrow> (disk, disk reader option res) eff" where
  "local_get E s digest d =
     (case gc_expired E s digest d of
        (Inl e, d) \<Rightarrow> (Inl e, d)
      | (Inr True, d) \<Rightarrow> (Inr None, d)
      | (Inr False, d) \<Rightarrow>
        case dk_files d (blob_path s digest) of
          None \<Rightarrow> (Inr None, d)
        | Some b \<Rightarrow>
          (case attempt E ''open blob'' (blob_path s digest) id d of
             (Inl e, d) \<Rightarrow> (Inl e, d)
           | (Inr _, d) \<Rightarrow> (Inr (Some (file_reader E (blob_path s digest) b)), d)))"

definition local_exists :: "store_env \<Rightarrow> local_store \<Rightarrow> string \<Rightarrow> (disk, bool) eff" where
  "local_exists E s digest d =
     (case gc_expired E s digest d of
        (Inr True, d) \<Rightarrow> (False, d)
      | (_, d) \<Rightarrow> (dk_files d (blob_path s digest) \<noteq> None, d))"

definition local_artifact_store :: "store_env \<Rightarrow> local_store \<Rightarrow> disk artifact_store" where
  "local_artifact_store E s =
     \<lparr>put_blob = local_put E s, get_blob = local_get E s, blob_exists = local_exists E s,
      blob_default_expiry = las_default_expiry s\<rparr>"

section \<open>Paths of the store\<close>

abbreviation plain :: "string \<Rightarrow> bool" where
  "plain s \<equiv> CHR ''/'' \<notin> set s"

definition stem :: "string \<Rightarrow> string" where
  "stem p = (if p = [] \<or> last p = CHR ''/'' then p else p @ ''/'')"

definition blob_file :: "local_store \<Rightarrow> string \<Rightarrow> string" where
  "blob_file s h = path_join (path_join (las_root s) ''blobs/sha256'') h"

lemma plain_relative: "plain p \<Longrightarrow> \<not> is_absolute p" "plain p \<Longrightarrow> plain q \<Longrightarrow> \<not> is_absolute (p @ q)"
  by (auto simp: is_absolute_def take_Suc neq_Nil_conv) (cases p; cases q; auto)+

lemma path_join_stem: "\<not> is_absolute p \<Longrightarrow> path_join base p = stem base @ p"
  by (simp add: path_join_def stem_def)

lemma path_join_stem2:
  "\<not> is_absolute p \<Longrightarrow> p \<noteq> [] \<Longrightarrow> last p \<noteq> CHR ''/'' \<Longrightarrow> \<not> is_absolute q \<Longrightarrow>
     path_join (path_join base p) q = stem base @ p @ ''/'' @ q"
  by (simp add: path_join_stem) (simp add: stem_def)

lemma blob_file_eq: "plain h \<Longrightarrow> blob_file s h = stem (las_root s) @ ''blobs/sha256/'' @ h"
  unfolding blob_file_def by (subst path_join_stem2) (simp_all add: plain_relative is_absolute_def[of "_ # _"])

lemma blob_path_file: "blob_path s digest = blob_file s (hash_of digest)"
  by (simp add: blob_path_def blob_file_def)

lemma hash_of_digest: "hash_of (''sha256:'' @ h) = h"
  by (simp add: hash_of_def strip_prefix_str_def)

lemmas hash_of_simps [simp] = hash_of_digest hash_of_digest[simplified]

text \<open>A path that no blob lives at.\<close>

definition outside :: "local_store \<Rightarrow> string \<Rightarrow> bool" where
  "outside s p \<longleftrightarrow> (\<forall>h. plain h \<longrightarrow> blob_file s h \<noteq> p)"

lemma tmp_outside: "plain u \<Longrightarrow> outside s (path_join (path_join (las_root s) ''tmp'') (u @ ''.tmp''))"
  unfolding outside_def
  by (subst path_join_stem2) (simp_all add: plain_relative is_absolute_def[of "_ # _"] blob_file_eq)

lemma meta_outside: "plain (hash_of g) \<Longrightarrow> outside s (meta_path s g)"
  unfolding outside_def meta_path_def
  by (subst path_join_stem2) (simp_all add: plain_relative is_absolute_def[of "_ # _"] blob_file_eq)

lemma tmp_not_meta:
  "plain u \<Longrightarrow> plain (hash_of g) \<Longrightarrow> path_join (path_join (las_root s) ''tmp'') (u @ ''.tmp'') \<noteq> meta_path s g"
  unfolding meta_path_def
  using path_join_stem2[of "''tmp''" "u @ ''.tmp''" "las_root s"]
    path_join_stem2[of "''meta''" "hash_of g @ ''.json''" "las_root s"]
  by (simp add: plain_relative is_absolute_def[of "_ # _"])

section \<open>Integrity\<close>

text \<open>Every blob is stored under the hash of its content.\<close>

definition blobs_ok :: "store_env \<Rightarrow> local_store \<Rightarrow> disk \<Rightarrow> bool" where
  "blobs_ok E s d \<longleftrightarrow>
     (\<forall>h b. plain h \<longrightarrow> dk_files d (blob_file s h) = Some b \<longrightarrow> se_sha256 E b = h)"

definition hash_plain :: "store_env \<Rightarrow> bool" where
  "hash_plain E \<longleftrightarrow> (\<forall>b. plain (se_sha256 E b))"

definition uuids_plain :: "disk \<Rightarrow> bool" where
  "uuids_plain d \<longleftrightarrow> (\<forall>n. plain (dk_uuids d n))"

lemma disk_frame [simp]:
  "dk_files (snd (dk_now d)) = dk_files d" "dk_files (snd (dk_uuid d)) = dk_files d"
  "dk_files (put_file p b d) = (dk_files d)(p \<mapsto> b)" "dk_files (drop_file p d) = (dk_files d)(p := None)"
  "dk_uuids (snd (dk_now d)) = dk_uuids d" "dk_uuids (snd (dk_uuid d)) = dk_uuids d"
  "dk_uuids (put_file p b d) = dk_uuids d" "dk_uuids (drop_file p d) = dk_uuids d"
  by (simp_all add: dk_now_def dk_uuid_def put_file_def drop_file_def)

text \<open>What an operation may do to a disk without endangering the blobs.\<close>

definition preserves :: "store_env \<Rightarrow> local_store \<Rightarrow> disk \<Rightarrow> disk \<Rightarrow> bool" where
  "preserves E s d d' \<longleftrightarrow> (blobs_ok E s d \<longrightarrow> blobs_ok E s d') \<and> dk_uuids d' = dk_uuids d"

lemma preserves_refl [simp]: "preserves E s d d"
  by (simp add: preserves_def)

lemma preserves_trans [trans]: "preserves E s d d' \<Longrightarrow> preserves E s d' d'' \<Longrightarrow> preserves E s d d''"
  by (simp add: preserves_def)

lemma preserves_clock [simp]: "preserves E s d (snd (dk_now d))" "preserves E s d (snd (dk_uuid d))"
  by (simp_all add: preserves_def blobs_ok_def)

lemma preserves_drop [simp]: "preserves E s d (drop_file p d)"
  by (auto simp: preserves_def blobs_ok_def split: if_splits)

lemma preserves_put: "outside s p \<Longrightarrow> preserves E s d (put_file p b d)"
  by (auto simp: preserves_def blobs_ok_def outside_def)

lemma preserves_put_blob:
  assumes "plain (se_sha256 E b)"
  shows "preserves E s d (put_file (blob_file s (se_sha256 E b)) b d)"
proof -
  have "blob_file s h = blob_file s (se_sha256 E b) \<longleftrightarrow> h = se_sha256 E b" if "plain h" for h
    using that assms by (simp add: blob_file_eq)
  then show ?thesis by (simp add: preserves_def blobs_ok_def)
qed

lemma preserves_attempt: "preserves E s d (f d) \<Longrightarrow> attempt E ctx p f d = (r, d') \<Longrightarrow> preserves E s d d'"
  by (auto simp: attempt_def split: option.splits)

lemma preserves_attempt_write:
  "outside s p \<Longrightarrow> attempt_write E ctx p b d = (r, d') \<Longrightarrow> preserves E s d d'"
  by (auto simp: attempt_write_def preserves_put split: option.splits)

lemma gc_preserves: "gc_expired E s g d = (r, d') \<Longrightarrow> preserves E s d d'"
proof -
  assume gc: "gc_expired E s g d = (r, d')"
  obtain now d1 where n: "dk_now d = (now, d1)" by (metis surj_pair)
  then have d1: "preserves E s d d1" using preserves_clock(1)[of E s d] by simp
  obtain u2 d2 where b: "attempt E ''remove blob'' (blob_path s g) (drop_file (blob_path s g)) d1 = (u2, d2)"
    by (metis surj_pair)
  obtain u3 d3 where m: "attempt E ''remove meta'' (meta_path s g) (drop_file (meta_path s g)) d2 = (u3, d3)"
    by (metis surj_pair)
  from preserves_trans[OF d1 preserves_trans[OF preserves_attempt[OF preserves_drop b] preserves_attempt[OF preserves_drop m]]]
  have d3: "preserves E s d d3" .
  have "d' = d \<or> d' = d1 \<or> d' = d3"
    using gc by (auto simp: gc_expired_def n b m attempt_def[of E "''read meta''"] Let_def split: option.splits sum.splits if_splits)
  with d1 d3 show ?thesis by auto
qed

lemma get_preserves: "local_get E s g d = (r, d') \<Longrightarrow> preserves E s d d'"
  by (auto simp: local_get_def attempt_def dest: gc_preserves split: prod.splits sum.splits bool.splits option.splits)

lemma exists_preserves: "local_exists E s g d = (r, d') \<Longrightarrow> preserves E s d d'"
  by (auto simp: local_exists_def dest: gc_preserves split: prod.splits sum.splits bool.splits)

lemma copy_chunks_file:
  "copy_chunks E tmp chunks hashed d = (Inr out, d') \<Longrightarrow> dk_files d tmp = Some hashed \<Longrightarrow>
     dk_files d' tmp = Some out"
proof (induction E tmp chunks hashed d rule: copy_chunks.induct)
  case (3 E tmp c rest hashed d)
  then show ?case
    by (auto simp: attempt_write_def split: if_splits option.splits prod.splits)
qed auto

lemma copy_chunks_other:
  "copy_chunks E tmp chunks hashed d = (r, d') \<Longrightarrow> p \<noteq> tmp \<Longrightarrow> dk_files d' p = dk_files d p"
proof (induction E tmp chunks hashed d rule: copy_chunks.induct)
  case (3 E tmp c rest hashed d)
  then show ?case
    by (auto simp: attempt_write_def split: if_splits option.splits prod.splits)
qed auto

lemma copy_chunks_preserves:
  "copy_chunks E tmp chunks hashed d = (r, d') \<Longrightarrow> outside s tmp \<Longrightarrow> preserves E s d d'"
proof (induction E tmp chunks hashed d rule: copy_chunks.induct)
  case (3 E tmp c rest hashed d)
  obtain u d1 where w: "attempt_write E ''write tmp file'' tmp (unwrap_or (dk_files d tmp) [] @ c) d = (u, d1)"
    by (metis surj_pair)
  from preserves_attempt_write[OF "3.prems"(2) w] have p: "preserves E s d d1" .
  show ?case
  proof (cases "c = []")
    case False
    with "3.prems" w p "3.IH" show ?thesis
      by (auto split: sum.splits elim: preserves_trans)
  qed (use "3.prems" in auto)
qed auto

text \<open>The content a stream delivers when no read fails.\<close>

fun stream_content :: "(string + string) list \<Rightarrow> string" where
  "stream_content (Inr c # rest) = (if c = [] then [] else c @ stream_content rest)"
| "stream_content _ = []"

lemma copy_chunks_content:
  "copy_chunks E tmp chunks hashed d = (Inr out, d') \<Longrightarrow> out = hashed @ stream_content chunks"
  by (induction E tmp chunks hashed d rule: copy_chunks.induct)
    (auto split: if_splits prod.splits sum.splits)

lemma expiry_preserves:
  assumes "(case las_default_expiry s of None \<Rightarrow> (None, d)
      | Some dur \<Rightarrow> (let (now, d) = dk_now d in (Some (now + int dur), d))) = (x, d')"
  shows "preserves E s d d'"
proof (cases "las_default_expiry s")
  case (Some dur)
  with assms have "d' = snd (dk_now d)" by (auto split: prod.splits)
  with preserves_clock(1)[of E s d] show ?thesis by (simp only:)
qed (use assms in simp)

lemma commit_preserves:
  assumes "commit_blob E s tmp hashed d = (r, d')" and "dk_files d tmp = Some hashed" and "hash_plain E"
  shows "preserves E s d d'"
proof -
  define g where "g = ''sha256:'' @ se_sha256 E hashed"
  define ren where "ren = (\<lambda>d. drop_file tmp (put_file (blob_path s g) (unwrap_or (dk_files d tmp) []) d))"
  have pl: "plain (se_sha256 E hashed)" using assms(3) by (simp add: hash_plain_def)
  have hg: "hash_of g = se_sha256 E hashed" by (simp only: g_def hash_of_digest)
  have "preserves E s d (ren d)"
    using preserves_trans[OF preserves_put_blob[OF pl] preserves_drop] assms(2)
    by (simp add: blob_path_file ren_def hg)
  note p1 = preserves_attempt[where f = ren, OF this]
  have met: "outside s (meta_path s g)" using meta_outside pl hg by metis
  note com = assms(1)[unfolded commit_blob_def Let_def, folded g_def, folded ren_def]
  show ?thesis
  proof (cases "dk_files d (blob_path s g) = None")
    case False
    with com have "d' = snd (attempt E ''remove tmp file'' tmp (drop_file tmp) d)"
      by (auto split: prod.splits sum.splits)
    with preserves_attempt[where f = "drop_file tmp", OF preserves_drop prod.collapse[symmetric]] show ?thesis by blast
  next
    case True
    obtain u1 d1 where r1: "attempt E ''rename blob'' (blob_path s g) ren d = (u1, d1)" by (metis surj_pair)
    obtain c d2 where n: "dk_now d1 = (c, d2)" by (metis surj_pair)
    obtain x d3 where e: "(case las_default_expiry s of None \<Rightarrow> (None, d2)
      | Some dur \<Rightarrow> (case dk_now d2 of (now, d) \<Rightarrow> (Some (now + int dur), d))) = (x, d3)" by (metis surj_pair)
    have p2: "preserves E s d d2" using preserves_trans[OF p1[OF r1]] preserves_clock(1)[of E s d1] n by simp
    have p3: "preserves E s d d3" using preserves_trans[OF p2 expiry_preserves] e unfolding Let_def by blast
    have wr: "preserves E s d (snd (attempt_write E ''write meta'' (meta_path s g) raw d3))" for raw
      using preserves_trans[OF p3 preserves_attempt_write[OF met prod.collapse[symmetric]]] .
    have "d' = d1 \<or> d' = d3 \<or> (\<exists>raw. d' = snd (attempt_write E ''write meta'' (meta_path s g) raw d3))"
      using com unfolding r1 case_prod_conv n e
      by (auto simp: True split: sum.splits prod.splits) (metis snd_conv)+
    with p1[OF r1] p3 wr show ?thesis by auto
  qed
qed

lemma put_preserves:
  assumes "local_put E s chunks d = (r, d')" and "hash_plain E" and "uuids_plain d"
  shows "preserves E s d d'"
proof -
  obtain u d1 where u: "dk_uuid d = (u, d1)" by (metis surj_pair)
  let ?tmp = "path_join (path_join (las_root s) ''tmp'') (u @ ''.tmp'')"
  have out: "outside s ?tmp" using tmp_outside assms(3) u by (auto simp: uuids_plain_def dk_uuid_def)
  have p1: "preserves E s d d1" using preserves_clock(2)[of E s d] u by simp
  obtain r2 d2 where c: "attempt_write E ''create tmp file'' ?tmp [] d1 = (r2, d2)" by (metis surj_pair)
  have p2: "preserves E s d d2" using preserves_trans[OF p1 preserves_attempt_write[OF out c]] .
  obtain r3 d3 where k: "copy_chunks E ?tmp chunks [] d2 = (r3, d3)" by (metis surj_pair)
  have p3: "preserves E s d d3" using preserves_trans[OF p2 copy_chunks_preserves[OF k out]] .
  have fin: "preserves E s d d'" if "r2 = Inr v" "r3 = Inr h" "commit_blob E s ?tmp h d3 = (r, d')" for v h
  proof -
    from c that(1) have "dk_files d2 ?tmp = Some []" by (auto simp: attempt_write_def split: option.splits)
    with copy_chunks_file k that(2) have "dk_files d3 ?tmp = Some h" by blast
    from preserves_trans[OF p3 commit_preserves[OF that(3) this assms(2)]] show ?thesis .
  qed
  show ?thesis
    using assms(1) p1 p2 p3
    by (auto simp: local_put_def Let_def u c k attempt_def intro: fin split: option.splits sum.splits prod.splits)
qed

text \<open>Calls in sequence, whatever they answer.\<close>

datatype store_call = Put "(string + string) list" | Get string | Exists string

fun do_call :: "store_env \<Rightarrow> local_store \<Rightarrow> store_call \<Rightarrow> disk \<Rightarrow> disk" where
  "do_call E s (Put chunks) d = snd (local_put E s chunks d)"
| "do_call E s (Get digest) d = snd (local_get E s digest d)"
| "do_call E s (Exists digest) d = snd (local_exists E s digest d)"

definition store_calls :: "store_env \<Rightarrow> local_store \<Rightarrow> store_call list \<Rightarrow> disk \<Rightarrow> disk" where
  "store_calls E s calls d = fold (do_call E s) calls d"

lemma store_call_preserves:
  "hash_plain E \<Longrightarrow> uuids_plain d \<Longrightarrow> preserves E s d (do_call E s c d)"
  by (cases c) (auto intro: put_preserves get_preserves exists_preserves prod.collapse[symmetric])

lemma store_calls_preserve:
  "hash_plain E \<Longrightarrow> uuids_plain d \<Longrightarrow> preserves E s d (store_calls E s calls d)"
proof (induction calls arbitrary: d)
  case (Cons c calls)
  from store_call_preserves[OF Cons.prems] have p: "preserves E s d (do_call E s c d)" .
  then have "uuids_plain (do_call E s c d)" using Cons.prems(2) by (simp add: preserves_def uuids_plain_def)
  from preserves_trans[OF p Cons.IH[OF Cons.prems(1) this]] show ?case by (simp add: store_calls_def)
qed (simp add: store_calls_def)

lemma get_intact:
  assumes "local_get E s g d = (Inr (Some reader), d')" and "reader d1 = (Inr b, d2)"
    and "blobs_ok E s d" and "plain (hash_of g)"
  shows "se_sha256 E b = hash_of g"
proof -
  from assms(1) obtain d0 c where gc: "gc_expired E s g d = (Inr False, d0)"
    and f: "dk_files d0 (blob_path s g) = Some c" and rd: "reader = file_reader E (blob_path s g) c"
    by (auto simp: local_get_def attempt_def split: prod.splits sum.splits bool.splits option.splits)
  from gc_preserves[OF gc] assms(3) have "blobs_ok E s d0" by (simp add: preserves_def)
  with f assms(4) have "se_sha256 E c = hash_of g" by (auto simp: blobs_ok_def blob_path_file)
  moreover from assms(2) rd have "b = c" by (auto simp: file_reader_def split: option.splits prod.splits)
  ultimately show ?thesis by simp
qed

section \<open>Content-addressed stores\<close>

text \<open>
  What an executor may rely on: while the store is in a good state, the bytes a reader delivers match the
  digest they were asked for. The volumes a step receives inherit this.
\<close>

locale content_addressed =
  fixes A :: "'w artifact_store" and good :: "'w \<Rightarrow> bool" and matches :: "string \<Rightarrow> string \<Rightarrow> bool"
  assumes put_good: "put_blob A chunks w = (r, w') \<Longrightarrow> good w \<Longrightarrow> good w'"
    and get_good: "get_blob A g w = (q, w') \<Longrightarrow> good w \<Longrightarrow> good w'"
    and exists_good: "blob_exists A g w = (e, w') \<Longrightarrow> good w \<Longrightarrow> good w'"
    and get_matches: "get_blob A g w = (Inr (Some reader), w') \<Longrightarrow> good w \<Longrightarrow> reader w' = (Inr b, w'') \<Longrightarrow>
      matches g b \<and> good w''"
begin

definition holds_refs :: "(string \<times> json) list \<Rightarrow> artifact_volume \<Rightarrow> bool" where
  "holds_refs data_obj vol \<longleftrightarrow> (\<forall>(name, b) \<in> set vol. \<exists>g.
     and_then (map_of data_obj name) parse_artifact_ref = Some g \<and> matches g b)"

lemma holds_refs_update:
  "holds_refs m vol \<Longrightarrow> map_of m name = Some v \<Longrightarrow> parse_artifact_ref v = Some g \<Longrightarrow> matches g b \<Longrightarrow>
     holds_refs m (AList.update name b vol)"
  using set_alist_update[of name b vol] by (fastforce simp: holds_refs_def)

lemma resolve_inputs_refs:
  "resolve_inputs A m names vol w = (Inr vol', w') \<Longrightarrow> good w \<Longrightarrow> holds_refs m vol \<Longrightarrow>
     holds_refs m vol' \<and> good w'"
proof (induction names arbitrary: vol w)
  case (Cons name names)
  from Cons.prems(1) obtain v g reader w1 b w2 where v: "map_of m name = Some v"
    and g: "parse_artifact_ref v = Some g" and rd: "get_blob A g w = (Inr (Some reader), w1)"
    and b: "reader w1 = (Inr b, w2)"
    and rest: "resolve_inputs A m names (AList.update name b vol) w2 = (Inr vol', w')"
    by (auto split: option.splits prod.splits sum.splits)
  from get_matches[OF rd Cons.prems(2) b] have m: "matches g b" and ok: "good w2" by auto
  from Cons.IH[OF rest ok holds_refs_update[OF Cons.prems(3) v g m]] show ?case .
qed simp

lemma resolve_refs_refs:
  "resolve_refs A es vol w = (Inr vol', w') \<Longrightarrow> good w \<Longrightarrow> set es \<subseteq> set m \<Longrightarrow> distinct (map fst m) \<Longrightarrow>
     holds_refs m vol \<Longrightarrow> holds_refs m vol' \<and> good w'"
proof (induction es arbitrary: vol w)
  case (Cons e es)
  obtain name v where e: "e = (name, v)" by force
  have v: "map_of m name = Some v" using Cons.prems(3,4) e by (simp add: map_of_is_SomeI)
  show ?case
  proof (cases "parse_artifact_ref v")
    case None
    with Cons e show ?thesis by auto
  next
    case (Some g)
    obtain q w1 where q: "get_blob A g w = (q, w1)" by (metis surj_pair)
    from get_good[OF q Cons.prems(2)] have ok: "good w1" .
    from Cons.prems(1) e Some q consider (none) "q = Inr None" "resolve_refs A es vol w1 = (Inr vol', w')"
      | (some) reader b w2 where "q = Inr (Some reader)" "reader w1 = (Inr b, w2)"
          "resolve_refs A es (AList.update name b vol) w2 = (Inr vol', w')"
      by (auto split: option.splits prod.splits sum.splits)
    then show ?thesis
    proof cases
      case none
      with Cons.IH[OF none(2) ok] Cons.prems show ?thesis by simp
    next
      case (some reader b w2)
      from get_matches[of g w reader w1 b w2] q some Cons.prems(2) have "matches g b" "good w2" by auto
      with Cons.IH[OF some(3)] Cons.prems holds_refs_update[OF Cons.prems(5) v Some] show ?thesis by simp
    qed
  qed
qed simp

end

definition store_ok :: "store_env \<Rightarrow> local_store \<Rightarrow> disk \<Rightarrow> bool" where
  "store_ok E s d \<longleftrightarrow> hash_plain E \<and> uuids_plain d \<and> blobs_ok E s d"

definition digest_matches :: "store_env \<Rightarrow> string \<Rightarrow> string \<Rightarrow> bool" where
  "digest_matches E g b \<longleftrightarrow> (plain (hash_of g) \<longrightarrow> se_sha256 E b = hash_of g)"

lemma store_ok_preserved: "store_ok E s d \<Longrightarrow> preserves E s d d' \<Longrightarrow> store_ok E s d'"
  by (auto simp: store_ok_def preserves_def uuids_plain_def)

lemma store_call_ok:
  "local_put E s chunks d = (r, d') \<Longrightarrow> store_ok E s d \<Longrightarrow> store_ok E s d'"
  "local_get E s g d = (q, d') \<Longrightarrow> store_ok E s d \<Longrightarrow> store_ok E s d'"
  "local_exists E s g d = (e, d') \<Longrightarrow> store_ok E s d \<Longrightarrow> store_ok E s d'"
  by (metis put_preserves store_ok_def store_ok_preserved, blast intro: store_ok_preserved get_preserves,
      blast intro: store_ok_preserved exists_preserves)

interpretation local_blobs: content_addressed "local_artifact_store E s" "store_ok E s" "digest_matches E" for E s
proof
  fix g w reader w' b w''
  assume get: "get_blob (local_artifact_store E s) g w = (Inr (Some reader), w')"
    and ok: "store_ok E s w" and rd: "reader w' = (Inr b, w'')"
  from get have lg: "local_get E s g w = (Inr (Some reader), w')" by (simp add: local_artifact_store_def)
  from lg rd have "w'' = w'"
    by (auto simp: local_get_def file_reader_def attempt_def split: prod.splits sum.splits bool.splits option.splits)
  moreover have "store_ok E s w'" using store_ok_preserved[OF ok get_preserves[OF lg]] .
  ultimately show "digest_matches E g b \<and> store_ok E s w''"
    using get_intact[OF lg rd] ok by (simp add: digest_matches_def store_ok_def)
qed (auto simp: local_artifact_store_def intro: store_call_ok)

lemma store_calls_ok:
  assumes "hash_plain E" and "uuids_plain d" and "\<forall>h. plain h \<longrightarrow> dk_files d (blob_file s h) = None"
  shows "store_ok E s (store_calls E s calls d)"
proof -
  from assms have "store_ok E s d" by (simp add: store_ok_def blobs_ok_def)
  from store_ok_preserved[OF this store_calls_preserve[OF assms(1,2)]] show ?thesis .
qed

text \<open>
  C8: artifacts arrive intact. Whatever calls were made on a store that started without blobs, and whichever of
  their file operations failed half-way, every artifact of a volume resolved for a step, in whatever order its
  inputs are visited, comes from a reference in the workflow data; when the hash of this reference has no path
  separator, as every digest that the store hands out, the artifact is the content with this hash. Nothing is
  claimed for a reference with a separator, which somebody else must have written into the data: its path leaves
  the directory of the blobs (\<open>absolute_digest_escapes\<close>). The hash function and the drawn ids are
  assumed to have no separators.
\<close>

theorem resolved_volume_intact:
  assumes "hash_plain E" and "uuids_plain d" and "\<forall>h. plain h \<longrightarrow> dk_files d (blob_file s h) = None"
    and "volume_resolve (local_artifact_store E s) inputs data (store_calls E s calls d) = (Inr vol, d')"
    and "(name, bytes) \<in> set vol"
  shows "\<exists>digest. and_then (json_get data name) parse_artifact_ref = Some digest \<and>
     (plain (hash_of digest) \<longrightarrow> se_sha256 E bytes = hash_of digest)"
proof -
  from assms(4) obtain m where m: "as_object data = Some m"
    and r: "resolve_inputs (local_artifact_store E s) m (map fst inputs) [] (store_calls E s calls d) = (Inr vol, d')"
    by (auto simp: volume_resolve_def split: option.splits)
  from local_blobs.resolve_inputs_refs[OF r store_calls_ok[OF assms(1-3)]]
  have "local_blobs.holds_refs E m vol" by (simp add: local_blobs.holds_refs_def)
  with assms(5) m show ?thesis
    by (auto simp: local_blobs.holds_refs_def digest_matches_def json_get_def as_object_def split: json.splits)
qed

section \<open>Storing and reading back\<close>

text \<open>The metadata of a digest, if there is any, is readable and not expired at the next clock reading.\<close>

definition fresh :: "store_env \<Rightarrow> local_store \<Rightarrow> string \<Rightarrow> disk \<Rightarrow> bool" where
  "fresh E s g d \<longleftrightarrow>
     (case dk_files d (meta_path s g) of None \<Rightarrow> True
      | Some raw \<Rightarrow> (case se_meta_parse E raw of Inl _ \<Rightarrow> False
         | Inr m \<Rightarrow> (case am_expires_at m of None \<Rightarrow> True | Some t \<Rightarrow> fst (dk_now d) \<le> t)))"

definition reliable :: "store_env \<Rightarrow> bool" where
  "reliable E \<longleftrightarrow> (\<forall>ctx p d. se_fault E ctx p d = None) \<and>
     (\<forall>m raw. se_meta_text E m = Inr raw \<longrightarrow> se_meta_parse E raw = Inr m)"

lemma reliable_attempt:
  "reliable E \<Longrightarrow> attempt E ctx p f d = (Inr (), f d)" "reliable E \<Longrightarrow> attempt_write E ctx p b d = (Inr (), put_file p b d)"
  by (simp_all add: reliable_def attempt_def attempt_write_def)

lemma gc_fresh: "reliable E \<Longrightarrow> fresh E s g d \<Longrightarrow> \<exists>d'. gc_expired E s g d = (Inr False, d') \<and> dk_files d' = dk_files d"
  by (auto simp: gc_expired_def fresh_def reliable_attempt dk_now_def split: option.splits sum.splits)

lemma gc_stale:
  "reliable E \<Longrightarrow> dk_files d (meta_path s g) = Some raw \<Longrightarrow> se_meta_parse E raw = Inr m \<Longrightarrow>
     am_expires_at m = Some t \<Longrightarrow> t < fst (dk_now d) \<Longrightarrow> fst (gc_expired E s g d) = Inr True"
  by (simp add: gc_expired_def reliable_attempt dk_now_def)

lemma get_fresh:
  assumes "reliable E" and "fresh E s g d" and "dk_files d (blob_path s g) = Some b"
  shows "\<exists>reader d'. local_get E s g d = (Inr (Some reader), d') \<and> reader d' = (Inr b, d')"
proof -
  from gc_fresh[OF assms(1,2)] obtain d' where "gc_expired E s g d = (Inr False, d')" "dk_files d' = dk_files d" by blast
  with assms show ?thesis by (simp add: local_get_def reliable_attempt file_reader_def reliable_def)
qed

lemma put_commits:
  assumes "reliable E" and "local_put E s chunks d = (Inr g, d')" and "uuids_plain d"
  shows "\<exists>tmp d1. commit_blob E s tmp (stream_content chunks) d1 = (Inr g, d') \<and> outside s tmp \<and>
     (\<forall>g. plain (hash_of g) \<longrightarrow> tmp \<noteq> meta_path s g) \<and>
     dk_files d1 tmp = Some (stream_content chunks) \<and> (\<forall>p. p \<noteq> tmp \<longrightarrow> dk_files d1 p = dk_files d p)"
proof -
  obtain u d1 where u: "dk_uuid d = (u, d1)" by (metis surj_pair)
  let ?tmp = "path_join (path_join (las_root s) ''tmp'') (u @ ''.tmp'')"
  let ?d2 = "put_file ?tmp [] d1"
  have out: "outside s ?tmp" using tmp_outside assms(3) u by (auto simp: uuids_plain_def dk_uuid_def)
  from assms(1,2) obtain h d3 where k: "copy_chunks E ?tmp chunks [] ?d2 = (Inr h, d3)"
    and c: "commit_blob E s ?tmp h d3 = (Inr g, d')"
    by (auto simp: local_put_def Let_def u reliable_attempt split: prod.splits sum.splits)
  have "h = stream_content chunks" using copy_chunks_content[OF k] by simp
  moreover have "dk_files d3 ?tmp = Some h" using copy_chunks_file[OF k] by simp
  moreover have "\<forall>p. p \<noteq> ?tmp \<longrightarrow> dk_files d3 p = dk_files d p"
    using copy_chunks_other[OF k] u by (auto simp: dk_uuid_def)
  moreover have "\<forall>g. plain (hash_of g) \<longrightarrow> ?tmp \<noteq> meta_path s g"
    using tmp_not_meta assms(3) u by (auto simp: uuids_plain_def dk_uuid_def)
  ultimately show ?thesis using c out by blast
qed

lemma commit_result:
  assumes "reliable E" and "hash_plain E" and "commit_blob E s tmp c d = (Inr g, d')" and "outside s tmp"
    and "dk_files d tmp = Some c"
  shows "g = ''sha256:'' @ se_sha256 E c" and "dk_files d (blob_path s g) \<noteq> None \<Longrightarrow> d' = drop_file tmp d"
    and "dk_files d' (blob_path s g) = (case dk_files d (blob_path s g) of None \<Rightarrow> Some c | Some b \<Rightarrow> Some b)"
    and "dk_files d (blob_path s g) = None \<Longrightarrow>
      \<exists>m. (\<exists>raw. dk_files d' (meta_path s g) = Some raw \<and> se_meta_parse E raw = Inr m) \<and>
          am_expires_at m = map_option (\<lambda>dur. dk_clock d' (dk_ticks d' - 1) + int dur) (las_default_expiry s)"
proof -
  have pl: "plain (se_sha256 E c)" using assms(2) by (simp add: hash_plain_def)
  show g: "g = ''sha256:'' @ se_sha256 E c"
    using assms(3) by (auto simp: commit_blob_def Let_def split: if_splits prod.splits sum.splits)
  have hg: "hash_of g = se_sha256 E c" using g by (simp only: hash_of_digest)
  have neq: "blob_path s g \<noteq> tmp" "blob_path s g \<noteq> meta_path s g"
    using assms(4) meta_outside[of g s] pl hg by (auto simp: outside_def blob_path_file)
  note com = assms(3)[unfolded commit_blob_def Let_def, folded g]
  show keep: "d' = drop_file tmp d" if "dk_files d (blob_path s g) \<noteq> None"
    using com that by (simp add: reliable_attempt[OF assms(1)])
  have new: "\<exists>raw m. dk_files d' (meta_path s g) = Some raw \<and> dk_files d' (blob_path s g) = Some c \<and>
      se_meta_parse E raw = Inr m \<and>
      am_expires_at m = map_option (\<lambda>dur. dk_clock d' (dk_ticks d' - 1) + int dur) (las_default_expiry s)"
    if "dk_files d (blob_path s g) = None"
    using com that assms(1,5) neq
    by (auto simp: reliable_attempt dk_now_def reliable_def put_file_def drop_file_def split: option.splits sum.splits)
  show "dk_files d' (blob_path s g) = (case dk_files d (blob_path s g) of None \<Rightarrow> Some c | Some b \<Rightarrow> Some b)"
    using new keep neq by (cases "dk_files d (blob_path s g)") auto
  show "\<exists>m. (\<exists>raw. dk_files d' (meta_path s g) = Some raw \<and> se_meta_parse E raw = Inr m) \<and>
      am_expires_at m = map_option (\<lambda>dur. dk_clock d' (dk_ticks d' - 1) + int dur) (las_default_expiry s)"
    if "dk_files d (blob_path s g) = None"
    using new[OF that] by fastforce
qed

text \<open>
  C9: storing and reading back. When the file operations succeed, the digest that \<open>put\<close> returns names the
  content of the stream, and as long as its metadata has not expired \<open>get\<close> delivers exactly this content;
  a blob stored for the first time does not expire before its default expiry has passed. The
  hypotheses on the library: the hash is not one of another content, and the metadata parses back.
\<close>

theorem put_get_round_trip:
  assumes "reliable E" and "store_ok E s d" and "local_put E s chunks d = (Inr g, d')"
    and "\<forall>b. se_sha256 E b = se_sha256 E (stream_content chunks) \<longrightarrow> b = stream_content chunks"
  shows "g = ''sha256:'' @ se_sha256 E (stream_content chunks) \<and>
     (fresh E s g d' \<longrightarrow> (\<exists>reader d''. local_get E s g d' = (Inr (Some reader), d'') \<and>
        reader d'' = (Inr (stream_content chunks), d''))) \<and>
     (dk_files d (blob_path s g) = None \<and> (\<forall>dur. las_default_expiry s = Some dur \<longrightarrow>
        dk_clock d' (dk_ticks d') \<le> dk_clock d' (dk_ticks d' - 1) + int dur) \<longrightarrow> fresh E s g d')"
proof (intro conjI impI)
  from assms(2) have hp: "hash_plain E" and up: "uuids_plain d" and bo: "blobs_ok E s d" by (auto simp: store_ok_def)
  from put_commits[OF assms(1,3) up] obtain tmp d1 where
    c: "commit_blob E s tmp (stream_content chunks) d1 = (Inr g, d')" "outside s tmp"
       "dk_files d1 tmp = Some (stream_content chunks)"
    and same: "\<And>p. p \<noteq> tmp \<Longrightarrow> dk_files d1 p = dk_files d p" by blast
  note res = commit_result[OF assms(1) hp c]
  show g: "g = ''sha256:'' @ se_sha256 E (stream_content chunks)" by (rule res(1))
  have hg: "hash_of g = se_sha256 E (stream_content chunks)" using g by (simp only: hash_of_digest)
  have pl: "plain (hash_of g)" using hp hg by (simp add: hash_plain_def)
  have d1: "dk_files d1 (blob_path s g) = dk_files d (blob_path s g)" using same[of "blob_path s g"] c(2) pl by (auto simp: blob_path_file outside_def)
  have "b = stream_content chunks" if "dk_files d (blob_path s g) = Some b" for b
  proof -
    from that bo pl have "se_sha256 E b = hash_of g" by (simp add: blobs_ok_def blob_path_file)
    with hg assms(4) show ?thesis by metis
  qed
  with res(3) d1 have blob: "dk_files d' (blob_path s g) = Some (stream_content chunks)"
    by (cases "dk_files d (blob_path s g)") auto
  show "\<exists>reader d''. local_get E s g d' = (Inr (Some reader), d'') \<and> reader d'' = (Inr (stream_content chunks), d'')"
    if "fresh E s g d'"
    using get_fresh[OF assms(1) that blob] .
  show "fresh E s g d'" if new: "dk_files d (blob_path s g) = None \<and> (\<forall>dur. las_default_expiry s = Some dur \<longrightarrow>
      dk_clock d' (dk_ticks d') \<le> dk_clock d' (dk_ticks d' - 1) + int dur)"
    using res(4) d1 new by (auto simp: fresh_def dk_now_def split: option.splits)
qed

text \<open>
  Storing the content of an expired blob again does not renew it: \<open>put\<close> finds the file and keeps its old
  metadata, and the next \<open>get\<close> removes it and finds nothing.
\<close>

lemma put_expired_is_lost:
  assumes "reliable E" and "store_ok E s d" and "local_put E s chunks d = (Inr g, d')"
    and "dk_files d (blob_path s g) \<noteq> None" and "dk_files d (meta_path s g) = Some raw"
    and "se_meta_parse E raw = Inr m" and "am_expires_at m = Some t" and "t < fst (dk_now d')"
  shows "fst (local_get E s g d') = Inr None"
proof -
  from assms(2) have hp: "hash_plain E" and up: "uuids_plain d" by (auto simp: store_ok_def)
  from put_commits[OF assms(1,3) up] obtain tmp d1 where
    c: "commit_blob E s tmp (stream_content chunks) d1 = (Inr g, d')" "outside s tmp"
       "dk_files d1 tmp = Some (stream_content chunks)" and t: "\<And>g. plain (hash_of g) \<Longrightarrow> tmp \<noteq> meta_path s g"
    and same: "\<And>p. p \<noteq> tmp \<Longrightarrow> dk_files d1 p = dk_files d p" by blast
  note res = commit_result[OF assms(1) hp c]
  have pl: "plain (hash_of g)" using hp unfolding res(1) hash_of_digest hash_plain_def by blast
  have "blob_path s g \<noteq> tmp" using c(2) pl by (auto simp: outside_def blob_path_file)
  then have "d' = drop_file tmp d1" using res(2) same assms(4) by metis
  then have "dk_files d' (meta_path s g) = Some raw" using same t[OF pl] assms(5) by simp
  from gc_stale[OF assms(1) this assms(6-8)] show ?thesis
    by (auto simp: local_get_def split: prod.splits sum.splits bool.splits)
qed

text \<open>A reference that is an absolute path is read from outside the store.\<close>

lemma absolute_digest_escapes: "is_absolute (hash_of g) \<Longrightarrow> blob_path s g = hash_of g"
  by (simp add: blob_path_def path_join_def)

section \<open>Packages\<close>

text \<open>
  The tar and gzip libraries: setting a path may be refused, an archive is the list of its entries
  (path and content), reading one may fail as a whole or at an entry. \<open>tr_unpack\<close> extracts a gzipped
  archive into a directory.
\<close>

record 'w tar_env =
  tr_set_path :: "string \<Rightarrow> string + string"
  tr_finish :: "(string \<times> string) list \<Rightarrow> string + string"
  tr_entries :: "string \<Rightarrow> string + (string + string \<times> string) list"
  tr_gz_finish :: "(string \<times> string) list \<Rightarrow> string + string"
  tr_gz_entries :: "string \<Rightarrow> string + (string + string \<times> string) list"
  tr_create_dir :: "string \<Rightarrow> ('w, string + unit) eff"
  tr_unpack :: "string \<Rightarrow> string \<Rightarrow> ('w, string + unit) eff"

definition step_err :: "string \<Rightarrow> wfe_error" where
  "step_err m = StepExecution (Msg m)"

definition map_err :: "('e \<Rightarrow> 'f) \<Rightarrow> 'e + 'a \<Rightarrow> 'f + 'a" where
  "map_err f r = (case r of Inl e \<Rightarrow> Inl (f e) | Inr x \<Rightarrow> Inr x)"

definition package_entry :: "'w tar_env \<Rightarrow> string \<times> string \<Rightarrow> wfe_error + string \<times> string" where
  "package_entry T = (\<lambda>(name, bytes).
     case tr_set_path T (name @ ''.tar.gz'') of
       Inl e \<Rightarrow> Inl (step_err (''failed to set package path: '' @ e))
     | Inr p \<Rightarrow> Inr (p, bytes))"

definition package :: "'w tar_env \<Rightarrow> artifact_volume \<Rightarrow> string res" where
  "package T vol =
     (case try_map (package_entry T) vol of
        Inl e \<Rightarrow> Inl e
      | Inr es \<Rightarrow> map_err (\<lambda>e. step_err (''failed to finish package: '' @ e)) (tr_finish T es))"

fun unpack_entries :: "(string + string \<times> string) list \<Rightarrow> artifact_volume \<Rightarrow> artifact_volume res" where
  "unpack_entries [] vol = Inr vol"
| "unpack_entries (Inl e # es) vol = Inl (step_err (''failed to read package entry: '' @ e))"
| "unpack_entries (Inr (path, bytes) # es) vol =
     (case strip_suffix_str ''.tar.gz'' path of
        None \<Rightarrow> Inl (step_err ''invalid package entry name'')
      | Some name \<Rightarrow> unpack_entries es (AList.update name bytes vol))"

definition unpack :: "'w tar_env \<Rightarrow> string \<Rightarrow> artifact_volume res" where
  "unpack T bytes =
     (case tr_entries T bytes of
        Inl e \<Rightarrow> Inl (step_err (''failed to read package entries: '' @ e))
      | Inr es \<Rightarrow> unpack_entries es [])"

definition lookup_artifact :: "artifact_volume \<Rightarrow> string \<Rightarrow> string res" where
  "lookup_artifact vol name =
     ok_or (step_err (''artifact '' @ quoted name @ '' not in volume'')) (map_of vol name)"

definition extract_artifact_to_dir :: "'w tar_env \<Rightarrow> string \<Rightarrow> string \<Rightarrow> ('w, unit res) eff" where
  "extract_artifact_to_dir T bytes dest w =
     (case tr_create_dir T dest w of
        (Inl e, w) \<Rightarrow> (Inl (io_err ''create dest dir'' e), w)
      | (Inr _, w) \<Rightarrow>
        (case tr_unpack T bytes dest w of
           (Inl e, w) \<Rightarrow> (Inl (Other (''failed to unpack artifact: '' @ e)), w)
         | (Inr _, w) \<Rightarrow> (Inr (), w)))"

definition extract_one :: "'w tar_env \<Rightarrow> artifact_volume \<Rightarrow> string \<Rightarrow> string \<Rightarrow> ('w, unit res) eff" where
  "extract_one T vol name dest w =
     (case lookup_artifact vol name of
        Inl e \<Rightarrow> (Inl e, w)
      | Inr bytes \<Rightarrow>
        (case extract_artifact_to_dir T bytes dest w of
           (Inl e, w) \<Rightarrow> (Inl (StepExecution (MsgErr (''failed to extract artifact '' @ quoted name @ '': '') e)), w)
         | (Inr _, w) \<Rightarrow> (Inr (), w)))"

fun extract_each :: "'w tar_env \<Rightarrow> artifact_volume \<Rightarrow> string \<Rightarrow> string list \<Rightarrow> (string \<times> string) list \<Rightarrow>
    ('w, (string \<times> string) list res) eff" where
  "extract_each T vol dest [] acc w = (Inr acc, w)"
| "extract_each T vol dest (name # names) acc w =
     (case tr_create_dir T (path_join dest name) w of
        (Inl e, w) \<Rightarrow> (Inl (step_err (''failed to create extraction dir for '' @ quoted name @ '': '' @ e)), w)
      | (Inr _, w) \<Rightarrow>
        (case extract_one T vol name (path_join dest name) w of
           (Inl e, w) \<Rightarrow> (Inl e, w)
         | (Inr _, w) \<Rightarrow> extract_each T vol dest names (AList.update name (path_join dest name) acc) w))"

definition extract_all :: "'w tar_env \<Rightarrow> artifact_volume \<Rightarrow> string \<Rightarrow> ('w, (string \<times> string) list res) eff" where
  "extract_all T vol dest = extract_each T vol dest (map fst vol) []"

definition repackage_entry :: "'w tar_env \<Rightarrow> string \<Rightarrow> string + string \<times> string \<Rightarrow> wfe_error + string \<times> string" where
  "repackage_entry T pre entry =
     (case entry of
        Inl e \<Rightarrow> Inl (step_err (''failed to read tar entry: '' @ e))
      | Inr (path, bytes) \<Rightarrow>
        (case tr_set_path T (path_join pre path) of
           Inl e \<Rightarrow> Inl (step_err (''failed to set tar path: '' @ e))
         | Inr p \<Rightarrow> Inr (p, bytes)))"

definition repackage_with_prefix :: "'w tar_env \<Rightarrow> artifact_volume \<Rightarrow> string \<Rightarrow> string \<Rightarrow> string res" where
  "repackage_with_prefix T vol name pre =
     (case lookup_artifact vol name of
        Inl e \<Rightarrow> Inl e
      | Inr bytes \<Rightarrow>
        case tr_gz_entries T bytes of
          Inl e \<Rightarrow> Inl (step_err (''failed to read tar entries: '' @ e))
        | Inr es \<Rightarrow>
          (case try_map (repackage_entry T pre) es of
             Inl e \<Rightarrow> Inl e
           | Inr es' \<Rightarrow> map_err (\<lambda>e. step_err (''failed to finish tar: '' @ e)) (tr_gz_finish T es')))"

lemma update_nonmem: "n \<notin> fst ` set vol \<Longrightarrow> AList.update n b vol = vol @ [(n, b)]"
  by (induction vol) auto

lemma unpack_entries_suffix:
  "distinct (map fst es) \<Longrightarrow> fst ` set es \<inter> fst ` set vol = {} \<Longrightarrow>
     unpack_entries (map (\<lambda>(n, b). Inr (n @ ''.tar.gz'', b)) es) vol = Inr (vol @ es)"
proof (induction es arbitrary: vol)
  case (Cons nb es)
  obtain n b where nb: "nb = (n, b)" by force
  from Cons.prems nb have "AList.update n b vol = vol @ [(n, b)]"
    by (intro update_nonmem) auto
  with Cons nb show ?case
    by (subst nb) (simp add: strip_suffix_Some[THEN iffD2] image_iff)
qed simp


text \<open>
  A volume survives its transport. When the archive library returns the entries it was given and
  accepts the entry names, unpacking a package gives back the volume it was made of.
\<close>

theorem package_round_trip:
  assumes "distinct (map fst vol)" and "\<forall>(name, b) \<in> set vol. tr_set_path T (name @ ''.tar.gz'') = Inr (name @ ''.tar.gz'')"
    and "\<forall>es bytes. tr_finish T es = Inr bytes \<longrightarrow> tr_entries T bytes = Inr (map Inr es)"
    and "package T vol = Inr bytes"
  shows "unpack T bytes = Inr vol"
proof -
  have "try_map (package_entry T) vol = Inr (map (\<lambda>(n, b). (n @ ''.tar.gz'', b)) vol)"
    using assms(2) by (auto simp: try_map_Inr_iff package_entry_def list_all2_map2 list_all2_same)
  with assms(4) have "tr_finish T (map (\<lambda>(n, b). (n @ ''.tar.gz'', b)) vol) = Inr bytes"
    by (simp add: package_def map_err_def split: sum.splits)
  with assms(3) have "tr_entries T bytes = Inr (map (\<lambda>(n, b). Inr (n @ ''.tar.gz'', b)) vol)"
    by (auto simp: comp_def case_prod_beta)
  with unpack_entries_suffix[OF assms(1), of "[]"] show ?thesis by (simp add: unpack_def)
qed

section \<open>A sample\<close>

definition sample_meta :: artifact_meta where
  "sample_meta = \<lparr>am_created_at = 0, am_expires_at = Some 5\<rparr>"

definition sample_env :: store_env where
  "sample_env = \<lparr>se_sha256 = (\<lambda>b. if b = ''hi'' then ''d1'' else ''d2''),
     se_meta_text = (\<lambda>m. if m = sample_meta then Inr ''m'' else Inl ''unexpected''),
     se_meta_parse = (\<lambda>_. Inr sample_meta), se_fault = (\<lambda>_ _ _. None)\<rparr>"

definition sample_store :: local_store where
  "sample_store = \<lparr>las_root = ''/s'', las_default_expiry = Some 5\<rparr>"

definition sample_disk :: disk where
  "sample_disk = \<lparr>dk_files = Map.empty, dk_clock = (\<lambda>_. 0), dk_ticks = 0, dk_uuids = (\<lambda>_. ''u''), dk_drawn = 0\<rparr>"

lemmas sample_store_defs = sample_env_def sample_store_def sample_disk_def sample_meta_def

lemma sample_put:
  "local_put sample_env sample_store [Inr ''h'', Inr ''i''] sample_disk =
     (Inr ''sha256:d1'', snd (local_put sample_env sample_store [Inr ''h'', Inr ''i''] sample_disk))"
  by (simp add: sample_store_defs local_put_def attempt_def attempt_write_def dk_uuid_def dk_now_def
      commit_blob_def put_file_def drop_file_def blob_path_def meta_path_def hash_of_def strip_prefix_str_def
      path_join_def is_absolute_def)

lemma sample_store_facts:
  "reliable sample_env" "hash_plain sample_env" "uuids_plain sample_disk" "store_ok sample_env sample_store sample_disk"
  by (auto simp: sample_store_defs reliable_def hash_plain_def uuids_plain_def store_ok_def blobs_ok_def)

theorem put_get_round_trip_witness:
  "\<exists>reader d''. local_get sample_env sample_store ''sha256:d1''
       (snd (local_put sample_env sample_store [Inr ''h'', Inr ''i''] sample_disk)) = (Inr (Some reader), d'') \<and>
     reader d'' = (Inr ''hi'', d'')"
proof -
  have c: "\<forall>b. se_sha256 sample_env b = se_sha256 sample_env (stream_content [Inr ''h'', Inr ''i'']) \<longrightarrow>
      b = stream_content [Inr ''h'', Inr ''i'']"
    by (simp add: sample_env_def)
  have "fresh sample_env sample_store ''sha256:d1''
      (snd (local_put sample_env sample_store [Inr ''h'', Inr ''i''] sample_disk))"
    by (simp add: sample_store_defs local_put_def attempt_def attempt_write_def dk_uuid_def dk_now_def fresh_def
      commit_blob_def put_file_def drop_file_def blob_path_def meta_path_def hash_of_def strip_prefix_str_def
      path_join_def is_absolute_def)
  moreover have "stream_content [Inr ''h'', Inr ''i''] = ''hi''" by simp
  ultimately show ?thesis using put_get_round_trip[OF sample_store_facts(1,4) sample_put c] by metis
qed

theorem resolved_volume_intact_witness:
  "\<exists>vol d'. volume_resolve (local_artifact_store sample_env sample_store) [(''a'', ''/in'')]
       (JObject [(''a'', artifact_ref_value ''sha256:d1'')])
       (store_calls sample_env sample_store [Put [Inr ''h'', Inr ''i'']] sample_disk) = (Inr vol, d') \<and>
     (''a'', ''hi'') \<in> set vol \<and> se_sha256 sample_env ''hi'' = ''d1''"
proof -
  let ?data = "JObject [(''a'', artifact_ref_value ''sha256:d1'')]"
  let ?run = "volume_resolve (local_artifact_store sample_env sample_store) [(''a'', ''/in'')] ?data
       (store_calls sample_env sample_store [Put [Inr ''h'', Inr ''i'']] sample_disk)"
  have "fst ?run = Inr [(''a'', ''hi'')]"
    by (simp add: sample_store_defs local_put_def attempt_def attempt_write_def dk_uuid_def dk_now_def
      commit_blob_def put_file_def drop_file_def blob_path_def meta_path_def hash_of_def strip_prefix_str_def
      path_join_def is_absolute_def store_calls_def volume_resolve_def artifact_ref_value_def parse_artifact_ref_def
      artifact_ref_key_def local_artifact_store_def local_get_def gc_expired_def file_reader_def)
  then have run: "?run = (Inr [(''a'', ''hi'')], snd ?run)" by (metis prod.collapse)
  have none: "\<forall>h. plain h \<longrightarrow> dk_files sample_disk (blob_file sample_store h) = None" by (simp add: sample_disk_def)
  from resolved_volume_intact[OF sample_store_facts(2,3) none run, of "''a''" "''hi''"] run show ?thesis
    by (auto simp: artifact_ref_value_def parse_artifact_ref_def artifact_ref_key_def)
qed

definition sample_tar :: "unit tar_env" where
  "sample_tar = \<lparr>tr_set_path = Inr, tr_finish = (\<lambda>es. if es = [(''a.tar.gz'', ''hi'')] then Inr ''t'' else Inl ''no''),
     tr_entries = (\<lambda>_. Inr [Inr (''a.tar.gz'', ''hi'')]), tr_gz_finish = (\<lambda>_. Inl ''no''),
     tr_gz_entries = (\<lambda>_. Inl ''no''), tr_create_dir = (\<lambda>_ w. (Inr (), w)), tr_unpack = (\<lambda>_ _ w. (Inr (), w))\<rparr>"

theorem package_round_trip_witness:
  "package sample_tar [(''a'', ''hi'')] = Inr ''t'' \<and> unpack sample_tar ''t'' = Inr [(''a'', ''hi'')]"
proof -
  have p: "package sample_tar [(''a'', ''hi'')] = Inr ''t''"
    by (simp add: package_def package_entry_def sample_tar_def map_err_def)
  have t: "\<forall>es bytes. tr_finish sample_tar es = Inr bytes \<longrightarrow> tr_entries sample_tar bytes = Inr (map Inr es)"
    by (simp add: sample_tar_def)
  have n: "\<forall>(name, b) \<in> set [(''a'', ''hi'')]. tr_set_path sample_tar (name @ ''.tar.gz'') = Inr (name @ ''.tar.gz'')"
    by (simp add: sample_tar_def)
  from package_round_trip[OF _ n t p] p show ?thesis by simp
qed

end
