(* ===== verification/Server_Auth.thy ===== *)
theory Server_Auth
  imports Models
begin

text \<open>
  Configuration and authentication of the server: \<open>wfe-server/src/config.rs\<close> (the layered
  configuration) and \<open>wfe-server/src/auth.rs\<close> (static tokens and JWT validation against the cached
  keys of an OIDC provider). A panic at start-up is an \<open>Inl\<close> with its message. The TOML parser, the
  HTTP requests and the JWT library are parameters.
\<close>

section \<open>Configuration\<close>

record cli =
  cl_config :: string
  cl_grpc_addr :: "string option"
  cl_http_addr :: "string option"
  cl_persistence :: "string option"
  cl_db_url :: "string option"
  cl_db_schema :: "string option"
  cl_db_table_prefix :: "string option"
  cl_queue :: "string option"
  cl_queue_url :: "string option"
  cl_search_url :: "string option"
  cl_workflows_dir :: "string option"
  cl_auth_tokens :: "string option"

datatype persistence_config = SqliteConfig string | PostgresConfig string string string

datatype queue_config = InMemoryQueue | ValkeyQueue string

record auth_config =
  ac_tokens :: "string list"
  ac_oidc_issuer :: "string option"
  ac_oidc_audience :: "string option"
  ac_webhook_secrets :: "(string \<times> string) list"

record webhook_trigger =
  wt_source :: string
  wt_event :: string
  wt_match_ref :: "string option"
  wt_workflow_id :: string
  wt_version :: u32
  wt_data_mapping :: "(string \<times> string) list"

record server_config =
  sv_grpc_addr :: string
  sv_http_addr :: string
  sv_persistence :: persistence_config
  sv_queue :: queue_config
  sv_search :: "string option"
  sv_auth :: auth_config
  sv_triggers :: "webhook_trigger list"
  sv_workflows_dir :: "string option"

definition default_postgres_schema :: string where
  "default_postgres_schema = ''wfc''"

definition server_config_default :: server_config where
  "server_config_default =
     \<lparr>sv_grpc_addr = ''0.0.0.0:50051'', sv_http_addr = ''0.0.0.0:8080'', sv_persistence = SqliteConfig ''wfe.db'',
      sv_queue = InMemoryQueue, sv_search = None,
      sv_auth = \<lparr>ac_tokens = [], ac_oidc_issuer = None, ac_oidc_audience = None, ac_webhook_secrets = []\<rparr>,
      sv_triggers = [], sv_workflows_dir = None\<rparr>"

text \<open>Schema and prefix of the file survive when the command line selects the backend again.\<close>

definition schema_and_prefix :: "persistence_config \<Rightarrow> string \<times> string" where
  "schema_and_prefix p = (case p of PostgresConfig _ schema pre \<Rightarrow> (schema, pre) | SqliteConfig _ \<Rightarrow> (default_postgres_schema, []))"

definition override_persistence :: "cli \<Rightarrow> persistence_config \<Rightarrow> persistence_config" where
  "override_persistence c p =
     (let (schema, pre) = schema_and_prefix p in
      case cl_persistence c of
        Some backend \<Rightarrow>
          (let url = unwrap_or (cl_db_url c) ''wfe.db''
           in if backend = ''postgres'' then PostgresConfig url schema pre else SqliteConfig url)
      | None \<Rightarrow>
          (case cl_db_url c of
             None \<Rightarrow> p
           | Some url \<Rightarrow> if strip_prefix_str ''postgres'' url \<noteq> None then PostgresConfig url schema pre else SqliteConfig url))"

definition tune_schema :: "cli \<Rightarrow> persistence_config \<Rightarrow> persistence_config" where
  "tune_schema c p =
     (case p of
        PostgresConfig url schema pre \<Rightarrow>
          PostgresConfig url (unwrap_or (cl_db_schema c) schema) (unwrap_or (cl_db_table_prefix c) pre)
      | SqliteConfig path \<Rightarrow> SqliteConfig path)"

definition override_queue :: "cli \<Rightarrow> queue_config \<Rightarrow> queue_config" where
  "override_queue c q =
     (case cl_queue c of
        None \<Rightarrow> q
      | Some backend \<Rightarrow>
          if backend \<in> {''valkey'', ''redis''} then ValkeyQueue (unwrap_or (cl_queue_url c) ''redis://127.0.0.1:6379'')
          else InMemoryQueue)"

definition parse_tokens :: "string \<Rightarrow> string list" where
  "parse_tokens tokens = filter (\<lambda>t. t \<noteq> []) (map trim (split_on (CHR '','') tokens))"

definition override_config :: "cli \<Rightarrow> server_config \<Rightarrow> server_config" where
  "override_config c config =
     config\<lparr>sv_grpc_addr := unwrap_or (cl_grpc_addr c) (sv_grpc_addr config),
            sv_http_addr := unwrap_or (cl_http_addr c) (sv_http_addr config),
            sv_workflows_dir := option_or (cl_workflows_dir c) (sv_workflows_dir config),
            sv_persistence := tune_schema c (override_persistence c (sv_persistence config)),
            sv_queue := override_queue c (sv_queue config),
            sv_search := option_or (cl_search_url c) (sv_search config),
            sv_auth := (case cl_auth_tokens c of
                          None \<Rightarrow> sv_auth config
                        | Some tokens \<Rightarrow> (sv_auth config)\<lparr>ac_tokens := parse_tokens tokens\<rparr>)\<rparr>"

text \<open>
  \<open>file\<close> is \<open>None\<close> when the configuration file does not exist, otherwise what reading it gives.
\<close>

definition load_config :: "(string \<Rightarrow> string + server_config) \<Rightarrow> (string + string) option \<Rightarrow> cli \<Rightarrow> string + server_config" where
  "load_config from_toml file c =
     (case file of
        None \<Rightarrow> Inr (override_config c server_config_default)
      | Some (Inl e) \<Rightarrow> Inl (''failed to read config file '' @ cl_config c @ '': '' @ e)
      | Some (Inr content) \<Rightarrow>
          (case from_toml content of
             Inl e \<Rightarrow> Inl (''failed to parse config file '' @ cl_config c @ '': '' @ e)
           | Inr config \<Rightarrow> Inr (override_config c config)))"

section \<open>Tokens\<close>

datatype algorithm = RS256 | RS384 | RS512 | ES256 | ES384 | PS256 | PS384 | PS512 | EdDSA
  | HS256 | HS384 | HS512

text \<open>The algorithms a key may carry; \<open>KUnsupported\<close> are those for encryption and unknown ones.\<close>

datatype key_algorithm = KSigning algorithm | KUnsupported string

record jwk =
  jk_key_id :: "string option"
  jk_key_algorithm :: "key_algorithm option"
  jk_material :: string

record jwt_validation =
  va_algorithm :: algorithm
  va_issuer :: "string option"
  va_audience :: "string option"

text \<open>
  The JWT library: the \<open>kid\<close> of a token's header, whether a key can be used for decoding, and the
  validation of a token's signature and claims.
\<close>

record jwt_library =
  jl_decode_header :: "string \<Rightarrow> string + string option"
  jl_usable_key :: "jwk \<Rightarrow> string + unit"
  jl_decode :: "string \<Rightarrow> jwk \<Rightarrow> jwt_validation \<Rightarrow> string + unit"

datatype grpc_status =
    Unauthenticated string | Unavailable string | NotFoundStatus string wfe_error
  | InternalStatus string wfe_error | InvalidArgument string

text \<open>\<open>as_refreshing\<close>: whether a refresh holds the write lock, so that \<open>try_read\<close> fails.\<close>

record auth_state =
  as_config :: auth_config
  as_jwks :: "jwk list option"
  as_refreshing :: bool
  as_jwks_uri :: "string option"

definition allowed_algorithms :: "algorithm list" where
  "allowed_algorithms = [RS256, RS384, RS512, ES256, ES384, PS256, PS384, PS512, EdDSA]"

fun key_algorithm_to_jwt_algorithm :: "key_algorithm \<Rightarrow> algorithm option" where
  "key_algorithm_to_jwt_algorithm (KSigning RS256) = Some RS256"
| "key_algorithm_to_jwt_algorithm (KSigning RS384) = Some RS384"
| "key_algorithm_to_jwt_algorithm (KSigning RS512) = Some RS512"
| "key_algorithm_to_jwt_algorithm (KSigning ES256) = Some ES256"
| "key_algorithm_to_jwt_algorithm (KSigning ES384) = Some ES384"
| "key_algorithm_to_jwt_algorithm (KSigning PS256) = Some PS256"
| "key_algorithm_to_jwt_algorithm (KSigning PS384) = Some PS384"
| "key_algorithm_to_jwt_algorithm (KSigning PS512) = Some PS512"
| "key_algorithm_to_jwt_algorithm (KSigning EdDSA) = Some EdDSA"
| "key_algorithm_to_jwt_algorithm _ = None"

fun alg_debug :: "algorithm \<Rightarrow> string" where
  "alg_debug RS256 = ''RS256''" | "alg_debug RS384 = ''RS384''" | "alg_debug RS512 = ''RS512''"
| "alg_debug ES256 = ''ES256''" | "alg_debug ES384 = ''ES384''" | "alg_debug PS256 = ''PS256''"
| "alg_debug PS384 = ''PS384''" | "alg_debug PS512 = ''PS512''" | "alg_debug EdDSA = ''EdDSA''"
| "alg_debug HS256 = ''HS256''" | "alg_debug HS384 = ''HS384''" | "alg_debug HS512 = ''HS512''"

definition secure_url :: "string \<Rightarrow> bool" where
  "secure_url u \<longleftrightarrow> strip_prefix_str ''https://'' u \<noteq> None \<or> strip_prefix_str ''http://localhost'' u \<noteq> None"

definition refresh_jwks :: "(string \<Rightarrow> string + jwk list) \<Rightarrow> auth_state \<Rightarrow> string + auth_state" where
  "refresh_jwks fetch a =
     (case as_jwks_uri a of
        None \<Rightarrow> Inl ''no JWKS URI''
      | Some uri \<Rightarrow> (case fetch uri of Inl e \<Rightarrow> Inl e | Inr keys \<Rightarrow> Inr (a\<lparr>as_jwks := Some keys\<rparr>)))"

definition trim_end_slash :: "string \<Rightarrow> string" where
  "trim_end_slash s = rev (dropWhile (\<lambda>c. c = CHR ''/'') (rev s))"

definition discover_jwks_uri :: "(string \<Rightarrow> string + string) \<Rightarrow> string \<Rightarrow> string + string" where
  "discover_jwks_uri get_json issuer = get_json (trim_end_slash issuer @ ''/.well-known/openid-configuration'')"

definition auth_state_new ::
  "(string \<Rightarrow> string + string) \<Rightarrow> (string \<Rightarrow> string + jwk list) \<Rightarrow> auth_config \<Rightarrow> string + auth_state" where
  "auth_state_new get_json fetch config =
     (case ac_oidc_issuer config of
        None \<Rightarrow> Inr \<lparr>as_config = config, as_jwks = None, as_refreshing = False, as_jwks_uri = None\<rparr>
      | Some issuer \<Rightarrow>
          if \<not> secure_url issuer then Inl (''OIDC issuer must use HTTPS (got: '' @ issuer @
             ''). Use http://localhost only for development.'')
          else
            (case discover_jwks_uri get_json issuer of
               Inl e \<Rightarrow> Inl (''OIDC issuer configured but discovery failed: '' @ e)
             | Inr uri \<Rightarrow>
                 if \<not> secure_url uri then Inl (''JWKS URI from OIDC discovery must use HTTPS (got: '' @ uri @ '')'')
                 else
                   (case refresh_jwks fetch
                           \<lparr>as_config = config, as_jwks = None, as_refreshing = False, as_jwks_uri = Some uri\<rparr> of
                      Inl e \<Rightarrow> Inl (''initial JWKS fetch failed: '' @ e)
                    | Inr a \<Rightarrow> Inr a)))"

fun check_static_tokens :: "string list \<Rightarrow> string \<Rightarrow> bool" where
  "check_static_tokens [] candidate = False"
| "check_static_tokens (token # tokens) candidate =
     (if length token = length candidate \<and> token = candidate then True else check_static_tokens tokens candidate)"

definition bearer :: "string \<Rightarrow> string option" where
  "bearer auth = option_or (strip_prefix_str ''Bearer '' auth) (strip_prefix_str ''bearer '' auth)"

text \<open>The authorization header is \<open>None\<close> when it is missing or not visible ASCII.\<close>

definition extract_bearer_token :: "string option \<Rightarrow> grpc_status + string" where
  "extract_bearer_token header =
     (case header of
        None \<Rightarrow> Inl (Unauthenticated ''missing authorization header'')
      | Some auth \<Rightarrow> ok_or (Unauthenticated ''expected Bearer token'') (bearer auth))"

definition select_key :: "string option \<Rightarrow> jwk list \<Rightarrow> jwk option" where
  "select_key kid keys =
     List.find (\<lambda>k. case kid of
         Some i \<Rightarrow> (case jk_key_id k of Some j \<Rightarrow> i = j | None \<Rightarrow> False)
       | None \<Rightarrow> length keys = 1) keys"

definition validate_jwt_cached :: "jwt_library \<Rightarrow> auth_state \<Rightarrow> string \<Rightarrow> grpc_status + unit" where
  "validate_jwt_cached J a token =
     (if as_refreshing a then Inl (Unavailable ''JWKS refresh in progress'')
      else case as_jwks a of
        None \<Rightarrow> Inl (Unavailable ''JWKS not loaded'')
      | Some keys \<Rightarrow>
        case jl_decode_header J token of
          Inl e \<Rightarrow> Inl (Unauthenticated (''invalid JWT header: '' @ e))
        | Inr kid \<Rightarrow>
          if kid = None \<and> length keys > 1
          then Inl (Unauthenticated ''JWT missing kid header but JWKS has multiple keys'')
          else case select_key kid keys of
            None \<Rightarrow> Inl (Unauthenticated ''no matching key in JWKS'')
          | Some k \<Rightarrow>
            case jl_usable_key J k of
              Inl e \<Rightarrow> Inl (Unauthenticated (''invalid JWK: '' @ e))
            | Inr _ \<Rightarrow>
              case and_then (jk_key_algorithm k) key_algorithm_to_jwt_algorithm of
                None \<Rightarrow> Inl (Unauthenticated ''JWK has no algorithm or unsupported algorithm'')
              | Some alg \<Rightarrow>
                if alg \<notin> set allowed_algorithms then Inl (Unauthenticated (''algorithm '' @ alg_debug alg @ '' not in allowlist''))
                else (case jl_decode J token k
                        \<lparr>va_algorithm = alg, va_issuer = ac_oidc_issuer (as_config a),
                         va_audience = ac_oidc_audience (as_config a)\<rparr> of
                        Inl e \<Rightarrow> Inl (Unauthenticated (''JWT validation failed: '' @ e))
                      | Inr _ \<Rightarrow> Inr ()))"

definition open_access :: "auth_config \<Rightarrow> bool" where
  "open_access c \<longleftrightarrow> ac_tokens c = [] \<and> ac_oidc_issuer c = None"

definition auth_check :: "jwt_library \<Rightarrow> auth_state \<Rightarrow> string option \<Rightarrow> grpc_status + unit" where
  "auth_check J a header =
     (if open_access (as_config a) then Inr ()
      else case extract_bearer_token header of
        Inl e \<Rightarrow> Inl e
      | Inr token \<Rightarrow>
        if check_static_tokens (ac_tokens (as_config a)) token then Inr ()
        else if ac_oidc_issuer (as_config a) \<noteq> None then validate_jwt_cached J a token
        else Inl (Unauthenticated ''invalid token''))"

text \<open>The interceptor answers with the request itself, here its payload.\<close>

definition intercept :: "jwt_library \<Rightarrow> auth_state \<Rightarrow> string option \<Rightarrow> 'r \<Rightarrow> grpc_status + 'r" where
  "intercept J a header req =
     (if open_access (as_config a) then Inr req
      else case extract_bearer_token header of
        Inl e \<Rightarrow> Inl e
      | Inr token \<Rightarrow>
        if check_static_tokens (ac_tokens (as_config a)) token then Inr req
        else if ac_oidc_issuer (as_config a) \<noteq> None
        then (case validate_jwt_cached J a token of Inl e \<Rightarrow> Inl e | Inr _ \<Rightarrow> Inr req)
        else Inl (Unauthenticated ''invalid token''))"

section \<open>Who is let in\<close>

lemma check_static_tokens_iff: "check_static_tokens tokens c \<longleftrightarrow> c \<in> set tokens"
  by (induction tokens) auto

lemma jwt_algorithm_Some:
  "key_algorithm_to_jwt_algorithm ka = Some alg \<longleftrightarrow> ka = KSigning alg \<and> alg \<notin> {HS256, HS384, HS512}"
proof (cases ka)
  case (KSigning b)
  then show ?thesis by (cases b; cases alg) simp_all
qed simp

lemma allowed_iff: "alg \<in> set allowed_algorithms \<longleftrightarrow> alg \<notin> {HS256, HS384, HS512}"
  by (cases alg) (simp_all add: allowed_algorithms_def)

lemma select_key_None: "select_key None keys = Some k \<Longrightarrow> keys = [k]"
  by (auto simp: select_key_def dest!: find_Some_memb simp: length_Suc_conv)

text \<open>
  A token that a cached key vouches for: the key is the one the token names (or the only one), it is
  meant for an asymmetric algorithm, and the token validates under this key, the key's own algorithm,
  and the configured issuer and audience.
\<close>

definition jwt_trusted :: "jwt_library \<Rightarrow> auth_state \<Rightarrow> string \<Rightarrow> bool" where
  "jwt_trusted J a token \<longleftrightarrow> (\<exists>issuer keys kid k alg.
     ac_oidc_issuer (as_config a) = Some issuer \<and> \<not> as_refreshing a \<and> as_jwks a = Some keys \<and>
     jl_decode_header J token = Inr kid \<and> select_key kid keys = Some k \<and> k \<in> set keys \<and>
     (case kid of Some i \<Rightarrow> jk_key_id k = Some i | None \<Rightarrow> keys = [k]) \<and> jl_usable_key J k = Inr () \<and>
     jk_key_algorithm k = Some (KSigning alg) \<and> alg \<notin> {HS256, HS384, HS512} \<and>
     jl_decode J token k \<lparr>va_algorithm = alg, va_issuer = Some issuer,
       va_audience = ac_oidc_audience (as_config a)\<rparr> = Inr ())"

lemma select_key_Some:
  assumes "select_key kid keys = Some k"
  shows "k \<in> set keys \<and> (case kid of Some i \<Rightarrow> jk_key_id k = Some i | None \<Rightarrow> keys = [k])"
proof (cases kid)
  case None
  with select_key_None[of keys k] assms show ?thesis by simp
next
  case (Some i)
  with assms show ?thesis by (auto simp: select_key_def dest!: find_Some_memb split: option.splits)
qed

lemma validate_jwt_iff:
  assumes "ac_oidc_issuer (as_config a) = Some issuer"
  shows "validate_jwt_cached J a token = Inr u \<longleftrightarrow> jwt_trusted J a token"
proof
  assume ok: "validate_jwt_cached J a token = Inr u"
  then obtain keys kid k alg where *: "\<not> as_refreshing a" "as_jwks a = Some keys"
    "jl_decode_header J token = Inr kid" "select_key kid keys = Some k" "jl_usable_key J k = Inr ()"
    "and_then (jk_key_algorithm k) key_algorithm_to_jwt_algorithm = Some alg"
    "jl_decode J token k \<lparr>va_algorithm = alg, va_issuer = Some issuer, va_audience = ac_oidc_audience (as_config a)\<rparr> = Inr ()"
    using assms by (auto simp: validate_jwt_cached_def split: if_splits option.splits sum.splits)
  from *(6) have "jk_key_algorithm k = Some (KSigning alg) \<and> alg \<notin> {HS256, HS384, HS512}"
    by (cases "jk_key_algorithm k") (auto simp: jwt_algorithm_Some)
  with * assms select_key_Some[OF *(4)] show "jwt_trusted J a token" unfolding jwt_trusted_def by blast
next
  assume "jwt_trusted J a token"
  then obtain keys kid k alg where *: "\<not> as_refreshing a" "as_jwks a = Some keys"
    "jl_decode_header J token = Inr kid" "select_key kid keys = Some k"
    "case kid of Some i \<Rightarrow> jk_key_id k = Some i | None \<Rightarrow> keys = [k]" "jl_usable_key J k = Inr ()"
    "jk_key_algorithm k = Some (KSigning alg)" "alg \<notin> {HS256, HS384, HS512}"
    "jl_decode J token k \<lparr>va_algorithm = alg, va_issuer = Some issuer, va_audience = ac_oidc_audience (as_config a)\<rparr> = Inr ()"
    using assms unfolding jwt_trusted_def by auto
  have "and_then (jk_key_algorithm k) key_algorithm_to_jwt_algorithm = Some alg"
    using *(7,8) by (simp add: jwt_algorithm_Some)
  moreover have "\<not> (kid = None \<and> length keys > 1)" using *(5) by auto
  ultimately show "validate_jwt_cached J a token = Inr u"
    using * assms allowed_iff[of alg] by (simp add: validate_jwt_cached_def)
qed

text \<open>
  C18: authentication. A call passes the interceptor, unchanged, exactly when no authentication is
  configured, or its bearer token is one of the static tokens, or a cached key of the OIDC provider vouches
  for it: under the key the token names, with that key's asymmetric algorithm and never with the one
  the token claims, for the configured issuer and audience. The check function decides the same.
\<close>

theorem intercept_accepts_iff:
  "(intercept J a header req = Inr r \<longleftrightarrow> r = req \<and>
      (open_access (as_config a) \<or>
       (\<exists>token. and_then header bearer = Some token \<and>
          (token \<in> set (ac_tokens (as_config a)) \<or> jwt_trusted J a token)))) \<and>
   (auth_check J a header = Inr () \<longleftrightarrow> intercept J a header req = Inr req)"
proof (cases "ac_oidc_issuer (as_config a)")
  case None
  then have "\<not> jwt_trusted J a token" for token by (simp add: jwt_trusted_def)
  with None show ?thesis
    by (auto simp: intercept_def auth_check_def extract_bearer_token_def check_static_tokens_iff ok_or_def
        split: option.splits)
next
  case (Some issuer)
  then have "\<not> open_access (as_config a)" by (simp add: open_access_def)
  moreover have "jwt_trusted J a token \<longleftrightarrow> validate_jwt_cached J a token = Inr ()" for token
    using validate_jwt_iff[OF Some] by simp
  ultimately show ?thesis using Some
    by (auto simp: intercept_def auth_check_def extract_bearer_token_def check_static_tokens_iff ok_or_def
        split: option.splits sum.splits)
qed

section \<open>The configuration\<close>

lemma parse_tokens_nonempty: "[] \<notin> set (parse_tokens s)"
  by (simp add: parse_tokens_def)

text \<open>
  A list of separators on the command line replaces the tokens of the file by none, and without OIDC the
  server is then open to every caller.
\<close>

lemma blank_tokens_open_server:
  assumes "load_config from_toml file c = Inr config" and "cl_auth_tokens c = Some '',''"
    and "ac_oidc_issuer (sv_auth config) = None" and "as_config a = sv_auth config"
  shows "intercept J a None req = Inr req"
proof -
  have "parse_tokens '','' = []" by (simp add: parse_tokens_def trim_def trim_start_def trim_end_def)
  with assms(1,2) have "ac_tokens (sv_auth config) = []"
    by (auto simp: load_config_def override_config_def split: option.splits sum.splits)
  with assms(3,4) show ?thesis by (simp add: intercept_def open_access_def)
qed

text \<open>A start with OIDC either fails or has fetched keys over a secure connection.\<close>

lemma auth_state_new_closed:
  assumes "auth_state_new get_json fetch config = Inr a" and "ac_oidc_issuer config = Some issuer"
  shows "secure_url issuer \<and> (\<exists>uri keys. discover_jwks_uri get_json issuer = Inr uri \<and> secure_url uri \<and>
     fetch uri = Inr keys \<and> as_jwks a = Some keys) \<and> as_config a = config"
  using assms by (auto simp: auth_state_new_def refresh_jwks_def split: if_splits sum.splits)

end
