(* ===== verification/Webhook.thy ===== *)
theory Webhook
  imports Host_Correct Server_Auth
begin

text \<open>
  The webhook endpoints of the server, \<open>wfe-server/src/webhook.rs\<close>: generic events, and the events of
  the GitHub and Gitea forges, which are published to the host and may start workflows. A header is
  absent, present without being visible ASCII, or a text. The HMAC, the hexadecimal decoder and the
  JSON parser are parameters.
\<close>

section \<open>Requests\<close>

type_synonym header_map = "string \<rightharpoonup> string option"

datatype status_code = OK | UNAUTHORIZED | BAD_REQUEST | INTERNAL_SERVER_ERROR

record webhook_env =
  wk_hex_decode :: "string \<Rightarrow> string option"
  wk_hmac_sha256 :: "string \<Rightarrow> string \<Rightarrow> string"
  wk_from_slice :: "string \<Rightarrow> json option"

record 'w webhook_state =
  ws_host :: "'w workflow_host"
  ws_config :: server_config

record generic_event_payload =
  gp_event_name :: string
  gp_event_key :: string
  gp_data :: "json option"

record forge_event =
  fe_event_name :: string
  fe_event_key :: string
  fe_data :: json

definition header_str :: "header_map \<Rightarrow> string \<Rightarrow> string" where
  "header_str headers name = unwrap_or (and_then (headers name) id) []"

section \<open>Generic events\<close>

definition handle_generic_event ::
  "'w webhook_state \<Rightarrow> 'w sys \<Rightarrow> header_map \<Rightarrow> generic_event_payload \<Rightarrow> ('w, status_code \<times> string) eff" where
  "handle_generic_event st S headers payload w =
     (let tokens = ac_tokens (sv_auth (ws_config st)) in
      if tokens \<noteq> [] \<and> \<not> check_static_tokens tokens (unwrap_or (bearer (header_str headers ''authorization'')) [])
      then ((UNAUTHORIZED, ''invalid token''), w)
      else (case publish_event (ws_host st) S (gp_event_name payload) (gp_event_key payload)
                   (unwrap_or (gp_data payload) (JObject [])) w of
              (Inr _, w) \<Rightarrow> ((OK, ''event published''), w)
            | (Inl _, w) \<Rightarrow> ((INTERNAL_SERVER_ERROR, ''failed to publish event''), w)))"

section \<open>Signatures\<close>

definition verify_hmac_sha256_raw :: "webhook_env \<Rightarrow> string \<Rightarrow> string \<Rightarrow> string \<Rightarrow> bool" where
  "verify_hmac_sha256_raw K secret body signature =
     (case wk_hex_decode K signature of None \<Rightarrow> False | Some mac \<Rightarrow> mac = wk_hmac_sha256 K secret body)"

definition verify_hmac_sha256 :: "webhook_env \<Rightarrow> string \<Rightarrow> string \<Rightarrow> string \<Rightarrow> bool" where
  "verify_hmac_sha256 K secret body signature =
     (let hex_sig = unwrap_or (strip_prefix_str ''sha256='' signature) [] in
      if hex_sig = [] then False
      else (case wk_hex_decode K hex_sig of None \<Rightarrow> False | Some mac \<Rightarrow> mac = wk_hmac_sha256 K secret body))"

section \<open>Forge events\<close>

text \<open>\<open>payload[k]\<close> is \<open>Null\<close> where there is no such entry.\<close>

definition json_index :: "json \<Rightarrow> string \<Rightarrow> json" where
  "json_index v k = unwrap_or (json_get v k) JNull"

definition str_at :: "json \<Rightarrow> string list \<Rightarrow> string \<Rightarrow> string" where
  "str_at v ks dflt = unwrap_or (as_str (fold (\<lambda>k v. json_index v k) ks v)) dflt"

definition map_forge_event :: "string \<Rightarrow> json \<Rightarrow> forge_event" where
  "map_forge_event event_type payload =
     (let repo = str_at payload [''repository'', ''full_name''] ''unknown'' in
      if event_type = ''push'' then
        (let git_ref = str_at payload [''ref''] [] in
         \<lparr>fe_event_name = ''git.push'', fe_event_key = repo @ ''/'' @ git_ref,
          fe_data = json_object
            [(''repo'', JString repo), (''ref'', JString git_ref),
             (''before'', JString (str_at payload [''before''] [])), (''after'', JString (str_at payload [''after''] [])),
             (''commit'', JString (str_at payload [''head_commit'', ''id''] [])),
             (''message'', JString (str_at payload [''head_commit'', ''message''] [])),
             (''sender'', JString (str_at payload [''sender'', ''login''] []))]\<rparr>)
      else if event_type = ''pull_request'' then
        (let number = unwrap_or (as_u64 (json_index payload ''number'')) 0 in
         \<lparr>fe_event_name = ''git.pr'', fe_event_key = repo @ ''/'' @ show_nat (unat number),
          fe_data = json_object
            [(''repo'', JString repo), (''action'', JString (str_at payload [''action''] [])),
             (''number'', JNumber (PosInt number)),
             (''title'', JString (str_at payload [''pull_request'', ''title''] [])),
             (''head_ref'', JString (str_at payload [''pull_request'', ''head'', ''ref''] [])),
             (''base_ref'', JString (str_at payload [''pull_request'', ''base'', ''ref''] [])),
             (''sender'', JString (str_at payload [''sender'', ''login''] []))]\<rparr>)
      else if event_type = ''create'' then
        (let ref_name = str_at payload [''ref''] []; ref_type = str_at payload [''ref_type''] [] in
         \<lparr>fe_event_name = ''git.'' @ ref_type, fe_event_key = repo @ ''/'' @ ref_name,
          fe_data = json_object
            [(''repo'', JString repo), (''ref'', JString ref_name), (''ref_type'', JString ref_type),
             (''sender'', JString (str_at payload [''sender'', ''login''] []))]\<rparr>)
      else
        \<lparr>fe_event_name = ''git.'' @ event_type, fe_event_key = repo,
         fe_data = json_object [(''repo'', JString repo), (''event_type'', JString event_type)]\<rparr>)"

fun get_path :: "json \<Rightarrow> string list \<Rightarrow> json option" where
  "get_path v [] = Some v"
| "get_path v (seg # segs) = (case json_get v seg of None \<Rightarrow> None | Some u \<Rightarrow> get_path u segs)"

definition resolve_json_path :: "json \<Rightarrow> string \<Rightarrow> json option" where
  "resolve_json_path v path = get_path v (split_on (CHR ''.'') (unwrap_or (strip_prefix_str ''$.'' path) path))"

definition map_trigger_data :: "webhook_trigger \<Rightarrow> json \<Rightarrow> json" where
  "map_trigger_data trigger payload =
     JObject (fold (\<lambda>(key, path) m. case resolve_json_path payload path of
         None \<Rightarrow> m | Some v \<Rightarrow> obj_insert key v m) (wt_data_mapping trigger) [])"

section \<open>Triggers\<close>

definition trigger_matches :: "string \<Rightarrow> string \<Rightarrow> json \<Rightarrow> webhook_trigger \<Rightarrow> bool" where
  "trigger_matches source event_type payload t \<longleftrightarrow>
     wt_source t = source \<and> wt_event t = event_type \<and>
     (case wt_match_ref t of None \<Rightarrow> True | Some r \<Rightarrow> str_at payload [''ref''] [] = r)"

fun run_triggers ::
  "'w workflow_host \<Rightarrow> 'w sys \<Rightarrow> string \<Rightarrow> string \<Rightarrow> json \<Rightarrow> webhook_trigger list \<Rightarrow> 'w \<Rightarrow> 'w" where
  "run_triggers h S source event_type payload [] w = w"
| "run_triggers h S source event_type payload (t # ts) w =
     (if trigger_matches source event_type payload t then
        (let (_, w) = start_workflow h S (wt_workflow_id t) (wt_version t) (map_trigger_data t payload) w
         in run_triggers h S source event_type payload ts w)
      else run_triggers h S source event_type payload ts w)"

text \<open>What the two forge handlers share after the signature and the payload have been accepted.\<close>

definition forward_forge_event ::
  "'w webhook_state \<Rightarrow> 'w sys \<Rightarrow> string \<Rightarrow> string \<Rightarrow> json \<Rightarrow> ('w, status_code \<times> string) eff" where
  "forward_forge_event st S source event_type payload w =
     (let e = map_forge_event event_type payload in
      case publish_event (ws_host st) S (fe_event_name e) (fe_event_key e) (fe_data e) w of
        (Inl _, w) \<Rightarrow> ((INTERNAL_SERVER_ERROR, ''failed to publish event''), w)
      | (Inr _, w) \<Rightarrow> ((OK, ''ok''), run_triggers (ws_host st) S source event_type payload (sv_triggers (ws_config st)) w))"

definition handle_github_webhook ::
  "webhook_env \<Rightarrow> 'w webhook_state \<Rightarrow> 'w sys \<Rightarrow> header_map \<Rightarrow> string \<Rightarrow> ('w, status_code \<times> string) eff" where
  "handle_github_webhook K st S headers body w =
     (let secret = map_of (ac_webhook_secrets (sv_auth (ws_config st))) ''github'' in
      if (case secret of None \<Rightarrow> False
          | Some s \<Rightarrow> \<not> verify_hmac_sha256 K s body (header_str headers ''x-hub-signature-256''))
      then ((UNAUTHORIZED, ''invalid signature''), w)
      else case wk_from_slice K body of
        None \<Rightarrow> ((BAD_REQUEST, ''invalid JSON''), w)
      | Some payload \<Rightarrow> forward_forge_event st S ''github'' (header_str headers ''x-github-event'') payload w)"

definition gitea_event_type :: "header_map \<Rightarrow> string" where
  "gitea_event_type headers =
     unwrap_or (and_then (option_or (headers ''x-gitea-event'') (headers ''x-github-event'')) id) []"

definition handle_gitea_webhook ::
  "webhook_env \<Rightarrow> 'w webhook_state \<Rightarrow> 'w sys \<Rightarrow> header_map \<Rightarrow> string \<Rightarrow> ('w, status_code \<times> string) eff" where
  "handle_gitea_webhook K st S headers body w =
     (let secret = map_of (ac_webhook_secrets (sv_auth (ws_config st))) ''gitea'';
          sig_header = header_str headers ''x-gitea-signature'' in
      if (case secret of None \<Rightarrow> False
          | Some s \<Rightarrow> \<not> verify_hmac_sha256 K s body sig_header \<and> \<not> verify_hmac_sha256_raw K s body sig_header)
      then ((UNAUTHORIZED, ''invalid signature''), w)
      else case wk_from_slice K body of
        None \<Rightarrow> ((BAD_REQUEST, ''invalid JSON''), w)
      | Some payload \<Rightarrow> forward_forge_event st S ''gitea'' (gitea_event_type headers) payload w)"

definition health_check :: "status_code \<times> string" where
  "health_check = (OK, ''ok'')"

section \<open>Authentication\<close>

lemma verify_hmac_iff: "verify_hmac_sha256 K s body sg \<longleftrightarrow>
    (\<exists>hex. hex \<noteq> [] \<and> sg = ''sha256='' @ hex \<and> wk_hex_decode K hex = Some (wk_hmac_sha256 K s body))"
proof (cases "strip_prefix_str ''sha256='' sg")
  case None
  then show ?thesis using strip_prefix_Some[of "''sha256=''" sg] by (auto simp: verify_hmac_sha256_def)
next
  case (Some hex)
  then have "sg = ''sha256='' @ hex" using strip_prefix_Some by metis
  with Some show ?thesis by (auto simp: verify_hmac_sha256_def split: option.splits)
qed

lemma forward_not_unauthorized: "fst (fst (forward_forge_event st S src ty payload w)) \<noteq> UNAUTHORIZED"
  by (simp add: forward_forge_event_def Let_def split: prod.splits sum.splits)

lemma forward_neq [simp]: "forward_forge_event st S src ty payload w \<noteq> ((UNAUTHORIZED, m), w')"
  using forward_not_unauthorized[of st S src ty payload w] by auto

text \<open>
  C19: signed webhooks are authenticated. When a secret is configured for a forge, a request to its webhook is refused,
  without any effect, exactly when its signature header is not the HMAC of the body under this secret; the header is
  the prefix \<open>sha256=\<close> and the digits, and Gitea may leave out the prefix. Without a secret the handlers
  check no signature and refuse nothing.
\<close>

theorem webhook_refuses_iff:
  fixes K :: webhook_env and st :: "'w webhook_state"
  defines "secrets \<equiv> map_of (ac_webhook_secrets (sv_auth (ws_config st)))"
    and "mac \<equiv> \<lambda>s body hex. wk_hex_decode K hex = Some (wk_hmac_sha256 K s body)"
  shows "(handle_github_webhook K st S headers body w = ((UNAUTHORIZED, ''invalid signature''), w) \<longleftrightarrow>
       (\<exists>s. secrets ''github'' = Some s \<and>
          \<not> (\<exists>hex. hex \<noteq> [] \<and> header_str headers ''x-hub-signature-256'' = ''sha256='' @ hex \<and> mac s body hex))) \<and>
     (handle_gitea_webhook K st S headers body w = ((UNAUTHORIZED, ''invalid signature''), w) \<longleftrightarrow>
       (\<exists>s. secrets ''gitea'' = Some s \<and> \<not> mac s body (header_str headers ''x-gitea-signature'') \<and>
          \<not> (\<exists>hex. hex \<noteq> [] \<and> header_str headers ''x-gitea-signature'' = ''sha256='' @ hex \<and> mac s body hex)))"
proof (intro conjI)
  show "handle_github_webhook K st S headers body w = ((UNAUTHORIZED, ''invalid signature''), w) \<longleftrightarrow>
       (\<exists>s. secrets ''github'' = Some s \<and>
          \<not> (\<exists>hex. hex \<noteq> [] \<and> header_str headers ''x-hub-signature-256'' = ''sha256='' @ hex \<and> mac s body hex))"
    unfolding handle_github_webhook_def secrets_def mac_def verify_hmac_iff Let_def
    by (auto split: option.splits)
  show "handle_gitea_webhook K st S headers body w = ((UNAUTHORIZED, ''invalid signature''), w) \<longleftrightarrow>
       (\<exists>s. secrets ''gitea'' = Some s \<and> \<not> mac s body (header_str headers ''x-gitea-signature'') \<and>
          \<not> (\<exists>hex. hex \<noteq> [] \<and> header_str headers ''x-gitea-signature'' = ''sha256='' @ hex \<and> mac s body hex))"
    unfolding handle_gitea_webhook_def secrets_def mac_def verify_hmac_iff verify_hmac_sha256_raw_def Let_def
    by (auto split: option.splits)
qed

text \<open>
  The generic endpoint refuses a request exactly when static tokens are configured and it carries none of them; its
  documentation promises the authentication of the gRPC interface.
\<close>

lemma generic_refuses_iff:
  "handle_generic_event st S headers payload w = ((UNAUTHORIZED, ''invalid token''), w) \<longleftrightarrow>
     ac_tokens (sv_auth (ws_config st)) \<noteq> [] \<and>
     unwrap_or (bearer (header_str headers ''authorization'')) [] \<notin> set (ac_tokens (sv_auth (ws_config st)))"
  by (auto simp: handle_generic_event_def check_static_tokens_iff Let_def split: prod.splits sum.splits)

text \<open>
  The generic endpoint knows static tokens only. With OIDC as the only authentication the gRPC interface
  refuses a call without a token, while the endpoint publishes its event.
\<close>

lemma oidc_only_endpoint_open:
  assumes "ac_tokens (sv_auth (ws_config st)) = []" and "ac_oidc_issuer (sv_auth (ws_config st)) = Some issuer"
    and "as_config a = sv_auth (ws_config st)"
    and "publish_event (ws_host st) S (gp_event_name p) (gp_event_key p) (unwrap_or (gp_data p) (JObject [])) w = (Inr u, w')"
  shows "handle_generic_event st S Map.empty p w = ((OK, ''event published''), w')"
    and "intercept J a None req = Inl (Unauthenticated ''missing authorization header'')"
  using assms by (simp_all add: handle_generic_event_def intercept_def open_access_def extract_bearer_token_def)

section \<open>Forwarding\<close>

text \<open>An instance that a trigger has started.\<close>

definition started_by :: "workflow_registry \<Rightarrow> json \<Rightarrow> workflow_instance \<Rightarrow> webhook_trigger \<Rightarrow> bool" where
  "started_by R payload i t \<longleftrightarrow>
     wi_workflow_definition_id i = wt_workflow_id t \<and> wi_version i = wt_version t \<and> wi_status i = Runnable \<and>
     (\<forall>d. get_definition R (wt_workflow_id t) (Some (wt_version t)) = Some d \<longrightarrow>
        wi_data i = with_volume d (map_trigger_data t payload))"

definition store_all :: "workflow_instance list \<Rightarrow> (string \<rightharpoonup> workflow_instance) \<Rightarrow> (string \<rightharpoonup> workflow_instance)" where
  "store_all insts m = fold (\<lambda>i m. m(wi_id i \<mapsto> i)) insts m"

definition effective :: "workflow_registry \<Rightarrow> string \<Rightarrow> string \<Rightarrow> json \<Rightarrow> webhook_trigger \<Rightarrow> bool" where
  "effective R source event_type payload t \<longleftrightarrow> trigger_matches source event_type payload t \<and>
     get_definition R (wt_workflow_id t) (Some (wt_version t)) \<noteq> None"

lemma start_trigger:
  assumes "mw_uuids w (mw_drawn w) \<noteq> []" and "get_definition R (wt_workflow_id t) (Some (wt_version t)) = Some d"
  obtains inst w' where "start_workflow (mem_host R reg) mem_sys (wt_workflow_id t) (wt_version t)
        (map_trigger_data t payload) w = (Inr (wi_id inst), w')"
    and "started_by R payload inst t" and "mem_stored w' = (mem_stored w)(wi_id inst \<mapsto> inst)"
    and "mem_queued w' = (mem_queued w)(QWorkflow := mem_queued w QWorkflow @ [wi_id inst])"
    and "mw_uuids w' = mw_uuids w" and "mw_events w' = mw_events w"
  by (rule start_workflow_mem[where reg = reg and data = "map_trigger_data t payload", OF assms])
    (rule that, assumption, simp add: started_by_def assms(2), assumption+)

lemma run_triggers_mem:
  assumes "\<forall>n. mw_uuids w n \<noteq> []"
  shows "\<exists>insts. list_all2 (started_by R payload) insts (filter (effective R source event_type payload) ts) \<and>
     mem_stored (run_triggers (mem_host R reg) mem_sys source event_type payload ts w) = store_all insts (mem_stored w) \<and>
     mem_queued (run_triggers (mem_host R reg) mem_sys source event_type payload ts w) =
       (mem_queued w)(QWorkflow := mem_queued w QWorkflow @ map wi_id insts) \<and>
     mw_events (run_triggers (mem_host R reg) mem_sys source event_type payload ts w) = mw_events w"
  using assms
proof (induction ts arbitrary: w)
  case (Cons t ts)
  let ?run = "run_triggers (mem_host R reg) mem_sys source event_type payload"
  show ?case
  proof (cases "get_definition R (wt_workflow_id t) (Some (wt_version t))")
    case None
    then have "?run (t # ts) w = ?run ts w"
      by (simp add: start_workflow_def start_workflow_with_name_def)
    with Cons None show ?thesis by (simp add: effective_def)
  next
    case (Some d)
    show ?thesis
    proof (cases "trigger_matches source event_type payload t")
      case False
      with Cons show ?thesis by (simp add: effective_def)
    next
      case True
      obtain inst w1 where i: "start_workflow (mem_host R reg) mem_sys (wt_workflow_id t) (wt_version t)
            (map_trigger_data t payload) w = (Inr (wi_id inst), w1)"
        and st: "started_by R payload inst t" and w1: "mem_stored w1 = (mem_stored w)(wi_id inst \<mapsto> inst)"
          "mem_queued w1 = (mem_queued w)(QWorkflow := mem_queued w QWorkflow @ [wi_id inst])"
          "mw_uuids w1 = mw_uuids w" "mw_events w1 = mw_events w"
        by (rule start_trigger[where w = w and reg = reg and payload = payload, OF _ Some]) (use Cons.prems in auto)
      have "\<forall>n. mw_uuids w1 n \<noteq> []" using Cons.prems w1(3) by simp
      from Cons.IH[OF this] obtain insts where
        l: "list_all2 (started_by R payload) insts (filter (effective R source event_type payload) ts)"
        and r: "mem_stored (?run ts w1) = store_all insts (mem_stored w1)"
          "mem_queued (?run ts w1) = (mem_queued w1)(QWorkflow := mem_queued w1 QWorkflow @ map wi_id insts)"
          "mw_events (?run ts w1) = mw_events w1" by blast
      have "?run (t # ts) w = ?run ts w1" using True i by simp
      moreover have "filter (effective R source event_type payload) (t # ts) = t # filter (effective R source event_type payload) ts"
        using True Some by (simp add: effective_def)
      ultimately show ?thesis
        using l r st w1 by (intro exI[of _ "inst # insts"]) (simp add: store_all_def)
    qed
  qed
qed (auto simp: store_all_def)

lemma publish_event_mem:
  assumes "mw_uuids w (mw_drawn w) \<noteq> []"
  shows "\<exists>w'. publish_event (mem_host R reg) mem_sys n k data w = (Inr (), w') \<and> mem_stored w' = mem_stored w \<and>
     mem_queued w' = (mem_queued w)(QEvent := mem_queued w QEvent @ [mw_uuids w (mw_drawn w)]) \<and>
     mw_uuids w' = mw_uuids w \<and>
     (\<exists>now. mw_events w' = AList.update (mw_uuids w (mw_drawn w)) (event_new (mw_uuids w (mw_drawn w)) now n k data) (mw_events w))"
  using assms
  by (simp add: publish_event_def host_eval event_new_def mem_stored_def mem_queued_def fun_eq_iff) blast

text \<open>
  C20: forwarding a forge event, on a server whose host runs over the in-memory providers (whose operations do not
  fail). A GitHub request that is not refused and whose body is JSON is answered with OK: the event it maps
  to is stored and queued for delivery, and the triggers for this source, event type and ref whose definition is
  registered each start, in the order of the configuration, one runnable instance. Its data is what the trigger selects, plus,
  when the definition declares a shared volume, the reserved key with this volume. No other
  instance is created or changed.
\<close>

theorem github_event_forwarded:
  assumes "\<forall>n. mw_uuids w n \<noteq> []" and "wk_from_slice K body = Some payload"
    and "case map_of (ac_webhook_secrets (sv_auth cfg)) ''github'' of None \<Rightarrow> True
         | Some s \<Rightarrow> verify_hmac_sha256 K s body (header_str headers ''x-hub-signature-256'')"
  shows "\<exists>w' insts ev. handle_github_webhook K \<lparr>ws_host = mem_host R reg, ws_config = cfg\<rparr> mem_sys headers body w =
       ((OK, ''ok''), w') \<and>
     mw_events w' = AList.update (ev_id ev) ev (mw_events w) \<and>
     (let e = map_forge_event (header_str headers ''x-github-event'') payload
      in ev_name ev = fe_event_name e \<and> ev_key ev = fe_event_key e \<and> ev_data ev = fe_data e) \<and>
     mem_queued w' QEvent = mem_queued w QEvent @ [ev_id ev] \<and>
     list_all2 (started_by R payload) insts
       (filter (effective R ''github'' (header_str headers ''x-github-event'') payload) (sv_triggers cfg)) \<and>
     mem_stored w' = store_all insts (mem_stored w) \<and>
     mem_queued w' QWorkflow = mem_queued w QWorkflow @ map wi_id insts"
proof -
  let ?ty = "header_str headers ''x-github-event''"
  let ?e = "map_forge_event ?ty payload"
  from assms(1) have "mw_uuids w (mw_drawn w) \<noteq> []" by simp
  from publish_event_mem[OF this, of R reg "fe_event_name ?e" "fe_event_key ?e" "fe_data ?e"] obtain w1 now where
    p: "publish_event (mem_host R reg) mem_sys (fe_event_name ?e) (fe_event_key ?e) (fe_data ?e) w = (Inr (), w1)"
    and w1: "mem_stored w1 = mem_stored w" "mw_uuids w1 = mw_uuids w"
      "mem_queued w1 = (mem_queued w)(QEvent := mem_queued w QEvent @ [mw_uuids w (mw_drawn w)])"
    and ev: "mw_events w1 = AList.update (mw_uuids w (mw_drawn w)) (event_new (mw_uuids w (mw_drawn w)) now
        (fe_event_name ?e) (fe_event_key ?e) (fe_data ?e)) (mw_events w)" by blast
  from assms(1) w1(2) have "\<forall>n. mw_uuids w1 n \<noteq> []" by simp
  from run_triggers_mem[OF this, of R payload "''github''" ?ty "sv_triggers cfg" reg] obtain insts where
    l: "list_all2 (started_by R payload) insts (filter (effective R ''github'' ?ty payload) (sv_triggers cfg))"
    and r: "mem_stored (run_triggers (mem_host R reg) mem_sys ''github'' ?ty payload (sv_triggers cfg) w1) = store_all insts (mem_stored w1)"
      "mem_queued (run_triggers (mem_host R reg) mem_sys ''github'' ?ty payload (sv_triggers cfg) w1) =
         (mem_queued w1)(QWorkflow := mem_queued w1 QWorkflow @ map wi_id insts)"
      "mw_events (run_triggers (mem_host R reg) mem_sys ''github'' ?ty payload (sv_triggers cfg) w1) = mw_events w1" by blast
  have h: "handle_github_webhook K \<lparr>ws_host = mem_host R reg, ws_config = cfg\<rparr> mem_sys headers body w =
      ((OK, ''ok''), run_triggers (mem_host R reg) mem_sys ''github'' ?ty payload (sv_triggers cfg) w1)"
    using assms(2,3) p by (simp add: handle_github_webhook_def forward_forge_event_def Let_def split: option.splits)
  show ?thesis
    by (rule exI[of _ "run_triggers (mem_host R reg) mem_sys ''github'' ?ty payload (sv_triggers cfg) w1"], rule exI[of _ insts], rule exI[of _ "event_new (mw_uuids w (mw_drawn w)) now
        (fe_event_name ?e) (fe_event_key ?e) (fe_data ?e)"])
      (use h l r w1 ev in \<open>simp add: event_new_def Let_def\<close>)
qed

text \<open>The data of a triggered workflow: a key is present exactly when its path leads to a value.\<close>

lemma map_trigger_data_get:
  assumes "distinct (map fst (wt_data_mapping t))"
  shows "json_get (map_trigger_data t payload) key =
     and_then (map_of (wt_data_mapping t) key) (resolve_json_path payload)"
proof -
  have "map_of (fold (\<lambda>(key, path) m. case resolve_json_path payload path of None \<Rightarrow> m
        | Some v \<Rightarrow> obj_insert key v m) dm m0) key =
      (case map_of dm key of None \<Rightarrow> map_of m0 key
       | Some path \<Rightarrow> (case resolve_json_path payload path of None \<Rightarrow> map_of m0 key | Some v \<Rightarrow> Some v))"
    if "distinct (map fst dm)" for dm m0
    using that
  proof (induction dm arbitrary: m0)
    case (Cons kp dm)
    obtain k p where kp: "kp = (k, p)" by force
    from Cons.prems kp have "k \<notin> dom (map_of dm)" by (simp add: dom_map_of_conv_image_fst)
    with Cons kp show ?case by (cases "resolve_json_path payload p") (auto split: option.splits)
  qed simp
  from this[OF assms] show ?thesis by (auto simp: map_trigger_data_def split: option.splits)
qed

definition sample_webhook_env :: webhook_env where
  "sample_webhook_env = \<lparr>wk_hex_decode = Some, wk_hmac_sha256 = (\<lambda>secret body. secret @ body),
     wk_from_slice = (\<lambda>_. Some (JObject [(''ref'', JString ''main'')]))\<rparr>"

definition sample_server :: server_config where
  "sample_server = server_config_default\<lparr>sv_auth := \<lparr>ac_tokens = [''t''], ac_oidc_issuer = None,
       ac_oidc_audience = None, ac_webhook_secrets = [(''github'', ''s'')]\<rparr>,
     sv_triggers := [\<lparr>wt_source = ''github'', wt_event = ''push'', wt_match_ref = Some ''main'',
       wt_workflow_id = ''two'', wt_version = 1, wt_data_mapping = [(''r'', ''$.ref'')]\<rparr>]\<rparr>"

definition sample_headers :: header_map where
  "sample_headers = [''x-hub-signature-256'' \<mapsto> Some ''sha256=sb'', ''x-github-event'' \<mapsto> Some ''push'']"

theorem github_event_forwarded_witness:
  "\<exists>w' i. handle_github_webhook sample_webhook_env
       \<lparr>ws_host = mem_host [((''two'', 1), two_steps)] pass_registry, ws_config = sample_server\<rparr>
       mem_sys sample_headers ''b'' (mem_new int show_nat) = ((OK, ''ok''), w') \<and>
     mem_stored w' = [wi_id i \<mapsto> i] \<and> wi_workflow_definition_id i = ''two''"
proof -
  let ?R = "[((''two'', 1 :: u32), two_steps)]"
  let ?p = "JObject [(''ref'', JString ''main'')]"
  have u: "\<forall>n. mw_uuids (mem_new int show_nat) n \<noteq> []" using show_nat_digits by (simp add: mem_new_def)
  have b: "wk_from_slice sample_webhook_env ''b'' = Some ?p" by (simp add: sample_webhook_env_def)
  have s: "case map_of (ac_webhook_secrets (sv_auth sample_server)) ''github'' of None \<Rightarrow> True
      | Some s \<Rightarrow> verify_hmac_sha256 sample_webhook_env s ''b'' (header_str sample_headers ''x-hub-signature-256'')"
    by (simp add: sample_server_def sample_webhook_env_def sample_headers_def verify_hmac_sha256_def header_str_def
        strip_prefix_str_def)
  have f: "filter (effective ?R ''github'' (header_str sample_headers ''x-github-event'') ?p) (sv_triggers sample_server) =
      sv_triggers sample_server"
    by (simp add: sample_server_def effective_def trigger_matches_def sample_headers_def header_str_def str_at_def
        json_index_def get_definition_def)
  from github_event_forwarded[OF u b s, of ?R pass_registry, unfolded f] obtain w' insts where
    h: "handle_github_webhook sample_webhook_env \<lparr>ws_host = mem_host ?R pass_registry, ws_config = sample_server\<rparr>
       mem_sys sample_headers ''b'' (mem_new int show_nat) = ((OK, ''ok''), w')"
    and l: "list_all2 (started_by ?R ?p) insts (sv_triggers sample_server)"
    and m: "mem_stored w' = store_all insts (mem_stored (mem_new int show_nat))" by blast
  from l obtain i where "insts = [i]" "wi_workflow_definition_id i = ''two''"
    by (auto simp: sample_server_def list_all2_Cons2 started_by_def)
  with h m show ?thesis by (auto simp: store_all_def)
qed

end
