(* ===== verification/Grpc.thy ===== *)
theory Grpc
  imports Host_Correct Yaml_Load Server_Auth "HOL-Library.Multiset"
begin

text \<open>
  The gRPC interface of the server, \<open>wfe-server/src/grpc.rs\<close>: the calls on workflows and events as
  calls of the host, the conversion between JSON and protobuf values, the protobuf form of
  instances, pointers and lifecycle events, and the log store of \<open>wfe-server/src/log_store.rs\<close> with the
  streams that read it. An \<open>f64\<close> is the rational it denotes, or \<open>None\<close> when it is not finite. The
  fields of a struct are in key order, as in the B-tree map that holds them.
\<close>

section \<open>Values\<close>

datatype prost_value =
    PNone
  | PNull
  | PNumber "rat option"
  | PString string
  | PBool bool
  | PStruct "(string \<times> prost_value) list"
  | PList "prost_value list"

text \<open>\<open>json!(n)\<close> of a float that is not finite is \<open>Null\<close>.\<close>

fun prost_value_to_json :: "prost_value \<Rightarrow> json" where
  "prost_value_to_json PNone = JNull"
| "prost_value_to_json PNull = JNull"
| "prost_value_to_json (PNumber n) = (case n of None \<Rightarrow> JNull | Some q \<Rightarrow> JNumber (Float q))"
| "prost_value_to_json (PString s) = JString s"
| "prost_value_to_json (PBool b) = JBool b"
| "prost_value_to_json (PStruct fs) = JObject (map (\<lambda>(k, v). (k, prost_value_to_json v)) fs)"
| "prost_value_to_json (PList vs) = JArray (map prost_value_to_json vs)"

definition struct_to_json :: "(string \<times> prost_value) list \<Rightarrow> json" where
  "struct_to_json fs = JObject (map (\<lambda>(k, v). (k, prost_value_to_json v)) fs)"

fun json_to_prost_value :: "json \<Rightarrow> prost_value" where
  "json_to_prost_value JNull = PNull"
| "json_to_prost_value (JBool b) = PBool b"
| "json_to_prost_value (JNumber n) = PNumber (Some (unwrap_or (as_f64 (JNumber n)) 0))"
| "json_to_prost_value (JString s) = PString s"
| "json_to_prost_value (JArray vs) = PList (map json_to_prost_value vs)"
| "json_to_prost_value (JObject m) = PStruct (map (\<lambda>(k, v). (k, json_to_prost_value v)) m)"

definition json_to_struct :: "json \<Rightarrow> (string \<times> prost_value) list" where
  "json_to_struct v = (case as_object v of None \<Rightarrow> [] | Some m \<Rightarrow> map (\<lambda>(k, v). (k, json_to_prost_value v)) m)"

section \<open>Messages\<close>

record timestamp =
  ts_seconds :: int
  ts_nanos :: int

definition datetime_to_timestamp :: "date_time \<Rightarrow> timestamp" where
  "datetime_to_timestamp t = \<lparr>ts_seconds = t div 1000000000, ts_nanos = t mod 1000000000\<rparr>"

record proto_pointer =
  pp_id :: string
  pp_step_id :: u32
  pp_step_name :: string
  pp_status :: int
  pp_start_time :: "timestamp option"
  pp_end_time :: "timestamp option"
  pp_retry_count :: u32
  pp_active :: bool

definition proto_pointer_status :: "pointer_status \<Rightarrow> int" where
  "proto_pointer_status s =
     (case s of Pending \<Rightarrow> 1 | PendingPredecessor \<Rightarrow> 1 | Running \<Rightarrow> 2 | PComplete \<Rightarrow> 3 | Sleeping \<Rightarrow> 4
      | WaitingForEvent \<Rightarrow> 5 | Failed \<Rightarrow> 6 | Skipped \<Rightarrow> 7 | Compensated \<Rightarrow> 8 | Cancelled \<Rightarrow> 8)"

definition pointer_to_proto :: "execution_pointer \<Rightarrow> proto_pointer" where
  "pointer_to_proto p =
     \<lparr>pp_id = ep_id p, pp_step_id = word_of_nat (ep_step_id p), pp_step_name = unwrap_or (ep_step_name p) [],
      pp_status = proto_pointer_status (ep_status p),
      pp_start_time = map_option datetime_to_timestamp (ep_start_time p),
      pp_end_time = map_option datetime_to_timestamp (ep_end_time p),
      pp_retry_count = ep_retry_count p, pp_active = ep_active p\<rparr>"

record proto_instance =
  pi_id :: string
  pi_name :: string
  pi_definition_id :: string
  pi_version :: u32
  pi_description :: string
  pi_reference :: string
  pi_status :: int
  pi_data :: "(string \<times> prost_value) list"
  pi_create_time :: timestamp
  pi_complete_time :: "timestamp option"
  pi_execution_pointers :: "proto_pointer list"

definition proto_workflow_status :: "workflow_status \<Rightarrow> int" where
  "proto_workflow_status s = (case s of Runnable \<Rightarrow> 1 | Suspended \<Rightarrow> 2 | Complete \<Rightarrow> 3 | Terminated \<Rightarrow> 4)"

definition workflow_to_proto :: "workflow_instance \<Rightarrow> proto_instance" where
  "workflow_to_proto w =
     \<lparr>pi_id = wi_id w, pi_name = wi_name w, pi_definition_id = wi_workflow_definition_id w,
      pi_version = wi_version w, pi_description = unwrap_or (wi_description w) [],
      pi_reference = unwrap_or (wi_reference w) [], pi_status = proto_workflow_status (wi_status w),
      pi_data = json_to_struct (wi_data w), pi_create_time = datetime_to_timestamp (wi_create_time w),
      pi_complete_time = map_option datetime_to_timestamp (wi_complete_time w),
      pi_execution_pointers = map pointer_to_proto (wi_execution_pointers w)\<rparr>"

record proto_lifecycle_event =
  pl_event_time :: timestamp
  pl_workflow_id :: string
  pl_definition_id :: string
  pl_version :: u32
  pl_event_type :: int
  pl_step_id :: u32
  pl_step_name :: string
  pl_error_message :: "wfe_error option"

text \<open>The message of an error event is kept as the error it renders.\<close>

definition lifecycle_event_to_proto :: "lifecycle_event \<Rightarrow> proto_lifecycle_event" where
  "lifecycle_event_to_proto e =
     (let (event_type, step_id, step_name, error_message) =
        (case le_event_type e of
           LStarted \<Rightarrow> (1, 0, [], None) | LCompleted \<Rightarrow> (2, 0, [], None) | LTerminated \<Rightarrow> (3, 0, [], None)
         | LSuspended \<Rightarrow> (4, 0, [], None) | LResumed \<Rightarrow> (5, 0, [], None) | LError m \<Rightarrow> (6, 0, [], Some m)
         | LStepStarted i n \<Rightarrow> (7, word_of_nat i, unwrap_or n [], None)
         | LStepCompleted i n \<Rightarrow> (8, word_of_nat i, unwrap_or n [], None))
      in \<lparr>pl_event_time = datetime_to_timestamp (le_event_time_utc e), pl_workflow_id = le_workflow_instance_id e,
          pl_definition_id = le_workflow_definition_id e, pl_version = le_version e, pl_event_type = event_type,
          pl_step_id = step_id, pl_step_name = step_name, pl_error_message = error_message\<rparr>)"

section \<open>Calls\<close>

record registered_definition =
  rd_definition_id :: string
  rd_version :: u32
  rd_step_count :: u32
  rd_name :: string

text \<open>\<open>body_of\<close> is the step body a factory makes.\<close>

definition register_compiled ::
  "(step_factory \<Rightarrow> 'w step_body) \<Rightarrow> compiled_workflow \<Rightarrow> 'w workflow_host \<Rightarrow> 'w workflow_host" where
  "register_compiled body_of c h =
     register_workflow_definition (cw_definition c)
       (fold (\<lambda>(key, factory). register_step_factory key (body_of factory)) (cw_step_factories c) h)"

definition registered_of :: "compiled_workflow \<Rightarrow> registered_definition" where
  "registered_of c =
     (let d = cw_definition c in
      \<lparr>rd_definition_id = wd_id d, rd_version = wd_version d, rd_step_count = word_of_nat (length (wd_steps d)),
       rd_name = unwrap_or (wd_name d) []\<rparr>)"

text \<open>\<open>None\<close> is a loader that does not return.\<close>

definition rpc_register_workflow ::
  "loader_env \<Rightarrow> (step_factory \<Rightarrow> 'w step_body) \<Rightarrow> string \<Rightarrow> (string \<times> string) list \<Rightarrow> 'w workflow_host \<Rightarrow>
   ((grpc_status + registered_definition list) \<times> 'w workflow_host) option" where
  "rpc_register_workflow E body_of yaml cfg h =
     (case load_workflow_from_str E (map_of (map (\<lambda>(k, v). (k, JString v)) cfg)) yaml of
        None \<Rightarrow> None
      | Some (Inl e) \<Rightarrow> Some (Inl (InvalidArgument ''YAML compilation failed''), h)
      | Some (Inr workflows) \<Rightarrow> Some (Inr (map registered_of workflows), fold (register_compiled body_of) workflows h))"

record start_workflow_request =
  rq_definition_id :: string
  rq_version :: u32
  rq_data :: "(string \<times> prost_value) list option"
  rq_name :: string

definition request_data :: "(string \<times> prost_value) list option \<Rightarrow> json" where
  "request_data d = (case d of None \<Rightarrow> JObject [] | Some fs \<Rightarrow> struct_to_json fs)"

definition rpc_start_workflow ::
  "'w workflow_host \<Rightarrow> 'w sys \<Rightarrow> start_workflow_request \<Rightarrow> ('w, grpc_status + string \<times> string) eff" where
  "rpc_start_workflow h S req w =
     (case start_workflow_with_name h S (rq_definition_id req) (rq_version req) (request_data (rq_data req))
             (if trim (rq_name req) = [] then None else Some (rq_name req)) w of
        (Inl e, w) \<Rightarrow> (Inl (InternalStatus ''failed to start workflow: '' e), w)
      | (Inr workflow_id, w) \<Rightarrow>
          (case get_workflow h workflow_id w of
             (Inl e, w) \<Rightarrow> (Inl (InternalStatus ''failed to load new workflow: '' e), w)
           | (Inr inst, w) \<Rightarrow> (Inr (workflow_id, wi_name inst), w)))"

definition rpc_get_workflow :: "'w workflow_host \<Rightarrow> string \<Rightarrow> ('w, grpc_status + proto_instance) eff" where
  "rpc_get_workflow h workflow_id w =
     (case get_workflow h workflow_id w of
        (Inl e, w) \<Rightarrow> (Inl (NotFoundStatus ''workflow not found: '' e), w)
      | (Inr inst, w) \<Rightarrow> (Inr (workflow_to_proto inst), w))"

definition control_call :: "string \<Rightarrow> bool res \<times> 'w \<Rightarrow> (grpc_status + unit) \<times> 'w" where
  "control_call msg r = (case r of (Inl e, w) \<Rightarrow> (Inl (InternalStatus msg e), w) | (Inr _, w) \<Rightarrow> (Inr (), w))"

definition rpc_cancel_workflow :: "'w workflow_host \<Rightarrow> 'w sys \<Rightarrow> string \<Rightarrow> ('w, grpc_status + unit) eff" where
  "rpc_cancel_workflow h S i w = control_call ''failed to cancel: '' (terminate_workflow h S i w)"

definition rpc_suspend_workflow :: "'w workflow_host \<Rightarrow> 'w sys \<Rightarrow> string \<Rightarrow> ('w, grpc_status + unit) eff" where
  "rpc_suspend_workflow h S i w = control_call ''failed to suspend: '' (suspend_workflow h S i w)"

definition rpc_resume_workflow :: "'w workflow_host \<Rightarrow> 'w sys \<Rightarrow> string \<Rightarrow> ('w, grpc_status + unit) eff" where
  "rpc_resume_workflow h S i w = control_call ''failed to resume: '' (resume_workflow h S i w)"

definition rpc_publish_event ::
  "'w workflow_host \<Rightarrow> 'w sys \<Rightarrow> string \<Rightarrow> string \<Rightarrow> (string \<times> prost_value) list option \<Rightarrow> ('w, grpc_status + string) eff" where
  "rpc_publish_event h S event_name event_key data w =
     (case publish_event h S event_name event_key (request_data data) w of
        (Inl e, w) \<Rightarrow> (Inl (InternalStatus ''failed to publish event: '' e), w)
      | (Inr _, w) \<Rightarrow> (Inr [], w))"

section \<open>Data across the interface\<close>

text \<open>What becomes of a JSON value on its way through protobuf: every number is a float afterwards.\<close>

fun floated :: "json \<Rightarrow> json" where
  "floated (JNumber n) = JNumber (Float (unwrap_or (as_f64 (JNumber n)) 0))"
| "floated (JArray vs) = JArray (map floated vs)"
| "floated (JObject m) = JObject (map (\<lambda>(k, v). (k, floated v)) m)"
| "floated v = v"

fun integer_free :: "json \<Rightarrow> bool" where
  "integer_free (JNumber n) = (case n of Float _ \<Rightarrow> True | _ \<Rightarrow> False)"
| "integer_free (JArray vs) = (\<forall>v \<in> set vs. integer_free v)"
| "integer_free (JObject m) = (\<forall>(k, v) \<in> set m. integer_free v)"
| "integer_free v = True"

lemma prost_round_trip: "prost_value_to_json (json_to_prost_value v) = floated v"
  by (induction v) auto

lemma floated_idem_iff: "floated v = v \<longleftrightarrow> integer_free v"
proof (induction v)
  case (JNumber n)
  then show ?case by (cases n) (simp_all add: as_f64_def)
next
  case (JArray vs)
  then show ?case by (auto simp: map_idI list_eq_iff_nth_eq) (metis in_set_conv_nth)
next
  case (JObject m)
  have "map (\<lambda>(k, v). (k, floated v)) m = m \<longleftrightarrow> (\<forall>(k, v) \<in> set m. floated v = v)"
    by (induction m) auto
  with JObject show ?case by (fastforce simp: snds.simps)
qed auto

lemma keys_floated: "map fst (map (\<lambda>(k, v). (k, f v)) m) = map fst m"
  by (induction m) auto

lemma wf_floated: "wf_json v \<Longrightarrow> wf_json (floated v)"
proof (induction v)
  case (JObject m)
  then have "\<forall>kv \<in> set (map (\<lambda>(k, v). (k, floated v)) m). wf_json (snd kv)" by (fastforce simp: snds.simps)
  with JObject.prems show ?case by (simp only: floated.simps wf_json.simps keys_floated)
qed auto

text \<open>
  Data across the gRPC interface. A value that is sent out and read back has the same shape,
  is well formed, and every number in it is the float next to it; it is unchanged exactly when it contains no
  integer, so an integer comes back as a different JSON value, if one of equal size.
\<close>

theorem grpc_data_round_trip:
  assumes "wf_json v"
  shows "prost_value_to_json (json_to_prost_value v) = floated v \<and> wf_json (floated v) \<and>
    (prost_value_to_json (json_to_prost_value v) = v \<longleftrightarrow> integer_free v)"
  using assms by (simp add: prost_round_trip floated_idem_iff wf_floated)

theorem grpc_data_round_trip_witness:
  "prost_value_to_json (json_to_prost_value (JObject [(''n'', JNumber (PosInt 3))])) = JObject [(''n'', JNumber (Float 3))]
   \<and> \<not> integer_free (JObject [(''n'', JNumber (PosInt 3))])"
  using grpc_data_round_trip[of "JObject [(''n'', JNumber (PosInt 3))]"]
  by (simp add: as_f64_def f64_of_int_exact)

text \<open>
  A step condition that compares a field with an integer literal does not hold for a workflow that was
  started through the interface with this integer in its data.
\<close>

lemma integer_condition_fails_over_grpc:
  "evaluate (Comparison \<lparr>fc_field = ''.n'', fc_operator = Equals, fc_value = Some (JNumber (PosInt 3))\<rparr>)
     (request_data (Some (json_to_struct (JObject [(''n'', JNumber (PosInt 3))])))) = Inr False"
  by (simp add: evaluate_def request_data_def struct_to_json_def json_to_struct_def evaluate_comparison_def
      resolve_field_path_def strip_prefix_str_def parse_u64_def parse_digits_def is_digit_def as_f64_def f64_of_int_exact)

lemma timestamp_exact:
  "ts_seconds (datetime_to_timestamp t) * 1000000000 + ts_nanos (datetime_to_timestamp t) = t"
  "0 \<le> ts_nanos (datetime_to_timestamp t)" "ts_nanos (datetime_to_timestamp t) < 1000000000"
  by (simp_all add: datetime_to_timestamp_def)

section \<open>Registering and starting\<close>

lemma register_compiled_mem:
  "\<exists>reg'. register_compiled body_of c (mem_host R reg) = mem_host (registry_register (cw_definition c) R) reg'"
proof -
  have "\<exists>reg'. fold (\<lambda>(key, factory). register_step_factory key (body_of factory)) fs (mem_host R reg) = mem_host R reg'"
    for fs reg
    by (induction fs arbitrary: reg) (auto simp: register_step_factory_def mem_host_def)
  then show ?thesis
    by (metis mem_host_def register_compiled_def register_workflow_definition_def workflow_host.update_convs(6)
        workflow_host.select_convs(6))
qed

lemma register_all_mem:
  "\<exists>reg'. fold (register_compiled body_of) cs (mem_host R reg) =
     mem_host (fold (\<lambda>c. registry_register (cw_definition c)) cs R) reg'"
proof (induction cs arbitrary: R reg)
  case (Cons c cs)
  with register_compiled_mem[of body_of c R reg] show ?case by fastforce
qed auto

lemma registry_lookup:
  assumes "distinct (map (\<lambda>c. wd_id (cw_definition c)) cs)" and "c \<in> set cs"
  shows "get_definition (fold (\<lambda>c. registry_register (cw_definition c)) cs R) (wd_id (cw_definition c))
     (Some (wd_version (cw_definition c))) = Some (cw_definition c)"
proof -
  have other: "map_of (fold (\<lambda>c. registry_register (cw_definition c)) cs R) (i, v) = map_of R (i, v)"
    if "i \<notin> set (map (\<lambda>c. wd_id (cw_definition c)) cs)" for i v cs and R :: workflow_registry
    using that by (induction cs arbitrary: R) (auto simp: registry_register_def update_conv')
  from assms show ?thesis
  proof (induction cs arbitrary: R)
    case (Cons a cs)
    show ?case
    proof (cases "a = c")
      case True
      with Cons.prems(1) have "wd_id (cw_definition c) \<notin> set (map (\<lambda>c. wd_id (cw_definition c)) cs)" by auto
      note same = other[OF this, of "registry_register (cw_definition c) R" "wd_version (cw_definition c)"]
      have "map_of (registry_register d R) (wd_id d, wd_version d) = Some d" for d
        by (simp add: registry_register_def update_conv')
      with same True show ?thesis by (simp add: get_definition_def)
    qed (use Cons in \<open>auto simp: get_definition_def\<close>)
  qed simp
qed

text \<open>
  C17: what was registered can be started. When the server has accepted a file, each definition it
  reports is well formed and registered, and a start call for it on the host over the in-memory providers
  answers with the id and the generated name of a new runnable instance of it, which is stored and
  queued; without a shared volume its data is the data of the request.
\<close>

theorem registered_definition_starts:
  assumes "\<And>A. finite A \<Longrightarrow> set (le_order E A) = A"
    and "rpc_register_workflow E body_of yaml cfg (mem_host R reg) = Some (Inr defs, h)" and "rd \<in> set defs"
    and "rq_definition_id req = rd_definition_id rd" and "rq_version req = rd_version rd" and "trim (rq_name req) = []"
    and "mw_uuids w (mw_drawn w) \<noteq> []"
  shows "\<exists>d i n w' inst. get_definition (wh_registry h) (rd_definition_id rd) (Some (rd_version rd)) = Some d \<and>
     definition_ok d \<and> rpc_start_workflow h mem_sys req w = (Inr (i, n), w') \<and>
     mem_stored w' i = Some inst \<and> wi_status inst = Runnable \<and> wi_workflow_definition_id inst = rd_definition_id rd \<and>
     wi_version inst = rd_version rd \<and> wi_name inst = n \<and> (wd_shared_volume d = None \<longrightarrow> wi_data inst = request_data (rq_data req)) \<and>
     i \<in> set (mem_queued w' QWorkflow)"
proof -
  from assms(2) obtain cs where l: "load_workflow_from_str E (map_of (map (\<lambda>(k, v). (k, JString v)) cfg)) yaml = Some (Inr cs)"
    and defs: "defs = map registered_of cs" and h: "h = fold (register_compiled body_of) cs (mem_host R reg)"
    by (auto simp: rpc_register_workflow_def split: option.splits sum.splits)
  from l obtain incs specs where "compile_all E specs = Some (Inr cs)"
    by (auto simp: load_workflow_from_str_def split: sum.splits prod.splits)
  with compile_all_ok[OF assms(1), of specs] have ok: "list_all (\<lambda>c. definition_ok (cw_definition c)) cs"
    and dist: "distinct (map (\<lambda>c. wd_id (cw_definition c)) cs)" by auto
  from assms(3) defs obtain c where c: "c \<in> set cs" and rd: "rd = registered_of c" by auto
  let ?d = "cw_definition c"
  let ?R = "fold (\<lambda>c. registry_register (cw_definition c)) cs R"
  from register_all_mem[of body_of cs R reg] h obtain reg' where host: "h = mem_host ?R reg'" by auto
  have g: "get_definition ?R (wd_id ?d) (Some (wd_version ?d)) = Some ?d" using registry_lookup[OF dist c] .
  show ?thesis
  proof (rule start_workflow_mem[where reg = reg' and data = "request_data (rq_data req)", OF assms(7) g])
    fix inst w'
    assume s: "start_workflow (mem_host ?R reg') mem_sys (wd_id ?d) (wd_version ?d) (request_data (rq_data req)) w = (Inr (wi_id inst), w')"
      and i: "wi_status inst = Runnable" "wi_workflow_definition_id inst = wd_id ?d" "wi_version inst = wd_version ?d"
        "mem_stored w' = (mem_stored w)(wi_id inst \<mapsto> inst)"
        "mem_queued w' = (mem_queued w)(QWorkflow := mem_queued w QWorkflow @ [wi_id inst])"
        "wi_data inst = with_volume ?d (request_data (rq_data req))"
    have "get_workflow h (wi_id inst) w' = (Inr inst, w')"
      using i(4) host by (simp add: get_workflow_def mem_get_workflow_instance_def mem_stored_def)
    moreover have "start_workflow_with_name h mem_sys (rq_definition_id req) (rq_version req) (request_data (rq_data req)) None w =
        (Inr (wi_id inst), w')"
      using s host assms(4,5) rd by (simp add: start_workflow_def registered_of_def Let_def)
    ultimately have "rpc_start_workflow h mem_sys req w = (Inr (wi_id inst, wi_name inst), w')"
      using assms(6) by (simp add: rpc_start_workflow_def)
    moreover have "definition_ok ?d" using ok c by (simp add: list_all_iff)
    ultimately show ?thesis
      using g i rd host by (intro exI[of _ ?d] exI[of _ "wi_id inst"] exI[of _ "wi_name inst"] exI[of _ w'] exI[of _ inst])
        (simp add: registered_of_def Let_def)
  qed
qed

lemma sample_registration:
  "\<exists>c. load_workflow_from_str diamond_env Map.empty ''y'' = Some (Inr [c]) \<and>
     wd_id (cw_definition c) = ''y'' \<and> wd_version (cw_definition c) = 1 \<and>
     length (wd_steps (cw_definition c)) = 1 \<and> wd_name (cw_definition c) = None"
proof -
  let ?s = "plain_spec ''y'' [shell_step ''a'']"
  have "references [?s] = {}"
    by (auto simp: references_def plain_spec_def shell_step_def collect_workflow_refs.simps own_workflow_refs_def)
  moreover have "validate ?s = Inr ()"
    by (simp add: plain_spec_def validate_iff all_steps_Cons own_steps_def shell_step_def check_step_def
        check_shell_def with_config_def check_condition_def empty_config_def Let_def)
  ultimately have v: "validate_multi sorted_list_of_set [?s] = Some (Inr ())"
    using sorted_order.multi_accepts_iff[of "[?s]"] by (auto simp: acyclic_def)
  have "le_features diamond_env = default_features" by (simp add: diamond_env_def)
  with v have "load_workflow_from_str diamond_env Map.empty ''y'' = Some (try_map (compile default_features) [?s])"
    by (simp add: load_workflow_from_str_def compile_all_def)
  moreover have "\<exists>c. compile default_features ?s = Inr c \<and> wd_id (cw_definition c) = ''y'' \<and>
      wd_version (cw_definition c) = 1 \<and> length (wd_steps (cw_definition c)) = 1 \<and> wd_name (cw_definition c) = None"
    by (simp add: compile_eval)
  ultimately show ?thesis by fastforce
qed

definition sample_request :: start_workflow_request where
  "sample_request = \<lparr>rq_definition_id = ''y'', rq_version = 1, rq_data = None, rq_name = []\<rparr>"

theorem registered_definition_starts_witness:
  "\<exists>h i n w'. rpc_register_workflow diamond_env (\<lambda>_. pass_step) ''y'' [] (mem_host [] step_registry_new) =
       Some (Inr [\<lparr>rd_definition_id = ''y'', rd_version = 1, rd_step_count = 1, rd_name = []\<rparr>], h) \<and>
     rpc_start_workflow h mem_sys sample_request (mem_new int show_nat) = (Inr (i, n), w')"
proof -
  let ?rd = "\<lparr>rd_definition_id = ''y'', rd_version = 1, rd_step_count = 1, rd_name = []\<rparr>"
  from sample_registration obtain h where
    h: "rpc_register_workflow diamond_env (\<lambda>_. pass_step) ''y'' [] (mem_host [] step_registry_new) = Some (Inr [?rd], h)"
    by (auto simp: rpc_register_workflow_def registered_of_def Let_def)
  have o: "set (le_order diamond_env A) = A" if "finite A" for A using that by simp
  have u: "mw_uuids (mem_new int show_nat) (mw_drawn (mem_new int show_nat)) \<noteq> []"
    using show_nat_digits by (simp add: mem_new_def)
  from registered_definition_starts[OF o h, of ?rd sample_request, OF _ _ _ _ _ u] h show ?thesis
    by (auto simp: sample_request_def trim_def trim_start_def trim_end_def)
qed

section \<open>Logs\<close>

text \<open>
  The history is kept per workflow and step, in the order of an iteration over the concurrent map. A
  live channel is the list of the receivers that subscribed to it, each with what it was sent.
\<close>

record log_store =
  ls_history :: "((string \<times> nat) \<times> log_chunk list) list"
  ls_live :: "(string \<times> log_chunk list list) list"

definition log_store_new :: log_store where
  "log_store_new = \<lparr>ls_history = [], ls_live = []\<rparr>"

definition write_chunk :: "log_chunk \<Rightarrow> log_store \<Rightarrow> log_store" where
  "write_chunk c s =
     (let key = (lc_workflow_id c, lc_step_id c) in
      s\<lparr>ls_history := AList.update key (unwrap_or (map_of (ls_history s) key) [] @ [c]) (ls_history s),
        ls_live := AList.update (lc_workflow_id c)
          (map (\<lambda>r. r @ [c]) (unwrap_or (map_of (ls_live s) (lc_workflow_id c)) [])) (ls_live s)\<rparr>)"

text \<open>A subscription: the number of the new receiver.\<close>

definition log_subscribe :: "string \<Rightarrow> log_store \<Rightarrow> nat \<times> log_store" where
  "log_subscribe workflow_id s =
     (let rs = unwrap_or (map_of (ls_live s) workflow_id) []
      in (length rs, s\<lparr>ls_live := AList.update workflow_id (rs @ [[]]) (ls_live s)\<rparr>))"

definition received :: "string \<Rightarrow> nat \<Rightarrow> log_store \<Rightarrow> log_chunk list" where
  "received workflow_id i s =
     (let rs = unwrap_or (map_of (ls_live s) workflow_id) [] in if i < length rs then rs ! i else [])"

definition get_history :: "string \<Rightarrow> nat option \<Rightarrow> log_store \<Rightarrow> log_chunk list" where
  "get_history workflow_id step_id s =
     sort_key lc_timestamp
       (concat (map snd (filter (\<lambda>((wf, sid), _). wf = workflow_id \<and>
          (case step_id of None \<Rightarrow> True | Some f \<Rightarrow> sid = f)) (ls_history s))))"

text \<open>
  \<open>stream_logs\<close>: the replay of the history, then, in follow mode, what is sent to a subscription made
  after it. \<open>during\<close> are the chunks written while the replay is sent, \<open>after\<close> those written after the
  subscription.
\<close>

definition step_filter :: "string \<Rightarrow> log_chunk \<Rightarrow> bool" where
  "step_filter sname c \<longleftrightarrow> sname = [] \<or> lc_step_name c = sname"

definition stream_logs :: "string \<Rightarrow> string \<Rightarrow> bool \<Rightarrow> log_chunk list \<Rightarrow> log_chunk list \<Rightarrow> log_store \<Rightarrow> log_chunk list" where
  "stream_logs workflow_id sname follow during after s =
     (let replay = filter (step_filter sname) (get_history workflow_id None s);
          s = fold write_chunk during s
      in if follow then
           (let (i, s) = log_subscribe workflow_id s; s = fold write_chunk after s
            in replay @ filter (step_filter sname) (received workflow_id i s))
         else replay)"

definition log_chunk_to_proto :: "log_chunk \<Rightarrow> string \<times> string \<times> u32 \<times> int \<times> string \<times> timestamp" where
  "log_chunk_to_proto c =
     (lc_workflow_id c, lc_step_name c, word_of_nat (lc_step_id c),
      (case lc_stream c of Stdout \<Rightarrow> 1 | Stderr \<Rightarrow> 2), lc_data c, datetime_to_timestamp (lc_timestamp c))"

definition history_chunks :: "string \<Rightarrow> ((string \<times> nat) \<times> log_chunk list) list \<Rightarrow> log_chunk multiset" where
  "history_chunks wid h = mset (concat (map snd (filter (\<lambda>((wf, sid), _). wf = wid) h)))"

lemma history_chunks_update:
  "distinct (map fst h) \<Longrightarrow>
     history_chunks wid (AList.update (owner, sid) (unwrap_or (map_of h (owner, sid)) [] @ [c]) h) =
     history_chunks wid h + (if owner = wid then {#c#} else {#})"
  by (induction h) (auto simp: history_chunks_def)

lemma history_written:
  "distinct (map fst (ls_history s)) \<Longrightarrow>
     history_chunks wid (ls_history (fold write_chunk cs s)) =
       history_chunks wid (ls_history s) + mset (filter (\<lambda>c. lc_workflow_id c = wid) cs) \<and>
     distinct (map fst (ls_history (fold write_chunk cs s)))"
proof (induction cs arbitrary: s)
  case (Cons c cs)
  have "distinct (map fst (ls_history (write_chunk c s)))"
    using Cons.prems by (simp add: write_chunk_def Let_def distinct_update)
  from Cons.IH[OF this] history_chunks_update[OF Cons.prems] show ?case
    by (simp add: write_chunk_def Let_def)
qed simp

text \<open>
  The log history is complete. Whatever chunks are written to a new store, and in whatever order the
  map is iterated, the history of a workflow holds exactly the chunks written for it, each as often as
  it was written, in the order of their timestamps.
\<close>

theorem log_history_complete:
  "mset (get_history wid None (fold write_chunk cs log_store_new)) = mset (filter (\<lambda>c. lc_workflow_id c = wid) cs) \<and>
   sorted (map lc_timestamp (get_history wid None (fold write_chunk cs log_store_new)))"
  using history_written[of log_store_new wid cs]
  by (simp add: get_history_def history_chunks_def log_store_new_def)

lemma received_written:
  "i < length (unwrap_or (map_of (ls_live s) wid) []) \<Longrightarrow>
     received wid i (fold write_chunk cs s) = received wid i s @ filter (\<lambda>c. lc_workflow_id c = wid) cs"
proof (induction cs arbitrary: s)
  case (Cons c cs)
  have "i < length (unwrap_or (map_of (ls_live (write_chunk c s)) wid) [])"
    using Cons.prems by (auto simp: write_chunk_def Let_def update_conv')
  moreover have "received wid i (write_chunk c s) = received wid i s @ (if lc_workflow_id c = wid then [c] else [])"
    using Cons.prems by (auto simp: received_def write_chunk_def Let_def update_conv')
  ultimately show ?case using Cons.IH by simp
qed simp

text \<open>
  A follower sees the history and what is written after it has subscribed, but not what is written
  while the history is being sent to it.
\<close>

lemma follower_misses_chunks:
  "stream_logs wid [] True during after s =
     get_history wid None s @ filter (\<lambda>c. lc_workflow_id c = wid) after"
proof -
  obtain i s' where sub: "log_subscribe wid (fold write_chunk during s) = (i, s')" by (metis surj_pair)
  then have i: "i < length (unwrap_or (map_of (ls_live s') wid) [])" and r: "received wid i s' = []"
    by (auto simp: log_subscribe_def Let_def update_conv' received_def nth_append)
  have "filter (step_filter []) xs = xs" for xs by (simp add: step_filter_def)
  with sub received_written[OF i] r show ?thesis by (simp add: stream_logs_def Let_def)
qed

end
