(* ===== verification/Valkey.thy ===== *)
theory Valkey
  imports Providers
begin

text \<open>
  The lock, queue and lifecycle providers over Valkey (\<open>wfe-valkey/src\<close>). The server is a parameter: a
  record of the commands the providers send, with its state in the world. What the providers rely on is
  stated by \<open>redis_keys\<close> and \<open>redis_lists\<close>, from the documentation of the commands: each command and each
  script runs atomically, a key with an expiry is gone once the expiry has passed, and a call that
  reports an error may or may not have run. Several processes share a server; their calls and the
  passing of time interleave as the steps of \<open>lock_step\<close>.
\<close>

section \<open>The server\<close>

record 'w redis =
  rd_set_nx_ex :: "string \<Rightarrow> string \<Rightarrow> nat \<Rightarrow> ('w, string + string option) eff"
  rd_get :: "string \<Rightarrow> 'w \<Rightarrow> string option"
  rd_del :: "string \<Rightarrow> ('w, int) eff"
  rd_invoke :: "('w, int) eff \<Rightarrow> ('w, string + int) eff"
  rd_lpush :: "string \<Rightarrow> string \<Rightarrow> ('w, string + int) eff"
  rd_rpop :: "string \<Rightarrow> ('w, string + string option) eff"
  rd_publish :: "string \<Rightarrow> string \<Rightarrow> ('w, string + int) eff"

section \<open>Locks\<close>

record valkey_lock_provider =
  vl_prefix :: string
  vl_lock_duration :: duration
  vl_instance_id :: string

definition as_secs :: "duration \<Rightarrow> nat" where
  "as_secs d = d div 1000000000"

text \<open>\<open>new\<close>, with the connection established and the UUID drawn.\<close>

definition valkey_lock_new :: "string \<Rightarrow> string \<Rightarrow> valkey_lock_provider" where
  "valkey_lock_new pre uuid =
     \<lparr>vl_prefix = pre, vl_lock_duration = 30 * 1000000000, vl_instance_id = uuid\<rparr>"

definition with_lock_duration :: "duration \<Rightarrow> valkey_lock_provider \<Rightarrow> valkey_lock_provider" where
  "with_lock_duration d p = p\<lparr>vl_lock_duration := d\<rparr>"

definition lock_key :: "valkey_lock_provider \<Rightarrow> string \<Rightarrow> string" where
  "lock_key p resource = vl_prefix p @ '':lock:'' @ resource"

definition valkey_acquire :: "'w redis \<Rightarrow> valkey_lock_provider \<Rightarrow> string \<Rightarrow> ('w, bool res) eff" where
  "valkey_acquire R p resource w =
     (case rd_set_nx_ex R (lock_key p resource) (vl_instance_id p) (as_secs (vl_lock_duration p)) w of
        (Inl e, w') \<Rightarrow> (Inl (Persistence e), w')
      | (Inr answer, w') \<Rightarrow> (Inr (answer \<noteq> None), w'))"

text \<open>The script of \<open>release_lock\<close>, which the server runs atomically.\<close>

definition release_script :: "'w redis \<Rightarrow> string \<Rightarrow> string \<Rightarrow> ('w, int) eff" where
  "release_script R key arg w = (if rd_get R key w = Some arg then rd_del R key w else (0, w))"

definition valkey_release :: "'w redis \<Rightarrow> valkey_lock_provider \<Rightarrow> string \<Rightarrow> ('w, unit res) eff" where
  "valkey_release R p resource w =
     (case rd_invoke R (release_script R (lock_key p resource) (vl_instance_id p)) w of
        (Inl e, w') \<Rightarrow> (Inl (Persistence e), w')
      | (Inr _, w') \<Rightarrow> (Inr (), w'))"

definition valkey_lock :: "'w redis \<Rightarrow> valkey_lock_provider \<Rightarrow> 'w lock_provider" where
  "valkey_lock R p = \<lparr>acquire_lock = valkey_acquire R p, release_lock = valkey_release R p\<rparr>"

section \<open>Queues\<close>

fun queue_type_str :: "queue_type \<Rightarrow> string" where
  "queue_type_str QWorkflow = ''workflow''"
| "queue_type_str QEvent = ''event''"
| "queue_type_str QIndex = ''index''"

definition queue_key :: "string \<Rightarrow> queue_type \<Rightarrow> string" where
  "queue_key pre t = pre @ '':queue:'' @ queue_type_str t"

definition valkey_queue_work :: "'w redis \<Rightarrow> string \<Rightarrow> string \<Rightarrow> queue_type \<Rightarrow> ('w, unit res) eff" where
  "valkey_queue_work R pre i t w =
     (case rd_lpush R (queue_key pre t) i w of
        (Inl e, w') \<Rightarrow> (Inl (Persistence e), w')
      | (Inr _, w') \<Rightarrow> (Inr (), w'))"

definition valkey_dequeue_work :: "'w redis \<Rightarrow> string \<Rightarrow> queue_type \<Rightarrow> ('w, string option res) eff" where
  "valkey_dequeue_work R pre t w =
     (case rd_rpop R (queue_key pre t) w of
        (Inl e, w') \<Rightarrow> (Inl (Persistence e), w')
      | (Inr r, w') \<Rightarrow> (Inr r, w'))"

definition valkey_queue :: "'w redis \<Rightarrow> string \<Rightarrow> 'w queue_provider" where
  "valkey_queue R pre = \<lparr>queue_work = valkey_queue_work R pre, dequeue_work = valkey_dequeue_work R pre\<rparr>"

section \<open>Lifecycle events\<close>

text \<open>\<open>text_of\<close> is \<open>serde_json::to_string\<close> on the event.\<close>

definition valkey_publish ::
    "'w redis \<Rightarrow> (lifecycle_event \<Rightarrow> string + string) \<Rightarrow> string \<Rightarrow> lifecycle_event \<Rightarrow> ('w, unit res) eff" where
  "valkey_publish R text_of pre e w =
     (case text_of e of
        Inl m \<Rightarrow> (Inl (Serialization m), w)
      | Inr json \<Rightarrow>
          (case rd_publish R (pre @ '':lifecycle:'' @ le_workflow_instance_id e) json w of
             (Inl m, w') \<Rightarrow> (Inl (Persistence m), w')
           | (Inr _, w') \<Rightarrow>
               (case rd_publish R (pre @ '':lifecycle:all'') json w' of
                  (Inl m, w'') \<Rightarrow> (Inl (Persistence m), w'')
                | (Inr _, w'') \<Rightarrow> (Inr (), w''))))"

section \<open>What the commands do\<close>

text \<open>
  \<open>clock\<close> is the time of the server in nanoseconds, \<open>entries\<close> the string keys with the instant they
  expire.
\<close>

definition live :: "('w \<Rightarrow> date_time) \<Rightarrow> ('w \<Rightarrow> string \<rightharpoonup> string \<times> date_time) \<Rightarrow> 'w \<Rightarrow> string \<Rightarrow> string option" where
  "live clock entries w k =
     (case entries w k of Some (v, t) \<Rightarrow> if clock w < t then Some v else None | None \<Rightarrow> None)"

definition entry_set ::
    "('w \<Rightarrow> date_time) \<Rightarrow> ('w \<Rightarrow> string \<rightharpoonup> string \<times> date_time) \<Rightarrow> string \<Rightarrow> string \<Rightarrow> nat \<Rightarrow> 'w \<Rightarrow> 'w \<Rightarrow> bool" where
  "entry_set clock entries k v n w w' \<longleftrightarrow> live clock entries w k = None \<and>
     entries w' = (entries w)(k \<mapsto> (v, clock w + int n * 1000000000))"

definition redis_keys :: "'w redis \<Rightarrow> ('w \<Rightarrow> date_time) \<Rightarrow> ('w \<Rightarrow> string \<rightharpoonup> string \<times> date_time) \<Rightarrow> bool" where
  "redis_keys R clock entries \<longleftrightarrow>
     (\<forall>k v n w r w'. rd_set_nx_ex R k v n w = (r, w') \<longrightarrow> clock w' = clock w \<and>
        (case r of
           Inr (Some _) \<Rightarrow> entry_set clock entries k v n w w'
         | Inr None \<Rightarrow> live clock entries w k \<noteq> None \<and> entries w' = entries w
         | Inl _ \<Rightarrow> entries w' = entries w \<or> entry_set clock entries k v n w w')) \<and>
     (\<forall>k w. rd_get R k w = live clock entries w k) \<and>
     (\<forall>k w n w'. rd_del R k w = (n, w') \<longrightarrow> clock w' = clock w \<and> entries w' = (entries w)(k := None)) \<and>
     (\<forall>script w r w'. rd_invoke R script w = (r, w') \<longrightarrow>
        (case r of Inr n \<Rightarrow> script w = (n, w') | Inl _ \<Rightarrow> w' = w \<or> w' = snd (script w)))"

definition redis_lists :: "'w redis \<Rightarrow> ('w \<Rightarrow> string \<Rightarrow> string list) \<Rightarrow> bool" where
  "redis_lists R queues \<longleftrightarrow>
     (\<forall>k x w r w'. rd_lpush R k x w = (r, w') \<longrightarrow>
        (case r of
           Inr _ \<Rightarrow> queues w' = (queues w)(k := x # queues w k)
         | Inl _ \<Rightarrow> queues w' = queues w \<or> queues w' = (queues w)(k := x # queues w k))) \<and>
     (\<forall>k w r w'. rd_rpop R k w = (Inr r, w') \<longrightarrow>
        (if queues w k = [] then r = None \<and> queues w' = queues w
         else r = Some (last (queues w k)) \<and> queues w' = (queues w)(k := butlast (queues w k))))"

section \<open>Interleaved calls\<close>

datatype lock_call =
    Acquire valkey_lock_provider string "bool res"
  | Release valkey_lock_provider string "unit res"
  | Elapse

text \<open>While time passes, the server may drop keys that have expired.\<close>

inductive lock_step ::
    "'w redis \<Rightarrow> ('w \<Rightarrow> date_time) \<Rightarrow> ('w \<Rightarrow> string \<rightharpoonup> string \<times> date_time) \<Rightarrow> 'w \<Rightarrow> lock_call \<Rightarrow> 'w \<Rightarrow> bool"
  for R clock entries where
  acquire: "valkey_acquire R p r w = (b, w') \<Longrightarrow> lock_step R clock entries w (Acquire p r b) w'"
| release: "valkey_release R p r w = (u, w') \<Longrightarrow> lock_step R clock entries w (Release p r u) w'"
| elapse: "clock w \<le> clock w' \<Longrightarrow>
    \<forall>k. entries w' k = entries w k \<or> entries w' k = None \<and> live clock entries w' k = None \<and>
        (\<forall>v t. entries w k = Some (v, t) \<longrightarrow> t \<le> clock w') \<Longrightarrow>
    lock_step R clock entries w Elapse w'"

inductive_cases lock_stepE: "lock_step R clock entries w c w'"

inductive lock_steps ::
    "'w redis \<Rightarrow> ('w \<Rightarrow> date_time) \<Rightarrow> ('w \<Rightarrow> string \<rightharpoonup> string \<times> date_time) \<Rightarrow> 'w \<Rightarrow> lock_call list \<Rightarrow> 'w \<Rightarrow> bool"
  for R clock entries where
  no_steps: "lock_steps R clock entries w [] w"
| more_steps: "lock_step R clock entries w c w' \<Longrightarrow> lock_steps R clock entries w' cs w'' \<Longrightarrow>
    lock_steps R clock entries w (c # cs) w''"

lemma lock_key_eq [simp]:
  "vl_prefix p = vl_prefix q \<Longrightarrow> lock_key p r = lock_key q r' \<longleftrightarrow> r = r'"
  by (simp add: lock_key_def)

lemma set_nx_ex_cases:
  assumes "redis_keys R clock entries" and "rd_set_nx_ex R k v n w = (r, w')"
  shows "clock w' = clock w"
    and "r = Inr (Some x) \<Longrightarrow> entry_set clock entries k v n w w'"
    and "r = Inr None \<Longrightarrow> live clock entries w k \<noteq> None \<and> entries w' = entries w"
    and "entries w' = entries w \<or> entry_set clock entries k v n w w'"
  using assms(1)[unfolded redis_keys_def, THEN conjunct1, rule_format, OF assms(2)]
  by (auto split: sum.splits option.splits)

lemma valkey_acquireE:
  assumes "valkey_acquire R p r w = (b, w')"
  obtains a where "rd_set_nx_ex R (lock_key p r) (vl_instance_id p) (as_secs (vl_lock_duration p)) w = (a, w')"
    and "b = map_sum Persistence (\<lambda>answer. answer \<noteq> None) a"
  using assms by (auto simp: valkey_acquire_def split: prod.splits sum.splits)

lemma acquire_True:
  assumes "redis_keys R clock entries" and "valkey_acquire R p r w = (Inr True, w')"
  shows "clock w' = clock w \<and> live clock entries w (lock_key p r) = None \<and>
    entries w' = (entries w)(lock_key p r \<mapsto>
      (vl_instance_id p, clock w + int (as_secs (vl_lock_duration p)) * 1000000000))"
  using assms(2)
proof (rule valkey_acquireE)
  fix a
  assume "rd_set_nx_ex R (lock_key p r) (vl_instance_id p) (as_secs (vl_lock_duration p)) w = (a, w')"
    and "Inr True = map_sum Persistence (\<lambda>answer. answer \<noteq> None) a"
  then show ?thesis
    using set_nx_ex_cases(1,2)[OF assms(1)] by (cases a) (auto simp: entry_set_def)
qed

lemma acquire_False:
  assumes "redis_keys R clock entries" and "valkey_acquire R p r w = (Inr False, w')"
  shows "clock w' = clock w \<and> live clock entries w (lock_key p r) \<noteq> None \<and> entries w' = entries w"
  using assms(2)
proof (rule valkey_acquireE)
  fix a
  assume "rd_set_nx_ex R (lock_key p r) (vl_instance_id p) (as_secs (vl_lock_duration p)) w = (a, w')"
    and "Inr False = map_sum Persistence (\<lambda>answer. answer \<noteq> None) a"
  then show ?thesis
    using set_nx_ex_cases(1,3)[OF assms(1)] by (cases a) auto
qed

text \<open>However a call ends, a key that is live keeps its value and its deadline.\<close>

lemma acquire_keeps:
  assumes "redis_keys R clock entries" and "valkey_acquire R p r w = (b, w')"
  shows "clock w' = clock w \<and> (live clock entries w k \<noteq> None \<longrightarrow> entries w' k = entries w k)"
  using assms(2)
proof (rule valkey_acquireE)
  fix a
  assume "rd_set_nx_ex R (lock_key p r) (vl_instance_id p) (as_secs (vl_lock_duration p)) w = (a, w')"
  from set_nx_ex_cases(1,4)[OF assms(1) this] show ?thesis by (auto simp: entry_set_def)
qed

lemma release_effect:
  assumes "redis_keys R clock entries" and "valkey_release R p r w = (u, w')"
  shows "clock w' = clock w"
    and "entries w' = entries w \<or>
         live clock entries w (lock_key p r) = Some (vl_instance_id p) \<and> entries w' = (entries w)(lock_key p r := None)"
    and "u = Inr () \<Longrightarrow> live clock entries w (lock_key p r) = Some (vl_instance_id p) \<Longrightarrow>
         entries w' = (entries w)(lock_key p r := None)"
proof -
  let ?s = "release_script R (lock_key p r) (vl_instance_id p)"
  obtain n where inv: "w' = w \<and> isl u \<or> (n, w') = ?s w"
    using assms(2) assms(1)[unfolded redis_keys_def, THEN conjunct2, THEN conjunct2, THEN conjunct2, rule_format, of ?s w]
    by (cases "?s w") (auto simp: valkey_release_def split: prod.splits sum.splits)
  have del: "rd_del R k w1 = (m, w2) \<Longrightarrow> clock w2 = clock w1 \<and> entries w2 = (entries w1)(k := None)" for k w1 m w2
    using assms(1) unfolding redis_keys_def by blast
  have get: "rd_get R k w1 = live clock entries w1 k" for k w1
    using assms(1) unfolding redis_keys_def by blast
  from inv show "clock w' = clock w"
    by (auto simp: release_script_def dest: del split: if_splits dest: sym[of "(n, w')"])
  from inv show "entries w' = entries w \<or>
      live clock entries w (lock_key p r) = Some (vl_instance_id p) \<and> entries w' = (entries w)(lock_key p r := None)"
    by (auto simp: release_script_def get dest: del split: if_splits dest: sym[of "(n, w')"])
  assume "u = Inr ()" and "live clock entries w (lock_key p r) = Some (vl_instance_id p)"
  with inv show "entries w' = (entries w)(lock_key p r := None)"
    by (auto simp: release_script_def get dest!: sym[of "(n, w')"] dest: del)
qed

lemma lock_step_clock:
  assumes "redis_keys R clock entries" and "lock_step R clock entries w c w'"
  shows "clock w \<le> clock w'"
  using assms(2) acquire_keeps[OF assms(1)] release_effect(1)[OF assms(1)]
  by (cases rule: lock_step.cases) (simp_all add: order_eq_refl)

lemma lock_steps_clock:
  assumes "redis_keys R clock entries" and "lock_steps R clock entries w cs w'"
  shows "clock w \<le> clock w'"
  using assms(2)
proof (induction rule: lock_steps.induct)
  case (more_steps w c w' cs w'')
  then show ?case using lock_step_clock[OF assms(1) more_steps(1)] by simp
qed simp

definition releases_not :: "valkey_lock_provider \<Rightarrow> string \<Rightarrow> lock_call \<Rightarrow> bool" where
  "releases_not p r c =
     (case c of Release q r' _ \<Rightarrow> vl_instance_id q = vl_instance_id p \<longrightarrow> q = p \<and> r' \<noteq> r | _ \<Rightarrow> True)"

text \<open>Until its deadline, and unless its holder releases it, nothing changes the entry of a lock.\<close>

lemma held_step:
  assumes "redis_keys R clock entries" and "lock_step R clock entries w c w'" and "releases_not p r c"
    and "entries w (lock_key p r) = Some (vl_instance_id p, t)" and "clock w' < t"
  shows "entries w' (lock_key p r) = entries w (lock_key p r)"
  using assms(2)
proof (cases rule: lock_step.cases)
  case (acquire q r' b)
  have "live clock entries w (lock_key p r) \<noteq> None"
    using assms(4,5) lock_step_clock[OF assms(1,2)] by (simp add: live_def)
  then show ?thesis using acquire_keeps[OF assms(1) acquire(2)] by blast
next
  case (release q r' u)
  have "lock_key q r' = lock_key p r \<Longrightarrow> vl_instance_id q \<noteq> vl_instance_id p"
    using assms(3) release(1) by (auto simp: releases_not_def)
  then show ?thesis
    using release_effect(2)[OF assms(1) release(2)] assms(4) by (auto simp: live_def split: if_splits)
next
  case elapse
  then show ?thesis using assms(4,5) by (metis linorder_not_less)
qed

lemma held_steps:
  assumes "redis_keys R clock entries" and "lock_steps R clock entries w cs w'"
    and "\<forall>c \<in> set cs. releases_not p r c"
    and "entries w (lock_key p r) = Some (vl_instance_id p, t)" and "clock w' < t"
  shows "entries w' (lock_key p r) = Some (vl_instance_id p, t)"
  using assms(2-5)
proof (induction rule: lock_steps.induct)
  case (more_steps w c w' cs w'')
  have "clock w' < t" using lock_steps_clock[OF assms(1) more_steps(2)] more_steps.prems(3) by simp
  with more_steps held_step[OF assms(1) more_steps(1), of p r t] show ?case by simp
qed simp

section \<open>Properties\<close>

text \<open>
  C10: mutual exclusion over Valkey. Once a provider has acquired a resource, then whatever calls any
  number of providers make on the shared server, in whatever order and with whatever outcome, no
  acquisition of the resource succeeds until the holder releases it or the lock duration, counted in
  whole seconds, has passed; providers with another instance id cannot release it; and after
  the holder's release the next acquisition that gets an answer succeeds.
\<close>

theorem valkey_mutual_exclusion:
  assumes "redis_keys R clock entries" and "valkey_acquire R p r w = (Inr True, w1)"
    and "lock_steps R clock entries w1 cs w2" and "\<forall>c \<in> set cs. releases_not p r c"
    and "clock w2 < clock w + int (as_secs (vl_lock_duration p)) * 1000000000"
    and "vl_prefix q = vl_prefix p"
  shows "rd_get R (lock_key p r) w2 = Some (vl_instance_id p) \<and>
    fst (valkey_acquire R q r w2) \<noteq> Inr True \<and>
    (\<forall>w3 b w4. valkey_release R p r w2 = (Inr (), w3) \<and> valkey_acquire R q r w3 = (Inr b, w4) \<longrightarrow> b)"
proof -
  note redis = assms(1)
  let ?t = "clock w + int (as_secs (vl_lock_duration p)) * 1000000000"
  have key: "lock_key q r = lock_key p r" using assms(6) by simp
  have "entries w1 (lock_key p r) = Some (vl_instance_id p, ?t)"
    using acquire_True[OF redis assms(2)] by simp
  from held_steps[OF redis assms(3,4) this assms(5)] assms(5)
  have live: "live clock entries w2 (lock_key p r) = Some (vl_instance_id p)" by (simp add: live_def)
  have "fst (valkey_acquire R q r w2) \<noteq> Inr True"
    using acquire_True[OF redis, of q r w2] live key by (cases "valkey_acquire R q r w2") auto
  moreover have "b" if "valkey_release R p r w2 = (Inr (), w3)" and "valkey_acquire R q r w3 = (Inr b, w4)" for w3 b w4
  proof (rule ccontr)
    assume "\<not> b"
    with acquire_False[OF redis, of q r w3 w4] that(2) key have "live clock entries w3 (lock_key p r) \<noteq> None" by simp
    moreover have "entries w3 (lock_key p r) = None" using release_effect(3)[OF redis that(1) refl live] by simp
    ultimately show False by (simp add: live_def)
  qed
  ultimately show ?thesis using redis live by (auto simp: redis_keys_def)
qed

lemma queue_key_eq [simp]: "queue_key pre t = queue_key pre t' \<longleftrightarrow> t = t'"
  by (cases t; cases t') (simp_all add: queue_key_def)

lemma lpush_cases:
  assumes "redis_lists R queues" and "rd_lpush R k x w = (r, w')"
  shows "queues w' = (queues w)(k := x # queues w k) \<or> isl r \<and> queues w' = queues w"
  using assms(1)[unfolded redis_lists_def, THEN conjunct1, rule_format, OF assms(2)]
  by (auto split: sum.splits)

lemma rpop_cases:
  assumes "redis_lists R queues" and "rd_rpop R k w = (Inr r, w')"
  shows "if queues w k = [] then r = None \<and> queues w' = queues w
    else r = Some (last (queues w k)) \<and> queues w' = (queues w)(k := butlast (queues w k))"
  using assms unfolding redis_lists_def by blast

lemma valkey_queue_work_cases:
  assumes "redis_lists R queues" and "queue_work (valkey_queue R pre) i t w = (r, w')"
  shows "(\<lambda>t. rev (queues w' (queue_key pre t))) =
      (\<lambda>t. rev (queues w (queue_key pre t)))(t := rev (queues w (queue_key pre t)) @ [i]) \<or>
    isl r \<and> queues w' = queues w"
  using assms(2) lpush_cases[OF assms(1), of "queue_key pre t" i w]
  by (cases "rd_lpush R (queue_key pre t) i w")
    (auto simp: valkey_queue_def valkey_queue_work_def fun_eq_iff split: sum.splits)

text \<open>
  The Valkey queues are the queues the executor and the host rely on: over a server with the
  documented lists, an identifier pushed on the left is popped on the right after all that were pushed
  before it, and the three queues do not disturb each other.
\<close>

theorem valkey_queue_refines:
  assumes "redis_lists R queues"
  shows "queue_contract (valkey_queue R pre) (\<lambda>w t. rev (queues w (queue_key pre t)))"
proof
  fix i t u w w'
  assume "queue_work (valkey_queue R pre) i t w = (Inr u, w')"
  from valkey_queue_work_cases[OF assms this] show "(\<lambda>t. rev (queues w' (queue_key pre t))) =
      (\<lambda>t. rev (queues w (queue_key pre t)))(t := rev (queues w (queue_key pre t)) @ [i])" by simp
next
  fix i t e w w'
  assume "queue_work (valkey_queue R pre) i t w = (Inl e, w')"
  from valkey_queue_work_cases[OF assms this]
  show "(\<lambda>t. rev (queues w' (queue_key pre t))) = (\<lambda>t. rev (queues w (queue_key pre t))) \<or>
      (\<lambda>t. rev (queues w' (queue_key pre t))) =
      (\<lambda>t. rev (queues w (queue_key pre t)))(t := rev (queues w (queue_key pre t)) @ [i])" by auto
next
  fix t r w w'
  assume "dequeue_work (valkey_queue R pre) t w = (Inr r, w')"
  then have "rd_rpop R (queue_key pre t) w = (Inr r, w')"
    by (auto simp: valkey_queue_def valkey_dequeue_work_def split: prod.splits sum.splits)
  from rpop_cases[OF assms this]
  show "case rev (queues w (queue_key pre t)) of
      [] \<Rightarrow> r = None \<and> (\<lambda>t. rev (queues w' (queue_key pre t))) = (\<lambda>t. rev (queues w (queue_key pre t)))
    | i # is \<Rightarrow> r = Some i \<and> (\<lambda>t. rev (queues w' (queue_key pre t))) = (\<lambda>t. rev (queues w (queue_key pre t)))(t := is)"
    by (cases "queues w (queue_key pre t)" rule: rev_cases) (auto simp: fun_eq_iff)
qed

section \<open>A server\<close>

text \<open>A server that executes the commands on finite maps and never fails.\<close>

record redis_memory =
  rm_clock :: date_time
  rm_entries :: "string \<rightharpoonup> string \<times> date_time"
  rm_lists :: "string \<Rightarrow> string list"

definition memory_redis :: "redis_memory redis" where
  "memory_redis = \<lparr>
     rd_set_nx_ex = (\<lambda>k v n w. if live rm_clock rm_entries w k = None
        then (Inr (Some ''OK''), w\<lparr>rm_entries := (rm_entries w)(k \<mapsto> (v, rm_clock w + int n * 1000000000))\<rparr>)
        else (Inr None, w)),
     rd_get = (\<lambda>k w. live rm_clock rm_entries w k),
     rd_del = (\<lambda>k w. (1, w\<lparr>rm_entries := (rm_entries w)(k := None)\<rparr>)),
     rd_invoke = (\<lambda>script w. case script w of (n, w') \<Rightarrow> (Inr n, w')),
     rd_lpush = (\<lambda>k x w. (Inr (int (length (rm_lists w k)) + 1), w\<lparr>rm_lists := (rm_lists w)(k := x # rm_lists w k)\<rparr>)),
     rd_rpop = (\<lambda>k w. if rm_lists w k = [] then (Inr None, w)
        else (Inr (Some (last (rm_lists w k))), w\<lparr>rm_lists := (rm_lists w)(k := butlast (rm_lists w k))\<rparr>)),
     rd_publish = (\<lambda>_ _ w. (Inr 0, w))\<rparr>"

lemma memory_redis_keys: "redis_keys memory_redis rm_clock rm_entries"
  by (auto simp: redis_keys_def memory_redis_def entry_set_def live_def split: if_splits prod.splits)

lemma memory_redis_lists: "redis_lists memory_redis rm_lists"
  by (auto simp: redis_lists_def memory_redis_def)

interpretation memory_valkey: queue_contract "valkey_queue memory_redis pre"
    "\<lambda>w t. rev (rm_lists w (queue_key pre t))" for pre
  by (rule valkey_queue_refines[OF memory_redis_lists])

abbreviation empty_memory :: redis_memory where
  "empty_memory \<equiv> \<lparr>rm_clock = 0, rm_entries = Map.empty, rm_lists = \<lambda>_. []\<rparr>"

abbreviation node :: "string \<Rightarrow> valkey_lock_provider" where
  "node u \<equiv> valkey_lock_new ''wfe'' u"

abbreviation after_first :: redis_memory where
  "after_first \<equiv> empty_memory\<lparr>rm_entries := [''wfe:lock:i'' \<mapsto> (''a'', 30000000000)]\<rparr>"

lemma first_acquires: "valkey_acquire memory_redis (node ''a'') ''i'' empty_memory = (Inr True, after_first)"
  by (simp add: valkey_acquire_def memory_redis_def valkey_lock_new_def lock_key_def live_def as_secs_def)

lemma elapse_memory:
  "rm_clock w \<le> t \<Longrightarrow> lock_step memory_redis rm_clock rm_entries w Elapse (w\<lparr>rm_clock := t\<rparr>)"
  by (rule lock_step.elapse) simp_all

text \<open>Ten seconds later the second node has tried to release the lock and to acquire it.\<close>

theorem valkey_mutual_exclusion_witness:
  "rd_get memory_redis ''wfe:lock:i'' (after_first\<lparr>rm_clock := 10000000000\<rparr>) = Some ''a'' \<and>
   fst (valkey_acquire memory_redis (node ''b'') ''i'' (after_first\<lparr>rm_clock := 10000000000\<rparr>)) \<noteq> Inr True"
proof -
  let ?w = "after_first\<lparr>rm_clock := 10000000000\<rparr>"
  have rel: "valkey_release memory_redis (node ''b'') ''i'' ?w = (Inr (), ?w)"
    by (simp add: valkey_release_def release_script_def memory_redis_def valkey_lock_new_def lock_key_def live_def)
  have "lock_steps memory_redis rm_clock rm_entries after_first [Elapse, Release (node ''b'') ''i'' (Inr ())] ?w"
    by (rule lock_steps.more_steps[OF elapse_memory lock_steps.more_steps[OF lock_step.release[OF rel]
      lock_steps.no_steps]]) simp
  from valkey_mutual_exclusion[OF memory_redis_keys first_acquires this, of "node ''b''"]
  show ?thesis by (simp add: releases_not_def valkey_lock_new_def as_secs_def lock_key_def)
qed

theorem valkey_queue_refines_witness:
  "queue_contract (valkey_queue memory_redis ''wfe'') (\<lambda>w t. rev (rm_lists w (queue_key ''wfe'' t)))"
  using valkey_queue_refines[OF memory_redis_lists] .

text \<open>
  The lease is never renewed: a provider that is still at work when the lock duration has passed
  loses the lock without noticing, and a second provider acquires it.
\<close>

lemma lease_expires_at_work:
  "\<exists>w1 w2 w3. valkey_acquire memory_redis (node ''a'') ''i'' empty_memory = (Inr True, w1) \<and>
     lock_steps memory_redis rm_clock rm_entries w1 [Elapse] w2 \<and>
     valkey_acquire memory_redis (node ''b'') ''i'' w2 = (Inr True, w3)"
proof (intro exI conjI)
  show "valkey_acquire memory_redis (node ''a'') ''i'' empty_memory = (Inr True, after_first)"
    by (rule first_acquires)
  show "lock_steps memory_redis rm_clock rm_entries after_first [Elapse] (after_first\<lparr>rm_clock := 30000000000\<rparr>)"
    by (rule lock_steps.more_steps[OF elapse_memory lock_steps.no_steps]) simp
  show "valkey_acquire memory_redis (node ''b'') ''i'' (after_first\<lparr>rm_clock := 30000000000\<rparr>) =
      (Inr True, after_first\<lparr>rm_clock := 30000000000, rm_entries := [''wfe:lock:i'' \<mapsto> (''b'', 60000000000)]\<rparr>)"
    by (simp add: valkey_acquire_def memory_redis_def valkey_lock_new_def lock_key_def live_def as_secs_def)
qed

end
