(* ===== verification/Step_Outputs.thy ===== *)
theory Step_Outputs
  imports Json "HOL-Library.AList"
begin

text \<open>
  The output protocol of steps that run a program: a line \<open>##wfe[output name=value]\<close> on standard output
  sets a field of the workflow data. Three executors read it: the shell executor
  (\<open>wfe-yaml/src/executors/shell.rs\<close>), containerd (\<open>wfe-containerd/src/step.rs\<close>) and Kubernetes
  (\<open>wfe-kubernetes/src/output.rs\<close>). The theory has the three readers, the conversions of the standard
  library they use, and what a program can rely on with each of them.
\<close>

section \<open>Lines and numbers\<close>

text \<open>\<open>str::lines\<close>: a line ends at a newline, which is removed together with a carriage return before it.\<close>

definition chop_cr :: "string \<Rightarrow> string" where
  "chop_cr l = (if l \<noteq> [] \<and> last l = CHR 0x0D then butlast l else l)"

definition str_lines :: "string \<Rightarrow> string list" where
  "str_lines s =
     (let ps = split_on (CHR 0x0A) s
      in map chop_cr (butlast ps) @ (if last ps = [] then [] else [last ps]))"

text \<open>The two sides of the first equality sign (\<open>find\<close> and the slices around it).\<close>

definition split_at_eq :: "string \<Rightarrow> (string \<times> string) option" where
  "split_at_eq s =
     (case dropWhile (\<lambda>c. c \<noteq> CHR ''='') s of
        [] \<Rightarrow> None | _ # v \<Rightarrow> Some (takeWhile (\<lambda>c. c \<noteq> CHR ''='') s, v))"

text \<open>\<open>str::parse::<i64>\<close>.\<close>

definition parse_i64 :: "string \<Rightarrow> int option" where
  "parse_i64 s =
     (let (neg, digits) = (case s of
            c # r \<Rightarrow> if c = CHR ''-'' then (True, r) else if c = CHR ''+'' then (False, r) else (False, s)
          | [] \<Rightarrow> (False, []));
          n = int (decimal_value digits); i = (if neg then - n else n)
      in if digits \<noteq> [] \<and> list_all is_digit digits \<and> - (2 ^ 63) \<le> i \<and> i < 2 ^ 63 then Some i else None)"

text \<open>
  \<open>str::parse::<f64>\<close>. A number is the double nearest to the decimal value, ties to even: with the
  scale \<open>2 ^ sh\<close> the significand has 53 bits, or fewer at the bottom of the range. What is not a
  number is \<open>inf\<close>, \<open>infinity\<close> or \<open>nan\<close> in any case, and a value that is too large is infinite.
\<close>

datatype f64 = Finite rat | NonFinite

definition div_even :: "nat \<Rightarrow> nat \<Rightarrow> nat" where
  "div_even a b = (let q = a div b; r = a mod b in if b < 2 * r \<or> (b = 2 * r \<and> odd q) then Suc q else q)"

definition f64_of_ratio :: "nat \<Rightarrow> nat \<Rightarrow> f64" where
  "f64_of_ratio a b =
     (if a = 0 then Finite 0
      else let e0 = int (bit_length a) - int (bit_length b);
               low = (if 0 \<le> e0 then a < b * 2 ^ nat e0 else a * 2 ^ nat (- e0) < b);
               e = (if low then e0 - 1 else e0);
               sh = max (e - 52) (- 1074);
               m = (if 0 \<le> sh then div_even a (b * 2 ^ nat sh) else div_even (a * 2 ^ nat (- sh)) b);
               q = (if 0 \<le> sh then rat_of_nat (m * 2 ^ nat sh) else rat_of_nat m / 2 ^ nat (- sh))
           in if 2 ^ 1024 \<le> q then NonFinite else Finite q)"

definition to_lowercase :: "string \<Rightarrow> string" where
  "to_lowercase = map (\<lambda>c. if is_upper c then char_of ((of_char c :: nat) + 32) else c)"

definition to_uppercase :: "string \<Rightarrow> string" where
  "to_uppercase = map (\<lambda>c. if is_lower c then char_of ((of_char c :: nat) - 32) else c)"

definition parse_exponent :: "string \<Rightarrow> int option" where
  "parse_exponent s =
     (case s of
        [] \<Rightarrow> Some 0
      | c # r \<Rightarrow>
          (if c = CHR ''e'' \<or> c = CHR ''E'' then
             (let (neg, digits) = (case r of
                    d # r' \<Rightarrow> if d = CHR ''-'' then (True, r') else if d = CHR ''+'' then (False, r') else (False, r)
                  | [] \<Rightarrow> (False, []))
              in if digits \<noteq> [] \<and> list_all is_digit digits
                 then Some (if neg then - int (decimal_value digits) else int (decimal_value digits)) else None)
           else None))"

definition parse_unsigned_f64 :: "string \<Rightarrow> f64 option" where
  "parse_unsigned_f64 s =
     (if to_lowercase s \<in> {''inf'', ''infinity'', ''nan''} then Some NonFinite
      else let whole = takeWhile is_digit s; r = dropWhile is_digit s;
               (frac, r) = (case r of
                   c # r' \<Rightarrow> if c = CHR ''.'' then (takeWhile is_digit r', dropWhile is_digit r') else ([], r)
                 | [] \<Rightarrow> ([], []))
           in if whole = [] \<and> frac = [] then None
              else map_option (\<lambda>e. let m = decimal_value (whole @ frac); e = e - int (length frac)
                                  in if 0 \<le> e then f64_of_ratio (m * 10 ^ nat e) 1 else f64_of_ratio m (10 ^ nat (- e)))
                     (parse_exponent r))"

definition f64_neg :: "f64 \<Rightarrow> f64" where
  "f64_neg x = (case x of Finite q \<Rightarrow> Finite (- q) | NonFinite \<Rightarrow> NonFinite)"

definition parse_f64 :: "string \<Rightarrow> f64 option" where
  "parse_f64 s =
     (case s of
        c # r \<Rightarrow> if c = CHR ''-'' then map_option f64_neg (parse_unsigned_f64 r)
                else parse_unsigned_f64 (if c = CHR ''+'' then r else s)
      | [] \<Rightarrow> None)"

text \<open>\<open>Number::from(i64)\<close>, and \<open>json!\<close> of a double: \<open>null\<close> unless it is finite.\<close>

definition json_of_i64 :: "int \<Rightarrow> json" where
  "json_of_i64 i = JNumber (if i < 0 then NegInt (word_of_int i) else PosInt (word_of_int i))"

definition json_of_f64 :: "f64 \<Rightarrow> json" where
  "json_of_f64 x = (case x of Finite q \<Rightarrow> JNumber (Float q) | NonFinite \<Rightarrow> JNull)"

section \<open>The readers\<close>

text \<open>The common core: the name and the raw text of an output line.\<close>

definition output_line :: "string \<Rightarrow> (string \<times> string) option" where
  "output_line line =
     and_then (and_then (strip_prefix_str ''##wfe[output '' line) (strip_suffix_str '']'')) (\<lambda>rest.
       map_option (\<lambda>(name, v). (trim name, v)) (split_at_eq rest))"

definition shell_value :: "string \<Rightarrow> json" where
  "shell_value raw =
     (if raw = ''true'' then JBool True
      else if raw = ''false'' then JBool False
      else if raw = ''null'' then JNull
      else case parse_i64 raw of
             Some i \<Rightarrow> json_of_i64 i
           | None \<Rightarrow> (case parse_f64 raw of Some x \<Rightarrow> json_of_f64 x | None \<Rightarrow> JString raw))"

definition shell_outputs :: "string \<Rightarrow> json_map" where
  "shell_outputs stdout =
     fold (\<lambda>line outputs. case output_line line of
             Some (name, raw) \<Rightarrow> obj_insert name (shell_value raw) outputs
           | None \<Rightarrow> outputs) (str_lines stdout) []"

definition ctr_parse_outputs :: "string \<Rightarrow> (string \<times> string) list" where
  "ctr_parse_outputs stdout =
     fold (\<lambda>line outputs. case output_line line of
             Some (name, v) \<Rightarrow> AList.update name v outputs
           | None \<Rightarrow> outputs) (str_lines stdout) []"

definition step_fields :: "string \<Rightarrow> string \<Rightarrow> string \<Rightarrow> int \<Rightarrow> json_map \<Rightarrow> json_map" where
  "step_fields name stdout stderr exit_code outputs =
     obj_insert (name @ ''.exit_code'') (json_of_i64 exit_code)
       (obj_insert (name @ ''.stderr'') (JString stderr)
         (obj_insert (name @ ''.stdout'') (JString stdout) outputs))"

definition ctr_build_output_data :: "string \<Rightarrow> string \<Rightarrow> string \<Rightarrow> int \<Rightarrow> (string \<times> string) list \<Rightarrow> json" where
  "ctr_build_output_data name stdout stderr exit_code parsed =
     JObject (step_fields name stdout stderr exit_code (fold (\<lambda>(k, v). obj_insert k (JString v)) parsed []))"

definition k8s_parse_outputs :: "string \<Rightarrow> (string \<times> string) list" where
  "k8s_parse_outputs stdout =
     fold (\<lambda>line outputs. case output_line (trim line) of
             Some (name, v) \<Rightarrow> if name \<noteq> [] then AList.update name v outputs else outputs
           | None \<Rightarrow> outputs) (str_lines stdout) []"

text \<open>\<open>from_str\<close> is \<open>serde_json::from_str\<close>.\<close>

definition k8s_build_output_data ::
    "(string \<Rightarrow> json option) \<Rightarrow> string \<Rightarrow> string \<Rightarrow> string \<Rightarrow> int \<Rightarrow> (string \<times> string) list \<Rightarrow> json" where
  "k8s_build_output_data from_str name stdout stderr exit_code parsed =
     JObject (step_fields name stdout stderr exit_code
       (fold (\<lambda>(k, v). obj_insert k (unwrap_or (from_str v) (JString v))) parsed []))"

section \<open>Lemmas\<close>

lemma split_on_line: "CHR 0x0A \<notin> set l \<Longrightarrow> split_on (CHR 0x0A) (l @ CHR 0x0A # s) = l # split_on (CHR 0x0A) s"
  by (induction l) auto

lemma str_lines_line:
  assumes "CHR 0x0A \<notin> set l"
  shows "str_lines (l @ CHR 0x0A # s) = chop_cr l # str_lines s"
  using assms by (simp add: str_lines_def split_on_line Let_def)

lemma str_lines_Nil [simp]: "str_lines [] = []"
  by (simp add: str_lines_def)

lemma chop_cr_id: "CHR 0x0D \<notin> set l \<Longrightarrow> chop_cr l = l"
  by (metis chop_cr_def last_in_set)

text \<open>A program that prints lines is read line by line.\<close>

definition print_lines :: "string list \<Rightarrow> string" where
  "print_lines ls = concat (map (\<lambda>l. l @ [CHR 0x0A]) ls)"

definition one_line :: "string \<Rightarrow> bool" where
  "one_line l \<longleftrightarrow> CHR 0x0A \<notin> set l \<and> CHR 0x0D \<notin> set l"

lemma str_lines_print: "\<forall>l \<in> set ls. one_line l \<Longrightarrow> str_lines (print_lines ls) = ls"
proof (induction ls)
  case (Cons l ls)
  then show ?case
    using str_lines_line[of l "print_lines ls"] by (simp add: print_lines_def one_line_def chop_cr_id)
qed (simp add: print_lines_def)

lemma split_at_eq_append: "CHR ''='' \<notin> set k \<Longrightarrow> split_at_eq (k @ CHR ''='' # v) = Some (k, v)"
  by (subst split_at_eq_def, subst dropWhile_append2, blast, subst takeWhile_append2, blast) simp

definition output_report :: "string \<Rightarrow> string \<Rightarrow> string" where
  "output_report k v = ''##wfe[output '' @ k @ ''='' @ v @ '']''"

lemma output_line_report:
  assumes "CHR ''='' \<notin> set k"
  shows "output_line (output_report k v) = Some (trim k, v)"
proof -
  have "strip_prefix_str ''##wfe[output '' (output_report k v) = Some (k @ CHR ''='' # v @ '']'')"
    by (simp add: strip_prefix_Some output_report_def)
  moreover have "strip_suffix_str '']'' (k @ CHR ''='' # v @ '']'') = Some (k @ CHR ''='' # v)"
    by (simp add: strip_suffix_Some)
  ultimately show ?thesis using assms by (simp add: output_line_def split_at_eq_append)
qed

lemma trim_report [simp]: "trim (output_report k v) = output_report k v"
  by (simp add: trim_def trim_start_def trim_end_def output_report_def is_space_def)

section \<open>What a program can rely on\<close>

text \<open>The lines of a program: reports, and lines that are not output lines for any reader.\<close>

datatype program_line = Report string string | Noise string

fun render :: "program_line \<Rightarrow> string" where
  "render (Report k v) = output_report k v"
| "render (Noise l) = l"

fun program_line_ok :: "program_line \<Rightarrow> bool" where
  "program_line_ok (Report k v) =
     (k \<noteq> [] \<and> trim k = k \<and> CHR ''='' \<notin> set k \<and> one_line k \<and> one_line v)"
| "program_line_ok (Noise l) = (one_line l \<and> output_line l = None \<and> output_line (trim l) = None)"

fun reports :: "program_line list \<Rightarrow> (string \<times> string) list" where
  "reports [] = []"
| "reports (Report k v # ls) = (k, v) # reports ls"
| "reports (Noise l # ls) = reports ls"

abbreviation program_output :: "program_line list \<Rightarrow> string" where
  "program_output ls \<equiv> print_lines (map render ls)"

lemma str_lines_program:
  assumes "\<forall>l \<in> set ls. program_line_ok l"
  shows "str_lines (program_output ls) = map render ls"
proof (rule str_lines_print)
  have "one_line (render l)" if "program_line_ok l" for l
    using that by (cases l) (auto simp: output_report_def one_line_def)
  with assms show "\<forall>l \<in> set (map render ls). one_line l" by auto
qed

text \<open>A reader that folds an insertion over the output lines sees the reports, the last one first.\<close>

lemma fold_reports:
  assumes "\<forall>l \<in> set ls. program_line_ok l"
    and "\<And>k v acc. look (ins k v acc) = (look acc)(k \<mapsto> f v)"
    and "\<And>l acc. program_line_ok l \<Longrightarrow> step (render l) acc = (case l of Report k v \<Rightarrow> ins k v acc | Noise _ \<Rightarrow> acc)"
  shows "look (fold step (map render ls) acc) k =
    (case map_of (rev (reports ls)) k of Some v \<Rightarrow> Some (f v) | None \<Rightarrow> look acc k)"
  using assms(1)
proof (induction ls arbitrary: acc)
  case (Cons l ls)
  from Cons.prems assms(3)[of l acc]
  have "step (render l) acc = (case l of Report k v \<Rightarrow> ins k v acc | Noise _ \<Rightarrow> acc)" by simp
  with Cons show ?case by (cases l) (auto simp: assms(2) map_add_def split: option.splits)
qed simp

lemma map_of_fold_insert:
  "distinct (map fst m) \<Longrightarrow>
   map_of (fold (\<lambda>(k, v). obj_insert k (f v)) m acc) k =
     (case map_of m k of Some v \<Rightarrow> Some (f v) | None \<Rightarrow> map_of acc k)"
  by (induction m arbitrary: acc) (auto split: option.splits dest: map_of_SomeD simp: rev_image_eqI)

lemma distinct_fold_update:
  "distinct (map fst acc) \<Longrightarrow>
   distinct (map fst (fold (\<lambda>x acc. case g x of Some (k, v) \<Rightarrow> if p k then AList.update k v acc else acc | None \<Rightarrow> acc) xs acc))"
  by (induction xs arbitrary: acc) (auto split: option.splits simp: distinct_update)

lemma distinct_parsed:
  "distinct (map fst (ctr_parse_outputs s))" "distinct (map fst (k8s_parse_outputs s))"
  using distinct_fold_update[of "[]" "\<lambda>_. True" output_line "str_lines s", unfolded if_True]
    distinct_fold_update[of "[]" "\<lambda>k. k \<noteq> []" "\<lambda>l. output_line (trim l)" "str_lines s"]
  by (simp_all add: ctr_parse_outputs_def k8s_parse_outputs_def)

lemma readers_map_of:
  assumes "\<forall>l \<in> set ls. program_line_ok l"
  shows "map_of (ctr_parse_outputs (program_output ls)) k = map_of (rev (reports ls)) k"
    and "map_of (k8s_parse_outputs (program_output ls)) k = map_of (rev (reports ls)) k"
    and "map_of (shell_outputs (program_output ls)) k = map_option shell_value (map_of (rev (reports ls)) k)"
  unfolding ctr_parse_outputs_def k8s_parse_outputs_def shell_outputs_def str_lines_program[OF assms]
  by (subst fold_reports[where f = "\<lambda>x. x" and look = map_of and ins = AList.update, OF assms]
      fold_reports[where f = shell_value and look = map_of and ins = "\<lambda>k v. obj_insert k (shell_value v)", OF assms];
      auto simp: output_line_report update_conv' split: option.splits program_line.splits)+

lemma map_of_step_fields:
  "k \<notin> {name @ ''.stdout'', name @ ''.stderr'', name @ ''.exit_code''} \<Longrightarrow>
   map_of (step_fields name out err code m) k = map_of m k"
  by (auto simp: step_fields_def)

text \<open>
  C24: the output protocol. When a program prints reports, each with a trimmed, non-empty name without an
  equality sign, between other lines, then for every name the last report counts, with all three
  executors: containerd stores its text, Kubernetes the JSON value the text denotes or else the text,
  and the shell executor the scalar the text denotes or else the text. Names that were not reported
  are not set, apart from the fields for the whole output of the step.
\<close>

theorem output_readers_agree:
  assumes "\<forall>l \<in> set ls. program_line_ok l"
    and "k \<notin> {name @ ''.stdout'', name @ ''.stderr'', name @ ''.exit_code''}"
  defines "out \<equiv> program_output ls" and "reported \<equiv> map_of (rev (reports ls)) k"
  shows "json_get (ctr_build_output_data name out err code (ctr_parse_outputs out)) k = map_option JString reported \<and>
    json_get (k8s_build_output_data from_str name out err code (k8s_parse_outputs out)) k =
      map_option (\<lambda>v. unwrap_or (from_str v) (JString v)) reported \<and>
    map_of (shell_outputs out) k = map_option shell_value reported"
  using assms(2) readers_map_of[OF assms(1)]
  by (simp add: ctr_build_output_data_def k8s_build_output_data_def map_of_step_fields
      map_of_fold_insert distinct_parsed out_def reported_def map_option_case split: option.splits)

theorem output_readers_agree_witness:
  "map_of (shell_outputs (program_output [Noise ''building'', Report ''n'' ''1'', Report ''n'' ''2''])) ''n'' =
     Some (JNumber (PosInt 2))"
  using output_readers_agree[of "[Noise ''building'', Report ''n'' ''1'', Report ''n'' ''2'']" "''n''" "''build''"]
  by (simp add: one_line_def output_line_def strip_prefix_str_def trim_def trim_start_def trim_end_def is_space_def
      shell_value_def parse_i64_def decimal_value_def digit_value_def is_digit_def json_of_i64_def)

text \<open>
  The three executors are said to share the protocol, but they store different values: a version number
  that is a text for containerd is a double for the shell executor, which has lost its last digit.
\<close>

lemma version_output_differs:
  "json_get (ctr_build_output_data ''s'' out err code (ctr_parse_outputs (program_output [Report ''v'' ''1.50'']))) ''v'' =
     Some (JString ''1.50'') \<and>
   map_of (shell_outputs (program_output [Report ''v'' ''1.50''])) ''v'' = Some (JNumber (Float (3 / 2)))"
proof
  have ok: "\<forall>l \<in> set [Report ''v'' ''1.50'']. program_line_ok l"
    by (simp add: one_line_def trim_def trim_start_def trim_end_def is_space_def)
  note r = readers_map_of[OF ok]
  show "json_get (ctr_build_output_data ''s'' out err code (ctr_parse_outputs (program_output [Report ''v'' ''1.50'']))) ''v'' =
     Some (JString ''1.50'')"
    using r(1) by (simp add: ctr_build_output_data_def map_of_step_fields map_of_fold_insert distinct_parsed)
  have "f64_of_ratio 150 100 = Finite (3 / 2)"
    by (simp add: f64_of_ratio_def bit_length.simps div_even_def Let_def)
  then have "parse_f64 ''1.50'' = Some (Finite (3 / 2))"
    by (simp add: is_digit_def parse_f64_def parse_unsigned_f64_def to_lowercase_def is_upper_def
        parse_exponent_def decimal_value_def digit_value_def)
  then have "shell_value ''1.50'' = JNumber (Float (3 / 2))"
    by (simp add: shell_value_def parse_i64_def is_digit_def json_of_f64_def)
  with r(3) show "map_of (shell_outputs (program_output [Report ''v'' ''1.50''])) ''v'' = Some (JNumber (Float (3 / 2)))"
    by simp
qed

end
