(* ===== verification/Shell.thy ===== *)
theory Shell
  imports Primitives Yaml_Config Artifacts Step_Outputs
begin

text \<open>
  The shell and git executors of the YAML front end (\<open>wfe-yaml/src/executors/shell.rs\<close>, \<open>git_repo.rs\<close>).
  The operating system is a parameter: starting a program, waiting for it with or without a deadline,
  and removing a directory. The fields of the boxed \<open>ShellStep\<close> that change, its mount points, are part of
  the world, as for every step body.
\<close>

section \<open>The operating system\<close>

record command =
  cm_program :: string
  cm_args :: "string list"
  cm_env :: "(string \<times> string) list"
  cm_dir :: "string option"

text \<open>
  What a program printed (after \<open>from_utf8_lossy\<close>) and its exit code, which a program killed by a signal does
  not have.
\<close>

record process_output =
  po_stdout :: string
  po_stderr :: string
  po_code :: "int option"

text \<open>
  A child process: the lines its pipes deliver up to their end (or to an error, which the code treats
  alike), which of the two pipes is ready at the \<open>k\<close>-th poll (\<open>True\<close>: standard output), and its status.
\<close>

record child =
  ch_stdout :: "string list option"
  ch_stderr :: "string list option"
  ch_ready :: "nat \<Rightarrow> bool"
  ch_wait :: "string + int option"

text \<open>
  \<open>pe_output_within\<close> is \<open>timeout\<close> around \<open>Command::output\<close>; \<open>pe_polls_within\<close> the number of polls of the
  pipes that are done when the deadline of a streamed child passes.
\<close>

record 'w process_env =
  pe_output :: "command \<Rightarrow> ('w, string + process_output) eff"
  pe_output_within :: "u64 \<Rightarrow> command \<Rightarrow> ('w, (string + process_output) option) eff"
  pe_spawn :: "command \<Rightarrow> ('w, string + child) eff"
  pe_polls_within :: "u64 \<Rightarrow> child \<Rightarrow> nat"
  pe_kill :: "child \<Rightarrow> 'w \<Rightarrow> 'w"
  pe_now :: "('w, date_time) eff"
  pe_uuid :: "('w, string) eff"
  pe_temp_dir :: string
  pe_remove_dir_all :: "string \<Rightarrow> ('w, string + unit) eff"
  pe_json_text :: "json \<Rightarrow> string"

type_synonym 'w log_sink = "log_chunk \<Rightarrow> 'w \<Rightarrow> 'w"

type_synonym mounts = "(string \<times> string) list"

section \<open>The command\<close>

definition BLOCKED_KEYS :: "string list" where
  "BLOCKED_KEYS = [''PATH'', ''LD_PRELOAD'', ''LD_LIBRARY_PATH'', ''DYLD_LIBRARY_PATH'', ''HOME'', ''SHELL'',
     ''USER'', ''LOGNAME'', ''TERM'']"

definition env_value :: "(json \<Rightarrow> string) \<Rightarrow> json \<Rightarrow> string" where
  "env_value text_of v = (case v of JString s \<Rightarrow> s | _ \<Rightarrow> text_of v)"

definition data_env :: "(json \<Rightarrow> string) \<Rightarrow> json_map \<Rightarrow> (string \<times> string) list \<Rightarrow> (string \<times> string) list" where
  "data_env text_of = fold (\<lambda>(key, v) env.
     let env_key = to_uppercase key
     in if env_key \<in> set BLOCKED_KEYS then env
        else if parse_artifact_ref v \<noteq> None then env
        else AList.update env_key (env_value text_of v) env)"

definition build_command :: "(json \<Rightarrow> string) \<Rightarrow> shell_config \<Rightarrow> mounts \<Rightarrow> json \<Rightarrow> command" where
  "build_command text_of c mps data =
     (let env = (case as_object data of Some m \<Rightarrow> data_env text_of m [] | None \<Rightarrow> []);
          env = fold (\<lambda>(name, p). AList.update (''INPUT_'' @ to_uppercase name) p) mps env;
          env = fold (\<lambda>(k, v). AList.update k v) (sh_env c) env
      in \<lparr>cm_program = sh_shell c, cm_args = [''-c'', sh_run c], cm_env = env, cm_dir = sh_working_dir c\<rparr>)"

section \<open>Running it\<close>

definition unknown_name :: "'v step_context \<Rightarrow> string" where
  "unknown_name ctx = unwrap_or (ws_name (sx_step ctx)) ''unknown''"

definition write_line :: "'w process_env \<Rightarrow> 'w log_sink \<Rightarrow> 'v step_context \<Rightarrow> log_stream_type \<Rightarrow> string \<Rightarrow> 'w \<Rightarrow> 'w" where
  "write_line P sink ctx stream line w =
     (let (now, w) = pe_now P w
      in sink \<lparr>lc_workflow_id = wi_id (sx_workflow ctx),
               lc_definition_id = wi_workflow_definition_id (sx_workflow ctx),
               lc_step_id = ws_id (sx_step ctx), lc_step_name = unknown_name ctx, lc_stream = stream,
               lc_data = line @ [CHR 0x0A], lc_timestamp = now\<rparr> w)"

text \<open>
  The loop over \<open>select!\<close>, for at most \<open>n\<close> polls; a pipe that is done is \<open>None\<close>. The answer is what has been
  read when both pipes are done, and \<open>None\<close> when the polls are used up before.
\<close>

fun read_streams ::
    "'w process_env \<Rightarrow> 'w log_sink \<Rightarrow> 'v step_context \<Rightarrow> (nat \<Rightarrow> bool) \<Rightarrow> nat \<Rightarrow> nat \<Rightarrow>
     string list option \<Rightarrow> string list option \<Rightarrow> string list \<Rightarrow> string list \<Rightarrow>
     ('w, (string list \<times> string list) option) eff" where
  "read_streams P sink ctx ready 0 k out err outs errs w =
     (if out = None \<and> err = None then (Some (outs, errs), w) else (None, w))"
| "read_streams P sink ctx ready (Suc n) k out err outs errs w =
     (if out = None \<and> err = None then (Some (outs, errs), w)
      else if out \<noteq> None \<and> (err = None \<or> ready k) then
        (case the out of
           [] \<Rightarrow> read_streams P sink ctx ready n (Suc k) None err outs errs w
         | line # rest \<Rightarrow> read_streams P sink ctx ready n (Suc k) (Some rest) err (outs @ [line]) errs
             (write_line P sink ctx Stdout line w))
      else
        (case the err of
           [] \<Rightarrow> read_streams P sink ctx ready n (Suc k) out None outs errs w
         | line # rest \<Rightarrow> read_streams P sink ctx ready n (Suc k) out (Some rest) outs (errs @ [line])
             (write_line P sink ctx Stderr line w)))"

definition join_lines :: "string list \<Rightarrow> string" where
  "join_lines ls =
     (let s = (case ls of [] \<Rightarrow> [] | l # rest \<Rightarrow> l @ concat (map (\<lambda>l. CHR 0x0A # l) rest))
      in if s \<noteq> [] then s @ [CHR 0x0A] else s)"

definition show_u64 :: "u64 \<Rightarrow> string" where
  "show_u64 n = show_nat (unat n)"

definition timed_out :: "u64 \<Rightarrow> wfe_error" where
  "timed_out ms = step_err (''Shell command timed out after '' @ show_u64 ms @ ''ms'')"

definition streamed_result ::
    "(string list \<times> string list) \<Rightarrow> string + int option \<Rightarrow> (string \<times> string \<times> int) res" where
  "streamed_result lines status =
     (case status of
        Inl e \<Rightarrow> Inl (step_err (''Failed to wait for shell command: '' @ e))
      | Inr code \<Rightarrow> Inr (join_lines (fst lines), join_lines (snd lines), unwrap_or code (- 1)))"

definition run_streaming ::
    "'w process_env \<Rightarrow> 'w log_sink \<Rightarrow> shell_config \<Rightarrow> mounts \<Rightarrow> 'v step_context \<Rightarrow> ('w, (string \<times> string \<times> int) res) eff" where
  "run_streaming P sink c mps ctx w =
     (case pe_spawn P (build_command (pe_json_text P) c mps (wi_data (sx_workflow ctx))) w of
        (Inl e, w) \<Rightarrow> (Inl (step_err (''Failed to spawn shell command: '' @ e)), w)
      | (Inr ch, w) \<Rightarrow>
          (case (ch_stdout ch, ch_stderr ch) of
             (None, _) \<Rightarrow> (Inl (step_err ''failed to capture stdout pipe''), w)
           | (_, None) \<Rightarrow> (Inl (step_err ''failed to capture stderr pipe''), w)
           | (Some out, Some err) \<Rightarrow>
               (case sh_timeout_ms c of
                  None \<Rightarrow>
                    (case read_streams P sink ctx (ch_ready ch) (length out + length err + 2) 0 (Some out) (Some err) [] [] w of
                       (Some lines, w) \<Rightarrow> (streamed_result lines (ch_wait ch), w)
                     | (None, w) \<Rightarrow> (Inl (timed_out 0), w))
                | Some ms \<Rightarrow>
                    (case read_streams P sink ctx (ch_ready ch) (pe_polls_within P ms ch) 0 (Some out) (Some err) [] [] w of
                       (Some lines, w) \<Rightarrow> (streamed_result lines (ch_wait ch), w)
                     | (None, w) \<Rightarrow> (Inl (timed_out ms), pe_kill P ch w)))))"

definition buffered_result :: "string + process_output \<Rightarrow> (string \<times> string \<times> int) res" where
  "buffered_result r =
     (case r of
        Inl e \<Rightarrow> Inl (step_err (''Failed to spawn shell command: '' @ e))
      | Inr p \<Rightarrow> Inr (po_stdout p, po_stderr p, unwrap_or (po_code p) (- 1)))"

definition run_buffered ::
    "'w process_env \<Rightarrow> shell_config \<Rightarrow> mounts \<Rightarrow> 'v step_context \<Rightarrow> ('w, (string \<times> string \<times> int) res) eff" where
  "run_buffered P c mps ctx w =
     (let cmd = build_command (pe_json_text P) c mps (wi_data (sx_workflow ctx)) in
      case sh_timeout_ms c of
        Some ms \<Rightarrow>
          (case pe_output_within P ms cmd w of
             (Some r, w) \<Rightarrow> (buffered_result r, w)
           | (None, w) \<Rightarrow> (Inl (timed_out ms), w))
      | None \<Rightarrow> (case pe_output P cmd w of (r, w) \<Rightarrow> (buffered_result r, w)))"

definition shell_result :: "'v step_context \<Rightarrow> string \<times> string \<times> int \<Rightarrow> execution_result res" where
  "shell_result ctx = (\<lambda>(stdout, stderr, exit_code).
     if exit_code \<noteq> 0 then
       Inl (step_err (''Shell command exited with code '' @ show_int exit_code @ [CHR 0x0A] @ ''stdout: '' @ stdout @
         [CHR 0x0A] @ ''stderr: '' @ stderr))
     else Inr (result_default\<lparr>er_proceed := True, er_output_data := Some (JObject
       (obj_insert (unknown_name ctx @ ''.stderr'') (JString stderr)
         (obj_insert (unknown_name ctx @ ''.stdout'') (JString stdout) (shell_outputs stdout))))\<rparr>))"

definition shell_run ::
    "'w process_env \<Rightarrow> 'w log_sink option \<Rightarrow> shell_config \<Rightarrow> 'v step_context \<Rightarrow> ('w \<times> mounts, execution_result res) eff" where
  "shell_run P log_sink c ctx = (\<lambda>(w, mps).
     case (case log_sink of Some sink \<Rightarrow> run_streaming P sink c mps ctx w | None \<Rightarrow> run_buffered P c mps ctx w) of
       (Inl e, w) \<Rightarrow> (Inl e, (w, mps))
     | (Inr r, w) \<Rightarrow> (shell_result ctx r, (w, mps)))"

section \<open>Mounting artifacts\<close>

definition mount_point_of :: "'w process_env \<Rightarrow> string \<Rightarrow> ('w, string) eff" where
  "mount_point_of P p w =
     (if is_absolute p then (p, w)
      else let (u, w) = pe_uuid P w
           in (path_join (path_join (pe_temp_dir P) (''wfe-shell-'' @ u)) p, w))"

fun mount_inputs ::
    "'w process_env \<Rightarrow> 'w tar_env \<Rightarrow> artifact_volume \<Rightarrow> (string \<times> string) list \<Rightarrow> ('w \<times> mounts, unit res) eff" where
  "mount_inputs P T vol [] s = (Inr (), s)"
| "mount_inputs P T vol ((name, p) # inputs) (w, mps) =
     (let (mount_point, w) = mount_point_of P p w in
      case lookup_artifact vol name of
        Inl e \<Rightarrow> (Inl e, (w, mps))
      | Inr bytes \<Rightarrow>
          (case extract_artifact_to_dir T bytes mount_point w of
             (Inl e, w) \<Rightarrow> (Inl e, (w, mps))
           | (Inr _, w) \<Rightarrow> mount_inputs P T vol inputs (w, AList.update name mount_point mps)))"

definition shell_mount ::
    "'w process_env \<Rightarrow> 'w tar_env \<Rightarrow> shell_config \<Rightarrow> 'v step_context \<Rightarrow> ('w \<times> mounts, unit res) eff" where
  "shell_mount P T c ctx s =
     (case sh_inputs c of
        None \<Rightarrow> (Inr (), s)
      | Some inputs \<Rightarrow>
          (if inputs = [] then (Inr (), s)
           else case sx_artifact_volume ctx of
                  None \<Rightarrow> (Inl (step_err ''artifact volume required but not provided''), s)
                | Some vol \<Rightarrow> mount_inputs P T vol inputs s))"

definition remove_dirs :: "'w process_env \<Rightarrow> mounts \<Rightarrow> 'w \<Rightarrow> 'w" where
  "remove_dirs P = fold (\<lambda>(_, p) w. snd (pe_remove_dir_all P p w))"

definition shell_unmount :: "'w process_env \<Rightarrow> 'v step_context \<Rightarrow> ('w \<times> mounts, unit res) eff" where
  "shell_unmount P ctx = (\<lambda>(w, mps). (Inr (), (remove_dirs P mps w, [])))"

definition shell_body ::
    "'w process_env \<Rightarrow> 'w tar_env \<Rightarrow> 'w log_sink option \<Rightarrow> shell_config \<Rightarrow> ('w \<times> mounts) step_body" where
  "shell_body P T log_sink c =
     \<lparr>run = shell_run P log_sink c, mount_artifacts = shell_mount P T c, unmount_artifacts = shell_unmount P\<rparr>"

section \<open>Lemmas\<close>

definition polls :: "string list option \<Rightarrow> nat" where
  "polls p = (case p of None \<Rightarrow> 0 | Some ls \<Rightarrow> Suc (length ls))"

text \<open>Whatever the order in which the pipes become ready, every line of each is read, in its order.\<close>

lemma read_streams_done:
  "polls out + polls err \<le> n \<Longrightarrow>
   fst (read_streams P sink ctx ready n k out err outs errs w) =
     Some (outs @ unwrap_or out [], errs @ unwrap_or err [])"
proof (induction n arbitrary: k out err outs errs w)
  case 0
  then show ?case by (auto simp: polls_def unwrap_or_def split: option.splits)
next
  case (Suc n)
  show ?case
  proof (cases out)
    case None
    then show ?thesis using Suc
      by (cases err) (auto simp: polls_def unwrap_or_def split: list.splits)
  next
    case (Some ls)
    then show ?thesis using Suc
      by (cases err; cases ls) (auto simp: polls_def unwrap_or_def split: list.splits)
  qed
qed

lemma map_of_fold_AList_update:
  "map_of (fold (\<lambda>(k, v). AList.update (f k) v) xs env) K =
     (case map_of (rev (map (\<lambda>(k, v). (f k, v)) xs)) K of Some v \<Rightarrow> Some v | None \<Rightarrow> map_of env K)"
  by (induction xs arbitrary: env) (auto simp: update_conv' map_add_def split: option.splits)

text \<open>The variables the workflow data sets.\<close>

definition exported :: "json_map \<Rightarrow> (string \<times> json) list" where
  "exported m = filter (\<lambda>(k, v). k \<notin> set BLOCKED_KEYS \<and> parse_artifact_ref v = None)
     (map (\<lambda>(k, v). (to_uppercase k, v)) m)"

lemma map_of_data_env:
  "map_of (data_env text_of m env) K =
     (case map_of (rev (exported m)) K of Some v \<Rightarrow> Some (env_value text_of v) | None \<Rightarrow> map_of env K)"
  by (induction m arbitrary: env)
    (auto simp: data_env_def exported_def Let_def update_conv' map_add_def split: option.splits if_splits)

lemma command_env:
  "map_of (cm_env (build_command text_of c mps data)) K =
     (case map_of (rev (sh_env c)) K of Some v \<Rightarrow> Some v | None \<Rightarrow>
      (case map_of (rev (map (\<lambda>(n, p). (''INPUT_'' @ to_uppercase n, p)) mps)) K of Some p \<Rightarrow> Some p | None \<Rightarrow>
       map_option (env_value text_of) (map_of (rev (exported (unwrap_or (as_object data) []))) K)))"
  using map_of_fold_AList_update[of "\<lambda>k. k" "sh_env c"]
    map_of_fold_AList_update[of "\<lambda>n. ''INPUT_'' @ to_uppercase n" mps]
  by (auto simp: build_command_def Let_def map_of_data_env unwrap_or_def map_option_case exported_def
      split: option.splits)

lemma exported_not_blocked: "K \<in> set BLOCKED_KEYS \<Longrightarrow> map_of (rev (exported m)) K = None"
  by (auto simp: exported_def map_of_eq_None_iff)

lemma blocked_not_input: "K \<in> set BLOCKED_KEYS \<Longrightarrow> K \<noteq> ''INPUT_'' @ n"
  by (auto simp: BLOCKED_KEYS_def)

text \<open>
  C22: the environment of a shell command is safe from the workflow data. Whatever the data, the
  outputs of earlier steps included, and whatever artifacts are mounted, none of the blocked variables
  is set unless the configuration of the step sets it, and then to the configured value; the program,
  its arguments and its directory come from the configuration alone.
\<close>

theorem shell_environment_safe:
  "cm_program (build_command text_of c mps data) = sh_shell c \<and>
   cm_args (build_command text_of c mps data) = [''-c'', sh_run c] \<and>
   cm_dir (build_command text_of c mps data) = sh_working_dir c \<and>
   (K \<in> set BLOCKED_KEYS \<longrightarrow>
      map_of (cm_env (build_command text_of c mps data)) K = map_of (rev (sh_env c)) K)"
proof -
  have "map_of (rev (map (\<lambda>(n, p). (''INPUT_'' @ to_uppercase n, p)) mps)) K = None" if "K \<in> set BLOCKED_KEYS"
    using blocked_not_input[OF that] by (force simp: map_of_eq_None_iff)
  then have "K \<in> set BLOCKED_KEYS \<longrightarrow>
      map_of (cm_env (build_command text_of c mps data)) K = map_of (rev (sh_env c)) K"
    by (simp add: command_env exported_not_blocked split: option.splits)
  then show ?thesis by (simp add: build_command_def Let_def)
qed

section \<open>From one step to the next\<close>

lemma keys_sorted_shell_outputs: "keys_sorted (shell_outputs s)"
proof -
  have "keys_sorted acc \<Longrightarrow> keys_sorted (fold (\<lambda>line outputs. case output_line line of
      Some (name, raw) \<Rightarrow> obj_insert name (shell_value raw) outputs | None \<Rightarrow> outputs) ls acc)" for ls acc
    by (induction ls arbitrary: acc) (auto simp: keys_sorted_obj_insert split: option.splits)
  then show ?thesis by (simp add: shell_outputs_def)
qed

lemma shell_result_data:
  assumes "shell_result ctx (stdout, stderr, 0) = Inr r"
  obtains out where "er_output_data r = Some (JObject out)" and "distinct (map fst out)"
    and "\<And>k. k \<notin> {unknown_name ctx @ ''.stdout'', unknown_name ctx @ ''.stderr''} \<Longrightarrow>
           map_of out k = map_of (shell_outputs stdout) k"
proof -
  let ?out = "obj_insert (unknown_name ctx @ ''.stderr'') (JString stderr)
    (obj_insert (unknown_name ctx @ ''.stdout'') (JString stdout) (shell_outputs stdout))"
  have "keys_sorted ?out" by (intro keys_sorted_obj_insert keys_sorted_shell_outputs)
  then show thesis
    using assms that[of ?out] distinct_keys_sorted[of ?out] by (auto simp: shell_result_def)
qed

lemma shell_value_no_artifact: "parse_artifact_ref (shell_value raw) = None"
  by (auto simp: shell_value_def json_of_i64_def json_of_f64_def parse_artifact_ref_def split: option.splits f64.splits)

lemma map_of_rev_unique:
  assumes "(K, v) \<in> set xs" and "\<And>v'. (K, v') \<in> set xs \<Longrightarrow> v' = v"
  shows "map_of (rev xs) K = Some v"
proof (cases "map_of (rev xs) K")
  case None
  then show ?thesis using assms(1) by (force simp: map_of_eq_None_iff)
next
  case (Some v')
  from map_of_SomeD[OF this] assms(2) show ?thesis using Some by simp
qed

lemma exported_lookup:
  assumes "map_of m k = Some v" and "parse_artifact_ref v = None" and "to_uppercase k \<notin> set BLOCKED_KEYS"
    and "\<forall>k' \<in> set (map fst m). to_uppercase k' = to_uppercase k \<longrightarrow> k' = k" and "distinct (map fst m)"
  shows "map_of (rev (exported m)) (to_uppercase k) = Some v"
proof (rule map_of_rev_unique)
  show "(to_uppercase k, v) \<in> set (exported m)"
    using map_of_SomeD[OF assms(1)] assms(2,3) by (force simp: exported_def)
next
  fix v' assume "(to_uppercase k, v') \<in> set (exported m)"
  then obtain k' where "(k', v') \<in> set m" and "to_uppercase k' = to_uppercase k" by (auto simp: exported_def)
  with assms(1,4,5) show "v' = v" by (metis fst_conv image_eqI list.set_map map_of_is_SomeI option.inject)
qed

lemma map_of_keys: "k \<in> set (map fst m) \<longleftrightarrow> map_of m k \<noteq> None"
  by (simp add: map_of_eq_None_iff)

text \<open>Later steps keep a field that they do not report themselves.\<close>

lemma merge_outputs_keep:
  assumes "wi_data inst = JObject m" and "keys_sorted m" and "map_of m k = Some v"
    and "\<forall>out. Some (JObject out) \<in> set outs \<longrightarrow> k \<notin> set (map fst out)"
  shows "\<exists>m'. wi_data (fold merge_output outs inst) = JObject m' \<and> keys_sorted m' \<and> map_of m' k = Some v"
  using assms
proof (induction outs arbitrary: inst m)
  case (Cons x outs)
  show ?case
  proof (cases "\<exists>out. x = Some (JObject out)")
    case True
    then obtain out where x: "x = Some (JObject out)" ..
    have "map_of (rev out) k = None"
      using Cons.prems(4) x by (simp add: map_of_eq_None_iff)
    then have "map_of (obj_extend m out) k = Some v" using Cons.prems(3) by (simp add: map_of_obj_extend)
    with Cons.IH[of "merge_output x inst" "obj_extend m out"] Cons.prems x keys_sorted_obj_extend[OF Cons.prems(2)]
    show ?thesis by (simp add: merge_output_def)
  next
    case False
    then have "merge_output x inst = inst" by (simp add: merge_output_def split: option.splits json.splits)
    with Cons show ?thesis by simp
  qed
qed auto

text \<open>
  C21: what one step reports, later ones find in their environment. A shell command succeeds on a workflow whose
  data is an object, and its output, made of reports and of other lines without the marker, reports
  \<open>k=v\<close> (the last report for \<open>k\<close>, which is not the field for its own standard output or error). The executor merges the
  result into the workflow data, and after it the outputs of any further steps, none of which reports \<open>k\<close> again. Then a shell command that runs
  on this data gets the upper case of \<open>k\<close> as a variable whose value is the text of the value that the
  report denotes, provided that the name is not blocked, no other field and no artifact is spelled alike, and the
  step does not configure the variable itself.
\<close>

theorem shell_output_reaches_next_command:
  assumes "\<forall>l \<in> set ls. program_line_ok l" and "map_of (rev (reports ls)) k = Some v"
    and "shell_result ctx (program_output ls, stderr, 0) = Inr r"
    and "wi_data inst = JObject m" and "keys_sorted m"
    and "k \<notin> {unknown_name ctx @ ''.stdout'', unknown_name ctx @ ''.stderr''}"
    and "to_uppercase k \<notin> set BLOCKED_KEYS"
    and "\<forall>out. Some (JObject out) \<in> set outs \<longrightarrow> k \<notin> set (map fst out)"
  defines "data \<equiv> wi_data (fold merge_output outs (merge_output (er_output_data r) inst))"
  assumes "\<forall>k'. json_get data k' \<noteq> None \<and> to_uppercase k' = to_uppercase k \<longrightarrow> k' = k"
    and "to_uppercase k \<notin> set (map fst (sh_env c))" and "\<forall>(n, p) \<in> set mps. ''INPUT_'' @ to_uppercase n \<noteq> to_uppercase k"
  shows "map_of (cm_env (build_command text_of c mps data)) (to_uppercase k) =
    Some (env_value text_of (shell_value v))"
proof -
  obtain out where out: "er_output_data r = Some (JObject out)" "distinct (map fst out)"
    "map_of out k = map_of (shell_outputs (program_output ls)) k"
    using shell_result_data[OF assms(3)] assms(6) by metis
  have "map_of (rev out) = map_of out" using map_of_inject_set[of "rev out" out] out(2) by (simp add: rev_map[symmetric])
  then have "map_of (obj_extend m out) k = Some (shell_value v)"
    using out(3) readers_map_of(3)[OF assms(1)] assms(2) by (simp add: map_of_obj_extend)
  moreover have "wi_data (merge_output (er_output_data r) inst) = JObject (obj_extend m out)"
    by (simp add: out(1) merge_output_def assms(4))
  ultimately obtain m' where m': "data = JObject m'" "keys_sorted m'" and k: "map_of m' k = Some (shell_value v)"
    using merge_outputs_keep[OF _ keys_sorted_obj_extend[OF assms(5)] _ assms(8)] unfolding data_def by blast
  have "\<forall>k' \<in> set (map fst m'). to_uppercase k' = to_uppercase k \<longrightarrow> k' = k"
    using assms(10) map_of_keys[of _ m'] by (simp add: m'(1) del: set_map)
  with k have "map_of (rev (exported m')) (to_uppercase k) = Some (shell_value v)"
    using exported_lookup[OF _ shell_value_no_artifact assms(7)] distinct_keys_sorted[OF m'(2)] by blast
  moreover have "map_of (rev (sh_env c)) (to_uppercase k) = None"
    using assms(11) by (auto simp: map_of_eq_None_iff)
  moreover have "map_of (rev (map (\<lambda>(n, p). (''INPUT_'' @ to_uppercase n, p)) mps)) (to_uppercase k) = None"
    using assms(12) by (force simp: map_of_eq_None_iff)
  ultimately show ?thesis by (simp add: command_env m'(1) unwrap_or_def)
qed

section \<open>Streamed and buffered runs\<close>

lemma split_on_parts:
  "p \<in> set (split_on c s) \<Longrightarrow> c \<notin> set p \<and> set p \<subseteq> set s"
proof (induction s arbitrary: p)
  case (Cons a s)
  obtain q qs where q: "split_on c s = q # qs" using split_on_nonempty by (cases "split_on c s") auto
  from Cons.prems have "p \<in> set (split_on c s) \<or> p = [] \<or> a \<noteq> c \<and> p = a # q"
    by (auto simp: q split: if_splits)
  moreover have "c \<notin> set q \<and> set q \<subseteq> set s" using Cons.IH[of q] by (simp add: q)
  ultimately show ?case using Cons.IH[of p] by auto
qed simp

lemma str_lines_parts:
  assumes "l \<in> set (str_lines s)"
  shows "CHR 0x0A \<notin> set l \<and> set l \<subseteq> set s"
proof -
  let ?ps = "split_on (CHR 0x0A) s"
  have "l \<in> chop_cr ` set ?ps \<or> l \<in> set ?ps"
    using assms split_on_nonempty[of "CHR 0x0A" s]
    by (auto simp: str_lines_def Let_def split: if_splits dest: in_set_butlastD)
  moreover have "set (chop_cr x) \<subseteq> set x" for x by (auto simp: chop_cr_def dest: in_set_butlastD)
  ultimately obtain x where "x \<in> set ?ps" and "set l \<subseteq> set x" by blast
  with split_on_parts[of x] show ?thesis by blast
qed

lemma join_lines_print: "join_lines ls = print_lines ls \<or> join_lines ls = [] \<and> ls = [[]]"
proof (cases ls)
  case (Cons l rest)
  have shift: "concat (map (\<lambda>l. CHR 0x0A # l) rest) @ [CHR 0x0A] = CHR 0x0A # print_lines rest" for rest
    by (induction rest) (simp_all add: print_lines_def)
  show ?thesis using Cons shift[of rest] by (cases "l = [] \<and> rest = []") (auto simp: join_lines_def print_lines_def)
qed (simp add: join_lines_def print_lines_def)

lemma shell_outputs_empty: "str_lines s \<in> {[], [[]]} \<Longrightarrow> shell_outputs s = []"
proof -
  have "output_line [] = None" by (simp add: output_line_def strip_prefix_str_def)
  then show "str_lines s \<in> {[], [[]]} \<Longrightarrow> shell_outputs s = []" by (auto simp: shell_outputs_def)
qed

lemma shell_outputs_joined:
  assumes "CHR 0x0D \<notin> set s"
  shows "shell_outputs (join_lines (str_lines s)) = shell_outputs s"
proof -
  have "\<forall>l \<in> set (str_lines s). one_line l"
    using str_lines_parts assms by (fastforce simp: one_line_def)
  from str_lines_print[OF this] have printed: "str_lines (print_lines (str_lines s)) = str_lines s" .
  from join_lines_print[of "str_lines s"] show ?thesis
  proof
    assume "join_lines (str_lines s) = print_lines (str_lines s)"
    then show ?thesis using printed by (simp add: shell_outputs_def)
  next
    assume "join_lines (str_lines s) = [] \<and> str_lines s = [[]]"
    then show ?thesis using shell_outputs_empty[of s] shell_outputs_empty[of "[]"] by (simp add: join_lines_def)
  qed
qed

lemma run_streaming_lines:
  assumes "pe_spawn P (build_command (pe_json_text P) c mps (wi_data (sx_workflow ctx))) w = (Inr ch, w')"
    and "ch_stdout ch = Some out" and "ch_stderr ch = Some err" and "sh_timeout_ms c = None"
  shows "fst (run_streaming P sink c mps ctx w) = streamed_result (out, err) (ch_wait ch)"
proof -
  have "fst (read_streams P sink ctx (ch_ready ch) (length out + length err + 2) 0 (Some out) (Some err) [] [] w') =
      Some (out, err)"
    by (subst read_streams_done) (simp_all add: polls_def unwrap_or_def)
  then show ?thesis using assms
    by (cases "read_streams P sink ctx (ch_ready ch) (length out + length err + 2) 0 (Some out) (Some err) [] [] w'")
      (simp add: run_streaming_def)
qed

lemma shell_result_fields:
  assumes "k \<notin> {unknown_name ctx @ ''.stdout'', unknown_name ctx @ ''.stderr''}"
    and "shell_result ctx (stdout, stderr, code) = Inr r"
  shows "and_then (er_output_data r) (\<lambda>v. json_get v k) = map_of (shell_outputs stdout) k"
  using assms by (auto simp: shell_result_def split: if_splits)

text \<open>
  C23: streaming the output of a step without a timeout changes nothing but its form. When the streamed child delivers the lines of
  what the buffered run would print, and its exit code, then, in whatever order its two pipes become ready,
  both runs succeed or both fail, and a success sets the same fields of the workflow data, apart from
  those for the whole output. (Carriage returns are removed at line ends by one and not the other.)
\<close>

theorem streaming_same_outputs:
  fixes P :: "'w process_env" and ctx :: "'v step_context" and mps :: mounts and w :: 'w and sink :: "'w log_sink"
  assumes "sh_timeout_ms c = None" and "CHR 0x0D \<notin> set (po_stdout p)"
  defines "cmd \<equiv> build_command (pe_json_text P) c mps (wi_data (sx_workflow ctx))"
  assumes "pe_output P cmd w = (Inr p, wb)" and "pe_spawn P cmd w = (Inr ch, ws)"
    and "ch_stdout ch = Some (str_lines (po_stdout p))" and "ch_stderr ch = Some (str_lines (po_stderr p))"
    and "ch_wait ch = Inr (po_code p)"
  defines "streamed \<equiv> fst (shell_run P (Some sink) c ctx (w, mps))"
    and "buffered \<equiv> fst (shell_run P None c ctx (w, mps))"
  shows "isl streamed = isl buffered \<and>
    (\<forall>r r' k. streamed = Inr r \<and> buffered = Inr r' \<and>
        k \<notin> {unknown_name ctx @ ''.stdout'', unknown_name ctx @ ''.stderr''} \<longrightarrow>
        and_then (er_output_data r) (\<lambda>v. json_get v k) = and_then (er_output_data r') (\<lambda>v. json_get v k))"
proof -
  let ?code = "unwrap_or (po_code p) (- 1)"
  have "fst (run_streaming P sink c mps ctx w) =
      Inr (join_lines (str_lines (po_stdout p)), join_lines (str_lines (po_stderr p)), ?code)"
    using run_streaming_lines[OF assms(5)[unfolded cmd_def] assms(6,7,1)] assms(8) by (simp add: streamed_result_def)
  then have s: "streamed = shell_result ctx (join_lines (str_lines (po_stdout p)), join_lines (str_lines (po_stderr p)), ?code)"
    by (cases "run_streaming P sink c mps ctx w") (simp add: streamed_def shell_run_def)
  have b: "buffered = shell_result ctx (po_stdout p, po_stderr p, ?code)"
    using assms(1,4) by (simp add: buffered_def shell_run_def run_buffered_def cmd_def buffered_result_def)
  have "isl streamed = isl buffered" by (simp add: s b shell_result_def)
  moreover have "and_then (er_output_data r) (\<lambda>v. json_get v k) = and_then (er_output_data r') (\<lambda>v. json_get v k)"
    if "streamed = Inr r" and "buffered = Inr r'" and "k \<notin> {unknown_name ctx @ ''.stdout'', unknown_name ctx @ ''.stderr''}" for r r' k
    using shell_result_fields[OF that(3)] that(1,2) shell_outputs_joined[OF assms(2)] by (simp add: s b)
  ultimately show ?thesis by blast
qed

section \<open>Mounts\<close>

lemma mount_inputs_names:
  "mount_inputs P T vol inputs (w, mps) = (r, (w', mps')) \<Longrightarrow>
     set (map fst mps') \<subseteq> set (map fst mps) \<union> set (map fst inputs) \<and>
     (r = Inr () \<longrightarrow> set (map fst mps') = set (map fst mps) \<union> set (map fst inputs))"
proof (induction inputs arbitrary: w mps)
  case (Cons i inputs)
  obtain name p where i: "i = (name, p)" by force
  obtain q w1 where q: "mount_point_of P p w = (q, w1)" by force
  show ?case
  proof (cases "lookup_artifact vol name")
    case (Inl e)
    then show ?thesis using Cons.prems by (auto simp: i q)
  next
    case (Inr bytes)
    obtain x w2 where x: "extract_artifact_to_dir T bytes q w1 = (x, w2)" by force
    show ?thesis
      using Cons.prems Cons.IH[of w2 "AList.update name q mps"]
      by (cases x) (auto simp: i q Inr x dom_update)
  qed
qed simp

lemma shell_run_mounts: "snd (snd (shell_run P sink c ctx (w, mps))) = mps"
  by (simp add: shell_run_def split: prod.splits sum.splits)

text \<open>
  Artifacts are mounted for the run only. However the mounts, the command and the removals end, a
  pass of the executor over a shell step runs the command with the mounts that succeeded (all the
  configured inputs, if none failed) and then removes the directory of each of them; no mount is left in
  the step, and the outcome is the one of the command.
\<close>

theorem shell_step_unmounts:
  "\<exists>m w1 mps r w2. shell_mount P T c ctx (w, []) = (m, (w1, mps)) \<and>
     set (map fst mps) \<subseteq> set (map fst (unwrap_or (sh_inputs c) [])) \<and>
     (m = Inr () \<longrightarrow> set (map fst mps) = set (map fst (unwrap_or (sh_inputs c) []))) \<and>
     shell_run P sink c ctx (w1, mps) = (r, (w2, mps)) \<and>
     run_step (shell_body P T sink c) ctx (w, []) = (r, (remove_dirs P mps w2, []))"
proof -
  obtain m w1 mps where m: "shell_mount P T c ctx (w, []) = (m, (w1, mps))" by (metis prod.exhaust)
  have names: "set (map fst mps) \<subseteq> set (map fst (unwrap_or (sh_inputs c) [])) \<and>
      (m = Inr () \<longrightarrow> set (map fst mps) = set (map fst (unwrap_or (sh_inputs c) [])))"
    using m by (simp add: shell_mount_def unwrap_or_def del: mount_inputs.simps set_map
        split: option.splits if_splits) (auto dest!: mount_inputs_names simp del: set_map)
  obtain r w2 where r: "shell_run P sink c ctx (w1, mps) = (r, (w2, mps))"
    using shell_run_mounts[of P sink c ctx w1 mps] by (metis prod.collapse)
  have "run_step (shell_body P T sink c) ctx (w, []) = (r, (remove_dirs P mps w2, []))"
    by (simp add: run_step_def shell_body_def m r shell_unmount_def)
  with m names r show ?thesis by blast
qed

text \<open>
  A failed mount does not fail the step: without a volume, the command of a step that declares inputs is
  run all the same, without them.
\<close>

lemma missing_inputs_ignored:
  assumes "sh_inputs c = Some (i # inputs)" and "sx_artifact_volume ctx = None"
  shows "fst (run_step (shell_body P T sink c) ctx (w, [])) = fst (shell_run P sink c ctx (w, []))"
proof -
  have "shell_mount P T c ctx (w, []) = (Inl (step_err ''artifact volume required but not provided''), (w, []))"
    using assms by (simp add: shell_mount_def)
  then show ?thesis by (simp add: run_step_def shell_body_def split: prod.splits)
qed

text \<open>An input with an absolute mount point makes the step remove that directory, whatever it held before.\<close>

lemma absolute_mount_is_removed:
  assumes "is_absolute p" and "mount_inputs P T vol [(name, p)] (w, []) = (Inr (), (w1, mps))"
  shows "remove_dirs P mps w1 = snd (pe_remove_dir_all P p w1)"
  using assms by (auto simp: mount_point_of_def remove_dirs_def split: sum.splits prod.splits)

section \<open>Witnesses\<close>

abbreviation sample_shell :: shell_config where
  "sample_shell \<equiv> \<lparr>sh_run = ''make'', sh_shell = ''/bin/sh'', sh_env = [(''HOME'', ''/build'')], sh_working_dir = None,
     sh_timeout_ms = None, sh_inputs = None\<rparr>"

theorem shell_environment_safe_witness:
  "map_of (cm_env (build_command (\<lambda>_. []) sample_shell [] (JObject [(''home'', JString ''/root''), (''path'', JString ''/tmp'')])))
     ''HOME'' = Some ''/build''"
  using shell_environment_safe[of "\<lambda>_. []" sample_shell "[]" "JObject [(''home'', JString ''/root''), (''path'', JString ''/tmp'')]" "''HOME''"]
  by (simp add: BLOCKED_KEYS_def)

abbreviation sample_lines :: "program_line list" where
  "sample_lines \<equiv> [Report ''tag'' ''v1'']"

lemma sample_lines_ok: "\<forall>l \<in> set sample_lines. program_line_ok l"
  by (simp add: one_line_def trim_def trim_start_def trim_end_def is_space_def)

abbreviation sample_data :: json_map where
  "sample_data \<equiv> obj_insert ''unknown.stderr'' (JString [])
     (obj_insert ''unknown.stdout'' (JString (program_output sample_lines)) (shell_outputs (program_output sample_lines)))"

lemma unknown_sample [simp]: "unknown_name sample_context = ''unknown''"
  by (simp add: unknown_name_def sample_context_def workflow_step_new_def unwrap_or_def)

lemma sample_shell_value: "shell_value ''v1'' = JString ''v1''"
  by (simp add: shell_value_def parse_i64_def is_digit_def parse_f64_def parse_unsigned_f64_def to_lowercase_def is_upper_def)

theorem shell_output_reaches_next_command_witness:
  "map_of (cm_env (build_command (\<lambda>_. []) sample_shell [] (JObject (obj_extend [] sample_data)))) ''TAG'' = Some ''v1''"
proof -
  let ?r = "result_default\<lparr>er_proceed := True, er_output_data := Some (JObject sample_data)\<rparr>"
  have data: "wi_data (merge_output (er_output_data ?r) sample_instance) = JObject (obj_extend [] sample_data)"
    by (simp add: merge_output_def sample_instance_def workflow_instance_new_def)
  have inst: "wi_data sample_instance = JObject []" by (simp add: sample_instance_def workflow_instance_new_def)
  have run: "shell_result sample_context (program_output sample_lines, [], 0) = Inr ?r"
    by (simp add: shell_result_def)
  have keys: "map_of (obj_extend [] sample_data) k' \<noteq> None \<longrightarrow> k' \<in> {''tag'', ''unknown.stdout'', ''unknown.stderr''}" for k'
    using readers_map_of(3)[OF sample_lines_ok, of k'] map_of_inject_set[of "rev sample_data" sample_data]
      distinct_keys_sorted[OF keys_sorted_obj_insert[OF keys_sorted_obj_insert[OF keys_sorted_shell_outputs]]]
    by (auto simp: map_of_obj_extend rev_map[symmetric] split: option.splits if_splits)
  have up: "to_uppercase ''tag'' = ''TAG''" by code_simp
  have "\<forall>k'. json_get (JObject (obj_extend [] sample_data)) k' \<noteq> None \<and> to_uppercase k' = to_uppercase ''tag'' \<longrightarrow> k' = ''tag''"
    using keys by (auto simp: to_uppercase_def is_lower_def)
  then show ?thesis
    using shell_output_reaches_next_command[OF sample_lines_ok _ run, of "''tag''" "''v1''" sample_instance "[]" "[]" sample_shell "[]" "\<lambda>_. []"]
    by (simp add: data[simplified] inst up BLOCKED_KEYS_def env_value_def sample_shell_value)
qed


abbreviation sample_output :: process_output where
  "sample_output \<equiv> \<lparr>po_stdout = program_output sample_lines, po_stderr = [], po_code = Some 0\<rparr>"

abbreviation sample_child :: child where
  "sample_child \<equiv> \<lparr>ch_stdout = Some (map render sample_lines), ch_stderr = Some [], ch_ready = (\<lambda>_. False), ch_wait = Inr (Some 0)\<rparr>"

definition sample_process :: "nat process_env" where
  "sample_process =
     \<lparr>pe_output = (\<lambda>_ w. (Inr sample_output, w)), pe_output_within = (\<lambda>_ _ w. (Some (Inr sample_output), w)),
      pe_spawn = (\<lambda>_ w. (Inr sample_child, w)),
      pe_polls_within = (\<lambda>_ _. 10), pe_kill = (\<lambda>_ w. w), pe_now = (\<lambda>w. (0, w)), pe_uuid = (\<lambda>w. (''u'', w)),
      pe_temp_dir = ''/tmp'', pe_remove_dir_all = (\<lambda>_ w. (Inr (), w)), pe_json_text = (\<lambda>_. [])\<rparr>"

theorem streaming_same_outputs_witness:
  "isl (fst (shell_run sample_process (Some (\<lambda>_ w. Suc w)) sample_shell sample_context (0, []))) =
   isl (fst (shell_run sample_process None sample_shell sample_context (0, [])))"
proof -
  have cr: "CHR 0x0D \<notin> set (po_stdout sample_output)" by (simp add: print_lines_def output_report_def)
  show ?thesis
    by (rule streaming_same_outputs[where ch = sample_child, OF _ cr, THEN conjunct1])
      (simp_all add: sample_process_def str_lines_program[OF sample_lines_ok, simplified])
qed

end
