(* ===== verification/Kube_Manifests.thy ===== *)
theory Kube_Manifests
  imports Shell
begin

text \<open>
  The Kubernetes objects the executor asks the cluster for (\<open>wfe-kubernetes/src/manifests.rs\<close>,
  \<open>service_manifests.rs\<close>, and the names of \<open>namespace.rs\<close> and \<open>pvc.rs\<close>): names, jobs, service pods and
  services. An object is the record of the fields the code sets. Unicode case mapping is modelled on ASCII.
\<close>

section \<open>Names\<close>

definition name_char :: "char \<Rightarrow> char" where
  "name_char c = (if is_alphanumeric c \<or> c = CHR ''-'' then c else CHR ''-'')"

definition trim_end_hyphens :: "string \<Rightarrow> string" where
  "trim_end_hyphens s = rev (dropWhile (\<lambda>c. c = CHR ''-'') (rev s))"

definition sanitize_name :: "string \<Rightarrow> string" where
  "sanitize_name name = trim_end_hyphens (take 63 (map name_char (to_lowercase name)))"

definition namespace_name :: "string \<Rightarrow> string \<Rightarrow> string" where
  "namespace_name pre workflow_id = trim_end_hyphens (take 63 (map name_char (to_lowercase (pre @ workflow_id))))"

definition shared_volume_pvc_name :: string where
  "shared_volume_pvc_name = ''wfe-workspace''"

section \<open>Jobs\<close>

datatype volume_source = PvcVolume string bool | EmptyDirVolume

record container =
  kc_name :: string
  kc_image :: string
  kc_command :: "string list option"
  kc_args :: "string list option"
  kc_env :: "(string \<times> string) list"
  kc_working_dir :: "string option"
  kc_limits :: "(string \<times> string) list option"
  kc_requests :: "(string \<times> string) list option"
  kc_image_pull_policy :: string
  kc_volume_mounts :: "(string \<times> string) list option"

record job =
  jb_name :: string
  jb_namespace :: string
  jb_labels :: "(string \<times> string) list"
  jb_backoff_limit :: int
  jb_ttl_seconds_after_finished :: int
  jb_pod_labels :: "(string \<times> string) list"
  jb_container :: container
  jb_restart_policy :: string
  jb_service_account_name :: "string option"
  jb_image_pull_secrets :: "string list option"
  jb_node_selector :: "(string \<times> string) list option"
  jb_volumes :: "(string \<times> volume_source) list option"

record shared_volume_mount =
  sm_claim_name :: string
  sm_mount_path :: string

definition resolve_command :: "kubernetes_step_config \<Rightarrow> string list option \<times> string list option" where
  "resolve_command c =
     (case ks_command c of
        Some cmd \<Rightarrow> (Some cmd, None)
      | None \<Rightarrow>
          (case ks_run c of
             Some script \<Rightarrow> (Some [unwrap_or (ks_shell c) ''/bin/sh'', ''-c''], Some [script])
           | None \<Rightarrow> (None, None)))"

text \<open>The merged map is a hash map; sorting by the names, which are distinct, removes its order.\<close>

definition build_env_vars :: "(string \<times> string) list \<Rightarrow> (string \<times> string) list \<Rightarrow> (string \<times> string) list" where
  "build_env_vars overrides config_env =
     sort_key fst (fold (\<lambda>(k, v). AList.update k v) config_env overrides)"

definition build_resources :: "string option \<Rightarrow> string option \<Rightarrow> (string \<times> string) list option" where
  "build_resources memory cpu =
     nonempty ((case cpu of Some c \<Rightarrow> [(''cpu'', c)] | None \<Rightarrow> []) @
               (case memory of Some m \<Rightarrow> [(''memory'', m)] | None \<Rightarrow> []))"

definition with_sleep :: "kubernetes_step_config \<Rightarrow> string list option \<Rightarrow> string list option" where
  "with_sleep c args =
     (if ks_artifact_outputs c = [] then args
      else case args of
             Some (first # rest) \<Rightarrow> Some ((first @ '' && sleep 5'') # rest)
           | _ \<Rightarrow> args)"

definition input_var :: "string \<Rightarrow> string \<times> string" where
  "input_var name = (''INPUT_'' @ to_uppercase name, ''/wfe-artifacts/inputs/'' @ name)"

definition step_labels :: "string \<Rightarrow> (string \<times> string) list" where
  "step_labels name = [(''wfe.sunbeam.pt/managed-by'', ''wfe-kubernetes''), (''wfe.sunbeam.pt/step-name'', name)]"

definition build_job ::
    "kubernetes_step_config \<Rightarrow> string \<Rightarrow> string \<Rightarrow> (string \<times> string) list \<Rightarrow> cluster_config \<Rightarrow>
     shared_volume_mount option \<Rightarrow> bool \<Rightarrow> string list \<Rightarrow> job" where
  "build_job c step_name ns env_overrides cluster shared has_artifacts input_names =
     (let (command, args) = resolve_command c;
          args = with_sleep c args;
          env = sort_key fst (build_env_vars env_overrides (ks_env c) @ map input_var input_names);
          resources = build_resources (ks_memory c) (ks_cpu c);
          mounts = (case shared of Some sv \<Rightarrow> [(''wfe-workspace'', sm_mount_path sv)] | None \<Rightarrow> []) @
                   (if has_artifacts then [(''wfe-artifacts'', ''/wfe-artifacts'')] else []);
          volumes = (case shared of Some sv \<Rightarrow> [(''wfe-workspace'', PvcVolume (sm_claim_name sv) False)] | None \<Rightarrow> []) @
                   (if has_artifacts then [(''wfe-artifacts'', EmptyDirVolume)] else [])
      in \<lparr>jb_name = sanitize_name step_name, jb_namespace = ns, jb_labels = step_labels step_name,
          jb_backoff_limit = 0, jb_ttl_seconds_after_finished = 300, jb_pod_labels = step_labels step_name,
          jb_container = \<lparr>kc_name = ''step'', kc_image = ks_image c, kc_command = command, kc_args = args,
            kc_env = env, kc_working_dir = ks_working_dir c, kc_limits = resources, kc_requests = resources,
            kc_image_pull_policy = unwrap_or (ks_pull_policy c) ''IfNotPresent'',
            kc_volume_mounts = nonempty mounts\<rparr>,
          jb_restart_policy = ''Never'', jb_service_account_name = cc_service_account cluster,
          jb_image_pull_secrets = nonempty (cc_image_pull_secrets cluster),
          jb_node_selector = nonempty (sort_key fst (cc_node_selector cluster)), jb_volumes = nonempty volumes\<rparr>)"

text \<open>The workflow data as variables; unlike in the shell executor, no name is blocked.\<close>

definition extract_workflow_env :: "(json \<Rightarrow> string) \<Rightarrow> json \<Rightarrow> (string \<times> string) list" where
  "extract_workflow_env text_of data =
     (case as_object data of
        Some m \<Rightarrow> fold (\<lambda>(key, v). AList.update (to_uppercase key) (env_value text_of v)) m []
      | None \<Rightarrow> [])"

section \<open>Services\<close>

record service_pod =
  vp_name :: string
  vp_namespace :: string
  vp_labels :: "(string \<times> string) list"
  vp_image :: string
  vp_ports :: "(int \<times> string option \<times> string) list"
  vp_env :: "(string \<times> string) list"
  vp_command :: "string list option"
  vp_args :: "string list option"
  vp_limits :: "(string \<times> string) list option"
  vp_requests :: "(string \<times> string) list option"
  vp_restart_policy :: string

definition build_service_pod :: "service_definition \<Rightarrow> string \<Rightarrow> service_pod" where
  "build_service_pod svc ns =
     (let resources = build_resources (sd_memory svc) (sd_cpu svc)
      in \<lparr>vp_name = sd_name svc, vp_namespace = ns,
          vp_labels = [(''wfe.sunbeam.pt/managed-by'', ''wfe-kubernetes''), (''wfe.sunbeam.pt/service-name'', sd_name svc)],
          vp_image = sd_image svc,
          vp_ports = map (\<lambda>p. (uint (sp_container_port p), sp_name p, sp_protocol p)) (sd_ports svc),
          vp_env = sd_env svc, vp_command = nonempty (sd_command svc), vp_args = nonempty (sd_args svc),
          vp_limits = resources, vp_requests = resources, vp_restart_policy = ''Always''\<rparr>)"

record k8s_service =
  kv_name :: string
  kv_namespace :: string
  kv_labels :: "(string \<times> string) list"
  kv_selector :: "(string \<times> string) list"
  kv_ports :: "(string \<times> int \<times> int \<times> string) list"

definition service_port_of :: "nat \<times> service_port \<Rightarrow> string \<times> int \<times> int \<times> string" where
  "service_port_of = (\<lambda>(i, p). (unwrap_or (sp_name p) (''port-'' @ show_nat i), uint (sp_container_port p),
     uint (sp_container_port p), sp_protocol p))"

definition build_k8s_service :: "service_definition \<Rightarrow> string \<Rightarrow> k8s_service" where
  "build_k8s_service svc ns =
     \<lparr>kv_name = sd_name svc, kv_namespace = ns,
      kv_labels = [(''wfe.sunbeam.pt/managed-by'', ''wfe-kubernetes'')],
      kv_selector = [(''wfe.sunbeam.pt/service-name'', sd_name svc)],
      kv_ports = map service_port_of (zip [0..<length (sd_ports svc)] (sd_ports svc))\<rparr>"

section \<open>Lemmas\<close>

text \<open>What the cluster accepts as a name: an RFC 1123 label.\<close>

definition label_char :: "char \<Rightarrow> bool" where
  "label_char c \<longleftrightarrow> is_lower c \<or> is_digit c \<or> c = CHR ''-''"

definition dns_label :: "string \<Rightarrow> bool" where
  "dns_label s \<longleftrightarrow> s \<noteq> [] \<and> length s \<le> 63 \<and> list_all label_char s \<and> hd s \<noteq> CHR ''-'' \<and> last s \<noteq> CHR ''-''"

lemma lower_char: "is_upper c \<Longrightarrow> is_lower (char_of (of_char c + 32 :: nat))"
  by (auto simp: is_upper_def is_lower_def of_char_of)

lemma name_char_lowercase:
  "s = to_lowercase name \<Longrightarrow> list_all label_char (map name_char s)"
proof -
  have low: "\<not> is_upper d" if "d \<in> set (to_lowercase name)" for d
  proof -
    from that obtain c where c: "d = (if is_upper c then char_of ((of_char c :: nat) + 32) else c)"
      unfolding to_lowercase_def set_map by blast
    show ?thesis
    proof (cases "is_upper c")
      case True
      with lower_char[of c] c show ?thesis by (auto simp: is_upper_def is_lower_def)
    qed (simp add: c)
  qed
  assume "s = to_lowercase name"
  with low show ?thesis by (auto simp: list_all_iff name_char_def label_char_def is_alphanumeric_def)
qed

lemma alphanumeric_lower: "is_alphanumeric (if is_upper c then char_of ((of_char c :: nat) + 32) else c) \<longleftrightarrow> is_alphanumeric c"
  using lower_char[of c] by (auto simp: is_alphanumeric_def)

lemma name_char_hyphen: "name_char c = CHR ''-'' \<longleftrightarrow> \<not> is_alphanumeric c"
  by (auto simp: name_char_def char_class_defs)

lemma trim_end_hyphens_prefix: "\<exists>t. s = trim_end_hyphens s @ t \<and> set t \<subseteq> {CHR ''-''}"
proof -
  have "rev s = takeWhile (\<lambda>c. c = CHR ''-'') (rev s) @ dropWhile (\<lambda>c. c = CHR ''-'') (rev s)" by simp
  then have "s = trim_end_hyphens s @ rev (takeWhile (\<lambda>c. c = CHR ''-'') (rev s))"
    unfolding trim_end_hyphens_def by (metis rev_append rev_rev_ident)
  moreover have "set (rev (takeWhile (\<lambda>c. c = CHR ''-'') (rev s))) \<subseteq> {CHR ''-''}"
    by (auto dest: set_takeWhileD)
  ultimately show ?thesis by blast
qed

lemma trim_end_hyphens_last: "trim_end_hyphens s \<noteq> [] \<Longrightarrow> last (trim_end_hyphens s) \<noteq> CHR ''-''"
  using hd_dropWhile[of "\<lambda>c. c = CHR ''-''" "rev s"] by (auto simp: trim_end_hyphens_def last_rev)

text \<open>Both names are built alike: only the first character decides whether the cluster accepts them.\<close>

lemma clean_name:
  fixes s :: string
  defines "n \<equiv> trim_end_hyphens (take 63 (map name_char (to_lowercase s)))"
  shows "length n \<le> 63" and "list_all label_char n" and "n \<noteq> [] \<Longrightarrow> last n \<noteq> CHR ''-''"
    and "dns_label n \<longleftrightarrow> s \<noteq> [] \<and> is_alphanumeric (hd s)"
proof -
  let ?m = "take 63 (map name_char (to_lowercase s))"
  obtain t where t: "?m = n @ t" "set t \<subseteq> {CHR ''-''}"
    using trim_end_hyphens_prefix[of ?m] unfolding n_def by blast
  have "length ?m \<le> 63" by simp
  then show len: "length n \<le> 63" unfolding t(1) by simp
  have "list_all label_char ?m"
    using name_char_lowercase[OF refl, of s] by (metis append_take_drop_id list_all_append)
  then show chars: "list_all label_char n" unfolding t(1) by simp
  show last: "n \<noteq> [] \<Longrightarrow> last n \<noteq> CHR ''-''" unfolding n_def by (rule trim_end_hyphens_last)
  have hd: "hd ?m = CHR ''-'' \<longleftrightarrow> \<not> is_alphanumeric (hd s)" if "s \<noteq> []"
    using that by (cases s) (simp_all add: to_lowercase_def name_char_hyphen alphanumeric_lower)
  show "dns_label n \<longleftrightarrow> s \<noteq> [] \<and> is_alphanumeric (hd s)"
  proof (cases "n = []")
    case True
    have "s = [] \<or> hd ?m = CHR ''-''"
      using t True by (cases s) (auto simp: to_lowercase_def)
    then show ?thesis using True hd by (auto simp: dns_label_def)
  next
    case False
    have "hd n = hd ?m" unfolding t(1) using False by simp
    moreover have "s \<noteq> []" using False t(1) by (auto simp: to_lowercase_def)
    ultimately show ?thesis using False len chars last hd by (auto simp: dns_label_def)
  qed
qed

text \<open>
  C26: the names of the resources. The name of a job and the name of a namespace have at most 63
  characters, all of them lower case letters, digits and hyphens, and do not end in a hyphen. The
  cluster accepts the name of the namespace as soon as the configured prefix begins with a letter or
  a digit, as the default does, and the name of a job exactly if the name of the step does.
\<close>

theorem kube_names_valid:
  "length (namespace_name pre i) \<le> 63 \<and> list_all label_char (namespace_name pre i) \<and>
   length (sanitize_name name) \<le> 63 \<and> list_all label_char (sanitize_name name) \<and>
   (dns_label (namespace_name pre i) \<longleftrightarrow> pre @ i \<noteq> [] \<and> is_alphanumeric (hd (pre @ i))) \<and>
   (dns_label (sanitize_name name) \<longleftrightarrow> name \<noteq> [] \<and> is_alphanumeric (hd name)) \<and>
   dns_label (namespace_name (cc_namespace_prefix cluster_config_default) i)"
  using clean_name[of "pre @ i"] clean_name[of name] clean_name(4)[of "''wfe-'' @ i"]
  by (simp add: namespace_name_def sanitize_name_def cluster_config_default_def char_class_defs)

lemma map_of_first: "map_of xs K = (case filter (\<lambda>x. fst x = K) xs of [] \<Rightarrow> None | x # _ \<Rightarrow> Some (snd x))"
  by (induction xs) (auto split: list.splits)

lemma map_of_sort_key: "map_of (sort_key fst xs) K = map_of xs K"
  by (simp add: map_of_first[of "sort_key fst xs"] map_of_first[of xs] sort_key_stable)

lemma map_of_build_env_vars:
  "map_of (build_env_vars overrides env) K =
     (case map_of (rev env) K of Some v \<Rightarrow> Some v | None \<Rightarrow> map_of overrides K)"
  using map_of_fold_AList_update[of "\<lambda>k. k" env overrides K]
  by (simp add: build_env_vars_def map_of_sort_key case_prod_unfold)

lemma job_env:
  assumes "\<forall>n \<in> set names. ''INPUT_'' @ to_uppercase n \<noteq> K"
  shows "map_of (kc_env (jb_container (build_job c name ns overrides cluster shared arts names))) K =
    (case map_of (rev (ks_env c)) K of Some v \<Rightarrow> Some v | None \<Rightarrow> map_of overrides K)"
proof -
  have "map_of (map input_var names) K = None"
    using assms by (auto simp: map_of_eq_None_iff input_var_def)
  then show ?thesis
    by (simp add: build_job_def Let_def case_prod_unfold map_of_sort_key map_of_build_env_vars map_add_def split: option.splits)
qed

text \<open>
  Unlike a shell step, a job takes every field of the workflow data as a variable: a field \<open>path\<close> replaces
  the search path of the container.
\<close>

lemma job_path_from_data:
  assumes "map_of (rev (ks_env c)) ''PATH'' = None"
  shows "map_of (kc_env (jb_container (build_job c name ns
     (extract_workflow_env text_of (JObject [(''path'', JString p)])) cluster shared arts []))) ''PATH'' = Some p"
proof -
  have "to_uppercase ''path'' = ''PATH''" by code_simp
  then show ?thesis
    using assms by (simp add: job_env extract_workflow_env_def env_value_def)
qed

text \<open>Every mount of a job has its volume, the claim is mounted where the workflow wants it, and the script
  and the image are the configured ones.\<close>

lemma job_volumes:
  assumes "j = build_job c name ns overrides cluster shared arts names"
  shows "map fst (unwrap_or (kc_volume_mounts (jb_container j)) []) = map fst (unwrap_or (jb_volumes j) [])"
    and "shared = Some sv \<Longrightarrow> map_of (unwrap_or (kc_volume_mounts (jb_container j)) []) ''wfe-workspace'' = Some (sm_mount_path sv)"
    and "shared = Some sv \<Longrightarrow> map_of (unwrap_or (jb_volumes j) []) ''wfe-workspace'' = Some (PvcVolume (sm_claim_name sv) False)"
  by (auto simp: assms build_job_def Let_def case_prod_unfold nonempty_def unwrap_or_def split: option.splits)

text \<open>The service finds its pod.\<close>

lemma service_selects_pod: "set (kv_selector (build_k8s_service svc ns)) \<subseteq> set (vp_labels (build_service_pod svc ns))"
  by (simp add: build_k8s_service_def build_service_pod_def Let_def)

end
