(* ===== verification/Requests.thy ===== *)
theory Requests
  imports Artifacts
begin

text \<open>
  Effects that can fail, as the executors that talk to a daemon compose them: the \<open>?\<close> operator, the conversion of a
  library's error, and the proof rules that go with them: an effect composed of quiet effects is quiet,
  and triples with a condition for the value and one for the error.
\<close>

named_theorems quiet_intros \<open>effects built from quiet effects are quiet\<close>

text \<open>\<open>future.await.map_err(...)?\<close> followed by the rest, and the same with an error of the library put into a message.\<close>

definition try_do :: "('w, 'a res) eff \<Rightarrow> ('a \<Rightarrow> ('w, 'b res) eff) \<Rightarrow> ('w, 'b res) eff" where
  "try_do f g w = (case f w of (Inl e, w) \<Rightarrow> (Inl e, w) | (Inr x, w) \<Rightarrow> g x w)"

definition request :: "string \<Rightarrow> ('w, string + 'a) eff \<Rightarrow> ('w, 'a res) eff" where
  "request msg f w = (case f w of (Inl e, w) \<Rightarrow> (Inl (step_err (msg @ e)), w) | (Inr x, w) \<Rightarrow> (Inr x, w))"

definition lift_res :: "'a res \<Rightarrow> ('w, 'a res) eff" where
  "lift_res r w = (r, w)"

definition replace_scheme :: "string \<Rightarrow> string" where
  "replace_scheme addr = (case strip_prefix_str ''tcp://'' addr of Some rest \<Rightarrow> ''http://'' @ rest | None \<Rightarrow> addr)"

text \<open>How writing a compressed archive of a directory in a blocking task can fail.\<close>

datatype tar_failure = TarAppend string | TarFinish string | GzipFinish string | TarPanicked string

section \<open>Rules\<close>

lemma quiet_try_do [quiet_intros]:
  assumes "quiet obs f" and "\<And>x. quiet obs (g x)"
  shows "quiet obs (try_do f g)"
  by (rule quietI) (simp add: try_do_def case_prod_unfold assms[THEN quiet_snd] split: sum.splits)

lemma quiet_request [quiet_intros]: "quiet obs f \<Longrightarrow> quiet obs (request msg f)"
  by (rule quietI) (simp add: request_def case_prod_unfold quiet_snd split: sum.splits)

lemma quiet_pure [quiet_intros]: "quiet obs (lift_res r)" "quiet obs (\<lambda>w. (x, w))"
  by (simp_all add: quiet_def lift_res_def)

text \<open>
  A triple: from a state that satisfies \<open>P\<close> the effect ends with a value and a state that satisfy \<open>Q\<close>, or with an
  error in a state that satisfies \<open>E\<close>.
\<close>

definition triple :: "('w \<Rightarrow> bool) \<Rightarrow> ('w, 'e + 'a) eff \<Rightarrow> ('a \<Rightarrow> 'w \<Rightarrow> bool) \<Rightarrow> ('w \<Rightarrow> bool) \<Rightarrow> bool" where
  "triple P f Q E \<longleftrightarrow> (\<forall>w. P w \<longrightarrow> (case f w of (Inl _, w') \<Rightarrow> E w' | (Inr x, w') \<Rightarrow> Q x w'))"

lemma tripleD: "triple P f Q E \<Longrightarrow> P w \<Longrightarrow> f w = (r, w') \<Longrightarrow> (case r of Inl _ \<Rightarrow> E w' | Inr x \<Rightarrow> Q x w')"
  by (auto simp: triple_def split: sum.splits)

lemma triple_try_do:
  "triple P f Q E \<Longrightarrow> (\<And>x. triple (Q x) (g x) R E) \<Longrightarrow> triple P (try_do f g) R E"
  by (fastforce simp: triple_def try_do_def split: prod.splits sum.splits)

lemma triple_request: "triple P f Q E \<Longrightarrow> triple P (request msg f) Q E"
  by (fastforce simp: triple_def request_def split: prod.splits sum.splits)

lemma triple_lift: "triple (\<lambda>w. Q x w) (lift_res (Inr x)) Q E"
  by (simp add: triple_def lift_res_def)

lemma triple_quiet:
  assumes "quiet obs f" and "\<And>w. P (obs w) \<Longrightarrow> E w"
  shows "triple (\<lambda>w. P (obs w)) f (\<lambda>_ w. P (obs w)) E"
  unfolding triple_def
proof (intro allI impI)
  fix w assume "P (obs w)"
  with quiet_snd[OF assms(1), of w] have "P (obs (snd (f w)))" by simp
  with assms(2) show "case f w of (Inl _, w') \<Rightarrow> E w' | (Inr x, w') \<Rightarrow> P (obs w')"
    by (cases "f w"; cases "fst (f w)") auto
qed

end
