(* ===== verification/Kubernetes.thy ===== *)
theory Kubernetes
  imports Kube_Manifests Requests Host
begin

text \<open>
  The Kubernetes executor and service provider (\<open>wfe-kubernetes/src/step.rs\<close>, \<open>namespace.rs\<close>, \<open>pvc.rs\<close>,
  \<open>logs.rs\<close>, \<open>cleanup.rs\<close>, \<open>service_provider.rs\<close>). The cluster is a parameter: a record of the requests the
  client sends, with its state in the world; so are \<open>kubectl\<close>, the file system and the archive library.
  Loops that poll are recursive on the number of attempts the source gives them. The two futures that
  \<open>execute_job\<close> joins, the log stream and the wait for the job, are run one after the other.
\<close>

section \<open>The cluster\<close>

datatype kube_error = ApiError int string | ClientError string

definition kube_text :: "kube_error \<Rightarrow> string" where
  "kube_text e = (case e of ApiError _ m \<Rightarrow> m | ClientError m \<Rightarrow> m)"

definition is_api_error :: "int \<Rightarrow> kube_error \<Rightarrow> bool" where
  "is_api_error code e = (case e of ApiError c _ \<Rightarrow> c = code | ClientError _ \<Rightarrow> False)"

record job_status =
  js_conditions :: "(string \<times> string) list"
  js_succeeded :: "int option"
  js_failed :: "int option"

text \<open>The state of a container: neither running nor terminated, running, or terminated with its code.\<close>

datatype container_state = CWaiting | CRunning | CTerminated int

record 'w kube =
  kb_connect :: "cluster_config \<Rightarrow> ('w, unit res) eff"
  kb_get_namespace :: "string \<Rightarrow> ('w, kube_error + unit) eff"
  kb_create_namespace :: "string \<Rightarrow> (string \<times> string) list \<Rightarrow> ('w, kube_error + unit) eff"
  kb_delete_namespace :: "string \<Rightarrow> ('w, kube_error + unit) eff"
  kb_list_namespaces :: "('w, kube_error + (string option \<times> int option) list) eff"
  kb_get_pvc :: "string \<Rightarrow> string \<Rightarrow> ('w, kube_error + string option) eff"
  kb_create_pvc :: "string \<Rightarrow> string \<Rightarrow> string \<Rightarrow> string option \<Rightarrow> ('w, kube_error + unit) eff"
  kb_list_storage_classes :: "('w, kube_error + (string option \<times> (string \<times> string) list) list) eff"
  kb_get_storage_class :: "string \<Rightarrow> ('w, kube_error + string option) eff"
  kb_create_job :: "string \<Rightarrow> job \<Rightarrow> ('w, kube_error + unit) eff"
  kb_get_job :: "string \<Rightarrow> string \<Rightarrow> ('w, kube_error + job_status option) eff"
  kb_delete_job :: "string \<Rightarrow> string \<Rightarrow> ('w, kube_error + unit) eff"
  kb_list_pods :: "string \<Rightarrow> string \<Rightarrow> ('w, kube_error + string option list) eff"
  kb_get_pod :: "string \<Rightarrow> string \<Rightarrow> ('w, kube_error + container_state option list option) eff"
  kb_create_pod :: "string \<Rightarrow> service_pod \<Rightarrow> ('w, kube_error + unit) eff"
  kb_create_service :: "string \<Rightarrow> k8s_service \<Rightarrow> ('w, kube_error + unit) eff"
  kb_log_stream :: "string \<Rightarrow> string \<Rightarrow> ('w, kube_error + (string + string) list) eff"

record 'w node_env =
  nv_kubectl :: "string list \<Rightarrow> ('w, bool) eff"
  nv_sleep_ms :: "nat \<Rightarrow> 'w \<Rightarrow> 'w"
  nv_now :: "('w, date_time) eff"
  nv_uuid :: "('w, string) eff"
  nv_temp_dir :: string
  nv_create_dir_all :: "string \<Rightarrow> ('w, string + unit) eff"
  nv_remove_dir_all :: "string \<Rightarrow> ('w, string + unit) eff"
  nv_exists :: "string \<Rightarrow> ('w, bool) eff"
  nv_read_dir :: "string \<Rightarrow> ('w, string + (string + string) list) eff"
  nv_tar_gz :: "string \<Rightarrow> ('w, tar_failure + string) eff"
  nv_json_text :: "json \<Rightarrow> string"
  nv_from_str :: "string \<Rightarrow> json option"

section \<open>Polling\<close>

fun poll :: "nat \<Rightarrow> ('w, 'r option) eff \<Rightarrow> ('w \<Rightarrow> 'w) \<Rightarrow> ('w, 'r option) eff" where
  "poll 0 body pause w = (None, w)"
| "poll (Suc n) body pause w =
     (case body w of (Some r, w) \<Rightarrow> (Some r, w) | (None, w) \<Rightarrow> poll n body pause (pause w))"

text \<open>A command that is tried again, with a pause between two attempts.\<close>

fun attempts :: "nat \<Rightarrow> ('w, bool) eff \<Rightarrow> ('w \<Rightarrow> 'w) \<Rightarrow> ('w, bool) eff" where
  "attempts 0 cmd pause w = (False, w)"
| "attempts (Suc n) cmd pause w =
     (case cmd w of (True, w) \<Rightarrow> (True, w) | (False, w) \<Rightarrow> attempts n cmd pause (if n = 0 then w else pause w))"

section \<open>Namespaces\<close>

definition managed_by :: "string \<times> string" where
  "managed_by = (''wfe.sunbeam.pt/managed-by'', ''wfe-kubernetes'')"

definition ensure_namespace :: "'w kube \<Rightarrow> string \<Rightarrow> string \<Rightarrow> ('w, unit res) eff" where
  "ensure_namespace K name workflow_id w =
     (let create = (\<lambda>w. case kb_create_namespace K name [managed_by, (''wfe.sunbeam.pt/workflow-id'', workflow_id)] w of
              (Inr _, w) \<Rightarrow> (Inr (), w)
            | (Inl e, w) \<Rightarrow> (Inl (step_err (''failed to create namespace '' @ quoted name @ '': '' @ kube_text e)), w))
      in case kb_get_namespace K name w of
           (Inr _, w) \<Rightarrow> (Inr (), w)
         | (Inl e, w) \<Rightarrow>
             (if is_api_error 404 e then create w
              else (Inl (step_err (''failed to check namespace '' @ quoted name @ '': '' @ kube_text e)), w)))"

definition delete_namespace :: "'w kube \<Rightarrow> string \<Rightarrow> ('w, unit res) eff" where
  "delete_namespace K name w =
     (case kb_delete_namespace K name w of
        (Inr _, w) \<Rightarrow> (Inr (), w)
      | (Inl e, w) \<Rightarrow> (Inl (step_err (''failed to delete namespace '' @ quoted name @ '': '' @ kube_text e)), w))"

definition starts_with :: "string \<Rightarrow> string \<Rightarrow> bool" where
  "starts_with s p \<longleftrightarrow> take (length p) s = p"

fun delete_stale :: "'w kube \<Rightarrow> string \<Rightarrow> int \<Rightarrow> (string option \<times> int option) list \<Rightarrow> nat \<Rightarrow> ('w, nat) eff" where
  "delete_stale K pre cutoff [] deleted w = (deleted, w)"
| "delete_stale K pre cutoff ((n, created) # rest) deleted w =
     (let name = unwrap_or n [] in
      if \<not> starts_with name pre then delete_stale K pre cutoff rest deleted w
      else if unwrap_or created (2 ^ 63 - 1) < cutoff then
        (case kb_delete_namespace K name w of
           (Inl _, w) \<Rightarrow> delete_stale K pre cutoff rest deleted w
         | (Inr _, w) \<Rightarrow> delete_stale K pre cutoff rest (Suc deleted) w)
      else delete_stale K pre cutoff rest deleted w)"

definition cleanup_stale_namespaces ::
    "'w kube \<Rightarrow> 'w node_env \<Rightarrow> string \<Rightarrow> duration \<Rightarrow> ('w, nat res) eff" where
  "cleanup_stale_namespaces K N pre older_than w =
     (case kb_list_namespaces K w of
        (Inl e, w) \<Rightarrow> (Inl (step_err (''failed to list namespaces: '' @ kube_text e)), w)
      | (Inr items, w) \<Rightarrow>
          (let (now, w) = nv_now N w;
               cutoff = now div 1000000000 - int (older_than div 1000000000);
               (deleted, w) = delete_stale K pre cutoff items 0 w
           in (Inr deleted, w)))"

section \<open>The shared volume\<close>

definition default_storage_class :: "(string option \<times> (string \<times> string) list) list \<Rightarrow> string option" where
  "default_storage_class items =
     (case find (\<lambda>(_, annotations). map_of annotations ''storageclass.kubernetes.io/is-default-class'' = Some ''true'') items of
        Some (n, _) \<Rightarrow> n | None \<Rightarrow> None)"

definition chosen_storage_class :: "'w kube \<Rightarrow> string option \<Rightarrow> ('w, string option) eff" where
  "chosen_storage_class K sc w =
     (case sc of
        Some _ \<Rightarrow> (sc, w)
      | None \<Rightarrow>
          (case kb_list_storage_classes K w of
             (Inr items, w) \<Rightarrow> (default_storage_class items, w)
           | (Inl _, w) \<Rightarrow> (None, w)))"

definition waits_for_consumer :: "'w kube \<Rightarrow> string option \<Rightarrow> ('w, bool) eff" where
  "waits_for_consumer K sc w =
     (case sc of
        None \<Rightarrow> (False, w)
      | Some n \<Rightarrow>
          (case kb_get_storage_class K n w of
             (Inr mode, w) \<Rightarrow> (mode = Some ''WaitForFirstConsumer'', w)
           | (Inl _, w) \<Rightarrow> (False, w)))"

definition pvc_bound :: "'w kube \<Rightarrow> string \<Rightarrow> ('w, unit option) eff" where
  "pvc_bound K ns w =
     (case kb_get_pvc K ns shared_volume_pvc_name w of
        (Inr phase, w) \<Rightarrow> (if phase = Some ''Bound'' then Some () else None, w)
      | (Inl _, w) \<Rightarrow> (None, w))"

definition await_pvc :: "'w kube \<Rightarrow> 'w node_env \<Rightarrow> string \<Rightarrow> string option \<Rightarrow> ('w, unit res) eff" where
  "await_pvc K N ns storage_class w =
     (let (sc, w) = chosen_storage_class K storage_class w;
          (lazy, w) = waits_for_consumer K sc w
      in if lazy then (Inr (), w)
         else case poll 60 (pvc_bound K ns) (nv_sleep_ms N 2000) w of
                (Some _, w) \<Rightarrow> (Inr (), w)
              | (None, w) \<Rightarrow> (Inl (step_err (''shared-volume PVC '' @ quoted shared_volume_pvc_name @ '' in '' @ quoted ns @
                  '' was not bound within 120s'')), w))"

definition ensure_shared_volume_pvc ::
    "'w kube \<Rightarrow> 'w node_env \<Rightarrow> string \<Rightarrow> string \<Rightarrow> string option \<Rightarrow> ('w, unit res) eff" where
  "ensure_shared_volume_pvc K N ns vol_size storage_class w =
     (case kb_get_pvc K ns shared_volume_pvc_name w of
        (Inr _, w) \<Rightarrow> (Inr (), w)
      | (Inl _, w) \<Rightarrow>
          (case kb_create_pvc K ns shared_volume_pvc_name vol_size storage_class w of
             (Inr _, w) \<Rightarrow> await_pvc K N ns storage_class w
           | (Inl e, w) \<Rightarrow>
               (if is_api_error 409 e then await_pvc K N ns storage_class w
                else (Inl (step_err (''failed to create shared-volume PVC '' @ quoted shared_volume_pvc_name @ '' in '' @
                  quoted ns @ '': '' @ kube_text e)), w))))"

section \<open>Pods and jobs\<close>

definition pod_started :: "'w kube \<Rightarrow> string \<Rightarrow> string \<Rightarrow> ('w, unit res option) eff" where
  "pod_started K ns pod w =
     (case kb_get_pod K ns pod w of
        (Inr statuses, w) \<Rightarrow>
          (if list_ex (\<lambda>s. case s of Some CRunning \<Rightarrow> True | Some (CTerminated _) \<Rightarrow> True | _ \<Rightarrow> False) (unwrap_or statuses [])
           then Some (Inr ()) else None, w)
      | (Inl e, w) \<Rightarrow>
          (if is_api_error 404 e then None
           else Some (Inl (step_err (''failed to get pod '' @ quoted pod @ '': '' @ kube_text e))), w))"

definition wait_for_pod_running :: "'w kube \<Rightarrow> 'w node_env \<Rightarrow> string \<Rightarrow> string \<Rightarrow> ('w, unit res) eff" where
  "wait_for_pod_running K N ns pod w =
     (case poll 120 (pod_started K ns pod) (nv_sleep_ms N 1000) w of
        (Some r, w) \<Rightarrow> (r, w)
      | (None, w) \<Rightarrow> (Inl (step_err (''pod '' @ quoted pod @ '' did not start within 120s'')), w))"

definition first_pod :: "'w kube \<Rightarrow> string \<Rightarrow> string \<Rightarrow> ('w, string res option) eff" where
  "first_pod K ns job_name w =
     (case kb_list_pods K ns (''job-name='' @ job_name) w of
        (Inl e, w) \<Rightarrow> (Some (Inl (step_err (''failed to list pods for job '' @ quoted job_name @ '': '' @ kube_text e))), w)
      | (Inr pods, w) \<Rightarrow> (case pods of Some name # _ \<Rightarrow> Some (Inr name) | _ \<Rightarrow> None, w))"

definition wait_for_job_pod :: "'w kube \<Rightarrow> 'w node_env \<Rightarrow> string \<Rightarrow> string \<Rightarrow> ('w, string res) eff" where
  "wait_for_job_pod K N ns job_name w =
     (case poll 60 (first_pod K ns job_name) (nv_sleep_ms N 1000) w of
        (Some r, w) \<Rightarrow> (r, w)
      | (None, w) \<Rightarrow> (Inl (step_err (''no pod created for job '' @ quoted job_name @ '' within 60s'')), w))"

definition get_pod_exit_code :: "'w kube \<Rightarrow> string \<Rightarrow> string \<Rightarrow> ('w, int) eff" where
  "get_pod_exit_code K ns pod w =
     (case kb_get_pod K ns pod w of
        (Inr (Some (Some (CTerminated code) # _)), w) \<Rightarrow> (code, w)
      | (_, w) \<Rightarrow> (- 1, w))"

definition delete_job :: "'w kube \<Rightarrow> string \<Rightarrow> string \<Rightarrow> ('w, unit res) eff" where
  "delete_job K ns name w =
     (case kb_delete_job K ns name w of
        (Inr _, w) \<Rightarrow> (Inr (), w)
      | (Inl e, w) \<Rightarrow>
          (if is_api_error 404 e then (Inr (), w)
           else (Inl (step_err (''failed to delete job '' @ quoted name @ '' in namespace '' @ quoted ns @ '': '' @ kube_text e)), w)))"

section \<open>Logs\<close>

fun take_lines ::
    "'w node_env \<Rightarrow> 'w log_sink option \<Rightarrow> string \<Rightarrow> (string \<Rightarrow> date_time \<Rightarrow> log_chunk) \<Rightarrow> (string + string) list \<Rightarrow> string \<Rightarrow>
     ('w, string res) eff" where
  "take_lines N sink pod chunk [] out w = (Inr out, w)"
| "take_lines N sink pod chunk (Inl e # ls) out w =
     (Inl (step_err (''log stream error for pod '' @ quoted pod @ '': '' @ e)), w)"
| "take_lines N sink pod chunk (Inr line # ls) out w =
     (let w = (case sink of
            Some s \<Rightarrow> (let (now, w) = nv_now N w in s (chunk (line @ [CHR 0x0A]) now) w)
          | None \<Rightarrow> w)
      in take_lines N sink pod chunk ls (out @ line @ [CHR 0x0A]) w)"

definition stream_pod_logs ::
    "'w kube \<Rightarrow> 'w node_env \<Rightarrow> string \<Rightarrow> string \<Rightarrow> string \<Rightarrow> string \<Rightarrow> string \<Rightarrow> nat \<Rightarrow> 'w log_sink option \<Rightarrow> ('w, string res) eff" where
  "stream_pod_logs K N ns pod name def_id wid step_id sink w =
     (case kb_log_stream K ns pod w of
        (Inl e, w) \<Rightarrow> (Inl (step_err (''failed to stream logs from pod '' @ quoted pod @ '': '' @ kube_text e)), w)
      | (Inr ls, w) \<Rightarrow>
          take_lines N sink pod (\<lambda>data now. \<lparr>lc_workflow_id = wid, lc_definition_id = def_id, lc_step_id = step_id,
            lc_step_name = name, lc_stream = Stdout, lc_data = data, lc_timestamp = now\<rparr>) ls [] w)"

section \<open>Copying artifacts\<close>

definition kubectl :: "string option \<Rightarrow> string list \<Rightarrow> string list" where
  "kubectl kubeconfig args = (case kubeconfig of Some kc \<Rightarrow> [''--kubeconfig'', kc] | None \<Rightarrow> []) @ args"

definition exec_in_pod :: "string option \<Rightarrow> string \<Rightarrow> string \<Rightarrow> string list \<Rightarrow> string list" where
  "exec_in_pod kc ns pod args = kubectl kc ([''exec'', ''-n'', ns, pod, ''-c'', ''step'', ''--''] @ args)"

fun copy_inputs ::
    "'w node_env \<Rightarrow> string \<Rightarrow> string \<Rightarrow> string \<Rightarrow> string option \<Rightarrow> (string + string) list \<Rightarrow> ('w, unit res) eff" where
  "copy_inputs N ns pod dir kc [] w = (Inr (), w)"
| "copy_inputs N ns pod dir kc (Inl e # entries) w =
     (Inl (step_err (''failed to read artifact input entry: '' @ e)), w)"
| "copy_inputs N ns pod dir kc (Inr name # entries) w =
     (case attempts 5 (nv_kubectl N (exec_in_pod kc ns pod [''mkdir'', ''-p'', ''/wfe-artifacts/inputs''])) (nv_sleep_ms N 500) w of
        (False, w) \<Rightarrow> (Inl (step_err (''kubectl exec mkdir failed for artifact '' @ quoted name @ '' after retries'')), w)
      | (True, w) \<Rightarrow>
          (case attempts 5 (nv_kubectl N (kubectl kc
               [''cp'', path_join dir name, ns @ ''/'' @ pod @ '':/wfe-artifacts/inputs/'', ''-c'', ''step''])) (nv_sleep_ms N 500) w of
             (False, w) \<Rightarrow> (Inl (step_err (''kubectl cp failed for artifact '' @ quoted name @ '' after retries'')), w)
           | (True, w) \<Rightarrow> copy_inputs N ns pod dir kc entries w))"

definition copy_artifacts_into_pod ::
    "'w node_env \<Rightarrow> string \<Rightarrow> string \<Rightarrow> string \<Rightarrow> string option \<Rightarrow> ('w, unit res) eff" where
  "copy_artifacts_into_pod N ns pod local_dir kc w =
     (let dir = path_join local_dir ''inputs''; (there, w) = nv_exists N dir w
      in if \<not> there then (Inr (), w)
         else case nv_read_dir N dir w of
                (Inl e, w) \<Rightarrow> (Inl (step_err (''failed to read artifact inputs dir: '' @ e)), w)
              | (Inr entries, w) \<Rightarrow> copy_inputs N ns pod dir kc entries w)"

definition tar_error :: "string \<Rightarrow> tar_failure \<Rightarrow> wfe_error" where
  "tar_error name f = step_err
     (case f of
        TarAppend e \<Rightarrow> ''failed to tar artifact output '' @ quoted name @ '': '' @ e
      | TarFinish e \<Rightarrow> ''failed to finish tar for artifact output '' @ quoted name @ '': '' @ e
      | GzipFinish e \<Rightarrow> ''failed to finish gzip for artifact output '' @ quoted name @ '': '' @ e
      | TarPanicked e \<Rightarrow> ''artifact output tar task panicked for '' @ quoted name @ '': '' @ e)"

definition store_output ::
    "'w node_env \<Rightarrow> 'w artifact_store \<Rightarrow> string \<Rightarrow> string \<Rightarrow> (string \<times> json) list \<Rightarrow> ('w, (string \<times> json) list res) eff" where
  "store_output N store name dir copied w =
     (case nv_tar_gz N dir w of
        (Inl f, w) \<Rightarrow> (Inl (tar_error name f), w)
      | (Inr bytes, w) \<Rightarrow>
          (case put_blob store [Inr bytes] w of
             (Inl e, w) \<Rightarrow> (Inl (StepExecution (MsgErr (''failed to store artifact output '' @ quoted name @ '': '') e)), w)
           | (Inr digest, w) \<Rightarrow> (Inr (AList.update name (artifact_ref_value digest) copied), w)))"

definition copy_output ::
    "'w node_env \<Rightarrow> 'w artifact_store \<Rightarrow> string \<Rightarrow> string \<Rightarrow> string option \<Rightarrow> string \<Rightarrow> (string \<times> json) list \<Rightarrow>
     ('w, (string \<times> json) list res) eff" where
  "copy_output N store ns pod kc name copied w =
     (if map_of copied name \<noteq> None then (Inr copied, w)
      else let remote_dir = ''/wfe-artifacts/outputs/'' @ name in
        case attempts 3 (nv_kubectl N (exec_in_pod kc ns pod [''test'', ''-d'', remote_dir])) (nv_sleep_ms N 200) w of
          (False, w) \<Rightarrow> (Inr copied, w)
        | (True, w) \<Rightarrow>
            (let (u, w) = nv_uuid N w;
                 dir = path_join (nv_temp_dir N) (''wfe-k8s-output-'' @ name @ ''-'' @ u)
             in case nv_create_dir_all N dir w of
                  (Inl e, w) \<Rightarrow> (Inl (step_err (''failed to create local output dir: '' @ e)), w)
                | (Inr _, w) \<Rightarrow>
                    (case attempts 3 (nv_kubectl N (kubectl kc
                         [''cp'', ns @ ''/'' @ pod @ '':'' @ remote_dir, dir, ''-c'', ''step''])) (nv_sleep_ms N 200) w of
                       (False, w) \<Rightarrow> (Inr copied, w)
                     | (True, w) \<Rightarrow> store_output N store name dir copied w)))"

fun copy_outputs ::
    "'w node_env \<Rightarrow> 'w artifact_store \<Rightarrow> string \<Rightarrow> string \<Rightarrow> string option \<Rightarrow> (string \<times> string) list \<Rightarrow> (string \<times> json) list \<Rightarrow>
     ('w, (string \<times> json) list res) eff" where
  "copy_outputs N store ns pod kc [] copied w = (Inr copied, w)"
| "copy_outputs N store ns pod kc ((name, _) # outs) copied w =
     (case copy_output N store ns pod kc name copied w of
        (Inl e, w) \<Rightarrow> (Inl e, w)
      | (Inr copied, w) \<Rightarrow> copy_outputs N store ns pod kc outs copied w)"

section \<open>Waiting for a job\<close>

definition job_finished :: "job_status \<Rightarrow> bool" where
  "job_finished s \<longleftrightarrow>
     list_ex (\<lambda>(t, v). (t = ''Complete'' \<or> t = ''Failed'') \<and> v = ''True'') (js_conditions s) \<or>
     0 < unwrap_or (js_succeeded s) 0 \<or> 0 < unwrap_or (js_failed s) 0"

text \<open>One iteration; \<open>None\<close> is: go on. The standard error is always empty.\<close>

definition check_job ::
    "'w kube \<Rightarrow> string \<Rightarrow> string \<Rightarrow> string \<Rightarrow> nat \<Rightarrow> (string \<times> json) list \<Rightarrow>
     ('w, (int \<times> string \<times> (string \<times> json) list) res option) eff" where
  "check_job K ns job_name pod iteration copied w =
     (if iteration mod 10 \<noteq> 0 then (None, w)
      else case kb_get_job K ns job_name w of
             (Inl e, w) \<Rightarrow> (Some (Inl (step_err (''failed to get job '' @ quoted job_name @ '': '' @ kube_text e))), w)
           | (Inr None, w) \<Rightarrow> (None, w)
           | (Inr (Some s), w) \<Rightarrow>
               (if job_finished s then (let (code, w) = get_pod_exit_code K ns pod w in (Some (Inr (code, [], copied)), w))
                else (None, w)))"

fun await_job ::
    "'w kube \<Rightarrow> 'w node_env \<Rightarrow> string \<Rightarrow> string \<Rightarrow> string \<Rightarrow> (string \<times> string) list \<Rightarrow> 'w artifact_store option \<Rightarrow> string option \<Rightarrow>
     nat \<Rightarrow> nat \<Rightarrow> (string \<times> json) list \<Rightarrow> ('w, (int \<times> string \<times> (string \<times> json) list) res) eff" where
  "await_job K N ns job_name pod outs store kc 0 iteration copied w =
     (Inl (step_err (''job '' @ quoted job_name @ '' did not complete within 600s'')), w)"
| "await_job K N ns job_name pod outs store kc (Suc n) iteration copied w =
     (case (case store of
              Some s \<Rightarrow> if outs \<noteq> [] then copy_outputs N s ns pod kc outs copied w else (Inr copied, w)
            | None \<Rightarrow> (Inr copied, w)) of
        (Inl e, w) \<Rightarrow> (Inl e, w)
      | (Inr copied, w) \<Rightarrow>
          (case check_job K ns job_name pod iteration copied w of
             (Some r, w) \<Rightarrow> (r, w)
           | (None, w) \<Rightarrow> await_job K N ns job_name pod outs store kc n (Suc iteration) copied (nv_sleep_ms N 100 w)))"

definition wait_for_job_completion_with_outputs ::
    "'w kube \<Rightarrow> 'w node_env \<Rightarrow> string \<Rightarrow> string \<Rightarrow> string \<Rightarrow> (string \<times> string) list \<Rightarrow> 'w artifact_store option \<Rightarrow> string option \<Rightarrow>
     ('w, (int \<times> string \<times> (string \<times> json) list) res) eff" where
  "wait_for_job_completion_with_outputs K N ns job_name pod outs store kc =
     await_job K N ns job_name pod outs store kc 3000 0 []"

section \<open>The step\<close>

record kube_self =
  sf_client :: bool
  sf_mount_dir :: "string option"
  sf_input_names :: "string list"

definition execute_job ::
    "'w kube \<Rightarrow> 'w node_env \<Rightarrow> 'w log_sink option \<Rightarrow> kubernetes_step_config \<Rightarrow> cluster_config \<Rightarrow> string \<Rightarrow> string \<Rightarrow> string \<Rightarrow>
     'w artifact_store option \<Rightarrow> 'v step_context \<Rightarrow> ('w, execution_result res) eff" where
  "execute_job K N sink c cluster ns job_name name store ctx w =
     (case wait_for_job_pod K N ns job_name w of
        (Inl e, w) \<Rightarrow> (Inl e, w)
      | (Inr pod, w) \<Rightarrow>
          (case wait_for_pod_running K N ns pod w of
             (Inl e, w) \<Rightarrow> (Inl e, w)
           | (Inr _, w) \<Rightarrow>
               (let wf = sx_workflow ctx;
                    (logs, w) = stream_pod_logs K N ns pod name (wi_workflow_definition_id wf)
                      (unwrap_or (wi_root_workflow_id wf) (wi_id wf)) (ws_id (sx_step ctx)) sink w;
                    stdout = (case logs of Inr s \<Rightarrow> s | Inl _ \<Rightarrow> [])
                in case wait_for_job_completion_with_outputs K N ns job_name pod (ks_artifact_outputs c) store
                       (cc_kubeconfig cluster) w of
                     (Inl e, w) \<Rightarrow> (Inl e, w)
                   | (Inr (exit_code, stderr, refs), w) \<Rightarrow>
                       (if exit_code \<noteq> 0 then
                          (Inl (step_err (''kubernetes job '' @ quoted job_name @ '' exited with code '' @ show_int exit_code @
                             [CHR 0x0A] @ ''stdout: '' @ stdout @ [CHR 0x0A] @ ''stderr: '' @ stderr)), w)
                        else
                          (let data = k8s_build_output_data (nv_from_str N) name stdout stderr exit_code (k8s_parse_outputs stdout);
                               data = fold (\<lambda>(n, r) d. case d of JObject m \<Rightarrow> JObject (obj_insert n r m) | _ \<Rightarrow> d) refs data
                           in (Inr (result_default\<lparr>er_proceed := True, er_output_data := Some data\<rparr>), w))))))"

definition shared_volume_of_json :: "json \<Rightarrow> shared_volume option" where
  "shared_volume_of_json v =
     (let build = (\<lambda>path sz. case path of
            JString p \<Rightarrow> (case sz of
                JNull \<Rightarrow> Some \<lparr>sv_mount_path = p, sv_size = None\<rparr>
              | JString s \<Rightarrow> Some \<lparr>sv_mount_path = p, sv_size = Some s\<rparr>
              | _ \<Rightarrow> None)
          | _ \<Rightarrow> None)
      in case v of
           JObject m \<Rightarrow> (case map_of m ''mount_path'' of
               Some path \<Rightarrow> build path (unwrap_or (map_of m ''size'') JNull)
             | None \<Rightarrow> None)
         | JArray [path] \<Rightarrow> build path JNull
         | JArray [path, sz] \<Rightarrow> build path sz
         | _ \<Rightarrow> None)"

definition step_shared_volume :: "'v step_context \<Rightarrow> shared_volume option" where
  "step_shared_volume ctx =
     (case and_then (sx_definition ctx) wd_shared_volume of
        Some sv \<Rightarrow> Some sv
      | None \<Rightarrow> and_then (json_get (wi_data (sx_workflow ctx)) ''_wfe_shared_volume'') shared_volume_of_json)"

definition ensure_shared_mount ::
    "'w kube \<Rightarrow> 'w node_env \<Rightarrow> cluster_config \<Rightarrow> string \<Rightarrow> 'v step_context \<Rightarrow> ('w, shared_volume_mount option res) eff" where
  "ensure_shared_mount K N cluster ns ctx w =
     (case step_shared_volume ctx of
        None \<Rightarrow> (Inr None, w)
      | Some sv \<Rightarrow>
          (case ensure_shared_volume_pvc K N ns (unwrap_or (sv_size sv) (cc_default_shared_volume_size cluster))
               (cc_shared_volume_storage_class cluster) w of
             (Inl e, w) \<Rightarrow> (Inl e, w)
           | (Inr _, w) \<Rightarrow> (Inr (Some \<lparr>sm_claim_name = shared_volume_pvc_name, sm_mount_path = sv_mount_path sv\<rparr>), w)))"

text \<open>The inputs are copied once the container runs; \<open>Inl\<close> is an early return, before which the job is deleted.\<close>

definition provide_inputs ::
    "'w kube \<Rightarrow> 'w node_env \<Rightarrow> cluster_config \<Rightarrow> string \<Rightarrow> string \<Rightarrow> string option \<Rightarrow> ('w, unit res) eff" where
  "provide_inputs K N cluster ns job_name mount_dir w =
     (case mount_dir of
        None \<Rightarrow> (Inr (), w)
      | Some dir \<Rightarrow>
          (case wait_for_job_pod K N ns job_name w of
             (Inl _, w) \<Rightarrow> (Inr (), w)
           | (Inr pod, w) \<Rightarrow>
               (case wait_for_pod_running K N ns pod w of
                  (Inl e, w) \<Rightarrow>
                    (let (_, w) = delete_job K ns job_name w
                     in (Inl (StepExecution (MsgErr ''pod never reached running state for artifact copy: '' e)), w))
                | (Inr _, w) \<Rightarrow>
                    (case copy_artifacts_into_pod N ns pod dir (cc_kubeconfig cluster) (nv_sleep_ms N 500 w) of
                       (Inl e, w) \<Rightarrow>
                         (let (_, w) = delete_job K ns job_name w
                          in (Inl (StepExecution (MsgErr ''failed to copy artifacts into pod: '' e)), w))
                     | (Inr _, w) \<Rightarrow> (Inr (), w)))))"

definition finish_job ::
    "'w kube \<Rightarrow> 'w node_env \<Rightarrow> ('w, execution_result res) deadline \<Rightarrow> kubernetes_step_config \<Rightarrow> string \<Rightarrow> string \<Rightarrow>
     ('w, execution_result res) eff \<Rightarrow> ('w, execution_result res) eff" where
  "finish_job K N D c ns job_name body w =
     (case ks_timeout_ms c of
        Some ms \<Rightarrow>
          (case D (unat ms) body w of
             (None, w) \<Rightarrow>
               (let (_, w) = delete_job K ns job_name w
                in (Inl (step_err (''kubernetes job '' @ quoted job_name @ '' timed out after '' @ show_u64 ms @ ''ms'')), w))
           | (Some r, w) \<Rightarrow> (let (_, w) = delete_job K ns job_name w in (r, w)))
      | None \<Rightarrow> (let (r, w) = body w; (_, w) = delete_job K ns job_name w in (r, w)))"

definition run_job ::
    "'w kube \<Rightarrow> 'w node_env \<Rightarrow> ('w, execution_result res) deadline \<Rightarrow> 'w log_sink option \<Rightarrow> kubernetes_step_config \<Rightarrow> cluster_config \<Rightarrow>
     string \<Rightarrow> 'w artifact_store option \<Rightarrow> kube_self \<Rightarrow> 'v step_context \<Rightarrow> shared_volume_mount option \<Rightarrow> ('w, execution_result res) eff" where
  "run_job K N D sink c cluster ns store self ctx shared w =
     (let name = unknown_name ctx;
          manifest = build_job c name ns (extract_workflow_env (nv_json_text N) (wi_data (sx_workflow ctx))) cluster shared
            (sf_mount_dir self \<noteq> None \<or> ks_artifact_outputs c \<noteq> []) (sf_input_names self);
          job_name = jb_name manifest
      in case kb_create_job K ns manifest w of
           (Inl e, w) \<Rightarrow> (Inl (step_err (''failed to create job '' @ quoted job_name @ '': '' @ kube_text e)), w)
         | (Inr _, w) \<Rightarrow>
             (case provide_inputs K N cluster ns job_name (sf_mount_dir self) w of
                (Inl e, w) \<Rightarrow> (Inl e, w)
              | (Inr _, w) \<Rightarrow> finish_job K N D c ns job_name (execute_job K N sink c cluster ns job_name name store ctx) w))"

definition step_namespace :: "kubernetes_step_config \<Rightarrow> cluster_config \<Rightarrow> workflow_instance \<Rightarrow> string" where
  "step_namespace c cluster inst =
     (case ks_namespace c of
        Some ns \<Rightarrow> ns
      | None \<Rightarrow> namespace_name (cc_namespace_prefix cluster) (unwrap_or (wi_root_workflow_id inst) (wi_id inst)))"

definition kube_run ::
    "'w kube \<Rightarrow> 'w node_env \<Rightarrow> ('w, execution_result res) deadline \<Rightarrow> 'w log_sink option \<Rightarrow> 'w artifact_store option \<Rightarrow>
     kubernetes_step_config \<Rightarrow> cluster_config \<Rightarrow> 'v step_context \<Rightarrow> ('w \<times> kube_self, execution_result res) eff" where
  "kube_run K N D sink store c cluster ctx = (\<lambda>(w, self).
     (let ns = step_namespace c cluster (sx_workflow ctx);
          (conn, w) = (if sf_client self then (Inr (), w) else kb_connect K cluster w)
      in case conn of
           Inl e \<Rightarrow> (Inl e, (w, self))
         | Inr _ \<Rightarrow>
             (let self = self\<lparr>sf_client := True\<rparr> in
              case ensure_namespace K ns (wi_id (sx_workflow ctx)) w of
                (Inl e, w) \<Rightarrow> (Inl e, (w, self))
              | (Inr _, w) \<Rightarrow>
                  (case ensure_shared_mount K N cluster ns ctx w of
                     (Inl e, w) \<Rightarrow> (Inl e, (w, self))
                   | (Inr shared, w) \<Rightarrow>
                       (let (r, w) = run_job K N D sink c cluster ns store self ctx shared w in (r, (w, self)))))))"

fun extract_inputs ::
    "'w node_env \<Rightarrow> 'w tar_env \<Rightarrow> artifact_volume \<Rightarrow> string \<Rightarrow> string list \<Rightarrow> ('w \<times> kube_self, unit res) eff" where
  "extract_inputs N T vol tmp [] s = (Inr (), s)"
| "extract_inputs N T vol tmp (name # names) (w, self) =
     (let dest = path_join (path_join tmp ''inputs'') name in
      case nv_create_dir_all N dest w of
        (Inl e, w) \<Rightarrow> (Inl (step_err (''failed to create artifact input dir '' @ quoted name @ '': '' @ e)), (w, self))
      | (Inr _, w) \<Rightarrow>
          (case extract_one T vol name dest w of
             (Inl e, w) \<Rightarrow> (Inl (StepExecution (MsgErr (''failed to extract artifact '' @ quoted name @ '': '') e)), (w, self))
           | (Inr _, w) \<Rightarrow> extract_inputs N T vol tmp names (w, self\<lparr>sf_input_names := sf_input_names self @ [name]\<rparr>)))"

definition kube_mount ::
    "'w node_env \<Rightarrow> 'w tar_env \<Rightarrow> 'v step_context \<Rightarrow> ('w \<times> kube_self, unit res) eff" where
  "kube_mount N T ctx = (\<lambda>(w, self).
     case sx_artifact_volume ctx of
       None \<Rightarrow> (Inr (), (w, self))
     | Some vol \<Rightarrow>
         (if vol = [] then (Inr (), (w, self))
          else let (u, w) = nv_uuid N w; tmp = path_join (nv_temp_dir N) (''wfe-k8s-artifacts-'' @ u) in
            case nv_create_dir_all N tmp w of
              (Inl e, w) \<Rightarrow> (Inl (step_err (''failed to create artifact temp dir: '' @ e)), (w, self))
            | (Inr _, w) \<Rightarrow>
                (case extract_inputs N T vol tmp (map fst vol) (w, self) of
                   (Inl e, s) \<Rightarrow> (Inl e, s)
                 | (Inr _, (w, self)) \<Rightarrow> (Inr (), (w, self\<lparr>sf_mount_dir := Some tmp\<rparr>)))))"

definition kube_unmount :: "'w node_env \<Rightarrow> 'v step_context \<Rightarrow> ('w \<times> kube_self, unit res) eff" where
  "kube_unmount N ctx = (\<lambda>(w, self).
     let w = (case sf_mount_dir self of Some dir \<Rightarrow> snd (nv_remove_dir_all N dir w) | None \<Rightarrow> w)
     in (Inr (), (w, self\<lparr>sf_mount_dir := None, sf_input_names := []\<rparr>)))"

definition kube_body ::
    "'w kube \<Rightarrow> 'w node_env \<Rightarrow> 'w tar_env \<Rightarrow> ('w, execution_result res) deadline \<Rightarrow> 'w log_sink option \<Rightarrow> 'w artifact_store option \<Rightarrow>
     kubernetes_step_config \<Rightarrow> cluster_config \<Rightarrow> ('w \<times> kube_self) step_body" where
  "kube_body K N T D sink store c cluster =
     \<lparr>run = kube_run K N D sink store c cluster, mount_artifacts = kube_mount N T, unmount_artifacts = kube_unmount N\<rparr>"

section \<open>Services\<close>

fun provision_each ::
    "'w kube \<Rightarrow> 'w node_env \<Rightarrow> ('w, unit res) deadline \<Rightarrow> string \<Rightarrow> service_definition list \<Rightarrow> service_endpoint list \<Rightarrow>
     ('w, service_endpoint list res) eff" where
  "provision_each K N D ns [] done_so_far w = (Inr done_so_far, w)"
| "provision_each K N D ns (svc # svcs) done_so_far w =
     (case kb_create_pod K ns (build_service_pod svc ns) w of
        (Inl e, w) \<Rightarrow> (Inl (step_err (''failed to create service pod '' @ quoted (sd_name svc) @ '': '' @ kube_text e)), w)
      | (Inr _, w) \<Rightarrow>
          (case kb_create_service K ns (build_k8s_service svc ns) w of
             (Inl e, w) \<Rightarrow> (Inl (step_err (''failed to create k8s service '' @ quoted (sd_name svc) @ '': '' @ kube_text e)), w)
           | (Inr _, w) \<Rightarrow>
               (let limit = (case sd_readiness svc of Some r \<Rightarrow> unat (rp_timeout_ms r) | None \<Rightarrow> 120000) in
                case D limit (wait_for_pod_running K N ns (sd_name svc)) w of
                  (Some (Inl e), w) \<Rightarrow>
                    (Inl (StepExecution (MsgErr (''service '' @ quoted (sd_name svc) @ '' pod failed to start: '') e)), w)
                | (None, w) \<Rightarrow>
                    (Inl (step_err (''service '' @ quoted (sd_name svc) @ '' readiness timed out after '' @ show_nat limit @ ''ms'')), w)
                | (Some (Inr _), w) \<Rightarrow>
                    provision_each K N D ns svcs
                      (done_so_far @ [\<lparr>se_name = sd_name svc, se_host = sd_name svc, se_ports = sd_ports svc\<rparr>]) w)))"

definition kube_provision ::
    "'w kube \<Rightarrow> 'w node_env \<Rightarrow> ('w, unit res) deadline \<Rightarrow> cluster_config \<Rightarrow> string \<Rightarrow> service_definition list \<Rightarrow>
     ('w, service_endpoint list res) eff" where
  "kube_provision K N D cluster workflow_id services w =
     (let ns = namespace_name (cc_namespace_prefix cluster) workflow_id in
      case ensure_namespace K ns workflow_id w of
        (Inl e, w) \<Rightarrow> (Inl e, w)
      | (Inr _, w) \<Rightarrow> provision_each K N D ns services [] w)"

definition kube_teardown :: "'w kube \<Rightarrow> cluster_config \<Rightarrow> string \<Rightarrow> ('w, unit res) eff" where
  "kube_teardown K cluster workflow_id = delete_namespace K (namespace_name (cc_namespace_prefix cluster) workflow_id)"

definition kube_service_provider ::
    "'w kube \<Rightarrow> 'w node_env \<Rightarrow> ('w, unit res) deadline \<Rightarrow> cluster_config \<Rightarrow> 'w service_provider" where
  "kube_service_provider K N D cluster =
     \<lparr>can_provision = (\<lambda>_. True), provision = kube_provision K N D cluster, teardown = kube_teardown K cluster\<rparr>"

section \<open>Jobs are cleaned up\<close>

text \<open>
  What the cluster and the node do to the jobs, \<open>jobs\<close> being their set, by namespace and name. The names of
  jobs are unique in a namespace, so a creation under a name that is taken is refused. A job that was created is
  there, and a creation that reports an error has created nothing; that leaves out a request that the server
  carries out while its answer is lost. A deleted job is gone; nothing else creates or removes jobs, neither the artifact store nor the log sink
  do, and a future that is dropped at its deadline has done a part of its work.
\<close>

definition cluster_jobs ::
    "'w kube \<Rightarrow> 'w node_env \<Rightarrow> ('w, execution_result res) deadline \<Rightarrow> 'w log_sink option \<Rightarrow> 'w artifact_store option \<Rightarrow>
     ('w \<Rightarrow> (string \<times> string) set) \<Rightarrow> bool" where
  "cluster_jobs K N D sink store jobs \<longleftrightarrow>
     (\<forall>ns m w r w'. kb_create_job K ns m w = (r, w') \<longrightarrow>
        ((ns, jb_name m) \<in> jobs w \<longrightarrow> isl r) \<and>
        jobs w' = (if isl r then jobs w else insert (ns, jb_name m) (jobs w))) \<and>
     (\<forall>ns n w r w'. kb_delete_job K ns n w = (r, w') \<longrightarrow>
        jobs w' = jobs w - {(ns, n)} \<or> (\<exists>e. r = Inl e \<and> \<not> is_api_error 404 e) \<and> jobs w' = jobs w) \<and>
     (\<forall>c. quiet jobs (kb_connect K c)) \<and> (\<forall>n. quiet jobs (kb_get_namespace K n)) \<and>
     (\<forall>n ls. quiet jobs (kb_create_namespace K n ls)) \<and> (\<forall>ns n. quiet jobs (kb_get_pvc K ns n)) \<and>
     (\<forall>ns n s sc. quiet jobs (kb_create_pvc K ns n s sc)) \<and> quiet jobs (kb_list_storage_classes K) \<and>
     (\<forall>n. quiet jobs (kb_get_storage_class K n)) \<and> (\<forall>ns n. quiet jobs (kb_get_job K ns n)) \<and>
     (\<forall>ns l. quiet jobs (kb_list_pods K ns l)) \<and> (\<forall>ns n. quiet jobs (kb_get_pod K ns n)) \<and>
     (\<forall>ns n. quiet jobs (kb_log_stream K ns n)) \<and> (\<forall>args. quiet jobs (nv_kubectl N args)) \<and>
     (\<forall>ms w. jobs (nv_sleep_ms N ms w) = jobs w) \<and> quiet jobs (nv_now N) \<and> quiet jobs (nv_uuid N) \<and>
     (\<forall>d. quiet jobs (nv_create_dir_all N d)) \<and> (\<forall>d. quiet jobs (nv_exists N d)) \<and>
     (\<forall>d. quiet jobs (nv_read_dir N d)) \<and> (\<forall>d. quiet jobs (nv_tar_gz N d)) \<and>
     (\<forall>s chunk w. sink = Some s \<longrightarrow> jobs (s chunk w) = jobs w) \<and>
     (\<forall>s b. store = Some s \<longrightarrow> quiet jobs (put_blob s b)) \<and>
     (\<forall>n f. quiet jobs f \<longrightarrow> quiet jobs (D n f))"

lemma cluster_jobsD:
  assumes "cluster_jobs K N D sink store jobs"
  shows "quiet jobs (kb_connect K c)" "quiet jobs (kb_get_namespace K n)" "quiet jobs (kb_create_namespace K n ls)"
    "quiet jobs (kb_get_pvc K ns n)" "quiet jobs (kb_create_pvc K ns n sz sc)" "quiet jobs (kb_list_storage_classes K)"
    "quiet jobs (kb_get_storage_class K n)" "quiet jobs (kb_get_job K ns n)" "quiet jobs (kb_list_pods K ns l)"
    "quiet jobs (kb_get_pod K ns n)" "quiet jobs (kb_log_stream K ns n)" "quiet jobs (nv_kubectl N args)"
    "jobs (nv_sleep_ms N ms w) = jobs w" "quiet jobs (nv_now N)" "quiet jobs (nv_uuid N)"
    "quiet jobs (nv_create_dir_all N d)" "quiet jobs (nv_exists N d)" "quiet jobs (nv_read_dir N d)"
    "quiet jobs (nv_tar_gz N d)" "sink = Some s \<Longrightarrow> jobs (s chunk w) = jobs w"
    "store = Some st \<Longrightarrow> quiet jobs (put_blob st b)" "quiet jobs f \<Longrightarrow> quiet jobs (D k f)"
  using assms unfolding cluster_jobs_def by simp_all

lemma quiet_poll:
  assumes "quiet jobs body" and "\<And>w. jobs (pause w) = jobs w"
  shows "quiet jobs (poll n body pause)"
  unfolding quiet_def
proof
  fix w show "jobs (snd (poll n body pause w)) = jobs w"
    by (induction n arbitrary: w) (auto simp: assms(2) split: prod.splits option.splits dest: quietD[OF assms(1)])
qed

lemma quiet_attempts:
  assumes "quiet jobs cmd" and "\<And>w. jobs (pause w) = jobs w"
  shows "quiet jobs (attempts n cmd pause)"
  unfolding quiet_def
proof
  fix w show "jobs (snd (attempts n cmd pause w)) = jobs w"
    by (induction n arbitrary: w) (auto simp: assms(2) split: prod.splits bool.splits dest: quietD[OF assms(1)])
qed

lemma cluster_quiet:
  assumes "cluster_jobs K N D sink store jobs"
  shows "jobs (snd (kb_connect K c w)) = jobs w" "jobs (snd (kb_get_namespace K n w)) = jobs w"
    "jobs (snd (kb_create_namespace K n ls w)) = jobs w" "jobs (snd (kb_get_pvc K ns n w)) = jobs w"
    "jobs (snd (kb_create_pvc K ns n sz sc w)) = jobs w" "jobs (snd (kb_list_storage_classes K w)) = jobs w"
    "jobs (snd (kb_get_storage_class K n w)) = jobs w" "jobs (snd (kb_get_job K ns n w)) = jobs w"
    "jobs (snd (kb_list_pods K ns l w)) = jobs w" "jobs (snd (kb_get_pod K ns n w)) = jobs w"
    "jobs (snd (kb_log_stream K ns n w)) = jobs w" "jobs (nv_sleep_ms N ms w) = jobs w"
    "jobs (snd (nv_now N w)) = jobs w" "jobs (snd (nv_uuid N w)) = jobs w"
    "jobs (snd (nv_create_dir_all N d w)) = jobs w" "jobs (snd (nv_exists N d w)) = jobs w"
    "jobs (snd (nv_read_dir N d w)) = jobs w" "jobs (snd (nv_tar_gz N d w)) = jobs w"
    "jobs (snd (attempts k (nv_kubectl N args) (nv_sleep_ms N ms) w)) = jobs w"
  using cluster_jobsD[OF assms] quiet_attempts[of jobs "nv_kubectl N args" "nv_sleep_ms N ms" k]
  unfolding quiet_def by simp_all

lemma quiet_namespace:
  assumes "cluster_jobs K N D sink store jobs"
  shows "jobs (snd (ensure_namespace K n i w)) = jobs w"
  by (simp add: ensure_namespace_def quiet_unfold cluster_quiet[OF assms] split: sum.splits)

lemma quiet_shared_mount:
  assumes "cluster_jobs K N D sink store jobs"
  shows "jobs (snd (ensure_shared_mount K N cluster ns ctx w)) = jobs w"
proof -
  have "quiet jobs (pvc_bound K ns)"
    by (simp add: quiet_def pvc_bound_def quiet_unfold cluster_quiet[OF assms] split: sum.splits)
  from quiet_poll[OF this] have "jobs (snd (poll n (pvc_bound K ns) (nv_sleep_ms N ms) w)) = jobs w" for n ms w
    by (simp add: quiet_def cluster_quiet[OF assms])
  then have "jobs (snd (await_pvc K N ns sc w)) = jobs w" for sc w
    by (simp add: await_pvc_def chosen_storage_class_def waits_for_consumer_def quiet_unfold cluster_quiet[OF assms]
        split: sum.splits option.splits)
  then show ?thesis
    by (simp add: ensure_shared_mount_def ensure_shared_volume_pvc_def quiet_unfold cluster_quiet[OF assms]
        split: sum.splits option.splits)
qed

lemma quiet_waits:
  assumes "cluster_jobs K N D sink store jobs"
  shows "jobs (snd (wait_for_job_pod K N ns n w)) = jobs w" "jobs (snd (wait_for_pod_running K N ns n w)) = jobs w"
proof -
  have "quiet jobs (pod_started K ns n)" "quiet jobs (first_pod K ns n)"
    by (simp_all add: quiet_def pod_started_def first_pod_def quiet_unfold cluster_quiet[OF assms] split: sum.splits)
  from this[THEN quiet_poll]
  have "jobs (snd (poll k (pod_started K ns n) (nv_sleep_ms N ms) w)) = jobs w"
    "jobs (snd (poll k (first_pod K ns n) (nv_sleep_ms N ms) w)) = jobs w" for k ms w
    by (simp_all add: quiet_def cluster_quiet[OF assms])
  then show "jobs (snd (wait_for_job_pod K N ns n w)) = jobs w" "jobs (snd (wait_for_pod_running K N ns n w)) = jobs w"
    by (simp_all add: wait_for_job_pod_def wait_for_pod_running_def quiet_unfold split: option.splits)
qed

lemma quiet_logs:
  assumes "cluster_jobs K N D sink store jobs"
  shows "jobs (snd (stream_pod_logs K N ns pod n d i k sink w)) = jobs w"
proof -
  have "jobs (snd (take_lines N sink pod chunk ls out w)) = jobs w" for chunk ls out w
  proof (cases sink)
    case None
    then show ?thesis by (induction N sink pod chunk ls out w rule: take_lines.induct) simp_all
  next
    case (Some s)
    from cluster_jobsD(20)[OF assms Some] have "jobs (s x w) = jobs w" for x w .
    note keep = this
    show ?thesis
    proof (induction ls arbitrary: out w)
      case (Cons l ls)
      then show ?case by (cases l) (simp_all add: Some keep quiet_unfold cluster_quiet[OF assms])
    qed simp
  qed
  then show ?thesis
    by (simp add: stream_pod_logs_def quiet_unfold cluster_quiet[OF assms] split: sum.splits)
qed

lemma quiet_copy_outputs:
  assumes "cluster_jobs K N D sink store jobs" and "store = Some s"
  shows "jobs (snd (copy_outputs N s ns pod kc outs copied w)) = jobs w"
proof -
  have "jobs (snd (copy_output N s ns pod kc name copied w)) = jobs w" for name copied w
    using cluster_jobsD(21)[OF assms]
    by (simp add: copy_output_def store_output_def quiet_unfold cluster_quiet[OF assms(1)] quiet_def
        split: sum.splits bool.splits)
  then show ?thesis
    by (induction outs arbitrary: copied w) (auto simp: quiet_unfold split: sum.splits)
qed

lemma quiet_await_job:
  assumes "cluster_jobs K N D sink store jobs"
  shows "jobs (snd (await_job K N ns job_name pod outs store kc n iteration copied w)) = jobs w"
proof (induction n arbitrary: iteration copied w)
  case (Suc n)
  have "jobs (snd (check_job K ns job_name pod it c w)) = jobs w" for it c w
    by (simp add: check_job_def get_pod_exit_code_def quiet_unfold cluster_quiet[OF assms]
        split: sum.splits option.splits list.splits container_state.splits)
  then show ?case
    using Suc quiet_copy_outputs[OF assms]
    by (auto simp: quiet_unfold cluster_quiet[OF assms] split: sum.splits option.splits)
qed simp

lemma quiet_execute_job:
  assumes "cluster_jobs K N D sink store jobs"
  shows "quiet jobs (execute_job K N sink c cluster ns job_name name store ctx)"
  unfolding quiet_def
  by (simp add: execute_job_def quiet_unfold quiet_waits[OF assms] quiet_logs[OF assms] quiet_await_job[OF assms]
      wait_for_job_completion_with_outputs_def split: sum.splits)

lemma quiet_copy_inputs:
  assumes "cluster_jobs K N D sink store jobs"
  shows "jobs (snd (copy_artifacts_into_pod N ns pod dir kc w)) = jobs w"
proof -
  have "jobs (snd (copy_inputs N ns pod d kc entries w)) = jobs w" for d entries w
  proof (induction entries arbitrary: w)
    case (Cons e entries)
    then show ?case by (cases e) (simp_all add: quiet_unfold cluster_quiet[OF assms] split: bool.splits)
  qed simp
  then show ?thesis
    by (simp add: copy_artifacts_into_pod_def quiet_unfold cluster_quiet[OF assms] split: sum.splits)
qed

lemma delete_job_effect:
  assumes "cluster_jobs K N D sink store jobs" and "\<And>w. fst (delete_job K ns n w) = Inr ()"
  shows "jobs (snd (delete_job K ns n w)) = jobs w - {(ns, n)}"
proof -
  obtain r w' where r: "kb_delete_job K ns n w = (r, w')" by force
  have "jobs w' = jobs w - {(ns, n)} \<or> (\<exists>e. r = Inl e \<and> \<not> is_api_error 404 e) \<and> jobs w' = jobs w"
    by (rule assms(1)[unfolded cluster_jobs_def, THEN conjunct2, THEN conjunct1, rule_format, OF r])
  with assms(2)[of w] r show ?thesis by (auto simp: delete_job_def split: sum.splits if_splits)
qed

lemma finish_job_effect:
  assumes "cluster_jobs K N D sink store jobs" and "\<And>w. fst (delete_job K ns n w) = Inr ()" and "quiet jobs body"
  shows "jobs (snd (finish_job K N D c ns n body w)) = jobs w - {(ns, n)}"
  using assms(3) cluster_jobsD(22)[OF assms(1,3)]
  by (simp add: finish_job_def quiet_unfold delete_job_effect[OF assms(1,2)] quiet_def split: option.splits)

lemma provide_inputs_effect:
  assumes "cluster_jobs K N D sink store jobs" and "\<And>w. fst (delete_job K ns n w) = Inr ()"
  shows "jobs (snd (provide_inputs K N cluster ns n dir w)) =
    (if isl (fst (provide_inputs K N cluster ns n dir w)) then jobs w - {(ns, n)} else jobs w)"
  by (simp add: provide_inputs_def quiet_unfold delete_job_effect[OF assms] quiet_waits[OF assms(1)]
      quiet_copy_inputs[OF assms(1)] cluster_quiet(12)[OF assms(1)] split: option.splits sum.splits)

lemma build_job_name [simp]: "jb_name (build_job c name ns env cluster shared arts names) = sanitize_name name"
  by (simp add: build_job_def quiet_unfold)

lemma run_job_effect:
  assumes "cluster_jobs K N D sink store jobs" and "\<And>n w. fst (delete_job K ns n w) = Inr ()"
  shows "jobs (snd (run_job K N D sink c cluster ns store self ctx shared w)) = jobs w"
proof -
  let ?m = "build_job c (unknown_name ctx) ns (extract_workflow_env (nv_json_text N) (wi_data (sx_workflow ctx))) cluster shared
    (sf_mount_dir self \<noteq> None \<or> ks_artifact_outputs c \<noteq> []) (sf_input_names self)"
  obtain r w1 where create: "kb_create_job K ns ?m w = (r, w1)" by force
  then have w1: "((ns, jb_name ?m) \<in> jobs w \<longrightarrow> isl r) \<and>
      jobs w1 = (if isl r then jobs w else insert (ns, jb_name ?m) (jobs w))"
    by (rule assms(1)[unfolded cluster_jobs_def, THEN conjunct1, rule_format])
  show ?thesis
  proof (cases r)
    case (Inl e)
    then show ?thesis using create w1 by (simp add: run_job_def Let_def)
  next
    case (Inr u)
    obtain x w2 where x: "provide_inputs K N cluster ns (jb_name ?m) (sf_mount_dir self) w1 = (x, w2)" by force
    have "jobs w2 = (if isl x then jobs w1 - {(ns, jb_name ?m)} else jobs w1)"
      using provide_inputs_effect[OF assms(1) assms(2), where dir = "sf_mount_dir self" and cluster = cluster
        and n = "jb_name ?m" and w = w1] by (simp only: x fst_conv snd_conv)
    moreover have "jobs (snd (finish_job K N D c ns (jb_name ?m)
        (execute_job K N sink c cluster ns (jb_name ?m) (unknown_name ctx) store ctx) w2)) = jobs w2 - {(ns, jb_name ?m)}"
      by (rule finish_job_effect[OF assms(1) assms(2) quiet_execute_job[OF assms(1)]])
    ultimately show ?thesis using create w1 Inr x by (cases x) (auto simp: run_job_def Let_def)
  qed
qed

text \<open>
  C25: the executor neither leaves jobs behind nor removes those of others. However a run ends, by
  success, by an error of any request, by a failing container or by its deadline, the jobs of the
  cluster are exactly those that were there before it: the job the run created is gone, and one that
  had the same name before the run makes the creation fail and is left alone. This holds under two
  assumptions on the cluster: it carries out the deletions it is asked for, whose errors the executor
  ignores, and a creation request that reports an error has created nothing, so that a job whose
  creation is carried out but whose answer is lost is not covered.
\<close>

theorem kube_job_not_leaked:
  assumes "cluster_jobs K N D sink store jobs" and "\<And>ns n w. fst (delete_job K ns n w) = Inr ()"
    and "kube_run K N D sink store c cluster ctx (w, self) = (r, (w', self'))"
  shows "jobs w' = jobs w"
proof -
  let ?ns = "step_namespace c cluster (sx_workflow ctx)" and ?self = "self\<lparr>sf_client := True\<rparr>"
  obtain conn w1 where conn: "(if sf_client self then (Inr (), w) else kb_connect K cluster w) = (conn, w1)" by force
  obtain e w2 where e: "ensure_namespace K ?ns (wi_id (sx_workflow ctx)) w1 = (e, w2)" by force
  obtain m w3 where m: "ensure_shared_mount K N cluster ?ns ctx w2 = (m, w3)" by force
  have w1: "jobs w1 = jobs w" using conn cluster_quiet(1)[OF assms(1), of cluster w] by (auto split: if_splits)
  have w2: "jobs w2 = jobs w1" using quiet_namespace[OF assms(1), of ?ns "wi_id (sx_workflow ctx)" w1] by (simp add: e)
  have w3: "jobs w3 = jobs w2" using quiet_shared_mount[OF assms(1), of cluster ?ns ctx w2] by (simp add: m)
  have "w' \<in> {w1, w2, w3} \<or> (\<exists>shared. w' = snd (run_job K N D sink c cluster ?ns store ?self ctx shared w3))"
    using assms(3) by (auto simp: kube_run_def conn e m Let_def split: sum.splits prod.splits) (metis snd_conv)
  then show ?thesis
  proof
    assume "w' \<in> {w1, w2, w3}"
    then show ?thesis using w1 w2 w3 by auto
  next
    assume "\<exists>shared. w' = snd (run_job K N D sink c cluster ?ns store ?self ctx shared w3)"
    then obtain shared where w': "w' = snd (run_job K N D sink c cluster ?ns store ?self ctx shared w3)" ..
    show ?thesis
      using run_job_effect[OF assms(1) assms(2), where ns = ?ns and c = c and cluster = cluster and self = ?self
          and ctx = ctx and shared = shared and w = w3] by (simp only: w' w1 w2 w3)
  qed
qed

text \<open>A cluster that runs every job at once, with success; its state is the set of jobs.\<close>

type_synonym tiny = "(string \<times> string) list"

definition tiny_cluster :: "tiny kube" where
  "tiny_cluster =
     \<lparr>kb_connect = (\<lambda>_ w. (Inr (), w)), kb_get_namespace = (\<lambda>_ w. (Inr (), w)), kb_create_namespace = (\<lambda>_ _ w. (Inr (), w)),
      kb_delete_namespace = (\<lambda>_ w. (Inr (), w)), kb_list_namespaces = (\<lambda>w. (Inr [], w)), kb_get_pvc = (\<lambda>_ _ w. (Inr None, w)),
      kb_create_pvc = (\<lambda>_ _ _ _ w. (Inr (), w)), kb_list_storage_classes = (\<lambda>w. (Inr [], w)),
      kb_get_storage_class = (\<lambda>_ w. (Inr None, w)),
      kb_create_job = (\<lambda>ns m w. if (ns, jb_name m) \<in> set w then (Inl (ApiError 409 ''exists''), w) else (Inr (), (ns, jb_name m) # w)),
      kb_get_job = (\<lambda>_ _ w. (Inr (Some \<lparr>js_conditions = [], js_succeeded = Some 1, js_failed = None\<rparr>), w)),
      kb_delete_job = (\<lambda>ns n w. (Inr (), removeAll (ns, n) w)), kb_list_pods = (\<lambda>_ _ w. (Inr [Some ''pod''], w)),
      kb_get_pod = (\<lambda>_ _ w. (Inr (Some [Some (CTerminated 0)]), w)), kb_create_pod = (\<lambda>_ _ w. (Inr (), w)),
      kb_create_service = (\<lambda>_ _ w. (Inr (), w)), kb_log_stream = (\<lambda>_ _ w. (Inr [], w))\<rparr>"

definition tiny_node :: "tiny node_env" where
  "tiny_node =
     \<lparr>nv_kubectl = (\<lambda>_ w. (True, w)), nv_sleep_ms = (\<lambda>_ w. w), nv_now = (\<lambda>w. (0, w)), nv_uuid = (\<lambda>w. (''u'', w)),
      nv_temp_dir = ''/tmp'', nv_create_dir_all = (\<lambda>_ w. (Inr (), w)), nv_remove_dir_all = (\<lambda>_ w. (Inr (), w)),
      nv_exists = (\<lambda>_ w. (True, w)), nv_read_dir = (\<lambda>_ w. (Inr [], w)), nv_tar_gz = (\<lambda>_ w. (Inr [], w)),
      nv_json_text = (\<lambda>_. []), nv_from_str = (\<lambda>_. None)\<rparr>"

abbreviation tiny_deadline :: "(tiny, execution_result res) deadline" where
  "tiny_deadline \<equiv> \<lambda>_ f w. case f w of (r, w) \<Rightarrow> (Some r, w)"

lemma tiny_cluster_jobs: "cluster_jobs tiny_cluster tiny_node tiny_deadline None None set"
  by (auto simp: cluster_jobs_def tiny_cluster_def tiny_node_def quiet_def case_prod_unfold split: if_splits)

abbreviation tiny_config :: kubernetes_step_config where
  "tiny_config \<equiv> \<lparr>ks_image = ''alpine'', ks_command = None, ks_run = Some ''true'', ks_shell = None, ks_env = [],
     ks_working_dir = None, ks_memory = None, ks_cpu = None, ks_timeout_ms = None, ks_pull_policy = None,
     ks_namespace = Some ''ci'', ks_artifact_outputs = []\<rparr>"

abbreviation tiny_self :: kube_self where
  "tiny_self \<equiv> \<lparr>sf_client = False, sf_mount_dir = None, sf_input_names = []\<rparr>"

theorem kube_job_not_leaked_witness:
  "set (fst (snd (kube_run tiny_cluster tiny_node tiny_deadline None None tiny_config cluster_config_default sample_context
     ([(''ci'', ''other'')], tiny_self)))) = {(''ci'', ''other'')}"
proof -
  have del: "fst (delete_job tiny_cluster ns n w) = Inr ()" for ns n w
    by (simp add: delete_job_def tiny_cluster_def)
  obtain r w' self' where run: "kube_run tiny_cluster tiny_node tiny_deadline None None tiny_config cluster_config_default
      sample_context ([(''ci'', ''other'')], tiny_self) = (r, (w', self'))" by (metis prod.exhaust)
  from kube_job_not_leaked[OF tiny_cluster_jobs del run] show ?thesis by (simp add: run)
qed

section \<open>The shared volume of a workflow\<close>

lemma shared_volume_round_trip: "shared_volume_of_json (shared_volume_json sv) = Some sv"
  by (cases sv; cases "sv_size sv") (simp_all add: shared_volume_of_json_def shared_volume_json_def unwrap_or_def)

text \<open>
  The volume that the host records in the data of a new instance is the one the steps of a workflow without
  a volume of its own mount. A definition's own volume takes precedence, though.
\<close>

lemma root_volume_is_mounted:
  assumes "root_instance S d def_id v (JObject m) w = (inst, w')" and "wd_shared_volume d = Some sv"
    and "wi_data (sx_workflow ctx) = wi_data inst" and "and_then (sx_definition ctx) wd_shared_volume = None"
  shows "step_shared_volume ctx = Some sv"
proof -
  obtain m' where "wi_data inst = JObject (obj_insert ''_wfe_shared_volume'' (shared_volume_json sv) m')"
    using assms(1,2)
    by (auto simp: root_instance_def create_instance_def workflow_instance_new_def Let_def split: prod.splits list.splits)
  with assms(3,4) show ?thesis by (simp add: step_shared_volume_def shared_volume_round_trip)
qed

lemma nested_volume_wins:
  "sx_definition ctx = Some d \<Longrightarrow> wd_shared_volume d = Some own \<Longrightarrow> step_shared_volume ctx = Some own"
  by (simp add: step_shared_volume_def)

text \<open>
  Two steps that are created at the same time: the second one, which did not see the namespace when it asked,
  fails when the first has created it meanwhile.
\<close>

lemma namespace_race_fails:
  assumes "kb_get_namespace K n w = (Inl (ApiError 404 m), w1)"
    and "kb_create_namespace K n [managed_by, (''wfe.sunbeam.pt/workflow-id'', i)] w1 = (Inl (ApiError 409 m'), w2)"
  shows "isl (fst (ensure_namespace K n i w))"
  using assms by (simp add: ensure_namespace_def is_api_error_def)

text \<open>The configured path of an artifact output is never looked at.\<close>

lemma output_path_ignored:
  "map fst outs = map fst outs' \<Longrightarrow> copy_outputs N s ns pod kc outs copied w = copy_outputs N s ns pod kc outs' copied w"
proof (induction outs arbitrary: outs' copied w)
  case (Cons o1 outs)
  then obtain n p p' outs2 where "o1 = (n, p)" "outs' = (n, p') # outs2" "map fst outs = map fst outs2"
    by (cases o1; cases outs') auto
  then show ?case using Cons.IH by (auto split: prod.splits sum.splits)
qed simp

section \<open>Services and the namespace of the steps\<close>

text \<open>
  The host tears the services down after every pass. For a workflow of its own the provider then deletes the
  namespace its steps run in, and with it the shared volume, although the workflow may go on.
\<close>

lemma teardown_removes_step_namespace:
  "ks_namespace c = None \<Longrightarrow> wi_root_workflow_id inst = None \<Longrightarrow>
   kube_teardown K cluster (wi_id inst) = delete_namespace K (step_namespace c cluster inst)"
  by (simp add: kube_teardown_def step_namespace_def unwrap_or_def)

text \<open>
  The steps of a sub-workflow run in the namespace of the root, its services in a namespace of their own, where
  the names the endpoints give do not resolve.
\<close>

lemma nested_service_namespace:
  assumes "kube_provision K N D cluster (wi_id inst) [svc] w = (Inr es, w')"
    and "ks_namespace c = None" and "wi_root_workflow_id inst = Some root_id"
    and "namespace_name (cc_namespace_prefix cluster) (wi_id inst) \<noteq> namespace_name (cc_namespace_prefix cluster) root_id"
  shows "map se_host es = [sd_name svc] \<and>
    vp_namespace (build_service_pod svc (namespace_name (cc_namespace_prefix cluster) (wi_id inst))) \<noteq> step_namespace c cluster inst"
  using assms
  by (auto simp: kube_provision_def step_namespace_def unwrap_or_def build_service_pod_def Let_def split: sum.splits prod.splits option.splits)

end
