(* ===== verification/Containerd.thy ===== *)
theory Containerd
  imports Requests Shell Host
begin

text \<open>
  The containerd executor and service provider (\<open>wfe-containerd/src/step.rs\<close>, \<open>service_provider.rs\<close>). The
  daemon is a parameter, a record of the requests of its gRPC services, with its state in the world; so are the
  file system and the hash. The mounts of a snapshot are opaque. Each request carries the namespace header.
\<close>

section \<open>The daemon\<close>

record descriptor =
  ds_media_type :: string
  ds_digest :: string
  ds_size :: int

record write_content =
  wc_action :: string
  wc_ref :: string
  wc_total :: int
  wc_expected :: string
  wc_offset :: int
  wc_data :: string

record oci_container =
  oc_id :: string
  oc_image :: string
  oc_runtime :: string
  oc_spec_type :: string
  oc_spec :: json
  oc_snapshotter :: string
  oc_snapshot_key :: string

record task_request =
  tq_container_id :: string
  tq_rootfs :: "string list"
  tq_stdout :: string
  tq_stderr :: string
  tq_terminal :: bool

text \<open>An image as the daemon reports it: its record may be missing, and in the record the digest of its target.\<close>

type_synonym image_record = "string option option"

record 'w daemon =
  dm_connect_unix :: "string \<Rightarrow> ('w, string + unit) eff"
  dm_endpoint :: "string \<Rightarrow> string + unit"
  dm_connect :: "string \<Rightarrow> ('w, string + unit) eff"
  dm_version :: "string \<Rightarrow> ('w, string + unit) eff"
  dm_get_image :: "string \<Rightarrow> string \<Rightarrow> ('w, string + image_record) eff"
  dm_read :: "string \<Rightarrow> string \<Rightarrow> ('w, string + (string + string) list) eff"
  dm_write :: "string \<Rightarrow> write_content \<Rightarrow> ('w, string + (string + string) list) eff"
  dm_mounts :: "string \<Rightarrow> string \<Rightarrow> string \<Rightarrow> ('w, string + string list) eff"
  dm_prepare :: "string \<Rightarrow> string \<Rightarrow> string \<Rightarrow> string \<Rightarrow> ('w, string + string list) eff"
  dm_apply :: "string \<Rightarrow> descriptor \<Rightarrow> string list \<Rightarrow> ('w, string + unit) eff"
  dm_create_container :: "string \<Rightarrow> oci_container \<Rightarrow> ('w, string + unit) eff"
  dm_delete_container :: "string \<Rightarrow> string \<Rightarrow> ('w, string + unit) eff"
  dm_create_task :: "string \<Rightarrow> task_request \<Rightarrow> ('w, string + unit) eff"
  dm_start :: "string \<Rightarrow> string \<Rightarrow> ('w, string + unit) eff"
  dm_wait :: "string \<Rightarrow> string \<Rightarrow> ('w, string + u32) eff"
  dm_delete_task :: "string \<Rightarrow> string \<Rightarrow> ('w, string + unit) eff"

record 'w ctr_host =
  ch_exists :: "string \<Rightarrow> ('w, bool) eff"
  ch_uuid :: "('w, string) eff"
  ch_io_dir :: "string option"
  ch_temp_dir :: string
  ch_create_dir_all :: "string \<Rightarrow> ('w, string + unit) eff"
  ch_remove_file :: "string \<Rightarrow> ('w, string + unit) eff"
  ch_create_file :: "string \<Rightarrow> ('w, string + unit) eff"
  ch_set_mode :: "string \<Rightarrow> nat \<Rightarrow> ('w, string + unit) eff"
  ch_read_to_string :: "string \<Rightarrow> ('w, string + string) eff"
  ch_remove_dir_all :: "string \<Rightarrow> ('w, string + unit) eff"
  ch_sha256_hex :: "string \<Rightarrow> string"
  ch_from_slice :: "string \<Rightarrow> string + json"
  ch_arch :: string
  ch_json_text :: "json \<Rightarrow> string"

definition DEFAULT_NAMESPACE :: string where
  "DEFAULT_NAMESPACE = ''default''"

definition DEFAULT_SNAPSHOTTER :: string where
  "DEFAULT_SNAPSHOTTER = ''overlayfs''"

definition connect :: "'w daemon \<Rightarrow> 'w ctr_host \<Rightarrow> string \<Rightarrow> ('w, unit res) eff" where
  "connect D H addr w =
     (if take 1 addr = ''/'' \<or> strip_prefix_str ''unix://'' addr \<noteq> None then
        let socket_path = unwrap_or (strip_prefix_str ''unix://'' addr) addr;
            (there, w) = ch_exists H socket_path w
        in if \<not> there then (Inl (step_err (''containerd socket not found: '' @ socket_path)), w)
           else request (''failed to connect to containerd via Unix socket at '' @ addr @ '': '') (dm_connect_unix D socket_path) w
      else
        let connect_addr = replace_scheme addr
        in try_do (request (''invalid containerd endpoint '' @ connect_addr @ '': '') (\<lambda>w. (dm_endpoint D connect_addr, w)))
             (\<lambda>_. request (''failed to connect to containerd at '' @ connect_addr @ '': '') (dm_connect D connect_addr)) w)"

section \<open>Content and images\<close>

fun await_commit :: "(string + string) list \<Rightarrow> unit res" where
  "await_commit [] = Inr ()"
| "await_commit (Inl e # rs) = Inl (step_err (''content write stream error: '' @ e))"
| "await_commit (Inr action # rs) = (if action = ''commit'' then Inr () else await_commit rs)"

definition digest_of :: "'w ctr_host \<Rightarrow> string \<Rightarrow> string" where
  "digest_of H data = ''sha256:'' @ ch_sha256_hex H data"

definition upload_content :: "'w daemon \<Rightarrow> 'w ctr_host \<Rightarrow> string \<Rightarrow> string \<Rightarrow> ('w, (string \<times> int) res) eff" where
  "upload_content D H ns data =
     (let digest = digest_of H data; sz = int (length data);
          req = \<lparr>wc_action = ''commit'', wc_ref = digest, wc_total = sz, wc_expected = digest, wc_offset = 0, wc_data = data\<rparr>
      in try_do (request ''content write failed: '' (dm_write D ns req))
           (\<lambda>responses. try_do (lift_res (await_commit responses)) (\<lambda>_. lift_res (Inr (digest, sz)))))"

definition apply_diff :: "'w daemon \<Rightarrow> string \<Rightarrow> string list \<Rightarrow> descriptor \<Rightarrow> ('w, unit res) eff" where
  "apply_diff D ns mounts d = request ''Diff.Apply failed: '' (dm_apply D ns d mounts)"

definition ensure_image :: "'w daemon \<Rightarrow> string \<Rightarrow> string \<Rightarrow> ('w, unit res) eff" where
  "ensure_image D img_name ns w =
     (case dm_get_image D ns img_name w of
        (Inr _, w) \<Rightarrow> (Inr (), w)
      | (Inl status, w) \<Rightarrow>
          (Inl (step_err (''image '' @ quoted img_name @ '' not found in containerd (namespace='' @ ns @
             ''). Pre-pull it with: ctr -n '' @ ns @ '' image pull '' @ img_name @ ''  (gRPC status: '' @ status @ '')'')), w))"

fun collect_chunks :: "string \<Rightarrow> (string + string) list \<Rightarrow> string \<Rightarrow> string res" where
  "collect_chunks digest [] data = Inr data"
| "collect_chunks digest (Inl e # cs) data = Inl (step_err (''error reading content '' @ digest @ '': '' @ e))"
| "collect_chunks digest (Inr chunk # cs) data = collect_chunks digest cs (data @ chunk)"

definition read_content :: "'w daemon \<Rightarrow> string \<Rightarrow> string \<Rightarrow> ('w, string res) eff" where
  "read_content D digest ns =
     try_do (request (''failed to read content '' @ digest @ '': '') (dm_read D ns digest))
       (\<lambda>chunks. lift_res (collect_chunks digest chunks []))"

text \<open>Indexing of a JSON value: what is missing is null.\<close>

definition json_index :: "json \<Rightarrow> string \<Rightarrow> json" where
  "json_index v k = unwrap_or (json_get v k) JNull"

definition read_json :: "'w daemon \<Rightarrow> 'w ctr_host \<Rightarrow> string \<Rightarrow> string \<Rightarrow> string \<Rightarrow> ('w, json res) eff" where
  "read_json D H ns digest msg =
     try_do (read_content D digest ns) (\<lambda>bytes. request msg (\<lambda>w. (ch_from_slice H bytes, w)))"

definition oci_arch :: "string \<Rightarrow> string" where
  "oci_arch arch = (if arch = ''aarch64'' then ''arm64'' else if arch = ''x86_64'' then ''amd64'' else arch)"

definition is_platform :: "string \<Rightarrow> json \<Rightarrow> bool" where
  "is_platform arch m \<longleftrightarrow>
     and_then (and_then (json_get m ''platform'') (\<lambda>p. json_get p ''architecture'')) as_str = Some arch"

definition platform_digest :: "string \<Rightarrow> json \<Rightarrow> string res" where
  "platform_digest arch index =
     (case as_array (json_index index ''manifests'') of
        None \<Rightarrow> Inl (step_err ''image index has no manifests array'')
      | Some ms \<Rightarrow>
          (case find (is_platform arch) ms of
             None \<Rightarrow> Inl (step_err (''no manifest for architecture '' @ quoted arch @ '' in image index''))
           | Some m \<Rightarrow> ok_or (step_err ''platform manifest has no digest'') (as_str (json_index m ''digest''))))"

definition platform_manifest :: "'w daemon \<Rightarrow> 'w ctr_host \<Rightarrow> string \<Rightarrow> json \<Rightarrow> ('w, json res) eff" where
  "platform_manifest D H ns manifest =
     (if json_get manifest ''manifests'' = None then lift_res (Inr manifest)
      else try_do (lift_res (platform_digest (oci_arch (ch_arch H)) manifest))
             (\<lambda>digest. read_json D H ns digest ''failed to parse platform manifest: ''))"

fun chain_rest :: "(string \<Rightarrow> string) \<Rightarrow> string \<Rightarrow> json list \<Rightarrow> string res" where
  "chain_rest digest chain_id [] = Inr chain_id"
| "chain_rest digest chain_id (v # vs) =
     (case as_str v of
        None \<Rightarrow> Inl (step_err ''diff_id is not a string'')
      | Some diff \<Rightarrow> chain_rest digest (digest (chain_id @ '' '' @ diff)) vs)"

definition chain_id_of :: "(string \<Rightarrow> string) \<Rightarrow> json \<Rightarrow> string res" where
  "chain_id_of digest config_json =
     (case as_array (json_index (json_index config_json ''rootfs'') ''diff_ids'') of
        None \<Rightarrow> Inl (step_err ''image config has no rootfs.diff_ids'')
      | Some [] \<Rightarrow> Inl (step_err ''image has no layers (empty diff_ids)'')
      | Some (v # vs) \<Rightarrow>
          (case as_str v of
             None \<Rightarrow> Inl (step_err ''diff_id is not a string'')
           | Some first \<Rightarrow> chain_rest digest first vs))"

definition image_target :: "string \<Rightarrow> image_record \<Rightarrow> string res" where
  "image_target img_name img =
     (case img of
        None \<Rightarrow> Inl (step_err (''image '' @ quoted img_name @ '' has no record''))
      | Some None \<Rightarrow> Inl (step_err (''image '' @ quoted img_name @ '' has no target descriptor''))
      | Some (Some digest) \<Rightarrow> Inr digest)"

definition resolve_image_chain_id :: "'w daemon \<Rightarrow> 'w ctr_host \<Rightarrow> string \<Rightarrow> string \<Rightarrow> ('w, string res) eff" where
  "resolve_image_chain_id D H img_name ns =
     try_do (request (''failed to get image '' @ quoted img_name @ '': '') (dm_get_image D ns img_name)) (\<lambda>img.
     try_do (lift_res (image_target img_name img)) (\<lambda>manifest_digest.
     try_do (read_json D H ns manifest_digest ''failed to parse manifest: '') (\<lambda>manifest.
     try_do (platform_manifest D H ns manifest) (\<lambda>manifest.
     try_do (lift_res (ok_or (step_err ''manifest has no config.digest'')
               (as_str (json_index (json_index manifest ''config'') ''digest'')))) (\<lambda>config_digest.
     try_do (read_json D H ns config_digest ''failed to parse image config: '') (\<lambda>config_json.
     lift_res (chain_id_of (digest_of H) config_json)))))))"

section \<open>The runtime specification\<close>

definition parse_u32 :: "string \<Rightarrow> u32 option" where
  "parse_u32 s = (case parse_u64 s of Some n \<Rightarrow> if n < 2 ^ 32 then Some (of_nat n) else None | None \<Rightarrow> None)"

definition parse_user_spec :: "string \<Rightarrow> u32 \<times> u32" where
  "parse_user_spec user =
     (case split_on CHR '':'' user of
        [u, g] \<Rightarrow> (unwrap_or (parse_u32 u) 65534, unwrap_or (parse_u32 g) 65534)
      | _ \<Rightarrow> (65534, 65534))"

definition mount_json :: "string \<Rightarrow> string \<Rightarrow> string \<Rightarrow> string list \<Rightarrow> json" where
  "mount_json destination kind source options = json_object
     [(''destination'', JString destination), (''type'', JString kind), (''source'', JString source),
      (''options'', json_strings options)]"

definition spec_mounts :: "volume_mount list \<Rightarrow> json list" where
  "spec_mounts volumes =
     [mount_json ''/proc'' ''proc'' ''proc'' [''nosuid'', ''noexec'', ''nodev''],
      mount_json ''/dev'' ''tmpfs'' ''tmpfs'' [''nosuid'', ''strictatime'', ''mode=755'', ''size=65536k''],
      mount_json ''/sys'' ''sysfs'' ''sysfs'' [''nosuid'', ''noexec'', ''nodev'', ''ro'']] @
     map (\<lambda>vol. mount_json (vm_target vol) ''bind'' (vm_source vol)
            (if vm_readonly vol then [''rbind'', ''ro''] else [''rbind''])) volumes"

definition root_capabilities :: "string list" where
  "root_capabilities =
     [''CAP_AUDIT_WRITE'', ''CAP_CHOWN'', ''CAP_DAC_OVERRIDE'', ''CAP_FOWNER'', ''CAP_FSETID'', ''CAP_KILL'', ''CAP_MKNOD'',
      ''CAP_NET_BIND_SERVICE'', ''CAP_NET_RAW'', ''CAP_SETFCAP'', ''CAP_SETGID'', ''CAP_SETPCAP'', ''CAP_SETUID'', ''CAP_SYS_CHROOT'']"

definition capabilities :: "u32 \<Rightarrow> json" where
  "capabilities uid =
     (let caps = json_strings (if uid = 0 then root_capabilities else [])
      in json_object [(''bounding'', caps), (''effective'', caps), (''inheritable'', caps), (''permitted'', caps), (''ambient'', caps)])"

definition process_args :: "containerd_config \<Rightarrow> string list" where
  "process_args c =
     (case cd_run c of
        Some script \<Rightarrow> [''/bin/sh'', ''-c'', script]
      | None \<Rightarrow> (case cd_command c of Some command \<Rightarrow> command | None \<Rightarrow> []))"

definition spec_process :: "containerd_config \<Rightarrow> (string \<times> string) list \<Rightarrow> json" where
  "spec_process c env =
     (let (uid, gid) = parse_user_spec (cd_user c)
      in json_object
           [(''terminal'', JBool False), (''user'', json_object [(''uid'', json_u32 uid), (''gid'', json_u32 gid)]),
            (''args'', json_strings (process_args c)), (''env'', json_strings (map (\<lambda>(k, v). k @ ''='' @ v) env)),
            (''cwd'', JString (unwrap_or (cd_working_dir c) ''/'')), (''capabilities'', capabilities uid)])"

definition build_oci_spec :: "containerd_config \<Rightarrow> (string \<times> string) list \<Rightarrow> json" where
  "build_oci_spec c env = json_object
     [(''ociVersion'', JString ''1.0.2''), (''process'', spec_process c env),
      (''root'', json_object [(''path'', JString ''rootfs''), (''readonly'', JBool False)]),
      (''mounts'', JArray (spec_mounts (cd_volumes c))),
      (''linux'', json_object [(''namespaces'',
         JArray (map (\<lambda>t. json_object [(''type'', JString t)]) [''pid'', ''ipc'', ''uts'', ''mount'']))])]"

definition spec_type_url :: string where
  "spec_type_url = ''types.containerd.io/opencontainers/runtime-spec/1/Spec''"

definition container_of :: "string \<Rightarrow> string \<Rightarrow> json \<Rightarrow> oci_container" where
  "container_of container_id img_name spec =
     \<lparr>oc_id = container_id, oc_image = img_name, oc_runtime = ''io.containerd.runc.v2'', oc_spec_type = spec_type_url,
      oc_spec = spec, oc_snapshotter = DEFAULT_SNAPSHOTTER, oc_snapshot_key = container_id\<rparr>"

definition merged_env :: "(json \<Rightarrow> string) \<Rightarrow> containerd_config \<Rightarrow> json \<Rightarrow> (string \<times> string) list" where
  "merged_env text_of c data =
     fold (\<lambda>(k, v). AList.update k v) (cd_env c)
       (case as_object data of
          Some m \<Rightarrow> fold (\<lambda>(key, v). AList.update (to_uppercase key) (env_value text_of v)) m []
        | None \<Rightarrow> [])"

section \<open>Artifacts\<close>

text \<open>The state of a step: the targets and descriptors of the artifacts that were uploaded for it.\<close>

type_synonym applies = "(string \<times> descriptor) list"

fun upload_inputs ::
    "'w daemon \<Rightarrow> 'w ctr_host \<Rightarrow> 'w tar_env \<Rightarrow> artifact_volume \<Rightarrow> (string \<times> string) list \<Rightarrow> ('w \<times> applies, unit res) eff" where
  "upload_inputs D H T vol [] s = (Inr (), s)"
| "upload_inputs D H T vol ((name, container_target) # inputs) (w, applies) =
     (let pre = unwrap_or (strip_prefix_str ''/'' container_target) container_target in
      case repackage_with_prefix T vol name pre of
        Inl e \<Rightarrow> (Inl (StepExecution (MsgErr ''failed to repackage artifact: '' e)), (w, applies))
      | Inr bytes \<Rightarrow>
          (case upload_content D H DEFAULT_NAMESPACE bytes w of
             (Inl e, w) \<Rightarrow> (Inl e, (w, applies))
           | (Inr (digest, sz), w) \<Rightarrow>
               upload_inputs D H T vol inputs (w, applies @ [(container_target,
                 \<lparr>ds_media_type = ''application/vnd.oci.image.layer.v1.tar+gzip'', ds_digest = digest, ds_size = sz\<rparr>)])))"

definition ctr_mount ::
    "'w daemon \<Rightarrow> 'w ctr_host \<Rightarrow> 'w tar_env \<Rightarrow> containerd_config \<Rightarrow> 'v step_context \<Rightarrow> ('w \<times> applies, unit res) eff" where
  "ctr_mount D H T c ctx = (\<lambda>(w, applies).
     case cd_inputs c of
       None \<Rightarrow> (Inr (), (w, applies))
     | Some [] \<Rightarrow> (Inr (), (w, applies))
     | Some inputs \<Rightarrow>
         (case sx_artifact_volume ctx of
            None \<Rightarrow> (Inl (step_err ''artifact volume required but not provided''), (w, applies))
          | Some vol \<Rightarrow>
              (case connect D H (cd_containerd_addr c) w of
                 (Inl e, w) \<Rightarrow> (Inl e, (w, applies))
               | (Inr _, w) \<Rightarrow> upload_inputs D H T vol inputs (w, applies))))"

definition ctr_unmount :: "'v step_context \<Rightarrow> ('w \<times> applies, unit res) eff" where
  "ctr_unmount ctx = (\<lambda>(w, applies). (Inr (), (w, [])))"

fun apply_diffs :: "'w daemon \<Rightarrow> string \<Rightarrow> string list \<Rightarrow> applies \<Rightarrow> ('w, unit res) eff" where
  "apply_diffs D ns mounts [] w = (Inr (), w)"
| "apply_diffs D ns mounts ((_, d) # rest) w = try_do (apply_diff D ns mounts d) (\<lambda>_. apply_diffs D ns mounts rest) w"

section \<open>Running a container\<close>

definition cleanup :: "'w daemon \<Rightarrow> string \<Rightarrow> string \<Rightarrow> ('w, unit res) eff" where
  "cleanup D container_id ns w =
     (let (_, w) = dm_delete_task D ns container_id w
      in request ''failed to delete container: '' (dm_delete_container D ns container_id) w)"

text \<open>The writable root: the snapshot of the container if there is one, otherwise a new one on the image's layers.\<close>

definition prepare_rootfs ::
    "'w daemon \<Rightarrow> 'w ctr_host \<Rightarrow> bool \<Rightarrow> string \<Rightarrow> string \<Rightarrow> string \<Rightarrow> ('w, string list res) eff" where
  "prepare_rootfs D H should_check img_name container_id ns w =
     (case dm_mounts D ns DEFAULT_SNAPSHOTTER container_id w of
        (Inr mounts, w) \<Rightarrow> (Inr mounts, w)
      | (Inl _, w) \<Rightarrow>
          try_do (if should_check then resolve_image_chain_id D H img_name ns else lift_res (Inr []))
            (\<lambda>parent. request ''failed to prepare snapshot: '' (dm_prepare D ns DEFAULT_SNAPSHOTTER container_id parent)) w)"

fun create_io_files :: "'w ctr_host \<Rightarrow> string list \<Rightarrow> ('w, unit res) eff" where
  "create_io_files H [] w = (Inr (), w)"
| "create_io_files H (path # paths) w =
     (let (_, w) = ch_remove_file H path w in
      case ch_create_file H path w of
        (Inl e, w) \<Rightarrow> (Inl (step_err (''failed to create IO file '' @ path @ '': '' @ e)), w)
      | (Inr _, w) \<Rightarrow> (let (_, w) = ch_set_mode H path 438 w in create_io_files H paths w))"

definition create_io_dir :: "'w ctr_host \<Rightarrow> string \<Rightarrow> ('w, (string \<times> string \<times> string) res) eff" where
  "create_io_dir H container_id =
     (let tmp_dir = path_join (unwrap_or (ch_io_dir H) (ch_temp_dir H)) (''wfe-io-'' @ container_id);
          stdout_path = path_join tmp_dir ''stdout''; stderr_path = path_join tmp_dir ''stderr''
      in try_do (request ''failed to create IO temp dir: '' (ch_create_dir_all H tmp_dir)) (\<lambda>_.
         try_do (create_io_files H [stdout_path, stderr_path]) (\<lambda>_. lift_res (Inr (tmp_dir, stdout_path, stderr_path)))))"

text \<open>The container with its root, and the task that is started in it.\<close>

definition launch ::
    "'w daemon \<Rightarrow> 'w ctr_host \<Rightarrow> containerd_config \<Rightarrow> applies \<Rightarrow> (string \<times> string) list \<Rightarrow> bool \<Rightarrow> string \<Rightarrow>
     ('w, (string \<times> string \<times> string) res) eff" where
  "launch D H c applies env should_check container_id =
     (let ns = DEFAULT_NAMESPACE in
      try_do (request ''failed to create container: ''
                (dm_create_container D ns (container_of container_id (cd_image c) (build_oci_spec c env)))) (\<lambda>_.
      try_do (prepare_rootfs D H should_check (cd_image c) container_id ns) (\<lambda>mounts.
      try_do (apply_diffs D ns mounts applies) (\<lambda>_.
      try_do (create_io_dir H container_id) (\<lambda>(tmp_dir, stdout_path, stderr_path).
      try_do (request ''failed to create task: '' (dm_create_task D ns
                \<lparr>tq_container_id = container_id, tq_rootfs = mounts, tq_stdout = stdout_path, tq_stderr = stderr_path,
                 tq_terminal = False\<rparr>)) (\<lambda>_.
      try_do (request ''failed to start task: '' (dm_start D ns container_id)) (\<lambda>_.
      lift_res (Inr (tmp_dir, stdout_path, stderr_path)))))))))"

text \<open>The wait for the task under its deadline; \<open>None\<close> is: the deadline passed.\<close>

definition wait_task ::
    "'w daemon \<Rightarrow> ('w, string + u32) deadline \<Rightarrow> containerd_config \<Rightarrow> string \<Rightarrow>
     ('w, (string + u32) option) eff" where
  "wait_task D deadline c container_id w =
     (let wait = dm_wait D DEFAULT_NAMESPACE container_id in
      case cd_timeout_ms c of
        Some ms \<Rightarrow> deadline (unat ms) wait w
      | None \<Rightarrow> (case wait w of (r, w) \<Rightarrow> (Some r, w)))"

definition read_or_empty :: "'w ctr_host \<Rightarrow> string \<Rightarrow> ('w, string) eff" where
  "read_or_empty H path w = (case ch_read_to_string H path w of (Inr s, w) \<Rightarrow> (s, w) | (Inl _, w) \<Rightarrow> ([], w))"

definition remove_container :: "'w daemon \<Rightarrow> 'w ctr_host \<Rightarrow> string \<Rightarrow> string \<Rightarrow> 'w \<Rightarrow> 'w" where
  "remove_container D H container_id tmp_dir w =
     (let (_, w) = cleanup D container_id DEFAULT_NAMESPACE w in snd (ch_remove_dir_all H tmp_dir w))"

definition container_result :: "string \<Rightarrow> string \<Rightarrow> string \<Rightarrow> u32 \<Rightarrow> execution_result res" where
  "container_result the_step stdout stderr exit_status =
     (let exit_code = sint exit_status in
      if exit_code \<noteq> 0 then
        Inl (step_err (''container exited with code '' @ show_int exit_code @ [CHR 0x0A] @ ''stdout: '' @ stdout @
          [CHR 0x0A] @ ''stderr: '' @ stderr))
      else Inr (result_default\<lparr>er_proceed := True,
        er_output_data := Some (ctr_build_output_data the_step stdout stderr exit_code (ctr_parse_outputs stdout))\<rparr>))"

definition finish_container ::
    "'w daemon \<Rightarrow> 'w ctr_host \<Rightarrow> ('w, string + u32) deadline \<Rightarrow> containerd_config \<Rightarrow> string \<Rightarrow>
     string \<Rightarrow> string \<times> string \<times> string \<Rightarrow> ('w, execution_result res) eff" where
  "finish_container D H deadline c the_step container_id = (\<lambda>(tmp_dir, stdout_path, stderr_path) w.
     case wait_task D deadline c container_id w of
       (None, w) \<Rightarrow>
         (Inl (step_err (''container execution timed out after '' @ show_u64 (unwrap_or (cd_timeout_ms c) 0) @ ''ms'')),
          remove_container D H container_id tmp_dir w)
     | (Some (Inl e), w) \<Rightarrow>
         (Inl (step_err (''failed waiting for task: '' @ e)), remove_container D H container_id tmp_dir w)
     | (Some (Inr exit_status), w) \<Rightarrow>
         (let (stdout, w) = read_or_empty H stdout_path w; (stderr, w) = read_or_empty H stderr_path w
          in (container_result the_step stdout stderr exit_status, remove_container D H container_id tmp_dir w)))"

definition should_check :: "containerd_config \<Rightarrow> bool" where
  "should_check c \<longleftrightarrow> cd_pull c \<noteq> ''never''"

definition open_daemon :: "'w daemon \<Rightarrow> 'w ctr_host \<Rightarrow> containerd_config \<Rightarrow> ('w, unit res) eff" where
  "open_daemon D H c =
     try_do (connect D H (cd_containerd_addr c)) (\<lambda>_.
     try_do (request ''containerd version check failed: '' (dm_version D DEFAULT_NAMESPACE)) (\<lambda>_.
     if should_check c then ensure_image D (cd_image c) DEFAULT_NAMESPACE else lift_res (Inr ())))"

definition ctr_run ::
    "'w daemon \<Rightarrow> 'w ctr_host \<Rightarrow> ('w, string + u32) deadline \<Rightarrow> containerd_config \<Rightarrow>
     'v step_context \<Rightarrow> ('w \<times> applies, execution_result res) eff" where
  "ctr_run D H deadline c ctx = (\<lambda>(w, applies).
     let (r, w) = try_do (open_daemon D H c) (\<lambda>_ w.
           let (u, w) = ch_uuid H w;
               container_id = ''wfe-'' @ u;
               env = merged_env (ch_json_text H) c (wi_data (sx_workflow ctx))
           in try_do (launch D H c applies env (should_check c) container_id)
                (finish_container D H deadline c (unknown_name ctx) container_id) w) w
     in (r, (w, applies)))"

definition ctr_body ::
    "'w daemon \<Rightarrow> 'w ctr_host \<Rightarrow> 'w tar_env \<Rightarrow> ('w, string + u32) deadline \<Rightarrow>
     containerd_config \<Rightarrow> ('w \<times> applies) step_body" where
  "ctr_body D H T deadline c = \<lparr>run = ctr_run D H deadline c, mount_artifacts = ctr_mount D H T c, unmount_artifacts = ctr_unmount\<rparr>"

section \<open>Services\<close>

definition service_config :: "string \<Rightarrow> string \<Rightarrow> (string \<times> string) list \<Rightarrow> containerd_config" where
  "service_config addr img_name env =
     \<lparr>cd_image = img_name, cd_command = None, cd_run = None, cd_env = env, cd_volumes = [], cd_working_dir = None,
      cd_user = ''0:0'', cd_network = ''host'', cd_memory = None, cd_cpu = None, cd_pull = ''if-not-present'',
      cd_containerd_addr = addr, cd_cli = ''nerdctl'', cd_tls = tls_default, cd_registry_auth = [], cd_inputs = None,
      cd_timeout_ms = None\<rparr>"

definition run_service ::
    "'w daemon \<Rightarrow> 'w ctr_host \<Rightarrow> string \<Rightarrow> string \<Rightarrow> string \<Rightarrow> (string \<times> string) list \<Rightarrow> ('w, unit res) eff" where
  "run_service D H addr container_id img_name env =
     (let ns = DEFAULT_NAMESPACE; spec = build_oci_spec (service_config addr img_name env) env in
      try_do (connect D H addr) (\<lambda>_.
      try_do (ensure_image D img_name ns) (\<lambda>_.
      try_do (request ''failed to create service container: '' (dm_create_container D ns (container_of container_id img_name spec))) (\<lambda>_.
      try_do (prepare_rootfs D H True img_name container_id ns) (\<lambda>mounts.
      try_do (request ''failed to create service task: '' (dm_create_task D ns
                \<lparr>tq_container_id = container_id, tq_rootfs = mounts, tq_stdout = [], tq_stderr = [], tq_terminal = False\<rparr>)) (\<lambda>_.
      request ''failed to start service task: '' (dm_start D ns container_id)))))))"

definition cleanup_service :: "'w daemon \<Rightarrow> 'w ctr_host \<Rightarrow> string \<Rightarrow> string \<Rightarrow> ('w, unit res) eff" where
  "cleanup_service D H addr container_id =
     try_do (connect D H addr) (\<lambda>_. cleanup D container_id DEFAULT_NAMESPACE)"

definition service_container_id :: "string \<Rightarrow> string \<Rightarrow> string" where
  "service_container_id name workflow_id = ''wfe-svc-'' @ name @ ''-'' @ workflow_id"

text \<open>The provider's state: the containers it recorded for each workflow.\<close>

type_synonym running = "string \<rightharpoonup> string list"

fun start_services ::
    "'w daemon \<Rightarrow> 'w ctr_host \<Rightarrow> string \<Rightarrow> string \<Rightarrow> service_definition list \<Rightarrow> ('w, unit res) eff" where
  "start_services D H addr workflow_id [] w = (Inr (), w)"
| "start_services D H addr workflow_id (svc # svcs) w =
     try_do (run_service D H addr (service_container_id (sd_name svc) workflow_id) (sd_image svc) (sd_env svc))
       (\<lambda>_. start_services D H addr workflow_id svcs) w"

definition ctr_endpoint :: "service_definition \<Rightarrow> service_endpoint" where
  "ctr_endpoint svc = \<lparr>se_name = sd_name svc, se_host = ''127.0.0.1'', se_ports = sd_ports svc\<rparr>"

definition ctr_provision ::
    "'w daemon \<Rightarrow> 'w ctr_host \<Rightarrow> string \<Rightarrow> string \<Rightarrow> service_definition list \<Rightarrow> ('w \<times> running, service_endpoint list res) eff" where
  "ctr_provision D H addr workflow_id services = (\<lambda>(w, running).
     case start_services D H addr workflow_id services w of
       (Inl e, w) \<Rightarrow> (Inl e, (w, running))
     | (Inr _, w) \<Rightarrow>
         (Inr (map ctr_endpoint services),
          (w, running(workflow_id \<mapsto> map (\<lambda>svc. service_container_id (sd_name svc) workflow_id) services))))"

definition ctr_teardown :: "'w daemon \<Rightarrow> 'w ctr_host \<Rightarrow> string \<Rightarrow> string \<Rightarrow> ('w \<times> running, unit res) eff" where
  "ctr_teardown D H addr workflow_id = (\<lambda>(w, running).
     (Inr (), (fold (\<lambda>i w. snd (cleanup_service D H addr i w)) (unwrap_or (running workflow_id) []) w,
               running(workflow_id := None))))"

definition ctr_service_provider :: "'w daemon \<Rightarrow> 'w ctr_host \<Rightarrow> string \<Rightarrow> ('w \<times> running) service_provider" where
  "ctr_service_provider D H addr =
     \<lparr>can_provision = (\<lambda>_. True), provision = ctr_provision D H addr, teardown = ctr_teardown D H addr\<rparr>"

section \<open>Privileges\<close>

definition spec_capabilities :: "json \<Rightarrow> string \<Rightarrow> json" where
  "spec_capabilities spec kind = json_index (json_index (json_index spec ''process'') ''capabilities'') kind"

text \<open>The user of the configuration is root: two parts, the first of which is the number zero.\<close>

definition root_user :: "string \<Rightarrow> bool" where
  "root_user user \<longleftrightarrow> (\<exists>u g. user = u @ '':'' @ g \<and> CHR '':'' \<notin> set u \<and> CHR '':'' \<notin> set g \<and> parse_u32 u = Some 0)"

lemma split_on_eq_singleton: "split_on sep s = [x] \<longleftrightarrow> s = x \<and> sep \<notin> set x"
proof (induction s arbitrary: x)
  case (Cons c s)
  obtain p ps where "split_on sep s = p # ps" by (meson neq_Nil_conv split_on_nonempty)
  with Cons[of "tl x"] show ?case by (cases x) auto
qed auto

lemma split_on_eq_pair:
  "split_on sep s = [x, y] \<longleftrightarrow> s = x @ sep # y \<and> sep \<notin> set x \<and> sep \<notin> set y"
proof (induction s arbitrary: x)
  case (Cons c s)
  show ?case
  proof (cases "c = sep")
    case True
    then show ?thesis by (cases x) (auto simp: split_on_eq_singleton)
  next
    case False
    obtain p ps where "split_on sep s = p # ps" by (meson neq_Nil_conv split_on_nonempty)
    with False Cons[of "tl x"] show ?thesis by (cases x) auto
  qed
qed simp

lemma parse_user_root_iff: "fst (parse_user_spec user) = 0 \<longleftrightarrow> root_user user"
proof -
  have "fst (parse_user_spec user) = 0 \<longleftrightarrow> (\<exists>u g. split_on CHR '':'' user = [u, g] \<and> parse_u32 u = Some 0)"
    by (auto simp: parse_user_spec_def unwrap_or_def split: list.splits option.splits)
  then show ?thesis by (auto simp: root_user_def split_on_eq_pair)
qed

text \<open>
  The ids a configured user stands for: of a pair, the number that each part is, or 65534, the id of nobody, for a
  part that is none; of anything else, nobody twice.
\<close>

definition user_part :: "string \<Rightarrow> u32 \<Rightarrow> bool" where
  "user_part t n \<longleftrightarrow> parse_u32 t = Some n \<or> parse_u32 t = None \<and> n = 65534"

definition user_ids :: "string \<Rightarrow> u32 \<Rightarrow> u32 \<Rightarrow> bool" where
  "user_ids user uid gid \<longleftrightarrow>
     (\<exists>u g. user = u @ '':'' @ g \<and> CHR '':'' \<notin> set u \<and> CHR '':'' \<notin> set g \<and> user_part u uid \<and> user_part g gid) \<or>
     (\<nexists>u g. user = u @ '':'' @ g \<and> CHR '':'' \<notin> set u \<and> CHR '':'' \<notin> set g) \<and> uid = 65534 \<and> gid = 65534"

lemma parse_user_spec_ids: "parse_user_spec user = (uid, gid) \<longleftrightarrow> user_ids user uid gid"
proof (cases "\<exists>u g. split_on CHR '':'' user = [u, g]")
  case True
  then obtain u g where ug: "split_on CHR '':'' user = [u, g]" by blast
  have "user = u' @ '':'' @ g' \<and> CHR '':'' \<notin> set u' \<and> CHR '':'' \<notin> set g' \<longleftrightarrow> u' = u \<and> g' = g" for u' g'
    using split_on_eq_pair[of "CHR '':''" user u' g'] ug by auto
  then have "user_ids user uid gid \<longleftrightarrow> user_part u uid \<and> user_part g gid" unfolding user_ids_def by metis
  then show ?thesis using ug by (auto simp: parse_user_spec_def user_part_def unwrap_or_def split: option.splits)
next
  case False
  then have "\<nexists>u g. user = u @ '':'' @ g \<and> CHR '':'' \<notin> set u \<and> CHR '':'' \<notin> set g" by (simp add: split_on_eq_pair)
  moreover have "parse_user_spec user = (65534, 65534)"
    using False by (auto simp: parse_user_spec_def split: list.splits)
  ultimately show ?thesis by (auto simp: user_ids_def)
qed

text \<open>
  C29: a container runs as the configured user, and it has capabilities only when that is root.
  The ids in the runtime specification are the two numbers of a user \<open>uid:gid\<close>; a part that is not a
  number or too large for an id is replaced by 65534, the id of nobody, and a user that is no pair
  becomes 65534 for both. Every capability set is the default set when the user id is zero, which is
  the case exactly for a pair whose first part is the number zero, and empty otherwise.
\<close>

theorem containerd_capabilities:
  "\<exists>uid gid. user_ids (cd_user c) uid gid \<and>
     json_index (json_index (build_oci_spec c env) ''process'') ''user'' =
       json_object [(''uid'', json_u32 uid), (''gid'', json_u32 gid)] \<and>
     (uid = 0 \<longleftrightarrow> root_user (cd_user c)) \<and>
     map (spec_capabilities (build_oci_spec c env)) [''bounding'', ''effective'', ''inheritable'', ''permitted'', ''ambient''] =
       replicate 5 (json_strings (if uid = 0 then root_capabilities else []))"
proof -
  obtain uid gid where u: "parse_user_spec (cd_user c) = (uid, gid)" by force
  then have "uid = 0 \<longleftrightarrow> root_user (cd_user c)" using parse_user_root_iff[of "cd_user c"] by simp
  moreover have process: "json_index (build_oci_spec c env) ''process'' = spec_process c env"
    by (simp add: json_index_def build_oci_spec_def json_object_def json_get_def unwrap_or_def)
  moreover have "json_index (spec_process c env) ''user'' = json_object [(''uid'', json_u32 uid), (''gid'', json_u32 gid)]"
    by (simp add: json_index_def spec_process_def u json_object_def json_get_def unwrap_or_def)
  moreover have caps: "json_index (spec_process c env) ''capabilities'' = capabilities uid"
    by (simp add: json_index_def spec_process_def u json_object_def json_get_def unwrap_or_def)
  have "spec_capabilities (build_oci_spec c env) kind = json_index (capabilities uid) kind" for kind
    by (simp only: spec_capabilities_def process caps)
  then have "map (spec_capabilities (build_oci_spec c env))
      [''bounding'', ''effective'', ''inheritable'', ''permitted'', ''ambient''] =
    replicate 5 (json_strings (if uid = 0 then root_capabilities else []))"
    by (simp add: capabilities_def json_index_def json_object_def json_get_def unwrap_or_def numeral_eq_Suc Let_def)
  ultimately show ?thesis using u unfolding parse_user_spec_ids by (intro exI[of _ uid] exI[of _ gid]) simp
qed

lemma malformed_user_is_nobody:
  "length (split_on CHR '':'' user) \<noteq> 2 \<Longrightarrow> parse_user_spec user = (65534, 65534)"
  by (auto simp: parse_user_spec_def split: list.splits)

section \<open>Containers are removed\<close>

text \<open>
  What the daemon does to its containers and to the set of containers whose task was ever started. A request
  that fails changes neither, except that a failed deletion may have removed the container; the other requests
  and the file system leave both alone, and so does a wait that is given up.
\<close>

definition daemon_requests_quiet :: "'w daemon \<Rightarrow> ('w \<Rightarrow> 'o) \<Rightarrow> bool" where
  "daemon_requests_quiet D obs \<longleftrightarrow>
     (\<forall>p. quiet obs (dm_connect_unix D p)) \<and> (\<forall>p. quiet obs (dm_connect D p)) \<and> (\<forall>ns. quiet obs (dm_version D ns)) \<and>
     (\<forall>ns n. quiet obs (dm_get_image D ns n)) \<and> (\<forall>ns d. quiet obs (dm_read D ns d)) \<and>
     (\<forall>ns s k. quiet obs (dm_mounts D ns s k)) \<and> (\<forall>ns s k p. quiet obs (dm_prepare D ns s k p)) \<and>
     (\<forall>ns d ms. quiet obs (dm_apply D ns d ms)) \<and> (\<forall>ns t. quiet obs (dm_create_task D ns t)) \<and>
     (\<forall>ns i. quiet obs (dm_wait D ns i)) \<and> (\<forall>ns i. quiet obs (dm_delete_task D ns i))"

definition host_quiet :: "'w ctr_host \<Rightarrow> ('w \<Rightarrow> 'o) \<Rightarrow> bool" where
  "host_quiet H obs \<longleftrightarrow>
     (\<forall>p. quiet obs (ch_exists H p)) \<and> quiet obs (ch_uuid H) \<and> (\<forall>p. quiet obs (ch_create_dir_all H p)) \<and>
     (\<forall>p. quiet obs (ch_remove_file H p)) \<and> (\<forall>p. quiet obs (ch_create_file H p)) \<and>
     (\<forall>p m. quiet obs (ch_set_mode H p m)) \<and> (\<forall>p. quiet obs (ch_read_to_string H p)) \<and>
     (\<forall>p. quiet obs (ch_remove_dir_all H p))"

definition daemon_containers ::
    "'w daemon \<Rightarrow> 'w ctr_host \<Rightarrow> ('w, string + u32) deadline \<Rightarrow> ('w \<Rightarrow> string set) \<Rightarrow> ('w \<Rightarrow> string set) \<Rightarrow> bool" where
  "daemon_containers D H deadline containers started \<longleftrightarrow>
     (\<forall>ns c w r w'. dm_create_container D ns c w = (r, w') \<longrightarrow>
        containers w' = (if isl r then containers w else insert (oc_id c) (containers w)) \<and> started w' = started w) \<and>
     (\<forall>ns i w r w'. dm_delete_container D ns i w = (r, w') \<longrightarrow>
        (containers w' = containers w - {i} \<or> isl r \<and> containers w' = containers w) \<and> started w' = started w) \<and>
     (\<forall>ns i w r w'. dm_start D ns i w = (r, w') \<longrightarrow>
        containers w' = containers w \<and> started w' = (if isl r then started w else insert i (started w))) \<and>
     daemon_requests_quiet D (\<lambda>w. (containers w, started w)) \<and> host_quiet H (\<lambda>w. (containers w, started w)) \<and>
     (\<forall>n f. quiet (\<lambda>w. (containers w, started w)) f \<longrightarrow> quiet (\<lambda>w. (containers w, started w)) (deadline n f))"

lemma daemon_requests_quietD [quiet_intros]:
  assumes "daemon_requests_quiet D obs"
  shows "quiet obs (dm_connect_unix D p)" "quiet obs (dm_connect D p)" "quiet obs (dm_version D ns)"
    "quiet obs (dm_get_image D ns n)" "quiet obs (dm_read D ns d)" "quiet obs (dm_mounts D ns s k)"
    "quiet obs (dm_prepare D ns s k p)" "quiet obs (dm_apply D ns ds ms)" "quiet obs (dm_create_task D ns t)"
    "quiet obs (dm_wait D ns i)" "quiet obs (dm_delete_task D ns i)"
  using assms unfolding daemon_requests_quiet_def by simp_all

lemma host_quietD [quiet_intros]:
  assumes "host_quiet H obs"
  shows "quiet obs (ch_exists H p)" "quiet obs (ch_uuid H)" "quiet obs (ch_create_dir_all H p)" "quiet obs (ch_remove_file H p)"
    "quiet obs (ch_create_file H p)" "quiet obs (ch_set_mode H p m)" "quiet obs (ch_read_to_string H p)"
    "quiet obs (ch_remove_dir_all H p)"
  using assms unfolding host_quiet_def by simp_all

lemma quiet_connect [quiet_intros]:
  assumes "daemon_requests_quiet D obs" and "host_quiet H obs"
  shows "quiet obs (connect D H addr)"
  using daemon_requests_quietD(1,2)[OF assms(1)] host_quietD(1)[OF assms(2)]
  by (intro quietI) (simp add: connect_def quiet_unfold quiet_snd quiet_try_do quiet_request quiet_pure)

lemma quiet_ensure_image [quiet_intros]: "daemon_requests_quiet D obs \<Longrightarrow> quiet obs (ensure_image D img_name ns)"
  by (rule quietI) (simp add: ensure_image_def case_prod_unfold daemon_requests_quietD(4)[THEN quiet_snd] split: sum.splits)

lemma quiet_read_json [quiet_intros]: "daemon_requests_quiet D obs \<Longrightarrow> quiet obs (read_json D H ns digest msg)"
  unfolding read_json_def read_content_def by (intro quiet_intros)

lemma quiet_chain_id [quiet_intros]:
  assumes "daemon_requests_quiet D obs"
  shows "quiet obs (resolve_image_chain_id D H img_name ns)"
proof -
  have "quiet obs (platform_manifest D H ns m)" for m
    unfolding platform_manifest_def using assms by (auto intro!: quiet_intros)
  then show ?thesis unfolding resolve_image_chain_id_def using assms by (auto intro!: quiet_intros)
qed

lemma quiet_prepare_rootfs [quiet_intros]:
  assumes "daemon_requests_quiet D obs"
  shows "quiet obs (prepare_rootfs D H check img_name container_id ns)"
proof (rule quietI)
  fix w
  have "quiet obs (try_do (if check then resolve_image_chain_id D H img_name ns else lift_res (Inr []))
      (\<lambda>parent. request ''failed to prepare snapshot: '' (dm_prepare D ns DEFAULT_SNAPSHOTTER container_id parent)))"
    using assms by (auto intro!: quiet_intros)
  then show "obs (snd (prepare_rootfs D H check img_name container_id ns w)) = obs w"
    using assms by (simp add: prepare_rootfs_def case_prod_unfold daemon_requests_quietD[THEN quiet_snd] quiet_snd
        split: sum.splits split del: if_split)
qed

lemma quiet_apply_diffs [quiet_intros]:
  assumes "daemon_requests_quiet D obs"
  shows "quiet obs (apply_diffs D ns mounts applies)"
proof (induction applies)
  case Nil
  then show ?case by (simp add: quiet_def)
next
  case (Cons a applies)
  obtain t d where a: "a = (t, d)" by force
  have "apply_diffs D ns mounts (a # applies) = try_do (apply_diff D ns mounts d) (\<lambda>_. apply_diffs D ns mounts applies)"
    by (rule ext) (simp add: a)
  then show ?case using Cons assms by (auto simp: apply_diff_def intro!: quiet_intros)
qed

lemma quiet_create_io_dir [quiet_intros]:
  assumes "host_quiet H obs"
  shows "quiet obs (create_io_dir H container_id)"
proof -
  have "quiet obs (create_io_files H ps)" for ps
    unfolding quiet_def
    by (induction ps) (simp_all add: quiet_unfold host_quietD[OF assms, THEN quiet_snd] split: sum.splits)
  then show ?thesis unfolding create_io_dir_def Let_def by (auto intro!: quiet_intros assms)
qed

lemma quiet_open_daemon [quiet_intros]:
  assumes "daemon_requests_quiet D obs" and "host_quiet H obs"
  shows "quiet obs (open_daemon D H c)"
  unfolding open_daemon_def using assms by (auto intro!: quiet_intros)

text \<open>
  Starting a container touches only this container. When it succeeds, the container exists and its task is
  started; when it fails, the task is not started, but the container may stay behind.
\<close>

lemma keep_triple:
  assumes "quiet (\<lambda>w. (containers w, started w)) f" and "A \<in> {C, insert i C}"
  shows "triple (\<lambda>w. (containers w, started w) = (A, S)) f (\<lambda>_ w. (containers w, started w) = (A, S))
    (\<lambda>w. containers w \<in> {C, insert i C} \<and> started w = S)"
  using assms(2) by (intro triple_quiet[where obs = "\<lambda>w. (containers w, started w)" and P = "\<lambda>x. x = (A, S)", OF assms(1)]) simp

lemma create_triple:
  assumes "daemon_containers D H deadline containers started"
  shows "triple (\<lambda>w. (containers w, started w) = (C, S)) (dm_create_container D ns (container_of i n spec))
    (\<lambda>_ w. (containers w, started w) = (insert i C, S)) (\<lambda>w. containers w \<in> {C, insert i C} \<and> started w = S)"
  using assms unfolding daemon_containers_def triple_def
  by (fastforce simp: container_of_def split: prod.splits sum.splits)

lemma start_triple:
  assumes "daemon_containers D H deadline containers started"
  shows "triple (\<lambda>w. (containers w, started w) = (insert i C, S)) (dm_start D ns i)
    (\<lambda>_ w. (containers w, started w) = (insert i C, insert i S)) (\<lambda>w. containers w \<in> {C, insert i C} \<and> started w = S)"
  using assms unfolding daemon_containers_def triple_def
  by (fastforce split: prod.splits sum.splits)

lemma daemon_containers_quiet:
  assumes "daemon_containers D H deadline containers started"
  shows "daemon_requests_quiet D (\<lambda>w. (containers w, started w))" "host_quiet H (\<lambda>w. (containers w, started w))"
    "quiet (\<lambda>w. (containers w, started w)) f \<Longrightarrow> quiet (\<lambda>w. (containers w, started w)) (deadline n f)"
  using assms unfolding daemon_containers_def by blast+

lemma launch_triple:
  assumes "daemon_containers D H deadline containers started"
  shows "triple (\<lambda>w. (containers w, started w) = (C, S)) (launch D H c applies env check i)
    (\<lambda>_ w. (containers w, started w) = (insert i C, insert i S)) (\<lambda>w. containers w \<in> {C, insert i C} \<and> started w = S)"
proof -
  note Q = daemon_containers_quiet(1,2)[OF assms]
  show ?thesis
    unfolding launch_def Let_def
    apply (rule triple_try_do[OF triple_request[OF create_triple[OF assms]]])
    apply (rule triple_try_do[OF keep_triple[OF quiet_prepare_rootfs[OF Q(1)]]], simp)
    apply (rule triple_try_do[OF keep_triple[OF quiet_apply_diffs[OF Q(1)]]], simp)
    apply (rule triple_try_do[OF keep_triple[OF quiet_create_io_dir[OF Q(2)]]], simp)
    apply (simp only: split_paired_all prod.case)
    apply (rule triple_try_do[OF triple_request[OF keep_triple[OF daemon_requests_quietD(9)[OF Q(1)]]]], simp)
    apply (rule triple_try_do[OF triple_request[OF start_triple[OF assms]]])
    apply (rule triple_lift)
    done
qed

lemma remove_container_effect:
  assumes "daemon_containers D H deadline containers started"
    and "\<And>w. fst (dm_delete_container D DEFAULT_NAMESPACE i w) = Inr ()"
  shows "containers (remove_container D H i dir w) = containers w - {i} \<and> started (remove_container D H i dir w) = started w"
proof -
  let ?obs = "\<lambda>w. (containers w, started w)"
  note Q = daemon_containers_quiet(1,2)[OF assms(1)]
  obtain x w1 where t: "dm_delete_task D DEFAULT_NAMESPACE i w = (x, w1)" by force
  obtain w2 where c: "dm_delete_container D DEFAULT_NAMESPACE i w1 = (Inr (), w2)" using assms(2)[of w1] by (metis prod.collapse)
  have "containers w2 = containers w1 - {i} \<and> started w2 = started w1"
    using assms(1) c unfolding daemon_containers_def by fastforce
  moreover have "?obs w1 = ?obs w" by (rule quietD[OF daemon_requests_quietD(11)[OF Q(1)] t])
  moreover have "remove_container D H i dir w = snd (ch_remove_dir_all H dir w2)"
    by (simp add: remove_container_def cleanup_def request_def t c)
  ultimately show ?thesis using quiet_snd[OF host_quietD(8)[OF Q(2)], of dir w2] by simp
qed

lemma finish_container_effect:
  assumes "daemon_containers D H deadline containers started"
    and "\<And>w. fst (dm_delete_container D DEFAULT_NAMESPACE i w) = Inr ()"
  shows "containers (snd (finish_container D H deadline c n i p w)) = containers w - {i} \<and>
    started (snd (finish_container D H deadline c n i p w)) = started w"
proof -
  let ?obs = "\<lambda>w. (containers w, started w)"
  note Q = daemon_containers_quiet(1,2)[OF assms(1)] and timeout = daemon_containers_quiet(3)[OF assms(1)]
  have wait: "quiet ?obs (wait_task D deadline c i)"
  proof (cases "cd_timeout_ms c")
    case None
    then show ?thesis
      using daemon_requests_quietD(10)[OF Q(1)] by (simp add: wait_task_def quiet_def quiet_unfold)
  next
    case (Some ms)
    then have "wait_task D deadline c i = deadline (unat ms) (dm_wait D DEFAULT_NAMESPACE i)"
      by (intro ext) (simp add: wait_task_def Let_def)
    then show ?thesis by (simp add: timeout daemon_requests_quietD(10)[OF Q(1)])
  qed
  have read: "?obs (snd (read_or_empty H path w)) = ?obs w" for path w
    using quiet_snd[OF host_quietD(7)[OF Q(2)], of path w] by (simp add: read_or_empty_def case_prod_unfold split: sum.splits)
  show ?thesis
    using quiet_snd[OF wait, of w] read
    by (auto simp: finish_container_def quiet_unfold remove_container_effect[OF assms] split: option.splits sum.splits)
qed

text \<open>
  C27: a run of a containerd step touches no container but its own, and a container whose task was
  started is removed however the run ends, by success, by a failing program, by an error of the daemon
  while it waits, or by its deadline, provided that the daemon carries out deletions and that a
  request to create or start a container that reports an error has had no effect. Removed is the
  container as the daemon records it; a process in it may go on running. A run that succeeds has
  started its container.
\<close>

theorem containerd_container_removed:
  assumes "daemon_containers D H deadline containers started"
    and "\<And>i w. fst (dm_delete_container D DEFAULT_NAMESPACE i w) = Inr ()"
    and "ctr_run D H deadline c ctx (w, applies) = (r, (w', applies'))"
  shows "\<exists>i. containers w - {i} \<subseteq> containers w' \<and> containers w' \<subseteq> insert i (containers w) \<and>
    (started w' = started w \<and> isl r \<or> started w' = insert i (started w) \<and> i \<notin> containers w')"
proof -
  let ?obs = "\<lambda>w. (containers w, started w)"
  note Q = daemon_containers_quiet(1,2)[OF assms(1)]
  obtain o1 w1 where o1: "open_daemon D H c w = (o1, w1)" by force
  have w1: "?obs w1 = ?obs w" by (rule quietD[OF quiet_open_daemon[OF Q] o1])
  obtain u w2 where u: "ch_uuid H w1 = (u, w2)" by force
  have w2: "?obs w2 = ?obs w1" by (rule quietD[OF host_quietD(2)[OF Q(2)] u])
  define i where "i = ''wfe-'' @ u"
  define l where "l = launch D H c applies (merged_env (ch_json_text H) c (wi_data (sx_workflow ctx))) (should_check c) i w2"
  obtain l1 w3 where l1: "l = (l1, w3)" by force
  have L: "case l1 of Inl _ \<Rightarrow> containers w3 \<in> {containers w, insert i (containers w)} \<and> started w3 = started w
      | Inr _ \<Rightarrow> ?obs w3 = (insert i (containers w), insert i (started w))"
    using tripleD[OF launch_triple[OF assms(1)], of w2] w1 w2 l1[unfolded l_def] by auto
  show ?thesis
  proof (cases o1)
    case (Inl e)
    then have "w' = w1" "r = Inl e" using assms(3) by (auto simp: ctr_run_def try_do_def o1)
    then show ?thesis using w1 by auto
  next
    case (Inr x)
    then have run: "try_do (\<lambda>_. l) (finish_container D H deadline c (unknown_name ctx) i) w2 = (r, w')"
      using assms(3) by (auto simp: ctr_run_def try_do_def o1 u l_def i_def split: prod.splits sum.splits)
    show ?thesis
    proof (cases l1)
      case (Inl e)
      then have "w' = w3" "r = Inl e" using run by (auto simp: try_do_def l1)
      then show ?thesis using L Inl by auto
    next
      case (Inr y)
      then have "w' = snd (finish_container D H deadline c (unknown_name ctx) i y w3)" using run by (simp add: try_do_def l1)
      then show ?thesis
        using finish_container_effect[OF assms(1,2), of c "unknown_name ctx" i y w3] L Inr by (intro exI[of _ i]) auto
    qed
  qed
qed

section \<open>Services are torn down\<close>

lemma run_service_triple:
  assumes "daemon_containers D H deadline containers started"
  shows "triple (\<lambda>w. (containers w, started w) = (C, S)) (run_service D H addr i n env)
    (\<lambda>_ w. (containers w, started w) = (insert i C, insert i S)) (\<lambda>w. containers w \<in> {C, insert i C} \<and> started w = S)"
proof -
  note Q = daemon_containers_quiet(1,2)[OF assms]
  show ?thesis
    unfolding run_service_def Let_def
    apply (rule triple_try_do[OF keep_triple[OF quiet_connect[OF Q]]], simp)
    apply (rule triple_try_do[OF keep_triple[OF quiet_ensure_image[OF Q(1)]]], simp)
    apply (rule triple_try_do[OF triple_request[OF create_triple[OF assms]]])
    apply (rule triple_try_do[OF keep_triple[OF quiet_prepare_rootfs[OF Q(1)]]], simp)
    apply (rule triple_try_do[OF triple_request[OF keep_triple[OF daemon_requests_quietD(9)[OF Q(1)]]]], simp)
    apply (rule triple_request[OF start_triple[OF assms]])
    done
qed

abbreviation service_ids :: "string \<Rightarrow> service_definition list \<Rightarrow> string list" where
  "service_ids wid svcs \<equiv> map (\<lambda>svc. service_container_id (sd_name svc) wid) svcs"

lemma start_services_effect:
  assumes "daemon_containers D H deadline containers started"
  shows "start_services D H addr wid svcs w = (Inr (), w') \<Longrightarrow>
    containers w' = containers w \<union> set (service_ids wid svcs) \<and> started w' = started w \<union> set (service_ids wid svcs)"
proof (induction svcs arbitrary: w)
  case (Cons svc svcs)
  let ?i = "service_container_id (sd_name svc) wid"
  obtain r w1 where r: "run_service D H addr ?i (sd_image svc) (sd_env svc) w = (r, w1)" by force
  with Cons.prems have "r = Inr ()" "start_services D H addr wid svcs w1 = (Inr (), w')"
    by (auto simp: try_do_def split: sum.splits)
  moreover from this(1) have "containers w1 = insert ?i (containers w) \<and> started w1 = insert ?i (started w)"
    using tripleD[OF run_service_triple[OF assms, where C = "containers w" and S = "started w"] _ r] by simp
  ultimately show ?case using Cons.IH by auto
qed simp

lemma cleanup_service_effect:
  assumes "daemon_containers D H deadline containers started"
  shows "containers (snd (cleanup_service D H addr i w)) \<in> {containers w, containers w - {i}} \<and>
    (fst (cleanup_service D H addr i w) = Inr () \<longrightarrow> containers (snd (cleanup_service D H addr i w)) = containers w - {i})"
proof -
  let ?obs = "\<lambda>w. (containers w, started w)"
  note Q = daemon_containers_quiet(1,2)[OF assms]
  obtain c w1 where w1: "connect D H addr w = (c, w1)" by force
  obtain x w2 where w2: "dm_delete_task D DEFAULT_NAMESPACE i w1 = (x, w2)" by force
  obtain y w3 where w3: "dm_delete_container D DEFAULT_NAMESPACE i w2 = (y, w3)" by force
  have "containers w3 = containers w2 - {i} \<or> isl y \<and> containers w3 = containers w2"
    using assms w3 unfolding daemon_containers_def by blast
  moreover have "?obs w2 = ?obs w1" by (rule quietD[OF daemon_requests_quietD(11)[OF Q(1)] w2])
  moreover have "?obs w1 = ?obs w" by (rule quietD[OF quiet_connect[OF Q] w1])
  ultimately show ?thesis
    by (cases c; cases y) (auto simp: cleanup_service_def try_do_def cleanup_def request_def w1 w2 w3)
qed

text \<open>The teardown of a list of containers reaches those whose clean-up reports success, and no other container.\<close>

lemma cleanup_services_effect:
  assumes "daemon_containers D H deadline containers started"
  shows "containers (fold (\<lambda>i w. snd (cleanup_service D H addr i w)) ids w) \<subseteq> containers w \<and>
    containers w - set ids \<subseteq> containers (fold (\<lambda>i w. snd (cleanup_service D H addr i w)) ids w) \<and>
    (\<forall>i\<in>set ids. (\<forall>w. fst (cleanup_service D H addr i w) = Inr ()) \<longrightarrow>
       i \<notin> containers (fold (\<lambda>i w. snd (cleanup_service D H addr i w)) ids w))"
proof (induction ids arbitrary: w)
  case (Cons j ids)
  let ?w = "snd (cleanup_service D H addr j w)"
  have "containers ?w \<subseteq> containers w" "containers w - {j} \<subseteq> containers ?w"
    "fst (cleanup_service D H addr j w) = Inr () \<Longrightarrow> j \<notin> containers ?w"
    using cleanup_service_effect[OF assms, of addr j w] by auto
  then show ?case using Cons.IH[of ?w] by auto
qed simp

text \<open>
  C28: the teardown of a workflow's services reaches exactly their containers. When the services
  were all provisioned, the containers of the daemon are the old ones and one for each service, all of
  them started. The teardown, which ignores the errors of the daemon, afterwards removes no other
  container and adds none, whatever the daemon answers; it removes the container of every service
  whose clean-up, the connection and the deletion, succeeds when it is tried; and the provider forgets
  the workflow in any case. This is about containers as the daemon records them: the processes in them
  are not stopped.
\<close>

theorem containerd_services_removed:
  assumes "daemon_containers D H deadline containers started"
    and "ctr_provision D H addr wid svcs (w, running) = (Inr es, (w1, running1))"
    and "ctr_teardown D H addr wid (w1, running1) = (r, (w2, running2))"
  shows "containers w1 = containers w \<union> set (service_ids wid svcs) \<and> started w1 = started w \<union> set (service_ids wid svcs) \<and>
    map se_name es = map sd_name svcs \<and> running2 = running(wid := None) \<and>
    containers w2 \<subseteq> containers w1 \<and> containers w1 - set (service_ids wid svcs) \<subseteq> containers w2 \<and>
    (\<forall>i\<in>set (service_ids wid svcs). (\<forall>w. fst (cleanup_service D H addr i w) = Inr ()) \<longrightarrow> i \<notin> containers w2)"
proof -
  have p: "start_services D H addr wid svcs w = (Inr (), w1)" "running1 = running(wid \<mapsto> service_ids wid svcs)"
    "es = map ctr_endpoint svcs"
    using assms(2) by (auto simp: ctr_provision_def split: prod.splits sum.splits)
  then have "w2 = fold (\<lambda>i w. snd (cleanup_service D H addr i w)) (service_ids wid svcs) w1" "running2 = running(wid := None)"
    using assms(3) by (auto simp: ctr_teardown_def unwrap_or_def)
  moreover have "map se_name es = map sd_name svcs" by (simp add: p(3) ctr_endpoint_def)
  ultimately show ?thesis
    using cleanup_services_effect[OF assms(1), of addr "service_ids wid svcs" w1] start_services_effect[OF assms(1) p(1)] by blast
qed

text \<open>
  When a later service fails, the earlier ones were not recorded: the teardown leaves their containers alone.
\<close>

lemma failed_provision_leaks:
  assumes "daemon_containers D H deadline containers started"
    and "run_service D H addr (service_container_id (sd_name svc) wid) (sd_image svc) (sd_env svc) w = (Inr (), w1)"
    and "run_service D H addr (service_container_id (sd_name svc') wid) (sd_image svc') (sd_env svc') w1 = (Inl e, w2)"
    and "running wid = None"
  shows "ctr_provision D H addr wid [svc, svc'] (w, running) = (Inl e, (w2, running)) \<and>
    service_container_id (sd_name svc) wid \<in> containers (fst (snd (ctr_teardown D H addr wid (w2, running))))"
proof
  let ?i = "service_container_id (sd_name svc) wid"
  show "ctr_provision D H addr wid [svc, svc'] (w, running) = (Inl e, (w2, running))"
    using assms(2,3) by (simp add: ctr_provision_def try_do_def)
  have "?i \<in> containers w1"
    using tripleD[OF run_service_triple[OF assms(1), where C = "containers w" and S = "started w"] _ assms(2)] by simp
  then have "?i \<in> containers w2"
    using tripleD[OF run_service_triple[OF assms(1), where C = "containers w1" and S = "started w1"] _ assms(3)] by auto
  then show "?i \<in> containers (fst (snd (ctr_teardown D H addr wid (w2, running))))"
    by (simp add: ctr_teardown_def unwrap_or_def assms(4))
qed

text \<open>A step whose task cannot be created leaves its container behind.\<close>

lemma failed_launch_leaks:
  assumes "daemon_containers D H deadline containers started"
    and "dm_create_container D DEFAULT_NAMESPACE (container_of i (cd_image c) (build_oci_spec c env)) w = (Inr (), w1)"
    and "prepare_rootfs D H check (cd_image c) i DEFAULT_NAMESPACE w1 = (Inl e, w2)"
  shows "launch D H c applies env check i w = (Inl e, w2) \<and> i \<in> containers w2"
proof -
  have "i \<in> containers w1"
    using tripleD[OF create_triple[OF assms(1), where C = "containers w" and S = "started w"] _ assms(2)] by simp
  moreover have "(containers w2, started w2) = (containers w1, started w1)"
    by (rule quietD[OF quiet_prepare_rootfs[OF daemon_containers_quiet(1)[OF assms(1)]] assms(3)])
  ultimately show ?thesis using assms(2,3) by (simp add: launch_def try_do_def request_def)
qed

text \<open>
  The executor never kills a task. The daemon refuses to delete one that is running, so the processes of a
  container outlive its deadline and the teardown of a service: \<open>live\<close> is what is still running.
\<close>

lemma running_task_survives:
  assumes "quiet live (dm_delete_task D DEFAULT_NAMESPACE i)" and "quiet live (dm_delete_container D DEFAULT_NAMESPACE i)"
    and "quiet live (ch_remove_dir_all H dir)"
  shows "live (remove_container D H i dir w) = live w"
  by (simp add: remove_container_def cleanup_def request_def quiet_unfold assms[THEN quiet_snd] split: sum.splits)

section \<open>A small daemon\<close>

text \<open>Its state is the list of containers and the list of those that were started; every image is there and every task succeeds.\<close>

type_synonym toy = "string list \<times> string list"

definition toy_daemon :: "toy daemon" where
  "toy_daemon =
     \<lparr>dm_connect_unix = (\<lambda>_ w. (Inr (), w)), dm_endpoint = (\<lambda>_. Inr ()), dm_connect = (\<lambda>_ w. (Inr (), w)),
      dm_version = (\<lambda>_ w. (Inr (), w)), dm_get_image = (\<lambda>_ _ w. (Inr (Some (Some ''d'')), w)), dm_read = (\<lambda>_ _ w. (Inr [], w)),
      dm_write = (\<lambda>_ _ w. (Inr [Inr ''commit''], w)), dm_mounts = (\<lambda>_ _ _ w. (Inr [], w)), dm_prepare = (\<lambda>_ _ _ _ w. (Inr [], w)),
      dm_apply = (\<lambda>_ _ _ w. (Inr (), w)),
      dm_create_container = (\<lambda>_ c (cs, st). (Inr (), (oc_id c # cs, st))),
      dm_delete_container = (\<lambda>_ i (cs, st). (Inr (), (removeAll i cs, st))),
      dm_create_task = (\<lambda>_ _ w. (Inr (), w)), dm_start = (\<lambda>_ i (cs, st). (Inr (), (cs, i # st))),
      dm_wait = (\<lambda>_ _ w. (Inr 0, w)), dm_delete_task = (\<lambda>_ _ w. (Inr (), w))\<rparr>"

definition toy_host :: "toy ctr_host" where
  "toy_host =
     \<lparr>ch_exists = (\<lambda>_ w. (True, w)), ch_uuid = (\<lambda>w. (''1'', w)), ch_io_dir = None, ch_temp_dir = ''/tmp'',
      ch_create_dir_all = (\<lambda>_ w. (Inr (), w)), ch_remove_file = (\<lambda>_ w. (Inr (), w)), ch_create_file = (\<lambda>_ w. (Inr (), w)),
      ch_set_mode = (\<lambda>_ _ w. (Inr (), w)), ch_read_to_string = (\<lambda>_ w. (Inr [], w)), ch_remove_dir_all = (\<lambda>_ w. (Inr (), w)),
      ch_sha256_hex = (\<lambda>s. s), ch_from_slice = (\<lambda>_. Inr JNull), ch_arch = ''x86_64'', ch_json_text = (\<lambda>_. [])\<rparr>"

abbreviation toy_deadline :: "(toy, string + u32) deadline" where
  "toy_deadline \<equiv> \<lambda>_ f w. case f w of (r, w) \<Rightarrow> (Some r, w)"

lemma toy_daemon_containers:
  "daemon_containers toy_daemon toy_host toy_deadline (\<lambda>w. set (fst w)) (\<lambda>w. set (snd w))"
  by (auto simp: daemon_containers_def daemon_requests_quiet_def host_quiet_def toy_daemon_def toy_host_def quiet_def
      case_prod_unfold)

lemma toy_delete: "fst (dm_delete_container toy_daemon ns i w) = Inr ()"
  by (simp add: toy_daemon_def case_prod_unfold)

abbreviation toy_config :: containerd_config where
  "toy_config \<equiv> service_config ''/run/containerd.sock'' ''alpine'' []"

lemma toy_run:
  "ctr_run toy_daemon toy_host toy_deadline toy_config sample_context (([''other''], []), []) =
     (container_result (unknown_name sample_context) [] [] 0, ((([''other''], [''wfe-1'']), [])))"
  by (simp add: ctr_run_def open_daemon_def connect_def try_do_def request_def ensure_image_def should_check_def launch_def
      prepare_rootfs_def create_io_dir_def lift_res_def finish_container_def wait_task_def read_or_empty_def
      remove_container_def cleanup_def toy_daemon_def toy_host_def service_config_def container_of_def unwrap_or_def
      strip_prefix_str_def Let_def)

theorem containerd_container_removed_witness:
  "\<exists>i. set [''other''] - {i} \<subseteq> set [''other''] \<and> set [''other''] \<subseteq> insert i (set [''other'']) \<and>
    (set [''wfe-1''] = {} \<and> isl (container_result (unknown_name sample_context) [] [] 0) \<or>
     set [''wfe-1''] = insert i {} \<and> i \<notin> set [''other''])"
  using containerd_container_removed[OF toy_daemon_containers toy_delete toy_run] by simp

abbreviation toy_service :: service_definition where
  "toy_service \<equiv> \<lparr>sd_name = ''db'', sd_image = ''postgres'', sd_ports = [], sd_env = [], sd_readiness = None, sd_command = [],
     sd_args = [], sd_memory = None, sd_cpu = None\<rparr>"

theorem containerd_services_removed_witness:
  "set (fst (fst (snd (ctr_teardown toy_daemon toy_host ''/run/containerd.sock'' ''wf''
      (snd (ctr_provision toy_daemon toy_host ''/run/containerd.sock'' ''wf'' [toy_service] (([''other''], []), Map.empty))))))) =
    {''other''}"
proof -
  let ?addr = "''/run/containerd.sock''"
  have clean: "fst (cleanup_service toy_daemon toy_host ?addr i w) = Inr ()" for i w
    by (simp add: cleanup_service_def cleanup_def try_do_def connect_def toy_daemon_def toy_host_def request_def unwrap_or_def
        strip_prefix_str_def Let_def case_prod_unfold)
  obtain es w1 running1 where p: "ctr_provision toy_daemon toy_host ?addr ''wf'' [toy_service] (([''other''], []), Map.empty) =
      (Inr es, (w1, running1))"
    by (simp add: ctr_provision_def run_service_def connect_def try_do_def request_def ensure_image_def prepare_rootfs_def
        toy_daemon_def toy_host_def unwrap_or_def strip_prefix_str_def container_of_def Let_def)
  obtain r w' running' where t: "ctr_teardown toy_daemon toy_host ?addr ''wf'' (w1, running1) = (r, (w', running'))"
    by (metis prod.exhaust)
  let ?i = "service_container_id ''db'' ''wf''"
  have "set (fst w1) = {?i, ''other''} \<and> set (fst w') \<subseteq> set (fst w1) \<and> set (fst w1) - {?i} \<subseteq> set (fst w') \<and> ?i \<notin> set (fst w')"
    using containerd_services_removed[OF toy_daemon_containers p t] clean by simp blast
  moreover have "?i \<noteq> ''other''" by (simp add: service_container_id_def)
  moreover have "X = {c}" if "Y = {i, c} \<and> X \<subseteq> Y \<and> Y - {i} \<subseteq> X \<and> i \<notin> X" "i \<noteq> c" for X Y and i c :: string
    using that by auto
  ultimately have "set (fst w') = {''other''}" by metis
  then show ?thesis by (simp only: p t fst_conv snd_conv)
qed

section \<open>Settings without an effect\<close>

text \<open>
  The specification does not depend on the network mode and on the limits, and it has no network namespace: also
  a container with the default mode \<open>none\<close> is on the network of the host.
\<close>

lemma network_and_limits_ignored:
  "build_oci_spec (c\<lparr>cd_network := n, cd_memory := m, cd_cpu := p\<rparr>) env = build_oci_spec c env \<and>
   JString ''network'' \<notin> (\<lambda>ns. json_index ns ''type'') `
     set (unwrap_or (as_array (json_index (json_index (build_oci_spec c env) ''linux'') ''namespaces'')) [])"
proof
  have "process_args (c\<lparr>cd_network := n, cd_memory := m, cd_cpu := p\<rparr>) = process_args c"
    by (simp add: process_args_def split: option.split)
  then show "build_oci_spec (c\<lparr>cd_network := n, cd_memory := m, cd_cpu := p\<rparr>) env = build_oci_spec c env"
    by (simp add: build_oci_spec_def spec_process_def)
  have "json_index (build_oci_spec c env) ''linux'' = json_object [(''namespaces'',
         JArray (map (\<lambda>t. json_object [(''type'', JString t)]) [''pid'', ''ipc'', ''uts'', ''mount'']))]"
    by (simp add: json_index_def build_oci_spec_def json_object_def json_get_def unwrap_or_def)
  then show "JString ''network'' \<notin> (\<lambda>ns. json_index ns ''type'') `
     set (unwrap_or (as_array (json_index (json_index (build_oci_spec c env) ''linux'') ''namespaces'')) [])"
    by (simp add: json_index_def json_object_def json_get_def unwrap_or_def as_array_def)
qed

section \<open>Artifacts reach the container\<close>

text \<open>
  A successful mount records, in the order of the inputs, a layer for each artifact: its archive moved below the
  target, known by its digest.
\<close>

lemma upload_inputs_descriptors:
  "upload_inputs D H T vol inputs (w, applies) = (Inr (), (w', applies')) \<Longrightarrow>
   \<exists>layers. list_all2 (\<lambda>(name, target) b.
       repackage_with_prefix T vol name (unwrap_or (strip_prefix_str ''/'' target) target) = Inr b) inputs layers \<and>
     map fst applies' = map fst applies @ map snd inputs \<and>
     map (ds_digest \<circ> snd) applies' = map (ds_digest \<circ> snd) applies @ map (digest_of H) layers"
proof (induction inputs arbitrary: w applies)
  case (Cons x inputs)
  obtain name target where x: "x = (name, target)" by force
  from Cons.prems obtain b where b: "repackage_with_prefix T vol name (unwrap_or (strip_prefix_str ''/'' target) target) = Inr b"
    by (auto simp: x split: sum.splits)
  obtain q w1 where q: "upload_content D H DEFAULT_NAMESPACE b w = (q, w1)" by force
  with Cons.prems b obtain d sz where "q = Inr (d, sz)" by (auto simp: x split: sum.splits)
  moreover from this q have "d = digest_of H b"
    by (auto simp: upload_content_def try_do_def request_def lift_res_def Let_def split: prod.splits sum.splits)
  ultimately obtain layers where "list_all2 (\<lambda>(name, target) b.
       repackage_with_prefix T vol name (unwrap_or (strip_prefix_str ''/'' target) target) = Inr b) inputs layers"
    "map fst applies' = (map fst applies @ [target]) @ map snd inputs"
    "map (ds_digest \<circ> snd) applies' = (map (ds_digest \<circ> snd) applies @ [digest_of H b]) @ map (digest_of H) layers"
    using Cons.prems Cons.IH b q by (fastforce simp: x)
  with b show ?case by (intro exI[of _ "b # layers"]) (auto simp: x comp_def)
qed simp

end
