(* ===== verification/Git_Repo.thy ===== *)
theory Git_Repo
  imports Requests Primitives Yaml_Config
begin

text \<open>
  The \<open>git-repo\<close> step (\<open>wfe-yaml/src/executors/git_repo.rs\<close>): it clones a repository and stores the working tree as
  an artifact, or unpacks an artifact that the workflow data already refers to. The git library, the archive
  library and the directory operations are parameters.
\<close>

record 'w git_lib =
  gl_create_dir_all :: "string \<Rightarrow> ('w, string + unit) eff"
  gl_prepare_clone :: "string \<Rightarrow> string \<Rightarrow> ('w, string + unit) eff"
  gl_ref_name :: "string \<Rightarrow> string + unit"
  gl_fetch :: "string \<Rightarrow> string \<Rightarrow> u32 option \<Rightarrow> string option \<Rightarrow> ('w, string + unit) eff"
  gl_main_worktree :: "string \<Rightarrow> ('w, string + unit) eff"
  gl_from_hex :: "string \<Rightarrow> string + string"
  gl_edit_head :: "string \<Rightarrow> string \<Rightarrow> string \<Rightarrow> ('w, string + unit) eff"
  gl_tar_gz :: "string \<Rightarrow> ('w, tar_failure + string) eff"
  gl_join :: "('w, string res) eff \<Rightarrow> ('w, string + string res) eff"

definition shallow_depth :: "u32 option \<Rightarrow> u32 option" where
  "shallow_depth depth = map_option (\<lambda>d. if d = 0 then 1 else d) depth"

definition checkout_commit :: "'w git_lib \<Rightarrow> string \<Rightarrow> string option \<Rightarrow> ('w, unit res) eff" where
  "checkout_commit G dest commit =
     (case commit of
        None \<Rightarrow> lift_res (Inr ())
      | Some c \<Rightarrow>
          try_do (request ''Invalid commit hash: '' (\<lambda>w. (gl_from_hex G c, w))) (\<lambda>oid.
          request ''Failed to detach HEAD: '' (gl_edit_head G dest oid (''wfe: checkout '' @ c))))"

definition clone_and_checkout ::
    "'w git_lib \<Rightarrow> string \<Rightarrow> string option \<Rightarrow> string option \<Rightarrow> u32 option \<Rightarrow> string \<Rightarrow> ('w, string res) eff" where
  "clone_and_checkout G url branch commit depth dest =
     try_do (request ''Failed to create parent directory: '' (gl_create_dir_all G (unwrap_or (path_parent dest) ''.''))) (\<lambda>_.
     try_do (request ''Failed to prepare clone: '' (gl_prepare_clone G url dest)) (\<lambda>_.
     try_do (request ''Invalid branch name: '' (\<lambda>w. (case branch of Some b \<Rightarrow> gl_ref_name G b | None \<Rightarrow> Inr (), w))) (\<lambda>_.
     try_do (request ''Fetch failed: '' (gl_fetch G url dest (shallow_depth depth) branch)) (\<lambda>_.
     try_do (request ''Checkout failed: '' (gl_main_worktree G dest)) (\<lambda>_.
     try_do (checkout_commit G dest commit) (\<lambda>_. lift_res (Inr dest)))))))"

definition repo_tar_error :: "tar_failure \<Rightarrow> wfe_error" where
  "repo_tar_error f = step_err
     (case f of
        TarAppend e \<Rightarrow> ''Failed to tar repo: '' @ e
      | TarFinish e \<Rightarrow> ''Failed to finish tar: '' @ e
      | GzipFinish e \<Rightarrow> ''Failed to finish gzip: '' @ e
      | TarPanicked e \<Rightarrow> ''Tar task panicked: '' @ e)"

definition tar_and_store :: "'w git_lib \<Rightarrow> 'w artifact_store \<Rightarrow> string \<Rightarrow> ('w, string res) eff" where
  "tar_and_store G store path =
     try_do (\<lambda>w. case gl_tar_gz G path w of (Inl f, w) \<Rightarrow> (Inl (repo_tar_error f), w) | (Inr b, w) \<Rightarrow> (Inr b, w))
       (\<lambda>buf. put_blob store [Inr buf])"

definition extract_artifact_ref :: "json \<Rightarrow> string \<Rightarrow> string option" where
  "extract_artifact_ref data key =
     and_then (json_get data key) (\<lambda>v. and_then (json_get v ''__wfe_artifact'') as_str)"

definition insert_artifact_ref :: "json \<Rightarrow> string \<Rightarrow> string \<Rightarrow> json" where
  "insert_artifact_ref data key digest =
     (case data of
        JObject m \<Rightarrow> JObject (obj_insert key (json_object [(''__wfe_artifact'', JString digest)]) m)
      | _ \<Rightarrow> data)"

definition fetch_artifact :: "'w artifact_store \<Rightarrow> string \<Rightarrow> ('w, string res) eff" where
  "fetch_artifact store digest =
     try_do (get_blob store digest) (\<lambda>reader. case reader of
         None \<Rightarrow> lift_res (Inl (step_err (''Artifact '' @ digest @ '' not found in store'')))
       | Some r \<Rightarrow> request ''failed to read artifact: '' r)"

definition unpack_artifact :: "'w artifact_store \<Rightarrow> 'w tar_env \<Rightarrow> string \<Rightarrow> string \<Rightarrow> ('w, unit res) eff" where
  "unpack_artifact store T digest dest =
     try_do (fetch_artifact store digest) (\<lambda>bytes. extract_artifact_to_dir T bytes dest)"

definition resolve_path :: "json \<Rightarrow> string \<Rightarrow> string" where
  "resolve_path data path =
     (if is_absolute path then path
      else path_join (unwrap_or (and_then (json_get data ''__wfe_working_dir'') as_str) ''.'') path)"

definition repo_result :: "git_repo_config \<Rightarrow> json \<Rightarrow> string \<Rightarrow> execution_result" where
  "repo_result c data digest =
     result_default\<lparr>er_proceed := True, er_output_data := Some (insert_artifact_ref data (gr_output c) digest)\<rparr>"

definition clone_and_store ::
    "'w git_lib \<Rightarrow> 'w artifact_store \<Rightarrow> git_repo_config \<Rightarrow> json \<Rightarrow> ('w, execution_result res) eff" where
  "clone_and_store G store c data =
     (let dest = resolve_path data (gr_path c) in
      try_do (request ''Clone task panicked: '' (gl_join G
               (clone_and_checkout G (gr_url c) (gr_branch c) (gr_commit c) (gr_depth c) dest))) (\<lambda>result.
      try_do (lift_res result) (\<lambda>repo_path.
      try_do (tar_and_store G store repo_path) (\<lambda>digest. lift_res (Inr (repo_result c data digest))))))"

definition override_of :: "git_repo_config \<Rightarrow> json \<Rightarrow> string option" where
  "override_of c data = and_then (gr_input c) (extract_artifact_ref data)"

definition git_run ::
    "'w git_lib \<Rightarrow> 'w tar_env \<Rightarrow> 'w artifact_store option \<Rightarrow> git_repo_config \<Rightarrow> 'v step_context \<Rightarrow> ('w, execution_result res) eff" where
  "git_run G T artifact_store c ctx =
     (let data = wi_data (sx_workflow ctx) in
      case artifact_store of
        None \<Rightarrow> lift_res (Inl (step_err ''git-repo step requires an artifact store''))
      | Some store \<Rightarrow>
          (case override_of c data of
             Some digest \<Rightarrow>
               try_do (unpack_artifact store T digest (resolve_path data (gr_path c)))
                 (\<lambda>_. lift_res (Inr (repo_result c data digest)))
           | None \<Rightarrow> clone_and_store G store c data))"

section \<open>The artifact override\<close>

lemma map_of_rev_distinct: "distinct (map fst xs) \<Longrightarrow> map_of (rev xs) = map_of xs"
  by (rule map_of_inject_set[THEN iffD2]) (simp_all add: rev_map[symmetric])

lemma extract_inserted [simp]:
  "extract_artifact_ref (insert_artifact_ref (JObject m) key digest) key = Some digest"
  by (simp add: extract_artifact_ref_def insert_artifact_ref_def json_get_def json_object_def as_str_def)

text \<open>
  Where the reference in the result comes from: with an artifact in the data the step unpacks that artifact and
  passes its digest on; otherwise the digest is what the store answered for the archive of the checked-out tree.
\<close>

definition cloned_and_stored ::
    "'w git_lib \<Rightarrow> 'w artifact_store \<Rightarrow> git_repo_config \<Rightarrow> json \<Rightarrow> 'w \<Rightarrow> string \<Rightarrow> 'w \<Rightarrow> bool" where
  "cloned_and_stored G A c data w digest w' \<longleftrightarrow> (\<exists>path buf w1 w2.
     gl_join G (clone_and_checkout G (gr_url c) (gr_branch c) (gr_commit c) (gr_depth c) (resolve_path data (gr_path c))) w =
       (Inr (Inr path), w1) \<and>
     gl_tar_gz G path w1 = (Inr buf, w2) \<and> put_blob A [Inr buf] w2 = (Inr digest, w'))"

definition fetched_and_unpacked ::
    "'w artifact_store \<Rightarrow> 'w tar_env \<Rightarrow> git_repo_config \<Rightarrow> json \<Rightarrow> 'w \<Rightarrow> string \<Rightarrow> 'w \<Rightarrow> bool" where
  "fetched_and_unpacked A T c data w digest w' \<longleftrightarrow> (\<exists>reader bytes w1 w2.
     get_blob A digest w = (Inr (Some reader), w1) \<and> reader w1 = (Inr bytes, w2) \<and>
     extract_artifact_to_dir T bytes (resolve_path data (gr_path c)) w2 = (Inr (), w'))"

lemma git_run_clones:
  assumes "git_run G T (Some A) c ctx w = (Inr r, w')" and "override_of c (wi_data (sx_workflow ctx)) = None"
  shows "\<exists>digest. cloned_and_stored G A c (wi_data (sx_workflow ctx)) w digest w' \<and>
    r = repo_result c (wi_data (sx_workflow ctx)) digest"
  using assms
  by (auto simp: git_run_def clone_and_store_def tar_and_store_def cloned_and_stored_def try_do_def request_def lift_res_def Let_def
      split: prod.splits sum.splits)

lemma git_run_unpacks:
  assumes "git_run G T (Some A) c ctx w = (Inr r, w')" and "override_of c (wi_data (sx_workflow ctx)) = Some digest"
  shows "fetched_and_unpacked A T c (wi_data (sx_workflow ctx)) w digest w' \<and> r = repo_result c (wi_data (sx_workflow ctx)) digest"
  using assms
  by (auto simp: git_run_def unpack_artifact_def fetch_artifact_def fetched_and_unpacked_def try_do_def request_def lift_res_def Let_def
      split: prod.splits sum.splits option.splits)

lemma merged_reference:
  assumes "wi_data inst = JObject m" and "keys_sorted m"
    and "data' = wi_data (merge_output (Some (insert_artifact_ref (JObject m) key digest)) inst)"
  shows "extract_artifact_ref data' key = Some digest \<and> (\<forall>k. k \<noteq> key \<longrightarrow> json_get data' k = json_get (wi_data inst) k)"
proof -
  let ?m' = "obj_insert key (json_object [(''__wfe_artifact'', JString digest)]) m"
  have data: "data' = JObject (obj_extend m ?m')"
    by (simp add: assms(1,3) insert_artifact_ref_def merge_output_def)
  have "map_of (rev ?m') = map_of ?m'"
    by (rule map_of_rev_distinct) (intro distinct_keys_sorted keys_sorted_obj_insert assms(2))
  then have look: "map_of (obj_extend m ?m') k = map_of ?m' k" for k
    by (auto simp: map_of_obj_extend split: option.splits)
  then have "extract_artifact_ref data' key = Some digest"
    using extract_inserted[of m key digest] by (simp add: data extract_artifact_ref_def json_get_def insert_artifact_ref_def)
  moreover have "\<forall>k. k \<noteq> key \<longrightarrow> json_get data' k = json_get (wi_data inst) k"
    by (simp add: data assms(1) json_get_def look)
  ultimately show ?thesis by blast
qed

text \<open>
  C31: a checkout is made once. After a successful run of the step on data that is an object, its
  output key refers to the digest under which the artifact store accepted the archive of the working
  tree that this run cloned and checked out, or, when the step took an artifact from the data, to the
  artifact that it fetched and unpacked; the rest of the data is unchanged. A step whose input names
  this key and that runs on the data merged with this output does not use git at all, and when it
  succeeds it has fetched the artifact with that digest and unpacked the bytes at its own path.
\<close>

theorem git_checkout_is_reused:
  assumes "git_run G T (Some A) c ctx w = (Inr r, w')" and "wi_data (sx_workflow ctx) = JObject m" and "keys_sorted m"
    and "sx_workflow ctx' = merge_output (er_output_data r) (sx_workflow ctx)" and "gr_input c' = Some (gr_output c)"
  shows "\<exists>digest.
    (case override_of c (wi_data (sx_workflow ctx)) of
       None \<Rightarrow> cloned_and_stored G A c (wi_data (sx_workflow ctx)) w digest w'
     | Some d \<Rightarrow> digest = d \<and> fetched_and_unpacked A T c (wi_data (sx_workflow ctx)) w digest w') \<and>
    override_of c' (wi_data (sx_workflow ctx')) = Some digest \<and>
    (\<forall>k. k \<noteq> gr_output c \<longrightarrow> json_get (wi_data (sx_workflow ctx')) k = json_get (wi_data (sx_workflow ctx)) k) \<and>
    (\<forall>G1 G2 v. git_run G1 T (Some A) c' ctx' v = git_run G2 T (Some A) c' ctx' v) \<and>
    (\<forall>G1 v r' v'. git_run G1 T (Some A) c' ctx' v = (Inr r', v') \<longrightarrow>
       fetched_and_unpacked A T c' (wi_data (sx_workflow ctx')) v digest v')"
proof -
  obtain digest where r: "r = repo_result c (JObject m) digest"
    and made: "case override_of c (wi_data (sx_workflow ctx)) of
       None \<Rightarrow> cloned_and_stored G A c (wi_data (sx_workflow ctx)) w digest w'
     | Some d \<Rightarrow> digest = d \<and> fetched_and_unpacked A T c (wi_data (sx_workflow ctx)) w digest w'"
    using git_run_clones[OF assms(1)] git_run_unpacks[OF assms(1)] assms(2)
    by (cases "override_of c (wi_data (sx_workflow ctx))") fastforce+
  have data: "wi_data (sx_workflow ctx') =
      wi_data (merge_output (Some (insert_artifact_ref (JObject m) (gr_output c) digest)) (sx_workflow ctx))"
    by (simp add: assms(4) r repo_result_def)
  note ref = merged_reference[OF assms(2,3) data]
  then have over: "override_of c' (wi_data (sx_workflow ctx')) = Some digest" by (simp add: override_of_def assms(5))
  then have "git_run G1 T (Some A) c' ctx' v = git_run G2 T (Some A) c' ctx' v" for G1 G2 v
    by (simp add: git_run_def Let_def)
  moreover have "git_run G1 T (Some A) c' ctx' v = (Inr r', v') \<Longrightarrow>
      fetched_and_unpacked A T c' (wi_data (sx_workflow ctx')) v digest v'" for G1 v r' v'
    by (drule git_run_unpacks[OF _ over]) simp
  ultimately show ?thesis using made ref over by (intro exI[of _ digest] conjI allI impI) simp_all
qed

text \<open>What the step unpacks matches the digest of the reference; the contract is the one of the artifact volumes.\<close>

context content_addressed
begin

lemma fetch_matches:
  "fetch_artifact A g w = (Inr b, w') \<Longrightarrow> good w \<Longrightarrow> matches g b \<and> good w'"
  using get_matches get_good
  by (fastforce simp: fetch_artifact_def try_do_def request_def lift_res_def split: prod.splits sum.splits option.splits)

end

text \<open>
  A checkout that comes from an artifact is intact. Whatever calls were made on a store that
  started without blobs, a step that takes its repository from the data unpacks, at the configured
  path, content whose hash is the one of the reference.
\<close>

lemma git_override_intact:
  assumes "hash_plain E" and "uuids_plain d" and "\<forall>h. plain h \<longrightarrow> dk_files d (blob_file s h) = None"
    and "override_of c (wi_data (sx_workflow ctx)) = Some digest" and "plain (hash_of digest)"
    and "git_run G T (Some (local_artifact_store E s)) c ctx (store_calls E s calls d) = (Inr r, d')"
  shows "\<exists>bytes d1. se_sha256 E bytes = hash_of digest \<and>
    extract_artifact_to_dir T bytes (resolve_path (wi_data (sx_workflow ctx)) (gr_path c)) d1 = (Inr (), d')"
proof -
  let ?d = "store_calls E s calls d"
  obtain bytes d1 where f: "fetch_artifact (local_artifact_store E s) digest ?d = (Inr bytes, d1)"
    and x: "extract_artifact_to_dir T bytes (resolve_path (wi_data (sx_workflow ctx)) (gr_path c)) d1 = (Inr (), d')"
    using assms(4,6)
    by (auto simp: git_run_def unpack_artifact_def try_do_def lift_res_def Let_def split: prod.splits sum.splits)
  have "digest_matches E digest bytes"
    using local_blobs.fetch_matches[OF f store_calls_ok[OF assms(1-3)]] by simp
  with assms(5) x show ?thesis by (auto simp: digest_matches_def)
qed

section \<open>Witness\<close>

definition toy_git :: "unit git_lib" where
  "toy_git = \<lparr>gl_create_dir_all = (\<lambda>_ w. (Inr (), w)), gl_prepare_clone = (\<lambda>_ _ w. (Inr (), w)), gl_ref_name = (\<lambda>_. Inr ()),
     gl_fetch = (\<lambda>_ _ _ _ w. (Inr (), w)), gl_main_worktree = (\<lambda>_ w. (Inr (), w)), gl_from_hex = Inr,
     gl_edit_head = (\<lambda>_ _ _ w. (Inr (), w)), gl_tar_gz = (\<lambda>_ w. (Inr ''t'', w)),
     gl_join = (\<lambda>f w. case f w of (r, w) \<Rightarrow> (Inr r, w))\<rparr>"

definition toy_store :: "unit artifact_store" where
  "toy_store = \<lparr>put_blob = (\<lambda>_ w. (Inr ''sha256:d1'', w)), get_blob = (\<lambda>_ w. (Inr (Some (\<lambda>w. (Inr ''t'', w))), w)), blob_exists = (\<lambda>_ w. (True, w)),
     blob_default_expiry = None\<rparr>"

abbreviation toy_repo :: git_repo_config where
  "toy_repo \<equiv> \<lparr>gr_url = ''u'', gr_branch = None, gr_commit = None, gr_depth = Some 0, gr_path = ''src'', gr_output = ''repo'', gr_input = None\<rparr>"

abbreviation toy_context :: "nat step_context" where
  "toy_context \<equiv> sample_context\<lparr>sx_workflow := (sx_workflow sample_context)\<lparr>wi_data := JObject [(''k'', JNull)]\<rparr>\<rparr>"

theorem git_checkout_is_reused_witness:
  "\<exists>r. git_run toy_git sample_tar (Some toy_store) toy_repo toy_context () = (Inr r, ()) \<and>
     override_of (toy_repo\<lparr>gr_input := Some ''repo''\<rparr>)
       (wi_data (merge_output (er_output_data r) (sx_workflow toy_context))) = Some ''sha256:d1''"
proof -
  obtain r where r: "git_run toy_git sample_tar (Some toy_store) toy_repo toy_context () = (Inr r, ())"
    by (simp add: git_run_def override_of_def clone_and_store_def clone_and_checkout_def checkout_commit_def tar_and_store_def
        try_do_def request_def lift_res_def toy_git_def toy_store_def Let_def)
  from git_checkout_is_reused[OF r, of "[(''k'', JNull)]"
      "toy_context\<lparr>sx_workflow := merge_output (er_output_data r) (sx_workflow toy_context)\<rparr>"
      "toy_repo\<lparr>gr_input := Some ''repo''\<rparr>"]
  obtain digest where "cloned_and_stored toy_git toy_store toy_repo (JObject [(''k'', JNull)]) () digest ()"
    "override_of (toy_repo\<lparr>gr_input := Some ''repo''\<rparr>)
       (wi_data (merge_output (er_output_data r) (sx_workflow toy_context))) = Some digest"
    by (auto simp: override_of_def[of toy_repo])
  then show ?thesis using r by (auto simp: cloned_and_stored_def toy_store_def)
qed

end
