(* ===== verification/Rustdoc.thy ===== *)
theory Rustdoc
  imports Prelude "HOL-Library.Option_ord" "HOL-Library.Multiset"
begin

text \<open>
  The transformation of rustdoc's JSON output into MDX files (\<open>wfe-rustlang/src/rustdoc/transformer.rs\<close>). The data
  are those of the crate \<open>rustdoc_types\<close>, with the variants and fields the transformer looks at; the index, a
  hash map, is the list of its entries in the order in which they are visited.
\<close>

section \<open>The documented crate\<close>

datatype generic_bound = TraitBound string | OtherBound

datatype rust_type =
    ResolvedPath string "generic_args option"
  | GenericType string
  | PrimitiveType string
  | BorrowedRef "string option" bool rust_type
  | TupleType "rust_type list"
  | SliceType rust_type
  | ArrayType rust_type string
  | RawPointer bool rust_type
  | ImplTrait "generic_bound list"
  | QualifiedPath string rust_type "string option"
  | DynTrait "string list"
  | FunctionPointer "rust_type list" "rust_type option"
  | PatType rust_type
  | InferType
and generic_args = AngleBracketed "generic_arg list" | OtherArgs
and generic_arg = ArgType rust_type | ArgLifetime string | ArgConst "string option" string | ArgInfer

datatype struct_kind = UnitStruct | TupleStruct | PlainStruct "nat list"

record function_item =
  fi_const :: bool
  fi_async :: bool
  fi_unsafe :: bool
  fi_params :: "string list"
  fi_inputs :: "(string \<times> rust_type) list"
  fi_output :: "rust_type option"

datatype item_enum =
    ModuleItem | StructItem "string list" struct_kind | EnumItem "string list" "nat list" | FunctionItem function_item
  | TraitItem "string list" | TypeAliasItem rust_type | ConstantItem rust_type "string option" | StaticItem | MacroItem
  | OtherItem

record item =
  it_name :: "string option"
  it_docs :: "string option"
  it_inner :: item_enum

record krate =
  kr_root :: nat
  kr_index :: "(nat \<times> item) list"
  kr_paths :: "(nat \<times> string list) list"

record mdx_file =
  mf_path :: string
  mf_content :: string

section \<open>Strings\<close>

fun join_str :: "string \<Rightarrow> string list \<Rightarrow> string" where
  "join_str sep [] = []"
| "join_str sep [s] = s"
| "join_str sep (s # t # ts) = s @ sep @ join_str sep (t # ts)"

text \<open>\<open>path.replace("::", "/")\<close>\<close>

fun colons_to_slash :: "string \<Rightarrow> string" where
  "colons_to_slash (a # b # s) =
     (if a = CHR '':'' \<and> b = CHR '':'' then CHR ''/'' # colons_to_slash s else a # colons_to_slash (b # s))"
| "colons_to_slash s = s"

definition first_sentence :: "string \<Rightarrow> string" where
  "first_sentence docs = rev (dropWhile (\<lambda>c. c = CHR ''.'') (rev (trim (hd (split_on (CHR 0x0A) docs)))))"

definition escape_quotes :: "string \<Rightarrow> string" where
  "escape_quotes s = concat (map (\<lambda>c. if c = CHR 0x22 then [CHR 0x5C, CHR 0x22] else [c]) s)"

section \<open>Types and signatures\<close>

fun render_type :: "rust_type \<Rightarrow> string" and render_args :: "generic_args \<Rightarrow> string" and render_arg :: "generic_arg \<Rightarrow> string" where
  "render_type (ResolvedPath p args) = p @ (case args of None \<Rightarrow> [] | Some a \<Rightarrow> render_args a)"
| "render_type (GenericType n) = n"
| "render_type (PrimitiveType n) = n"
| "render_type (BorrowedRef lt is_mutable t) =
     ''&'' @ (case lt of Some l \<Rightarrow> l @ '' '' | None \<Rightarrow> []) @ (if is_mutable then ''mut '' else []) @ render_type t"
| "render_type (TupleType ts) = ''('' @ join_str '', '' (map render_type ts) @ '')''"
| "render_type (SliceType t) = ''['' @ render_type t @ '']''"
| "render_type (ArrayType t len) = ''['' @ render_type t @ ''; '' @ len @ '']''"
| "render_type (RawPointer is_mutable t) = (if is_mutable then ''*mut '' else ''*const '') @ render_type t"
| "render_type (ImplTrait bounds) =
     ''impl '' @ join_str '' + '' (List.map_filter (\<lambda>b. case b of TraitBound p \<Rightarrow> Some p | OtherBound \<Rightarrow> None) bounds)"
| "render_type (QualifiedPath name self trait) =
     (case trait of
        Some t \<Rightarrow> ''<'' @ render_type self @ '' as '' @ t @ ''>::'' @ name
      | None \<Rightarrow> render_type self @ ''::'' @ name)"
| "render_type (DynTrait traits) = ''dyn '' @ join_str '' + '' traits"
| "render_type (FunctionPointer inputs output) =
     ''fn('' @ join_str '', '' (map render_type inputs) @ '')'' @
       (case output of Some t \<Rightarrow> '' -> '' @ render_type t | None \<Rightarrow> [])"
| "render_type (PatType t) = render_type t"
| "render_type InferType = ''_''"
| "render_args (AngleBracketed args) = (if args = [] then [] else ''<'' @ join_str '', '' (map render_arg args) @ ''>'')"
| "render_args OtherArgs = []"
| "render_arg (ArgType t) = render_type t"
| "render_arg (ArgLifetime l) = l"
| "render_arg (ArgConst v expr) = unwrap_or v expr"
| "render_arg ArgInfer = ''_''"

definition angle_params :: "string list \<Rightarrow> string" where
  "angle_params ps = (if ps = [] then [] else ''<'' @ join_str '', '' ps @ ''>'')"

definition member_names :: "krate \<Rightarrow> nat list \<Rightarrow> string list" where
  "member_names k ids = List.map_filter (\<lambda>i. and_then (map_of (kr_index k) i) it_name) ids"

definition function_signature :: "string \<Rightarrow> function_item \<Rightarrow> string" where
  "function_signature name f =
     (if fi_const f then ''const '' else []) @ (if fi_async f then ''async '' else []) @ (if fi_unsafe f then ''unsafe '' else []) @
     ''fn '' @ name @ angle_params (fi_params f) @ ''('' @
     join_str '', '' (map (\<lambda>(n, t). n @ '': '' @ render_type t) (fi_inputs f)) @ '')'' @
     (case fi_output f of Some t \<Rightarrow> '' -> '' @ render_type t | None \<Rightarrow> [])"

definition signature_of :: "krate \<Rightarrow> string \<Rightarrow> item_enum \<Rightarrow> string option" where
  "signature_of k name inner =
     (case inner of
        FunctionItem f \<Rightarrow> Some (function_signature name f)
      | StructItem ps kind \<Rightarrow> Some (''pub struct '' @ name @ angle_params ps @
          (case kind of
             UnitStruct \<Rightarrow> '';''
           | TupleStruct \<Rightarrow> ''(...)''
           | PlainStruct members \<Rightarrow> '' { '' @ join_str '', '' (member_names k members) @ '' }''))
      | EnumItem ps variants \<Rightarrow>
          Some (''pub enum '' @ name @ angle_params ps @ '' { '' @ join_str '', '' (member_names k variants) @ '' }'')
      | TraitItem ps \<Rightarrow> Some (''pub trait '' @ name @ angle_params ps)
      | TypeAliasItem t \<Rightarrow> Some (''pub type '' @ name @ '' = '' @ render_type t)
      | ConstantItem t v \<Rightarrow> Some (''pub const '' @ name @ '': '' @ render_type t @ '' = '' @ unwrap_or v ''...'')
      | MacroItem \<Rightarrow> Some (''macro_rules! '' @ name @ '' { ... }'')
      | _ \<Rightarrow> None)"

definition render_signature :: "krate \<Rightarrow> item \<Rightarrow> string option" where
  "render_signature k i = and_then (it_name i) (\<lambda>name. signature_of k name (it_inner i))"

section \<open>Modules\<close>

abbreviation nl :: string where
  "nl \<equiv> [CHR 0x0A]"

definition backtick :: string where
  "backtick = [CHR 0x60]"

definition render_item :: "krate \<Rightarrow> item \<Rightarrow> string" where
  "render_item k i =
     ''### '' @ backtick @ unwrap_or (it_name i) ''_'' @ backtick @ nl @ nl @
     (case render_signature k i of
        Some sig \<Rightarrow> concat (replicate 3 backtick) @ ''rust'' @ nl @ sig @ nl @ concat (replicate 3 backtick) @ nl @ nl
      | None \<Rightarrow> []) @
     (case it_docs i of Some docs \<Rightarrow> docs @ nl @ nl | None \<Rightarrow> [])"

definition resolve_module_path :: "krate \<Rightarrow> nat \<Rightarrow> string" where
  "resolve_module_path k i =
     (case map_of (kr_paths k) i of
        None \<Rightarrow> []
      | Some path \<Rightarrow>
          if length path > 1 then join_str ''::'' (butlast path)
          else case path of [] \<Rightarrow> [] | p # _ \<Rightarrow> p)"

fun item_kind_label :: "item_enum \<Rightarrow> string option" where
  "item_kind_label ModuleItem = Some ''Modules''"
| "item_kind_label (StructItem _ _) = Some ''Structs''"
| "item_kind_label (EnumItem _ _) = Some ''Enums''"
| "item_kind_label (FunctionItem _) = Some ''Functions''"
| "item_kind_label (TraitItem _) = Some ''Traits''"
| "item_kind_label (TypeAliasItem _) = Some ''Type Aliases''"
| "item_kind_label (ConstantItem _ _) = Some ''Constants''"
| "item_kind_label StaticItem = Some ''Statics''"
| "item_kind_label MacroItem = Some ''Macros''"
| "item_kind_label OtherItem = None"

definition kind_order :: "string list" where
  "kind_order = [''Modules'', ''Structs'', ''Enums'', ''Traits'', ''Functions'', ''Type Aliases'', ''Constants'', ''Statics'', ''Macros'']"

text \<open>The items with a label, each with the path of its module, in the order of the index.\<close>

definition labelled :: "krate \<Rightarrow> (string \<times> item \<times> string) list" where
  "labelled k = List.map_filter (\<lambda>(i, it). map_option (\<lambda>l. (resolve_module_path k i, it, l)) (item_kind_label (it_inner it))) (kr_index k)"

definition module_items :: "krate \<Rightarrow> string \<Rightarrow> (item \<times> string) list" where
  "module_items k p = map snd (filter (\<lambda>x. fst x = p) (labelled k))"

definition module_title :: "krate \<Rightarrow> string \<Rightarrow> string" where
  "module_title k p =
     (if p = [] then unwrap_or (and_then (map_of (kr_index k) (kr_root k)) it_name) ''crate'' else p)"

fun last_segment :: "string \<Rightarrow> string \<Rightarrow> string" where
  "last_segment acc (a # b # s) =
     (if a = CHR '':'' \<and> b = CHR '':'' then last_segment [] s else last_segment (acc @ [a]) (b # s))"
| "last_segment acc s = acc @ s"

definition module_description :: "krate \<Rightarrow> string \<Rightarrow> (item \<times> string) list \<Rightarrow> string" where
  "module_description k p items =
     (let docs = (if p = [] then and_then (map_of (kr_index k) (kr_root k)) it_docs
                  else and_then (find (\<lambda>(it, kind). kind = ''Modules'' \<and> it_name it = Some (last_segment [] p)) items) (\<lambda>(it, _). it_docs it))
      in unwrap_or (map_option first_sentence docs) [])"

definition kind_section :: "krate \<Rightarrow> (item \<times> string) list \<Rightarrow> string \<Rightarrow> string" where
  "kind_section k items kind =
     (let its = map fst (filter (\<lambda>x. snd x = kind) items)
      in if its = [] then [] else ''## '' @ kind @ nl @ nl @ concat (map (render_item k) (sort_key it_name its)))"

definition render_module :: "krate \<Rightarrow> string \<Rightarrow> (item \<times> string) list \<Rightarrow> string" where
  "render_module k p items =
     ''---'' @ nl @ ''title: '' @ [CHR 0x22] @ module_title k p @ [CHR 0x22] @ nl @ ''description: '' @ [CHR 0x22] @
     escape_quotes (module_description k p items) @ [CHR 0x22] @ nl @ ''---'' @ nl @ nl @
     concat (map (kind_section k items) kind_order)"

definition mdx_path :: "string \<Rightarrow> string" where
  "mdx_path p = (if p = [] then ''index.mdx'' else colons_to_slash p @ ''.mdx'')"

definition transform_to_mdx :: "krate \<Rightarrow> mdx_file list" where
  "transform_to_mdx k =
     map (\<lambda>p. \<lparr>mf_path = mdx_path p, mf_content = render_module k p (module_items k p)\<rparr>) (sort (remdups (map fst (labelled k))))"

fun write_mdx_files ::
    "(string \<Rightarrow> ('w, string + unit) eff) \<Rightarrow> (string \<Rightarrow> string \<Rightarrow> ('w, string + unit) eff) \<Rightarrow> mdx_file list \<Rightarrow> string \<Rightarrow>
     ('w, string + unit) eff" where
  "write_mdx_files create_dir_all write_file [] output_dir w = (Inr (), w)"
| "write_mdx_files create_dir_all write_file (f # fs) output_dir w =
     (let path = path_join output_dir (mf_path f) in
      case (case path_parent path of Some parent \<Rightarrow> create_dir_all parent w | None \<Rightarrow> (Inr (), w)) of
        (Inl e, w) \<Rightarrow> (Inl e, w)
      | (Inr _, w) \<Rightarrow>
          (case write_file path (mf_content f) w of
             (Inl e, w) \<Rightarrow> (Inl e, w)
           | (Inr _, w) \<Rightarrow> write_mdx_files create_dir_all write_file fs output_dir w))"

section \<open>Completeness\<close>

lemma labels_ordered: "item_kind_label x = Some l \<Longrightarrow> l \<in> set kind_order"
  by (cases x) (auto simp: kind_order_def)

lemma set_map_filter_iff: "y \<in> set (List.map_filter f xs) \<longleftrightarrow> (\<exists>x \<in> set xs. f x = Some y)"
  by (induction xs) (auto simp: map_filter_simps split: option.splits)

lemma labelled_iff:
  "(p, it, l) \<in> set (labelled k) \<longleftrightarrow> (\<exists>i. (i, it) \<in> set (kr_index k) \<and> p = resolve_module_path k i \<and> item_kind_label (it_inner it) = Some l)"
  by (auto simp: labelled_def set_map_filter_iff Bex_def split_paired_Ex)

lemma split_concat: "x \<in> set xs \<Longrightarrow> \<exists>a b. concat (map f xs) = a @ f x @ b"
  by (metis concat_append concat.simps(2) list.simps(9) map_append split_list)

lemma section_has_item:
  assumes "(it, l) \<in> set items"
  shows "\<exists>a b. kind_section k items l = a @ render_item k it @ b"
proof -
  let ?its = "map fst (filter (\<lambda>x. snd x = l) items)"
  have "it \<in> set (sort_key it_name ?its)" using assms by (force simp: image_iff)
  then obtain a b where "concat (map (render_item k) (sort_key it_name ?its)) = a @ render_item k it @ b"
    using split_concat[of it _ "render_item k"] by blast
  moreover have "?its \<noteq> []" using assms by (force simp: filter_empty_conv)
  ultimately show ?thesis
    by (intro exI[of _ "''## '' @ l @ nl @ nl @ a"] exI[of _ b]) (simp add: kind_section_def Let_def)
qed

lemma module_has_item:
  assumes "(it, l) \<in> set items" and "l \<in> set kind_order"
  shows "\<exists>a b. render_module k p items = a @ render_item k it @ b"
proof -
  obtain a b where ab: "kind_section k items l = a @ render_item k it @ b" using section_has_item[OF assms(1)] by blast
  obtain c d where cd: "concat (map (kind_section k items) kind_order) = c @ kind_section k items l @ d"
    using split_concat[OF assms(2), of "kind_section k items"] by blast
  show ?thesis
    unfolding render_module_def cd ab
    by (intro exI[of _ "''---'' @ nl @ ''title: '' @ [CHR 0x22] @ module_title k p @ [CHR 0x22] @ nl @ ''description: '' @ [CHR 0x22] @
       escape_quotes (module_description k p items) @ [CHR 0x22] @ nl @ ''---'' @ nl @ nl @ c @ a"] exI[of _ "b @ d"]) simp
qed

text \<open>
  The generated documentation is complete. Every item of a documented kind is rendered, with
  its signature and its documentation, in the file of its module, and there is exactly one file for
  each module path that has such an item.
\<close>

theorem mdx_complete:
  assumes "(i, it) \<in> set (kr_index k)" and "item_kind_label (it_inner it) = Some l"
  shows "\<exists>f a b. f \<in> set (transform_to_mdx k) \<and> mf_path f = mdx_path (resolve_module_path k i) \<and>
    mf_content f = a @ render_item k it @ b \<and> length (transform_to_mdx k) = card (fst ` set (labelled k))"
proof -
  let ?p = "resolve_module_path k i"
  have lab: "(?p, it, l) \<in> set (labelled k)" using assms by (auto simp: labelled_iff)
  then have "(it, l) \<in> set (module_items k ?p)" by (force simp: module_items_def)
  from module_has_item[OF this labels_ordered[OF assms(2)]] obtain a b where
    "render_module k ?p (module_items k ?p) = a @ render_item k it @ b" by blast
  moreover have "?p \<in> set (sort (remdups (map fst (labelled k))))" using lab by force
  ultimately show ?thesis
    by (intro exI[of _ "\<lparr>mf_path = mdx_path ?p, mf_content = render_module k ?p (module_items k ?p)\<rparr>"] exI[of _ a] exI[of _ b])
      (auto simp: transform_to_mdx_def length_remdups_card_conv)
qed

section \<open>Descriptions of modules\<close>

text \<open>
  A module is listed in the file of its parent; the description of a file is looked up among the modules the file
  lists. A nested module finds its own documentation nowhere: without a child of the same name, the
  description of its file is empty.
\<close>

lemma nested_description_empty:
  assumes "p \<noteq> []" and "\<forall>(it, kind) \<in> set (module_items k p). kind = ''Modules'' \<longrightarrow> it_name it \<noteq> Some (last_segment [] p)"
  shows "module_description k p (module_items k p) = []"
proof -
  have "find (\<lambda>(it, kind). kind = ''Modules'' \<and> it_name it = Some (last_segment [] p)) (module_items k p) = None"
    using assms(2) by (auto simp: find_None_iff)
  then show ?thesis using assms(1) by (simp add: module_description_def unwrap_or_def)
qed

text \<open>The file of a crate's root module is named after it, so a crate called \<open>index\<close> writes to the file of the items without a path.\<close>

lemma index_collision: "mdx_path ''index'' = mdx_path []"
  by (simp add: mdx_path_def)

section \<open>The order of the index does not matter\<close>

lemma sort_key_permuted:
  assumes "mset xs = mset ys" and "inj_on f (set xs)"
  shows "sort_key f xs = sort_key f ys"
  by (rule sort_key_inj_key_eq) (use assms in simp_all)

lemma mset_map_filter: "mset xs = mset ys \<Longrightarrow> mset (List.map_filter f xs) = mset (List.map_filter f ys)"
  by (simp add: map_filter_def)

lemma permuted_index:
  assumes "mset (kr_index k') = mset (kr_index k)" and "distinct (map fst (kr_index k))" and "kr_root k' = kr_root k"
    and "kr_paths k' = kr_paths k"
  shows "map_of (kr_index k') = map_of (kr_index k)" "render_item k' = render_item k"
    "mset (labelled k') = mset (labelled k)" "mset (module_items k' p) = mset (module_items k p)"
proof -
  have "distinct (map fst (kr_index k'))"
    using mset_eq_imp_distinct_iff[of "map fst (kr_index k')" "map fst (kr_index k)"] assms(1,2) by simp
  then show lookup: "map_of (kr_index k') = map_of (kr_index k)"
    using assms(2) by (simp add: map_of_inject_set mset_eq_setD[OF assms(1)])
  then have "member_names k' = member_names k" by (intro ext) (simp add: member_names_def)
  then have "signature_of k' = signature_of k" by (intro ext) (simp only: signature_of_def)
  then have "render_signature k' = render_signature k" by (intro ext) (simp only: render_signature_def)
  then show "render_item k' = render_item k" by (intro ext) (simp only: render_item_def)
  have "resolve_module_path k' = resolve_module_path k" by (intro ext) (simp add: resolve_module_path_def assms(4))
  then show lab: "mset (labelled k') = mset (labelled k)"
    unfolding labelled_def by (simp add: mset_map_filter[OF assms(1)])
  then show "mset (module_items k' p) = mset (module_items k p)"
    by (simp add: module_items_def)
qed

lemma find_in: "find P xs = Some x \<Longrightarrow> x \<in> set xs \<and> P x"
  by (induction xs) (auto split: if_splits)

lemma find_permuted:
  assumes "mset xs = mset ys" and "\<And>x y. x \<in> set xs \<Longrightarrow> y \<in> set xs \<Longrightarrow> P x \<Longrightarrow> P y \<Longrightarrow> x = y"
  shows "find P xs = find P ys"
proof (cases "find P xs")
  case None
  then have "find P ys = None" using mset_eq_setD[OF assms(1)] by (simp add: find_None_iff)
  with None show ?thesis by simp
next
  case (Some x)
  then have "x \<in> set xs" "P x" using find_in by fast+
  then have "x \<in> set ys" by (simp add: mset_eq_setD[OF assms(1)])
  with \<open>P x\<close> obtain y where y: "find P ys = Some y" by (cases "find P ys") (auto simp: find_None_iff)
  then have "y \<in> set xs" "P y" using find_in[OF y] by (simp_all add: mset_eq_setD[OF assms(1)])
  from assms(2)[OF \<open>x \<in> set xs\<close> this(1) \<open>P x\<close> this(2)] Some y show ?thesis by simp
qed

text \<open>
  The index is a hash map, and its order differs between runs. When the items of a kind in a module have
  different names, the generated files do not depend on it.
\<close>

lemma mdx_deterministic:
  assumes "mset (kr_index k') = mset (kr_index k)" and "distinct (map fst (kr_index k))" and "kr_root k' = kr_root k"
    and "kr_paths k' = kr_paths k" and names: "\<And>p l. inj_on it_name {it. (it, l) \<in> set (module_items k p)}"
  shows "transform_to_mdx k' = transform_to_mdx k"
proof -
  note perm = permuted_index[OF assms(1-4)]
  have items: "set (module_items k' p) = set (module_items k p)" for p by (rule mset_eq_setD[OF perm(4)])
  have "kind_section k' (module_items k' p) = kind_section k (module_items k p)" for p
  proof
    fix l
    let ?its = "\<lambda>k. map fst (filter (\<lambda>x. snd x = l) (module_items k p))"
    have m: "mset (?its k') = mset (?its k)" by (simp add: perm(4))
    have "set (?its k') = {it. (it, l) \<in> set (module_items k p)}" using items[of p] by force
    then have "sort_key it_name (?its k') = sort_key it_name (?its k)" using names[of l p] by (intro sort_key_permuted m) simp
    moreover have "?its k' = [] \<longleftrightarrow> ?its k = []" by (metis m mset_zero_iff)
    ultimately show "kind_section k' (module_items k' p) l = kind_section k (module_items k p) l"
      by (simp add: kind_section_def Let_def perm(2))
  qed
  moreover have "module_description k' p (module_items k' p) = module_description k p (module_items k p)" for p
  proof -
    let ?P = "\<lambda>(it, kind). kind = ''Modules'' \<and> it_name it = Some (last_segment [] p)"
    have "find ?P (module_items k' p) = find ?P (module_items k p)"
      using names[of "''Modules''" p] items[of p] by (intro find_permuted perm(4)) (auto simp: inj_on_def)
    then show ?thesis by (simp add: module_description_def perm(1) assms(3))
  qed
  moreover have "module_title k' p = module_title k p" for p by (simp add: module_title_def perm(1) assms(3))
  ultimately have "render_module k' p (module_items k' p) = render_module k p (module_items k p)" for p
    by (simp add: render_module_def)
  moreover have "sort (remdups (map fst (labelled k'))) = sort (remdups (map fst (labelled k)))"
    using mset_eq_setD[OF perm(3)] by (intro sorted_distinct_set_unique) auto
  ultimately show ?thesis by (simp add: transform_to_mdx_def)
qed

section \<open>Witness\<close>

definition sample_fn :: item where
  "sample_fn = \<lparr>it_name = Some ''f'', it_docs = None, it_inner = FunctionItem
     \<lparr>fi_const = False, fi_async = True, fi_unsafe = False, fi_params = [], fi_inputs = [(''x'', BorrowedRef None True (SliceType (PrimitiveType ''u8'')))],
      fi_output = None\<rparr>\<rparr>"

theorem mdx_complete_witness:
  "\<exists>f a b. f \<in> set (transform_to_mdx \<lparr>kr_root = 0, kr_index = [(1, sample_fn)], kr_paths = [(1, [''c'', ''m'', ''f''])]\<rparr>) \<and>
     mf_path f = ''c/m.mdx'' \<and>
     mf_content f = a @ render_item \<lparr>kr_root = 0, kr_index = [(1, sample_fn)], kr_paths = [(1, [''c'', ''m'', ''f''])]\<rparr> sample_fn @ b"
proof -
  let ?k = "\<lparr>kr_root = 0, kr_index = [(1, sample_fn)], kr_paths = [(1, [''c'', ''m'', ''f''])]\<rparr>"
  have "mdx_path (resolve_module_path ?k 1) = ''c/m.mdx''" by (simp add: resolve_module_path_def mdx_path_def)
  moreover have "(1, sample_fn) \<in> set (kr_index ?k)" "item_kind_label (it_inner sample_fn) = Some ''Functions''"
    by (simp_all add: sample_fn_def)
  ultimately show ?thesis using mdx_complete[of 1 sample_fn ?k "''Functions''"] by fastforce
qed

end
