(* ===== verification/Rust_Tools.thy ===== *)
theory Rust_Tools
  imports Rustdoc Requests Shell
begin

text \<open>
  The steps that run the Rust tool chain (\<open>wfe-rustlang/src/cargo\<close>, \<open>wfe-rustlang/src/rustup\<close>). A command succeeds when
  its exit code is zero. Starting processes, the file system and the parser of rustdoc's JSON are parameters.
\<close>

section \<open>cargo\<close>

definition subcommand_args :: "cargo_command \<Rightarrow> string list" where
  "subcommand_args c =
     (case c of Nextest \<Rightarrow> [''nextest'', ''run''] | DocMdx \<Rightarrow> [''rustdoc''] | other \<Rightarrow> [cargo_as_str other])"

definition install_package :: "cargo_command \<Rightarrow> string option" where
  "install_package c =
     (case c of Audit \<Rightarrow> Some ''cargo-audit'' | Deny \<Rightarrow> Some ''cargo-deny'' | Nextest \<Rightarrow> Some ''cargo-nextest''
      | LlvmCov \<Rightarrow> Some ''cargo-llvm-cov'' | _ \<Rightarrow> None)"

definition binary_name :: "cargo_command \<Rightarrow> string option" where
  "binary_name c =
     (case c of Audit \<Rightarrow> Some ''cargo-audit'' | Deny \<Rightarrow> Some ''cargo-deny'' | Nextest \<Rightarrow> Some ''cargo-nextest''
      | LlvmCov \<Rightarrow> Some ''cargo-llvm-cov'' | _ \<Rightarrow> None)"

definition flag :: "string \<Rightarrow> string option \<Rightarrow> string list" where
  "flag name v = (case v of Some x \<Rightarrow> [name, x] | None \<Rightarrow> [])"

definition cargo_toolchain :: "cargo_config \<Rightarrow> string option" where
  "cargo_toolchain c =
     (if cg_command c = DocMdx then Some (unwrap_or (cg_toolchain c) ''nightly'') else cg_toolchain c)"

definition cargo_args :: "cargo_config \<Rightarrow> string list" where
  "cargo_args c =
     subcommand_args (cg_command c) @ flag ''-p'' (cg_package c) @
     (if cg_features c = [] then [] else [''--features'', join_str '','' (cg_features c)]) @
     (if cg_all_features c then [''--all-features''] else []) @
     (if cg_no_default_features c then [''--no-default-features''] else []) @
     (if cg_release c then [''--release''] else []) @ flag ''--target'' (cg_target c) @ flag ''--profile'' (cg_profile c) @
     cg_extra_args c @
     (if cg_command c = DocMdx then [''--'', ''-Z'', ''unstable-options'', ''--output-format'', ''json''] else [])"

definition cargo_build_command :: "cargo_config \<Rightarrow> command" where
  "cargo_build_command c =
     (case cargo_toolchain c of
        Some tc \<Rightarrow> \<lparr>cm_program = ''rustup'', cm_args = [''run'', tc, ''cargo''] @ cargo_args c, cm_env = cg_env c, cm_dir = cg_working_dir c\<rparr>
      | None \<Rightarrow> \<lparr>cm_program = ''cargo'', cm_args = cargo_args c, cm_env = cg_env c, cm_dir = cg_working_dir c\<rparr>)"

abbreviation plain_command :: "string \<Rightarrow> string list \<Rightarrow> command" where
  "plain_command p args \<equiv> \<lparr>cm_program = p, cm_args = args, cm_env = [], cm_dir = None\<rparr>"

definition succeeded :: "process_output \<Rightarrow> bool" where
  "succeeded p \<longleftrightarrow> po_code p = Some 0"

text \<open>A command that must succeed; the message is the same for a command that cannot be started.\<close>

definition must_succeed :: "'w process_env \<Rightarrow> string \<Rightarrow> command \<Rightarrow> ('w, unit res) eff" where
  "must_succeed P msg cmd =
     try_do (request msg (pe_output P cmd))
       (\<lambda>p. lift_res (if succeeded p then Inr () else Inl (step_err (msg @ po_stderr p))))"

definition install_tool :: "'w process_env \<Rightarrow> cargo_command \<Rightarrow> string \<Rightarrow> ('w, unit res) eff" where
  "install_tool P c pkg =
     try_do (if c = LlvmCov then must_succeed P ''Failed to add llvm-tools-preview component: ''
               (plain_command ''rustup'' [''component'', ''add'', ''llvm-tools-preview''])
             else lift_res (Inr ()))
       (\<lambda>_. must_succeed P (''Failed to install '' @ pkg @ '': '') (plain_command ''cargo'' [''install'', pkg]))"

definition ensure_tool_available :: "'w process_env \<Rightarrow> cargo_command \<Rightarrow> ('w, unit res) eff" where
  "ensure_tool_available P c w =
     (case (binary_name c, install_package c) of
        (Some binary, Some pkg) \<Rightarrow>
          (case pe_output P (plain_command binary [''--version'']) w of
             (Inr p, w) \<Rightarrow> (if succeeded p then (Inr (), w) else install_tool P c pkg w)
           | (Inl _, w) \<Rightarrow> install_tool P c pkg w)
      | _ \<Rightarrow> (Inr (), w))"

section \<open>Generated documentation\<close>

record 'w doc_env =
  de_read_dir :: "string \<Rightarrow> ('w, string + string option list) eff"
  de_read :: "string \<Rightarrow> ('w, string + string) eff"
  de_parse :: "string \<Rightarrow> string + krate"
  de_create_dir_all :: "string \<Rightarrow> ('w, string + unit) eff"
  de_write :: "string \<Rightarrow> string \<Rightarrow> ('w, string + unit) eff"

text \<open>\<open>Path::extension\<close> of the last component: what follows its last dot, unless the dot comes first.\<close>

definition has_extension :: "string \<Rightarrow> string \<Rightarrow> bool" where
  "has_extension ext name = (case strip_suffix_str (''.'' @ ext) name of Some base \<Rightarrow> base \<noteq> [] | None \<Rightarrow> False)"

definition find_json :: "string option list \<Rightarrow> string option" where
  "find_json entries = find (has_extension ''json'') (List.map_filter (\<lambda>e. e) entries)"

definition mdx_outputs :: "mdx_file list \<Rightarrow> string \<Rightarrow> json_map \<Rightarrow> json_map" where
  "mdx_outputs files output_path outputs =
     obj_insert ''mdx.files'' (JArray (map (\<lambda>f. JString (mf_path f)) files))
       (obj_insert ''mdx.file_count'' (JNumber (PosInt (of_nat (length files))))
         (obj_insert ''mdx.output_dir'' (JString output_path) outputs))"

definition transform_rustdoc_json :: "'w doc_env \<Rightarrow> cargo_config \<Rightarrow> json_map \<Rightarrow> ('w, json_map res) eff" where
  "transform_rustdoc_json E c outputs =
     (let working_dir = unwrap_or (cg_working_dir c) ''.'';
          doc_dir = path_join working_dir ''target/doc'';
          output_path = path_join working_dir (unwrap_or (cg_output_dir c) ''target/doc/mdx'')
      in try_do (request ''failed to read target/doc: '' (de_read_dir E doc_dir)) (\<lambda>entries.
         try_do (lift_res (ok_or (step_err (''no JSON file found in target/doc/ '' @ [CHR 0xE2, CHR 0x80, CHR 0x94] @
             '' did rustdoc --output-format json succeed?'')) (find_json entries))) (\<lambda>name.
         try_do (request (''failed to read '' @ path_join doc_dir name @ '': '') (de_read E (path_join doc_dir name))) (\<lambda>content.
         try_do (request ''failed to parse rustdoc JSON: '' (\<lambda>w. (de_parse E content, w))) (\<lambda>krate.
         let files = transform_to_mdx krate in
         try_do (request ''failed to write MDX files: '' (write_mdx_files (de_create_dir_all E) (de_write E) files output_path)) (\<lambda>_.
         lift_res (Inr (mdx_outputs files output_path outputs))))))))"

section \<open>Running a tool\<close>

text \<open>\<open>cargo\<close> and \<open>rustup\<close> run their command alike; \<open>label\<close> is the name in the messages.\<close>

definition tool_output :: "'w process_env \<Rightarrow> string \<Rightarrow> u64 option \<Rightarrow> command \<Rightarrow> ('w, process_output res) eff" where
  "tool_output P label timeout cmd w =
     (case timeout of
        None \<Rightarrow> request (''Failed to spawn '' @ label @ '': '') (pe_output P cmd) w
      | Some ms \<Rightarrow>
          (case pe_output_within P ms cmd w of
             (None, w) \<Rightarrow> (Inl (step_err (label @ '' timed out after '' @ show_u64 ms @ ''ms'')), w)
           | (Some r, w) \<Rightarrow> request (''Failed to spawn '' @ label @ '': '') (\<lambda>w. (r, w)) w))"

definition tool_result :: "string \<Rightarrow> string \<Rightarrow> process_output \<Rightarrow> json_map res" where
  "tool_result label name p =
     (if \<not> succeeded p then
        Inl (step_err (label @ '' exited with code '' @ show_int (unwrap_or (po_code p) (- 1)) @ [CHR 0x0A] @ ''stdout: '' @ po_stdout p @
          [CHR 0x0A] @ ''stderr: '' @ po_stderr p))
      else Inr (obj_insert (name @ ''.stderr'') (JString (po_stderr p)) (obj_insert (name @ ''.stdout'') (JString (po_stdout p)) [])))"

definition tool_success :: "json_map \<Rightarrow> execution_result" where
  "tool_success outputs = result_default\<lparr>er_proceed := True, er_output_data := Some (JObject outputs)\<rparr>"

definition cargo_run ::
    "'w process_env \<Rightarrow> 'w doc_env \<Rightarrow> cargo_config \<Rightarrow> 'v step_context \<Rightarrow> ('w, execution_result res) eff" where
  "cargo_run P E c ctx =
     (let label = ''cargo '' @ cargo_as_str (cg_command c) in
      try_do (ensure_tool_available P (cg_command c)) (\<lambda>_.
      try_do (tool_output P label (cg_timeout_ms c) (cargo_build_command c)) (\<lambda>output.
      try_do (lift_res (tool_result label (unknown_name ctx) output)) (\<lambda>outputs.
      try_do (if cg_command c = DocMdx then transform_rustdoc_json E c outputs else lift_res (Inr outputs)) (\<lambda>outputs.
      lift_res (Inr (tool_success outputs)))))))"

section \<open>rustup\<close>

definition install_script :: "rustup_config \<Rightarrow> string" where
  "install_script c =
     ''curl --proto '' @ quoted ''=https'' @ '' --tlsv1.2 -sSf https://sh.rustup.rs | sh -s -- -y'' @
     (case ru_profile c of Some p \<Rightarrow> '' --profile '' @ p | None \<Rightarrow> []) @
     (case ru_default_toolchain c of Some tc \<Rightarrow> '' --default-toolchain '' @ tc | None \<Rightarrow> []) @
     concat (map (\<lambda>arg. '' '' @ arg) (ru_extra_args c))"

definition rustup_build_command :: "rustup_config \<Rightarrow> command" where
  "rustup_build_command c =
     (case ru_command c of
        Install \<Rightarrow> plain_command ''sh'' [''-c'', install_script c]
      | ToolchainInstall \<Rightarrow> plain_command ''rustup'' ([''toolchain'', ''install''] @
          (case ru_toolchain c of Some tc \<Rightarrow> [tc] | None \<Rightarrow> []) @ flag ''--profile'' (ru_profile c) @ ru_extra_args c)
      | ComponentAdd \<Rightarrow> plain_command ''rustup'' ([''component'', ''add''] @ ru_components c @
          flag ''--toolchain'' (ru_toolchain c) @ ru_extra_args c)
      | TargetAdd \<Rightarrow> plain_command ''rustup'' ([''target'', ''add''] @ ru_targets c @
          flag ''--toolchain'' (ru_toolchain c) @ ru_extra_args c))"

definition rustup_run :: "'w process_env \<Rightarrow> rustup_config \<Rightarrow> 'v step_context \<Rightarrow> ('w, execution_result res) eff" where
  "rustup_run P c ctx =
     (let label = ''rustup '' @ rustup_as_str (ru_command c) in
      try_do (tool_output P label (ru_timeout_ms c) (rustup_build_command c)) (\<lambda>output.
      try_do (lift_res (tool_result label (unknown_name ctx) output)) (\<lambda>outputs. lift_res (Inr (tool_success outputs)))))"

section \<open>Lemmas\<close>

lemma try_do_Inr:
  "try_do f g w = (Inr y, w') \<longleftrightarrow> (\<exists>x w1. f w = (Inr x, w1) \<and> g x w1 = (Inr y, w'))"
  by (auto simp: try_do_def split: prod.splits sum.splits)

lemma must_succeed_Inr:
  "must_succeed P msg cmd w = (Inr u, w') \<longleftrightarrow> (\<exists>p. pe_output P cmd w = (Inr p, w') \<and> succeeded p)"
  by (auto simp: must_succeed_def try_do_Inr request_def lift_res_def split: prod.splits sum.splits if_splits)

text \<open>An external tool is there before the step runs it: it was found, or it was installed.\<close>

lemma tool_is_available:
  assumes "ensure_tool_available P c w = (Inr (), w')" and "binary_name c = Some b" and "install_package c = Some pkg"
  shows "(\<exists>p. pe_output P (plain_command b [''--version'']) w = (Inr p, w') \<and> succeeded p) \<or>
    (\<exists>p w1. pe_output P (plain_command ''cargo'' [''install'', pkg]) w1 = (Inr p, w') \<and> succeeded p)"
proof -
  have "\<exists>p w1. pe_output P (plain_command ''cargo'' [''install'', pkg]) w1 = (Inr p, w') \<and> succeeded p"
    if "install_tool P c pkg w2 = (Inr (), w')" for w2
    using that by (auto simp: install_tool_def try_do_Inr must_succeed_Inr)
  then show ?thesis
    using assms by (auto simp: ensure_tool_available_def split: prod.splits sum.splits if_splits)
qed

text \<open>
  A step that succeeds has run its command to the exit code zero, and its data hold the output of the
  command under the name of the step.
\<close>

lemma rustup_run_success:
  assumes "rustup_run P c ctx w = (Inr r, w')" and "ru_timeout_ms c = None"
  shows "\<exists>p. pe_output P (rustup_build_command c) w = (Inr p, w') \<and> succeeded p \<and>
    (\<exists>m. er_output_data r = Some (JObject m) \<and> map_of m (unknown_name ctx @ ''.stdout'') = Some (JString (po_stdout p)))"
  using assms
  by (auto simp: rustup_run_def try_do_Inr tool_output_def request_def lift_res_def tool_result_def tool_success_def Let_def
      split: prod.splits sum.splits if_splits)

text \<open>
  The installer's script takes the configured values as they are: a value is part of the shell program.
\<close>

lemma install_script_unquoted:
  assumes "ru_command c = Install" and "ru_profile c = Some p"
  shows "\<exists>a b. rustup_build_command c = plain_command ''sh'' [''-c'', a @ p @ b]"
  using assms
  by (intro exI[of _ "''curl --proto '' @ quoted ''=https'' @ '' --tlsv1.2 -sSf https://sh.rustup.rs | sh -s -- -y --profile ''"]
      exI[of _ "(case ru_default_toolchain c of Some tc \<Rightarrow> '' --default-toolchain '' @ tc | None \<Rightarrow> []) @
        concat (map (\<lambda>arg. '' '' @ arg) (ru_extra_args c))"])
    (simp add: rustup_build_command_def install_script_def)

end
