(* ===== verification/Buildkit.thy ===== *)
theory Buildkit
  imports Rustdoc Requests Shell
begin

text \<open>
  The BuildKit executor (\<open>wfe-buildkit/src/step.rs\<close>): the solve request that a configuration leads to, the build
  under its deadline, and the artifacts that replace the build context. The daemon, the file system and the
  archive library are parameters; progress messages are only logged.
\<close>

record exporter =
  ex_type :: string
  ex_attrs :: "(string \<times> string) list"

record cache_options =
  co_exports :: "(string \<times> (string \<times> string) list) list"
  co_imports :: "(string \<times> (string \<times> string) list) list"

record solve_request =
  sq_ref :: string
  sq_session :: string
  sq_frontend :: string
  sq_frontend_attrs :: "(string \<times> string) list"
  sq_cache :: "cache_options option"
  sq_exporters :: "exporter list"
  sq_metadata :: "(string \<times> string) list"

record 'w buildkitd =
  bd_exists :: "string \<Rightarrow> ('w, bool) eff"
  bd_connect_unix :: "string \<Rightarrow> ('w, string + unit) eff"
  bd_endpoint :: "string \<Rightarrow> string + unit"
  bd_connect :: "string \<Rightarrow> ('w, string + unit) eff"
  bd_solve :: "solve_request \<Rightarrow> ('w, string + (string \<times> string) list) eff"
  bd_status :: "string \<Rightarrow> 'w \<Rightarrow> 'w"
  bd_canonicalize :: "string \<Rightarrow> ('w, string + string) eff"
  bd_uuid :: "('w, string) eff"
  bd_io_dir :: "string option"
  bd_temp_dir :: string
  bd_remove_dir_all :: "string \<Rightarrow> ('w, string + unit) eff"

text \<open>The state of a step.\<close>

record buildkit_self =
  bs_config :: buildkit_config
  bs_mount_points :: "string list"
  bs_original_context :: "string option"

definition buildkit_new :: "buildkit_config \<Rightarrow> buildkit_self" where
  "buildkit_new c = \<lparr>bs_config = c, bs_mount_points = [], bs_original_context = None\<rparr>"

section \<open>The request\<close>

definition bk_connect :: "'w buildkitd \<Rightarrow> buildkit_config \<Rightarrow> ('w, unit res) eff" where
  "bk_connect B c w =
     (let addr = bk_buildkit_addr c in
      case strip_prefix_str ''unix://'' addr of
        Some socket_path \<Rightarrow>
          (let (there, w) = bd_exists B socket_path w in
           if \<not> there then (Inl (step_err (''BuildKit socket not found: '' @ socket_path)), w)
           else request (''failed to connect to buildkitd via Unix socket at '' @ addr @ '': '') (bd_connect_unix B socket_path) w)
      | None \<Rightarrow>
          (let connect_addr = replace_scheme addr in
           try_do (request (''invalid BuildKit endpoint '' @ connect_addr @ '': '') (\<lambda>w. (bd_endpoint B connect_addr, w)))
             (\<lambda>_. request (''failed to connect to buildkitd at '' @ connect_addr @ '': '') (bd_connect B connect_addr)) w))"

definition build_frontend_attrs :: "buildkit_config \<Rightarrow> (string \<times> string) list" where
  "build_frontend_attrs c =
     fold (\<lambda>(k, v). AList.update (''build-arg:'' @ k) v) (sort_key fst (bk_build_args c))
       ((if bk_dockerfile c = ''Dockerfile'' then [] else [(''filename'', bk_dockerfile c)]) @
        (case bk_target c of Some t \<Rightarrow> [(''target'', t)] | None \<Rightarrow> []))"

definition build_exporters :: "buildkit_config \<Rightarrow> exporter list" where
  "build_exporters c =
     (let output_type = unwrap_or (bk_output_type c) ''image'';
          name = (if bk_tags c = [] then [] else [(''name'', join_str '','' (bk_tags c))]);
          dest = (case bk_output_dest c of Some d \<Rightarrow> [(''dest'', d)] | None \<Rightarrow> [])
      in if output_type \<in> {''docker'', ''oci'', ''tar''} then
           [\<lparr>ex_type = (if output_type = ''tar'' then ''docker'' else output_type), ex_attrs = name @ dest\<rparr>]
         else if output_type = ''local'' then [\<lparr>ex_type = ''local'', ex_attrs = dest\<rparr>]
         else if bk_tags c = [] then []
         else [\<lparr>ex_type = ''image'', ex_attrs = name @ (if bk_push c then [(''push'', ''true'')] else [])\<rparr>])"

definition build_cache_options :: "buildkit_config \<Rightarrow> cache_options option" where
  "build_cache_options c =
     (if bk_cache_from c = [] \<and> bk_cache_to c = [] then None
      else Some \<lparr>co_exports = map (\<lambda>dest. (''registry'', [(''ref'', dest), (''mode'', ''max'')])) (bk_cache_to c),
                 co_imports = map (\<lambda>source. (''registry'', [(''ref'', source)])) (bk_cache_from c)\<rparr>)"

definition solve_request_of :: "buildkit_config \<Rightarrow> string \<Rightarrow> string \<Rightarrow> solve_request" where
  "solve_request_of c build_ref session_id =
     \<lparr>sq_ref = build_ref, sq_session = session_id, sq_frontend = ''dockerfile.v0'',
      sq_frontend_attrs = fold (\<lambda>(k, v). AList.update k v)
        [(''context'', ''local://context''), (''local-sessionid:context'', session_id),
         (''dockerfilekey'', ''local://dockerfile''), (''local-sessionid:dockerfile'', session_id)] (build_frontend_attrs c),
      sq_cache = build_cache_options c, sq_exporters = build_exporters c,
      sq_metadata = [(''x-docker-expose-session-uuid'', session_id),
        (''x-docker-expose-session-grpc-method'', ''/moby.filesync.v1.FileSync/DiffCopy''),
        (''x-docker-expose-session-grpc-method'', ''/moby.filesync.v1.Auth/Credentials'')]\<rparr>"

definition execute_build :: "'w buildkitd \<Rightarrow> buildkit_config \<Rightarrow> ('w, (string option \<times> (string \<times> string) list) res) eff" where
  "execute_build B c w =
     (let (u, w) = bd_uuid B w; build_ref = ''wfe-build-'' @ u; (session_id, w) = bd_uuid B w in
      try_do (request (''failed to resolve context path '' @ bk_context c @ '': '') (bd_canonicalize B (bk_context c))) (\<lambda>_.
      try_do (request ''BuildKit solve failed: '' (bd_solve B (solve_request_of c build_ref session_id))) (\<lambda>response w.
      (Inr (map_of response ''containerimage.digest'', response), bd_status B build_ref w))) w)"

definition build_registry_env :: "buildkit_config \<Rightarrow> (string \<times> string) list" where
  "build_registry_env c =
     fold (\<lambda>(host, auth) env.
         let h = to_uppercase (map (\<lambda>ch. if ch = CHR ''.'' \<or> ch = CHR ''-'' then CHR ''_'' else ch) host)
         in AList.update (''BUILDKIT_HOST_'' @ h @ ''_PASSWORD'') (ra_password auth)
              (AList.update (''BUILDKIT_HOST_'' @ h @ ''_USERNAME'') (ra_username auth) env))
       (bk_registry_auth c) []"

section \<open>Results\<close>

definition hex_char :: "char \<Rightarrow> bool" where
  "hex_char ch \<longleftrightarrow> is_digit ch \<or> (of_char ch :: nat) \<in> {97..102}"

definition digest_after :: "string \<Rightarrow> string \<Rightarrow> string option" where
  "digest_after marker s =
     and_then (strip_prefix_str (marker @ ''sha256:'') s)
       (\<lambda>rest. if length rest \<ge> 64 \<and> list_all hex_char (take 64 rest) then Some (take 64 rest) else None)"

text \<open>The leftmost match of the regular expression, over the suffixes of the output.\<close>

fun find_digest :: "string \<Rightarrow> string option" where
  "find_digest s =
     (case option_or (digest_after ''exporting manifest '' s) (digest_after ''digest: '' s) of
        Some h \<Rightarrow> Some h
      | None \<Rightarrow> (case s of [] \<Rightarrow> None | _ # r \<Rightarrow> find_digest r))"

declare find_digest.simps [simp del]

definition parse_digest :: "string \<Rightarrow> string option" where
  "parse_digest output = map_option (\<lambda>h. ''sha256:'' @ h) (find_digest output)"

definition bk_output_data ::
    "string \<Rightarrow> string \<Rightarrow> string \<Rightarrow> string option \<Rightarrow> string list \<Rightarrow> string option \<Rightarrow> json" where
  "bk_output_data name stdout stderr digest tags output_dest =
     JObject (obj_insert (name @ ''.stderr'') (JString stderr) (obj_insert (name @ ''.stdout'') (JString stdout)
       ((case output_dest of Some d \<Rightarrow> obj_insert (name @ ''.output_dest'') (JString d) | None \<Rightarrow> id)
         ((if tags = [] then id else obj_insert (name @ ''.tags'') (JArray (map JString tags)))
           ((case digest of Some d \<Rightarrow> obj_insert (name @ ''.digest'') (JString d) | None \<Rightarrow> id) [])))))"

section \<open>The step\<close>

definition io_base :: "'w buildkitd \<Rightarrow> string" where
  "io_base B = unwrap_or (bd_io_dir B) (bd_temp_dir B)"

definition override_context ::
    "'w buildkitd \<Rightarrow> 'w tar_env \<Rightarrow> artifact_volume \<Rightarrow> string \<Rightarrow> ('w \<times> buildkit_self, unit res) eff" where
  "override_context B T vol input_key = (\<lambda>(w, self).
     case lookup_artifact vol input_key of
       Inl e \<Rightarrow> (Inl e, (w, self))
     | Inr bytes \<Rightarrow>
         (let (u, w) = bd_uuid B w; tmp_dir = path_join (io_base B) (''wfe-buildkit-'' @ u) in
          case extract_artifact_to_dir T bytes tmp_dir w of
            (Inl e, w) \<Rightarrow> (Inl e, (w, self))
          | (Inr _, w) \<Rightarrow>
              (Inr (), (w, self\<lparr>bs_original_context := Some (bk_context (bs_config self)),
                 bs_config := (bs_config self)\<lparr>bk_context := tmp_dir\<rparr>,
                 bs_mount_points := bs_mount_points self @ [tmp_dir]\<rparr>))))"

definition bk_mount_point :: "'w buildkitd \<Rightarrow> string \<Rightarrow> ('w, string) eff" where
  "bk_mount_point B p w =
     (if is_absolute p then (p, w)
      else let (u, w) = bd_uuid B w in (path_join (path_join (io_base B) (''wfe-buildkit-'' @ u)) p, w))"

fun bk_mount_inputs ::
    "'w buildkitd \<Rightarrow> 'w tar_env \<Rightarrow> artifact_volume \<Rightarrow> (string \<times> string) list \<Rightarrow> ('w \<times> buildkit_self, unit res) eff" where
  "bk_mount_inputs B T vol [] s = (Inr (), s)"
| "bk_mount_inputs B T vol ((name, p) # inputs) (w, self) =
     (let (mount_point, w) = bk_mount_point B p w in
      case lookup_artifact vol name of
        Inl e \<Rightarrow> (Inl e, (w, self))
      | Inr bytes \<Rightarrow>
          (case extract_artifact_to_dir T bytes mount_point w of
             (Inl e, w) \<Rightarrow> (Inl e, (w, self))
           | (Inr _, w) \<Rightarrow> bk_mount_inputs B T vol inputs (w, self\<lparr>bs_mount_points := bs_mount_points self @ [mount_point]\<rparr>)))"

definition bk_mount :: "'w buildkitd \<Rightarrow> 'w tar_env \<Rightarrow> 'v step_context \<Rightarrow> ('w \<times> buildkit_self, unit res) eff" where
  "bk_mount B T ctx s =
     (case sx_artifact_volume ctx of
        None \<Rightarrow> (Inr (), s)
      | Some vol \<Rightarrow>
          try_do (case bk_input (bs_config (snd s)) of Some key \<Rightarrow> override_context B T vol key | None \<Rightarrow> lift_res (Inr ()))
            (\<lambda>_ s. case bk_inputs (bs_config (snd s)) of Some inputs \<Rightarrow> bk_mount_inputs B T vol inputs s | None \<Rightarrow> (Inr (), s)) s)"

definition bk_unmount :: "'w buildkitd \<Rightarrow> 'v step_context \<Rightarrow> ('w \<times> buildkit_self, unit res) eff" where
  "bk_unmount B ctx = (\<lambda>(w, self).
     let self = (case bs_original_context self of
            Some original \<Rightarrow> self\<lparr>bs_config := (bs_config self)\<lparr>bk_context := original\<rparr>, bs_original_context := None\<rparr>
          | None \<Rightarrow> self)
     in (Inr (), (fold (\<lambda>p w. snd (bd_remove_dir_all B p w)) (bs_mount_points self) w, self\<lparr>bs_mount_points := []\<rparr>)))"

definition bk_build ::
    "'w buildkitd \<Rightarrow> ('w, (string option \<times> (string \<times> string) list) res) deadline \<Rightarrow> buildkit_config \<Rightarrow>
     ('w, (string option \<times> (string \<times> string) list) res) eff" where
  "bk_build B D c w =
     (case bk_timeout_ms c of
        None \<Rightarrow> execute_build B c w
      | Some ms \<Rightarrow>
          (case D (unat ms) (execute_build B c) w of
             (Some r, w) \<Rightarrow> (r, w)
           | (None, w) \<Rightarrow> (Inl (step_err (''BuildKit build timed out after '' @ show_u64 ms @ ''ms'')), w)))"

definition bk_run ::
    "'w buildkitd \<Rightarrow> ('w, (string option \<times> (string \<times> string) list) res) deadline \<Rightarrow> 'v step_context \<Rightarrow>
     ('w \<times> buildkit_self, execution_result res) eff" where
  "bk_run B D ctx = (\<lambda>(w, self).
     let c = bs_config self;
         (r, w) = try_do (bk_connect B c) (\<lambda>_. try_do (bk_build B D c) (\<lambda>(digest, _).
           lift_res (Inr (result_default\<lparr>er_proceed := True, er_output_data :=
             Some (bk_output_data (unknown_name ctx) [] [] digest (bk_tags c) (bk_output_dest c))\<rparr>)))) w
     in (r, (w, self)))"

definition bk_body ::
    "'w buildkitd \<Rightarrow> 'w tar_env \<Rightarrow> ('w, (string option \<times> (string \<times> string) list) res) deadline \<Rightarrow> ('w \<times> buildkit_self) step_body" where
  "bk_body B T D = \<lparr>run = bk_run B D, mount_artifacts = bk_mount B T, unmount_artifacts = bk_unmount B\<rparr>"

section \<open>Lemmas\<close>

text \<open>A mount that has replaced the context remembers the one of the configuration, whether or not the mount succeeds.\<close>

definition remembers :: "buildkit_config \<Rightarrow> buildkit_self \<Rightarrow> bool" where
  "remembers c self \<longleftrightarrow>
     (case bs_original_context self of
        None \<Rightarrow> bs_config self = c
      | Some original \<Rightarrow> (bs_config self)\<lparr>bk_context := original\<rparr> = c)"

lemma remembers_mounts [simp]: "remembers c (self\<lparr>bs_mount_points := ps\<rparr>) = remembers c self"
  by (simp add: remembers_def split: option.splits)

lemma mount_inputs_remembers:
  "remembers c (snd s) \<Longrightarrow> remembers c (snd (snd (bk_mount_inputs B T vol inputs s)))"
proof (induction inputs arbitrary: s)
  case (Cons x inputs)
  then show ?case
    by (cases s; cases x) (simp add: quiet_unfold split: sum.splits)
qed simp

lemma override_remembers:
  "remembers c (snd (snd (override_context B T vol key (w, buildkit_new c))))"
  by (simp add: override_context_def quiet_unfold remembers_def buildkit_new_def split: sum.splits)

lemma mount_remembers: "remembers c (snd (snd (bk_mount B T ctx (w, buildkit_new c))))"
proof -
  have new: "remembers c (buildkit_new c)" by (simp add: remembers_def buildkit_new_def)
  let ?o = "\<lambda>vol. (case bk_input c of Some key \<Rightarrow> override_context B T vol key | None \<Rightarrow> lift_res (Inr ())) (w, buildkit_new c)"
  have "remembers c (snd (snd (?o vol)))" for vol
    using new by (cases "bk_input c") (simp_all add: override_remembers lift_res_def)
  then show ?thesis
    using new by (auto simp: bk_mount_def try_do_def quiet_unfold buildkit_new_def mount_inputs_remembers
        split: option.splits sum.splits)
qed

lemma run_keeps_self [simp]: "snd (snd (bk_run B D ctx s)) = snd s"
  by (cases s) (simp add: bk_run_def quiet_unfold)

lemma unmount_restores: "remembers c self \<Longrightarrow> snd (snd (bk_unmount B ctx (w, self))) = buildkit_new c"
  by (cases self) (auto simp: bk_unmount_def buildkit_new_def remembers_def Let_def split: option.splits)

text \<open>
  C32: artifacts leave no trace in the step. After a mount, a run and the unmount, however the first
  two end, the step is as it was created: its build context is the configured one again, also when an
  artifact had replaced it, and no mount point is left.
\<close>

theorem buildkit_unmount_restores:
  "snd (snd (bk_unmount B ctx (snd (bk_run B D ctx (snd (bk_mount B T ctx (w, buildkit_new c))))))) = buildkit_new c"
proof -
  obtain w1 self where s: "snd (bk_run B D ctx (snd (bk_mount B T ctx (w, buildkit_new c)))) = (w1, self)" by force
  then have "remembers c self" using mount_remembers[of c B T ctx w] run_keeps_self[of B D ctx] by (metis snd_conv)
  from unmount_restores[OF this] show ?thesis by (simp only: s)
qed

text \<open>
  The context is resolved and logged, but it is not part of the request: with or without an artifact in its
  place, the daemon is asked for the same build.
\<close>

lemma context_not_sent: "solve_request_of (c\<lparr>bk_context := p\<rparr>) r i = solve_request_of c r i"
  by (simp add: solve_request_of_def build_frontend_attrs_def build_cache_options_def build_exporters_def Let_def
      split: option.splits)

text \<open>An image without tags is built for nothing, also when it is to be pushed.\<close>

lemma untagged_image_not_exported:
  "bk_tags c = [] \<Longrightarrow> bk_output_type c = None \<Longrightarrow> build_exporters c = []"
  by (simp add: build_exporters_def Let_def unwrap_or_def)

text \<open>What \<open>parse_digest\<close> finds is a digest that the output reports.\<close>

lemma digest_after_sound:
  "digest_after marker s = Some h \<Longrightarrow> length h = 64 \<and> list_all hex_char h \<and> (\<exists>b. s = marker @ ''sha256:'' @ h @ b)"
proof -
  assume a: "digest_after marker s = Some h"
  then obtain rest where r: "strip_prefix_str (marker @ ''sha256:'') s = Some rest" "64 \<le> length rest"
    "list_all hex_char (take 64 rest)" "h = take 64 rest"
    by (auto simp: digest_after_def bind_eq_Some_conv split: if_splits)
  then have "s = (marker @ ''sha256:'') @ rest"
    unfolding strip_prefix_str_def by (metis append_take_drop_id option.distinct(1) option.inject)
  then have "s = marker @ ''sha256:'' @ h @ drop 64 rest" using r(4) by simp
  with r show ?thesis by (intro conjI exI[of _ "drop 64 rest"]) simp_all
qed

lemma parse_digest_sound:
  assumes "parse_digest output = Some d"
  shows "\<exists>h a b marker. d = ''sha256:'' @ h \<and> length h = 64 \<and> list_all hex_char h \<and>
    marker \<in> {''exporting manifest '', ''digest: ''} \<and> output = a @ marker @ ''sha256:'' @ h @ b"
proof -
  have "find_digest s = Some h \<Longrightarrow> length h = 64 \<and> list_all hex_char h \<and>
    (\<exists>a b marker. marker \<in> {''exporting manifest '', ''digest: ''} \<and> s = a @ marker @ ''sha256:'' @ h @ b)" for s h
  proof (induction s rule: find_digest.induct)
    case (1 s)
    consider (here) marker where "marker \<in> {''exporting manifest '', ''digest: ''}" "digest_after marker s = Some h"
      | (later) c r where "s = c # r" "find_digest r = Some h" "option_or (digest_after ''exporting manifest '' s) (digest_after ''digest: '' s) = None"
      using 1(2) by (subst (asm) find_digest.simps) (auto simp: option_or_def split: option.splits list.splits)
    then show ?case
    proof cases
      case here
      from digest_after_sound[OF here(2)] obtain b where b: "length h = 64" "list_all hex_char h" "s = [] @ marker @ ''sha256:'' @ h @ b"
        by auto
      with here(1) show ?thesis by blast
    next
      case later
      from 1(1)[OF later(3,1,2)] obtain a b marker where r: "length h = 64" "list_all hex_char h"
        "marker \<in> {''exporting manifest '', ''digest: ''}" "r = a @ marker @ ''sha256:'' @ h @ b" by blast
      then have "s = (c # a) @ marker @ ''sha256:'' @ h @ b" using later(1) by simp
      with r(1-3) show ?thesis by blast
    qed
  qed
  note found = this
  from assms obtain h where h: "find_digest output = Some h" "d = ''sha256:'' @ h" by (auto simp: parse_digest_def)
  from found[OF h(1)] obtain a b marker where r: "length h = 64" "list_all hex_char h"
    "marker \<in> {''exporting manifest '', ''digest: ''}" "output = a @ marker @ ''sha256:'' @ h @ b" by (elim conjE exE)
  show ?thesis by (intro exI[of _ h] exI[of _ a] exI[of _ b] exI[of _ marker] conjI h(2) r)
qed

end
