(* ===== verification/Deno.thy ===== *)
theory Deno
  imports Requests Shell "HOL-Library.Sublist"
begin

text \<open>
  The JavaScript executor (\<open>wfe-yaml/src/executors/deno\<close>): permissions, the module loader, the operations a script
  can call, and the step. The JavaScript engine, the URL library, HTTP and the file system are parameters. A
  script is not modelled as such: what it can do is a sequence of the operations, in any order and with any
  arguments, the relation \<open>deno_step\<close>. Operations record the accesses they make.
\<close>

section \<open>Paths\<close>

datatype component = RootDir | CurDir | ParentDir | Normal string

definition component_of :: "string \<Rightarrow> component" where
  "component_of s = (if s = ''..'' then ParentDir else Normal s)"

text \<open>\<open>Path::components\<close>: empty components and dots are dropped, except for a dot at the start of a relative path.\<close>

definition path_components :: "string \<Rightarrow> component list" where
  "path_components p =
     (let parts = split_on CHR ''/'' p;
          rest = map component_of (filter (\<lambda>s. s \<noteq> [] \<and> s \<noteq> ''.'') parts)
      in if is_absolute p then RootDir # rest else if hd parts = ''.'' then CurDir # rest else rest)"

definition path_starts_with :: "string \<Rightarrow> string \<Rightarrow> bool" where
  "path_starts_with p base \<longleftrightarrow> prefix (path_components base) (path_components p)"

section \<open>Permissions\<close>

record permission_error =
  pr_kind :: string
  pr_resource :: string

definition permission_text :: "permission_error \<Rightarrow> string" where
  "permission_text e = ''Permission denied: '' @ pr_kind e @ '' access to '' @ quoted (pr_resource e)"

record permission_checker =
  pk_net_hosts :: "string list"
  pk_read_paths :: "string list"
  pk_write_paths :: "string list"
  pk_env_vars :: "string list"
  pk_allow_run :: bool
  pk_allow_dynamic_import :: bool

definition from_config :: "deno_permissions_yaml \<Rightarrow> permission_checker" where
  "from_config p =
     \<lparr>pk_net_hosts = dp_net p, pk_read_paths = dp_read p, pk_write_paths = dp_write p, pk_env_vars = dp_env p,
      pk_allow_run = dp_run p, pk_allow_dynamic_import = dp_dynamic_import p\<rparr>"

definition denied :: "string \<Rightarrow> string \<Rightarrow> permission_error + unit" where
  "denied kind resource = Inl \<lparr>pr_kind = kind, pr_resource = resource\<rparr>"

definition has_traversal :: "string \<Rightarrow> bool" where
  "has_traversal p \<longleftrightarrow> ParentDir \<in> set (path_components p)"

definition check_net :: "permission_checker \<Rightarrow> string \<Rightarrow> permission_error + unit" where
  "check_net k host = (if host \<in> set (pk_net_hosts k) then Inr () else denied ''net'' host)"

definition check_path :: "string \<Rightarrow> string list \<Rightarrow> string \<Rightarrow> permission_error + unit" where
  "check_path kind allowed p =
     (if has_traversal p then denied kind p
      else if list_ex (path_starts_with p) allowed then Inr () else denied kind p)"

definition check_read :: "permission_checker \<Rightarrow> string \<Rightarrow> permission_error + unit" where
  "check_read k p = check_path ''read'' (pk_read_paths k) p"

definition check_write :: "permission_checker \<Rightarrow> string \<Rightarrow> permission_error + unit" where
  "check_write k p = check_path ''write'' (pk_write_paths k) p"

definition check_env :: "permission_checker \<Rightarrow> string \<Rightarrow> permission_error + unit" where
  "check_env k var = (if var \<in> set (pk_env_vars k) then Inr () else denied ''env'' var)"

section \<open>The runtime\<close>

record js_error =
  je_class :: string
  je_message :: string

definition generic :: "string \<Rightarrow> js_error" where
  "generic m = \<lparr>je_class = ''Error'', je_message = m\<rparr>"

definition permission_denied :: "permission_error \<Rightarrow> js_error" where
  "permission_denied e = \<lparr>je_class = ''PermissionError'', je_message = permission_text e\<rparr>"

text \<open>What a step reaches outside: a host, or a file.\<close>

datatype access = NetAccess string | FileAccess string

record 'w deno_state =
  ds_world :: 'w
  ds_checker :: permission_checker
  ds_inputs :: json
  ds_outputs :: "(string \<times> json) list"
  ds_name :: string
  ds_accesses :: "access list"

record fetch_options =
  fo_method :: "string option"
  fo_headers :: "(string \<times> string) list option"
  fo_body :: "string option"

record fetch_response =
  fr_status :: nat
  fr_headers :: "(string \<times> string) list"
  fr_body :: "string + string"

definition is_success :: "nat \<Rightarrow> bool" where
  "is_success s \<longleftrightarrow> 200 \<le> s \<and> s < 300"

record ('w, 'u) deno_env =
  dn_parse :: "string \<Rightarrow> string + 'u"
  dn_url_text :: "'u \<Rightarrow> string"
  dn_scheme :: "'u \<Rightarrow> string"
  dn_host :: "'u \<Rightarrow> string option"
  dn_file_path :: "'u \<Rightarrow> string option"
  dn_join :: "'u \<Rightarrow> string \<Rightarrow> string + 'u"
  dn_send :: "string \<Rightarrow> string \<Rightarrow> (string \<times> string) list \<Rightarrow> string option \<Rightarrow> ('w, string + fetch_response) eff"
  dn_read :: "string \<Rightarrow> ('w, string + string) eff"
  dn_status_text :: "nat \<Rightarrow> string"
  dn_from_file_path :: "string \<Rightarrow> 'u option"
  dn_current_dir :: "'w \<Rightarrow> string + string"

definition run_access :: "access \<Rightarrow> ('w, 'a) eff \<Rightarrow> ('w deno_state, 'a) eff" where
  "run_access a f s = (case f (ds_world s) of (r, w) \<Rightarrow> (r, s\<lparr>ds_world := w, ds_accesses := ds_accesses s @ [a]\<rparr>))"

definition step_permissions :: "deno_config \<Rightarrow> deno_permissions_yaml" where
  "step_permissions c =
     (let p = dc_permissions c
      in if dc_modules c \<noteq> [] \<and> ''esm.sh'' \<notin> set (dp_net p) then p\<lparr>dp_net := dp_net p @ [''esm.sh'']\<rparr> else p)"

definition create_runtime :: "deno_config \<Rightarrow> json \<Rightarrow> string \<Rightarrow> 'w \<Rightarrow> 'w deno_state" where
  "create_runtime c data name w =
     \<lparr>ds_world = w, ds_checker = from_config (step_permissions c), ds_inputs = data, ds_outputs = [], ds_name = name,
      ds_accesses = []\<rparr>"

section \<open>Operations\<close>

definition op_inputs :: "'w deno_state \<Rightarrow> json" where
  "op_inputs s = ds_inputs s"

definition op_output :: "string \<Rightarrow> json \<Rightarrow> 'w deno_state \<Rightarrow> 'w deno_state" where
  "op_output key v s = s\<lparr>ds_outputs := AList.update key v (ds_outputs s)\<rparr>"

definition op_read_file :: "('w, 'u) deno_env \<Rightarrow> string \<Rightarrow> ('w deno_state, js_error + string) eff" where
  "op_read_file D path s =
     (case check_read (ds_checker s) path of
        Inl e \<Rightarrow> (Inl (permission_denied e), s)
      | Inr _ \<Rightarrow>
          (case run_access (FileAccess path) (dn_read D path) s of
             (Inl e, s) \<Rightarrow> (Inl (generic (''Failed to read file '' @ quoted path @ '': '' @ e)), s)
           | (Inr text, s) \<Rightarrow> (Inr text, s)))"

definition fetch_methods :: "string list" where
  "fetch_methods = [''GET'', ''POST'', ''PUT'', ''DELETE'', ''PATCH'', ''HEAD'']"

definition op_fetch ::
    "('w, 'u) deno_env \<Rightarrow> string \<Rightarrow> fetch_options option \<Rightarrow> ('w deno_state, js_error + nat \<times> bool \<times> (string \<times> string) list \<times> string) eff" where
  "op_fetch D url options s =
     (case dn_parse D url of
        Inl e \<Rightarrow> (Inl (generic (''Invalid URL '' @ quoted url @ '': '' @ e)), s)
      | Inr parsed \<Rightarrow>
          (case dn_host D parsed of
             None \<Rightarrow> (Inl (generic (''URL '' @ quoted url @ '' has no host'')), s)
           | Some host \<Rightarrow>
               (case check_net (ds_checker s) host of
                  Inl e \<Rightarrow> (Inl (generic (permission_text e)), s)
                | Inr _ \<Rightarrow>
                    (let opts = unwrap_or options \<lparr>fo_method = None, fo_headers = None, fo_body = None\<rparr>;
                         method = to_uppercase (unwrap_or (fo_method opts) ''GET'')
                     in if method \<notin> set fetch_methods then (Inl (generic (''Unsupported HTTP method: '' @ method)), s)
                        else case run_access (NetAccess host)
                               (dn_send D method url (unwrap_or (fo_headers opts) []) (fo_body opts)) s of
                               (Inl e, s) \<Rightarrow> (Inl (generic (''Fetch failed for '' @ quoted url @ '': '' @ e)), s)
                             | (Inr r, s) \<Rightarrow>
                                 (case fr_body r of
                                    Inl e \<Rightarrow> (Inl (generic (''Failed to read response body: '' @ e)), s)
                                  | Inr body \<Rightarrow> (Inr (fr_status r, is_success (fr_status r), fr_headers r, body), s))))))"

section \<open>Modules\<close>

definition resolve_npm_specifier :: "string \<Rightarrow> string option" where
  "resolve_npm_specifier specifier = map_option (\<lambda>rest. ''https://esm.sh/'' @ rest) (strip_prefix_str ''npm:'' specifier)"

abbreviation begins :: "string \<Rightarrow> string \<Rightarrow> bool" where
  "begins s p \<equiv> strip_prefix_str p s \<noteq> None"

definition parse_url :: "('w, 'u) deno_env \<Rightarrow> string \<Rightarrow> string \<Rightarrow> js_error + 'u" where
  "parse_url D msg s = map_err (\<lambda>e. generic (msg @ e)) (dn_parse D s)"

definition check_file_url :: "('w, 'u) deno_env \<Rightarrow> permission_checker \<Rightarrow> 'u \<Rightarrow> js_error + unit" where
  "check_file_url D k u =
     (case dn_file_path D u of
        None \<Rightarrow> Inl (generic ''Cannot convert URL to file path'')
      | Some p \<Rightarrow> map_err permission_denied (check_read k p))"

definition check_net_url :: "('w, 'u) deno_env \<Rightarrow> permission_checker \<Rightarrow> 'u \<Rightarrow> js_error + unit" where
  "check_net_url D k u =
     (case dn_host D u of
        None \<Rightarrow> Inl (generic ''URL has no host'')
      | Some h \<Rightarrow> map_err permission_denied (check_net k h))"

definition checked :: "js_error + 'u \<Rightarrow> ('u \<Rightarrow> js_error + unit) \<Rightarrow> js_error + 'u" where
  "checked r check = (case r of Inl e \<Rightarrow> Inl e | Inr u \<Rightarrow> (case check u of Inl e \<Rightarrow> Inl e | Inr _ \<Rightarrow> Inr u))"

definition check_scheme :: "('w, 'u) deno_env \<Rightarrow> permission_checker \<Rightarrow> 'u \<Rightarrow> js_error + unit" where
  "check_scheme D k u =
     (if dn_scheme D u = ''file'' then check_file_url D k u
      else if dn_scheme D u = ''https'' \<or> dn_scheme D u = ''http'' then check_net_url D k u
      else Inr ())"

definition resolve_relative :: "('w, 'u) deno_env \<Rightarrow> string \<Rightarrow> string \<Rightarrow> js_error + 'u" where
  "resolve_relative D specifier referrer =
     (case parse_url D (''Invalid referrer '' @ quoted referrer @ '': '') referrer of
        Inl e \<Rightarrow> Inl e
      | Inr base \<Rightarrow> map_err (\<lambda>e. generic (''Failed to resolve '' @ quoted specifier @ '': '' @ e)) (dn_join D base specifier))"

definition module_resolve :: "('w, 'u) deno_env \<Rightarrow> permission_checker \<Rightarrow> string \<Rightarrow> string \<Rightarrow> bool \<Rightarrow> js_error + 'u" where
  "module_resolve D k specifier referrer dynamic_import =
     (if dynamic_import \<and> \<not> pk_allow_dynamic_import k then Inl (generic ''Dynamic import is not allowed by permissions'')
      else if begins specifier ''ext:'' then parse_url D ''Invalid ext URL: '' specifier
      else case resolve_npm_specifier specifier of
        Some esm_url \<Rightarrow> parse_url D ''Invalid esm.sh URL: '' esm_url
      | None \<Rightarrow>
          if begins specifier ''wfe:'' then parse_url D ''Invalid wfe URL: '' specifier
          else if begins specifier ''file://'' then checked (parse_url D ''Invalid file URL: '' specifier) (check_file_url D k)
          else if begins specifier ''https://'' \<or> begins specifier ''http://'' then
            checked (parse_url D ''Invalid URL: '' specifier) (check_net_url D k)
          else if begins specifier ''./'' \<or> begins specifier ''../'' \<or> begins specifier ''/'' then
            checked (resolve_relative D specifier referrer) (check_scheme D k)
          else Inl (generic (''Unsupported module specifier: '' @ quoted specifier)))"

definition load_remote :: "('w, 'u) deno_env \<Rightarrow> 'u \<Rightarrow> ('w deno_state, js_error + string) eff" where
  "load_remote D u s =
     (let url = dn_url_text D u in
      case dn_host D u of
        None \<Rightarrow> (Inl (generic ''URL has no host''), s)
      | Some host \<Rightarrow>
          (case check_net (ds_checker s) host of
             Inl e \<Rightarrow> (Inl (permission_denied e), s)
           | Inr _ \<Rightarrow>
               (case run_access (NetAccess host) (dn_send D ''GET'' url [] None) s of
                  (Inl e, s) \<Rightarrow> (Inl (generic (''Failed to fetch module '' @ quoted url @ '': '' @ e)), s)
                | (Inr r, s) \<Rightarrow>
                    (if \<not> is_success (fr_status r) then
                       (Inl (generic (''Failed to fetch module '' @ quoted url @ '': HTTP '' @ dn_status_text D (fr_status r))), s)
                     else case fr_body r of
                            Inl e \<Rightarrow> (Inl (generic (''Failed to read module body '' @ quoted url @ '': '' @ e)), s)
                          | Inr code \<Rightarrow> (Inr code, s)))))"

definition load_file :: "('w, 'u) deno_env \<Rightarrow> 'u \<Rightarrow> ('w deno_state, js_error + string) eff" where
  "load_file D u s =
     (case dn_file_path D u of
        None \<Rightarrow> (Inl (generic ''Cannot convert URL to file path''), s)
      | Some path \<Rightarrow>
          (case check_read (ds_checker s) path of
             Inl e \<Rightarrow> (Inl (permission_denied e), s)
           | Inr _ \<Rightarrow>
               (case run_access (FileAccess path) (dn_read D path) s of
                  (Inl e, s) \<Rightarrow> (Inl (generic (''Failed to read module '' @ quoted path @ '': '' @ e)), s)
                | (Inr code, s) \<Rightarrow> (Inr code, s))))"

definition module_load :: "('w, 'u) deno_env \<Rightarrow> 'u \<Rightarrow> ('w deno_state, js_error + string) eff" where
  "module_load D u s =
     (let scheme = dn_scheme D u in
      if scheme = ''ext'' then (Inl (generic ''ext: modules are handled by deno_core''), s)
      else if scheme = ''https'' \<or> scheme = ''http'' then load_remote D u s
      else if scheme = ''file'' then load_file D u s
      else (Inl (generic (''Unsupported module scheme: '' @ quoted scheme)), s))"

section \<open>The engine\<close>

text \<open>The JavaScript engine, and the thread it runs on. A timer that is armed may make any of its calls fail.\<close>

datatype thread_end = ThreadJoined | ThreadPanicked | JoinFailed string

record ('w, 'u, 'm, 'f) js_engine =
  en_tokio :: "('w, string + unit) eff"
  en_terminate_after :: "nat \<Rightarrow> 'w \<Rightarrow> 'w"
  en_execute_script :: "string \<Rightarrow> ('w deno_state, string + unit) eff"
  en_run_event_loop :: "('w deno_state, string + unit) eff"
  en_load_main :: "'u \<Rightarrow> string \<Rightarrow> ('w deno_state, string + 'm) eff"
  en_mod_evaluate :: "'m \<Rightarrow> ('w deno_state, 'f) eff"
  en_await :: "'f \<Rightarrow> ('w deno_state, string + unit) eff"
  en_join :: "('w, thread_end) eff"

text \<open>What JavaScript code can do: call the operations and import modules.\<close>

inductive deno_step :: "('w, 'u) deno_env \<Rightarrow> 'w deno_state \<Rightarrow> 'w deno_state \<Rightarrow> bool" for D where
  set_output: "deno_step D s (op_output key v s)"
| read_file: "op_read_file D path s = (r, s') \<Longrightarrow> deno_step D s s'"
| fetch: "op_fetch D url options s = (r, s') \<Longrightarrow> deno_step D s s'"
| import_module: "module_resolve D (ds_checker s) specifier referrer dynamic = Inr u \<Longrightarrow> module_load D u s = (r, s')
    \<Longrightarrow> deno_step D s s'"

abbreviation deno_steps :: "('w, 'u) deno_env \<Rightarrow> 'w deno_state \<Rightarrow> 'w deno_state \<Rightarrow> bool" where
  "deno_steps D \<equiv> (deno_step D)\<^sup>*\<^sup>*"

definition only_steps :: "('w, 'u) deno_env \<Rightarrow> ('w deno_state, 'a) eff \<Rightarrow> bool" where
  "only_steps D f \<longleftrightarrow> (\<forall>s. deno_steps D s (snd (f s)))"

text \<open>An engine with no access to the outside but the operations, which is what an embedder of the engine relies on.\<close>

definition sandboxed :: "('w, 'u) deno_env \<Rightarrow> ('w, 'u, 'm, 'f) js_engine \<Rightarrow> bool" where
  "sandboxed D E \<longleftrightarrow>
     (\<forall>src. only_steps D (en_execute_script E src)) \<and> only_steps D (en_run_event_loop E) \<and>
     (\<forall>u src. only_steps D (en_load_main E u src)) \<and> (\<forall>m. only_steps D (en_mod_evaluate E m)) \<and>
     (\<forall>f. only_steps D (en_await E f))"

section \<open>The step\<close>

definition needs_module_evaluation :: "string \<Rightarrow> bool" where
  "needs_module_evaluation source \<longleftrightarrow>
     contains_str source ''import '' \<or> contains_str source ''import('' \<or> contains_str source ''export '' \<or>
     contains_str source ''await ''"

definition engine_error :: "u64 option \<Rightarrow> string \<Rightarrow> string \<Rightarrow> wfe_error" where
  "engine_error limit kind msg =
     (if contains_str msg ''terminated''
      then step_err (''Deno script timed out after '' @ show_nat (unat (unwrap_or limit 0)) @ ''ms'')
      else step_err (''Deno '' @ kind @ '' error: '' @ msg))"

definition engine_call :: "u64 option \<Rightarrow> string \<Rightarrow> ('s, string + 'a) eff \<Rightarrow> ('s, 'a res) eff" where
  "engine_call limit kind f s =
     (case f s of (Inl msg, s) \<Rightarrow> (Inl (engine_error limit kind msg), s) | (Inr x, s) \<Rightarrow> (Inr x, s))"

definition arm_timeout :: "('w, 'u, 'm, 'f) js_engine \<Rightarrow> u64 option \<Rightarrow> 'w deno_state \<Rightarrow> 'w deno_state" where
  "arm_timeout E limit s =
     (case limit of None \<Rightarrow> s | Some ms \<Rightarrow> s\<lparr>ds_world := en_terminate_after E (unat ms) (ds_world s)\<rparr>)"

definition extract_outputs :: "('w deno_state, execution_result res) eff" where
  "extract_outputs s =
     (Inr (result_default\<lparr>er_proceed := True,
             er_output_data := (if ds_outputs s = [] then None else Some (json_object (ds_outputs s)))\<rparr>),
      s\<lparr>ds_outputs := []\<rparr>)"

definition run_script_inner ::
    "('w, 'u, 'm, 'f) js_engine \<Rightarrow> deno_config \<Rightarrow> json \<Rightarrow> string \<Rightarrow> string \<Rightarrow> u64 option \<Rightarrow>
     'w \<Rightarrow> execution_result res \<times> 'w deno_state" where
  "run_script_inner E c data name source limit w =
     (try_do (engine_call limit ''script'' (en_execute_script E source)) (\<lambda>_.
      try_do (engine_call limit ''event loop'' (en_run_event_loop E)) (\<lambda>_.
      extract_outputs)))
     (arm_timeout E limit (create_runtime c data name w))"

definition module_url :: "('w, 'u) deno_env \<Rightarrow> string option \<Rightarrow> 'w \<Rightarrow> string res" where
  "module_url D file_path w =
     (case file_path of
        None \<Rightarrow> Inr ''wfe:///inline-module.js''
      | Some path \<Rightarrow>
          (case (if is_absolute path then Inr path
                 else map_sum (\<lambda>e. step_err (''Cannot get cwd: '' @ e)) (\<lambda>cwd. path_join cwd path) (dn_current_dir D w)) of
             Inl e \<Rightarrow> Inl e
           | Inr full \<Rightarrow>
               (case dn_from_file_path D full of
                  None \<Rightarrow> Inl (step_err (''Cannot convert path to URL: '' @ full))
                | Some u \<Rightarrow> Inr (dn_url_text D u))))"

definition main_specifier :: "('w, 'u) deno_env \<Rightarrow> string option \<Rightarrow> 'w \<Rightarrow> 'u res" where
  "main_specifier D file_path w =
     (case module_url D file_path w of
        Inl e \<Rightarrow> Inl e
      | Inr url \<Rightarrow> map_err (\<lambda>e. step_err (''Invalid module URL '' @ quoted url @ '': '' @ e)) (dn_parse D url))"

definition run_module_inner ::
    "('w, 'u) deno_env \<Rightarrow> ('w, 'u, 'm, 'f) js_engine \<Rightarrow> deno_config \<Rightarrow> json \<Rightarrow> string \<Rightarrow> string \<Rightarrow> string option \<Rightarrow>
     u64 option \<Rightarrow> 'w \<Rightarrow> execution_result res \<times> 'w deno_state" where
  "run_module_inner D E c data name source file_path limit w =
     (try_do (\<lambda>s. (main_specifier D file_path (ds_world s), s)) (\<lambda>specifier.
      try_do (engine_call limit ''module load'' (en_load_main E specifier source)) (\<lambda>module_id s.
        case en_mod_evaluate E module_id s of (eval_future, s) \<Rightarrow>
        try_do (engine_call limit ''event loop'' (en_run_event_loop E)) (\<lambda>_.
        try_do (engine_call limit ''module'' (en_await E eval_future)) (\<lambda>_.
        extract_outputs)) s)))
     (arm_timeout E limit (create_runtime c data name w))"

definition deno_source :: "('w, 'u) deno_env \<Rightarrow> deno_config \<Rightarrow> ('w, string res) eff" where
  "deno_source D c w =
     (case dc_script c of
        Some script \<Rightarrow> (Inr script, w)
      | None \<Rightarrow>
          (case dc_file c of
             Some path \<Rightarrow> request (''Failed to read deno script file '' @ quoted path @ '': '') (dn_read D path) w
           | None \<Rightarrow> (Inl (step_err (''Deno step must have either '' @ quoted ''script'' @ '' or '' @ quoted ''file'' @ '' configured'')), w)))"

definition deno_evaluate ::
    "('w, 'u) deno_env \<Rightarrow> ('w, 'u, 'm, 'f) js_engine \<Rightarrow> deno_config \<Rightarrow> json \<Rightarrow> string \<Rightarrow> string \<Rightarrow>
     'w \<Rightarrow> execution_result res \<times> 'w deno_state" where
  "deno_evaluate D E c data name source w =
     (if needs_module_evaluation source
      then run_module_inner D E c data name source (dc_file c) (dc_timeout_ms c) w
      else run_script_inner E c data name source (dc_timeout_ms c) w)"

definition deno_thread ::
    "('w, 'u) deno_env \<Rightarrow> ('w, 'u, 'm, 'f) js_engine \<Rightarrow> deno_config \<Rightarrow> json \<Rightarrow> string \<Rightarrow> string \<Rightarrow>
     ('w, execution_result res) eff" where
  "deno_thread D E c data name source =
     try_do (request ''Failed to build tokio runtime: '' (en_tokio E))
       (\<lambda>_ w. case deno_evaluate D E c data name source w of (r, s) \<Rightarrow> (r, ds_world s))"

definition deno_run ::
    "('w, 'u) deno_env \<Rightarrow> ('w, 'u, 'm, 'f) js_engine \<Rightarrow> deno_config \<Rightarrow> json \<Rightarrow> string option \<Rightarrow>
     ('w, execution_result res) eff" where
  "deno_run D E c data name =
     try_do (deno_source D c) (\<lambda>source w.
       case deno_thread D E c data (unwrap_or name ''unknown'') source w of (r, w) \<Rightarrow>
       (case en_join E w of
          (ThreadJoined, w) \<Rightarrow> (r, w)
        | (ThreadPanicked, w) \<Rightarrow> (Inl (step_err ''Deno thread panicked''), w)
        | (JoinFailed e, w) \<Rightarrow> (Inl (step_err (''Join error: '' @ e)), w)))"

section \<open>Files below an allowed path\<close>

text \<open>Where a path leads, lexically, from a working directory.\<close>

fun follow :: "string list \<Rightarrow> component list \<Rightarrow> string list" where
  "follow dir [] = dir"
| "follow dir (RootDir # cs) = follow [] cs"
| "follow dir (CurDir # cs) = follow dir cs"
| "follow dir (ParentDir # cs) = follow (butlast dir) cs"
| "follow dir (Normal s # cs) = follow (dir @ [s]) cs"

definition below :: "string \<Rightarrow> string \<Rightarrow> bool" where
  "below p base \<longleftrightarrow> (\<forall>cwd. prefix (follow cwd (path_components base)) (follow cwd (path_components p)))"

lemma follow_append [simp]: "follow dir (cs @ ds) = follow (follow dir cs) ds"
  by (induction dir cs rule: follow.induct) auto

lemma follow_descends:
  assumes "RootDir \<notin> set cs" and "ParentDir \<notin> set cs"
  shows "prefix dir (follow dir cs)"
  using assms
proof (induction dir cs rule: follow.induct)
  case (5 dir s cs)
  then have "prefix (dir @ [s]) (follow (dir @ [s]) cs)" by simp
  then show ?case by (auto simp: prefix_def)
qed auto

lemma no_root_in_names: "RootDir \<notin> set (map component_of xs)"
  by (auto simp: component_of_def split: if_splits)

lemma root_only_first: "RootDir \<notin> set (tl (path_components p))"
  using no_root_in_names by (simp add: path_components_def Let_def map_tl [symmetric] del: set_map)

lemma path_components_nonempty: "path_components (c # p) \<noteq> []"
proof (cases "c = CHR ''/''")
  case True
  then show ?thesis by (simp add: path_components_def is_absolute_def)
next
  case False
  then obtain s ss where "split_on CHR ''/'' (c # p) = (c # s) # ss"
    by (cases "split_on CHR ''/'' p") simp_all
  then show ?thesis by (simp add: path_components_def Let_def)
qed

lemma checked_path_below:
  assumes check: "check_path kind allowed p = Inr ()" and nonempty: "[] \<notin> set allowed"
  shows "\<exists>base \<in> set allowed. below p base"
proof -
  from check have trav: "\<not> has_traversal p" and "list_ex (path_starts_with p) allowed"
    by (simp_all add: check_path_def denied_def split: if_splits)
  then obtain base where base: "base \<in> set allowed" and pre: "path_starts_with p base"
    by (auto simp: list_ex_iff)
  from pre obtain rest where split: "path_components p = path_components base @ rest"
    by (auto simp: path_starts_with_def prefix_def)
  have "path_components base \<noteq> []"
    using base nonempty path_components_nonempty by (metis list.exhaust)
  then have "set rest \<subseteq> set (tl (path_components p))"
    by (auto simp: split tl_append split: list.splits)
  then have "RootDir \<notin> set rest"
    using root_only_first by blast
  moreover have "ParentDir \<notin> set rest"
    using trav by (simp add: has_traversal_def split)
  ultimately have "below p base"
    by (simp add: below_def split follow_descends)
  with base show ?thesis by blast
qed

section \<open>Confinement\<close>

fun permitted :: "permission_checker \<Rightarrow> access \<Rightarrow> bool" where
  "permitted k (NetAccess host) \<longleftrightarrow> check_net k host = Inr ()"
| "permitted k (FileAccess path) \<longleftrightarrow> check_read k path = Inr ()"

text \<open>What an operation keeps: the permissions and the inputs, and every access it adds is permitted.\<close>

definition kept :: "'w deno_state \<Rightarrow> 'w deno_state \<Rightarrow> bool" where
  "kept s s' \<longleftrightarrow> ds_checker s' = ds_checker s \<and> ds_inputs s' = ds_inputs s \<and>
     (\<exists>as. ds_accesses s' = ds_accesses s @ as \<and> list_all (permitted (ds_checker s)) as)"

lemma kept_refl [simp]: "kept s s"
  by (simp add: kept_def)

lemma kept_trans: "kept s s' \<Longrightarrow> kept s' s'' \<Longrightarrow> kept s s''"
  by (auto simp: kept_def)

lemma kept_access: "permitted (ds_checker s) a \<Longrightarrow> kept s (snd (run_access a f s))"
  by (simp add: kept_def run_access_def split: prod.splits)

lemma kept_access': "run_access a f s = (r, s') \<Longrightarrow> permitted (ds_checker s) a \<Longrightarrow> kept s s'"
  using kept_access [of s a f] by simp

lemmas operation_splits = sum.splits option.splits prod.splits if_splits

lemma op_read_file_kept: "op_read_file D path s = (r, s') \<Longrightarrow> kept s s'"
  by (auto simp: op_read_file_def dest: kept_access' split: operation_splits)

lemma op_fetch_kept: "op_fetch D url options s = (r, s') \<Longrightarrow> kept s s'"
  by (auto simp: op_fetch_def Let_def dest: kept_access' split: operation_splits)

lemma load_remote_kept: "load_remote D u s = (r, s') \<Longrightarrow> kept s s'"
  by (auto simp: load_remote_def Let_def dest: kept_access' split: operation_splits)

lemma load_file_kept: "load_file D u s = (r, s') \<Longrightarrow> kept s s'"
  by (auto simp: load_file_def dest: kept_access' split: operation_splits)

lemma module_load_kept: "module_load D u s = (r, s') \<Longrightarrow> kept s s'"
  by (auto simp: module_load_def Let_def dest: load_remote_kept load_file_kept split: if_splits)

lemma deno_step_kept: "deno_step D s s' \<Longrightarrow> kept s s'"
proof (induction rule: deno_step.induct)
  case (set_output s key v)
  then show ?case by (simp add: kept_def op_output_def)
qed (auto dest: op_read_file_kept op_fetch_kept module_load_kept)

lemma deno_steps_kept: "deno_steps D s s' \<Longrightarrow> kept s s'"
  by (induction rule: rtranclp_induct) (auto dest: deno_step_kept intro: kept_trans)

text \<open>The effects that keep these, and what is built from them.\<close>

definition keeps :: "('w deno_state, 'a) eff \<Rightarrow> bool" where
  "keeps f \<longleftrightarrow> (\<forall>s. kept s (snd (f s)))"

named_theorems keeps_intros \<open>effects built from effects that keep the permissions\<close>

lemma keepsD: "keeps f \<Longrightarrow> kept s (snd (f s))"
  by (simp add: keeps_def)

lemma only_steps_keeps: "only_steps D f \<Longrightarrow> keeps f"
  unfolding only_steps_def keeps_def using deno_steps_kept by blast

lemma keeps_bind [keeps_intros]:
  assumes "keeps f" and "\<And>x. keeps (g x)"
  shows "keeps (\<lambda>s. case f s of (x, s) \<Rightarrow> g x s)"
  unfolding keeps_def case_prod_unfold using assms keepsD kept_trans by metis

lemma keeps_try_do [keeps_intros]:
  assumes "keeps f" and "\<And>x. keeps (g x)"
  shows "keeps (try_do f g)"
  unfolding keeps_def try_do_def
  using assms by (auto simp: case_prod_unfold intro: keepsD kept_trans split: sum.splits)

lemma keeps_engine_call [keeps_intros]: "keeps f \<Longrightarrow> keeps (engine_call limit kind f)"
  by (simp add: keeps_def engine_call_def case_prod_unfold split: sum.splits)

lemma keeps_pure [keeps_intros]: "keeps (\<lambda>s. (f s, s))" "keeps extract_outputs"
  by (simp_all add: keeps_def kept_def extract_outputs_def)

lemma sandboxed_keeps:
  assumes "sandboxed D E"
  shows "keeps (en_execute_script E src)" "keeps (en_run_event_loop E)" "keeps (en_load_main E u src)"
    "keeps (en_mod_evaluate E m)" "keeps (en_await E f)"
  by (rule only_steps_keeps [of D], use assms in \<open>simp add: sandboxed_def\<close>)+

lemma arm_timeout_keeps: "kept s (arm_timeout E limit s)"
  by (simp add: arm_timeout_def kept_def split: option.splits)

lemma run_script_inner_kept:
  assumes "sandboxed D E"
  shows "kept (create_runtime c data name w) (snd (run_script_inner E c data name source limit w))"
  unfolding run_script_inner_def
  by (rule kept_trans [OF arm_timeout_keeps keepsD]) (intro keeps_intros sandboxed_keeps [OF assms])

lemma run_module_inner_kept:
  assumes "sandboxed D E"
  shows "kept (create_runtime c data name w) (snd (run_module_inner D E c data name source file_path limit w))"
  unfolding run_module_inner_def
  by (rule kept_trans [OF arm_timeout_keeps keepsD]) (intro keeps_intros sandboxed_keeps [OF assms])

lemma deno_evaluate_kept:
  assumes "sandboxed D E" and "deno_evaluate D E c data name source w = (r, s)"
  shows "kept (create_runtime c data name w) s"
  using run_script_inner_kept [OF assms(1)] run_module_inner_kept [OF assms(1)] assms(2)
  by (metis deno_evaluate_def snd_conv)

lemma step_permissions_net:
  "h \<in> set (dp_net (step_permissions c)) \<Longrightarrow>
   h \<in> set (dp_net (dc_permissions c)) \<or> h = ''esm.sh'' \<and> dc_modules c \<noteq> []"
  by (auto simp: step_permissions_def Let_def split: if_splits)

lemma step_permissions_read [simp]: "dp_read (step_permissions c) = dp_read (dc_permissions c)"
  by (simp add: step_permissions_def Let_def)

text \<open>
  C30: a JavaScript step reaches nothing its permissions do not allow. For an engine whose code acts only through the
  operations and imports, every host that a request of the step names is an allowed host, or \<open>esm.sh\<close> when modules are
  declared; every file read by the code lies, lexically and from any working directory, below an allowed read path
  (no allowed path being empty).
\<close>

theorem deno_sandbox_confined:
  assumes "sandboxed D E"
    and "[] \<notin> set (dp_read (dc_permissions c))"
    and "deno_evaluate D E c data name source w = (r, s)"
    and "a \<in> set (ds_accesses s)"
  shows "case a of
      NetAccess host \<Rightarrow> host \<in> set (dp_net (dc_permissions c)) \<or> host = ''esm.sh'' \<and> dc_modules c \<noteq> []
    | FileAccess path \<Rightarrow> \<exists>base \<in> set (dp_read (dc_permissions c)). below path base"
proof -
  have "permitted (from_config (step_permissions c)) a"
    using deno_evaluate_kept [OF assms(1,3)] assms(4) by (auto simp: kept_def create_runtime_def list_all_iff)
  then show ?thesis
    using assms(2) step_permissions_net checked_path_below
    by (cases a) (auto simp: from_config_def check_net_def check_read_def denied_def split: if_splits)
qed

text \<open>A step that calls an interface and reads a file.\<close>

definition sample_deno_env :: "(unit, string) deno_env" where
  "sample_deno_env =
     \<lparr>dn_parse = Inr, dn_url_text = id, dn_scheme = (\<lambda>_. ''https''), dn_host = (\<lambda>_. Some ''api.example.com''),
      dn_file_path = Some, dn_join = (\<lambda>_. Inr),
      dn_send = (\<lambda>_ _ _ _ w. (Inr \<lparr>fr_status = 200, fr_headers = [], fr_body = Inr ''ok''\<rparr>, w)),
      dn_read = (\<lambda>_ w. (Inr ''text'', w)), dn_status_text = show_nat, dn_from_file_path = Some,
      dn_current_dir = (\<lambda>_. Inr ''/work'')\<rparr>"

definition sample_script :: "string \<Rightarrow> (unit deno_state, string + unit) eff" where
  "sample_script _ s =
     (Inr (), snd (op_read_file sample_deno_env ''/data/list''
                (snd (op_fetch sample_deno_env ''https://api.example.com/items'' None s))))"

definition sample_engine :: "(unit, string, unit, unit) js_engine" where
  "sample_engine =
     \<lparr>en_tokio = (\<lambda>w. (Inr (), w)), en_terminate_after = (\<lambda>_ w. w), en_execute_script = sample_script,
      en_run_event_loop = (\<lambda>s. (Inr (), s)), en_load_main = (\<lambda>_ _ s. (Inr (), s)),
      en_mod_evaluate = (\<lambda>_ s. ((), s)), en_await = (\<lambda>_ s. (Inr (), s)), en_join = (\<lambda>w. (ThreadJoined, w))\<rparr>"

definition sample_deno_config :: deno_config where
  "sample_deno_config =
     \<lparr>dc_script = Some ''run()'', dc_file = None,
      dc_permissions = deno_permissions_default\<lparr>dp_net := [''api.example.com''], dp_read := [''/data'']\<rparr>,
      dc_modules = [], dc_env = [], dc_timeout_ms = Some 1000\<rparr>"

lemma sample_engine_sandboxed: "sandboxed sample_deno_env sample_engine"
proof -
  have "deno_steps sample_deno_env s (snd (sample_script src s))" for src s
    unfolding sample_script_def snd_conv
    by (rule rtranclp.rtrancl_into_rtrancl [OF r_into_rtranclp])
      (rule deno_step.fetch deno_step.read_file, rule prod.collapse [symmetric])+
  then show ?thesis by (simp add: sandboxed_def only_steps_def sample_engine_def)
qed

lemma sample_deno_accesses:
  "ds_accesses (snd (deno_evaluate sample_deno_env sample_engine sample_deno_config JNull ''call'' ''run()'' ())) =
   [NetAccess ''api.example.com'', FileAccess ''/data/list'']"
  by code_simp

lemma sample_read_paths: "dp_read (dc_permissions sample_deno_config) = [''/data'']"
  by (simp add: sample_deno_config_def)

theorem deno_sandbox_confined_witness:
  "FileAccess ''/data/list'' \<in> set (ds_accesses (snd
     (deno_evaluate sample_deno_env sample_engine sample_deno_config JNull ''call'' ''run()'' ()))) \<and>
   (\<exists>base \<in> {''/data''}. below ''/data/list'' base)"
  using deno_sandbox_confined [OF sample_engine_sandboxed _ prod.collapse [symmetric],
      of sample_deno_config "FileAccess ''/data/list''" JNull "''call''" "''run()''" "()"]
  by (simp add: sample_deno_accesses sample_read_paths)

section \<open>Results\<close>

text \<open>A denied operation leaves the step as it was, and reaches nothing.\<close>

lemma denied_read: "check_read (ds_checker s) path = Inl e \<Longrightarrow> op_read_file D path s = (Inl (permission_denied e), s)"
  by (simp add: op_read_file_def)

lemma denied_fetch:
  "dn_parse D url = Inr u \<Longrightarrow> dn_host D u = Some h \<Longrightarrow> h \<notin> set (pk_net_hosts (ds_checker s)) \<Longrightarrow>
   op_fetch D url options s = (Inl (generic (permission_text \<lparr>pr_kind = ''net'', pr_resource = h\<rparr>)), s)"
  by (simp add: op_fetch_def check_net_def denied_def)

text \<open>An empty read path is a prefix of every path, which is why the theorem excludes it.\<close>

lemma empty_read_path_allows_all:
  "[] \<in> set (pk_read_paths k) \<Longrightarrow> \<not> has_traversal p \<Longrightarrow> check_read k p = Inr ()"
proof -
  have "path_components [] = []" by code_simp
  then show "[] \<in> set (pk_read_paths k) \<Longrightarrow> \<not> has_traversal p \<Longrightarrow> check_read k p = Inr ()"
    by (auto simp: check_read_def check_path_def list_ex_iff path_starts_with_def)
qed

text \<open>The last value of an output counts, and each name is listed once.\<close>

lemma outputs_last: "map_of (ds_outputs (op_output key v s)) = (map_of (ds_outputs s))(key \<mapsto> v)"
  by (simp add: op_output_def update_conv')

lemma deno_steps_outputs_distinct:
  assumes "deno_steps D s s'" and "distinct (map fst (ds_outputs s))"
  shows "distinct (map fst (ds_outputs s'))"
  using assms
proof (induction rule: rtranclp_induct)
  case (step t u)
  have access: "run_access a f x = (q, y) \<Longrightarrow> ds_outputs y = ds_outputs x"
    for a and x y :: "'a deno_state" and f :: "('a, 'z) eff" and q
    by (auto simp: run_access_def split: prod.splits)
  from step.hyps(2) step.IH [OF step.prems] show ?case
    by (cases rule: deno_step.cases)
      (auto simp: op_output_def op_read_file_def op_fetch_def module_load_def load_remote_def load_file_def Let_def
        distinct_update dest!: access split: operation_splits)
qed simp

end
