(* ===== verification/Nats.thy ===== *)
theory Nats
  imports Requests Providers
begin

text \<open>
  The lock, queue and lifecycle providers over NATS (\<open>wfe-nats/src\<close>). The client library is a parameter: records of
  the requests that the providers send. What the locks rely on is stated by \<open>kv_store\<close>, from the documentation of
  the key value store. The background tasks are the bodies of their loops; the calls of the processes, the rounds of their heartbeats and
  the passing of time interleave as the steps of \<open>nats_step\<close>, in which a release is the separate requests it consists of.
\<close>

section \<open>Configuration\<close>

datatype nats_auth_config =
    NoAuth
  | Credentials string
  | NatsJwt string string
  | UserPassword string string
  | NatsToken string

record nats_config =
  nc_url :: string
  nc_prefix :: string
  nc_auth :: nats_auth_config
  nc_stream_name :: string
  nc_consumer_name :: string
  nc_kv_bucket :: string
  nc_ack_wait_secs :: u64
  nc_lock_ttl_secs :: u64

definition nats_config_default :: nats_config where
  "nats_config_default =
     \<lparr>nc_url = ''nats://localhost:4222'', nc_prefix = ''wfe'', nc_auth = NoAuth, nc_stream_name = ''wfe'',
      nc_consumer_name = ''wfe'', nc_kv_bucket = ''wfe_locks'', nc_ack_wait_secs = 30, nc_lock_ttl_secs = 30\<rparr>"

definition lf :: string where
  "lf = [char_of (10 :: nat)]"

definition format_credentials :: "string \<Rightarrow> string \<Rightarrow> string" where
  "format_credentials jwt nkey =
     ''-----BEGIN NATS USER JWT-----'' @ lf @ trim jwt @ lf @ ''------END NATS USER JWT------'' @ lf @ lf @
     ''************************* IMPORTANT *************************'' @ lf @
     ''NKEY Seed printed below can be used sign and prove identity.'' @ lf @
     ''NKEYs are sensitive and should be treated as secrets.'' @ lf @ lf @
     ''-----BEGIN USER NKEY SEED-----'' @ lf @ trim nkey @ lf @ ''------END USER NKEY SEED------'' @ lf"

text \<open>The options of a connection and the connection, as the client library makes them.\<close>

record ('w, 'o, 'c) nats_client =
  nt_options :: 'o
  nt_credentials_file :: "string \<Rightarrow> ('w, string + 'o) eff"
  nt_credentials :: "string \<Rightarrow> string + 'o"
  nt_user_password :: "string \<Rightarrow> string \<Rightarrow> 'o"
  nt_token :: "string \<Rightarrow> 'o"
  nt_connect :: "'o \<Rightarrow> string \<Rightarrow> ('w, string + 'c) eff"

definition fail_with :: "(string \<Rightarrow> wfe_error) \<Rightarrow> ('w, string + 'a) eff \<Rightarrow> ('w, 'a res) eff" where
  "fail_with err f w = (case f w of (Inl e, w) \<Rightarrow> (Inl (err e), w) | (Inr x, w) \<Rightarrow> (Inr x, w))"

definition persistence_err :: "string \<Rightarrow> string \<Rightarrow> wfe_error" where
  "persistence_err msg e = Persistence (msg @ e)"

definition connect_options :: "('w, 'o, 'c) nats_client \<Rightarrow> nats_config \<Rightarrow> ('w, 'o res) eff" where
  "connect_options N c w =
     (case nc_auth c of
        NoAuth \<Rightarrow> (Inr (nt_options N), w)
      | Credentials path \<Rightarrow> fail_with (\<lambda>e. Other (''invalid credentials file: '' @ e)) (nt_credentials_file N path) w
      | NatsJwt jwt nkey \<Rightarrow>
          fail_with (\<lambda>e. Other (''invalid jwt/nkey: '' @ e)) (\<lambda>w. (nt_credentials N (format_credentials jwt nkey), w)) w
      | UserPassword user password \<Rightarrow> (Inr (nt_user_password N user password), w)
      | NatsToken token \<Rightarrow> (Inr (nt_token N token), w))"

definition nats_connect :: "('w, 'o, 'c) nats_client \<Rightarrow> nats_config \<Rightarrow> ('w, 'c res) eff" where
  "nats_connect N c =
     try_do (connect_options N c) (\<lambda>opts. fail_with (persistence_err ''nats connect failed: '') (nt_connect N opts (nc_url c)))"

section \<open>Locks\<close>

datatype create_error = AlreadyExists | CreateFailed string

record 'w nats_kv =
  kv_create :: "string \<Rightarrow> string \<Rightarrow> ('w, create_error + unit) eff"
  kv_entry :: "string \<Rightarrow> ('w, string + string option) eff"
  kv_put :: "string \<Rightarrow> string \<Rightarrow> ('w, string + unit) eff"
  kv_delete :: "string \<Rightarrow> ('w, string + unit) eff"

text \<open>A provider that is connected, with the store of its bucket, whose entries live for \<open>lock_ttl_secs\<close>.\<close>

record 'w nats_lock_provider =
  nl_prefix :: string
  nl_instance_id :: string
  nl_kv :: "'w nats_kv"

definition nats_lock_new ::
    "('w, 'o, 'c) nats_client \<Rightarrow> ('c \<Rightarrow> string \<Rightarrow> nat \<Rightarrow> nat \<Rightarrow> ('w, string + 'w nats_kv) eff) \<Rightarrow>
     string \<Rightarrow> nats_config \<Rightarrow> ('w, ('w nats_lock_provider \<times> string list) res) eff" where
  "nats_lock_new N create_key_value uuid c =
     try_do (nats_connect N c) (\<lambda>client.
     try_do (fail_with (persistence_err (''failed to create kv bucket '' @ nc_kv_bucket c @ '': ''))
       (create_key_value client (nc_kv_bucket c) 1 (unat (nc_lock_ttl_secs c)))) (\<lambda>kv.
     lift_res (Inr (\<lparr>nl_prefix = nc_prefix c, nl_instance_id = uuid, nl_kv = kv\<rparr>, []))))"

definition nats_lock_key :: "string \<Rightarrow> string \<Rightarrow> string" where
  "nats_lock_key pre resource = pre @ ''.lock.'' @ resource"

abbreviation key_of :: "'w nats_lock_provider \<Rightarrow> string \<Rightarrow> string" where
  "key_of p resource \<equiv> nats_lock_key (nl_prefix p) resource"

text \<open>The state of a call is the server and the locks that the process refreshes, \<open>held_locks\<close>.\<close>

definition nats_acquire :: "'w nats_lock_provider \<Rightarrow> string \<Rightarrow> ('w \<times> string list, bool res) eff" where
  "nats_acquire p resource = (\<lambda>(w, held).
     case kv_create (nl_kv p) (key_of p resource) (nl_instance_id p) w of
       (Inr _, w) \<Rightarrow> (Inr True, w, List.insert resource held)
     | (Inl AlreadyExists, w) \<Rightarrow> (Inr False, w, held)
     | (Inl (CreateFailed e), w) \<Rightarrow>
         (Inl (LockFailed (''failed to acquire lock for '' @ resource @ '': '' @ e)), w, held))"

text \<open>A release reads the entry, deletes it when it is its own, and then forgets the lock.\<close>

definition release_check :: "'w nats_lock_provider \<Rightarrow> string \<Rightarrow> ('w, bool) eff" where
  "release_check p resource w =
     (case kv_entry (nl_kv p) (key_of p resource) w of
        (Inr (Some holder), w) \<Rightarrow> (holder = nl_instance_id p, w)
      | (Inr None, w) \<Rightarrow> (False, w)
      | (Inl _, w) \<Rightarrow> (False, w))"

definition release_delete :: "'w nats_lock_provider \<Rightarrow> string \<Rightarrow> 'w \<Rightarrow> 'w" where
  "release_delete p resource w = snd (kv_delete (nl_kv p) (key_of p resource) w)"

definition nats_release :: "'w nats_lock_provider \<Rightarrow> string \<Rightarrow> ('w \<times> string list, unit res) eff" where
  "nats_release p resource = (\<lambda>(w, held).
     case release_check p resource w of (own, w) \<Rightarrow>
       (Inr (), if own then release_delete p resource w else w, removeAll resource held))"

definition nats_lock :: "'w nats_lock_provider \<Rightarrow> ('w \<times> string list) lock_provider" where
  "nats_lock p = \<lparr>acquire_lock = nats_acquire p, release_lock = nats_release p\<rparr>"

text \<open>A round of the heartbeat writes every lock that was held when it began.\<close>

definition refresh_lock :: "'w nats_lock_provider \<Rightarrow> string \<Rightarrow> 'w \<Rightarrow> 'w" where
  "refresh_lock p resource w = snd (kv_put (nl_kv p) (key_of p resource) (nl_instance_id p) w)"

definition heartbeat_round :: "'w nats_lock_provider \<Rightarrow> string list \<Rightarrow> 'w \<Rightarrow> 'w" where
  "heartbeat_round p locks w = fold (refresh_lock p) locks w"

definition heartbeat_interval :: "nats_config \<Rightarrow> duration" where
  "heartbeat_interval c = unat (nc_lock_ttl_secs c) * 1000000000 div 3"

section \<open>What the store does\<close>

text \<open>\<open>entries\<close> are the values of the keys with the instant they were written; an entry lives for \<open>ttl\<close>.\<close>

type_synonym 'w kv_view = "'w \<Rightarrow> string \<rightharpoonup> string \<times> date_time"

definition kv_live :: "date_time \<Rightarrow> ('w \<Rightarrow> date_time) \<Rightarrow> 'w kv_view \<Rightarrow> 'w \<Rightarrow> string \<Rightarrow> string option" where
  "kv_live ttl clock entries w k =
     (case entries w k of Some (v, t) \<Rightarrow> if clock w < t + ttl then Some v else None | None \<Rightarrow> None)"

definition kv_store :: "'w nats_kv \<Rightarrow> date_time \<Rightarrow> ('w \<Rightarrow> date_time) \<Rightarrow> 'w kv_view \<Rightarrow> bool" where
  "kv_store K ttl clock entries \<longleftrightarrow> 0 < ttl \<and>
     (\<forall>k v w r w'. kv_create K k v w = (r, w') \<longrightarrow> clock w' = clock w \<and>
        (case r of
           Inr _ \<Rightarrow> kv_live ttl clock entries w k = None \<and> entries w' = (entries w)(k \<mapsto> (v, clock w))
         | Inl AlreadyExists \<Rightarrow> entries w' = entries w
         | Inl (CreateFailed _) \<Rightarrow> entries w' = entries w \<or>
             kv_live ttl clock entries w k = None \<and> entries w' = (entries w)(k \<mapsto> (v, clock w)))) \<and>
     (\<forall>k w r w'. kv_entry K k w = (r, w') \<longrightarrow> clock w' = clock w \<and> entries w' = entries w \<and>
        (case r of
           Inr h \<Rightarrow> (case kv_live ttl clock entries w k of Some v \<Rightarrow> h = Some v | None \<Rightarrow> h = None \<or> h = Some [])
         | Inl _ \<Rightarrow> True)) \<and>
     (\<forall>k v w r w'. kv_put K k v w = (r, w') \<longrightarrow> clock w' = clock w \<and>
        (entries w' = (entries w)(k \<mapsto> (v, clock w)) \<or> isl r \<and> entries w' = entries w)) \<and>
     (\<forall>k w r w'. kv_delete K k w = (r, w') \<longrightarrow> clock w' = clock w \<and>
        (entries w' = (entries w)(k := None) \<or> isl r \<and> entries w' = entries w))"

section \<open>Interleaved calls\<close>

text \<open>
  The processes share a store; \<open>sy_held\<close> and \<open>sy_round\<close> are, per process, the locks it refreshes and those its current
  round has yet to write. A lock is owned by a process from the call that acquires it to the call that releases
  it; a release that found its own entry is deleting until the request is made, and forgetting until the
  lock is taken out of the set. \<open>sy_wrote\<close> are the locks for which a process may have written an entry: its
  acquisition was not refused. Any process may release a lock for which it never wrote an entry, at any time; one
  that did releases it once, while it is the owner.
\<close>

record 'w nats_system =
  sy_world :: 'w
  sy_held :: "string \<Rightarrow> string list"
  sy_round :: "string \<Rightarrow> string list"
  sy_owned :: "(string \<times> string) set"
  sy_wrote :: "(string \<times> string) set"
  sy_deleting :: "(string \<times> string) set"
  sy_forgetting :: "(string \<times> string) set"

definition nats_initial :: "'w \<Rightarrow> (string \<times> string) set \<Rightarrow> 'w nats_system" where
  "nats_initial w written =
     \<lparr>sy_world = w, sy_held = (\<lambda>_. []), sy_round = (\<lambda>_. []), sy_owned = {}, sy_wrote = written, sy_deleting = {}, sy_forgetting = {}\<rparr>"

definition instance_of :: "string \<Rightarrow> 'w nats_kv \<Rightarrow> string \<Rightarrow> 'w nats_lock_provider" where
  "instance_of pre K i = \<lparr>nl_prefix = pre, nl_instance_id = i, nl_kv = K\<rparr>"

text \<open>
  When \<open>timely\<close> is set, the heartbeats are in time: no entry expires while its lock is owned or being deleted.
\<close>

inductive nats_step ::
    "bool \<Rightarrow> date_time \<Rightarrow> ('w \<Rightarrow> date_time) \<Rightarrow> 'w kv_view \<Rightarrow> string \<Rightarrow> 'w nats_kv \<Rightarrow> 'w nats_system \<Rightarrow> 'w nats_system \<Rightarrow> bool"
  for timely ttl clock entries pre K where
  acquire: "nats_acquire (instance_of pre K i) r (sy_world s, sy_held s i) = (b, w, held) \<Longrightarrow>
    nats_step timely ttl clock entries pre K s
      (s\<lparr>sy_world := w, sy_held := (sy_held s)(i := held),
         sy_owned := (if b = Inr True then insert (i, r) (sy_owned s) else sy_owned s),
         sy_wrote := (if b = Inr False then sy_wrote s else insert (i, r) (sy_wrote s))\<rparr>)"
| check: "(i, r) \<in> sy_owned s \<or> (i, r) \<notin> sy_wrote s \<and> i \<noteq> [] \<Longrightarrow> release_check (instance_of pre K i) r (sy_world s) = (own, w) \<Longrightarrow>
    nats_step timely ttl clock entries pre K s
      (s\<lparr>sy_world := w, sy_owned := sy_owned s - {(i, r)},
         sy_deleting := (if own then insert (i, r) (sy_deleting s) else sy_deleting s),
         sy_forgetting := (if own then sy_forgetting s else insert (i, r) (sy_forgetting s))\<rparr>)"
| delete: "(i, r) \<in> sy_deleting s \<Longrightarrow>
    nats_step timely ttl clock entries pre K s
      (s\<lparr>sy_world := release_delete (instance_of pre K i) r (sy_world s), sy_deleting := sy_deleting s - {(i, r)},
         sy_forgetting := insert (i, r) (sy_forgetting s)\<rparr>)"
| forget: "(i, r) \<in> sy_forgetting s \<Longrightarrow>
    nats_step timely ttl clock entries pre K s
      (s\<lparr>sy_held := (sy_held s)(i := removeAll r (sy_held s i)), sy_forgetting := sy_forgetting s - {(i, r)}\<rparr>)"
| round: "nats_step timely ttl clock entries pre K s (s\<lparr>sy_round := (sy_round s)(i := sy_held s i)\<rparr>)"
| refresh: "sy_round s i = r # rs \<Longrightarrow>
    nats_step timely ttl clock entries pre K s
      (s\<lparr>sy_world := refresh_lock (instance_of pre K i) r (sy_world s), sy_round := (sy_round s)(i := rs)\<rparr>)"
| elapse: "clock (sy_world s) \<le> clock w \<Longrightarrow>
    \<forall>k. entries w k = entries (sy_world s) k \<or>
        entries w k = None \<and> (\<forall>v t. entries (sy_world s) k = Some (v, t) \<longrightarrow> t + ttl \<le> clock w) \<Longrightarrow>
    timely \<longrightarrow> (\<forall>i r. (i, r) \<in> sy_owned s \<union> sy_deleting s \<longrightarrow> kv_live ttl clock entries w (nats_lock_key pre r) \<noteq> None) \<Longrightarrow>
    nats_step timely ttl clock entries pre K s (s\<lparr>sy_world := w\<rparr>)"

abbreviation nats_steps where
  "nats_steps timely ttl clock entries pre K \<equiv> (nats_step timely ttl clock entries pre K)\<^sup>*\<^sup>*"

section \<open>Exclusion\<close>

lemma nats_lock_key_eq [simp]: "nats_lock_key pre r = nats_lock_key pre r' \<longleftrightarrow> r = r'"
  by (simp add: nats_lock_key_def)

lemma instance_of_simps [simp]:
  "nl_prefix (instance_of pre K i) = pre" "nl_instance_id (instance_of pre K i) = i" "nl_kv (instance_of pre K i) = K"
  by (simp_all add: instance_of_def)

lemma kv_live_written: "0 < ttl \<Longrightarrow> entries w k = Some (v, clock w) \<Longrightarrow> kv_live ttl clock entries w k = Some v"
  by (simp add: kv_live_def)

lemma kv_live_cong: "entries w k = entries w' k \<Longrightarrow> clock w = clock w' \<Longrightarrow>
   kv_live ttl clock entries w k = kv_live ttl clock entries w' k"
  by (simp add: kv_live_def split: option.splits)

lemma kv_createD:
  assumes "kv_store K ttl clock entries" and "kv_create K k v w = (r, w')"
  shows "clock w' = clock w"
    and "r = Inr u \<Longrightarrow> kv_live ttl clock entries w k = None \<and> entries w' = (entries w)(k \<mapsto> (v, clock w))"
    and "entries w' = entries w \<or> kv_live ttl clock entries w k = None \<and> entries w' = (entries w)(k \<mapsto> (v, clock w))"
  using assms(1)[unfolded kv_store_def, THEN conjunct2, THEN conjunct1, rule_format, OF assms(2)]
  by (auto split: sum.splits create_error.splits)

lemma kv_entryD:
  assumes "kv_store K ttl clock entries" and "kv_entry K k w = (r, w')"
  shows "clock w' = clock w" and "entries w' = entries w"
    and "r = Inr (Some h) \<Longrightarrow> h \<noteq> [] \<Longrightarrow> kv_live ttl clock entries w k = Some h"
  using assms(1)[unfolded kv_store_def, THEN conjunct2, THEN conjunct2, THEN conjunct1, rule_format, OF assms(2)]
  by (auto split: sum.splits option.splits)

lemma kv_putD:
  assumes "kv_store K ttl clock entries" and "kv_put K k v w = (r, w')"
  shows "clock w' = clock w" and "entries w' = (entries w)(k \<mapsto> (v, clock w)) \<or> entries w' = entries w"
  using assms unfolding kv_store_def by blast+

lemma kv_deleteD:
  assumes "kv_store K ttl clock entries" and "kv_delete K k w = (r, w')"
  shows "clock w' = clock w" and "entries w' = (entries w)(k := None) \<or> entries w' = entries w"
  using assms unfolding kv_store_def by blast+

lemma kv_store_ttl: "kv_store K ttl clock entries \<Longrightarrow> 0 < ttl"
  by (simp add: kv_store_def)

text \<open>
  A lock that is owned or being deleted has a live entry, and only one process owns or deletes it. A process that never
  wrote an entry for a lock neither owns nor refreshes it, and no entry names it.
\<close>

abbreviation busy :: "'w nats_system \<Rightarrow> (string \<times> string) set" where
  "busy s \<equiv> sy_owned s \<union> sy_deleting s"

definition nats_inv :: "date_time \<Rightarrow> ('w \<Rightarrow> date_time) \<Rightarrow> 'w kv_view \<Rightarrow> string \<Rightarrow> 'w nats_system \<Rightarrow> bool" where
  "nats_inv ttl clock entries pre s \<longleftrightarrow>
     (\<forall>i r. (i, r) \<in> busy s \<longrightarrow> kv_live ttl clock entries (sy_world s) (nats_lock_key pre r) \<noteq> None) \<and>
     (\<forall>i j r. (i, r) \<in> busy s \<longrightarrow> (j, r) \<in> busy s \<longrightarrow> i = j) \<and> sy_owned s \<inter> sy_deleting s = {}"

definition wrote_inv :: "'w kv_view \<Rightarrow> string \<Rightarrow> 'w nats_system \<Rightarrow> bool" where
  "wrote_inv entries pre s \<longleftrightarrow>
     (\<forall>i r t. entries (sy_world s) (nats_lock_key pre r) = Some (i, t) \<longrightarrow> (i, r) \<in> sy_wrote s) \<and>
     (\<forall>i. set (sy_held s i) \<union> set (sy_round s i) \<subseteq> {r. (i, r) \<in> sy_wrote s})"

lemma acquire_cases:
  assumes "kv_store K ttl clock entries"
    and "nats_acquire (instance_of pre K i) r (w, held) = (b, w', held')"
  shows "clock w' = clock w \<and>
    (entries w' = entries w \<or> kv_live ttl clock entries w (nats_lock_key pre r) = None \<and>
       entries w' = (entries w)(nats_lock_key pre r \<mapsto> (i, clock w)))"
    and "b = Inr True \<Longrightarrow> kv_live ttl clock entries w (nats_lock_key pre r) = None \<and>
       entries w' = (entries w)(nats_lock_key pre r \<mapsto> (i, clock w))"
proof -
  obtain a where "kv_create K (nats_lock_key pre r) i w = (a, w')" and "b = Inr True \<Longrightarrow> a = Inr ()"
    using assms(2) by (auto simp: nats_acquire_def split: prod.splits sum.splits create_error.splits)
  then show "clock w' = clock w \<and>
    (entries w' = entries w \<or> kv_live ttl clock entries w (nats_lock_key pre r) = None \<and>
       entries w' = (entries w)(nats_lock_key pre r \<mapsto> (i, clock w)))"
    and "b = Inr True \<Longrightarrow> kv_live ttl clock entries w (nats_lock_key pre r) = None \<and>
       entries w' = (entries w)(nats_lock_key pre r \<mapsto> (i, clock w))"
    using kv_createD[OF assms(1)] by blast+
qed

lemma release_check_same:
  assumes "kv_store K ttl clock entries" and "release_check (instance_of pre K i) r w = (own, w')"
  shows "clock w' = clock w" and "entries w' = entries w"
  using assms(2) kv_entryD(1,2)[OF assms(1)]
  by (auto simp: release_check_def split: prod.splits sum.splits option.splits)

lemma release_delete_cases:
  assumes "kv_store K ttl clock entries"
  shows "clock (release_delete (instance_of pre K i) r w) = clock w"
    and "k \<noteq> nats_lock_key pre r \<Longrightarrow> entries (release_delete (instance_of pre K i) r w) k = entries w k"
  using kv_deleteD[OF assms prod.collapse[symmetric], of "nats_lock_key pre r" w]
  by (auto simp: release_delete_def)

lemma refresh_lock_cases:
  assumes "kv_store K ttl clock entries"
  shows "clock (refresh_lock (instance_of pre K i) r w) = clock w"
    and "entries (refresh_lock (instance_of pre K i) r w) = (entries w)(nats_lock_key pre r \<mapsto> (i, clock w)) \<or>
      entries (refresh_lock (instance_of pre K i) r w) = entries w"
  using kv_putD[OF assms prod.collapse[symmetric], of "nats_lock_key pre r" i w]
  by (auto simp: refresh_lock_def)

lemma release_check_foreign:
  assumes "kv_store K ttl clock entries" and "release_check (instance_of pre K i) r w = (own, w')" and "i \<noteq> []"
    and "\<forall>t. entries w (nats_lock_key pre r) \<noteq> Some (i, t)"
  shows "\<not> own"
proof
  assume own
  with assms(2) obtain w' where "kv_entry K (nats_lock_key pre r) w = (Inr (Some i), w')"
    by (auto simp: release_check_def split: prod.splits sum.splits option.splits)
  from kv_entryD(3)[OF assms(1) this refl assms(3)] assms(4) show False
    by (auto simp: kv_live_def split: option.splits if_splits)
qed

lemma wrote_inv_step:
  assumes store: "kv_store K ttl clock entries" and "nats_step timely ttl clock entries pre K s s'"
    and inv: "wrote_inv entries pre s"
  shows "wrote_inv entries pre s'"
  using assms(2)
proof cases
  case (acquire i r b w held)
  obtain a where a: "kv_create K (nats_lock_key pre r) i (sy_world s) = (a, w)"
    "b = Inr False \<Longrightarrow> a = Inl AlreadyExists" "b = Inr False \<Longrightarrow> held = sy_held s i" "set held \<subseteq> insert r (set (sy_held s i))"
    using acquire(2) by (auto simp: nats_acquire_def split: prod.splits sum.splits create_error.splits)
  have "b = Inr False \<Longrightarrow> entries w = entries (sy_world s)"
    using a store unfolding kv_store_def by fastforce
  moreover have "entries w = entries (sy_world s) \<or>
      entries w = (entries (sy_world s))(nats_lock_key pre r \<mapsto> (i, clock (sy_world s)))"
    using acquire_cases(1)[OF store acquire(2)] by blast
  moreover have "set held \<subseteq> {q. (i, q) \<in> insert (i, r) (sy_wrote s)}"
    using a(4) inv unfolding wrote_inv_def by blast
  ultimately show ?thesis
    using inv a(3) unfolding wrote_inv_def acquire(1) by (cases "b = Inr False") (auto split: if_splits)
next
  case (check i r own w)
  then show ?thesis using inv release_check_same[OF store check(3)] by (simp add: wrote_inv_def)
next
  case (delete i r)
  then show ?thesis
    using inv kv_deleteD(2)[OF store prod.collapse[symmetric], of "nats_lock_key pre r" "sy_world s"]
    by (auto simp: wrote_inv_def release_delete_def split: if_splits)
next
  case (forget i r)
  then show ?thesis using inv by (auto simp: wrote_inv_def)
next
  case (round i)
  then show ?thesis using inv by (auto simp: wrote_inv_def)
next
  case (refresh i r rs)
  have "set (sy_round s i) \<subseteq> {r. (i, r) \<in> sy_wrote s}" using inv unfolding wrote_inv_def by blast
  then have "(i, r) \<in> sy_wrote s" "set rs \<subseteq> {r. (i, r) \<in> sy_wrote s}" using refresh(2) by auto
  then show ?thesis
    using inv refresh_lock_cases(2)[OF store, of pre i r "sy_world s"]
    unfolding wrote_inv_def refresh(1) by (auto split: if_splits)
next
  case (elapse w)
  then show ?thesis using inv unfolding wrote_inv_def by (simp, metis option.distinct(1))
qed

lemma nats_inv_step:
  assumes store: "kv_store K ttl clock entries" and "nats_step True ttl clock entries pre K s s'"
    and inv: "nats_inv ttl clock entries pre s" and wrote: "wrote_inv entries pre s"
  shows "nats_inv ttl clock entries pre s'"
  using assms(2)
proof cases
  case (acquire i r b w held)
  let ?k = "nats_lock_key pre"
  note cases = acquire_cases[OF store acquire(2)]
  have keep: "kv_live ttl clock entries w k \<noteq> None" if "kv_live ttl clock entries (sy_world s) k \<noteq> None" for k
    using that cases(1) kv_store_ttl[OF store] by (auto simp: kv_live_def split: option.splits if_splits)
  show ?thesis
  proof (cases "b = Inr True")
    case True
    have "(j, r) \<notin> busy s" for j using inv cases(2)[OF True] unfolding nats_inv_def by blast
    moreover have "kv_live ttl clock entries w (?k r) \<noteq> None"
      using cases(1) cases(2)[OF True] kv_store_ttl[OF store] by (simp add: kv_live_def)
    ultimately show ?thesis using inv keep True unfolding nats_inv_def acquire(1) by auto
  next
    case False
    then show ?thesis using inv keep unfolding nats_inv_def acquire(1) by auto
  qed
next
  case (check i r own w)
  have "kv_live ttl clock entries w k = kv_live ttl clock entries (sy_world s) k" for k
    using release_check_same[OF store check(3)] by (intro kv_live_cong) simp_all
  moreover have "\<not> own" if "(i, r) \<notin> sy_owned s"
    using that check(2) wrote release_check_foreign[OF store check(3)] unfolding wrote_inv_def by blast
  moreover from this have "busy s' \<subseteq> busy s" "sy_owned s' \<inter> sy_deleting s' = {}" "sy_world s' = w"
    using inv unfolding nats_inv_def check(1) by (auto split: if_splits)
  ultimately show ?thesis using inv unfolding nats_inv_def by (simp only:) blast
next
  case (delete i r)
  have "kv_live ttl clock entries (sy_world s') k = kv_live ttl clock entries (sy_world s) k" if "k \<noteq> nats_lock_key pre r" for k
    using release_delete_cases[OF store] that unfolding delete(1) by (intro kv_live_cong) simp_all
  moreover have busy: "(j, q) \<in> busy s \<and> q \<noteq> r" if "(j, q) \<in> busy s'" for j q
  proof
    show "(j, q) \<in> busy s" using that unfolding delete(1) by auto
    with inv delete(2) have "q = r \<Longrightarrow> j = i \<and> (i, r) \<notin> sy_owned s" unfolding nats_inv_def by blast
    with that show "q \<noteq> r" unfolding delete(1) by auto
  qed
  ultimately have "kv_live ttl clock entries (sy_world s') (nats_lock_key pre q) \<noteq> None" if "(j, q) \<in> busy s'" for j q
    using inv that unfolding nats_inv_def by (metis nats_lock_key_eq)
  moreover have "sy_owned s' \<inter> sy_deleting s' = {}"
    using inv unfolding nats_inv_def delete(1) by auto
  ultimately show ?thesis using inv busy unfolding nats_inv_def by blast
next
  case (forget i r)
  then show ?thesis using inv by (simp add: nats_inv_def)
next
  case (round i)
  then show ?thesis using inv by (simp add: nats_inv_def)
next
  case (refresh i r rs)
  have "kv_live ttl clock entries (sy_world s') k \<noteq> None" if "kv_live ttl clock entries (sy_world s) k \<noteq> None" for k
    using that refresh_lock_cases[OF store, of pre i r "sy_world s"] kv_store_ttl[OF store]
    unfolding refresh(1) by (auto simp: kv_live_def split: option.splits if_splits)
  then show ?thesis using inv unfolding nats_inv_def refresh(1) by simp
next
  case (elapse w)
  then show ?thesis using inv by (simp add: nats_inv_def)
qed

lemma nats_inv_steps:
  assumes "kv_store K ttl clock entries" and "nats_steps True ttl clock entries pre K s s'"
    and "nats_inv ttl clock entries pre s" and "wrote_inv entries pre s"
  shows "nats_inv ttl clock entries pre s' \<and> wrote_inv entries pre s'"
  using assms(2-4)
  by (induction rule: rtranclp_induct) (auto intro: nats_inv_step[OF assms(1)] wrote_inv_step[OF assms(1)])

lemma nats_inv_initial: "nats_inv ttl clock entries pre (nats_initial w written)"
  by (simp add: nats_inv_def nats_initial_def)

text \<open>
  C11: mutual exclusion over the NATS key value store. The requests of acquisitions, releases and heartbeats of any
  number of processes interleave in any way, and any of them may fail. Locks are released by their owner, or, at
  any time, by processes that never got them and whose id no entry can name. As long as the heartbeats are in
  time (no entry expires while its lock is owned or its owner is about to delete it), at most one process owns a
  resource, and no acquisition of an owned resource succeeds, not even by another task of its owner.
  Independently of this, a release that is not disturbed leaves the store as it is unless the entry names the process.
\<close>

theorem nats_mutual_exclusion:
  assumes "kv_store K ttl clock entries"
    and "\<forall>i r t. entries w (nats_lock_key pre r) = Some (i, t) \<longrightarrow> (i, r) \<in> written"
    and "nats_steps True ttl clock entries pre K (nats_initial w written) s"
    and "(i, r) \<in> sy_owned s"
  shows "((j, r) \<in> sy_owned s \<longrightarrow> j = i) \<and>
    fst (nats_acquire (instance_of pre K j) r (sy_world s, held)) \<noteq> Inr True \<and>
    (\<forall>q v. j \<noteq> [] \<and> kv_live ttl clock entries v (nats_lock_key pre q) \<noteq> Some j \<longrightarrow>
       entries (fst (snd (nats_release (instance_of pre K j) q (v, held)))) = entries v)"
proof -
  have "wrote_inv entries pre (nats_initial w written)"
    using assms(2) by (simp add: wrote_inv_def nats_initial_def)
  then have inv: "nats_inv ttl clock entries pre s"
    using nats_inv_steps[OF assms(1,3) nats_inv_initial] by blast
  then have "(j, r) \<in> sy_owned s \<longrightarrow> j = i"
    using assms(4) unfolding nats_inv_def by blast
  moreover have "kv_live ttl clock entries (sy_world s) (nats_lock_key pre r) \<noteq> None"
    using inv assms(4) unfolding nats_inv_def by blast
  then have "fst (nats_acquire (instance_of pre K j) r (sy_world s, held)) \<noteq> Inr True"
    using acquire_cases(2)[OF assms(1)] by (metis prod.collapse)
  moreover have "entries (fst (snd (nats_release (instance_of pre K j) q (v, held)))) = entries v"
    if "j \<noteq> []" "kv_live ttl clock entries v (nats_lock_key pre q) \<noteq> Some j" for q v
  proof -
    obtain own v' where c: "release_check (instance_of pre K j) q v = (own, v')" by fastforce
    have "\<not> own" using c that kv_entryD(3)[OF assms(1)]
      by (auto simp: release_check_def split: prod.splits sum.splits option.splits)
    then show ?thesis using release_check_same(2)[OF assms(1) c] by (simp add: nats_release_def c)
  qed
  ultimately show ?thesis by blast
qed

section \<open>A store\<close>

record kv_memory =
  km_clock :: date_time
  km_entries :: "string \<rightharpoonup> string \<times> date_time"

definition km_ttl :: date_time where
  "km_ttl = 30"

definition memory_kv :: "kv_memory nats_kv" where
  "memory_kv =
     \<lparr>kv_create = (\<lambda>k v w. case kv_live km_ttl km_clock km_entries w k of
         Some _ \<Rightarrow> (Inl AlreadyExists, w) | None \<Rightarrow> (Inr (), w\<lparr>km_entries := (km_entries w)(k \<mapsto> (v, km_clock w))\<rparr>)),
      kv_entry = (\<lambda>k w. (Inr (kv_live km_ttl km_clock km_entries w k), w)),
      kv_put = (\<lambda>k v w. (Inr (), w\<lparr>km_entries := (km_entries w)(k \<mapsto> (v, km_clock w))\<rparr>)),
      kv_delete = (\<lambda>k w. (Inr (), w\<lparr>km_entries := (km_entries w)(k := None)\<rparr>))\<rparr>"

lemma memory_kv_store: "kv_store memory_kv km_ttl km_clock km_entries"
  by (auto simp: kv_store_def memory_kv_def km_ttl_def split: option.splits)

abbreviation memory_steps :: "bool \<Rightarrow> kv_memory nats_system \<Rightarrow> kv_memory nats_system \<Rightarrow> bool" where
  "memory_steps timely \<equiv> nats_steps timely km_ttl km_clock km_entries ''wfe'' memory_kv"

definition start_system :: "kv_memory nats_system" where
  "start_system = nats_initial \<lparr>km_clock = 0, km_entries = Map.empty\<rparr> {}"

text \<open>Schedules of calls on the resource \<open>job\<close>, executed.\<close>

datatype lock_move = MAcquire string | MCheck string | MDelete string | MForget string | MRound string | MRefresh string | MWait nat

fun move :: "bool \<Rightarrow> lock_move \<Rightarrow> kv_memory nats_system \<Rightarrow> kv_memory nats_system option" where
  "move timely (MAcquire i) s =
     (case nats_acquire (instance_of ''wfe'' memory_kv i) ''job'' (sy_world s, sy_held s i) of (b, w, held) \<Rightarrow>
        Some (s\<lparr>sy_world := w, sy_held := (sy_held s)(i := held),
          sy_owned := (if b = Inr True then insert (i, ''job'') (sy_owned s) else sy_owned s),
          sy_wrote := (if b = Inr False then sy_wrote s else insert (i, ''job'') (sy_wrote s))\<rparr>))"
| "move timely (MCheck i) s =
     (case release_check (instance_of ''wfe'' memory_kv i) ''job'' (sy_world s) of (own, w) \<Rightarrow>
        if (i, ''job'') \<in> sy_owned s \<or> (i, ''job'') \<notin> sy_wrote s \<and> i \<noteq> []
        then Some (s\<lparr>sy_world := w, sy_owned := sy_owned s - {(i, ''job'')},
          sy_deleting := (if own then insert (i, ''job'') (sy_deleting s) else sy_deleting s),
          sy_forgetting := (if own then sy_forgetting s else insert (i, ''job'') (sy_forgetting s))\<rparr>)
        else None)"
| "move timely (MDelete i) s =
     (if (i, ''job'') \<in> sy_deleting s
      then Some (s\<lparr>sy_world := release_delete (instance_of ''wfe'' memory_kv i) ''job'' (sy_world s),
        sy_deleting := sy_deleting s - {(i, ''job'')}, sy_forgetting := insert (i, ''job'') (sy_forgetting s)\<rparr>)
      else None)"
| "move timely (MForget i) s =
     (if (i, ''job'') \<in> sy_forgetting s
      then Some (s\<lparr>sy_held := (sy_held s)(i := removeAll ''job'' (sy_held s i)), sy_forgetting := sy_forgetting s - {(i, ''job'')}\<rparr>)
      else None)"
| "move timely (MRound i) s = Some (s\<lparr>sy_round := (sy_round s)(i := sy_held s i)\<rparr>)"
| "move timely (MRefresh i) s =
     (case sy_round s i of
        r # rs \<Rightarrow> Some (s\<lparr>sy_world := refresh_lock (instance_of ''wfe'' memory_kv i) r (sy_world s), sy_round := (sy_round s)(i := rs)\<rparr>)
      | [] \<Rightarrow> None)"
| "move timely (MWait n) s =
     (if timely then None else Some (s\<lparr>sy_world := (sy_world s)\<lparr>km_clock := km_clock (sy_world s) + int n\<rparr>\<rparr>))"

fun moves :: "bool \<Rightarrow> lock_move list \<Rightarrow> kv_memory nats_system \<Rightarrow> kv_memory nats_system option" where
  "moves timely [] s = Some s"
| "moves timely (m # ms) s = (case move timely m s of None \<Rightarrow> None | Some s \<Rightarrow> moves timely ms s)"

lemma move_step:
  assumes "move timely m s = Some s'"
  shows "nats_step timely km_ttl km_clock km_entries ''wfe'' memory_kv s s'"
proof (cases m)
  case (MAcquire i)
  obtain b w held where "nats_acquire (instance_of ''wfe'' memory_kv i) ''job'' (sy_world s, sy_held s i) = (b, w, held)"
    by (metis prod_cases3)
  with nats_step.acquire[OF this] show ?thesis using assms MAcquire by simp
next
  case (MCheck i)
  obtain own w where "release_check (instance_of ''wfe'' memory_kv i) ''job'' (sy_world s) = (own, w)"
    by fastforce
  moreover from this have "(i, ''job'') \<in> sy_owned s \<or> (i, ''job'') \<notin> sy_wrote s \<and> i \<noteq> []"
    using assms MCheck by (simp split: if_splits)
  ultimately show ?thesis
    using nats_step.check[of i "''job''" s "''wfe''" memory_kv own w] assms MCheck by simp
qed (use assms in \<open>auto intro: nats_step.intros split: if_splits list.splits\<close>)

lemma moves_steps: "moves timely ms s = Some s' \<Longrightarrow> memory_steps timely s s'"
  by (induction timely ms s rule: moves.induct)
    (auto intro: converse_rtranclp_into_rtranclp move_step split: option.splits)

lemma moves_reach: "moves timely ms s \<noteq> None \<Longrightarrow> memory_steps timely s (the (moves timely ms s))"
  using moves_steps by auto

theorem nats_mutual_exclusion_witness:
  "(''a'', ''job'') \<in> sy_owned (the (moves True [MAcquire ''a''] start_system)) \<and>
   fst (nats_acquire (instance_of ''wfe'' memory_kv ''b'') ''job''
     (sy_world (the (moves True [MAcquire ''a''] start_system)), [])) \<noteq> Inr True"
proof -
  have "(''a'', ''job'') \<in> sy_owned (the (moves True [MAcquire ''a''] start_system))" by code_simp
  moreover have "memory_steps True start_system (the (moves True [MAcquire ''a''] start_system))"
    by (rule moves_reach) code_simp
  ultimately show ?thesis
    using nats_mutual_exclusion[OF memory_kv_store, of "\<lparr>km_clock = 0, km_entries = Map.empty\<rparr>"]
    unfolding start_system_def by (simp only: kv_memory.select_convs) blast
qed

text \<open>A heartbeat that is late: the entry expires, and a second process owns the lock as well.\<close>

lemma late_heartbeat_two_owners:
  "\<exists>s. memory_steps False start_system s \<and> {(''a'', ''job''), (''b'', ''job'')} \<subseteq> sy_owned s"
proof (intro exI conjI)
  let ?ms = "[MAcquire ''a'', MWait 30, MAcquire ''b'']"
  show "memory_steps False start_system (the (moves False ?ms start_system))"
    by (rule moves_reach) code_simp
  show "{(''a'', ''job''), (''b'', ''job'')} \<subseteq> sy_owned (the (moves False ?ms start_system))"
    by code_simp
qed

text \<open>
  A round of the heartbeat that began before a release writes the entry after it was deleted: nobody owns the lock
  or refreshes it, and until the entry expires nobody can acquire it.
\<close>

lemma released_lock_stays_taken:
  "\<exists>s. memory_steps True start_system s \<and> busy s = {} \<and> sy_held s ''a'' = [] \<and>
     kv_live km_ttl km_clock km_entries (sy_world s) (nats_lock_key ''wfe'' ''job'') = Some ''a''"
proof (intro exI conjI)
  let ?ms = "[MAcquire ''a'', MRound ''a'', MCheck ''a'', MDelete ''a'', MForget ''a'', MRefresh ''a'']"
  show "memory_steps True start_system (the (moves True ?ms start_system))"
    by (rule moves_reach) code_simp
  show "busy (the (moves True ?ms start_system)) = {}" "sy_held (the (moves True ?ms start_system)) ''a'' = []"
    "kv_live km_ttl km_clock km_entries (sy_world (the (moves True ?ms start_system))) (nats_lock_key ''wfe'' ''job'') = Some ''a''"
    by code_simp+
qed

text \<open>
  A release forgets the lock after it deleted the entry: when another task of the process acquires the lock in
  between, the lock is owned but no longer refreshed.
\<close>

lemma reacquired_lock_not_refreshed:
  "\<exists>s. memory_steps True start_system s \<and> (''a'', ''job'') \<in> sy_owned s \<and> sy_held s ''a'' = []"
proof (intro exI conjI)
  let ?ms = "[MAcquire ''a'', MCheck ''a'', MDelete ''a'', MAcquire ''a'', MForget ''a'']"
  show "memory_steps True start_system (the (moves True ?ms start_system))"
    by (rule moves_reach) code_simp
  show "(''a'', ''job'') \<in> sy_owned (the (moves True ?ms start_system))"
    "sy_held (the (moves True ?ms start_system)) ''a'' = []"
    by code_simp+
qed

section \<open>Queues\<close>

text \<open>The requests to the streams; a stream and a consumer are named.\<close>

record ('w, 'm) jetstream =
  js_get_or_create_stream :: "string \<Rightarrow> string list \<Rightarrow> ('w, string + unit) eff"
  js_get_stream :: "string \<Rightarrow> ('w, string + unit) eff"
  js_get_or_create_consumer :: "string \<Rightarrow> string \<Rightarrow> string option \<Rightarrow> string \<Rightarrow> nat \<Rightarrow> ('w, string + unit) eff"
  js_get_consumer :: "string \<Rightarrow> string \<Rightarrow> ('w, string + unit) eff"
  js_messages :: "string \<Rightarrow> string \<Rightarrow> ('w, string + unit) eff"
  js_publish :: "string \<Rightarrow> string \<Rightarrow> ('w, string + unit) eff"
  js_payload :: "'m \<Rightarrow> string + string"
  js_ack :: "'m \<Rightarrow> ('w, string + unit) eff"

definition CHANNEL_CAPACITY :: nat where
  "CHANNEL_CAPACITY = 256"

fun nats_queue_type_str :: "queue_type \<Rightarrow> string" where
  "nats_queue_type_str QWorkflow = ''workflow''"
| "nats_queue_type_str QEvent = ''event''"
| "nats_queue_type_str QIndex = ''index''"

definition queue_subject :: "queue_type \<Rightarrow> string \<Rightarrow> string" where
  "queue_subject t pre = pre @ ''.queue.'' @ nats_queue_type_str t"

definition stream_name :: "queue_type \<Rightarrow> string \<Rightarrow> string" where
  "stream_name t base = base @ ''_'' @ nats_queue_type_str t"

definition consumer_name :: "queue_type \<Rightarrow> string \<Rightarrow> string \<Rightarrow> string" where
  "consumer_name t base instance_id = base @ ''_'' @ nats_queue_type_str t @ ''_'' @ instance_id"

definition deliver_subject :: "queue_type \<Rightarrow> string \<Rightarrow> string \<Rightarrow> string" where
  "deliver_subject t pre instance_id = pre @ ''.delivery.'' @ nats_queue_type_str t @ ''.'' @ instance_id"

definition ensure_stream_and_consumer ::
    "('w, 'm) jetstream \<Rightarrow> nats_config \<Rightarrow> queue_type \<Rightarrow> string \<Rightarrow> ('w, unit res) eff" where
  "ensure_stream_and_consumer J c t instance_id =
     (let stream = stream_name t (nc_stream_name c); consumer = consumer_name t (nc_consumer_name c) instance_id in
      try_do (fail_with (persistence_err (''failed to create stream '' @ stream @ '': ''))
        (js_get_or_create_stream J stream [queue_subject t (nc_prefix c)])) (\<lambda>_.
      try_do (fail_with (persistence_err (''failed to get stream '' @ stream @ '': '')) (js_get_stream J stream)) (\<lambda>_.
      fail_with (persistence_err (''failed to create consumer '' @ consumer @ '': ''))
        (js_get_or_create_consumer J stream consumer (Some consumer) (deliver_subject t (nc_prefix c) instance_id)
          (unat (nc_ack_wait_secs c))))))"

fun for_each :: "('a \<Rightarrow> ('s, unit res) eff) \<Rightarrow> 'a list \<Rightarrow> ('s, unit res) eff" where
  "for_each f [] = lift_res (Inr ())"
| "for_each f (x # xs) = try_do (f x) (\<lambda>_. for_each f xs)"

definition queue_types :: "queue_type list" where
  "queue_types = [QWorkflow, QEvent, QIndex]"

record ('w, 'm) nats_queue_provider =
  nq_jetstream :: "('w, 'm) jetstream"
  nq_config :: nats_config
  nq_instance_id :: string

text \<open>The channels between the consumers and \<open>dequeue_work\<close>, and the queues whose consumer runs.\<close>

record 'w queue_state =
  qs_world :: 'w
  qs_channels :: "queue_type \<Rightarrow> string list"
  qs_consumers :: "queue_type list"

definition nats_queue_new ::
    "('w, 'o, 'c) nats_client \<Rightarrow> ('c \<Rightarrow> ('w, 'm) jetstream) \<Rightarrow> string \<Rightarrow> nats_config \<Rightarrow>
     'w \<Rightarrow> ('w, 'm) nats_queue_provider res \<times> 'w queue_state" where
  "nats_queue_new N jetstream_of uuid c w =
     (case try_do (nats_connect N c) (\<lambda>client.
         try_do (for_each (\<lambda>t. ensure_stream_and_consumer (jetstream_of client) c t uuid) queue_types)
           (\<lambda>_. lift_res (Inr \<lparr>nq_jetstream = jetstream_of client, nq_config = c, nq_instance_id = uuid\<rparr>))) w of
        (r, w) \<Rightarrow> (r, \<lparr>qs_world = w, qs_channels = (\<lambda>_. []), qs_consumers = []\<rparr>))"

definition on_server :: "('w, 'a) eff \<Rightarrow> ('w queue_state, 'a) eff" where
  "on_server f s = (case f (qs_world s) of (r, w) \<Rightarrow> (r, s\<lparr>qs_world := w\<rparr>))"

definition consumer_for_queue :: "('w, 'm) nats_queue_provider \<Rightarrow> queue_type \<Rightarrow> ('w, unit res) eff" where
  "consumer_for_queue p t =
     (let c = nq_config p; stream = stream_name t (nc_stream_name c);
          consumer = consumer_name t (nc_consumer_name c) (nq_instance_id p) in
      try_do (fail_with (persistence_err (''failed to get stream '' @ stream @ '': '')) (js_get_stream (nq_jetstream p) stream)) (\<lambda>_.
      fail_with (persistence_err (''failed to get consumer '' @ consumer @ '': '')) (js_get_consumer (nq_jetstream p) stream consumer)))"

text \<open>\<open>debug_queue_type\<close> is the derived \<open>Debug\<close> of the type.\<close>

fun debug_queue_type :: "queue_type \<Rightarrow> string" where
  "debug_queue_type QWorkflow = ''Workflow''"
| "debug_queue_type QEvent = ''Event''"
| "debug_queue_type QIndex = ''Index''"

definition spawn_consumer_task :: "('w, 'm) nats_queue_provider \<Rightarrow> queue_type \<Rightarrow> ('w queue_state, unit res) eff" where
  "spawn_consumer_task p t =
     try_do (on_server (consumer_for_queue p t)) (\<lambda>_.
     try_do (on_server (fail_with (persistence_err (''failed to start message stream for '' @ debug_queue_type t @ '': ''))
       (js_messages (nq_jetstream p) (stream_name t (nc_stream_name (nq_config p)))
         (consumer_name t (nc_consumer_name (nq_config p)) (nq_instance_id p))))) (\<lambda>_ s.
     (Inr (), s\<lparr>qs_consumers := qs_consumers s @ [t]\<rparr>)))"

definition nats_queue_start :: "('w, 'm) nats_queue_provider \<Rightarrow> ('w queue_state, unit res) eff" where
  "nats_queue_start p = for_each (spawn_consumer_task p) queue_types"

definition nats_queue_stop :: "'w queue_state \<Rightarrow> 'w queue_state" where
  "nats_queue_stop s = s\<lparr>qs_consumers := []\<rparr>"

text \<open>The body of the loop of a consumer task; it tells whether the loop goes on.\<close>

datatype 'm delivery = Message 'm | SubscriberError string | StreamEnded

fun consume :: "('w, 'm) jetstream \<Rightarrow> queue_type \<Rightarrow> 'm delivery \<Rightarrow> ('w queue_state, bool) eff" where
  "consume J t (Message m) s =
     (case js_payload J m of
        Inl _ \<Rightarrow> (True, s)
      | Inr i \<Rightarrow>
          if length (qs_channels s t) \<ge> CHANNEL_CAPACITY then (True, s)
          else (True, snd (on_server (js_ack J m) (s\<lparr>qs_channels := (qs_channels s)(t := qs_channels s t @ [i])\<rparr>))))"
| "consume J t (SubscriberError _) s = (True, s)"
| "consume J t StreamEnded s = (False, s)"

definition nats_queue_work :: "('w, 'm) nats_queue_provider \<Rightarrow> string \<Rightarrow> queue_type \<Rightarrow> ('w queue_state, unit res) eff" where
  "nats_queue_work p i t =
     on_server (fail_with (persistence_err ''failed to publish: '')
       (js_publish (nq_jetstream p) (queue_subject t (nc_prefix (nq_config p))) i))"

text \<open>\<open>None\<close> when nothing arrives before the timeout, as in an empty channel.\<close>

definition nats_dequeue_work :: "queue_type \<Rightarrow> ('w queue_state, string option res) eff" where
  "nats_dequeue_work t s =
     (case qs_channels s t of
        [] \<Rightarrow> (Inr None, s)
      | i # is \<Rightarrow> (Inr (Some i), s\<lparr>qs_channels := (qs_channels s)(t := is)\<rparr>))"

definition nats_queue :: "('w, 'm) nats_queue_provider \<Rightarrow> 'w queue_state queue_provider" where
  "nats_queue p = \<lparr>queue_work = nats_queue_work p, dequeue_work = nats_dequeue_work\<rparr>"

section \<open>Lifecycle events\<close>

definition instance_subject :: "string \<Rightarrow> string \<Rightarrow> string" where
  "instance_subject pre i = pre @ ''.lifecycle.'' @ i"

definition all_subject :: "string \<Rightarrow> string" where
  "all_subject pre = pre @ ''.lifecycle.all''"

definition wildcard_subject :: "string \<Rightarrow> string" where
  "wildcard_subject pre = pre @ ''.lifecycle.>''"

text \<open>The state is the server and what was sent on the local channel.\<close>

definition publish_one ::
    "('w, string + unit) deadline \<Rightarrow> (string \<Rightarrow> string \<Rightarrow> ('w, string + unit) eff) \<Rightarrow> string \<Rightarrow> string \<Rightarrow> ('w, unit res) eff" where
  "publish_one timed send payload subject w =
     (case timed 5000 (send subject payload) w of
        (Some (Inr _), w) \<Rightarrow> (Inr (), w)
      | (Some (Inl e), w) \<Rightarrow> (Inl (Persistence (''failed to publish lifecycle event: '' @ e)), w)
      | (None, w) \<Rightarrow> (Inl (Persistence ''lifecycle event publish timed out''), w))"

definition nats_publish ::
    "('w, string + unit) deadline \<Rightarrow> (string \<Rightarrow> string \<Rightarrow> ('w, string + unit) eff) \<Rightarrow> (lifecycle_event \<Rightarrow> string + string) \<Rightarrow>
     string \<Rightarrow> lifecycle_event \<Rightarrow> ('w \<times> lifecycle_event list, unit res) eff" where
  "nats_publish timed send text_of pre e = (\<lambda>(w, sent).
     case text_of e of
       Inl m \<Rightarrow> (Inl (Serialization m), w, sent)
     | Inr payload \<Rightarrow>
         (case for_each (publish_one timed send payload)
             [instance_subject pre (le_workflow_instance_id e), all_subject pre] w of
            (Inl err, w) \<Rightarrow> (Inl err, w, sent)
          | (Inr _, w) \<Rightarrow> (Inr (), w, sent @ [e])))"

text \<open>The body of the subscriber's loop.\<close>

definition bridge :: "(string \<Rightarrow> string + lifecycle_event) \<Rightarrow> string \<Rightarrow> lifecycle_event list \<Rightarrow> lifecycle_event list" where
  "bridge of_text payload sent = (case of_text payload of Inl _ \<Rightarrow> sent | Inr e \<Rightarrow> sent @ [e])"

section \<open>What the queues and events do\<close>

lemma consume_channels:
  "consume J t d s = (b, s') \<Longrightarrow>
   qs_channels s' = qs_channels s \<or>
   (\<exists>m i. d = Message m \<and> js_payload J m = Inr i \<and> length (qs_channels s t) < CHANNEL_CAPACITY \<and>
      qs_world s' = snd (js_ack J m (qs_world s)) \<and> qs_channels s' = (qs_channels s)(t := qs_channels s t @ [i]))"
  by (cases d) (auto simp: on_server_def split: sum.splits if_splits prod.splits)

text \<open>
  A consumer and the readers of a channel, with the identifiers that the consumer acknowledged and those that were
  read: whatever was acknowledged is read, in the order of the acknowledgements, or still in the channel, which
  never exceeds its capacity. A message that finds the channel full is not acknowledged.
\<close>

inductive queue_run :: "('w, 'm) jetstream \<Rightarrow> queue_type \<Rightarrow> 'w queue_state \<Rightarrow> string list \<Rightarrow> string list \<Rightarrow> bool" for J t where
  started: "qs_channels s t = [] \<Longrightarrow> queue_run J t s [] []"
| deliver: "queue_run J t s acked out \<Longrightarrow> consume J t d s = (b, s') \<Longrightarrow>
    queue_run J t s'
      (acked @ (case d of Message m \<Rightarrow> if qs_channels s' t \<noteq> qs_channels s t then [projr (js_payload J m)] else [] | _ \<Rightarrow> [])) out"
| dequeue: "queue_run J t s acked out \<Longrightarrow> nats_dequeue_work t s = (Inr r, s') \<Longrightarrow>
    queue_run J t s' acked (out @ (case r of None \<Rightarrow> [] | Some i \<Rightarrow> [i]))"

lemma queue_run_complete:
  "queue_run J t s acked out \<Longrightarrow> acked = out @ qs_channels s t \<and> length (qs_channels s t) \<le> CHANNEL_CAPACITY"
proof (induction rule: queue_run.induct)
  case (deliver s acked out d b s')
  from consume_channels[OF deliver.hyps(2)] show ?case
  proof
    assume "qs_channels s' = qs_channels s"
    then show ?thesis using deliver.IH by (simp split: delivery.splits)
  next
    assume "\<exists>m i. d = Message m \<and> js_payload J m = Inr i \<and> length (qs_channels s t) < CHANNEL_CAPACITY \<and>
      qs_world s' = snd (js_ack J m (qs_world s)) \<and> qs_channels s' = (qs_channels s)(t := qs_channels s t @ [i])"
    then show ?thesis using deliver.IH by (elim exE conjE) simp
  qed
next
  case (dequeue s acked out r s')
  then show ?case by (auto simp: nats_dequeue_work_def split: list.splits)
qed simp

text \<open>
  Every process has a consumer of its own on the shared stream, and a subject of its own to which it is delivered: an
  identifier that is queued once is delivered to every process.
\<close>

lemma consumer_per_instance:
  "i \<noteq> j \<Longrightarrow> consumer_name t base i \<noteq> consumer_name t base j \<and> deliver_subject t pre i \<noteq> deliver_subject t pre j"
  by (simp add: consumer_name_def deliver_subject_def)

lemma stream_name_eq [simp]: "stream_name t base = stream_name t' base \<longleftrightarrow> t = t'"
  by (cases t; cases t') (simp_all add: stream_name_def)

text \<open>A subject matches a pattern that ends in \<open>>\<close> when it continues the part before.\<close>

definition matches_tail :: "string \<Rightarrow> string \<Rightarrow> bool" where
  "matches_tail pattern subject \<longleftrightarrow>
     (case strip_prefix_str (butlast pattern) subject of Some rest \<Rightarrow> rest \<noteq> [] | None \<Rightarrow> False)"

lemma wildcard_matches_both:
  "matches_tail (wildcard_subject pre) (all_subject pre)"
  "i \<noteq> [] \<Longrightarrow> matches_tail (wildcard_subject pre) (instance_subject pre i)"
  by (simp_all add: matches_tail_def wildcard_subject_def all_subject_def instance_subject_def butlast_append
      strip_prefix_str_def)

text \<open>
  An event that is published reaches the subscribers of its own process three times: through the subscription, which
  matches both subjects, and through the local channel.
\<close>

lemma event_seen_three_times:
  assumes "text_of e = Inr payload" and "of_text payload = Inr e" and "le_workflow_instance_id e \<noteq> []"
    and "nats_publish timed send text_of pre e (w, []) = (Inr (), w', sent)"
  shows "fold (\<lambda>(subject, payload) sent. if matches_tail (wildcard_subject pre) subject then bridge of_text payload sent else sent)
    [(instance_subject pre (le_workflow_instance_id e), payload), (all_subject pre, payload)] sent = [e, e, e]"
  using assms wildcard_matches_both
  by (auto simp: nats_publish_def bridge_def split: prod.splits sum.splits)

end
