(* ===== verification/Spec2Isabelle.thy ===== *)
theory Spec2Isabelle
  imports Host_Correct Builder Pointer_Ids Definitions Schema Yaml_Load Sqlite_Correct Postgres_Correct
    Postgres_Schema Artifacts Webhook Grpc Valkey Shell
    Kubernetes Containerd Git_Repo Rust_Tools Buildkit Deno Nats
begin

text \<open>
  A verification of the workflow engine \<open>wfe\<close>.

  \<^bold>\<open>The program.\<close> A workflow is a graph of steps, the \<^emph>\<open>definition\<close>. A running copy of it, the
  \<^emph>\<open>instance\<close>, keeps its data and a list of \<^emph>\<open>execution pointers\<close>, each of which is at one step of the
  definition. Definitions come from the fluent builder (\<open>wfe-core/src/builder\<close>) or from YAML files
  (\<open>wfe-yaml/src\<close>), which are interpolated, merged with their includes, validated and compiled.
  The host (\<open>wfe/src/host.rs\<close>) keeps a registry of definitions, stores a new instance through a
  persistence provider, and puts its id into a work queue. A consumer takes the id and calls the
  executor (\<open>wfe-core/src/executor\<close>), which locks the instance, runs the body of every runnable
  pointer's step, applies the result or the error behaviour to the pointer, persists the instance and
  queues it again while there is something to do. Events that are published reach the pointers that
  subscribed to them. The persistence providers (in memory, SQLite, PostgreSQL) stand behind one trait.

  \<^bold>\<open>Conventions.\<close> A Rust struct is a record with a two letter field prefix, an enum a datatype, \<open>Result\<close>
  the sum \<open>wfe_error + 'a\<close> (type \<open>res\<close>), a trait object a record of functions. A method with an effect
  passes the world explicitly: \<open>('w, 'a) eff\<close> is \<open>'w \<Rightarrow> 'a \<times> 'w\<close>, and the world is arbitrary except
  where a theorem names the in-memory or a database world. Hash maps are finite maps or association
  lists; where the iteration order of a hash container can be observed, the order is a parameter
  (locale \<open>hash_order\<close>). Counters and durations that can wrap keep their width. Calls that only log are
  left out. Strings are lists of characters; the operations of the standard library that depend on
  Unicode tables (white space, case) are modelled on ASCII.

  \<^bold>\<open>The core.\<close>
  \<^item> \<open>Prelude\<close>: machine types, the string operations of the standard library, loops that stop at the first
    error, generic lemmas. \<open>Json\<close>: the values of \<open>serde_json\<close>, with numbers as the three variants of the
    library and the conversions to \<open>f64\<close> the sources use.
  \<^item> \<open>Models\<close> (\<open>models/*.rs\<close>, \<open>error.rs\<close>): instances, pointers, definitions, events, results, errors.
    \<open>Schema\<close> (\<open>models/schema.rs\<close>, \<open>wfe-yaml/src/types.rs\<close>): the two parsers of type strings agree and are
    inverse to the printer; value validation meets a typing relation.
    \<open>Condition\<close> (\<open>executor/condition.rs\<close>): the short-circuiting evaluator computes the formula.
  \<^item> \<open>Providers\<close> (\<open>traits/*.rs\<close>) has the traits and the locales \<open>lock_contract\<close>, \<open>queue_contract\<close>,
    \<open>workflow_repository\<close> and \<open>uuid_source\<close>, which say what the executor relies on; \<open>InMemory\<close>
    (\<open>test_support/in_memory_*.rs\<close>) interprets them.
  \<^item> \<open>Result_Processor\<close> (\<open>executor/result_processor.rs\<close>, \<open>error_handler.rs\<close>): routing, branching, retries,
    compensation. \<open>Executor\<close> (\<open>executor/workflow_executor.rs\<close>, \<open>step_registry.rs\<close>, parts of
    \<open>artifact_volume.rs\<close>): one pass over an instance. \<open>Executor_Correct\<close>: the locale \<open>executor_backend\<close>
    collects the contracts; no instance is lost, locks are released, only runnable pointers move.
    \<open>Definitions\<close>: a well-formed definition is never left. \<open>Pointer_Ids\<close>: ids stay distinct.
  \<^item> \<open>Primitives\<close> (\<open>primitives/*.rs\<close>): every built-in step. \<open>Builder\<close> (\<open>builder/*.rs\<close>): locale
    \<open>builder_method\<close>, interpreted for each method; definitions built by any chain of calls, inside the closures
    too, are well formed when outcomes wired by hand lead to existing steps.
  \<^item> \<open>Host\<close>, \<open>Host_Correct\<close> (\<open>wfe/src/host.rs\<close>, \<open>host_builder.rs\<close>, \<open>registry.rs\<close>): the public operations and
    the bodies of the consumers.

  \<^bold>\<open>The YAML front end\<close> (\<open>wfe-yaml/src\<close>).
  \<^item> \<open>Yaml_Spec\<close> (\<open>schema.rs\<close>), \<open>Yaml_Validation\<close> and \<open>Yaml_References\<close> (\<open>validation.rs\<close>): what is accepted, as an
    equivalence where steps have a type and references are to workflows of the file; the depth-first search for cycles is given as many units of fuel as there are nodes
    and is shown never to run out of it, since every call blackens or greys a white node.
  \<^item> \<open>Yaml_Config\<close>, \<open>Yaml_Compiler\<close>, \<open>Yaml_Compiler_Correct\<close> (\<open>compiler.rs\<close> and the configuration types):
    compiled definitions are well formed and each step finds the body built from its configuration.
  \<^item> \<open>Yaml_Load\<close> (\<open>lib.rs\<close>, \<open>interpolation.rs\<close>): the loader. The YAML parser and the file system are
    parameters (\<open>loader_env\<close>); fuel above the number of canonical paths suffices, because no file is
    read twice.

  \<^bold>\<open>Persistence.\<close> \<open>Store\<close> states the trait as an abstract store of finite maps with a specification
  \<open>spec_op\<close> of each operation, and the locale \<open>persistence_contract\<close>: a view, an invariant and the
  commuting diagram; what a sequence of calls does is proved once there. The in-memory provider
  interprets it in \<open>Store\<close>, the SQLite provider (\<open>Sqlite\<close>, from \<open>wfe-sqlite/src/lib.rs\<close>) in
  \<open>Sqlite_Correct\<close>, the PostgreSQL provider (\<open>Postgres\<close>, from \<open>wfe-postgres/src/lib.rs\<close>) in
  \<open>Postgres_Correct\<close>. \<open>Tables\<close> has what the two share (locale \<open>instance_tables\<close>). The databases are parameters
  to this extent: the text form of JSON values and instants, the order of the rows of an answer (no
  query has an \<open>ORDER BY\<close>), and the messages of the driver; the named hypotheses are that every row is
  visited once and that the values of a call survive their columns. \<open>Postgres_Schema\<close> models the layout
  options and the prefixed migrations, with the digest and the effect of a script as parameters.

  \<^bold>\<open>Artifacts\<close> (\<open>local_artifact_store.rs\<close>, \<open>artifact_volume.rs\<close>). \<open>Artifacts\<close> models the blob store on a file
  system in which every operation may fail, so that a call can stop half-way. The locale
  \<open>content_addressed\<close> says what such a store promises: a blob is the content its name is the hash of.

  \<^bold>\<open>The server\<close> (\<open>wfe-server/src\<close>). \<open>Server_Auth\<close> (\<open>config.rs\<close>, \<open>auth.rs\<close>): which calls are let through.
  \<open>Webhook\<close> (\<open>webhook.rs\<close>): signatures, and what a forwarded event does to the host. \<open>Grpc\<close> (\<open>grpc.rs\<close>,
  \<open>log_store.rs\<close>): the calls as operations on the host, the conversion of values, the log history.
  Cryptography (HMAC, JWT signatures), HTTP and the TOML and JSON texts are parameters.

  \<^bold>\<open>Locks and queues over Valkey\<close> (\<open>wfe-valkey/src\<close>). \<open>Valkey\<close> states what the server's commands do as
  hypotheses and shows mutual exclusion for the duration of the lease, under interleaved calls of several
  nodes, and that its queues meet \<open>queue_contract\<close>.

  \<^bold>\<open>The same over NATS\<close> (\<open>wfe-nats/src\<close>). \<open>Nats\<close>: mutual exclusion as long as the heartbeats are in time, with the
  requests of a release and of a heartbeat round interleaved one by one, also the releases of processes that do not
  hold the lock; what was acknowledged is read in order.
  Its schedules are executed by \<open>moves\<close>, which also shows what late or overlapping heartbeats lead to.

  \<^bold>\<open>Programs as steps.\<close> \<open>Step_Outputs\<close>: the output protocol and its three readers. \<open>Shell\<close>
  (\<open>executors/shell.rs\<close>): the environment and the run of a shell command; the operating system is a parameter.
  The loop over the pipes of a streamed child gets one poll per line and end of file, which is shown
  to be enough.

  \<^bold>\<open>Kubernetes\<close> (\<open>wfe-kubernetes/src\<close>). \<open>Kube_Manifests\<close>: names, environment and manifests of jobs and services;
  the names are accepted by the cluster. \<open>Kubernetes\<close>: the step (namespace, shared volume, artifacts, logs,
  waiting, clean-up) and the service provider, over a cluster that is a record of requests; loops that poll
  recurse on the number of attempts of the source. A run leaves the
  jobs of the cluster as they were, when deletions are carried out and a failed creation has created nothing.

  \<^bold>\<open>containerd\<close> (\<open>wfe-containerd/src\<close>). \<open>Containerd\<close>: image resolution, the runtime specification, artifacts as
  layers, the life of a container and the service provider, over a daemon that is a record of requests.
  Its lemmas are triples (from a precondition to a result or an error) over the \<open>?\<close> operator \<open>try_do\<close>.
  A container gets the configured user, and capabilities only as root; a started container is removed however the run ends. \<open>Requests\<close> holds the
  operator and the rules for quiet effects and triples, for all the executors below.

  \<^bold>\<open>Scripts.\<close> \<open>Deno\<close> (\<open>executors/deno\<close>): what a script can do is a step relation over the operations and imports,
  each with its permission check; whatever an engine runs, the hosts and files it reaches are allowed ones.

  \<^bold>\<open>Builds.\<close> \<open>Git_Repo\<close> (\<open>executors/git_repo.rs\<close>): a checkout is stored as an artifact and reused from there.
  \<open>Buildkit\<close> (\<open>wfe-buildkit/src/step.rs\<close>): the solve request and the artifacts that replace the build context.
  \<open>Rust_Tools\<close> (\<open>wfe-rustlang/src/cargo\<close>, \<open>rustup\<close>): command lines, installation of tools, results. \<open>Rustdoc\<close>
  (\<open>rustdoc/transformer.rs\<close>): the generated pages are complete and do not depend on the order of the index.

  \<^bold>\<open>Not modelled.\<close> Scheduling of the asynchronous runtime: the consumers are the bodies of their loops,
  and interleavings appear where a step or a handler itself calls back into the host. Client calls to
  external services (OpenSearch), the bindings of \<open>wfe-deno\<close>, the start-up code of the
  server and the command line client.
\<close>

end
